(* ===== verification/Launcher_Prelude.thy ===== *)
theory Launcher_Prelude
  imports Main "HOL-Library.Word" "HOL-Library.Char_ord" "HOL-Library.List_Lexorder"
    "HOL-Library.Sublist"
begin

unbundle bit_operations_syntax

text \<open>
  What the components of the launcher share, independent of any of its files.

  \<^item> Rust's \<open>Result\<close> with process death added: \<open>outcome\<close>, and procedures over an explicit
    state, \<open>proc\<close>, with \<open>and_then\<close> for the \<open>?\<close> operator and \<open>map_err\<close>.
  \<^item> The byte and string predicates of the Rust standard library the sources use
    (\<open>is_ascii_alphanumeric\<close>, \<open>starts_with\<close>, \<open>strip_prefix\<close>, UTF-8 validity); a Rust string is
    the list of its bytes, so \<open>length\<close> is \<open>str::len\<close>.
  \<^item> \<open>std::path\<close>: the components of a path and the operations on them.
  \<^item> \<open>BTreeMap\<close> as an association list kept strictly sorted by key.
\<close>

named_theorems proc_simps \<open>symbolic execution of procedures over the world\<close>
named_theorems byte_simps \<open>evaluation of the byte classes on concrete strings\<close>


section \<open>Results, and procedures over a state\<close>

text \<open>
  \<open>Ok\<close> and \<open>Err\<close> are Rust's. \<open>Crashed\<close> is no value of the program: it is what an observer
  sees of a call during which the process was killed. No error handler runs after it.
\<close>

datatype ('e, 'a) outcome = is_Ok: Ok 'a | is_Err: Err 'e | is_Crashed: Crashed

type_synonym ('w, 'e, 'a) proc = "'w \<Rightarrow> ('e, 'a) outcome \<times> 'w"

definition ret :: "'a \<Rightarrow> ('w, 'e, 'a) proc" where
  "ret a w = (Ok a, w)"

definition throw :: "'e \<Rightarrow> ('w, 'e, 'a) proc" where
  "throw e w = (Err e, w)"

definition and_then :: "('w, 'e, 'a) proc \<Rightarrow> ('a \<Rightarrow> ('w, 'e, 'b) proc) \<Rightarrow> ('w, 'e, 'b) proc" where
  "and_then m f w =
     (case m w of
        (Ok a, w') \<Rightarrow> f a w'
      | (Err e, w') \<Rightarrow> (Err e, w')
      | (Crashed, w') \<Rightarrow> (Crashed, w'))"

definition map_err :: "('e \<Rightarrow> 'f) \<Rightarrow> ('w, 'e, 'a) proc \<Rightarrow> ('w, 'f, 'a) proc" where
  "map_err g m w =
     (case m w of
        (Ok a, w') \<Rightarrow> (Ok a, w')
      | (Err e, w') \<Rightarrow> (Err (g e), w')
      | (Crashed, w') \<Rightarrow> (Crashed, w'))"

text \<open>A pure \<open>Result\<close> (\<open>Inl\<close> the error) used with \<open>?\<close> inside a procedure.\<close>

definition lift_result :: "'e + 'a \<Rightarrow> ('w, 'e, 'a) proc" where
  "lift_result r w = (case r of Inl e \<Rightarrow> (Err e, w) | Inr a \<Rightarrow> (Ok a, w))"

text \<open>\<open>ok_or\<close> and \<open>?\<close> on pure results.\<close>

definition ok_or :: "'e \<Rightarrow> 'a option \<Rightarrow> 'e + 'a" where
  "ok_or e x = (case x of Some a \<Rightarrow> Inr a | None \<Rightarrow> Inl e)"

definition try_with :: "'e + 'a \<Rightarrow> ('a \<Rightarrow> 'e + 'b) \<Rightarrow> 'e + 'b" where
  "try_with x f = (case x of Inl e \<Rightarrow> Inl e | Inr a \<Rightarrow> f a)"

lemma ret_run [proc_simps, simp]: "ret a w = (Ok a, w)"
  by (simp add: ret_def)

lemma throw_run [proc_simps, simp]: "throw e w = (Err e, w)"
  by (simp add: throw_def)

lemma lift_result_run [proc_simps, simp]:
  "lift_result (Inl e) w = (Err e, w)"
  "lift_result (Inr a) w = (Ok a, w)"
  by (simp_all add: lift_result_def)

lemma lift_result_Ok_iff: "lift_result r w = (Ok a, w') \<longleftrightarrow> r = Inr a \<and> w' = w"
  by (auto simp: lift_result_def split: sum.splits)

lemma try_with_Inr: "try_with x f = Inr b \<longleftrightarrow> (\<exists>a. x = Inr a \<and> f a = Inr b)"
  by (auto simp: try_with_def split: sum.splits)

lemma ok_or_Inr: "ok_or e x = Inr a \<longleftrightarrow> x = Some a"
  by (auto simp: ok_or_def split: option.splits)

lemmas result_simps = try_with_Inr ok_or_Inr

lemma map_err_Ok_iff: "map_err g m w = (Ok a, w') \<longleftrightarrow> m w = (Ok a, w')"
  by (auto simp: map_err_def split: prod.splits outcome.splits)

lemma and_then_OkI: "m w = (Ok a, w') \<Longrightarrow> and_then m f w = f a w'"
  by (simp add: and_then_def)

lemma and_then_ret: "and_then (ret a) f = f a"
  by (rule ext) (simp add: and_then_def)

lemma and_then_assoc: "and_then (and_then m f) g = and_then m (\<lambda>a. and_then (f a) g)"
  by (rule ext) (simp add: and_then_def split: prod.splits outcome.splits)

lemma and_then_Ok_iff:
  "and_then m f w = (Ok b, w'') \<longleftrightarrow> (\<exists>a w'. m w = (Ok a, w') \<and> f a w' = (Ok b, w''))"
  by (auto simp: and_then_def split: prod.splits outcome.splits)

text \<open>
  Postconditions. \<open>ensures m w Q\<close>: running \<open>m\<close> in \<open>w\<close> ends in an outcome and a state that
  satisfy \<open>Q\<close>, whether it returned, failed or was killed.
\<close>

definition ensures :: "('w, 'e, 'a) proc \<Rightarrow> 'w \<Rightarrow> (('e, 'a) outcome \<Rightarrow> 'w \<Rightarrow> bool) \<Rightarrow> bool" where
  "ensures m w Q \<longleftrightarrow> Q (fst (m w)) (snd (m w))"

lemma ensuresD: "ensures m w Q \<Longrightarrow> m w = (r, w') \<Longrightarrow> Q r w'"
  by (simp add: ensures_def)

lemma ensures_ret [simp]: "ensures (ret a) w Q \<longleftrightarrow> Q (Ok a) w"
  by (simp add: ensures_def)

lemma ensures_throw [simp]: "ensures (throw e) w Q \<longleftrightarrow> Q (Err e) w"
  by (simp add: ensures_def)

lemma ensures_lift_result:
  "ensures (lift_result r) w Q \<longleftrightarrow> (case r of Inl e \<Rightarrow> Q (Err e) w | Inr a \<Rightarrow> Q (Ok a) w)"
  by (simp add: ensures_def lift_result_def split: sum.splits)

lemma ensures_and_then:
  "ensures (and_then m f) w Q \<longleftrightarrow>
     ensures m w (\<lambda>r w'. case r of Ok a \<Rightarrow> ensures (f a) w' Q
                              | Err e \<Rightarrow> Q (Err e) w' | Crashed \<Rightarrow> Q Crashed w')"
  by (simp add: ensures_def and_then_def split: prod.splits outcome.splits)

lemma ensures_map_err:
  "ensures (map_err g m) w Q \<longleftrightarrow>
     ensures m w (\<lambda>r w'. case r of Ok a \<Rightarrow> Q (Ok a) w'
                              | Err e \<Rightarrow> Q (Err (g e)) w' | Crashed \<Rightarrow> Q Crashed w')"
  by (simp add: ensures_def map_err_def split: prod.splits outcome.splits)

lemma ensures_map_err_ok:
  "ensures (map_err g m) w (\<lambda>r. Q (is_Ok r)) \<longleftrightarrow> ensures m w (\<lambda>r. Q (is_Ok r))"
  by (simp add: ensures_def map_err_def split: prod.splits outcome.splits)

lemma ensures_mono:
  "ensures m w Q \<Longrightarrow> (\<And>r w'. Q r w' \<Longrightarrow> R r w') \<Longrightarrow> ensures m w R"
  by (simp add: ensures_def)


lemma ensures_and_thenI:
  assumes "ensures m w P"
    and "\<And>a w'. P (Ok a) w' \<Longrightarrow> ensures (f a) w' Q"
    and "\<And>e w'. P (Err e) w' \<Longrightarrow> Q (Err e) w'"
    and "\<And>w'. P Crashed w' \<Longrightarrow> Q Crashed w'"
  shows "ensures (and_then m f) w Q"
  using assms unfolding ensures_and_then
  by (auto intro!: ensures_mono [OF assms(1)] split: outcome.splits)

lemma ensures_and_then_ok:
  assumes "ensures m w (\<lambda>r. P (is_Ok r))"
    and "\<And>a w'. P True w' \<Longrightarrow> ensures (f a) w' (\<lambda>r. Q (is_Ok r))"
    and "\<And>w'. P False w' \<Longrightarrow> Q False w'"
  shows "ensures (and_then m f) w (\<lambda>r. Q (is_Ok r))"
  by (rule ensures_and_thenI [OF assms(1)]) (use assms(2,3) in auto)

text \<open>\<open>Option::is_some_and\<close> and \<open>Option::is_none_or\<close>.\<close>

definition is_some_and :: "('a \<Rightarrow> bool) \<Rightarrow> 'a option \<Rightarrow> bool" where
  "is_some_and f x = (case x of Some a \<Rightarrow> f a | None \<Rightarrow> False)"

definition is_none_or :: "('a \<Rightarrow> bool) \<Rightarrow> 'a option \<Rightarrow> bool" where
  "is_none_or f x = (case x of Some a \<Rightarrow> f a | None \<Rightarrow> True)"

lemma is_some_and_simps [simp]:
  "is_some_and f (Some a) = f a" "is_some_and f None = False"
  "is_none_or f (Some a) = f a" "is_none_or f None = True"
  by (simp_all add: is_some_and_def is_none_or_def)

lemma is_some_and_iff: "is_some_and f x \<longleftrightarrow> (\<exists>a. x = Some a \<and> f a)"
  by (cases x) simp_all

lemma not_is_none_or_iff: "\<not> is_none_or f x \<longleftrightarrow> (\<exists>a. x = Some a \<and> \<not> f a)"
  by (cases x) simp_all


section \<open>Bytes and strings\<close>

text \<open>The byte classes of \<open>u8\<close> in the Rust core library.\<close>

definition byte_in :: "char \<Rightarrow> char \<Rightarrow> char \<Rightarrow> bool" where
  "byte_in lo hi c \<longleftrightarrow> lo \<le> c \<and> c \<le> hi"

definition is_ascii_digit :: "char \<Rightarrow> bool" where
  "is_ascii_digit c \<longleftrightarrow> byte_in CHR ''0'' CHR ''9'' c"

definition is_ascii_uppercase :: "char \<Rightarrow> bool" where
  "is_ascii_uppercase c \<longleftrightarrow> byte_in CHR ''A'' CHR ''Z'' c"

definition is_ascii_lowercase :: "char \<Rightarrow> bool" where
  "is_ascii_lowercase c \<longleftrightarrow> byte_in CHR ''a'' CHR ''z'' c"

definition is_ascii_alphanumeric :: "char \<Rightarrow> bool" where
  "is_ascii_alphanumeric c \<longleftrightarrow> is_ascii_digit c \<or> is_ascii_uppercase c \<or> is_ascii_lowercase c"

definition is_ascii_hexdigit :: "char \<Rightarrow> bool" where
  "is_ascii_hexdigit c \<longleftrightarrow>
     is_ascii_digit c \<or> byte_in CHR ''A'' CHR ''F'' c \<or> byte_in CHR ''a'' CHR ''f'' c"

lemmas byte_class_defs [byte_simps] =
  byte_in_def is_ascii_digit_def is_ascii_uppercase_def is_ascii_lowercase_def
  is_ascii_alphanumeric_def is_ascii_hexdigit_def less_eq_char_def

text \<open>
  Two checks the sources repeat file by file: a bounded label (\<open>is_bounded_label\<close>,
  \<open>is_bounded_identifier\<close>, \<open>validate_authority_label\<close>) and a canonical SHA-256 identity.
\<close>

definition label_byte :: "char \<Rightarrow> bool" where
  "label_byte c \<longleftrightarrow> is_ascii_alphanumeric c \<or> c = CHR ''-'' \<or> c = CHR ''_'' \<or> c = CHR ''.''"

definition is_bounded_label :: "string \<Rightarrow> bool" where
  "is_bounded_label s \<longleftrightarrow> s \<noteq> [] \<and> length s \<le> 128 \<and> list_all label_byte s"

definition lower_hex_byte :: "char \<Rightarrow> bool" where
  "lower_hex_byte c \<longleftrightarrow> is_ascii_digit c \<or> byte_in CHR ''a'' CHR ''f'' c"

text \<open>\<open>str::starts_with\<close>, \<open>ends_with\<close>, \<open>strip_prefix\<close> and \<open>strip_suffix\<close>.\<close>

definition starts_with :: "string \<Rightarrow> string \<Rightarrow> bool" where
  "starts_with p s \<longleftrightarrow> take (length p) s = p"

definition ends_with :: "string \<Rightarrow> string \<Rightarrow> bool" where
  "ends_with q s \<longleftrightarrow> length q \<le> length s \<and> drop (length s - length q) s = q"

definition strip_prefix :: "string \<Rightarrow> string \<Rightarrow> string option" where
  "strip_prefix p s = (if starts_with p s then Some (drop (length p) s) else None)"

definition strip_suffix :: "string \<Rightarrow> string \<Rightarrow> string option" where
  "strip_suffix q s = (if ends_with q s then Some (take (length s - length q) s) else None)"

lemma strip_prefix_append [simp]: "strip_prefix p (p @ s) = Some s"
  by (simp add: strip_prefix_def starts_with_def)

lemma strip_suffix_append [simp]: "strip_suffix q (s @ q) = Some s"
  by (simp add: strip_suffix_def ends_with_def)

lemma starts_with_append [simp]: "starts_with p (p @ s)"
  by (simp add: starts_with_def)

lemma ends_with_append [simp]: "ends_with q (s @ q)"
  by (simp add: ends_with_def)

lemma strip_prefix_Some: "strip_prefix p s = Some t \<longleftrightarrow> s = p @ t"
  by (auto simp: strip_prefix_def starts_with_def) (metis append_take_drop_id)

definition is_sha256_identity :: "string \<Rightarrow> bool" where
  "is_sha256_identity s \<longleftrightarrow>
     length s = 71 \<and> starts_with ''sha256:'' s \<and> list_all lower_hex_byte (drop 7 s)"

lemma is_sha256_identity_iff:
  "is_sha256_identity s \<longleftrightarrow> (\<exists>h. s = ''sha256:'' @ h \<and> length h = 64 \<and> list_all lower_hex_byte h)"
proof
  assume h: "is_sha256_identity s"
  then have "take 7 s = ''sha256:''"
    by (simp add: is_sha256_identity_def starts_with_def eval_nat_numeral)
  then have "s = ''sha256:'' @ drop 7 s" by (metis append_take_drop_id)
  with h show "\<exists>h. s = ''sha256:'' @ h \<and> length h = 64 \<and> list_all lower_hex_byte h"
    unfolding is_sha256_identity_def by (intro exI [of _ "drop 7 s"]) simp
qed (auto simp: is_sha256_identity_def starts_with_def)

lemma is_sha256_identity_digest [simp]:
  "lower_hex_byte c \<Longrightarrow> is_sha256_identity (''sha256:'' @ replicate 64 c)"
  by (simp add: is_sha256_identity_iff list_all_iff)

text \<open>\<open>str::from_utf8\<close> / \<open>OsString::into_string\<close>: the bytes are valid UTF-8.\<close>

definition utf8_cont :: "char \<Rightarrow> bool" where
  "utf8_cont c \<longleftrightarrow> byte_in (CHR 0x80) (CHR 0xBF) c"

fun utf8_valid :: "string \<Rightarrow> bool" where
  "utf8_valid [] \<longleftrightarrow> True"
| "utf8_valid (a # xs) \<longleftrightarrow>
     (if a \<le> CHR 0x7F then utf8_valid xs
      else if byte_in (CHR 0xC2) (CHR 0xDF) a
        then (case xs of b # ys \<Rightarrow> utf8_cont b \<and> utf8_valid ys | [] \<Rightarrow> False)
      else if byte_in (CHR 0xE0) (CHR 0xEF) a
        then (case xs of b # c # ys \<Rightarrow>
                (if a = CHR 0xE0 then byte_in (CHR 0xA0) (CHR 0xBF) b
                 else if a = CHR 0xED then byte_in (CHR 0x80) (CHR 0x9F) b
                 else utf8_cont b) \<and> utf8_cont c \<and> utf8_valid ys
              | _ \<Rightarrow> False)
      else if byte_in (CHR 0xF0) (CHR 0xF4) a
        then (case xs of b # c # d # ys \<Rightarrow>
                (if a = CHR 0xF0 then byte_in (CHR 0x90) (CHR 0xBF) b
                 else if a = CHR 0xF4 then byte_in (CHR 0x80) (CHR 0x8F) b
                 else utf8_cont b) \<and> utf8_cont c \<and> utf8_cont d \<and> utf8_valid ys
              | _ \<Rightarrow> False)
      else False)"

lemma utf8_valid_ascii: "(\<And>c. c \<in> set s \<Longrightarrow> c \<le> CHR 0x7F) \<Longrightarrow> utf8_valid s"
  by (induction s) auto

lemma label_byte_ascii: "label_byte c \<Longrightarrow> c \<le> CHR 0x7F"
  by (auto simp: label_byte_def byte_class_defs)

lemma lower_hex_byte_ascii: "lower_hex_byte c \<Longrightarrow> c \<le> CHR 0x7F"
  by (auto simp: lower_hex_byte_def byte_class_defs)


text \<open>The decimal rendering of an unsigned number.\<close>

definition digit_char :: "nat \<Rightarrow> char" where
  "digit_char n = char_of (48 + n)"

fun decimal :: "nat \<Rightarrow> string" where
  "decimal n = (if n < 10 then [digit_char n] else decimal (n div 10) @ [digit_char (n mod 10)])"

declare decimal.simps [simp del]

section \<open>Paths\<close>

text \<open>
  \<open>std::path::Component\<close> (without the Windows prefix) and \<open>Path::components\<close> on Unix:
  repeated and trailing separators vanish, and \<open>.\<close> is kept only as the first component of a
  relative path. Equality, \<open>starts_with\<close> and \<open>parent\<close> of \<open>Path\<close> work on components.
\<close>

datatype component = RootDir | CurDir | ParentDir | Normal string

type_synonym path = "component list"

fun split_on :: "char \<Rightarrow> string \<Rightarrow> string list" where
  "split_on d [] = [[]]"
| "split_on d (c # cs) =
     (if c = d then [] # split_on d cs
      else (case split_on d cs of s # ss \<Rightarrow> (c # s) # ss | [] \<Rightarrow> [[c]]))"

definition component_of :: "string \<Rightarrow> component list" where
  "component_of s =
     (if s = [] \<or> s = ''.'' then [] else if s = ''..'' then [ParentDir] else [Normal s])"

definition path_is_absolute :: "string \<Rightarrow> bool" where
  "path_is_absolute s \<longleftrightarrow> starts_with ''/'' s"

definition components :: "string \<Rightarrow> path" where
  "components s =
     (if path_is_absolute s then [RootDir]
      else if hd (split_on CHR ''/'' s) = ''.'' then [CurDir] else [])
     @ concat (map component_of (split_on CHR ''/'' s))"

definition path_parent :: "path \<Rightarrow> path option" where
  "path_parent p =
     (case rev p of [] \<Rightarrow> None | RootDir # _ \<Rightarrow> None | _ # q \<Rightarrow> Some (rev q))"

definition path_join :: "path \<Rightarrow> string \<Rightarrow> path" where
  "path_join d name = d @ [Normal name]"

text \<open>\<open>Path::file_name\<close> and \<open>Path::file_stem\<close>: the stem ends before the last dot of a name.\<close>

definition file_name :: "path \<Rightarrow> string option" where
  "file_name p = (case rev p of Normal s # _ \<Rightarrow> Some s | _ \<Rightarrow> None)"

definition stem_of :: "string \<Rightarrow> string" where
  "stem_of s =
     (case dropWhile (\<lambda>c. c \<noteq> CHR ''.'') (rev s) of
        [] \<Rightarrow> s | [_] \<Rightarrow> s | _ # before \<Rightarrow> rev before)"

definition file_stem :: "path \<Rightarrow> string option" where
  "file_stem p = map_option stem_of (file_name p)"

lemma stem_of_append: "CHR ''.'' \<notin> set e \<Longrightarrow> h \<noteq> [] \<Longrightarrow> stem_of (h @ ''.'' @ e) = h"
proof -
  assume e: "CHR ''.'' \<notin> set e" and h: "h \<noteq> []"
  have "dropWhile (\<lambda>c. c \<noteq> CHR ''.'') (rev e @ ys) = dropWhile (\<lambda>c. c \<noteq> CHR ''.'') ys" for ys
    by (rule dropWhile_append2) (use e in auto)
  with h show ?thesis by (cases "rev h") (simp_all add: stem_of_def)
qed

lemma file_stem_join [simp]: "file_stem (path_join d n) = Some (stem_of n)"
  by (simp add: file_stem_def file_name_def path_join_def)

lemma path_join_inject [simp]: "path_join d a = path_join d b \<longleftrightarrow> a = b"
  by (simp add: path_join_def)

lemma path_join_neq_dir [simp]: "path_join d a \<noteq> d" "d \<noteq> path_join d a"
  by (simp_all add: path_join_def)

lemma component_of_no_root: "RootDir \<notin> set (component_of s)" "CurDir \<notin> set (component_of s)"
  by (simp_all add: component_of_def)

text \<open>An absolute path never has a \<open>.\<close> component, however it was spelled.\<close>

lemma absolute_no_curdir: "path_is_absolute s \<Longrightarrow> CurDir \<notin> set (components s)"
  using component_of_no_root by (auto simp: components_def)


section \<open>Ordered maps\<close>

text \<open>\<open>BTreeMap::insert\<close> on the entries in key order.\<close>

fun bt_insert :: "'k::linorder \<Rightarrow> 'v \<Rightarrow> ('k \<times> 'v) list \<Rightarrow> ('k \<times> 'v) list" where
  "bt_insert k v [] = [(k, v)]"
| "bt_insert k v (e # es) =
     (if k < fst e then (k, v) # e # es
      else if k = fst e then (k, v) # es
      else e # bt_insert k v es)"

abbreviation bt_ordered :: "('k::linorder \<times> 'v) list \<Rightarrow> bool" where
  "bt_ordered es \<equiv> sorted_wrt (<) (map fst es)"

lemma map_of_bt_insert [simp]: "map_of (bt_insert k v es) = (map_of es)(k \<mapsto> v)"
  by (induction es) (auto simp: fun_eq_iff)

lemma keys_bt_insert: "fst ` set (bt_insert k v es) = insert k (fst ` set es)"
  by (induction es) auto

lemma bt_ordered_insert: "bt_ordered es \<Longrightarrow> bt_ordered (bt_insert k v es)"
  using keys_bt_insert [of k v] by (induction es) (auto simp: image_iff)

lemma bt_ordered_distinct: "bt_ordered es \<Longrightarrow> distinct (map fst es)"
  by (simp add: strict_sorted_iff)

text \<open>Two ordered maps with the same lookups have the same entries in the same order.\<close>

lemma map_of_entries: "distinct (map fst xs) \<Longrightarrow> map (\<lambda>k. (k, the (map_of xs k))) (map fst xs) = xs"
  by (auto intro!: map_idI)

lemma bt_ordered_ext:
  assumes "bt_ordered xs" and "bt_ordered ys" and "map_of xs = map_of ys"
  shows "xs = ys"
proof -
  have d: "distinct (map fst xs)" "distinct (map fst ys)"
    using assms(1,2) by (auto intro: bt_ordered_distinct)
  have "fst ` set xs = fst ` set ys"
    using arg_cong [OF assms(3), of dom] by (simp add: dom_map_of_conv_image_fst)
  then have "map fst xs = map fst ys"
    using assms(1,2) by (metis set_map strict_sorted_equal)
  then show ?thesis
    using map_of_entries [OF d(1)] map_of_entries [OF d(2)] assms(3) by metis
qed

end
