(* ===== verification/Store_Fs.thy ===== *)
theory Store_Fs
  imports Launcher_Prelude "HOL-Library.AList"
begin

text \<open>
  The part of the operating system the launcher's protected stores rely on: files with owner,
  mode and content under directories, the system calls the code makes on them
  (\<open>create_new\<close>, \<open>write_all\<close>, \<open>sync_all\<close>, \<open>rename\<close>, \<open>remove_file\<close>, \<open>symlink_metadata\<close>,
  \<open>read_dir\<close>, whole-file reads), and a schedule of faults.

  A call pops one entry of the schedule. \<open>IoFault n\<close> makes it fail; a write has put the first
  \<open>n\<close> bytes into the file before. \<open>CrashFault n\<close> kills the process there, and again a write
  has put \<open>n\<close> bytes. An empty schedule is a run without faults. Calls happen one after the
  other and survive a killed process, as they do in the kernel; the loss of unsynced data at a
  power failure is not modelled, and neither is a second process writing into a protected
  directory, which only the launcher's own uid can.
\<close>


section \<open>Nodes, worlds, faults\<close>

type_synonym mode = "32 word"

datatype file_kind = RegularFile | Directory | Symlink | Socket | SpecialFile

record fnode =
  n_kind :: file_kind
  n_uid :: nat
  n_gid :: nat
  n_mode :: mode
  n_ino :: "nat \<times> nat"
  n_bytes :: string

datatype fault = NoFault | IoFault nat | CrashFault nat

record world =
  w_files :: "(path \<times> fnode) list"
  w_euid :: nat
  w_faults :: "fault list"

abbreviation node_at :: "world \<Rightarrow> path \<rightharpoonup> fnode" where
  "node_at w p \<equiv> map_of (w_files w) p"

datatype io_error = NotFound | AlreadyExists | OtherIo

type_synonym 'a io = "(world, io_error, 'a) proc"

definition put_node :: "path \<Rightarrow> fnode \<Rightarrow> world \<Rightarrow> world" where
  "put_node p n w = w\<lparr>w_files := AList.update p n (w_files w)\<rparr>"

definition del_node :: "path \<Rightarrow> world \<Rightarrow> world" where
  "del_node p w = w\<lparr>w_files := AList.delete p (w_files w)\<rparr>"

lemma node_at_put [simp]: "node_at (put_node p n w) = (node_at w)(p \<mapsto> n)"
  by (simp add: put_node_def update_conv' fun_eq_iff)

lemma node_at_del [simp]: "node_at (del_node p w) = (node_at w)(p := None)"
  by (simp add: del_node_def delete_conv' fun_eq_iff)

lemma put_del_faults [simp]:
  "w_faults (put_node p n w) = w_faults w" "w_faults (del_node p w) = w_faults w"
  "w_euid (put_node p n w) = w_euid w" "w_euid (del_node p w) = w_euid w"
  by (simp_all add: put_node_def del_node_def)


section \<open>System calls\<close>

text \<open>One fault is taken per call; \<open>done n\<close> is the state a call of \<open>n\<close> bytes leaves.\<close>

definition faulty :: "(nat \<Rightarrow> world \<Rightarrow> world) \<Rightarrow> 'a io \<Rightarrow> 'a io" where
  "faulty partial m w =
     (case w_faults w of
        [] \<Rightarrow> m w
      | f # fs \<Rightarrow>
         (let w' = w\<lparr>w_faults := fs\<rparr> in
          case f of NoFault \<Rightarrow> m w'
          | IoFault n \<Rightarrow> (Err OtherIo, partial n w')
          | CrashFault n \<Rightarrow> (Crashed, partial n w')))"

abbreviation (input) untouched :: "nat \<Rightarrow> world \<Rightarrow> world" where
  "untouched \<equiv> (\<lambda>_ w. w)"

definition new_node :: "world \<Rightarrow> mode \<Rightarrow> fnode" where
  "new_node w m =
     \<lparr>n_kind = RegularFile, n_uid = w_euid w, n_gid = 0, n_mode = m,
      n_ino = (0, Suc (length (w_files w))), n_bytes = []\<rparr>"

text \<open>\<open>open\<close> with \<open>O_CREAT | O_EXCL | O_NOFOLLOW\<close> and a creation mode.\<close>

definition create_new :: "path \<Rightarrow> mode \<Rightarrow> unit io" where
  "create_new p m =
     faulty untouched (\<lambda>w.
       case node_at w p of
         Some _ \<Rightarrow> (Err AlreadyExists, w)
       | None \<Rightarrow>
          (case node_at w (butlast p) of
             Some d \<Rightarrow> if n_kind d = Directory then (Ok (), put_node p (new_node w m) w)
                       else (Err OtherIo, w)
           | None \<Rightarrow> (Err NotFound, w)))"

definition append_bytes :: "path \<Rightarrow> string \<Rightarrow> world \<Rightarrow> world" where
  "append_bytes p bs w =
     (case node_at w p of
        Some n \<Rightarrow> put_node p (n\<lparr>n_bytes := n_bytes n @ bs\<rparr>) w
      | None \<Rightarrow> w)"

text \<open>\<open>write_all\<close> on the file just opened at \<open>p\<close>: a failed write leaves a prefix behind.\<close>

definition write_all :: "path \<Rightarrow> string \<Rightarrow> unit io" where
  "write_all p bs = faulty (\<lambda>n. append_bytes p (take n bs)) (\<lambda>w. (Ok (), append_bytes p bs w))"

definition sync_all :: "unit io" where
  "sync_all = faulty untouched (\<lambda>w. (Ok (), w))"

definition rename_file :: "path \<Rightarrow> path \<Rightarrow> unit io" where
  "rename_file a b =
     faulty untouched (\<lambda>w.
       case node_at w a of
         None \<Rightarrow> (Err NotFound, w)
       | Some n \<Rightarrow> (Ok (), if a = b then w else del_node a (put_node b n w)))"

definition remove_file :: "path \<Rightarrow> unit io" where
  "remove_file p =
     faulty untouched (\<lambda>w.
       case node_at w p of None \<Rightarrow> (Err NotFound, w) | Some _ \<Rightarrow> (Ok (), del_node p w))"

definition symlink_metadata :: "path \<Rightarrow> fnode io" where
  "symlink_metadata p =
     faulty untouched (\<lambda>w.
       case node_at w p of None \<Rightarrow> (Err NotFound, w) | Some n \<Rightarrow> (Ok n, w))"

text \<open>\<open>open\<close> with \<open>O_RDONLY | O_NOFOLLOW\<close>, then a read of at most \<open>limit\<close> bytes.\<close>

definition open_nofollow :: "path \<Rightarrow> fnode io" where
  "open_nofollow p =
     faulty untouched (\<lambda>w.
       case node_at w p of
         None \<Rightarrow> (Err NotFound, w)
       | Some n \<Rightarrow> if n_kind n = Symlink then (Err OtherIo, w) else (Ok n, w))"

definition read_to_end :: "fnode \<Rightarrow> string io" where
  "read_to_end n = faulty untouched (\<lambda>w. (Ok (n_bytes n), w))"

text \<open>\<open>read_dir\<close>: the names under a directory, here already in the order of \<open>file_name\<close>.\<close>

definition name_in :: "path \<Rightarrow> path \<Rightarrow> string list" where
  "name_in d p = (case rev p of Normal s # r \<Rightarrow> if rev r = d then [s] else [] | _ \<Rightarrow> [])"

definition dir_names :: "world \<Rightarrow> path \<Rightarrow> string list" where
  "dir_names w d = sort (remdups (concat (map (name_in d \<circ> fst) (w_files w))))"

definition read_dir :: "path \<Rightarrow> string list io" where
  "read_dir d =
     faulty untouched (\<lambda>w.
       case node_at w d of
         None \<Rightarrow> (Err NotFound, w)
       | Some n \<Rightarrow> if n_kind n = Directory then (Ok (dir_names w d), w) else (Err OtherIo, w))"

text \<open>\<open>File::open(directory)\<close> followed by \<open>sync_all\<close>.\<close>

definition sync_dir :: "path \<Rightarrow> unit io" where
  "sync_dir d = and_then (open_nofollow d) (\<lambda>_. sync_all)"

lemmas syscall_defs =
  create_new_def write_all_def sync_all_def rename_file_def remove_file_def
  symlink_metadata_def open_nofollow_def read_to_end_def read_dir_def sync_dir_def

lemma set_name_in [simp]: "set (name_in d p) = {s. p = path_join d s}"
  by (cases p rule: rev_cases) (auto simp: name_in_def path_join_def split: component.splits)

lemma dir_names_set: "set (dir_names w d) = {s. node_at w (path_join d s) \<noteq> None}"
  by (auto simp: dir_names_def map_of_eq_None_iff image_iff) (metis fst_conv)+

lemma dir_names_order: "sorted (dir_names w d)" "distinct (dir_names w d)"
  by (simp_all add: dir_names_def)


section \<open>Running a call under any fault\<close>

lemma ensures_faulty:
  assumes "\<And>fs. ensures m (w\<lparr>w_faults := fs\<rparr>) Q"
    and "\<And>n fs. Q (Err OtherIo) (partial n (w\<lparr>w_faults := fs\<rparr>))"
    and "\<And>n fs. Q Crashed (partial n (w\<lparr>w_faults := fs\<rparr>))"
  shows "ensures (faulty partial m) w Q"
proof (cases "w_faults w")
  case Nil
  then have "w\<lparr>w_faults := []\<rparr> = w" by simp
  with Nil assms(1) [of "[]"] show ?thesis by (simp add: ensures_def faulty_def)
next
  case (Cons f fs)
  with assms show ?thesis by (cases f) (simp_all add: ensures_def faulty_def)
qed

lemma faulty_no_faults: "w_faults w = [] \<Longrightarrow> faulty partial m w = m w"
  by (simp add: faulty_def)

text \<open>\<open>same_except S w w'\<close>: only the paths in \<open>S\<close> may differ between the two worlds.\<close>

definition same_except :: "path set \<Rightarrow> world \<Rightarrow> world \<Rightarrow> bool" where
  "same_except S w w' \<longleftrightarrow> (\<forall>q. q \<notin> S \<longrightarrow> node_at w' q = node_at w q) \<and> w_euid w' = w_euid w"

lemma same_except_refl [simp]: "same_except S w w"
  by (simp add: same_except_def)

lemma same_except_faults [simp]:
  "same_except S w (w'\<lparr>w_faults := fs\<rparr>) = same_except S w w'"
  "same_except S (w\<lparr>w_faults := fs\<rparr>) w' = same_except S w w'"
  by (simp_all add: same_except_def)

lemma same_except_trans:
  "same_except S w w' \<Longrightarrow> same_except T w' w'' \<Longrightarrow> S \<union> T \<subseteq> U \<Longrightarrow> same_except U w w''"
  unfolding same_except_def by (metis Un_subset_iff subsetD)

lemma same_exceptD: "same_except S w w' \<Longrightarrow> q \<notin> S \<Longrightarrow> node_at w' q = node_at w q"
  by (simp add: same_except_def)

lemma same_except_put: "p \<in> S \<Longrightarrow> same_except S w (put_node p n w)"
  by (auto simp: same_except_def)

lemma same_except_del: "p \<in> S \<Longrightarrow> same_except S w (del_node p w)"
  by (auto simp: same_except_def)


section \<open>Creating a file and replacing one\<close>

text \<open>
  The writing half of every store of the launcher: the opened file is given its chunks in turn
  and then synced.
\<close>

fun write_chunks :: "path \<Rightarrow> string list \<Rightarrow> unit io" where
  "write_chunks p [] = sync_all"
| "write_chunks p (c # cs) = and_then (write_all p c) (\<lambda>_. write_chunks p cs)"

definition file_node :: "world \<Rightarrow> mode \<Rightarrow> string \<Rightarrow> fnode" where
  "file_node w m bs = (new_node w m)\<lparr>n_bytes := bs\<rparr>"

lemma file_node_sel [simp]:
  "n_kind (file_node w m bs) = RegularFile" "n_uid (file_node w m bs) = w_euid w"
  "n_mode (file_node w m bs) = m" "n_bytes (file_node w m bs) = bs"
  by (simp_all add: file_node_def new_node_def)

lemma new_node_file_node: "new_node w m = file_node w m []"
  by (simp add: file_node_def new_node_def)

lemma file_node_bytes [simp]: "(file_node w m bs)\<lparr>n_bytes := cs\<rparr> = file_node w m cs"
  by (simp add: file_node_def)

text \<open>
  \<open>wrote p n bs w ok w'\<close>: of the bytes \<open>bs\<close> appended to the node \<open>n\<close> at \<open>p\<close>, a prefix has
  arrived, all of them if the call was \<open>ok\<close>, and nothing else has changed.
\<close>

definition wrote :: "path \<Rightarrow> fnode \<Rightarrow> string \<Rightarrow> world \<Rightarrow> bool \<Rightarrow> world \<Rightarrow> bool" where
  "wrote p n bs w ok w' \<longleftrightarrow>
     same_except {p} w w' \<and>
     (\<exists>k. node_at w' p = Some (n\<lparr>n_bytes := n_bytes n @ take k bs\<rparr>)) \<and>
     (ok \<longrightarrow> node_at w' p = Some (n\<lparr>n_bytes := n_bytes n @ bs\<rparr>))"

lemma wrote_all:
  "same_except {p} w w' \<Longrightarrow> node_at w' p = Some (n\<lparr>n_bytes := n_bytes n @ bs\<rparr>) \<Longrightarrow> wrote p n bs w ok w'"
  unfolding wrote_def by (metis append_Nil2 append_take_drop_id drop_all order_refl)

lemma wrote_some:
  "same_except {p} w w' \<Longrightarrow> node_at w' p = Some (n\<lparr>n_bytes := n_bytes n @ take k bs\<rparr>) \<Longrightarrow>
   wrote p n bs w False w'"
  unfolding wrote_def by blast

lemma wrote_trans:
  assumes "wrote p n a w True w'" and "wrote p (n\<lparr>n_bytes := n_bytes n @ a\<rparr>) b w' ok w''"
  shows "wrote p n (a @ b) w ok w''"
proof -
  from assms(2) obtain k where
    "node_at w'' p = Some (n\<lparr>n_bytes := n_bytes n @ a @ take k b\<rparr>)" by (auto simp: wrote_def)
  moreover have "a @ take k b = take (length a + k) (a @ b)" by simp
  ultimately have "\<exists>k. node_at w'' p = Some (n\<lparr>n_bytes := n_bytes n @ take k (a @ b)\<rparr>)" by metis
  with assms show ?thesis by (auto simp: wrote_def intro: same_except_trans)
qed

lemma wrote_failed:
  assumes "wrote p n a w False w'"
  shows "wrote p n (a @ b) w False w'"
proof -
  from assms obtain k where k: "node_at w' p = Some (n\<lparr>n_bytes := n_bytes n @ take k a\<rparr>)"
    and same: "same_except {p} w w'" by (auto simp: wrote_def)
  have "take k a = take (min k (length a)) (a @ b)" by (simp add: min_def)
  with k have "node_at w' p = Some (n\<lparr>n_bytes := n_bytes n @ take (min k (length a)) (a @ b)\<rparr>)"
    by simp
  then show ?thesis by (rule wrote_some [OF same])
qed

lemma write_all_wrote:
  "node_at w p = Some n \<Longrightarrow> ensures (write_all p c) w (\<lambda>r. wrote p n c w (is_Ok r))"
  unfolding write_all_def
  by (rule ensures_faulty)
     (auto simp: ensures_def append_bytes_def same_except_def intro: wrote_all wrote_some)

lemma sync_all_wrote:
  "node_at w p = Some n \<Longrightarrow> ensures sync_all w (\<lambda>r. wrote p n [] w (is_Ok r))"
  unfolding sync_all_def by (rule ensures_faulty) (auto simp: ensures_def wrote_def)

lemma write_chunks_wrote:
  "node_at w p = Some n \<Longrightarrow> ensures (write_chunks p cs) w (\<lambda>r. wrote p n (concat cs) w (is_Ok r))"
proof (induction cs arbitrary: w n)
  case Nil
  then show ?case by (simp add: sync_all_wrote)
next
  case (Cons c cs)
  have "ensures (write_chunks p cs) w' (\<lambda>r. wrote p n (c @ concat cs) w (is_Ok r))"
    if step: "wrote p n c w True w'" for w'
  proof -
    from step have "node_at w' p = Some (n\<lparr>n_bytes := n_bytes n @ c\<rparr>)" by (simp add: wrote_def)
    from Cons.IH [OF this] show ?thesis by (rule ensures_mono) (rule wrote_trans [OF step])
  qed
  with Cons.prems show ?case
    by (auto simp: ensures_and_then split: outcome.splits
        intro!: ensures_mono [OF write_all_wrote] intro: wrote_failed)
qed

text \<open>
  \<open>created p m bs w ok w'\<close>: what an exclusive creation of \<open>p\<close> with content \<open>bs\<close> may leave: the
  world as it was, or a new file holding a prefix; the whole file if it was \<open>ok\<close>.
\<close>

definition created :: "path \<Rightarrow> mode \<Rightarrow> string \<Rightarrow> world \<Rightarrow> bool \<Rightarrow> world \<Rightarrow> bool" where
  "created p m bs w ok w' \<longleftrightarrow>
     same_except {p} w w' \<and>
     (if ok then node_at w p = None \<and> node_at w' p = Some (file_node w m bs)
      else node_at w' p = node_at w p
        \<or> node_at w p = None \<and> (\<exists>k. node_at w' p = Some (file_node w m (take k bs))))"

lemma create_new_created: "ensures (create_new p m) w (\<lambda>r. created p m [] w (is_Ok r))"
  unfolding create_new_def
  by (rule ensures_faulty)
     (auto simp: ensures_def created_def same_except_def file_node_def new_node_def
       split: option.splits)

lemma created_more: "created p m [] w False w' \<Longrightarrow> created p m bs w False w'"
  by (auto simp: created_def) (metis take_0)

lemma created_empty: "created p m [] w True w' \<Longrightarrow> created p m bs w False w'"
  by (auto simp: created_def) (metis take_0)

lemma created_wrote:
  "created p m [] w True w' \<Longrightarrow> wrote p (file_node w m []) bs w' ok w'' \<Longrightarrow> created p m bs w ok w''"
  by (auto simp: created_def wrote_def intro: same_except_trans)

text \<open>Creating a file and writing its chunks, as every store of the launcher does.\<close>

lemma create_write_created:
  "ensures (and_then (map_err f (create_new p m)) (\<lambda>_. map_err g (write_chunks p cs))) w
     (\<lambda>r. created p m (concat cs) w (is_Ok r))"
proof (rule ensures_and_then_ok)
  show "ensures (map_err f (create_new p m)) w (\<lambda>r. created p m [] w (is_Ok r))"
    by (simp add: ensures_map_err_ok create_new_created)
next
  fix w'
  assume new: "created p m [] w True w'"
  then have "node_at w' p = Some (file_node w m [])" by (simp add: created_def)
  from write_chunks_wrote [OF this, of cs]
  have "ensures (write_chunks p cs) w' (\<lambda>r. created p m (concat cs) w (is_Ok r))"
    by (rule ensures_mono) (use new in \<open>auto intro: created_wrote\<close>)
  then show "ensures (map_err g (write_chunks p cs)) w' (\<lambda>r. created p m (concat cs) w (is_Ok r))"
    by (simp add: ensures_map_err_ok)
qed (rule created_more)

text \<open>
  \<open>replaced tmp dst m bs w ok w'\<close>: what a replacement of \<open>dst\<close> through the temporary file
  \<open>tmp\<close> may leave: nothing done, a prefix in \<open>tmp\<close> with \<open>dst\<close> as it was, or \<open>dst\<close> holding all of
  \<open>bs\<close> and no temporary file; the last if it was \<open>ok\<close>.
\<close>

definition replaced :: "path \<Rightarrow> path \<Rightarrow> mode \<Rightarrow> string \<Rightarrow> world \<Rightarrow> bool \<Rightarrow> world \<Rightarrow> bool" where
  "replaced tmp dst m bs w ok w' \<longleftrightarrow>
     same_except {tmp, dst} w w' \<and>
     (\<not> ok \<and> node_at w' dst = node_at w dst \<and> node_at w' tmp = node_at w tmp
      \<or> \<not> ok \<and> node_at w tmp = None \<and> node_at w' dst = node_at w dst \<and>
        (\<exists>k. node_at w' tmp = Some (file_node w m (take k bs)))
      \<or> node_at w tmp = None \<and> node_at w' tmp = None \<and> node_at w' dst = Some (file_node w m bs))"

lemma replaced_created_failed:
  "created tmp m bs w False w' \<Longrightarrow> tmp \<noteq> dst \<Longrightarrow> replaced tmp dst m bs w False w'"
  unfolding replaced_def created_def by (auto simp: same_except_def)

lemma replaced_left_temp:
  assumes "created tmp m bs w True w'" and "same_except {} w' w''" and "tmp \<noteq> dst"
  shows "replaced tmp dst m bs w False w''"
proof -
  have "\<exists>k. node_at w'' tmp = Some (file_node w m (take k bs))"
    by (rule exI [of _ "length bs"]) (use assms in \<open>simp add: created_def same_except_def\<close>)
  moreover have "same_except {tmp, dst} w w''" "node_at w'' dst = node_at w dst" "node_at w tmp = None"
    using assms by (auto simp: created_def same_except_def)
  ultimately show ?thesis unfolding replaced_def by blast
qed

lemma replaced_withdrawn:
  "created tmp m bs w True w' \<Longrightarrow> same_except {tmp} w' w'' \<Longrightarrow> node_at w'' tmp = None \<Longrightarrow>
   tmp \<noteq> dst \<Longrightarrow> replaced tmp dst m bs w False w''"
  unfolding replaced_def created_def by (auto simp: same_except_def)

lemma replaced_installed:
  "created tmp m bs w True w' \<Longrightarrow> same_except {tmp, dst} w' w'' \<Longrightarrow> node_at w'' tmp = None \<Longrightarrow>
   node_at w'' dst = Some (file_node w m bs) \<Longrightarrow> replaced tmp dst m bs w ok w''"
  unfolding replaced_def created_def by (auto simp: same_except_def)

lemma replaced_then:
  "replaced tmp dst m bs w True w' \<Longrightarrow> same_except {} w' w'' \<Longrightarrow> replaced tmp dst m bs w ok w''"
  unfolding replaced_def by (auto simp: same_except_def)

text \<open>The calls after the temporary file is complete.\<close>

lemma rename_ensures:
  assumes "node_at w a = Some n" and "a \<noteq> b"
  shows "ensures (rename_file a b) w (\<lambda>r w'.
    if is_Ok r then same_except {a, b} w w' \<and> node_at w' a = None \<and> node_at w' b = Some n
    else same_except {} w w')"
  unfolding rename_file_def
  by (rule ensures_faulty) (use assms in \<open>auto simp: ensures_def same_except_def\<close>)

lemma remove_ensures:
  "ensures (remove_file p) w (\<lambda>r w'.
     if is_Ok r then node_at w p \<noteq> None \<and> same_except {p} w w' \<and> node_at w' p = None
     else same_except {} w w')"
  unfolding remove_file_def
  by (rule ensures_faulty) (auto simp: ensures_def same_except_def split: option.splits)

text \<open>Calls that only look.\<close>

lemma look_ensures:
  "ensures (symlink_metadata p) w (\<lambda>r w'. same_except {} w w' \<and> (\<forall>n. r = Ok n \<longrightarrow> node_at w p = Some n))"
  "ensures (open_nofollow p) w (\<lambda>r w'. same_except {} w w' \<and>
     (\<forall>n. r = Ok n \<longrightarrow> node_at w p = Some n \<and> n_kind n \<noteq> Symlink))"
  "ensures (read_to_end n) w (\<lambda>r w'. same_except {} w w' \<and> (\<forall>bs. r = Ok bs \<longrightarrow> bs = n_bytes n))"
  "ensures sync_all w (\<lambda>r w'. same_except {} w w')"
  unfolding syscall_defs
  by (rule ensures_faulty; auto simp: ensures_def split: option.splits)+

lemma sync_dir_ensures: "ensures (sync_dir d) w (\<lambda>r w'. same_except {} w w')"
  unfolding sync_dir_def
  by (rule ensures_and_thenI [OF look_ensures(2)])
     (auto intro: ensures_mono [OF look_ensures(4)] same_except_trans)

text \<open>
  \<open>touches S m\<close>: whatever happens, \<open>m\<close> changes no path outside \<open>S\<close>.
\<close>

definition touches :: "path set \<Rightarrow> (world, 'e, 'a) proc \<Rightarrow> bool" where
  "touches S m \<longleftrightarrow> (\<forall>w. ensures m w (\<lambda>r w'. same_except S w w'))"

named_theorems touches_intros \<open>procedures that change only some paths\<close>

lemma touchesD: "touches S m \<Longrightarrow> m w = (r, w') \<Longrightarrow> same_except S w w'"
  unfolding touches_def by (auto dest: ensuresD)

lemma touchesI: "(\<And>w r w'. m w = (r, w') \<Longrightarrow> same_except S w w') \<Longrightarrow> touches S m"
  unfolding touches_def ensures_def by (metis prod.collapse)

lemma touches_basic [touches_intros]: "touches S (ret a)" "touches S (throw e)" "touches S (lift_result x)"
  by (auto simp: touches_def ensures_lift_result split: sum.splits)

lemma touches_and_then [touches_intros]:
  assumes "touches S m" and "\<And>a. touches S (f a)"
  shows "touches S (and_then m f)"
proof (rule touchesI)
  fix w r w' assume run: "and_then m f w = (r, w')"
  obtain q w1 where m: "m w = (q, w1)" by fastforce
  from touchesD [OF assms(1) m] have "same_except S w w1" .
  moreover have "same_except S w1 w'" if "q = Ok a" for a
    using that run m by (auto simp: and_then_def intro: touchesD [OF assms(2)])
  ultimately show "same_except S w w'"
    using run m by (cases q) (auto simp: and_then_def intro: same_except_trans [of S w w1 S w' S])
qed

lemma touches_lift_then:
  "(\<And>a. x = Inr a \<Longrightarrow> touches S (f a)) \<Longrightarrow> touches S (and_then (lift_result x) f)"
  by (cases x) (auto intro!: touchesI dest: touchesD simp: and_then_def)

lemma touches_map_err [touches_intros]: "touches S m \<Longrightarrow> touches S (map_err g m)"
  by (rule touchesI) (auto simp: map_err_def split: prod.splits outcome.splits dest: touchesD)

lemma touches_if [touches_intros]: "touches S m \<Longrightarrow> touches S n \<Longrightarrow> touches S (if b then m else n)"
  by simp

lemma touches_option [touches_intros]:
  "touches S m \<Longrightarrow> (\<And>a. touches S (f a)) \<Longrightarrow> touches S (case x of None \<Rightarrow> m | Some a \<Rightarrow> f a)"
  by (cases x) simp_all

lemma touches_faulty: "touches A m \<Longrightarrow> touches A (faulty untouched m)"
proof (rule touchesI)
  fix w r w'
  assume m: "touches A m" and run: "faulty untouched m w = (r, w')"
  have "ensures (faulty untouched m) w (\<lambda>r. same_except A w)"
  proof (rule ensures_faulty)
    fix fs
    from touchesD [OF m prod.collapse [symmetric], of "w\<lparr>w_faults := fs\<rparr>"]
    show "ensures m (w\<lparr>w_faults := fs\<rparr>) (\<lambda>r. same_except A w)" by (simp add: ensures_def)
  qed simp_all
  from ensuresD [OF this run] show "same_except A w w'" .
qed

lemma ensures_touches: "touches A m \<Longrightarrow> (\<And>ok w'. same_except A w w' \<Longrightarrow> Q ok w') \<Longrightarrow> ensures m w (\<lambda>r. Q (is_Ok r))"
  unfolding ensures_def by (metis prod.collapse touchesD)

lemma touches_mono: "touches S m \<Longrightarrow> S \<subseteq> T \<Longrightarrow> touches T m"
  by (rule touchesI) (metis same_except_def subsetD touchesD)

lemma touches_looks [touches_intros]:
  "touches S (symlink_metadata p)" "touches S (open_nofollow p)" "touches S (read_to_end n)"
  "touches S sync_all" "touches S (sync_dir d)"
proof -
  have "touches {} (symlink_metadata p)" "touches {} (open_nofollow p)" "touches {} (read_to_end n)"
    "touches {} sync_all" "touches {} (sync_dir d)"
    unfolding touches_def using look_ensures sync_dir_ensures by (blast intro: ensures_mono)+
  then show "touches S (symlink_metadata p)" "touches S (open_nofollow p)" "touches S (read_to_end n)"
    "touches S sync_all" "touches S (sync_dir d)"
    by (auto intro: touches_mono)
qed

lemma touches_remove [touches_intros]: "touches {p} (remove_file p)"
  unfolding touches_def
  by (intro allI ensures_mono [OF remove_ensures]) (auto simp: same_except_def split: if_splits)

text \<open>
  A rename of a complete temporary file over \<open>dst\<close>. \<open>rename_then\<close> continues after it with a
  call that only looks; \<open>rename_or_withdraw\<close> removes the temporary file when it fails.
\<close>

lemma rename_replaced:
  assumes "created tmp m bs w True w'" and "tmp \<noteq> dst"
  shows "ensures (rename_file tmp dst) w' (\<lambda>r. replaced tmp dst m bs w (is_Ok r))"
proof -
  from assms have "node_at w' tmp = Some (file_node w m bs)" by (simp add: created_def)
  from rename_ensures [OF this assms(2)] show ?thesis
    by (rule ensures_mono)
       (use assms in \<open>auto split: if_splits intro: replaced_installed replaced_left_temp\<close>)
qed

text \<open>
  The interface the journals rely on: an operation that replaces one file through a temporary
  one, whatever faults it meets. Each store of the launcher is an instance.
\<close>

locale atomic_replacement =
  fixes replace :: "'a \<Rightarrow> (world, 'e, unit) proc"
    and tmp :: "'a \<Rightarrow> path" and dst :: "'a \<Rightarrow> path"
    and content :: "'a \<Rightarrow> string option" and file_mode :: mode
  assumes contract: "tmp a \<noteq> dst a \<Longrightarrow> content a = Some bs \<Longrightarrow>
      ensures (replace a) w (\<lambda>r. replaced (tmp a) (dst a) file_mode bs w (is_Ok r))"
    and no_content: "content a = None \<Longrightarrow>
      ensures (replace a) w (\<lambda>r w'. \<not> is_Ok r \<and> same_except {tmp a} w w')"
begin

lemma old_or_new:
  assumes "tmp a \<noteq> dst a" and "content a = Some bs" and "replace a w = (r, w')"
  shows "node_at w' (dst a) = node_at w (dst a) \<or> node_at w' (dst a) = Some (file_node w file_mode bs)"
  using ensuresD [OF contract [OF assms(1,2)] assms(3)] by (auto simp: replaced_def)

lemma ok_installed:
  assumes "tmp a \<noteq> dst a" and "replace a w = (Ok (), w')"
  shows "\<exists>bs. content a = Some bs \<and> node_at w' (dst a) = Some (file_node w file_mode bs) \<and>
    node_at w' (tmp a) = None"
proof (cases "content a")
  case None
  from ensuresD [OF no_content [OF None] assms(2)] show ?thesis by simp
next
  case (Some bs)
  from ensuresD [OF contract [OF assms(1) Some] assms(2)] Some show ?thesis
    by (auto simp: replaced_def)
qed

lemma others_untouched:
  assumes "tmp a \<noteq> dst a" and "replace a w = (r, w')"
  shows "same_except {tmp a, dst a} w w'"
proof (cases "content a")
  case None
  from ensuresD [OF no_content [OF None] assms(2)] show ?thesis
    by (simp add: same_except_def)
next
  case (Some bs)
  from ensuresD [OF contract [OF assms(1) Some] assms(2)] show ?thesis
    by (simp add: replaced_def)
qed

end

end
