(* ===== verification/Protected_Path.thy ===== *)
theory Protected_Path
  imports Store_Fs
begin

text \<open>
  \<open>verify_protected_path\<close> of \<open>src/config.rs\<close>: the walk from a path up to a trusted root that
  every configuration file, executable and store directory of the launcher passes before it is
  used. The walk is over the reversed components, so that \<open>Path::parent\<close> is a structural step.
\<close>

datatype config_error =
  Unavailable | Malformed | Unprotected | Unsupported | AuthorityUnavailable

datatype protected_path_kind = ProtectedFile | ProtectedExecutable | ProtectedDirectory

definition path_absolute :: "path \<Rightarrow> bool" where
  "path_absolute p \<longleftrightarrow> (case p of RootDir # _ \<Rightarrow> True | _ \<Rightarrow> False)"

text \<open>Octal constants of the source: \<open>0o022\<close> is 18, \<open>0o111\<close> is 73, \<open>0o6000\<close> is 3072.\<close>

definition kind_valid :: "protected_path_kind \<Rightarrow> fnode \<Rightarrow> bool" where
  "kind_valid k n =
     (case k of
        ProtectedFile \<Rightarrow> n_kind n = RegularFile
      | ProtectedExecutable \<Rightarrow>
          n_kind n = RegularFile \<and> n_mode n AND 73 \<noteq> 0 \<and> n_mode n AND 3072 = 0
      | ProtectedDirectory \<Rightarrow> n_kind n = Directory)"

fun verify_candidates ::
  "path \<Rightarrow> nat \<Rightarrow> path \<Rightarrow> protected_path_kind \<Rightarrow> component list \<Rightarrow> (world, config_error, unit) proc"
where
  "verify_candidates p uid root k [] = throw Unprotected"
| "verify_candidates p uid root k (c # cs) =
     (let candidate = rev (c # cs) in
      and_then (map_err (\<lambda>_. Unavailable) (symlink_metadata candidate)) (\<lambda>n.
        if n_kind n = Symlink \<or> n_uid n \<noteq> uid \<or> n_mode n AND 18 \<noteq> 0 then throw Unprotected
        else if candidate = p \<and> \<not> kind_valid k n then throw Unprotected
        else if candidate \<noteq> p \<and> n_kind n \<noteq> Directory then throw Unprotected
        else if candidate = root then ret ()
        else if c = RootDir then throw Unprotected
        else verify_candidates p uid root k cs))"

definition verify_protected_path ::
  "path \<Rightarrow> nat \<Rightarrow> path \<Rightarrow> protected_path_kind \<Rightarrow> (world, config_error, unit) proc" where
  "verify_protected_path p uid root k =
     (if \<not> path_absolute p \<or> \<not> path_absolute root \<or> \<not> prefix root p then throw Unprotected
      else verify_candidates p uid root k (rev p))"

definition verify_protected_directory :: "path \<Rightarrow> nat \<Rightarrow> path \<Rightarrow> (world, config_error, unit) proc" where
  "verify_protected_directory p uid root = verify_protected_path p uid root ProtectedDirectory"

definition verify_protected_executable :: "path \<Rightarrow> nat \<Rightarrow> path \<Rightarrow> (world, config_error, unit) proc" where
  "verify_protected_executable p uid root = verify_protected_path p uid root ProtectedExecutable"


section \<open>What a successful walk shows\<close>

text \<open>What the walk requires of the node at one candidate of the chain.\<close>

definition candidate_ok :: "path \<Rightarrow> nat \<Rightarrow> protected_path_kind \<Rightarrow> path \<Rightarrow> fnode \<Rightarrow> bool" where
  "candidate_ok p uid k q n \<longleftrightarrow>
     n_kind n \<noteq> Symlink \<and> n_uid n = uid \<and> n_mode n AND 18 = 0 \<and>
     (if q = p then kind_valid k n else n_kind n = Directory)"

definition chain_ok :: "path \<Rightarrow> nat \<Rightarrow> path \<Rightarrow> protected_path_kind \<Rightarrow> world \<Rightarrow> bool" where
  "chain_ok p uid root k w \<longleftrightarrow>
     (\<forall>q. prefix root q \<and> prefix q p \<longrightarrow> (\<exists>n. node_at w q = Some n \<and> candidate_ok p uid k q n))"

lemma map_err_look: "w_faults w = [] \<Longrightarrow>
   map_err g (symlink_metadata p) w =
     (case node_at w p of None \<Rightarrow> (Err (g NotFound), w) | Some n \<Rightarrow> (Ok n, w))"
  by (simp add: map_err_def symlink_metadata_def faulty_no_faults split: option.splits)

lemma prefix_step: "prefix root (q @ [c]) \<Longrightarrow> q @ [c] \<noteq> root \<Longrightarrow> prefix root q"
  by (metis prefix_snoc)

lemma verify_candidates_correct:
  assumes "w_faults w = []" and "cs \<noteq> []" and "prefix root (rev cs)" and "prefix (rev cs) p"
    and "path_absolute root" and "RootDir \<notin> set (tl (rev cs))"
  shows "(verify_candidates p uid root k cs w = (Ok (), w)) \<longleftrightarrow>
    (\<forall>q. prefix root q \<and> prefix q (rev cs) \<longrightarrow>
       (\<exists>n. node_at w q = Some n \<and> candidate_ok p uid k q n))"
  using assms
proof (induction cs)
  case Nil
  then show ?case by simp
next
  case (Cons c cs)
  have split: "(\<forall>q. prefix root q \<and> prefix q (rev (c # cs)) \<longrightarrow> Q q) \<longleftrightarrow>
      Q (rev (c # cs)) \<and> (rev (c # cs) \<noteq> root \<longrightarrow> (\<forall>q. prefix root q \<and> prefix q (rev cs) \<longrightarrow> Q q))"
    for Q
  proof -
    have "\<not> prefix (rev cs @ [c]) q" if "prefix q (rev cs)" for q
      using that by (auto dest!: prefix_length_le)
    with Cons.prems(3) show ?thesis by (auto simp: prefix_snoc)
  qed
  let ?Q = "\<lambda>q. \<exists>n. node_at w q = Some n \<and> candidate_ok p uid k q n"
  have step: "verify_candidates p uid root k (c # cs) w = (Ok (), w) \<longleftrightarrow>
      ?Q (rev (c # cs)) \<and>
      (rev (c # cs) \<noteq> root \<longrightarrow> c \<noteq> RootDir \<and> verify_candidates p uid root k cs w = (Ok (), w))"
    by (cases "node_at w (rev (c # cs))")
       (auto simp: Let_def and_then_def map_err_look Cons.prems(1) candidate_ok_def)
  show ?case
  proof (cases "rev (c # cs) = root")
    case True
    then show ?thesis unfolding step split by blast
  next
    case False
    then have pre: "prefix root (rev cs)" using Cons.prems(3) by (simp add: prefix_step)
    then have ne: "cs \<noteq> []" using Cons.prems(5) by (auto simp: path_absolute_def)
    then have c: "c \<noteq> RootDir" using Cons.prems(6) by (auto simp: tl_append split: list.splits)
    have "prefix (rev cs) p" "RootDir \<notin> set (tl (rev cs))"
      using Cons.prems(4,6) ne by (auto simp: prefix_def tl_append split: list.splits)
    note IH = Cons.IH [OF Cons.prems(1) ne pre this(1) Cons.prems(5) this(2)]
    show ?thesis unfolding step split using IH c by blast
  qed
qed

text \<open>Whatever faults occur, the walk changes nothing.\<close>

lemma verify_candidates_looks:
  "ensures (verify_candidates p uid root k cs) w (\<lambda>r w'. same_except {} w w')"
proof (induction cs arbitrary: w uid p)
  case (Cons c cs)
  show ?case
    unfolding verify_candidates.simps Let_def ensures_and_then ensures_map_err
    by (rule ensures_mono [OF look_ensures(1)])
       (auto split: outcome.splits intro: ensures_mono [OF Cons.IH] same_except_trans)
qed simp

lemma verify_protected_path_looks:
  "ensures (verify_protected_path p uid root k) w (\<lambda>r w'. same_except {} w w')"
  by (simp add: verify_protected_path_def verify_candidates_looks)

end
