(* ===== verification/Protocol_Types.thy ===== *)
theory Protocol_Types
  imports Launcher_Prelude
begin

text \<open>
  The messages and evidence records of the crate \<open>ota-authority-protocol\<close> that the launcher
  stores, compares and relays, with the fields the launcher's sources construct or read; a
  \<open>rest\<close> field stands for the fields they only carry along. The crate's functions are not part of
  the repository: they are the fields of the record \<open>protocol\<close>, a parameter of every definition
  that calls one, and no property of them is assumed here. An identity function that returns
  \<open>Err\<close> is \<open>None\<close>.
\<close>


section \<open>Working directory, child, scope\<close>

record working_directory =
  wd_schema_version :: nat
  wd_identity :: string
  wd_logical_path :: string
  wd_device :: nat
  wd_inode :: nat

record child_process =
  ch_schema_version :: nat
  ch_identity :: string
  ch_invocation_id :: string
  ch_request_identity :: string
  ch_pid :: nat
  ch_process_start_time_identity :: string
  ch_ota_binary_identity :: string
  ch_principal_mapping_identity :: string
  ch_working_directory_identity :: string

record systemd_scope =
  sc_schema_version :: nat
  sc_identity :: string
  sc_invocation_id :: string
  sc_request_identity :: string
  sc_child_identity :: string
  sc_child_pid :: nat
  sc_unit_name :: string
  sc_unit_object_path :: string
  sc_slice :: string
  sc_control_group :: string
  sc_delegate :: bool
  sc_kill_mode :: string
  sc_collect_mode :: string


section \<open>Authorization decision\<close>

datatype authorization_decision = Pending | Allowed | Denied

record 'p signed_message =
  sg_payload :: 'p
  sg_key_id :: string
  sg_algorithm :: string
  sg_signature :: string

record decision_payload =
  dp_message_kind :: string
  dp_request_identity :: string
  dp_binding_identity :: string
  dp_authority_id :: string
  dp_attestation_identity :: string
  dp_challenge_nonce_commitment :: string
  dp_work_unit_identity :: string
  dp_contract_identity :: string
  dp_semantic_scope_identity :: string
  dp_decision :: authorization_decision
  dp_rest :: string

record decision_admission =
  da_identity :: string
  da_request_identity :: string
  da_authorization_decision_identity :: string
  da_binding_identity :: string
  da_attestation_identity :: string
  da_work_unit_identity :: string
  da_contract_identity :: string
  da_semantic_scope_identity :: string
  da_decision :: authorization_decision
  da_rest :: string

record decision_relay =
  dr_schema_version :: nat
  dr_identity :: string
  dr_request_identity :: string
  dr_authorization_decision :: "decision_payload signed_message"
  dr_authorization_decision_identity :: string
  dr_admission :: decision_admission

abbreviation relay_decision :: "decision_relay \<Rightarrow> authorization_decision" where
  "relay_decision d \<equiv> dp_decision (sg_payload (dr_authorization_decision d))"

record authorization_request =
  rq_message_kind :: string
  rq_binding_identity :: string
  rq_attestation_identity :: string
  rq_challenge_nonce_commitment :: string
  rq_work_unit_identity :: string
  rq_contract_identity :: string
  rq_semantic_scope_identity :: string
  rq_runner_principal :: string
  rq_rest :: string


section \<open>Lease consumption\<close>

record lease_payload =
  pl_message_kind :: string
  pl_authorization_decision_identity :: string
  pl_binding_identity :: string
  pl_work_unit_identity :: string
  pl_rest :: string

record consume_request =
  cr_message_kind :: string
  cr_lease_identity :: string
  cr_binding_identity :: string
  cr_work_unit_identity :: string
  cr_crossing_transaction_id :: string
  cr_crossing_transaction_identity :: string
  cr_rest :: string

record consume_response_payload =
  rp_message_kind :: string
  rp_consume_request_identity :: string
  rp_lease_identity :: string
  rp_binding_identity :: string
  rp_work_unit_identity :: string
  rp_rest :: string

record lease_admission =
  la_identity :: string
  la_prepared_lease_identity :: string
  la_consume_request_identity :: string
  la_consume_response_identity :: string
  la_binding_identity :: string
  la_work_unit_identity :: string
  la_crossing_transaction_id :: string
  la_crossing_transaction_identity :: string
  la_rest :: string

record intent_relay =
  ir_schema_version :: nat
  ir_identity :: string
  ir_authorization_decision_relay_identity :: string
  ir_prepared_lease :: "lease_payload signed_message"
  ir_prepared_lease_identity :: string
  ir_consume_request :: consume_request
  ir_consume_request_identity :: string

record consumption_relay =
  lc_schema_version :: nat
  lc_identity :: string
  lc_authorization_decision_relay_identity :: string
  lc_prepared_lease :: "lease_payload signed_message"
  lc_prepared_lease_identity :: string
  lc_consume_request :: consume_request
  lc_consume_request_identity :: string
  lc_consume_response :: "consume_response_payload signed_message"
  lc_consume_response_identity :: string
  lc_admission :: lease_admission


section \<open>Completion and finalization\<close>

datatype execution_outcome = CompletedOutcome | FailedOutcome | InterruptedOutcome

record completion =
  ec_schema_version :: nat
  ec_identity :: string
  ec_message_kind :: string
  ec_invocation_id :: string
  ec_lease_consumption_admission_identity :: string
  ec_work_unit_identity :: string
  ec_crossing_transaction_id :: string
  ec_pending_crossing_transaction_identity :: string
  ec_crossing_transaction_identity :: string
  ec_receipt_archive_identity :: "string option"
  ec_outcome :: execution_outcome
  ec_exit_code :: "int option"
  ec_receipt_status :: string

datatype child_exit_posture = RecoveredAbsentCompletionBound | OtherExitPosture string

record finalization =
  ef_schema_version :: nat
  ef_identity :: string
  ef_completion :: completion
  ef_child_identity :: string
  ef_scope_identity :: string
  ef_child_exit_posture :: "child_exit_posture option"
  ef_observed_exit_code :: "int option"
  ef_child_reaped :: bool
  ef_child_absent :: "bool option"
  ef_scope_removed :: bool
  ef_cgroup_empty_or_absent :: bool
  ef_active_slot_removed :: bool

record signed_finalization =
  sf_identity :: string
  sf_finalization :: finalization
  sf_rest :: string

record archive_request =
  ar_schema_version :: nat
  ar_message_kind :: string
  ar_request_identity :: string
  ar_authority_id :: string
  ar_launcher_request_identity :: string
  ar_receipt_archive_identity :: string
  ar_crossing_transaction_identity :: string
  ar_signed_finalization_identity :: "string option"

record signed_archive =
  sa_identity :: string
  sa_receipt_archive_identity :: string
  sa_crossing_transaction_identity :: string
  sa_rest :: string

record sidecar =
  sd_schema_version :: nat
  sd_identity :: string
  sd_signed_finalization :: signed_finalization
  sd_signed_archive :: signed_archive

record archive_persistence =
  ap_schema_version :: nat
  ap_message_kind :: string
  ap_identity :: string
  ap_request_identity :: string
  ap_sidecar_identity :: string

datatype terminal_outcome = TerminalCompleted | TerminalFailed | TerminalCancelled | TerminalRefused

datatype terminal_stage =
    SelectedExecutionCompletedBoundaryRemoved
  | SelectedExecutionFailedBoundaryRemoved
  | SelectedExecutionInterruptedBoundaryRemoved
  | BoundaryFailed
  | RequestRefusedBeforeBoundary
  | PreAuthorizationProtocolRefusedBoundaryRemoved
  | AuthorizationDecisionVerifiedBeforeLeaseBoundaryRemoved
  | LeaseConsumedBeforeExecutionDisabledBoundaryRemoved
  | AuthorityRefusedBoundaryRemoved

record terminal_frame =
  tf_message_kind :: string
  tf_protocol_version :: string
  tf_invocation_id :: string
  tf_outcome :: terminal_outcome
  tf_exit_code :: "int option"
  tf_stage :: "terminal_stage option"
  tf_finalization :: "finalization option"

record terminal_persistence =
  tp_schema_version :: nat
  tp_message_kind :: string
  tp_identity :: string
  tp_invocation_id :: string
  tp_terminal_identity :: string


section \<open>The functions of the protocol crate\<close>

record protocol =
  launcher_working_directory_identity :: "working_directory \<Rightarrow> string option"
  launcher_child_process_identity :: "child_process \<Rightarrow> string option"
  launcher_systemd_scope_identity :: "systemd_scope \<Rightarrow> string option"
  authorization_decision_relay_evidence_v1_identity :: "decision_relay \<Rightarrow> string option"
  lease_consumption_intent_relay_evidence_v1_identity :: "intent_relay \<Rightarrow> string option"
  lease_consumption_relay_evidence_v1_identity :: "consumption_relay \<Rightarrow> string option"
  launcher_execution_completion_v1_identity :: "completion \<Rightarrow> string option"
  launcher_execution_finalization_v1_identity :: "finalization \<Rightarrow> string option"
  signed_launcher_execution_finalization_v1_identity :: "signed_finalization \<Rightarrow> string option"
  launcher_finalization_archive_request_v1_identity :: "archive_request \<Rightarrow> string option"
  launcher_finalization_archive_sidecar_v1_identity :: "sidecar \<Rightarrow> string option"
  launcher_finalization_archive_persistence_v1_identity :: "archive_persistence \<Rightarrow> string option"
  launcher_terminal_frame_v1_identity :: "terminal_frame \<Rightarrow> string option"
  launcher_terminal_persistence_v1_identity :: "terminal_persistence \<Rightarrow> string option"

end
