(* ===== verification/Staged_Journal.thy ===== *)
theory Staged_Journal
  imports Main
begin

text \<open>
  The interface the launcher's two journals have in common: a journal advances by steps, each
  step keeps a stage rank or raises it by one, keeps what identifies the journal, and keeps an
  invariant. The locale proves what follows for whole runs; the active-slot journal and the
  finalization journal are its instances.
\<close>

locale staged_journal =
  fixes step :: "'j \<Rightarrow> 'j \<Rightarrow> bool" and rank :: "'j \<Rightarrow> nat"
    and key :: "'j \<Rightarrow> 'k" and inv :: "'j \<Rightarrow> bool"
  assumes step_rank: "inv j \<Longrightarrow> step j j' \<Longrightarrow> rank j \<le> rank j' \<and> rank j' \<le> Suc (rank j)"
    and step_key: "step j j' \<Longrightarrow> key j' = key j"
    and step_inv: "inv j \<Longrightarrow> step j j' \<Longrightarrow> inv j'"
begin

lemma run_inv: "step\<^sup>*\<^sup>* j j' \<Longrightarrow> inv j \<Longrightarrow> inv j'"
  by (induction rule: rtranclp_induct) (auto intro: step_inv)

lemma run_key: "step\<^sup>*\<^sup>* j j' \<Longrightarrow> key j' = key j"
  by (induction rule: rtranclp_induct) (auto dest: step_key)

lemma run_rank: "step\<^sup>*\<^sup>* j j' \<Longrightarrow> inv j \<Longrightarrow> rank j \<le> rank j'"
proof (induction rule: rtranclp_induct)
  case (step y z)
  with step_rank [of y z] run_inv [of j y] show ?case by simp
qed simp

text \<open>No stage is skipped: a run passes through every rank between its ends.\<close>

lemma run_visits:
  assumes "step\<^sup>*\<^sup>* j j'" and "inv j" and "rank j \<le> r" and "r \<le> rank j'"
  shows "\<exists>m. step\<^sup>*\<^sup>* j m \<and> step\<^sup>*\<^sup>* m j' \<and> rank m = r"
  using assms
proof (induction rule: rtranclp_induct)
  case base
  then show ?case by auto
next
  case (step y z)
  show ?case
  proof (cases "r \<le> rank y")
    case True
    with step show ?thesis by (meson rtranclp.rtrancl_into_rtrancl)
  next
    case False
    with step step_rank [of y z] run_inv [of j y] have "rank z = r" by simp
    moreover have "step\<^sup>*\<^sup>* j z" using step by (simp add: rtranclp.rtrancl_into_rtrancl)
    ultimately show ?thesis by blast
  qed
qed

end

end
