(* ===== verification/Active_Slot.thy ===== *)
theory Active_Slot
  imports Protected_Path Protocol_Types Staged_Journal
begin

text \<open>
  The durable active-slot journal of \<open>src/active_slot.rs\<close>: one file per execution principal
  under the protected store, created before the launcher forks and advanced stage by stage
  while the invocation runs. The handle (\<open>ActiveSlot\<close>: directory, path and the journal in
  memory) is passed in and returned; a failed operation returns the handle as the code leaves
  it, with the stage already advanced in memory.

  The JSON codec and the domain-separated hash are parameters of the model
  (\<open>slot_env\<close> extends \<open>protocol\<close> by them).
\<close>


section \<open>The journal\<close>

datatype active_slot_stage =
  Intent | ChildPrepared | ScopeAttached | AuthorizationDecisionVerified |
  LeaseConsumptionIntentRecorded | LeaseConsumptionVerified | ExecutionCompletionRecorded

record active_slot_journal =
  as_schema_version :: nat
  as_identity :: string
  as_stage :: active_slot_stage
  as_invocation_id :: string
  as_principal_mapping_identity :: string
  as_request_identity :: string
  as_working_directory :: working_directory
  as_child :: "child_process option"
  as_scope :: "systemd_scope option"
  as_authorization_decision :: "decision_relay option"
  as_lease_consumption_intent :: "intent_relay option"
  as_lease_consumption :: "consumption_relay option"
  as_execution_completion :: "completion option"

datatype active_slot_error =
  StoreUnavailable | StoreInvalid | AlreadyActive | InvalidJournal | PersistenceFailed

record active_slot =
  sl_directory :: path
  sl_path :: path
  sl_journal :: active_slot_journal

text \<open>\<open>message_identity\<close> at this journal's domain, \<open>serde_json::to_vec\<close> and \<open>from_slice\<close>.\<close>

record slot_env = protocol +
  slot_message_identity :: "string \<Rightarrow> active_slot_journal \<Rightarrow> string option"
  slot_to_vec :: "active_slot_journal \<Rightarrow> string option"
  slot_from_slice :: "string \<Rightarrow> active_slot_journal option"

definition ACTIVE_SLOT_IDENTITY_DOMAIN_V1 :: string where
  "ACTIVE_SLOT_IDENTITY_DOMAIN_V1 = ''ota.authority-launcher.active-slot.v1'' @ [CHR 0x00]"

definition MAX_ACTIVE_SLOT_BYTES :: nat where
  "MAX_ACTIVE_SLOT_BYTES = 64 * 1024"


section \<open>Validation and identity of a journal\<close>

definition child_refused :: "'x slot_env_scheme \<Rightarrow> active_slot_journal \<Rightarrow> child_process \<Rightarrow> bool" where
  "child_refused E j c \<longleftrightarrow>
     launcher_child_process_identity E c \<noteq> Some (ch_identity c) \<or>
     ch_invocation_id c \<noteq> as_invocation_id j \<or>
     ch_request_identity c \<noteq> as_request_identity j \<or>
     ch_principal_mapping_identity c \<noteq> as_principal_mapping_identity j \<or>
     ch_working_directory_identity c \<noteq> wd_identity (as_working_directory j)"

definition scope_refused :: "'x slot_env_scheme \<Rightarrow> active_slot_journal \<Rightarrow> systemd_scope \<Rightarrow> bool" where
  "scope_refused E j s \<longleftrightarrow>
     launcher_systemd_scope_identity E s \<noteq> Some (sc_identity s) \<or>
     sc_invocation_id s \<noteq> as_invocation_id j \<or>
     sc_request_identity s \<noteq> as_request_identity j \<or>
     Some (sc_child_identity s) \<noteq> map_option ch_identity (as_child j) \<or>
     Some (sc_child_pid s) \<noteq> map_option ch_pid (as_child j)"

definition completion_unbound :: "completion \<Rightarrow> consumption_relay \<Rightarrow> bool" where
  "completion_unbound c l \<longleftrightarrow>
     ec_lease_consumption_admission_identity c \<noteq> la_identity (lc_admission l) \<or>
     ec_work_unit_identity c \<noteq> la_work_unit_identity (lc_admission l) \<or>
     ec_crossing_transaction_id c \<noteq> la_crossing_transaction_id (lc_admission l) \<or>
     ec_pending_crossing_transaction_identity c \<noteq> la_crossing_transaction_identity (lc_admission l)"

definition early_stage_refused :: "'x slot_env_scheme \<Rightarrow> active_slot_journal \<Rightarrow> bool" where
  "early_stage_refused E j =
     (case as_stage j of
        Intent \<Rightarrow>
          as_child j \<noteq> None \<or> as_scope j \<noteq> None \<or> as_authorization_decision j \<noteq> None \<or>
          as_lease_consumption_intent j \<noteq> None \<or> as_lease_consumption j \<noteq> None \<or>
          as_execution_completion j \<noteq> None
      | ChildPrepared \<Rightarrow>
          is_none_or (child_refused E j) (as_child j) \<or> as_scope j \<noteq> None \<or>
          as_authorization_decision j \<noteq> None \<or> as_lease_consumption_intent j \<noteq> None \<or>
          as_lease_consumption j \<noteq> None \<or> as_execution_completion j \<noteq> None
      | ScopeAttached \<Rightarrow>
          is_none_or (child_refused E j) (as_child j) \<or>
          is_none_or (scope_refused E j) (as_scope j) \<or>
          as_authorization_decision j \<noteq> None \<or> as_lease_consumption_intent j \<noteq> None \<or>
          as_lease_consumption j \<noteq> None \<or> as_execution_completion j \<noteq> None
      | AuthorizationDecisionVerified \<Rightarrow>
          is_none_or (child_refused E j) (as_child j) \<or>
          is_none_or (scope_refused E j) (as_scope j) \<or>
          is_none_or (\<lambda>d. authorization_decision_relay_evidence_v1_identity E d \<noteq> Some (dr_identity d))
            (as_authorization_decision j) \<or>
          as_lease_consumption_intent j \<noteq> None \<or> as_lease_consumption j \<noteq> None \<or>
          as_execution_completion j \<noteq> None
      | _ \<Rightarrow> False)"

definition late_stage_refused :: "'x slot_env_scheme \<Rightarrow> active_slot_journal \<Rightarrow> bool" where
  "late_stage_refused E j =
     (case as_stage j of
        LeaseConsumptionIntentRecorded \<Rightarrow>
          as_child j = None \<or> as_scope j = None \<or>
          is_none_or (\<lambda>d. relay_decision d \<noteq> Allowed) (as_authorization_decision j) \<or>
          is_none_or (\<lambda>i.
              lease_consumption_intent_relay_evidence_v1_identity E i \<noteq> Some (ir_identity i) \<or>
              Some (ir_authorization_decision_relay_identity i)
                \<noteq> map_option dr_identity (as_authorization_decision j))
            (as_lease_consumption_intent j) \<or>
          as_lease_consumption j \<noteq> None \<or> as_execution_completion j \<noteq> None
      | LeaseConsumptionVerified \<Rightarrow>
          is_none_or (child_refused E j) (as_child j) \<or>
          is_none_or (scope_refused E j) (as_scope j) \<or>
          is_none_or (\<lambda>d.
              authorization_decision_relay_evidence_v1_identity E d \<noteq> Some (dr_identity d) \<or>
              relay_decision d \<noteq> Allowed) (as_authorization_decision j) \<or>
          is_none_or (\<lambda>l.
              lease_consumption_relay_evidence_v1_identity E l \<noteq> Some (lc_identity l) \<or>
              Some (lc_authorization_decision_relay_identity l)
                \<noteq> map_option dr_identity (as_authorization_decision j))
            (as_lease_consumption j) \<or>
          is_none_or (\<lambda>i.
              lease_consumption_intent_relay_evidence_v1_identity E i \<noteq> Some (ir_identity i) \<or>
              is_none_or (\<lambda>l. ir_consume_request_identity i \<noteq> lc_consume_request_identity l)
                (as_lease_consumption j))
            (as_lease_consumption_intent j) \<or>
          as_execution_completion j \<noteq> None
      | ExecutionCompletionRecorded \<Rightarrow>
          as_child j = None \<or> as_scope j = None \<or> as_authorization_decision j = None \<or>
          as_lease_consumption_intent j = None \<or> as_lease_consumption j = None \<or>
          is_none_or (\<lambda>c.
              launcher_execution_completion_v1_identity E c \<noteq> Some (ec_identity c) \<or>
              ec_invocation_id c \<noteq> as_invocation_id j \<or>
              is_none_or (completion_unbound c) (as_lease_consumption j))
            (as_execution_completion j)
      | _ \<Rightarrow> False)"

definition active_slot_identity ::
  "'x slot_env_scheme \<Rightarrow> active_slot_journal \<Rightarrow> active_slot_error + string" where
  "active_slot_identity E j =
     (if as_schema_version j \<noteq> 1
         \<or> \<not> is_bounded_label (as_invocation_id j)
         \<or> \<not> is_sha256_identity (as_principal_mapping_identity j)
         \<or> \<not> is_sha256_identity (as_request_identity j)
         \<or> launcher_working_directory_identity E (as_working_directory j)
              \<noteq> Some (wd_identity (as_working_directory j))
         \<or> early_stage_refused E j
         \<or> late_stage_refused E j
      then Inl InvalidJournal
      else (case slot_message_identity E ACTIVE_SLOT_IDENTITY_DOMAIN_V1 (j\<lparr>as_identity := []\<rparr>) of
              Some i \<Rightarrow> Inr i
            | None \<Rightarrow> Inl InvalidJournal))"

definition same_authorization_request :: "decision_relay \<Rightarrow> decision_relay \<Rightarrow> bool" where
  "same_authorization_request a b \<longleftrightarrow>
     (let p = sg_payload (dr_authorization_decision a); q = sg_payload (dr_authorization_decision b) in
      dr_request_identity a = dr_request_identity b \<and>
      dp_binding_identity p = dp_binding_identity q \<and>
      dp_authority_id p = dp_authority_id q \<and>
      dp_attestation_identity p = dp_attestation_identity q \<and>
      dp_challenge_nonce_commitment p = dp_challenge_nonce_commitment q \<and>
      dp_work_unit_identity p = dp_work_unit_identity q \<and>
      dp_contract_identity p = dp_contract_identity q \<and>
      dp_semantic_scope_identity p = dp_semantic_scope_identity q)"


section \<open>Files of the store\<close>

text \<open>\<open>0o7777\<close> is 4095, \<open>0o700\<close> is 448 and \<open>0o600\<close> is 384.\<close>

definition verify_store :: "path \<Rightarrow> nat \<Rightarrow> path \<Rightarrow> (world, active_slot_error, unit) proc" where
  "verify_store d uid root =
     and_then (map_err (\<lambda>_. StoreInvalid) (verify_protected_directory d uid root)) (\<lambda>_.
     and_then (map_err (\<lambda>_. StoreUnavailable) (symlink_metadata d)) (\<lambda>n.
       if n_mode n AND 4095 \<noteq> 448 then throw StoreInvalid else ret ()))"

definition slot_path :: "path \<Rightarrow> string \<Rightarrow> active_slot_error + path" where
  "slot_path d mapping =
     (if \<not> is_sha256_identity mapping then Inl InvalidJournal
      else Inr (path_join d (drop 7 mapping @ ''.json'')))"

definition newline :: string where
  "newline = [CHR 0x0A]"

definition write_new ::
  "'x slot_env_scheme \<Rightarrow> path \<Rightarrow> active_slot_journal \<Rightarrow> (world, active_slot_error, unit) proc" where
  "write_new E p j =
     and_then (map_err (\<lambda>e. if e = AlreadyExists then AlreadyActive else PersistenceFailed)
                 (create_new p 384)) (\<lambda>_.
       case slot_to_vec E j of
         None \<Rightarrow> throw InvalidJournal
       | Some bytes \<Rightarrow> map_err (\<lambda>_. PersistenceFailed) (write_chunks p [bytes, newline]))"

definition sync_directory :: "path \<Rightarrow> (world, active_slot_error, unit) proc" where
  "sync_directory d = map_err (\<lambda>_. PersistenceFailed) (sync_dir d)"

definition temporary_name :: "string \<Rightarrow> string" where
  "temporary_name invocation = ''.'' @ invocation @ ''.tmp''"

definition replace_atomically ::
  "'x slot_env_scheme \<Rightarrow> path \<Rightarrow> path \<Rightarrow> active_slot_journal
     \<Rightarrow> (world, active_slot_error, unit) proc" where
  "replace_atomically E d p j =
     (let temporary = path_join d (temporary_name (as_invocation_id j)) in
      and_then (write_new E temporary j) (\<lambda>_ w.
        case rename_file temporary p w of
          (Ok _, w1) \<Rightarrow> sync_directory d w1
        | (Err _, w1) \<Rightarrow>
            (case remove_file temporary w1 of
               (Crashed, w2) \<Rightarrow> (Crashed, w2)
             | (_, w2) \<Rightarrow> (Err PersistenceFailed, w2))
        | (Crashed, w1) \<Rightarrow> (Crashed, w1)))"

definition verify_journal_file :: "path \<Rightarrow> nat \<Rightarrow> (world, active_slot_error, unit) proc" where
  "verify_journal_file p uid =
     and_then (map_err (\<lambda>_. StoreUnavailable) (symlink_metadata p)) (\<lambda>n.
       if n_kind n \<noteq> RegularFile \<or> n_uid n \<noteq> uid \<or> n_mode n AND 4095 \<noteq> 384
          \<or> length (n_bytes n) > MAX_ACTIVE_SLOT_BYTES
       then throw StoreInvalid else ret ())"

definition load_journal ::
  "'x slot_env_scheme \<Rightarrow> path \<Rightarrow> (world, active_slot_error, active_slot_journal) proc" where
  "load_journal E p =
     and_then (map_err (\<lambda>_. StoreUnavailable) (open_nofollow p)) (\<lambda>n.
     and_then (map_err (\<lambda>_. StoreUnavailable) (read_to_end n)) (\<lambda>bs.
       if length (take (MAX_ACTIVE_SLOT_BYTES + 1) bs) > MAX_ACTIVE_SLOT_BYTES then throw StoreInvalid
       else (case slot_from_slice E bs of
               None \<Rightarrow> throw InvalidJournal
             | Some j \<Rightarrow> if active_slot_identity E j \<noteq> Inr (as_identity j) then throw InvalidJournal
                         else ret j)))"


section \<open>Operations on the handle\<close>

type_synonym 'a slot_op = "active_slot \<Rightarrow> world \<Rightarrow> (active_slot_error, 'a) outcome \<times> active_slot \<times> world"

text \<open>The journal \<open>begin\<close> builds, before it has its identity.\<close>

definition first_journal :: "string \<Rightarrow> string \<Rightarrow> string \<Rightarrow> working_directory \<Rightarrow> active_slot_journal" where
  "first_journal invocation mapping request wd =
     \<lparr>as_schema_version = 1, as_identity = [], as_stage = Intent,
      as_invocation_id = invocation, as_principal_mapping_identity = mapping,
      as_request_identity = request, as_working_directory = wd,
      as_child = None, as_scope = None, as_authorization_decision = None,
      as_lease_consumption_intent = None, as_lease_consumption = None,
      as_execution_completion = None\<rparr>"

definition begin_slot ::
  "'x slot_env_scheme \<Rightarrow> path \<Rightarrow> nat \<Rightarrow> path \<Rightarrow> string \<Rightarrow> string \<Rightarrow> string \<Rightarrow> working_directory
     \<Rightarrow> (world, active_slot_error, active_slot) proc" where
  "begin_slot E d uid root invocation mapping request wd =
     and_then (verify_store d uid root) (\<lambda>_.
     and_then (lift_result (slot_path d mapping)) (\<lambda>p.
       let j = first_journal invocation mapping request wd in
       and_then (lift_result (active_slot_identity E j)) (\<lambda>i.
         let j' = j\<lparr>as_identity := i\<rparr> in
         and_then (write_new E p j') (\<lambda>_.
         and_then (sync_directory d) (\<lambda>_.
           ret \<lparr>sl_directory = d, sl_path = p, sl_journal = j'\<rparr>)))))"

text \<open>
  The last two lines of every \<open>record_\<close> method: the identity is recomputed for the journal
  already changed in memory, and the file is replaced.
\<close>

definition store_journal :: "'x slot_env_scheme \<Rightarrow> active_slot_journal \<Rightarrow> unit slot_op" where
  "store_journal E j s w =
     (case active_slot_identity E j of
        Inl e \<Rightarrow> (Err e, s\<lparr>sl_journal := j\<rparr>, w)
      | Inr i \<Rightarrow>
          (let j' = j\<lparr>as_identity := i\<rparr>; (r, w') = replace_atomically E (sl_directory s) (sl_path s) j' w
           in (r, s\<lparr>sl_journal := j'\<rparr>, w')))"

definition record_child :: "'x slot_env_scheme \<Rightarrow> child_process \<Rightarrow> unit slot_op" where
  "record_child E c s w =
     (let j = sl_journal s in
      if as_stage j \<noteq> Intent \<or> as_child j \<noteq> None then (Err InvalidJournal, s, w)
      else store_journal E (j\<lparr>as_stage := ChildPrepared, as_child := Some c\<rparr>) s w)"

definition record_scope :: "'x slot_env_scheme \<Rightarrow> systemd_scope \<Rightarrow> unit slot_op" where
  "record_scope E sc s w =
     (let j = sl_journal s in
      if as_stage j \<noteq> ChildPrepared \<or> as_child j = None \<or> as_scope j \<noteq> None
      then (Err InvalidJournal, s, w)
      else store_journal E (j\<lparr>as_stage := ScopeAttached, as_scope := Some sc\<rparr>) s w)"

definition record_authorization_decision :: "'x slot_env_scheme \<Rightarrow> decision_relay \<Rightarrow> unit slot_op" where
  "record_authorization_decision E d s w =
     (let j = sl_journal s;
          store = store_journal E
            (j\<lparr>as_stage := AuthorizationDecisionVerified, as_authorization_decision := Some d\<rparr>) s w in
      if authorization_decision_relay_evidence_v1_identity E d \<noteq> Some (dr_identity d)
         \<or> as_child j = None \<or> as_scope j = None
      then (Err InvalidJournal, s, w)
      else (case (as_stage j, as_authorization_decision j) of
              (ScopeAttached, None) \<Rightarrow> store
            | (AuthorizationDecisionVerified, Some previous) \<Rightarrow>
                if previous = d then (Ok (), s, w)
                else if relay_decision previous = Pending \<and> same_authorization_request previous d
                then store else (Err InvalidJournal, s, w)
            | _ \<Rightarrow> (Err InvalidJournal, s, w)))"

definition decision_unfit :: "string \<Rightarrow> decision_relay \<Rightarrow> bool" where
  "decision_unfit relay_identity d \<longleftrightarrow> dr_identity d \<noteq> relay_identity \<or> relay_decision d \<noteq> Allowed"

definition record_lease_consumption_intent :: "'x slot_env_scheme \<Rightarrow> intent_relay \<Rightarrow> unit slot_op" where
  "record_lease_consumption_intent E i s w =
     (let j = sl_journal s in
      if lease_consumption_intent_relay_evidence_v1_identity E i \<noteq> Some (ir_identity i)
         \<or> as_stage j \<noteq> AuthorizationDecisionVerified
         \<or> is_none_or (decision_unfit (ir_authorization_decision_relay_identity i))
             (as_authorization_decision j)
         \<or> as_lease_consumption_intent j \<noteq> None
         \<or> as_lease_consumption j \<noteq> None
      then (Err InvalidJournal, s, w)
      else store_journal E
        (j\<lparr>as_stage := LeaseConsumptionIntentRecorded, as_lease_consumption_intent := Some i\<rparr>) s w)"

definition record_lease_consumption :: "'x slot_env_scheme \<Rightarrow> consumption_relay \<Rightarrow> unit slot_op" where
  "record_lease_consumption E l s w =
     (let j = sl_journal s in
      if lease_consumption_relay_evidence_v1_identity E l \<noteq> Some (lc_identity l)
         \<or> as_stage j \<noteq> LeaseConsumptionIntentRecorded
         \<or> is_none_or (decision_unfit (lc_authorization_decision_relay_identity l))
             (as_authorization_decision j)
         \<or> as_lease_consumption j \<noteq> None
      then (Err InvalidJournal, s, w)
      else store_journal E
        (j\<lparr>as_stage := LeaseConsumptionVerified, as_lease_consumption := Some l\<rparr>) s w)"

definition record_execution_completion :: "'x slot_env_scheme \<Rightarrow> completion \<Rightarrow> unit slot_op" where
  "record_execution_completion E c s w =
     (let j = sl_journal s in
      if launcher_execution_completion_v1_identity E c \<noteq> Some (ec_identity c)
         \<or> as_stage j \<noteq> LeaseConsumptionVerified
         \<or> as_execution_completion j \<noteq> None
         \<or> is_none_or (\<lambda>l. ec_invocation_id c \<noteq> as_invocation_id j \<or> completion_unbound c l)
             (as_lease_consumption j)
      then (Err InvalidJournal, s, w)
      else store_journal E
        (j\<lparr>as_stage := ExecutionCompletionRecorded, as_execution_completion := Some c\<rparr>) s w)"

definition has_lease_consumption :: "active_slot \<Rightarrow> bool" where
  "has_lease_consumption s \<longleftrightarrow>
     as_stage (sl_journal s) \<in> {LeaseConsumptionVerified, ExecutionCompletionRecorded} \<and>
     as_lease_consumption (sl_journal s) \<noteq> None"

definition has_lease_consumption_intent :: "active_slot \<Rightarrow> bool" where
  "has_lease_consumption_intent s \<longleftrightarrow>
     as_stage (sl_journal s) \<in>
       {LeaseConsumptionIntentRecorded, LeaseConsumptionVerified, ExecutionCompletionRecorded} \<and>
     as_lease_consumption_intent (sl_journal s) \<noteq> None"

definition finalize_slot :: "active_slot \<Rightarrow> (world, active_slot_error, unit) proc" where
  "finalize_slot s =
     and_then (map_err (\<lambda>_. PersistenceFailed) (remove_file (sl_path s))) (\<lambda>_.
       sync_directory (sl_directory s))"

text \<open>The operations the launcher performs on a live slot, as data.\<close>

datatype slot_call =
    RecordChild child_process
  | RecordScope systemd_scope
  | RecordDecision decision_relay
  | RecordIntent intent_relay
  | RecordConsumption consumption_relay
  | RecordCompletion completion

fun call_slot :: "'x slot_env_scheme \<Rightarrow> slot_call \<Rightarrow> unit slot_op" where
  "call_slot E (RecordChild c) = record_child E c"
| "call_slot E (RecordScope sc) = record_scope E sc"
| "call_slot E (RecordDecision d) = record_authorization_decision E d"
| "call_slot E (RecordIntent i) = record_lease_consumption_intent E i"
| "call_slot E (RecordConsumption l) = record_lease_consumption E l"
| "call_slot E (RecordCompletion c) = record_execution_completion E c"



section \<open>Writing the journal file\<close>

lemma write_new_created:
  assumes "slot_to_vec E j = Some bs"
  shows "ensures (write_new E p j) w (\<lambda>r. created p 384 (bs @ newline) w (is_Ok r))"
  using create_write_created [of _ p 384 _ "[bs, newline]" w] assms
  by (simp add: write_new_def)

lemma write_new_unserializable:
  "slot_to_vec E j = None \<Longrightarrow> ensures (write_new E p j) w (\<lambda>r w'. \<not> is_Ok r \<and> same_except {p} w w')"
  unfolding write_new_def
  by (rule ensures_and_thenI [where P = "\<lambda>r w'. same_except {p} w w'"])
     (auto simp: ensures_map_err created_def split: outcome.splits
       intro!: ensures_mono [OF create_new_created])

lemma sync_directory_ensures: "ensures (sync_directory d) w (\<lambda>r w'. same_except {} w w')"
  unfolding sync_directory_def ensures_map_err
  by (rule ensures_mono [OF sync_dir_ensures]) (auto split: outcome.splits)

text \<open>The tail of \<open>replace_atomically\<close>: rename, or withdraw the temporary file.\<close>

lemma rename_or_withdraw_replaced:
  assumes "created tmp m bs w True w1" and "tmp \<noteq> dst"
  shows "ensures (\<lambda>w. case rename_file tmp dst w of
          (Ok _, w1) \<Rightarrow> sync_directory d w1
        | (Err _, w1) \<Rightarrow>
            (case remove_file tmp w1 of
               (Crashed, w2) \<Rightarrow> (Crashed, w2)
             | (_, w2) \<Rightarrow> (Err PersistenceFailed, w2))
        | (Crashed, w1) \<Rightarrow> (Crashed, w1)) w1 (\<lambda>r. replaced tmp dst m bs w (is_Ok r))"
proof -
  obtain r w2 where ren: "rename_file tmp dst w1 = (r, w2)" by fastforce
  from assms(1) have "node_at w1 tmp = Some (file_node w m bs)" by (simp add: created_def)
  from ensuresD [OF rename_ensures [OF this assms(2)] ren]
  have moved: "if is_Ok r then same_except {tmp, dst} w1 w2 \<and> node_at w2 tmp = None \<and>
    node_at w2 dst = Some (file_node w m bs) else same_except {} w1 w2" .
  show ?thesis
  proof (cases r)
    case (Ok u)
    obtain r3 w3 where sync: "sync_directory d w2 = (r3, w3)" by fastforce
    from ensuresD [OF sync_directory_ensures sync] have "same_except {} w2 w3" .
    with moved Ok have "same_except {tmp, dst} w1 w3" "node_at w3 tmp = None"
      "node_at w3 dst = Some (file_node w m bs)"
      by (auto simp: same_except_def)
    with assms(1) Ok ren sync show ?thesis by (simp add: ensures_def replaced_installed)
  next
    case (Err e)
    obtain r3 w3 where rem: "remove_file tmp w2 = (r3, w3)" by fastforce
    from ensuresD [OF remove_ensures rem] moved Err
    have "same_except {} w1 w3 \<or> same_except {tmp} w1 w3 \<and> node_at w3 tmp = None"
      by (auto simp: same_except_def split: if_splits)
    with assms have "replaced tmp dst m bs w False w3"
      by (auto intro: replaced_left_temp replaced_withdrawn)
    with Err ren rem show ?thesis by (cases r3) (simp_all add: ensures_def)
  next
    case Crashed
    with moved assms have "replaced tmp dst m bs w False w2" by (simp add: replaced_left_temp)
    with Crashed ren show ?thesis by (simp add: ensures_def)
  qed
qed

text \<open>The active-slot store replaces its file atomically.\<close>

interpretation slot_file: atomic_replacement
  "\<lambda>(d, p, j). replace_atomically E d p j"
  "\<lambda>(d, p, j). path_join d (temporary_name (as_invocation_id j))"
  "\<lambda>(d, p, j). p"
  "\<lambda>(d, p, j). map_option (\<lambda>bs. bs @ newline) (slot_to_vec E j)"
  384
  for E
proof (unfold_locales, goal_cases)
  case (1 a bs w)
  obtain d p j where a: "a = (d, p, j)" by (cases a)
  with 1 obtain b where b: "slot_to_vec E j = Some b" and bs: "bs = b @ newline" by auto
  from 1 a have neq: "path_join d (temporary_name (as_invocation_id j)) \<noteq> p" by simp
  show ?case
    unfolding a prod.case replace_atomically_def Let_def bs
    by (rule ensures_and_then_ok [OF write_new_created [OF b]])
       (erule rename_or_withdraw_replaced [OF _ neq] replaced_created_failed [OF _ neq])+
next
  case (2 a w)
  obtain d p j where a: "a = (d, p, j)" by (cases a)
  with 2 have n: "slot_to_vec E j = None" by simp
  show ?case
    unfolding a prod.case replace_atomically_def Let_def
    by (rule ensures_and_thenI [OF write_new_unserializable [OF n]]) auto
qed



section \<open>The stage machine\<close>

text \<open>
  \<open>slot_step E j j'\<close>: one \<open>record_\<close> method accepted \<open>j\<close> and produced \<open>j'\<close> in memory, with its
  identity recomputed. A rule per method; the decision has two, since a pending decision may be
  replaced by a later one of the same request.
\<close>

definition identified :: "'x slot_env_scheme \<Rightarrow> active_slot_journal \<Rightarrow> active_slot_journal \<Rightarrow> bool" where
  "identified E j j' \<longleftrightarrow> (\<exists>i. active_slot_identity E j = Inr i \<and> j' = j\<lparr>as_identity := i\<rparr>)"

inductive slot_step :: "'x slot_env_scheme \<Rightarrow> active_slot_journal \<Rightarrow> active_slot_journal \<Rightarrow> bool"
  for E where
  child: "as_stage j = Intent \<Longrightarrow> as_child j = None \<Longrightarrow>
    identified E (j\<lparr>as_stage := ChildPrepared, as_child := Some c\<rparr>) j' \<Longrightarrow> slot_step E j j'"
| scope: "as_stage j = ChildPrepared \<Longrightarrow> as_child j \<noteq> None \<Longrightarrow> as_scope j = None \<Longrightarrow>
    identified E (j\<lparr>as_stage := ScopeAttached, as_scope := Some sc\<rparr>) j' \<Longrightarrow> slot_step E j j'"
| decide: "as_stage j = ScopeAttached \<Longrightarrow> as_authorization_decision j = None \<Longrightarrow>
    as_child j \<noteq> None \<Longrightarrow> as_scope j \<noteq> None \<Longrightarrow>
    authorization_decision_relay_evidence_v1_identity E d = Some (dr_identity d) \<Longrightarrow>
    identified E (j\<lparr>as_stage := AuthorizationDecisionVerified, as_authorization_decision := Some d\<rparr>) j' \<Longrightarrow>
    slot_step E j j'"
| redecide: "as_stage j = AuthorizationDecisionVerified \<Longrightarrow> as_authorization_decision j = Some d0 \<Longrightarrow>
    as_child j \<noteq> None \<Longrightarrow> as_scope j \<noteq> None \<Longrightarrow> relay_decision d0 = Pending \<Longrightarrow>
    same_authorization_request d0 d \<Longrightarrow>
    authorization_decision_relay_evidence_v1_identity E d = Some (dr_identity d) \<Longrightarrow>
    identified E (j\<lparr>as_stage := AuthorizationDecisionVerified, as_authorization_decision := Some d\<rparr>) j' \<Longrightarrow>
    slot_step E j j'"
| intent: "as_stage j = AuthorizationDecisionVerified \<Longrightarrow> as_authorization_decision j = Some d \<Longrightarrow>
    \<not> decision_unfit (ir_authorization_decision_relay_identity i) d \<Longrightarrow>
    as_lease_consumption_intent j = None \<Longrightarrow> as_lease_consumption j = None \<Longrightarrow>
    lease_consumption_intent_relay_evidence_v1_identity E i = Some (ir_identity i) \<Longrightarrow>
    identified E (j\<lparr>as_stage := LeaseConsumptionIntentRecorded, as_lease_consumption_intent := Some i\<rparr>) j' \<Longrightarrow>
    slot_step E j j'"
| consume: "as_stage j = LeaseConsumptionIntentRecorded \<Longrightarrow> as_authorization_decision j = Some d \<Longrightarrow>
    \<not> decision_unfit (lc_authorization_decision_relay_identity l) d \<Longrightarrow> as_lease_consumption j = None \<Longrightarrow>
    lease_consumption_relay_evidence_v1_identity E l = Some (lc_identity l) \<Longrightarrow>
    identified E (j\<lparr>as_stage := LeaseConsumptionVerified, as_lease_consumption := Some l\<rparr>) j' \<Longrightarrow>
    slot_step E j j'"
| complete: "as_stage j = LeaseConsumptionVerified \<Longrightarrow> as_lease_consumption j = Some l \<Longrightarrow>
    as_execution_completion j = None \<Longrightarrow> ec_invocation_id c = as_invocation_id j \<Longrightarrow>
    \<not> completion_unbound c l \<Longrightarrow> launcher_execution_completion_v1_identity E c = Some (ec_identity c) \<Longrightarrow>
    identified E (j\<lparr>as_stage := ExecutionCompletionRecorded, as_execution_completion := Some c\<rparr>) j' \<Longrightarrow>
    slot_step E j j'"

inductive_cases slot_stepE: "slot_step E j j'"

fun stage_rank :: "active_slot_stage \<Rightarrow> nat" where
  "stage_rank Intent = 0"
| "stage_rank ChildPrepared = 1"
| "stage_rank ScopeAttached = 2"
| "stage_rank AuthorizationDecisionVerified = 3"
| "stage_rank LeaseConsumptionIntentRecorded = 4"
| "stage_rank LeaseConsumptionVerified = 5"
| "stage_rank ExecutionCompletionRecorded = 6"

text \<open>The evidence a journal of each stage holds, every link of the chain included.\<close>

definition decision_chain :: "'x slot_env_scheme \<Rightarrow> active_slot_journal \<Rightarrow> bool" where
  "decision_chain E j \<longleftrightarrow> is_some_and (\<lambda>d.
     authorization_decision_relay_evidence_v1_identity E d = Some (dr_identity d) \<and>
     (4 \<le> stage_rank (as_stage j) \<longrightarrow> relay_decision d = Allowed)) (as_authorization_decision j)"

definition intent_chain :: "'x slot_env_scheme \<Rightarrow> active_slot_journal \<Rightarrow> bool" where
  "intent_chain E j \<longleftrightarrow> is_some_and (\<lambda>i.
     lease_consumption_intent_relay_evidence_v1_identity E i = Some (ir_identity i) \<and>
     Some (ir_authorization_decision_relay_identity i) = map_option dr_identity (as_authorization_decision j))
     (as_lease_consumption_intent j)"

definition consumption_chain :: "'x slot_env_scheme \<Rightarrow> active_slot_journal \<Rightarrow> bool" where
  "consumption_chain E j \<longleftrightarrow> is_some_and (\<lambda>l.
     lease_consumption_relay_evidence_v1_identity E l = Some (lc_identity l) \<and>
     Some (lc_authorization_decision_relay_identity l) = map_option dr_identity (as_authorization_decision j) \<and>
     Some (lc_consume_request_identity l) = map_option ir_consume_request_identity (as_lease_consumption_intent j))
     (as_lease_consumption j)"

definition completion_chain :: "'x slot_env_scheme \<Rightarrow> active_slot_journal \<Rightarrow> bool" where
  "completion_chain E j \<longleftrightarrow> is_some_and (\<lambda>c.
     launcher_execution_completion_v1_identity E c = Some (ec_identity c) \<and>
     ec_invocation_id c = as_invocation_id j \<and>
     is_some_and (\<lambda>l. \<not> completion_unbound c l) (as_lease_consumption j)) (as_execution_completion j)"

definition slot_evidence :: "'x slot_env_scheme \<Rightarrow> active_slot_journal \<Rightarrow> bool" where
  "slot_evidence E j \<longleftrightarrow>
     (let r = stage_rank (as_stage j) in
      (if 1 \<le> r then is_some_and (\<lambda>c. \<not> child_refused E j c) (as_child j) else as_child j = None) \<and>
      (if 2 \<le> r then is_some_and (\<lambda>s. \<not> scope_refused E j s) (as_scope j) else as_scope j = None) \<and>
      (if 3 \<le> r then decision_chain E j else as_authorization_decision j = None) \<and>
      (if 4 \<le> r then intent_chain E j else as_lease_consumption_intent j = None) \<and>
      (if 5 \<le> r then consumption_chain E j else as_lease_consumption j = None) \<and>
      (if 6 \<le> r then completion_chain E j else as_execution_completion j = None))"

definition slot_wf :: "'x slot_env_scheme \<Rightarrow> active_slot_journal \<Rightarrow> bool" where
  "slot_wf E j \<longleftrightarrow> active_slot_identity E j = Inr (as_identity j) \<and> slot_evidence E j"

lemmas chain_defs = decision_chain_def intent_chain_def consumption_chain_def completion_chain_def


lemma refused_blank [simp]:
  "child_refused E (j\<lparr>as_identity := i\<rparr>) = child_refused E j"
  "scope_refused E (j\<lparr>as_identity := i\<rparr>) = scope_refused E j"
  by (simp_all add: child_refused_def scope_refused_def fun_eq_iff)

lemma stage_refused_blank [simp]:
  "early_stage_refused E (j\<lparr>as_identity := i\<rparr>) = early_stage_refused E j"
  "late_stage_refused E (j\<lparr>as_identity := i\<rparr>) = late_stage_refused E j"
  by (cases "as_stage j"; simp add: early_stage_refused_def late_stage_refused_def)+

lemma active_slot_identity_blank [simp]:
  "active_slot_identity E (j\<lparr>as_identity := i\<rparr>) = active_slot_identity E j"
  by (simp add: active_slot_identity_def)

lemma slot_evidence_blank [simp]: "slot_evidence E (j\<lparr>as_identity := i\<rparr>) = slot_evidence E j"
  by (simp add: slot_evidence_def chain_defs)

lemma identified_wf: "identified E j j' \<Longrightarrow> slot_evidence E j \<Longrightarrow> slot_wf E j'"
  by (auto simp: identified_def slot_wf_def)

lemma identified_accepted:
  "identified E j j' \<Longrightarrow> \<not> early_stage_refused E j \<and> \<not> late_stage_refused E j"
  by (auto simp: identified_def active_slot_identity_def split: if_splits)

lemma slot_step_evidence:
  assumes "slot_evidence E j" and "slot_step E j j'"
  shows "slot_wf E j'"
  using assms(2)
proof cases
  case (child c)
  from identified_accepted [OF child(3)] assms(1) child(1,2) show ?thesis
    by (intro identified_wf [OF child(3)])
       (auto simp: slot_evidence_def early_stage_refused_def is_some_and_def is_none_or_def)
next
  case (scope sc)
  from identified_accepted [OF scope(4)] assms(1) scope(1-3) show ?thesis
    by (intro identified_wf [OF scope(4)])
       (auto simp: slot_evidence_def early_stage_refused_def is_some_and_iff not_is_none_or_iff child_refused_def)
next
  case (decide d)
  then show ?thesis using assms(1)
    by (intro identified_wf [OF decide(6)])
       (auto simp: slot_evidence_def is_some_and_iff child_refused_def scope_refused_def chain_defs)
next
  case (redecide d0 d)
  then show ?thesis using assms(1)
    by (intro identified_wf [OF redecide(8)])
       (auto simp: slot_evidence_def is_some_and_iff child_refused_def scope_refused_def chain_defs)
next
  case (intent d i)
  then show ?thesis using assms(1)
    by (intro identified_wf [OF intent(7)])
       (auto simp: slot_evidence_def is_some_and_iff child_refused_def scope_refused_def chain_defs
         decision_unfit_def)
next
  case (consume d l)
  from identified_accepted [OF consume(6)] consume show ?thesis using assms(1)
    by (intro identified_wf [OF consume(6)])
       (auto simp: slot_evidence_def is_some_and_iff child_refused_def scope_refused_def chain_defs
         decision_unfit_def late_stage_refused_def)
next
  case (complete l c)
  then show ?thesis using assms(1)
    by (intro identified_wf [OF complete(7)])
       (auto simp: slot_evidence_def is_some_and_iff child_refused_def scope_refused_def chain_defs)
qed

lemma slot_step_rank:
  "slot_step E j j' \<Longrightarrow>
   stage_rank (as_stage j) \<le> stage_rank (as_stage j') \<and> stage_rank (as_stage j') \<le> Suc (stage_rank (as_stage j))"
  by (erule slot_stepE) (auto simp: identified_def)

definition slot_key :: "active_slot_journal \<Rightarrow> string \<times> string \<times> string \<times> working_directory" where
  "slot_key j = (as_invocation_id j, as_principal_mapping_identity j, as_request_identity j,
     as_working_directory j)"

lemma slot_step_key: "slot_step E j j' \<Longrightarrow> slot_key j' = slot_key j"
  by (erule slot_stepE) (auto simp: identified_def slot_key_def)

interpretation slot_machine: staged_journal "slot_step E" "\<lambda>j. stage_rank (as_stage j)" slot_key "slot_wf E"
  for E
proof (unfold_locales, goal_cases)
  case (1 j j')
  from slot_step_rank [OF 1(2)] show ?case .
next
  case (2 j j')
  then show ?case by (rule slot_step_key)
next
  case (3 j j')
  then show ?case by (auto simp: slot_wf_def [of E j] intro: slot_step_evidence)
qed

text \<open>
  Every call on a live slot is one of four things: refused with the handle and the store as they
  were; a decision repeated; refused after the change in memory because the changed journal is
  not valid; or one step, whose journal replaces the file.
\<close>

lemma store_journal_cases:
  assumes "store_journal E j s w = (r, s', w')"
  shows "r = Err InvalidJournal \<and> s' = s\<lparr>sl_journal := j\<rparr> \<and> w' = w \<and> (\<nexists>j'. identified E j j')
    \<or> (\<exists>j'. identified E j j' \<and> s' = s\<lparr>sl_journal := j'\<rparr> \<and>
         replace_atomically E (sl_directory s) (sl_path s) j' w = (r, w'))"
  using assms
  by (auto simp: store_journal_def identified_def active_slot_identity_def Let_def
      split: sum.splits prod.splits if_splits option.splits)

lemma call_slot_cases:
  assumes "call_slot E c s w = (r, s', w')"
  obtains (refused) "r = Err InvalidJournal" "s' = s" "w' = w"
  | (repeated) "r = Ok ()" "s' = s" "w' = w"
      "as_stage (sl_journal s) = AuthorizationDecisionVerified"
      "\<exists>d. c = RecordDecision d \<and> as_authorization_decision (sl_journal s) = Some d"
  | (invalid) j1 where "r = Err InvalidJournal" "s' = s\<lparr>sl_journal := j1\<rparr>" "w' = w"
      "\<nexists>i. active_slot_identity E j1 = Inr i"
  | (step) j' where "slot_step E (sl_journal s) j'" "s' = s\<lparr>sl_journal := j'\<rparr>"
      "replace_atomically E (sl_directory s) (sl_path s) j' w = (r, w')"
proof -
  have stored: thesis if "store_journal E j s w = (r, s', w')"
    and "\<And>j'. identified E j j' \<Longrightarrow> slot_step E (sl_journal s) j'" for j
    using store_journal_cases [OF that(1)] that(2) invalid [of j] step
    by (auto simp: identified_def)
  show thesis
  proof (cases c)
    case (RecordChild x)
    with assms show ?thesis
      by (auto simp: record_child_def Let_def split: if_splits intro: refused stored slot_step.child)
  next
    case (RecordScope x)
    with assms show ?thesis
      by (auto simp: record_scope_def Let_def split: if_splits intro: refused stored slot_step.scope)
  next
    case (RecordDecision x)
    with assms show ?thesis
      by (auto simp: record_authorization_decision_def Let_def
          split: if_splits active_slot_stage.splits option.splits
          intro: refused repeated stored slot_step.decide slot_step.redecide)
  next
    case (RecordIntent x)
    with assms show ?thesis
      by (auto simp: record_lease_consumption_intent_def Let_def not_is_none_or_iff split: if_splits
          intro: refused stored slot_step.intent)
  next
    case (RecordConsumption x)
    with assms show ?thesis
      by (auto simp: record_lease_consumption_def Let_def not_is_none_or_iff split: if_splits
          intro: refused stored slot_step.consume)
  next
    case (RecordCompletion x)
    with assms show ?thesis
      by (auto simp: record_execution_completion_def Let_def not_is_none_or_iff split: if_splits
          intro: refused stored slot_step.complete)
  qed
qed



section \<open>Memory and disk\<close>

text \<open>
  \<open>journal_at E j w p\<close>: the file at \<open>p\<close> is a journal file of the launcher's own uid holding the
  encoding of \<open>j\<close>. \<open>live_slot\<close> is the state between two operations: the journal in memory is
  valid, holds its chain of evidence, belongs at the path of the handle and is the one on disk.
\<close>

definition journal_at :: "'x slot_env_scheme \<Rightarrow> active_slot_journal \<Rightarrow> world \<Rightarrow> path \<Rightarrow> bool" where
  "journal_at E j w p \<longleftrightarrow>
     (\<exists>n b. node_at w p = Some n \<and> n_kind n = RegularFile \<and> n_uid n = w_euid w \<and> n_mode n = 384 \<and>
        slot_to_vec E j = Some b \<and> (n_bytes n = b @ newline \<or> n_bytes n = b))"

definition slot_at :: "path \<Rightarrow> path \<Rightarrow> active_slot_journal \<Rightarrow> bool" where
  "slot_at d p j \<longleftrightarrow> slot_path d (as_principal_mapping_identity j) = Inr p"

definition live_slot :: "'x slot_env_scheme \<Rightarrow> active_slot \<Rightarrow> world \<Rightarrow> bool" where
  "live_slot E s w \<longleftrightarrow>
     slot_wf E (sl_journal s) \<and> slot_at (sl_directory s) (sl_path s) (sl_journal s) \<and>
     journal_at E (sl_journal s) w (sl_path s)"

text \<open>
  What the code relies on of \<open>serde_json\<close> at one journal: its encoding fits the size bound, decodes
  to it with and without the final newline, and no proper prefix of it decodes.
\<close>

definition slot_codec_at :: "'x slot_env_scheme \<Rightarrow> active_slot_journal \<Rightarrow> bool" where
  "slot_codec_at E j \<longleftrightarrow>
     (\<exists>b. slot_to_vec E j = Some b \<and> length b < MAX_ACTIVE_SLOT_BYTES \<and>
        slot_from_slice E b = Some j \<and> slot_from_slice E (b @ newline) = Some j \<and>
        list_all (\<lambda>n. slot_from_slice E (take n b) = None) [0..<length b])"

fun run_slot :: "'x slot_env_scheme \<Rightarrow> slot_call list \<Rightarrow> unit slot_op" where
  "run_slot E [] s w = (Ok (), s, w)"
| "run_slot E (c # cs) s w =
     (case call_slot E c s w of
        (Ok _, s', w') \<Rightarrow> run_slot E cs s' w'
      | (r, s', w') \<Rightarrow> (r, s', w'))"

definition no_faults :: "world \<Rightarrow> world" where
  "no_faults w = w\<lparr>w_faults := []\<rparr>"

lemma no_faults_sel [simp]:
  "w_faults (no_faults w) = []" "node_at (no_faults w) = node_at w" "w_euid (no_faults w) = w_euid w"
  "no_faults (no_faults w) = no_faults w" "dir_names (no_faults w) d = dir_names w d"
  by (simp_all add: no_faults_def dir_names_def)

lemma journal_at_same: "same_except S w w' \<Longrightarrow> p \<notin> S \<Longrightarrow> journal_at E j w' p = journal_at E j w p"
  by (simp add: journal_at_def same_except_def)

lemma slot_path_neq_temporary:
  assumes "slot_path d m = Inr p"
  shows "path_join d (temporary_name i) \<noteq> p"
proof -
  from assms obtain h where h: "m = ''sha256:'' @ h" "length h = 64" "list_all lower_hex_byte h"
    and p: "p = path_join d (h @ ''.json'')"
    by (auto simp: slot_path_def is_sha256_identity_iff split: if_splits)
  from h(2,3) have "h \<noteq> [] \<and> hd h \<noteq> CHR ''.''"
    by (cases h) (auto simp: lower_hex_byte_def byte_class_defs)
  with p show ?thesis by (cases h) (auto simp: temporary_name_def)
qed

lemma slot_at_neq_temporary: "slot_at d p j \<Longrightarrow> path_join d (temporary_name i) \<noteq> p"
  unfolding slot_at_def by (rule slot_path_neq_temporary)

lemma load_journal_at:
  assumes "journal_at E j w p" and "slot_codec_at E j" and "active_slot_identity E j = Inr (as_identity j)"
  shows "load_journal E p (no_faults w) = (Ok j, no_faults w)"
  using assms
  by (auto simp: load_journal_def and_then_def map_err_def open_nofollow_def read_to_end_def
      faulty_no_faults journal_at_def slot_codec_at_def newline_def)

lemma slot_step_at: "slot_at d p j \<Longrightarrow> slot_step E j j' \<Longrightarrow> slot_at d p j'"
  using slot_step_key [of E j j'] by (simp add: slot_at_def slot_key_def)

lemma replace_ok_live:
  assumes "replace_atomically E d p j w = (Ok (), w')" and "slot_at d p j" and "slot_wf E j"
  shows "live_slot E \<lparr>sl_directory = d, sl_path = p, sl_journal = j\<rparr> w'"
proof -
  have neq: "path_join d (temporary_name (as_invocation_id j)) \<noteq> p"
    by (rule slot_at_neq_temporary [OF assms(2)])
  obtain b where b: "slot_to_vec E j = Some b" "node_at w' p = Some (file_node w 384 (b @ newline))"
    using slot_file.ok_installed [of "(d, p, j)" E w w'] neq assms(1) by auto
  moreover have "w_euid w' = w_euid w"
    using slot_file.others_untouched [of "(d, p, j)" E w "Ok ()" w'] neq assms(1)
    by (simp add: same_except_def)
  ultimately show ?thesis using assms(2,3) by (simp add: live_slot_def journal_at_def)
qed

lemma call_ok_live:
  assumes "call_slot E c s w = (Ok (), s', w')" and "live_slot E s w"
  shows "live_slot E s' w' \<and> sl_directory s' = sl_directory s \<and> sl_path s' = sl_path s \<and>
    (sl_journal s' = sl_journal s \<or> slot_step E (sl_journal s) (sl_journal s'))"
  using assms(1)
proof (cases rule: call_slot_cases)
  case (step j')
  from assms(2) have "slot_at (sl_directory s) (sl_path s) j'" "slot_wf E j'"
    using slot_step_at [OF _ step(1)] slot_step_evidence [OF _ step(1)]
    by (auto simp: live_slot_def slot_wf_def [of E "sl_journal s"])
  from replace_ok_live [OF step(3) this] step(1,2) show ?thesis by (simp add: live_slot_def)
qed (use assms(2) in simp_all)

lemma run_ok_live:
  assumes "run_slot E cs s w = (Ok (), s', w')" and "live_slot E s w"
  shows "live_slot E s' w' \<and> sl_directory s' = sl_directory s \<and> sl_path s' = sl_path s \<and>
    (slot_step E)\<^sup>*\<^sup>* (sl_journal s) (sl_journal s')"
  using assms
proof (induction cs arbitrary: s w)
  case (Cons c cs)
  from Cons.prems(1) obtain s1 w1 where c: "call_slot E c s w = (Ok (), s1, w1)"
    and cs: "run_slot E cs s1 w1 = (Ok (), s', w')"
    by (auto split: prod.splits outcome.splits)
  from call_ok_live [OF c Cons.prems(2)] Cons.IH [OF cs] show ?case
    by (auto intro: converse_rtranclp_into_rtranclp)
qed simp


text \<open>Only \<open>write_new\<close> of the steps of \<open>begin\<close> changes a file.\<close>

lemma verify_store_looks: "ensures (verify_store d uid root) w (\<lambda>r w'. same_except {} w w')"
  unfolding verify_store_def
proof (rule ensures_and_thenI [where P = "\<lambda>r w'. same_except {} w w'"])
  show "ensures (map_err (\<lambda>_. StoreInvalid) (verify_protected_directory d uid root)) w
     (\<lambda>r w'. same_except {} w w')"
    unfolding ensures_map_err verify_protected_directory_def
    by (rule ensures_mono [OF verify_protected_path_looks]) (auto split: outcome.splits)
next
  fix a w'
  assume same: "same_except {} w w'"
  show "ensures (and_then (map_err (\<lambda>_. StoreUnavailable) (symlink_metadata d)) (\<lambda>n.
       if n_mode n AND 4095 \<noteq> 448 then throw StoreInvalid else ret ())) w'
     (\<lambda>r w'. same_except {} w w')"
    by (rule ensures_and_thenI [where P = "\<lambda>r w'. same_except {} w w'"])
       (use same in \<open>auto simp: ensures_map_err split: outcome.splits
          intro!: ensures_mono [OF look_ensures(1)] intro: same_except_trans\<close>)
qed simp_all


lemma first_journal_evidence: "slot_evidence E (first_journal invocation mapping request wd)"
  by (simp add: slot_evidence_def first_journal_def)

lemma write_new_ok_at:
  assumes "write_new E p j w = (Ok (), w')"
  shows "journal_at E j w' p \<and> node_at w p = None \<and> same_except {p} w w'"
proof (cases "slot_to_vec E j")
  case None
  from ensuresD [OF write_new_unserializable [OF None] assms] show ?thesis by simp
next
  case (Some b)
  from ensuresD [OF write_new_created [OF Some] assms]
  have "created p 384 (b @ newline) w True w'" by simp
  with Some show ?thesis by (simp add: created_def journal_at_def same_except_def)
qed

text \<open>A successful \<open>begin\<close> found no file at the slot path and leaves a live slot at the first stage.\<close>

lemma begin_ok_live:
  assumes "begin_slot E d uid root invocation mapping request wd w = (Ok s, w')"
  shows "live_slot E s w' \<and> as_stage (sl_journal s) = Intent \<and>
    slot_key (sl_journal s) = (invocation, mapping, request, wd) \<and>
    sl_directory s = d \<and> node_at w (sl_path s) = None \<and> same_except {sl_path s} w w'"
proof -
  let ?j = "first_journal invocation mapping request wd"
  from assms obtain w1 p i w2 where vs: "verify_store d uid root w = (Ok (), w1)"
    and p: "slot_path d mapping = Inr p" and i: "active_slot_identity E ?j = Inr i"
    and wn: "write_new E p (?j\<lparr>as_identity := i\<rparr>) w1 = (Ok (), w2)"
    and sy: "sync_directory d w2 = (Ok (), w')"
    and s: "s = \<lparr>sl_directory = d, sl_path = p, sl_journal = ?j\<lparr>as_identity := i\<rparr>\<rparr>"
    by (auto simp: begin_slot_def and_then_Ok_iff lift_result_Ok_iff Let_def)
  from ensuresD [OF verify_store_looks vs] have a: "same_except {} w w1" .
  from ensuresD [OF sync_directory_ensures sy] have c: "same_except {} w2 w'" .
  note b = write_new_ok_at [OF wn]
  have "journal_at E (?j\<lparr>as_identity := i\<rparr>) w' p"
    using b by (simp add: journal_at_same [OF c])
  moreover have "slot_wf E (?j\<lparr>as_identity := i\<rparr>)"
    using i by (simp add: slot_wf_def first_journal_evidence)
  moreover have "slot_key (?j\<lparr>as_identity := i\<rparr>) = (invocation, mapping, request, wd)"
    "as_stage ?j = Intent" "as_principal_mapping_identity ?j = mapping"
    by (simp_all add: slot_key_def first_journal_def)
  moreover have "same_except {p} w w'" "node_at w p = None"
    using a b c by (auto simp: same_except_def)
  ultimately show ?thesis using s p by (simp add: live_slot_def slot_at_def)
qed

lemma begin_occupied:
  assumes "slot_path d mapping = Inr p" and "node_at w p \<noteq> None"
  shows "ensures (begin_slot E d uid root invocation mapping request wd) w
    (\<lambda>r w'. \<not> is_Ok r \<and> same_except {} w w')"
proof -
  have wn: "ensures (write_new E p j) w1 (\<lambda>r w'. \<not> is_Ok r \<and> same_except {} w1 w')"
    if "same_except {} w w1" for w1 j
  proof -
    have occ: "node_at w1 p \<noteq> None" using that assms(2) by (simp add: same_except_def)
    have "ensures (create_new p 384) w1 (\<lambda>r w'. \<not> is_Ok r \<and> same_except {} w1 w')"
      by (rule ensures_mono [OF create_new_created])
         (use occ in \<open>auto simp: created_def same_except_def split: if_splits, metis+\<close>)
    then show ?thesis unfolding write_new_def ensures_and_then ensures_map_err
      by (rule ensures_mono) (auto split: outcome.splits)
  qed
  show ?thesis
    unfolding begin_slot_def Let_def assms(1)
    by (rule ensures_and_thenI [OF verify_store_looks])
       (auto simp: ensures_and_then ensures_lift_result split: sum.splits outcome.splits
         intro!: ensures_mono [OF wn] intro: same_except_trans)
qed


text \<open>A run that reaches a stage has a prefix after which every earlier stage was on disk.\<close>

lemma run_slot_append:
  "run_slot E (cs @ ds) s w =
     (case run_slot E cs s w of
        (Ok _, s', w') \<Rightarrow> run_slot E ds s' w'
      | (r, s', w') \<Rightarrow> (r, s', w'))"
  by (induction cs arbitrary: s w) (auto split: prod.splits outcome.splits)

lemma run_visits_live:
  assumes "run_slot E cs s w = (Ok (), s', w')" and "live_slot E s w"
    and "stage_rank (as_stage (sl_journal s)) \<le> r" and "r \<le> stage_rank (as_stage (sl_journal s'))"
  shows "\<exists>k s1 w1. run_slot E (take k cs) s w = (Ok (), s1, w1) \<and> live_slot E s1 w1 \<and>
    sl_path s1 = sl_path s \<and> stage_rank (as_stage (sl_journal s1)) = r"
  using assms
proof (induction cs arbitrary: s' w' rule: rev_induct)
  case Nil
  then have "run_slot E (take 0 []) s w = (Ok (), s, w)" by simp
  with Nil show ?case by (metis eq_iff prod.inject run_slot.simps(1) take_Nil)
next
  case (snoc c cs)
  from snoc.prems(1) obtain s1 w1 where pre: "run_slot E cs s w = (Ok (), s1, w1)"
    and c: "call_slot E c s1 w1 = (Ok (), s', w')"
    by (auto simp: run_slot_append split: prod.splits outcome.splits)
  show ?case
  proof (cases "r \<le> stage_rank (as_stage (sl_journal s1))")
    case True
    from snoc.IH [OF pre snoc.prems(2,3) this] obtain k s2 w2 where
      "run_slot E (take k cs) s w = (Ok (), s2, w2) \<and> live_slot E s2 w2 \<and>
        sl_path s2 = sl_path s \<and> stage_rank (as_stage (sl_journal s2)) = r" by blast
    moreover have "take (min k (length cs)) (cs @ [c]) = take k cs" by (simp add: min_def)
    ultimately show ?thesis by metis
  next
    case False
    from run_ok_live [OF pre snoc.prems(2)] have live: "live_slot E s1 w1" by simp
    from call_ok_live [OF c live] slot_step_rank [of E "sl_journal s1" "sl_journal s'"]
    have "stage_rank (as_stage (sl_journal s')) \<le> Suc (stage_rank (as_stage (sl_journal s1)))" by auto
    with False snoc.prems(4) have "stage_rank (as_stage (sl_journal s')) = r" by simp
    with snoc.prems(1,2) run_ok_live [OF snoc.prems(1,2)] show ?thesis
      by (metis take_all_iff order_refl)
  qed
qed

end
