(* ===== verification/Slot_Samples.thy ===== *)
theory Slot_Samples
  imports Active_Slot
begin

text \<open>
  A concrete store, the input of the witnesses: one invocation with evidence for every stage,
  identity functions that return the stated identity, and a codec that knows the journals of the
  invocation, encoded by the letter of their stage.
\<close>

definition digest :: "char \<Rightarrow> string" where
  "digest c = ''sha256:'' @ replicate 64 c"

definition sample_wd :: working_directory where
  "sample_wd = \<lparr>wd_schema_version = 1, wd_identity = digest CHR ''d'', wd_logical_path = ''/work'',
     wd_device = 7, wd_inode = 9\<rparr>"

definition sample_child :: child_process where
  "sample_child = \<lparr>ch_schema_version = 1, ch_identity = digest CHR ''c'', ch_invocation_id = ''invocation-1'',
     ch_request_identity = digest CHR ''b'', ch_pid = 42, ch_process_start_time_identity = ''t'',
     ch_ota_binary_identity = ''o'', ch_principal_mapping_identity = digest CHR ''a'',
     ch_working_directory_identity = digest CHR ''d''\<rparr>"

definition sample_scope :: systemd_scope where
  "sample_scope = \<lparr>sc_schema_version = 1, sc_identity = digest CHR ''e'', sc_invocation_id = ''invocation-1'',
     sc_request_identity = digest CHR ''b'', sc_child_identity = digest CHR ''c'', sc_child_pid = 42,
     sc_unit_name = ''u'', sc_unit_object_path = ''/u'', sc_slice = ''s'', sc_control_group = ''/g'',
     sc_delegate = False, sc_kill_mode = ''control-group'', sc_collect_mode = ''inactive-or-failed''\<rparr>"

definition sample_decision :: "authorization_decision \<Rightarrow> decision_relay" where
  "sample_decision v = \<lparr>dr_schema_version = 1, dr_identity = (if v = Pending then ''dp'' else ''da''),
     dr_request_identity = ''rq'',
     dr_authorization_decision = \<lparr>sg_payload = \<lparr>dp_message_kind = ''k'', dp_request_identity = ''rq'',
         dp_binding_identity = ''b'', dp_authority_id = ''a'', dp_attestation_identity = ''at'',
         dp_challenge_nonce_commitment = ''n'', dp_work_unit_identity = ''w'',
         dp_contract_identity = ''c'', dp_semantic_scope_identity = ''s'', dp_decision = v, dp_rest = []\<rparr>,
       sg_key_id = ''k'', sg_algorithm = ''ed25519'', sg_signature = ''s''\<rparr>,
     dr_authorization_decision_identity = ''ad'',
     dr_admission = \<lparr>da_identity = ''adm'', da_request_identity = ''rq'',
       da_authorization_decision_identity = ''ad'', da_binding_identity = ''b'',
       da_attestation_identity = ''at'', da_work_unit_identity = ''w'', da_contract_identity = ''c'',
       da_semantic_scope_identity = ''s'', da_decision = v, da_rest = []\<rparr>\<rparr>"

definition sample_lease :: "lease_payload signed_message" where
  "sample_lease = \<lparr>sg_payload = \<lparr>pl_message_kind = ''k'', pl_authorization_decision_identity = ''ad'',
       pl_binding_identity = ''b'', pl_work_unit_identity = ''w'', pl_rest = []\<rparr>,
     sg_key_id = ''k'', sg_algorithm = ''ed25519'', sg_signature = ''s''\<rparr>"

definition sample_consume_request :: consume_request where
  "sample_consume_request = \<lparr>cr_message_kind = ''k'', cr_lease_identity = ''l'',
     cr_binding_identity = ''b'', cr_work_unit_identity = ''w'', cr_crossing_transaction_id = ''x'',
     cr_crossing_transaction_identity = ''xi'', cr_rest = []\<rparr>"

definition sample_intent :: intent_relay where
  "sample_intent = \<lparr>ir_schema_version = 1, ir_identity = ''ir'',
     ir_authorization_decision_relay_identity = ''da'', ir_prepared_lease = sample_lease,
     ir_prepared_lease_identity = ''l'', ir_consume_request = sample_consume_request,
     ir_consume_request_identity = ''cr''\<rparr>"

definition sample_consumption :: consumption_relay where
  "sample_consumption = \<lparr>lc_schema_version = 1, lc_identity = ''lc'',
     lc_authorization_decision_relay_identity = ''da'', lc_prepared_lease = sample_lease,
     lc_prepared_lease_identity = ''l'', lc_consume_request = sample_consume_request,
     lc_consume_request_identity = ''cr'',
     lc_consume_response = \<lparr>sg_payload = \<lparr>rp_message_kind = ''k'', rp_consume_request_identity = ''cr'',
         rp_lease_identity = ''l'', rp_binding_identity = ''b'', rp_work_unit_identity = ''w'', rp_rest = []\<rparr>,
       sg_key_id = ''k'', sg_algorithm = ''ed25519'', sg_signature = ''s''\<rparr>,
     lc_consume_response_identity = ''cs'',
     lc_admission = \<lparr>la_identity = ''la'', la_prepared_lease_identity = ''l'',
       la_consume_request_identity = ''cr'', la_consume_response_identity = ''cs'',
       la_binding_identity = ''b'', la_work_unit_identity = ''w'', la_crossing_transaction_id = ''x'',
       la_crossing_transaction_identity = ''xi'', la_rest = []\<rparr>\<rparr>"

definition sample_completion :: completion where
  "sample_completion = \<lparr>ec_schema_version = 1, ec_identity = ''ec'', ec_message_kind = ''completion'',
     ec_invocation_id = ''invocation-1'', ec_lease_consumption_admission_identity = ''la'',
     ec_work_unit_identity = ''w'', ec_crossing_transaction_id = ''x'',
     ec_pending_crossing_transaction_identity = ''xi'', ec_crossing_transaction_identity = ''xf'',
     ec_receipt_archive_identity = Some ''ra'', ec_outcome = CompletedOutcome, ec_exit_code = Some 0,
     ec_receipt_status = ''completed''\<rparr>"

text \<open>The journal of each stage, and the six calls that lead from one to the next.\<close>

definition sample_journal :: "active_slot_stage \<Rightarrow> active_slot_journal" where
  "sample_journal st =
     (let r = stage_rank st in
      (first_journal ''invocation-1'' (digest CHR ''a'') (digest CHR ''b'') sample_wd)
        \<lparr>as_identity := ''slot'', as_stage := st,
         as_child := (if 1 \<le> r then Some sample_child else None),
         as_scope := (if 2 \<le> r then Some sample_scope else None),
         as_authorization_decision := (if 3 \<le> r then Some (sample_decision Allowed) else None),
         as_lease_consumption_intent := (if 4 \<le> r then Some sample_intent else None),
         as_lease_consumption := (if 5 \<le> r then Some sample_consumption else None),
         as_execution_completion := (if 6 \<le> r then Some sample_completion else None)\<rparr>)"

definition sample_calls :: "slot_call list" where
  "sample_calls = [RecordChild sample_child, RecordScope sample_scope,
     RecordDecision (sample_decision Allowed), RecordIntent sample_intent,
     RecordConsumption sample_consumption, RecordCompletion sample_completion]"

definition all_stages :: "active_slot_stage list" where
  "all_stages = [Intent, ChildPrepared, ScopeAttached, AuthorizationDecisionVerified,
     LeaseConsumptionIntentRecorded, LeaseConsumptionVerified, ExecutionCompletionRecorded]"

fun stage_letter :: "active_slot_stage \<Rightarrow> string" where
  "stage_letter Intent = ''I''"
| "stage_letter ChildPrepared = ''C''"
| "stage_letter ScopeAttached = ''S''"
| "stage_letter AuthorizationDecisionVerified = ''A''"
| "stage_letter LeaseConsumptionIntentRecorded = ''L''"
| "stage_letter LeaseConsumptionVerified = ''V''"
| "stage_letter ExecutionCompletionRecorded = ''E''"

definition sample_encode :: "active_slot_journal \<Rightarrow> string" where
  "sample_encode j = ''{'' @ stage_letter (as_stage j) @ ''}''"

definition sample_decode :: "string \<Rightarrow> active_slot_journal option" where
  "sample_decode bs =
     List.find (\<lambda>j. bs = sample_encode j \<or> bs = sample_encode j @ newline) (map sample_journal all_stages)"

definition sample_env :: slot_env where
  "sample_env = \<lparr>launcher_working_directory_identity = Some \<circ> wd_identity,
     launcher_child_process_identity = Some \<circ> ch_identity,
     launcher_systemd_scope_identity = Some \<circ> sc_identity,
     authorization_decision_relay_evidence_v1_identity = Some \<circ> dr_identity,
     lease_consumption_intent_relay_evidence_v1_identity = Some \<circ> ir_identity,
     lease_consumption_relay_evidence_v1_identity = Some \<circ> lc_identity,
     launcher_execution_completion_v1_identity = Some \<circ> ec_identity,
     launcher_execution_finalization_v1_identity = (\<lambda>_. Some ''ef''),
     signed_launcher_execution_finalization_v1_identity = Some \<circ> sf_identity,
     launcher_finalization_archive_request_v1_identity = Some \<circ> ar_request_identity,
     launcher_finalization_archive_sidecar_v1_identity = Some \<circ> sd_identity,
     launcher_finalization_archive_persistence_v1_identity = Some \<circ> ap_identity,
     launcher_terminal_frame_v1_identity = Some \<circ> tf_message_kind,
     launcher_terminal_persistence_v1_identity = Some \<circ> tp_identity,
     slot_message_identity = (\<lambda>_ _. Some ''slot''), slot_to_vec = Some \<circ> sample_encode,
     slot_from_slice = sample_decode\<rparr>"

definition sample_store :: path where
  "sample_store = [RootDir, Normal ''slots'']"

definition sample_dir_node :: fnode where
  "sample_dir_node = \<lparr>n_kind = Directory, n_uid = 0, n_gid = 0, n_mode = 448, n_ino = (1, 1), n_bytes = []\<rparr>"

definition sample_slot_path :: path where
  "sample_slot_path = path_join sample_store (replicate 64 CHR ''a'' @ ''.json'')"

definition sample_world :: world where
  "sample_world = \<lparr>w_files = [([RootDir], sample_dir_node), (sample_store, sample_dir_node)],
     w_euid = 0, w_faults = []\<rparr>"

definition sample_file :: "active_slot_stage \<Rightarrow> fnode" where
  "sample_file st = \<lparr>n_kind = RegularFile, n_uid = 0, n_gid = 0, n_mode = 384, n_ino = (0, 3),
     n_bytes = sample_encode (sample_journal st) @ newline\<rparr>"

definition sample_slot :: "active_slot_stage \<Rightarrow> active_slot" where
  "sample_slot st = \<lparr>sl_directory = sample_store, sl_path = sample_slot_path, sl_journal = sample_journal st\<rparr>"

definition sample_world_at :: "active_slot_stage \<Rightarrow> fault list \<Rightarrow> world" where
  "sample_world_at st fs = \<lparr>w_files = [([RootDir], sample_dir_node), (sample_store, sample_dir_node),
     (sample_slot_path, sample_file st)], w_euid = 0, w_faults = fs\<rparr>"


lemma as_stage_sample [simp]: "as_stage (sample_journal st) = st"
  by (simp add: sample_journal_def Let_def first_journal_def)

lemma sample_decode_encode:
  "sample_decode (sample_encode (sample_journal st)) = Some (sample_journal st)"
  "sample_decode (sample_encode (sample_journal st) @ newline) = Some (sample_journal st)"
  by (cases st; simp add: sample_decode_def all_stages_def sample_encode_def newline_def)+

lemma sample_decode_torn: "n < 3 \<Longrightarrow> sample_decode (take n (sample_encode (sample_journal st))) = None"
  by (cases st; cases n rule: nat.exhaust; auto simp: sample_decode_def all_stages_def sample_encode_def newline_def
      take_Cons' split: if_splits)

lemma sample_codec: "slot_codec_at sample_env (sample_journal st)"
proof -
  have "length (sample_encode (sample_journal st)) = 3" by (cases st) (simp_all add: sample_encode_def)
  then show ?thesis
    using sample_decode_encode [of st] sample_decode_torn [of _ st]
    by (simp add: slot_codec_at_def sample_env_def MAX_ACTIVE_SLOT_BYTES_def list_all_iff)
qed

lemma sample_wf: "slot_wf sample_env (sample_journal st)"
  by (cases st; hypsubst; code_simp)

lemma sample_chain:
  "chain_ok sample_store 0 [RootDir] ProtectedDirectory (sample_world_at st fs)"
proof -
  have "q = [RootDir] \<or> q = sample_store" if "prefix [RootDir] q" "prefix q sample_store" for q
    using that by (auto simp: sample_store_def prefix_Cons)
  then show ?thesis
    by (auto simp: chain_ok_def sample_world_at_def candidate_ok_def kind_valid_def sample_dir_node_def
        sample_store_def)
qed

end
