(* ===== verification/Slot_Store.thy ===== *)
theory Slot_Store
  imports Slot_Samples
begin

text \<open>
  Recovery of the active-slot store at service start (\<open>ActiveSlot::load_all\<close> and
  \<open>is_direct_successor\<close> of \<open>src/active_slot.rs\<close>): every journal is read, a temporary file left by
  an interrupted replacement is removed when it is torn and promoted when it is complete and the
  direct successor of the journal it was to replace.
\<close>


section \<open>The model\<close>

definition is_direct_successor :: "active_slot_journal \<Rightarrow> active_slot_journal \<Rightarrow> bool" where
  "is_direct_successor cur rec =
     (case (as_stage cur, as_stage rec) of
        (Intent, ChildPrepared) \<Rightarrow>
          as_child cur = None \<and> as_scope cur = None \<and> as_scope rec = None
      | (ChildPrepared, ScopeAttached) \<Rightarrow>
          as_child cur = as_child rec \<and> as_scope cur = None \<and> as_scope rec \<noteq> None \<and>
          as_authorization_decision cur = None \<and> as_authorization_decision rec = None
      | (ScopeAttached, AuthorizationDecisionVerified) \<Rightarrow>
          as_child cur = as_child rec \<and> as_scope cur = as_scope rec \<and>
          as_authorization_decision cur = None \<and> as_authorization_decision rec \<noteq> None
      | (AuthorizationDecisionVerified, LeaseConsumptionIntentRecorded) \<Rightarrow>
          as_child cur = as_child rec \<and> as_scope cur = as_scope rec \<and>
          as_authorization_decision cur = as_authorization_decision rec \<and>
          as_lease_consumption_intent cur = None \<and> as_lease_consumption_intent rec \<noteq> None \<and>
          as_lease_consumption rec = None
      | (LeaseConsumptionIntentRecorded, LeaseConsumptionVerified) \<Rightarrow>
          as_child cur = as_child rec \<and> as_scope cur = as_scope rec \<and>
          as_authorization_decision cur = as_authorization_decision rec \<and>
          as_lease_consumption_intent cur = as_lease_consumption_intent rec \<and>
          as_lease_consumption cur = None \<and> as_lease_consumption rec \<noteq> None
      | (LeaseConsumptionVerified, ExecutionCompletionRecorded) \<Rightarrow>
          as_child cur = as_child rec \<and> as_scope cur = as_scope rec \<and>
          as_authorization_decision cur = as_authorization_decision rec \<and>
          as_lease_consumption_intent cur = as_lease_consumption_intent rec \<and>
          as_lease_consumption cur = as_lease_consumption rec \<and>
          as_execution_completion cur = None \<and> as_execution_completion rec \<noteq> None
      | (AuthorizationDecisionVerified, AuthorizationDecisionVerified) \<Rightarrow>
          as_child cur = as_child rec \<and> as_scope cur = as_scope rec \<and>
          is_some_and (\<lambda>previous. is_some_and (\<lambda>next.
              previous = next \<or>
              relay_decision previous = Pending \<and> same_authorization_request previous next)
            (as_authorization_decision rec)) (as_authorization_decision cur)
      | _ \<Rightarrow> False)"

type_synonym slot_map = "(string \<times> path \<times> active_slot_journal) list"

definition is_temporary_name :: "string \<Rightarrow> bool" where
  "is_temporary_name name \<longleftrightarrow> starts_with ''.'' name \<and> ends_with ''.tmp'' name"

text \<open>The first loop: canonical journals are loaded, temporary files set aside.\<close>

fun scan_entries ::
  "'x slot_env_scheme \<Rightarrow> path \<Rightarrow> nat \<Rightarrow> string list \<Rightarrow> slot_map \<Rightarrow> (path \<times> string) list
     \<Rightarrow> (world, active_slot_error, slot_map \<times> (path \<times> string) list) proc" where
  "scan_entries E d uid [] canonical temporary_paths = ret (canonical, temporary_paths)"
| "scan_entries E d uid (name # names) canonical temporary_paths =
     (let p = path_join d name in
      if \<not> utf8_valid name then throw StoreInvalid
      else and_then (verify_journal_file p uid) (\<lambda>_.
        if is_temporary_name name
        then scan_entries E d uid names canonical (temporary_paths @ [(p, name)])
        else and_then (load_journal E p) (\<lambda>j.
             and_then (lift_result (slot_path d (as_principal_mapping_identity j))) (\<lambda>q.
               if q \<noteq> p then throw InvalidJournal
               else if map_of canonical (as_principal_mapping_identity j) \<noteq> None
               then throw InvalidJournal
               else scan_entries E d uid names
                 (bt_insert (as_principal_mapping_identity j) (p, j) canonical) temporary_paths))))"

definition temporary_invocation :: "string \<Rightarrow> string option" where
  "temporary_invocation name =
     (case Option.bind (strip_prefix ''.'' name) (strip_suffix ''.tmp'') of
        Some v \<Rightarrow> if is_bounded_label v then Some v else None
      | None \<Rightarrow> None)"

text \<open>The second loop: a torn temporary file is removed, a complete one is kept for promotion.\<close>

fun resolve_temporaries ::
  "'x slot_env_scheme \<Rightarrow> path \<Rightarrow> slot_map \<Rightarrow> (path \<times> string) list \<Rightarrow> slot_map
     \<Rightarrow> (world, active_slot_error, slot_map) proc" where
  "resolve_temporaries E d canonical [] temporary = ret temporary"
| "resolve_temporaries E d canonical ((p, name) # rest) temporary =
     (case temporary_invocation name of
        None \<Rightarrow> throw InvalidJournal
      | Some invocation \<Rightarrow> (\<lambda>w.
          case load_journal E p w of
            (Ok j, w1) \<Rightarrow>
              (if name \<noteq> temporary_name (as_invocation_id j) \<or> as_stage j = Intent
                  \<or> map_of temporary (as_principal_mapping_identity j) \<noteq> None
               then throw InvalidJournal w1
               else resolve_temporaries E d canonical rest
                      (bt_insert (as_principal_mapping_identity j) (p, j) temporary) w1)
          | (Err e, w1) \<Rightarrow>
              (if e \<noteq> InvalidJournal then throw e w1
               else if length (filter (\<lambda>(_, _, j). as_invocation_id j = invocation) canonical) \<noteq> 1
               then throw InvalidJournal w1
               else and_then (map_err (\<lambda>_. PersistenceFailed) (remove_file p)) (\<lambda>_.
                    and_then (sync_directory d) (\<lambda>_.
                      resolve_temporaries E d canonical rest temporary)) w1)
          | (Crashed, w1) \<Rightarrow> (Crashed, w1)))"

text \<open>The third loop: the rename that was interrupted is performed.\<close>

fun promote_temporaries ::
  "path \<Rightarrow> slot_map \<Rightarrow> slot_map \<Rightarrow> (world, active_slot_error, slot_map) proc" where
  "promote_temporaries d [] canonical = ret canonical"
| "promote_temporaries d ((_, tp, rec) # rest) canonical =
     (case map_of canonical (as_principal_mapping_identity rec) of
        None \<Rightarrow> throw InvalidJournal
      | Some (cp, cur) \<Rightarrow>
          if \<not> is_direct_successor cur rec \<or> as_invocation_id cur \<noteq> as_invocation_id rec
             \<or> as_request_identity cur \<noteq> as_request_identity rec
             \<or> as_working_directory cur \<noteq> as_working_directory rec
          then throw InvalidJournal
          else and_then (map_err (\<lambda>_. PersistenceFailed) (rename_file tp cp)) (\<lambda>_.
               and_then (sync_directory d) (\<lambda>_.
                 promote_temporaries d rest
                   (bt_insert (as_principal_mapping_identity rec) (cp, rec) canonical))))"

definition load_all ::
  "'x slot_env_scheme \<Rightarrow> path \<Rightarrow> nat \<Rightarrow> path \<Rightarrow> (world, active_slot_error, active_slot list) proc" where
  "load_all E d uid root =
     and_then (verify_store d uid root) (\<lambda>_.
     and_then (map_err (\<lambda>_. StoreUnavailable) (read_dir d)) (\<lambda>names.
     and_then (scan_entries E d uid names [] []) (\<lambda>(canonical, temporary_paths).
     and_then (resolve_temporaries E d canonical temporary_paths []) (\<lambda>temporary.
     and_then (promote_temporaries d temporary canonical) (\<lambda>canonical'.
       ret (map (\<lambda>(_, p, j). \<lparr>sl_directory = d, sl_path = p, sl_journal = j\<rparr>) canonical'))))))"


section \<open>Every step is accepted as a direct successor\<close>

lemma slot_step_successor:
  "slot_evidence E j \<Longrightarrow> slot_step E j j' \<Longrightarrow> is_direct_successor j j'"
  by (erule slot_stepE)
     (auto simp: identified_def is_direct_successor_def slot_evidence_def is_some_and_iff)



section \<open>A store at rest\<close>

text \<open>
  \<open>dir_holds E d uid root J T w\<close>: the protected directory \<open>d\<close> holds the file of every journal in
  \<open>J\<close>, the temporary files named in \<open>T\<close>, and nothing else. With \<open>T\<close> empty it is a store at rest.
\<close>

definition slot_name :: "active_slot_journal \<Rightarrow> string" where
  "slot_name j = drop 7 (as_principal_mapping_identity j) @ ''.json''"

definition protected_store :: "path \<Rightarrow> nat \<Rightarrow> path \<Rightarrow> world \<Rightarrow> bool" where
  "protected_store d uid root w \<longleftrightarrow>
     path_absolute d \<and> path_absolute root \<and> prefix root d \<and> RootDir \<notin> set (tl d) \<and>
     chain_ok d uid root ProtectedDirectory w \<and>
     is_some_and (\<lambda>n. n_kind n = Directory \<and> n_mode n AND 4095 = 448) (node_at w d)"

definition loadable :: "'x slot_env_scheme \<Rightarrow> active_slot_journal \<Rightarrow> bool" where
  "loadable E j \<longleftrightarrow> active_slot_identity E j = Inr (as_identity j) \<and> slot_codec_at E j"

definition temporary_file :: "nat \<Rightarrow> path \<Rightarrow> world \<Rightarrow> bool" where
  "temporary_file uid p w \<longleftrightarrow> is_some_and (\<lambda>n. n_kind n = RegularFile \<and> n_uid n = uid \<and>
     n_mode n = 384 \<and> length (n_bytes n) \<le> MAX_ACTIVE_SLOT_BYTES) (node_at w p)"

definition dir_holds ::
  "'x slot_env_scheme \<Rightarrow> path \<Rightarrow> nat \<Rightarrow> path \<Rightarrow> active_slot_journal set \<Rightarrow> string set \<Rightarrow> world \<Rightarrow> bool" where
  "dir_holds E d uid root J T w \<longleftrightarrow>
     protected_store d uid root w \<and> w_euid w = uid \<and>
     inj_on as_principal_mapping_identity J \<and> inj_on as_invocation_id J \<and>
     (\<forall>j\<in>J. loadable E j \<and> journal_at E j w (path_join d (slot_name j))) \<and>
     (\<forall>t\<in>T. (\<exists>i. is_bounded_label i \<and> t = temporary_name i) \<and> temporary_file uid (path_join d t) w) \<and>
     (\<forall>name. node_at w (path_join d name) \<noteq> None \<longleftrightarrow> name \<in> slot_name ` J \<union> T)"

abbreviation store_holds where
  "store_holds E d uid root J w \<equiv> dir_holds E d uid root J {} w"

lemma loadable_identities:
  assumes "loadable E j"
  shows "is_bounded_label (as_invocation_id j)"
    "\<exists>h. as_principal_mapping_identity j = ''sha256:'' @ h \<and> length h = 64 \<and> list_all lower_hex_byte h"
    "slot_path d (as_principal_mapping_identity j) = Inr (path_join d (slot_name j))"
  using assms
  by (auto simp: loadable_def active_slot_identity_def is_sha256_identity_iff slot_path_def slot_name_def
      split: if_splits)

lemma slot_name_shape:
  assumes "loadable E j"
  shows "\<not> is_temporary_name (slot_name j)" and "utf8_valid (slot_name j)"
proof -
  from loadable_identities(2) [OF assms] obtain h where
    h: "slot_name j = h @ ''.json''" "length h = 64" "list_all lower_hex_byte h"
    by (auto simp: slot_name_def)
  then have "h \<noteq> [] \<and> hd h \<noteq> CHR ''.''"
    by (cases h) (auto simp: lower_hex_byte_def byte_class_defs)
  with h(1) show "\<not> is_temporary_name (slot_name j)"
    by (cases h) (auto simp: is_temporary_name_def starts_with_def)
  have "c \<le> CHR 0x7F" if "c \<in> set (h @ ''.json'')" for c
    using that h(3) by (auto simp: list_all_iff dest: lower_hex_byte_ascii)
  then show "utf8_valid (slot_name j)" unfolding h(1) by (rule utf8_valid_ascii)
qed

lemma temporary_name_shape:
  assumes "is_bounded_label i"
  shows "is_temporary_name (temporary_name i)" and "utf8_valid (temporary_name i)"
    and "temporary_invocation (temporary_name i) = Some i"
proof -
  have t: "temporary_name i = ''.'' @ (i @ ''.tmp'')" by (simp add: temporary_name_def)
  show "is_temporary_name (temporary_name i)"
    unfolding is_temporary_name_def t by (metis append.assoc ends_with_append starts_with_append)
  show "temporary_invocation (temporary_name i) = Some i"
    unfolding temporary_invocation_def t strip_prefix_append using assms by simp
  have "c \<le> CHR 0x7F" if "c \<in> set (''.'' @ (i @ ''.tmp''))" for c
    using that assms by (auto simp: list_all_iff is_bounded_label_def dest: label_byte_ascii)
  then show "utf8_valid (temporary_name i)" unfolding t by (rule utf8_valid_ascii)
qed

lemma slot_name_inj:
  assumes "loadable E i" and "loadable E j" and "slot_name i = slot_name j"
  shows "as_principal_mapping_identity i = as_principal_mapping_identity j"
  using loadable_identities(2) [OF assms(1)] loadable_identities(2) [OF assms(2)] assms(3)
  by (auto simp: slot_name_def)

lemma protected_store_same:
  assumes "protected_store d uid root w" and "same_except S w w'" and "\<And>q. q \<in> S \<Longrightarrow> \<not> prefix q d"
  shows "protected_store d uid root w'"
proof -
  have "node_at w' q = node_at w q" if "prefix q d" for q
    using that assms(2,3) by (auto simp: same_except_def)
  with assms(1) show ?thesis unfolding protected_store_def chain_ok_def by auto
qed

lemma not_prefix_join: "\<not> prefix (path_join d n) d"
  by (auto simp: path_join_def prefix_def)

lemma verify_store_at_rest:
  assumes "protected_store d uid root w"
  shows "verify_store d uid root (no_faults w) = (Ok (), no_faults w)"
proof -
  from assms have "verify_candidates d uid root ProtectedDirectory (rev d) (no_faults w) = (Ok (), no_faults w)"
    by (subst verify_candidates_correct)
       (auto simp: protected_store_def chain_ok_def path_absolute_def prefix_def split: list.splits)
  then have "verify_protected_directory d uid root (no_faults w) = (Ok (), no_faults w)"
    using assms by (simp add: verify_protected_directory_def verify_protected_path_def protected_store_def)
  with assms show ?thesis
    by (auto simp: verify_store_def and_then_def map_err_def symlink_metadata_def faulty_no_faults
        protected_store_def is_some_and_iff)
qed


section \<open>The three loops on a store at rest\<close>

lemma set_bt_insert: "k \<notin> fst ` set es \<Longrightarrow> set (bt_insert k v es) = insert (k, v) (set es)"
  by (induction es) auto

definition slot_entry :: "path \<Rightarrow> active_slot_journal \<Rightarrow> string \<times> path \<times> active_slot_journal" where
  "slot_entry d j = (as_principal_mapping_identity j, path_join d (slot_name j), j)"

lemma verify_journal_file_at:
  "temporary_file uid p w \<Longrightarrow> verify_journal_file p uid (no_faults w) = (Ok (), no_faults w)"
  by (auto simp: verify_journal_file_def and_then_def map_err_look temporary_file_def is_some_and_iff)

lemma journal_at_temporary_file:
  "journal_at E j w p \<Longrightarrow> slot_codec_at E j \<Longrightarrow> temporary_file (w_euid w) p w"
  by (auto simp: journal_at_def slot_codec_at_def temporary_file_def newline_def)

lemma scan_entries_at_rest:
  assumes "dir_holds E d uid root J T w" and "set ns \<subseteq> slot_name ` J \<union> T" and "distinct ns"
    and "bt_ordered c"
    and "\<And>j. j \<in> J \<Longrightarrow> slot_name j \<in> set ns \<Longrightarrow> as_principal_mapping_identity j \<notin> fst ` set c"
  shows "\<exists>c'. scan_entries E d uid ns c t (no_faults w) =
      (Ok (c', t @ map (\<lambda>n. (path_join d n, n)) (filter is_temporary_name ns)), no_faults w) \<and>
      bt_ordered c' \<and> set c' = set c \<union> slot_entry d ` {j \<in> J. slot_name j \<in> set ns}"
  using assms(2-)
proof (induction ns arbitrary: c t)
  case (Cons n ns)
  show ?case
  proof (cases "n \<in> T")
    case True
    with assms(1) obtain i where i: "is_bounded_label i" "n = temporary_name i"
      and f: "temporary_file uid (path_join d n) w"
      unfolding dir_holds_def by blast
    note shape = temporary_name_shape(1,2) [OF i(1)]
    have no: "slot_name j \<noteq> n" if "j \<in> J" for j
      using slot_name_shape(1) [of E j] shape(1) i(2) that assms(1) by (auto simp: dir_holds_def)
    from Cons.IH [of c "t @ [(path_join d n, n)]"] Cons.prems
    obtain c' where "scan_entries E d uid ns c (t @ [(path_join d n, n)]) (no_faults w) =
      (Ok (c', t @ [(path_join d n, n)] @ map (\<lambda>n. (path_join d n, n)) (filter is_temporary_name ns)), no_faults w)"
      "bt_ordered c'" "set c' = set c \<union> slot_entry d ` {j \<in> J. slot_name j \<in> set ns}"
      by auto
    moreover have "{j \<in> J. slot_name j \<in> set (n # ns)} = {j \<in> J. slot_name j \<in> set ns}"
      using no by auto
    ultimately show ?thesis
      using shape i(2) by (simp add: Let_def and_then_def verify_journal_file_at [OF f [unfolded i(2)]])
  next
    case False
    with Cons.prems(1) obtain j where j: "j \<in> J" "n = slot_name j" by auto
    with assms(1) have load: "loadable E j" and at: "journal_at E j w (path_join d n)"
      and uid: "uid = w_euid w" by (auto simp: dir_holds_def)
    note shape = slot_name_shape [OF load]
    have f: "temporary_file uid (path_join d n) w"
      using at load uid by (auto simp: loadable_def intro: journal_at_temporary_file)
    have lj: "load_journal E (path_join d n) (no_faults w) = (Ok j, no_faults w)"
      using at load by (auto simp: loadable_def intro: load_journal_at)
    have fresh: "as_principal_mapping_identity j \<notin> fst ` set c" using Cons.prems(4) j by simp
    have uniq: "i = j" if "i \<in> J" "as_principal_mapping_identity i = as_principal_mapping_identity j" for i
      using assms(1) that j(1) by (auto simp: dir_holds_def inj_on_def)
    have others: "as_principal_mapping_identity i \<notin> fst ` set (bt_insert (as_principal_mapping_identity j) (path_join d n, j) c)"
      if "i \<in> J" "slot_name i \<in> set ns" for i
      using that Cons.prems(2,4) uniq [of i] j(2) by (auto simp: keys_bt_insert)
    obtain c' where "scan_entries E d uid ns (bt_insert (as_principal_mapping_identity j) (path_join d n, j) c) t (no_faults w) =
      (Ok (c', t @ map (\<lambda>n. (path_join d n, n)) (filter is_temporary_name ns)), no_faults w)"
      "bt_ordered c'"
      "set c' = insert (slot_entry d j) (set c) \<union> slot_entry d ` {j \<in> J. slot_name j \<in> set ns}"
      using Cons.IH [of "bt_insert (as_principal_mapping_identity j) (path_join d n, j) c" t]
        Cons.prems others fresh j(2)
      by (auto simp: bt_ordered_insert set_bt_insert slot_entry_def)
    moreover have "{i \<in> J. slot_name i \<in> set (n # ns)} = insert j {j \<in> J. slot_name j \<in> set ns}"
      using j uniq assms(1) by (auto simp: dir_holds_def intro: slot_name_inj)
    ultimately show ?thesis
      using shape fresh loadable_identities(3) [OF load, of d] j(2)
      by (simp add: Let_def and_then_def verify_journal_file_at [OF f [unfolded j(2)]]
          lj [unfolded j(2)] map_of_eq_None_iff)
  qed
qed simp

text \<open>Reading the directory and the first loop, in a store with at most one temporary file.\<close>

lemma scan_store:
  assumes "dir_holds E d uid root J T w"
  obtains c ts where "load_all E d uid root (no_faults w) =
      and_then (resolve_temporaries E d c (map (\<lambda>n. (path_join d n, n)) ts) []) (\<lambda>temporary.
      and_then (promote_temporaries d temporary c) (\<lambda>canonical'.
        ret (map (\<lambda>(_, p, j). \<lparr>sl_directory = d, sl_path = p, sl_journal = j\<rparr>) canonical'))) (no_faults w)"
    and "bt_ordered c" and "set c = slot_entry d ` J" and "set ts = T" and "distinct ts"
proof -
  let ?ns = "dir_names w d"
  have names: "set ?ns = slot_name ` J \<union> T"
    using assms by (auto simp: dir_names_set dir_holds_def)
  have temps: "set (filter is_temporary_name ?ns) = T"
    using assms slot_name_shape(1) temporary_name_shape(1) unfolding names set_filter
    by (fastforce simp: dir_holds_def)
  from scan_entries_at_rest [OF assms, of ?ns "[]" "[]"] names obtain c where
    c: "scan_entries E d uid ?ns [] [] (no_faults w) =
      (Ok (c, map (\<lambda>n. (path_join d n, n)) (filter is_temporary_name ?ns)), no_faults w)"
      "bt_ordered c" "set c = slot_entry d ` {j \<in> J. slot_name j \<in> set ?ns}"
    by (auto simp: dir_names_order)
  have "{j \<in> J. slot_name j \<in> set ?ns} = J" using names by auto
  moreover have "verify_store d uid root (no_faults w) = (Ok (), no_faults w)"
    using assms by (intro verify_store_at_rest) (simp add: dir_holds_def)
  moreover have "read_dir d (no_faults w) = (Ok ?ns, no_faults w)"
    using assms by (auto simp: read_dir_def faulty_no_faults dir_holds_def protected_store_def is_some_and_iff)
  ultimately show thesis
    using c temps by (intro that [of c "filter is_temporary_name ?ns"])
      (simp_all add: load_all_def and_then_def map_err_def dir_names_order)
qed


section \<open>Replacing one journal of a store\<close>

definition swap_journal :: "active_slot_journal set \<Rightarrow> active_slot_journal \<Rightarrow> active_slot_journal \<Rightarrow> active_slot_journal set" where
  "swap_journal J j j' = insert j' (J - {j})"

definition same_slot :: "active_slot_journal \<Rightarrow> active_slot_journal \<Rightarrow> bool" where
  "same_slot j j' \<longleftrightarrow> slot_key j' = slot_key j"

lemma same_slotD:
  "same_slot j j' \<Longrightarrow> as_invocation_id j' = as_invocation_id j"
  "same_slot j j' \<Longrightarrow> as_principal_mapping_identity j' = as_principal_mapping_identity j"
  "same_slot j j' \<Longrightarrow> slot_name j' = slot_name j"
  by (simp_all add: same_slot_def slot_key_def slot_name_def)

lemma swap_inj_on: "inj_on f J \<Longrightarrow> j \<in> J \<Longrightarrow> f j' = f j \<Longrightarrow> inj_on f (swap_journal J j j')"
  by (auto simp: swap_journal_def inj_on_def)

lemma swap_image: "j \<in> J \<Longrightarrow> f j' = f j \<Longrightarrow> f ` swap_journal J j j' = f ` J"
  by (auto simp: swap_journal_def)

lemma dir_holdsD:
  assumes "dir_holds E d uid root J T w"
  shows "protected_store d uid root w" and "w_euid w = uid"
    and "j \<in> J \<Longrightarrow> loadable E j" and "j \<in> J \<Longrightarrow> journal_at E j w (path_join d (slot_name j))"
    and "node_at w (path_join d name) \<noteq> None \<longleftrightarrow> name \<in> slot_name ` J \<union> T"
  using assms by (simp_all add: dir_holds_def)

lemma dir_holds_protected_same:
  assumes "dir_holds E d uid root J T w" and "same_except {path_join d a, path_join d b} w w'"
  shows "protected_store d uid root w'"
  by (rule protected_store_same [OF dir_holdsD(1) [OF assms(1)] assms(2)]) (auto simp: not_prefix_join)

lemma other_slot_name:
  assumes "dir_holds E d uid root J T w" and "i \<in> J" and "j \<in> J" and "i \<noteq> j"
  shows "slot_name i \<noteq> slot_name j"
  using assms slot_name_inj [of E i j] by (auto simp: dir_holds_def inj_on_def)

lemma slot_name_not_temporary:
  assumes "dir_holds E d uid root J T w" and "j \<in> J" and "is_bounded_label i"
  shows "slot_name j \<noteq> temporary_name i"
  using assms slot_name_shape(1) [of E j] temporary_name_shape(1) [OF assms(3)]
  by (auto simp: dir_holds_def)

text \<open>Removing the only temporary file, or never having written one.\<close>

lemma store_without_temporary:
  assumes "dir_holds E d uid root J T w" and "T \<subseteq> {t}" and "is_bounded_label i" and "t = temporary_name i"
    and "same_except {path_join d t} w w'" and "node_at w' (path_join d t) = None"
  shows "store_holds E d uid root J w'"
proof -
  have ne: "slot_name j \<noteq> t" if "j \<in> J" for j
    using slot_name_not_temporary [OF assms(1) that assms(3)] assms(4) by simp
  have "protected_store d uid root w'"
    using dir_holds_protected_same [OF assms(1), of t t] assms(5) by simp
  moreover have "journal_at E j w' (path_join d (slot_name j))" if "j \<in> J" for j
    using dir_holdsD(4) [OF assms(1) that] ne [OF that] by (simp add: journal_at_same [OF assms(5)])
  moreover have "node_at w' (path_join d name) \<noteq> None \<longleftrightarrow> name \<in> slot_name ` J" for name
    using dir_holdsD(5) [OF assms(1), of name] assms(2,6) ne
    by (cases "name = t") (auto simp: same_exceptD [OF assms(5)])
  ultimately show ?thesis using assms(1,5) by (simp add: dir_holds_def same_except_def)
qed

text \<open>A complete new journal over its predecessor's file.\<close>

lemma store_swapped:
  assumes "dir_holds E d uid root J T w" and "T \<subseteq> {t}" and "is_bounded_label i" and "t = temporary_name i"
    and "j \<in> J" and "same_slot j j'" and "loadable E j'"
    and "same_except {path_join d t, path_join d (slot_name j)} w w'"
    and "node_at w' (path_join d t) = None" and "journal_at E j' w' (path_join d (slot_name j))"
  shows "store_holds E d uid root (swap_journal J j j') w'"
proof -
  have ne: "slot_name j \<noteq> t" if "j \<in> J" for j
    using slot_name_not_temporary [OF assms(1) that assms(3)] assms(4) by simp
  have "protected_store d uid root w'" by (rule dir_holds_protected_same [OF assms(1,8)])
  moreover have "loadable E i \<and> journal_at E i w' (path_join d (slot_name i))" if i: "i \<in> swap_journal J j j'" for i
  proof (cases "i = j'")
    case True
    with assms(6,7,10) show ?thesis by (simp add: same_slotD)
  next
    case False
    with i have "i \<in> J" "i \<noteq> j" by (auto simp: swap_journal_def)
    with dir_holdsD(3,4) [OF assms(1) this(1)] ne other_slot_name [OF assms(1) this(1) assms(5)]
    show ?thesis by (simp add: journal_at_same [OF assms(8)])
  qed
  moreover have "node_at w' (path_join d name) \<noteq> None \<longleftrightarrow> name \<in> slot_name ` J" for name
  proof -
    consider "name = t" | "name = slot_name j" "name \<noteq> t" | "name \<noteq> t" "name \<noteq> slot_name j" by blast
    then show ?thesis
    proof cases
      case 2
      with assms(5,10) show ?thesis by (auto simp: journal_at_def)
    qed (use dir_holdsD(5) [OF assms(1), of name] assms(2,9) ne in \<open>auto simp: same_exceptD [OF assms(8)]\<close>)
  qed
  ultimately show ?thesis
    using assms(1,5,6,8)
    by (simp add: dir_holds_def same_slotD same_except_def swap_inj_on swap_image)
qed

text \<open>An interrupted replacement leaves the store at rest, or with one temporary file.\<close>

lemma store_interrupted:
  assumes "store_holds E d uid root J w" and "j \<in> J" and "same_slot j j'" and "loadable E j'"
    and "slot_to_vec E j' = Some b"
    and "replaced (path_join d (temporary_name (as_invocation_id j))) (path_join d (slot_name j)) 384
       (b @ newline) w ok w'"
  obtains (old) "store_holds E d uid root J w'"
  | (temporary) k where "dir_holds E d uid root J {temporary_name (as_invocation_id j)} w'"
      "node_at w' (path_join d (temporary_name (as_invocation_id j))) = Some (file_node w 384 (take k (b @ newline)))"
  | (new) "store_holds E d uid root (swap_journal J j j') w'"
proof -
  let ?t = "temporary_name (as_invocation_id j)"
  let ?tmp = "path_join d ?t" and ?dst = "path_join d (slot_name j)"
  note rest = dir_holdsD [OF assms(1)]
  have lab: "is_bounded_label (as_invocation_id j)" by (rule loadable_identities(1) [OF rest(3) [OF assms(2)]])
  have ne: "slot_name i \<noteq> ?t" if "i \<in> J" for i by (rule slot_name_not_temporary [OF assms(1) that lab])
  have absent: "node_at w ?tmp = None" using rest(5) [of ?t] ne by fastforce
  from assms(6) have same: "same_except {?tmp, ?dst} w w'" by (simp add: replaced_def)
  from assms(6) absent consider (a) "node_at w' ?dst = node_at w ?dst" "node_at w' ?tmp = None"
    | (b) k where "node_at w' ?dst = node_at w ?dst" "node_at w' ?tmp = Some (file_node w 384 (take k (b @ newline)))"
    | (c) "node_at w' ?tmp = None" "node_at w' ?dst = Some (file_node w 384 (b @ newline))"
    by (auto simp: replaced_def)
  then show thesis
  proof cases
    case a
    with same have "same_except {?tmp} w w'" by (auto simp: same_except_def)
    from store_without_temporary [OF assms(1) _ lab refl this a(2)] show ?thesis by (simp add: old)
  next
    case b
    with same have s1: "same_except {?tmp} w w'" by (auto simp: same_except_def)
    then have eu: "w_euid w' = uid" using rest(2) by (simp add: same_except_def)
    have len: "length (b @ newline) \<le> MAX_ACTIVE_SLOT_BYTES"
      using assms(4,5) by (auto simp: loadable_def slot_codec_at_def newline_def)
    have "temporary_file uid ?tmp w'"
      using b(2) rest(2) len by (auto simp: temporary_file_def min_def)
    moreover have "journal_at E i w' (path_join d (slot_name i))" if "i \<in> J" for i
      using rest(4) [OF that] ne [OF that] by (simp add: journal_at_same [OF s1])
    moreover have "node_at w' (path_join d name) \<noteq> None \<longleftrightarrow> name \<in> slot_name ` J \<union> {?t}" for name
      using rest(5) [of name] b(2) by (cases "name = ?t") (auto simp: same_exceptD [OF s1])
    moreover have "protected_store d uid root w'" by (rule dir_holds_protected_same [OF assms(1) same])
    ultimately have "dir_holds E d uid root J {?t} w'"
      using assms(1) lab eu unfolding dir_holds_def by blast
    then show ?thesis using b(2) by (rule temporary)
  next
    case c
    then have "journal_at E j' w' ?dst"
      using same assms(5) by (simp add: journal_at_def same_except_def)
    from store_swapped [OF assms(1) _ lab refl assms(2,3,4) same c(1) this] show ?thesis by (simp add: new)
  qed
qed


section \<open>What \<open>load_all\<close> returns\<close>

text \<open>
  \<open>loads E d uid root w J w'\<close>: run without faults, \<open>load_all\<close> returns the handles of exactly the
  journals in \<open>J\<close>, ordered by principal mapping, and ends in \<open>w'\<close>.
\<close>

definition slot_handle :: "path \<Rightarrow> active_slot_journal \<Rightarrow> active_slot" where
  "slot_handle d j = \<lparr>sl_directory = d, sl_path = path_join d (slot_name j), sl_journal = j\<rparr>"

definition loads ::
  "'x slot_env_scheme \<Rightarrow> path \<Rightarrow> nat \<Rightarrow> path \<Rightarrow> world \<Rightarrow> active_slot_journal set \<Rightarrow> world \<Rightarrow> bool" where
  "loads E d uid root w J w' \<longleftrightarrow>
     (\<exists>slots. load_all E d uid root (no_faults w) = (Ok slots, w') \<and>
        set slots = slot_handle d ` J \<and>
        sorted_wrt (<) (map (as_principal_mapping_identity \<circ> sl_journal) slots))"

lemma handles_of_entries:
  assumes "set c = slot_entry d ` J" and "bt_ordered c"
  defines "slots \<equiv> map (\<lambda>(_, p, j). \<lparr>sl_directory = d, sl_path = p, sl_journal = j\<rparr>) c"
  shows "set slots = slot_handle d ` J"
    and "sorted_wrt (<) (map (as_principal_mapping_identity \<circ> sl_journal) slots)"
proof -
  show "set slots = slot_handle d ` J"
    using assms(1) by (force simp: slots_def slot_entry_def slot_handle_def image_iff)
  have "map (as_principal_mapping_identity \<circ> sl_journal) slots = map fst c"
    using assms(1) by (auto simp: slots_def slot_entry_def)
  with assms(2) show "sorted_wrt (<) (map (as_principal_mapping_identity \<circ> sl_journal) slots)" by simp
qed

lemma distinct_singleton: "distinct xs \<Longrightarrow> set xs = {x} \<Longrightarrow> xs = [x]"
  by (cases xs; cases "tl xs") auto

lemma load_all_at_rest:
  assumes "store_holds E d uid root J w"
  shows "loads E d uid root w J (no_faults w)"
  using scan_store [OF assms]
proof cases
  case (1 c ts)
  then have "load_all E d uid root (no_faults w) =
     (Ok (map (\<lambda>(_, p, j). \<lparr>sl_directory = d, sl_path = p, sl_journal = j\<rparr>) c), no_faults w)"
    by (simp add: and_then_def)
  with handles_of_entries [OF 1(3,2)] show ?thesis unfolding loads_def by blast
qed

text \<open>Exactly one canonical journal has the invocation id of the temporary file.\<close>

lemma matching_count:
  assumes "set c = slot_entry d ` J" and "bt_ordered c" and "inj_on as_invocation_id J" and "j \<in> J"
  shows "length (filter (\<lambda>(_, _, i). as_invocation_id i = as_invocation_id j) c) = 1"
proof -
  have "distinct c" using assms(2) by (metis bt_ordered_distinct distinct_map)
  moreover have "set (filter (\<lambda>(_, _, i). as_invocation_id i = as_invocation_id j) c) = {slot_entry d j}"
    using assms(1,3,4) by (auto simp: slot_entry_def inj_on_def)
  ultimately have "filter (\<lambda>(_, _, i). as_invocation_id i = as_invocation_id j) c = [slot_entry d j]"
    by (intro distinct_singleton) simp_all
  then show ?thesis by simp
qed

lemma sync_directory_at_rest:
  assumes "protected_store d uid root w" and "w_faults w = []"
  shows "sync_directory d w = (Ok (), w)"
  using assms
  by (auto simp: sync_directory_def map_err_def sync_dir_def and_then_def open_nofollow_def
      sync_all_def faulty_no_faults protected_store_def is_some_and_iff)

lemma load_journal_torn:
  assumes "node_at w p = Some n" and "n_kind n = RegularFile" and "n_bytes n = bs"
    and "length bs \<le> MAX_ACTIVE_SLOT_BYTES" and "slot_from_slice E bs = None"
  shows "load_journal E p (no_faults w) = (Err InvalidJournal, no_faults w)"
  using assms
  by (auto simp: load_journal_def and_then_def map_err_def open_nofollow_def read_to_end_def
      faulty_no_faults)

text \<open>A torn temporary file is removed and the old journal stays.\<close>

lemma load_all_torn:
  assumes "dir_holds E d uid root J {temporary_name (as_invocation_id j)} w" and "j \<in> J"
    and "load_journal E (path_join d (temporary_name (as_invocation_id j))) (no_faults w) =
       (Err InvalidJournal, no_faults w)"
  shows "\<exists>w'. loads E d uid root w J w' \<and> store_holds E d uid root J w'"
  using scan_store [OF assms(1)]
proof cases
  case (1 c ts)
  let ?t = "temporary_name (as_invocation_id j)" and ?tmp = "path_join d (temporary_name (as_invocation_id j))"
  let ?w' = "del_node ?tmp (no_faults w)"
  have ts: "ts = [?t]" using 1(4,5) by (intro distinct_singleton) auto
  have lab: "is_bounded_label (as_invocation_id j)"
    by (rule loadable_identities(1) [OF dir_holdsD(3) [OF assms(1,2)]])
  have "same_except {?tmp} w ?w'" by (simp add: same_except_def)
  then have rest: "store_holds E d uid root J ?w'"
    using store_without_temporary [OF assms(1) _ lab refl, of ?w'] by simp
  have present: "node_at w ?tmp \<noteq> None" using dir_holdsD(5) [OF assms(1), of ?t] by blast
  have count: "length (filter (\<lambda>(_, _, i). as_invocation_id i = as_invocation_id j) c) = 1"
    using assms(1) by (intro matching_count [OF 1(3,2) _ assms(2)]) (simp add: dir_holds_def)
  have "resolve_temporaries E d c (map (\<lambda>n. (path_join d n, n)) ts) [] (no_faults w) = (Ok [], ?w')"
    using present count
    by (simp add: ts temporary_name_shape(3) [OF lab] assms(3) and_then_def map_err_def remove_file_def
        faulty_no_faults sync_directory_at_rest [OF dir_holdsD(1) [OF rest]] split: option.splits)
  then have "load_all E d uid root (no_faults w) =
     (Ok (map (\<lambda>(_, p, j). \<lparr>sl_directory = d, sl_path = p, sl_journal = j\<rparr>) c), ?w')"
    using 1(1) by (simp add: and_then_def)
  with handles_of_entries [OF 1(3,2)] rest show ?thesis unfolding loads_def by blast
qed

text \<open>A complete temporary file of a direct successor is promoted.\<close>

lemma set_bt_update:
  assumes "bt_ordered c" and "(k, v) \<in> set c"
  shows "set (bt_insert k v' c) = insert (k, v') (set c - {(k, v)})"
proof -
  have eq: "set xs = {(a, b). map_of xs a = Some b}" if "bt_ordered xs" for xs :: "('a \<times> 'b) list"
    using that by (auto dest: bt_ordered_distinct)
  have "map_of c k = Some v" using assms(2) eq [OF assms(1)] by simp
  then show ?thesis
    unfolding eq [OF bt_ordered_insert [OF assms(1)]] unfolding eq [OF assms(1)]
    by (auto split: if_splits)
qed


lemma load_all_promotes:
  assumes "dir_holds E d uid root J {temporary_name (as_invocation_id j)} w" and "j \<in> J"
    and "journal_at E j' w (path_join d (temporary_name (as_invocation_id j)))"
    and "loadable E j'" and "same_slot j j'" and "is_direct_successor j j'"
  shows "\<exists>w'. loads E d uid root w (swap_journal J j j') w' \<and> store_holds E d uid root (swap_journal J j j') w'"
  using scan_store [OF assms(1)]
proof cases
  case (1 c ts)
  let ?t = "temporary_name (as_invocation_id j)"
  let ?tmp = "path_join d ?t" and ?dst = "path_join d (slot_name j)"
  have ts: "ts = [?t]" using 1(4,5) by (intro distinct_singleton) auto
  have lab: "is_bounded_label (as_invocation_id j)"
    by (rule loadable_identities(1) [OF dir_holdsD(3) [OF assms(1,2)]])
  have ne: "slot_name j \<noteq> ?t" by (rule slot_name_not_temporary [OF assms(1,2) lab])
  obtain n where n: "node_at w ?tmp = Some n" using assms(3) by (auto simp: journal_at_def)
  let ?w' = "del_node ?tmp (put_node ?dst n (no_faults w))"
  have "same_except {?tmp, ?dst} w ?w'" "node_at ?w' ?tmp = None" "journal_at E j' ?w' ?dst"
    using assms(3) n ne by (auto simp: same_except_def journal_at_def)
  from store_swapped [OF assms(1) _ lab refl assms(2,5,4) this]
  have rest: "store_holds E d uid root (swap_journal J j j') ?w'" by simp
  have lj: "load_journal E ?tmp (no_faults w) = (Ok j', no_faults w)"
    using assms(3,4) by (auto simp: loadable_def intro: load_journal_at)
  have notfirst: "as_stage j' \<noteq> Intent"
    using assms(6) by (auto simp: is_direct_successor_def split: active_slot_stage.splits)
  note same = same_slotD [OF assms(5)]
  let ?m = "as_principal_mapping_identity j"
  have entry: "(?m, ?dst, j) \<in> set c" using 1(3) assms(2) by (auto simp: slot_entry_def)
  then have look: "map_of c ?m = Some (?dst, j)" using bt_ordered_distinct [OF 1(2)] by simp
  let ?c = "bt_insert ?m (?dst, j') c"
  have "resolve_temporaries E d c (map (\<lambda>n. (path_join d n, n)) ts) [] (no_faults w) =
      (Ok [(?m, ?tmp, j')], no_faults w)"
    using notfirst same by (simp add: ts temporary_name_shape(3) [OF lab] lj)
  moreover have "promote_temporaries d [(?m, ?tmp, j')] c (no_faults w) = (Ok ?c, ?w')"
    using assms(5,6) n ne look same
    by (simp add: and_then_def map_err_def rename_file_def faulty_no_faults
        sync_directory_at_rest [OF dir_holdsD(1) [OF rest]] same_slot_def slot_key_def)
  ultimately have run: "load_all E d uid root (no_faults w) =
     (Ok (map (\<lambda>(_, p, j). \<lparr>sl_directory = d, sl_path = p, sl_journal = j\<rparr>) ?c), ?w')"
    using 1(1) by (simp add: and_then_def)
  have "set ?c = slot_entry d ` swap_journal J j j'"
  proof -
    have "inj_on (slot_entry d) J" by (auto simp: slot_entry_def inj_on_def)
    then have "slot_entry d ` (J - {j}) = slot_entry d ` J - {slot_entry d j}"
      using assms(2) by (simp add: inj_on_image_set_diff [of _ J])
    then show ?thesis
      using set_bt_update [OF 1(2) entry] 1(3) same by (simp add: swap_journal_def slot_entry_def)
  qed
  note handles = handles_of_entries [OF this bt_ordered_insert [OF 1(2)]]
  have "loads E d uid root w (swap_journal J j j') ?w'"
    unfolding loads_def by (intro exI conjI) (rule run, rule handles(1), rule handles(2))
  with rest show ?thesis by blast
qed

section \<open>Recovery after any interruption\<close>

lemma dir_holds_no_faults [simp]:
  "dir_holds E d uid root J T (no_faults w) = dir_holds E d uid root J T w"
  by (simp add: dir_holds_def protected_store_def chain_ok_def journal_at_def temporary_file_def)

lemma take_newline_cases:
  obtains "k < length b" "take k (b @ newline) = take k b"
  | "take k (b @ newline) = b" | "take k (b @ newline) = b @ newline"
proof -
  consider "k < length b" | "k = length b" | "k > length b" by linarith
  then show thesis by cases (use that in \<open>auto simp: newline_def\<close>)
qed

lemma step_recovers:
  assumes "store_holds E d uid root J w" and "j \<in> J" and "slot_evidence E j" and "slot_step E j j'"
    and "slot_codec_at E j'"
    and "replace_atomically E d (path_join d (slot_name j)) j' w = (r, w1)"
  shows "\<exists>K w2. (K = J \<or> K = swap_journal J j j') \<and> (is_Ok r \<longrightarrow> K = swap_journal J j j') \<and>
     loads E d uid root w1 K w2 \<and> store_holds E d uid root K w2"
proof -
  let ?tmp = "path_join d (temporary_name (as_invocation_id j))" and ?dst = "path_join d (slot_name j)"
  have same: "same_slot j j'" using slot_step_key [OF assms(4)] by (simp add: same_slot_def)
  have load': "loadable E j'"
    using slot_step_evidence [OF assms(3,4)] assms(5) by (simp add: loadable_def slot_wf_def)
  have lab: "is_bounded_label (as_invocation_id j)"
    by (rule loadable_identities(1) [OF dir_holdsD(3) [OF assms(1,2)]])
  have neq: "?tmp \<noteq> ?dst" using slot_name_not_temporary [OF assms(1,2) lab] by auto
  from assms(5) obtain b where b: "slot_to_vec E j' = Some b" and max: "length b < MAX_ACTIVE_SLOT_BYTES"
    and torn: "\<And>k. k < length b \<Longrightarrow> slot_from_slice E (take k b) = None"
    by (auto simp: slot_codec_at_def list_all_iff)
  have rep: "replaced ?tmp ?dst 384 (b @ newline) w (is_Ok r) w1"
    using ensuresD [OF slot_file.contract [of "(d, ?dst, j')" E "b @ newline" w]] neq b assms(6)
    by (simp add: same_slotD [OF same])
  show ?thesis
  proof (cases "is_Ok r")
    case True
    then have inst: "same_except {?tmp, ?dst} w w1" "node_at w1 ?tmp = None"
      "node_at w1 ?dst = Some (file_node w 384 (b @ newline))"
      using rep by (auto simp: replaced_def)
    have "journal_at E j' w1 ?dst" using inst b by (simp add: journal_at_def same_except_def)
    from store_swapped [OF assms(1) _ lab refl assms(2) same load' inst(1,2) this]
    have "store_holds E d uid root (swap_journal J j j') w1" by simp
    with load_all_at_rest [OF this] show ?thesis
      by (metis dir_holds_no_faults)
  next
    case False
    from assms(1,2) same load' b rep show ?thesis
    proof (cases rule: store_interrupted)
      case old
      with load_all_at_rest [OF this] False show ?thesis by (metis dir_holds_no_faults)
    next
      case new
      with load_all_at_rest [OF this] False show ?thesis by (metis dir_holds_no_faults)
    next
      case (temporary k)
      have torn_case: "k < length b \<Longrightarrow> load_journal E ?tmp (no_faults w1) = (Err InvalidJournal, no_faults w1)"
        using max torn by (intro load_journal_torn [OF temporary(2) _ refl]) simp_all
      have "w_euid w1 = w_euid w" using rep by (simp add: replaced_def same_except_def)
      then have done_case: "take k (b @ newline) \<in> {b, b @ newline} \<Longrightarrow> journal_at E j' w1 ?tmp"
        using temporary(2) b by (auto simp: journal_at_def)
      note succ = slot_step_successor [OF assms(3,4)]
      from take_newline_cases [of k b] load_all_torn [OF temporary(1) assms(2) torn_case]
        load_all_promotes [OF temporary(1) assms(2) done_case load' same succ] False
      show ?thesis by blast
    qed
  qed
qed


lemma no_step_recovers:
  assumes "store_holds E d uid root J w"
  shows "\<exists>w2. loads E d uid root w J w2 \<and> store_holds E d uid root J w2"
  using load_all_at_rest [OF assms] assms by (metis dir_holds_no_faults)

section \<open>Properties of the active-slot store\<close>

text \<open>
  C1. Crash recovery. A store at rest holds the slots \<open>J\<close>; an operation runs on one of them under
  any schedule of I/O faults and with a crash at any system call. Then the next \<open>load_all\<close>
  succeeds and returns exactly the slots of \<open>J\<close> with that one either unchanged or advanced by the
  one step of the operation; advanced, if the operation had returned \<open>Ok\<close>. The store is at rest
  again: no temporary file is left.
\<close>

theorem crash_recovery:
  assumes "store_holds E d uid root J w" and "sl_journal s \<in> J" and "s = slot_handle d (sl_journal s)"
    and "slot_evidence E (sl_journal s)" and "call_slot E c s w = (r, s', w1)"
    and "slot_codec_at E (sl_journal s')"
  shows "\<exists>K w2. loads E d uid root w1 K w2 \<and> store_holds E d uid root K w2 \<and>
    (K = J \<or> slot_step E (sl_journal s) (sl_journal s') \<and> K = swap_journal J (sl_journal s) (sl_journal s')) \<and>
    (is_Ok r \<longrightarrow> sl_journal s' \<in> K)"
  using assms(5)
proof (cases rule: call_slot_cases)
  case (step j')
  then have "replace_atomically E d (path_join d (slot_name (sl_journal s))) j' w = (r, w1)"
    using assms(3) by (metis active_slot.select_convs(1,2) slot_handle_def)
  from step_recovers [OF assms(1,2,4) step(1) _ this] assms(6) step(1,2) show ?thesis
    by (auto simp: swap_journal_def)
qed (use no_step_recovers [OF assms(1)] assms(2) in auto)


lemma sample_store_at_rest:
  "store_holds sample_env sample_store 0 [RootDir] {sample_journal st} (sample_world_at st fs)"
proof -
  let ?w = "sample_world_at st fs"
  have name: "sample_slot_path = path_join sample_store (slot_name (sample_journal st))"
    by (simp add: sample_slot_path_def slot_name_def sample_journal_def Let_def first_journal_def digest_def)
  have at: "journal_at sample_env (sample_journal st) ?w sample_slot_path"
    by (simp add: journal_at_def sample_world_at_def sample_file_def sample_env_def sample_slot_path_def
        sample_store_def path_join_def)
  have "node_at ?w (path_join sample_store n) \<noteq> None \<longleftrightarrow> path_join sample_store n = sample_slot_path" for n
    by (auto simp: sample_world_at_def sample_store_def path_join_def)
  then have names: "node_at ?w (path_join sample_store n) \<noteq> None \<longleftrightarrow> n = slot_name (sample_journal st)" for n
    by (simp add: name)
  have "protected_store sample_store 0 [RootDir] ?w"
    using sample_chain [of st fs]
    by (simp add: protected_store_def sample_world_at_def sample_dir_node_def path_absolute_def sample_store_def)
  with at names sample_codec [of st] sample_wf [of st] show ?thesis
    by (simp add: dir_holds_def loadable_def slot_wf_def name) (simp add: sample_world_at_def)
qed

theorem crash_recovery_witness:
  "\<exists>K w2. loads sample_env sample_store 0 [RootDir]
       (snd (snd (call_slot sample_env (RecordIntent sample_intent)
          (sample_slot AuthorizationDecisionVerified)
          (sample_world_at AuthorizationDecisionVerified [NoFault, NoFault, NoFault, NoFault, CrashFault 0])))) K w2 \<and>
     store_holds sample_env sample_store 0 [RootDir] K w2"
proof -
  let ?s = "sample_slot AuthorizationDecisionVerified"
  let ?w = "sample_world_at AuthorizationDecisionVerified [NoFault, NoFault, NoFault, NoFault, CrashFault 0]"
  let ?run = "call_slot sample_env (RecordIntent sample_intent) ?s ?w"
  have s': "fst (snd ?run) = sample_slot LeaseConsumptionIntentRecorded" by code_simp
  have handle: "?s = slot_handle sample_store (sl_journal ?s)" by code_simp
  have "?run = (fst ?run, sample_slot LeaseConsumptionIntentRecorded, snd (snd ?run))"
    using s' by (metis prod.collapse)
  from crash_recovery [OF sample_store_at_rest _ handle _ this] show ?thesis
    using sample_wf sample_codec by (simp add: sample_slot_def slot_wf_def) blast
qed


text \<open>
  C2. The evidence chain. However a slot is begun and whichever operations then succeed on it, under
  any schedule of faults, the journal on disk is the journal in memory, belongs to the same
  invocation, principal, request and working directory, and holds the complete chain of its
  stage: child and scope bound to the request; from the consumption intent on, a decision that
  is \<open>Allowed\<close> and named by the intent; a consumption of that same intent; a completion of that
  same consumption. Read back, it is accepted and equal.
\<close>

theorem slot_evidence_chain:
  assumes "begin_slot E d uid root invocation mapping request wd w = (Ok s0, w0)"
    and "run_slot E cs s0 w0 = (Ok (), s, w1)" and "slot_codec_at E (sl_journal s)"
  shows "slot_evidence E (sl_journal s) \<and>
    slot_key (sl_journal s) = (invocation, mapping, request, wd) \<and>
    load_journal E (sl_path s) (no_faults w1) = (Ok (sl_journal s), no_faults w1)"
proof -
  note b = begin_ok_live [OF assms(1)]
  from b have live: "live_slot E s0 w0" by simp
  note r = run_ok_live [OF assms(2) live]
  from slot_machine.run_key [of E "sl_journal s0" "sl_journal s"] b r
  have "slot_key (sl_journal s) = (invocation, mapping, request, wd)" by simp
  moreover have "load_journal E (sl_path s) (no_faults w1) = (Ok (sl_journal s), no_faults w1)"
    using r by (intro load_journal_at [OF _ assms(3)]) (auto simp: live_slot_def slot_wf_def)
  ultimately show ?thesis using r by (simp add: live_slot_def slot_wf_def)
qed

definition sample_begin :: "fault list \<Rightarrow> (active_slot_error, active_slot) outcome \<times> world" where
  "sample_begin fs = begin_slot sample_env sample_store 0 [RootDir] ''invocation-1'' (digest CHR ''a'')
     (digest CHR ''b'') sample_wd (sample_world\<lparr>w_faults := fs\<rparr>)"

lemma sample_begin_run:
  "begin_slot sample_env sample_store 0 [RootDir] ''invocation-1'' (digest CHR ''a'') (digest CHR ''b'') sample_wd
     sample_world = (Ok (sample_slot Intent), snd (sample_begin []))"
  "run_slot sample_env sample_calls (sample_slot Intent) (snd (sample_begin [])) =
     (Ok (), sample_slot ExecutionCompletionRecorded,
      snd (snd (run_slot sample_env sample_calls (sample_slot Intent) (snd (sample_begin [])))))"
  by code_simp+

theorem slot_evidence_chain_witness:
  "slot_evidence sample_env (sample_journal ExecutionCompletionRecorded) \<and>
   (\<exists>w1. load_journal sample_env sample_slot_path w1 = (Ok (sample_journal ExecutionCompletionRecorded), w1))"
  using slot_evidence_chain [OF sample_begin_run] sample_codec by (auto simp: sample_slot_def)

text \<open>
  C3. No stage is skipped, and each was durable before the next: a run that has recorded an
  execution completion (rank 6), a lease consumption (5) or its intent (4) has, for every
  earlier stage, a prefix of its calls after which a journal of exactly that stage stood in the
  file of the slot.
\<close>

theorem slot_stages_in_order:
  assumes "begin_slot E d uid root invocation mapping request wd w = (Ok s0, w0)"
    and "run_slot E cs s0 w0 = (Ok (), s, w1)" and "r \<le> stage_rank (as_stage (sl_journal s))"
  shows "\<exists>k s' w'. run_slot E (take k cs) s0 w0 = (Ok (), s', w') \<and>
    stage_rank (as_stage (sl_journal s')) = r \<and> sl_path s' = sl_path s \<and>
    journal_at E (sl_journal s') w' (sl_path s)"
proof -
  from begin_ok_live [OF assms(1)] have live: "live_slot E s0 w0" "as_stage (sl_journal s0) = Intent" by auto
  from run_visits_live [OF assms(2) live(1) _ assms(3)] live(2) obtain k s1 w1' where
    "run_slot E (take k cs) s0 w0 = (Ok (), s1, w1')" "live_slot E s1 w1'" "sl_path s1 = sl_path s0"
    "stage_rank (as_stage (sl_journal s1)) = r" by auto
  moreover have "sl_path s = sl_path s0" using run_ok_live [OF assms(2) live(1)] by simp
  ultimately show ?thesis unfolding live_slot_def by metis
qed

theorem slot_stages_in_order_witness:
  "\<exists>k s' w'. run_slot sample_env (take k sample_calls) (sample_slot Intent) (snd (sample_begin [])) = (Ok (), s', w') \<and>
    stage_rank (as_stage (sl_journal s')) = 4 \<and> journal_at sample_env (sl_journal s') w' sample_slot_path"
proof -
  have "(4::nat) \<le> stage_rank (as_stage (sl_journal (sample_slot ExecutionCompletionRecorded)))"
    by (simp add: sample_slot_def)
  from slot_stages_in_order [OF sample_begin_run this] show ?thesis by (auto simp: sample_slot_def)
qed

text \<open>
  C4. One active invocation per principal. While a file stands at the slot path of a principal
  mapping, \<open>begin\<close> for that mapping never succeeds, whatever else goes wrong, and changes no
  file. When it does succeed there was none, and no other file has changed.
\<close>

theorem begin_exclusive:
  assumes "begin_slot E d uid root invocation mapping request wd w = (r, w')"
  shows "(\<forall>p. slot_path d mapping = Inr p \<and> node_at w p \<noteq> None \<longrightarrow> \<not> is_Ok r \<and> same_except {} w w') \<and>
    (\<forall>s. r = Ok s \<longrightarrow> node_at w (sl_path s) = None \<and> slot_path d mapping = Inr (sl_path s) \<and>
       same_except {sl_path s} w w')"
proof (intro conjI allI impI)
  fix p assume "slot_path d mapping = Inr p \<and> node_at w p \<noteq> None"
  then show "\<not> is_Ok r" "same_except {} w w'"
    using ensuresD [OF begin_occupied [of d mapping p w] assms] by auto
next
  fix s assume "r = Ok s"
  with begin_ok_live assms show "node_at w (sl_path s) = None" "slot_path d mapping = Inr (sl_path s)"
    "same_except {sl_path s} w w'"
    by (fastforce simp: live_slot_def slot_at_def slot_key_def)+
qed

theorem begin_exclusive_witness:
  "\<not> is_Ok (fst (begin_slot sample_env sample_store 0 [RootDir] ''invocation-2'' (digest CHR ''a'') (digest CHR ''b'')
       sample_wd (sample_world_at ScopeAttached [])))"
proof -
  have "slot_path sample_store (digest CHR ''a'') = Inr sample_slot_path"
    "node_at (sample_world_at ScopeAttached []) sample_slot_path \<noteq> None"
    by code_simp+
  with begin_exclusive [of sample_env sample_store 0 "[RootDir]" "''invocation-2''" "digest CHR ''a''"
      "digest CHR ''b''" sample_wd "sample_world_at ScopeAttached []"]
  show ?thesis by (metis prod.collapse)
qed

end
