(* ===== verification/Finalization_Journal.thy ===== *)
theory Finalization_Journal
  imports Slot_Samples
begin

text \<open>
  The durable finalization journal of \<open>src/finalization_journal.rs\<close>: retained when an execution has
  completed, advanced while the finalization is signed, archived, attached to protected history
  and acknowledged, and removed only after the exact terminal frame is acknowledged.

  The JSON codecs and the domain-separated hash are parameters (\<open>fin_env\<close>), and so is the
  process id that names a temporary file.
\<close>


section \<open>The journal\<close>

datatype finalization_journal_stage =
  FinIntent | SignedFinalization | ArchiveRequested | SidecarIssued |
  ProtectedHistoryAttached | SidecarAcknowledged | TerminalIssued

record protected_history_attachment =
  pa_schema_version :: nat
  pa_catalog_identity :: string
  pa_repository_binding_identity :: string
  pa_catalog_namespace_identity :: string
  pa_archive_blob_identity :: string
  pa_contract_snapshot_blob_identity :: string
  pa_sidecar_blob_identity :: string
  pa_finalization_journal_identity :: string

record finalization_journal =
  fj_schema_version :: nat
  fj_identity :: string
  fj_stage :: finalization_journal_stage
  fj_invocation_id :: string
  fj_principal_mapping_identity :: string
  fj_launcher_request_identity :: string
  fj_working_directory :: working_directory
  fj_finalization :: finalization
  fj_signed_finalization :: "signed_finalization option"
  fj_archive_request :: "archive_request option"
  fj_sidecar :: "sidecar option"
  fj_protected_history_attachment :: "protected_history_attachment option"
  fj_sidecar_persistence :: "archive_persistence option"
  fj_terminal :: "terminal_frame option"

datatype finalization_journal_error =
  FinStoreUnavailable | FinInvalidJournal | FinPersistenceFailed | AlreadyPending

record fin_handle =
  fh_directory :: path
  fh_path :: path
  fh_journal :: finalization_journal

record fin_env = slot_env +
  fin_message_identity :: "string \<Rightarrow> finalization_journal \<Rightarrow> string option"
  fin_to_vec :: "finalization_journal \<Rightarrow> string option"
  fin_from_slice :: "string \<Rightarrow> finalization_journal option"

definition FINALIZATION_JOURNAL_IDENTITY_DOMAIN_V1 :: string where
  "FINALIZATION_JOURNAL_IDENTITY_DOMAIN_V1 =
     ''ota.authority-launcher.finalization-journal.v1'' @ [CHR 0x00]"

definition MAX_JOURNAL_BYTES :: nat where
  "MAX_JOURNAL_BYTES = 128 * 1024"


section \<open>Validation and identity\<close>

definition signed_valid :: "'x fin_env_scheme \<Rightarrow> finalization_journal \<Rightarrow> bool" where
  "signed_valid E j = is_some_and (\<lambda>signed_fin.
     signed_launcher_execution_finalization_v1_identity E signed_fin = Some (sf_identity signed_fin) \<and>
     sf_finalization signed_fin = fj_finalization j) (fj_signed_finalization j)"

definition request_valid :: "'x fin_env_scheme \<Rightarrow> finalization_journal \<Rightarrow> bool" where
  "request_valid E j = is_some_and (\<lambda>rq.
     launcher_finalization_archive_request_v1_identity E rq = Some (ar_request_identity rq) \<and>
     ar_launcher_request_identity rq = fj_launcher_request_identity j \<and>
     ar_crossing_transaction_identity rq
       = ec_crossing_transaction_identity (ef_completion (fj_finalization j)) \<and>
     ec_receipt_archive_identity (ef_completion (fj_finalization j))
       = Some (ar_receipt_archive_identity rq) \<and>
     is_none_or (\<lambda>i. Some i = map_option sf_identity (fj_signed_finalization j))
       (ar_signed_finalization_identity rq)) (fj_archive_request j)"

definition sidecar_valid :: "'x fin_env_scheme \<Rightarrow> finalization_journal \<Rightarrow> bool" where
  "sidecar_valid E j = is_some_and (\<lambda>sc.
     launcher_finalization_archive_sidecar_v1_identity E sc = Some (sd_identity sc) \<and>
     fj_signed_finalization j = Some (sd_signed_finalization sc) \<and>
     is_some_and (\<lambda>rq.
       sa_receipt_archive_identity (sd_signed_archive sc) = ar_receipt_archive_identity rq \<and>
       sa_crossing_transaction_identity (sd_signed_archive sc) = ar_crossing_transaction_identity rq)
       (fj_archive_request j)) (fj_sidecar j)"

definition sidecar_persistence_valid :: "'x fin_env_scheme \<Rightarrow> finalization_journal \<Rightarrow> bool" where
  "sidecar_persistence_valid E j = is_some_and (\<lambda>p.
     launcher_finalization_archive_persistence_v1_identity E p = Some (ap_identity p) \<and>
     is_some_and (\<lambda>rq. ar_request_identity rq = ap_request_identity p) (fj_archive_request j) \<and>
     is_some_and (\<lambda>sc. sd_identity sc = ap_sidecar_identity p) (fj_sidecar j))
     (fj_sidecar_persistence j)"

definition attachment_identities_valid :: "protected_history_attachment \<Rightarrow> bool" where
  "attachment_identities_valid a \<longleftrightarrow>
     is_sha256_identity (pa_catalog_identity a) \<and>
     is_sha256_identity (pa_repository_binding_identity a) \<and>
     is_sha256_identity (pa_catalog_namespace_identity a) \<and>
     is_sha256_identity (pa_archive_blob_identity a) \<and>
     is_sha256_identity (pa_contract_snapshot_blob_identity a) \<and>
     is_sha256_identity (pa_sidecar_blob_identity a) \<and>
     is_sha256_identity (pa_finalization_journal_identity a)"

definition protected_history_valid :: "finalization_journal \<Rightarrow> bool" where
  "protected_history_valid j = is_some_and (\<lambda>a.
     pa_schema_version a = 1 \<and> attachment_identities_valid a) (fj_protected_history_attachment j)"

definition terminal_valid :: "'x fin_env_scheme \<Rightarrow> finalization_journal \<Rightarrow> bool" where
  "terminal_valid E j = is_some_and (\<lambda>t.
     launcher_terminal_frame_v1_identity E t \<noteq> None \<and>
     tf_invocation_id t = fj_invocation_id j \<and>
     tf_finalization t = Some (fj_finalization j)) (fj_terminal j)"

definition stage_is_valid :: "'x fin_env_scheme \<Rightarrow> finalization_journal \<Rightarrow> bool" where
  "stage_is_valid E j =
     (case fj_stage j of
        FinIntent \<Rightarrow>
          fj_signed_finalization j = None \<and> fj_archive_request j = None \<and> fj_sidecar j = None \<and>
          fj_protected_history_attachment j = None \<and> fj_sidecar_persistence j = None \<and>
          fj_terminal j = None
      | SignedFinalization \<Rightarrow>
          signed_valid E j \<and> fj_archive_request j = None \<and> fj_sidecar j = None \<and>
          fj_protected_history_attachment j = None \<and> fj_sidecar_persistence j = None \<and>
          fj_terminal j = None
      | ArchiveRequested \<Rightarrow>
          signed_valid E j \<and> request_valid E j \<and> fj_sidecar j = None \<and>
          fj_protected_history_attachment j = None \<and> fj_sidecar_persistence j = None \<and>
          fj_terminal j = None
      | SidecarIssued \<Rightarrow>
          signed_valid E j \<and> request_valid E j \<and> sidecar_valid E j \<and>
          fj_protected_history_attachment j = None \<and> fj_sidecar_persistence j = None \<and>
          fj_terminal j = None
      | ProtectedHistoryAttached \<Rightarrow>
          signed_valid E j \<and> request_valid E j \<and> sidecar_valid E j \<and>
          protected_history_valid j \<and> fj_sidecar_persistence j = None \<and> fj_terminal j = None
      | SidecarAcknowledged \<Rightarrow>
          signed_valid E j \<and> request_valid E j \<and> sidecar_valid E j \<and>
          (protected_history_valid j \<or> fj_protected_history_attachment j = None) \<and>
          sidecar_persistence_valid E j \<and> fj_terminal j = None
      | TerminalIssued \<Rightarrow>
          signed_valid E j \<and> request_valid E j \<and> sidecar_valid E j \<and>
          (protected_history_valid j \<or> fj_protected_history_attachment j = None) \<and>
          sidecar_persistence_valid E j \<and> terminal_valid E j)"

definition finalization_journal_identity ::
  "'x fin_env_scheme \<Rightarrow> finalization_journal \<Rightarrow> finalization_journal_error + string" where
  "finalization_journal_identity E j =
     (if fj_schema_version j \<noteq> 1
         \<or> \<not> starts_with ''invocation-'' (fj_invocation_id j)
         \<or> \<not> starts_with ''sha256:'' (fj_principal_mapping_identity j)
         \<or> \<not> starts_with ''sha256:'' (fj_launcher_request_identity j)
         \<or> launcher_working_directory_identity E (fj_working_directory j)
              \<noteq> Some (wd_identity (fj_working_directory j))
         \<or> launcher_execution_finalization_v1_identity E (fj_finalization j)
              \<noteq> Some (ef_identity (fj_finalization j))
         \<or> fj_invocation_id j \<noteq> ec_invocation_id (ef_completion (fj_finalization j))
         \<or> \<not> stage_is_valid E j
      then Inl FinInvalidJournal
      else (case fin_message_identity E FINALIZATION_JOURNAL_IDENTITY_DOMAIN_V1 (j\<lparr>fj_identity := []\<rparr>) of
              Some i \<Rightarrow> Inr i
            | None \<Rightarrow> Inl FinInvalidJournal))"


section \<open>Files of the store\<close>

text \<open>\<open>0o022\<close> is 18, \<open>0o077\<close> is 63 and \<open>0o600\<close> is 384.\<close>

definition journal_path :: "path \<Rightarrow> string \<Rightarrow> finalization_journal_error + path" where
  "journal_path d mapping =
     (case strip_prefix ''sha256:'' mapping of
        Some hex \<Rightarrow>
          if length hex = 64 \<and> list_all is_ascii_hexdigit hex
          then Inr (path_join d (hex @ ''.json'')) else Inl FinInvalidJournal
      | None \<Rightarrow> Inl FinInvalidJournal)"

definition fin_verify_store :: "path \<Rightarrow> nat \<Rightarrow> (world, finalization_journal_error, unit) proc" where
  "fin_verify_store d uid =
     and_then (map_err (\<lambda>_. FinStoreUnavailable) (symlink_metadata d)) (\<lambda>n.
       if n_kind n \<noteq> Directory \<or> n_uid n \<noteq> uid \<or> n_mode n AND 18 \<noteq> 0
       then throw FinStoreUnavailable else ret ())"

definition fin_verify_file :: "path \<Rightarrow> nat \<Rightarrow> (world, finalization_journal_error, unit) proc" where
  "fin_verify_file p uid =
     and_then (map_err (\<lambda>_. FinStoreUnavailable) (symlink_metadata p)) (\<lambda>n.
       if n_kind n \<noteq> RegularFile \<or> n_uid n \<noteq> uid \<or> n_mode n AND 63 \<noteq> 0
          \<or> length (n_bytes n) > MAX_JOURNAL_BYTES
       then throw FinStoreUnavailable else ret ())"

text \<open>The encoding comes first here: a journal that does not serialize creates no file.\<close>

definition fin_write_new :: "'x fin_env_scheme \<Rightarrow> path \<Rightarrow> finalization_journal \<Rightarrow> unit io" where
  "fin_write_new E p j =
     (case fin_to_vec E j of
        None \<Rightarrow> throw OtherIo
      | Some bytes \<Rightarrow> and_then (create_new p 384) (\<lambda>_. write_chunks p [bytes]))"

definition fin_sync_directory :: "path \<Rightarrow> (world, finalization_journal_error, unit) proc" where
  "fin_sync_directory d = map_err (\<lambda>_. FinPersistenceFailed) (sync_dir d)"

definition fin_temporary_name :: "string \<Rightarrow> nat \<Rightarrow> string" where
  "fin_temporary_name stem pid = ''.'' @ stem @ ''.'' @ decimal pid @ ''.tmp''"

definition fin_replace_atomically ::
  "'x fin_env_scheme \<Rightarrow> nat \<Rightarrow> path \<Rightarrow> path \<Rightarrow> finalization_journal
     \<Rightarrow> (world, finalization_journal_error, unit) proc" where
  "fin_replace_atomically E pid d p j =
     (case file_stem p of
        None \<Rightarrow> throw FinInvalidJournal
      | Some stem \<Rightarrow>
          if \<not> utf8_valid stem then throw FinInvalidJournal
          else
            (let temporary = path_join d (fin_temporary_name stem pid) in
             and_then (map_err (\<lambda>_. FinPersistenceFailed) (fin_write_new E temporary j)) (\<lambda>_.
             and_then (map_err (\<lambda>_. FinPersistenceFailed) (rename_file temporary p)) (\<lambda>_.
               fin_sync_directory d))))"

text \<open>
  \<open>Path::exists\<close> follows a symbolic link (its content here is the absolute target) and turns an
  error into \<open>false\<close>.
\<close>

definition path_exists :: "path \<Rightarrow> world \<Rightarrow> (finalization_journal_error, bool) outcome \<times> world" where
  "path_exists p w =
     (case symlink_metadata p w of
        (Ok n, w') \<Rightarrow>
          (Ok (n_kind n \<noteq> Symlink \<or> node_at w' (components (n_bytes n)) \<noteq> None), w')
      | (Err _, w') \<Rightarrow> (Ok False, w')
      | (Crashed, w') \<Rightarrow> (Crashed, w'))"


section \<open>Operations on the handle\<close>

type_synonym 'a fin_op =
  "fin_handle \<Rightarrow> world \<Rightarrow> (finalization_journal_error, 'a) outcome \<times> fin_handle \<times> world"

definition first_fin_journal ::
  "string \<Rightarrow> string \<Rightarrow> working_directory \<Rightarrow> finalization \<Rightarrow> finalization_journal" where
  "first_fin_journal mapping request wd fin =
     \<lparr>fj_schema_version = 1, fj_identity = [], fj_stage = FinIntent,
      fj_invocation_id = ec_invocation_id (ef_completion fin),
      fj_principal_mapping_identity = mapping, fj_launcher_request_identity = request,
      fj_working_directory = wd, fj_finalization = fin, fj_signed_finalization = None,
      fj_archive_request = None, fj_sidecar = None, fj_protected_history_attachment = None,
      fj_sidecar_persistence = None, fj_terminal = None\<rparr>"

definition fin_begin ::
  "'x fin_env_scheme \<Rightarrow> path \<Rightarrow> nat \<Rightarrow> string \<Rightarrow> string \<Rightarrow> working_directory \<Rightarrow> finalization
     \<Rightarrow> (world, finalization_journal_error, fin_handle) proc" where
  "fin_begin E d uid mapping request wd fin =
     and_then (fin_verify_store d uid) (\<lambda>_.
     and_then (lift_result (journal_path d mapping)) (\<lambda>p.
       let j = first_fin_journal mapping request wd fin in
       and_then (lift_result (finalization_journal_identity E j)) (\<lambda>i.
         let j' = j\<lparr>fj_identity := i\<rparr> in
         and_then (map_err (\<lambda>e. if e = AlreadyExists then AlreadyPending else FinPersistenceFailed)
                     (fin_write_new E p j')) (\<lambda>_.
         and_then (fin_sync_directory d) (\<lambda>_.
           ret \<lparr>fh_directory = d, fh_path = p, fh_journal = j'\<rparr>)))))"

text \<open>The file read last is the regular file just verified, so \<open>fs::read\<close> follows no link.\<close>

definition load_for_principal ::
  "'x fin_env_scheme \<Rightarrow> path \<Rightarrow> nat \<Rightarrow> string
     \<Rightarrow> (world, finalization_journal_error, fin_handle option) proc" where
  "load_for_principal E d uid mapping =
     and_then (fin_verify_store d uid) (\<lambda>_.
     and_then (lift_result (journal_path d mapping)) (\<lambda>p.
     and_then (path_exists p) (\<lambda>present.
       if \<not> present then ret None
       else
         and_then (fin_verify_file p uid) (\<lambda>_.
         and_then (map_err (\<lambda>_. FinStoreUnavailable) (open_nofollow p)) (\<lambda>n.
         and_then (map_err (\<lambda>_. FinStoreUnavailable) (read_to_end n)) (\<lambda>bs.
           case fin_from_slice E bs of
             None \<Rightarrow> throw FinInvalidJournal
           | Some j \<Rightarrow>
               and_then (lift_result (finalization_journal_identity E j)) (\<lambda>i.
                 if i \<noteq> fj_identity j \<or> fj_principal_mapping_identity j \<noteq> mapping
                 then throw FinInvalidJournal
                 else ret (Some \<lparr>fh_directory = d, fh_path = p, fh_journal = j\<rparr>))))))))"

definition persist :: "'x fin_env_scheme \<Rightarrow> nat \<Rightarrow> finalization_journal \<Rightarrow> unit fin_op" where
  "persist E pid j h w =
     (case finalization_journal_identity E j of
        Inl e \<Rightarrow> (Err e, h\<lparr>fh_journal := j\<rparr>, w)
      | Inr i \<Rightarrow>
          (let j' = j\<lparr>fj_identity := i\<rparr>;
               (r, w') = fin_replace_atomically E pid (fh_directory h) (fh_path h) j' w
           in (r, h\<lparr>fh_journal := j'\<rparr>, w')))"

definition record_signed_finalization ::
  "'x fin_env_scheme \<Rightarrow> nat \<Rightarrow> signed_finalization \<Rightarrow> unit fin_op" where
  "record_signed_finalization E pid signed_fin h w =
     (let j = fh_journal h in
      if fj_stage j \<noteq> FinIntent
         \<or> signed_launcher_execution_finalization_v1_identity E signed_fin \<noteq> Some (sf_identity signed_fin)
         \<or> sf_finalization signed_fin \<noteq> fj_finalization j
      then (Err FinInvalidJournal, h, w)
      else persist E pid (j\<lparr>fj_stage := SignedFinalization, fj_signed_finalization := Some signed_fin\<rparr>) h w)"

definition record_archive_request ::
  "'x fin_env_scheme \<Rightarrow> nat \<Rightarrow> archive_request \<Rightarrow> unit fin_op" where
  "record_archive_request E pid rq h w =
     (let j = fh_journal h; completion = ef_completion (fj_finalization j) in
      case fj_signed_finalization j of
        None \<Rightarrow> (Err FinInvalidJournal, h, w)
      | Some signed_fin \<Rightarrow>
          if fj_stage j \<noteq> SignedFinalization
             \<or> launcher_finalization_archive_request_v1_identity E rq \<noteq> Some (ar_request_identity rq)
             \<or> ar_launcher_request_identity rq \<noteq> fj_launcher_request_identity j
             \<or> ar_crossing_transaction_identity rq \<noteq> ec_crossing_transaction_identity completion
             \<or> ec_receipt_archive_identity completion \<noteq> Some (ar_receipt_archive_identity rq)
             \<or> is_some_and (\<lambda>i. i \<noteq> sf_identity signed_fin) (ar_signed_finalization_identity rq)
          then (Err FinInvalidJournal, h, w)
          else persist E pid (j\<lparr>fj_stage := ArchiveRequested, fj_archive_request := Some rq\<rparr>) h w)"

definition record_sidecar :: "'x fin_env_scheme \<Rightarrow> nat \<Rightarrow> sidecar \<Rightarrow> unit fin_op" where
  "record_sidecar E pid sc h w =
     (let j = fh_journal h in
      case fj_archive_request j of
        None \<Rightarrow> (Err FinInvalidJournal, h, w)
      | Some rq \<Rightarrow>
          if fj_stage j \<noteq> ArchiveRequested
             \<or> launcher_finalization_archive_sidecar_v1_identity E sc \<noteq> Some (sd_identity sc)
             \<or> sa_receipt_archive_identity (sd_signed_archive sc) \<noteq> ar_receipt_archive_identity rq
             \<or> sa_crossing_transaction_identity (sd_signed_archive sc)
                  \<noteq> ar_crossing_transaction_identity rq
             \<or> fj_signed_finalization j \<noteq> Some (sd_signed_finalization sc)
          then (Err FinInvalidJournal, h, w)
          else persist E pid (j\<lparr>fj_stage := SidecarIssued, fj_sidecar := Some sc\<rparr>) h w)"

definition record_sidecar_persistence ::
  "'x fin_env_scheme \<Rightarrow> nat \<Rightarrow> archive_persistence \<Rightarrow> unit fin_op" where
  "record_sidecar_persistence E pid p h w =
     (let j = fh_journal h in
      if fj_stage j \<noteq> ProtectedHistoryAttached
         \<or> launcher_finalization_archive_persistence_v1_identity E p \<noteq> Some (ap_identity p)
         \<or> is_none_or (\<lambda>rq. ar_request_identity rq \<noteq> ap_request_identity p) (fj_archive_request j)
         \<or> is_none_or (\<lambda>sc. sd_identity sc \<noteq> ap_sidecar_identity p) (fj_sidecar j)
      then (Err FinInvalidJournal, h, w)
      else persist E pid (j\<lparr>fj_stage := SidecarAcknowledged, fj_sidecar_persistence := Some p\<rparr>) h w)"

definition record_protected_history_attachment ::
  "'x fin_env_scheme \<Rightarrow> nat \<Rightarrow> protected_history_attachment \<Rightarrow> unit fin_op" where
  "record_protected_history_attachment E pid a h w =
     (let j = fh_journal h in
      if fj_stage j \<notin> {SidecarIssued, SidecarAcknowledged, TerminalIssued}
         \<or> fj_protected_history_attachment j \<noteq> None
         \<or> \<not> attachment_identities_valid a
         \<or> pa_finalization_journal_identity a \<noteq> fj_identity j
      then (Err FinInvalidJournal, h, w)
      else persist E pid
        ((if fj_stage j = SidecarIssued then j\<lparr>fj_stage := ProtectedHistoryAttached\<rparr> else j)
           \<lparr>fj_protected_history_attachment := Some a\<rparr>) h w)"

definition record_terminal :: "'x fin_env_scheme \<Rightarrow> nat \<Rightarrow> terminal_frame \<Rightarrow> unit fin_op" where
  "record_terminal E pid t h w =
     (let j = fh_journal h in
      if fj_stage j \<noteq> SidecarAcknowledged
         \<or> launcher_terminal_frame_v1_identity E t = None
         \<or> tf_invocation_id t \<noteq> fj_invocation_id j
         \<or> tf_finalization t \<noteq> Some (fj_finalization j)
      then (Err FinInvalidJournal, h, w)
      else persist E pid (j\<lparr>fj_stage := TerminalIssued, fj_terminal := Some t\<rparr>) h w)"

definition acknowledge_terminal_and_finalize ::
  "'x fin_env_scheme \<Rightarrow> terminal_persistence \<Rightarrow> fin_handle
     \<Rightarrow> (world, finalization_journal_error, unit) proc" where
  "acknowledge_terminal_and_finalize E p h =
     (let j = fh_journal h in
      case fj_terminal j of
        None \<Rightarrow> throw FinInvalidJournal
      | Some terminal \<Rightarrow>
          if fj_stage j \<noteq> TerminalIssued
             \<or> fj_protected_history_attachment j = None
             \<or> launcher_terminal_persistence_v1_identity E p \<noteq> Some (tp_identity p)
             \<or> tp_invocation_id p \<noteq> fj_invocation_id j
             \<or> launcher_terminal_frame_v1_identity E terminal \<noteq> Some (tp_terminal_identity p)
          then throw FinInvalidJournal
          else and_then (map_err (\<lambda>_. FinPersistenceFailed) (remove_file (fh_path h))) (\<lambda>_.
               fin_sync_directory (fh_directory h)))"

text \<open>The operations on a retained finalization, as data.\<close>

datatype fin_call =
    RecordSigned signed_finalization
  | RecordRequest archive_request
  | RecordSidecar sidecar
  | RecordAttachment protected_history_attachment
  | RecordPersistence archive_persistence
  | RecordTerminal terminal_frame

fun call_fin :: "'x fin_env_scheme \<Rightarrow> nat \<Rightarrow> fin_call \<Rightarrow> unit fin_op" where
  "call_fin E pid (RecordSigned x) = record_signed_finalization E pid x"
| "call_fin E pid (RecordRequest x) = record_archive_request E pid x"
| "call_fin E pid (RecordSidecar x) = record_sidecar E pid x"
| "call_fin E pid (RecordAttachment x) = record_protected_history_attachment E pid x"
| "call_fin E pid (RecordPersistence x) = record_sidecar_persistence E pid x"
| "call_fin E pid (RecordTerminal x) = record_terminal E pid x"

fun run_fin :: "'x fin_env_scheme \<Rightarrow> nat \<Rightarrow> fin_call list \<Rightarrow> unit fin_op" where
  "run_fin E pid [] h w = (Ok (), h, w)"
| "run_fin E pid (c # cs) h w =
     (case call_fin E pid c h w of
        (Ok _, h', w') \<Rightarrow> run_fin E pid cs h' w'
      | (r, h', w') \<Rightarrow> (r, h', w'))"



section \<open>Writing and replacing the file\<close>

lemma fin_write_new_created:
  "fin_to_vec E j = Some bs \<Longrightarrow> ensures (fin_write_new E p j) w (\<lambda>r. created p 384 bs w (is_Ok r))"
  using create_write_created [of "\<lambda>e. e" p 384 "\<lambda>e. e" "[bs]" w]
  by (simp add: fin_write_new_def ensures_def and_then_def map_err_def split: prod.splits outcome.splits)

lemma fin_sync_directory_ensures: "ensures (fin_sync_directory d) w (\<lambda>r w'. same_except {} w w')"
  unfolding fin_sync_directory_def ensures_map_err
  by (rule ensures_mono [OF sync_dir_ensures]) (auto split: outcome.splits)

lemma rename_then_sync_replaced:
  assumes "created tmp m bs w True w1" and "tmp \<noteq> dst"
  shows "ensures (and_then (map_err f (rename_file tmp dst)) (\<lambda>_. fin_sync_directory d)) w1
     (\<lambda>r. replaced tmp dst m bs w (is_Ok r))"
proof (rule ensures_and_then_ok)
  show "ensures (map_err f (rename_file tmp dst)) w1 (\<lambda>r. replaced tmp dst m bs w (is_Ok r))"
    unfolding ensures_map_err_ok by (rule rename_replaced [OF assms])
next
  fix w2 assume inst: "replaced tmp dst m bs w True w2"
  show "ensures (fin_sync_directory d) w2 (\<lambda>r. replaced tmp dst m bs w (is_Ok r))"
    by (rule ensures_mono [OF fin_sync_directory_ensures]) (rule replaced_then [OF inst])
qed

definition fin_tmp :: "nat \<Rightarrow> path \<Rightarrow> path \<Rightarrow> path" where
  "fin_tmp pid d p = path_join d (fin_temporary_name (the (file_stem p)) pid)"

definition fin_file_ok :: "path \<Rightarrow> bool" where
  "fin_file_ok p \<longleftrightarrow> is_some_and utf8_valid (file_stem p)"

interpretation fin_file: atomic_replacement
  "\<lambda>(d, p, j). fin_replace_atomically E pid d p j"
  "\<lambda>(d, p, j). fin_tmp pid d p"
  "\<lambda>(d, p, j). p"
  "\<lambda>(d, p, j). if fin_file_ok p then fin_to_vec E j else None"
  384
  for E and pid
proof (unfold_locales, goal_cases)
  case (1 a bs w)
  obtain d p j where a: "a = (d, p, j)" by (cases a)
  with 1 have b: "fin_to_vec E j = Some bs" and ok: "fin_file_ok p" and neq: "fin_tmp pid d p \<noteq> p"
    by (auto split: if_splits)
  from ok obtain stem where stem: "file_stem p = Some stem" "utf8_valid stem"
    by (auto simp: fin_file_ok_def is_some_and_iff)
  have wn: "ensures (map_err (\<lambda>_. FinPersistenceFailed) (fin_write_new E (fin_tmp pid d p) j)) w
     (\<lambda>r. created (fin_tmp pid d p) 384 bs w (is_Ok r))"
    unfolding ensures_map_err_ok by (rule fin_write_new_created [OF b])
  have eq: "fin_replace_atomically E pid d p j =
      and_then (map_err (\<lambda>_. FinPersistenceFailed) (fin_write_new E (fin_tmp pid d p) j)) (\<lambda>_.
      and_then (map_err (\<lambda>_. FinPersistenceFailed) (rename_file (fin_tmp pid d p) p)) (\<lambda>_.
        fin_sync_directory d))"
    using stem by (simp add: fin_replace_atomically_def fin_tmp_def Let_def)
  have "ensures (fin_replace_atomically E pid d p j) w (\<lambda>r. replaced (fin_tmp pid d p) p 384 bs w (is_Ok r))"
    unfolding eq
    by (rule ensures_and_then_ok [OF wn])
       (erule rename_then_sync_replaced [OF _ neq] replaced_created_failed [OF _ neq])+
  then show ?case by (simp add: a)
next
  case (2 a w)
  obtain d p j where a: "a = (d, p, j)" by (cases a)
  with 2 consider "\<not> fin_file_ok p" | "fin_to_vec E j = None" by (auto split: if_splits)
  then show ?case
    by cases (auto simp: a fin_replace_atomically_def fin_file_ok_def fin_write_new_def Let_def
        ensures_and_then ensures_map_err split: option.splits)
qed

lemma journal_path_shape:
  assumes "journal_path d m = Inr p"
  shows "fin_file_ok p" and "fin_tmp pid d p \<noteq> p"
proof -
  from assms obtain h where p: "p = path_join d (h @ ''.json'')" and h: "length h = 64" "list_all is_ascii_hexdigit h"
    by (auto simp: journal_path_def split: option.splits if_splits)
  have stem: "file_stem p = Some h" using h(1) stem_of_append [of "''json''" h] by (force simp: p)
  have "c \<le> CHR 0x7F" if "c \<in> set h" for c
    using that h(2) by (auto simp: list_all_iff byte_class_defs)
  then show "fin_file_ok p" by (simp add: fin_file_ok_def stem utf8_valid_ascii)
  from h have "h \<noteq> [] \<and> hd h \<noteq> CHR ''.''" by (cases h) (auto simp: byte_class_defs)
  then show "fin_tmp pid d p \<noteq> p"
    unfolding fin_tmp_def stem unfolding p by (cases h) (auto simp: fin_temporary_name_def)
qed



section \<open>The stage machine\<close>

fun fin_rank :: "finalization_journal_stage \<Rightarrow> nat" where
  "fin_rank FinIntent = 0"
| "fin_rank SignedFinalization = 1"
| "fin_rank ArchiveRequested = 2"
| "fin_rank SidecarIssued = 3"
| "fin_rank ProtectedHistoryAttached = 4"
| "fin_rank SidecarAcknowledged = 5"
| "fin_rank TerminalIssued = 6"

definition fin_identified :: "'x fin_env_scheme \<Rightarrow> finalization_journal \<Rightarrow> finalization_journal \<Rightarrow> bool" where
  "fin_identified E j j' \<longleftrightarrow> (\<exists>i. finalization_journal_identity E j = Inr i \<and> j' = j\<lparr>fj_identity := i\<rparr>)"

inductive fin_step :: "'x fin_env_scheme \<Rightarrow> finalization_journal \<Rightarrow> finalization_journal \<Rightarrow> bool"
  for E where
  sign: "fj_stage j = FinIntent \<Longrightarrow>
    fin_identified E (j\<lparr>fj_stage := SignedFinalization, fj_signed_finalization := Some s\<rparr>) j' \<Longrightarrow> fin_step E j j'"
| request: "fj_stage j = SignedFinalization \<Longrightarrow>
    fin_identified E (j\<lparr>fj_stage := ArchiveRequested, fj_archive_request := Some rq\<rparr>) j' \<Longrightarrow> fin_step E j j'"
| sidecar: "fj_stage j = ArchiveRequested \<Longrightarrow>
    fin_identified E (j\<lparr>fj_stage := SidecarIssued, fj_sidecar := Some sc\<rparr>) j' \<Longrightarrow> fin_step E j j'"
| attach: "fj_stage j = SidecarIssued \<Longrightarrow> pa_finalization_journal_identity a = fj_identity j \<Longrightarrow>
    fin_identified E (j\<lparr>fj_stage := ProtectedHistoryAttached, fj_protected_history_attachment := Some a\<rparr>) j' \<Longrightarrow>
    fin_step E j j'"
| attach_late: "fj_stage j \<in> {SidecarAcknowledged, TerminalIssued} \<Longrightarrow> fj_protected_history_attachment j = None \<Longrightarrow>
    fin_identified E (j\<lparr>fj_protected_history_attachment := Some a\<rparr>) j' \<Longrightarrow> fin_step E j j'"
| acknowledge: "fj_stage j = ProtectedHistoryAttached \<Longrightarrow>
    fin_identified E (j\<lparr>fj_stage := SidecarAcknowledged, fj_sidecar_persistence := Some p\<rparr>) j' \<Longrightarrow> fin_step E j j'"
| terminal: "fj_stage j = SidecarAcknowledged \<Longrightarrow>
    fin_identified E (j\<lparr>fj_stage := TerminalIssued, fj_terminal := Some t\<rparr>) j' \<Longrightarrow> fin_step E j j'"

inductive_cases fin_stepE: "fin_step E j j'"

text \<open>
  The attachment to protected history names the journal as it stood when the sidecar had been
  issued; \<open>at_sidecar\<close> recovers that journal from any later one.
\<close>

definition at_sidecar :: "finalization_journal \<Rightarrow> finalization_journal" where
  "at_sidecar j = j\<lparr>fj_stage := SidecarIssued, fj_protected_history_attachment := None,
     fj_sidecar_persistence := None, fj_terminal := None\<rparr>"

definition attachment_bound :: "'x fin_env_scheme \<Rightarrow> finalization_journal \<Rightarrow> bool" where
  "attachment_bound E j \<longleftrightarrow> is_some_and (\<lambda>a.
     finalization_journal_identity E (at_sidecar j) = Inr (pa_finalization_journal_identity a))
     (fj_protected_history_attachment j)"

definition fin_wf :: "'x fin_env_scheme \<Rightarrow> finalization_journal \<Rightarrow> bool" where
  "fin_wf E j \<longleftrightarrow> finalization_journal_identity E j = Inr (fj_identity j) \<and>
     (4 \<le> fin_rank (fj_stage j) \<longrightarrow> attachment_bound E j)"

lemma fin_valid_blank [simp]:
  "signed_valid E (j\<lparr>fj_identity := i\<rparr>) = signed_valid E j"
  "request_valid E (j\<lparr>fj_identity := i\<rparr>) = request_valid E j"
  "sidecar_valid E (j\<lparr>fj_identity := i\<rparr>) = sidecar_valid E j"
  "sidecar_persistence_valid E (j\<lparr>fj_identity := i\<rparr>) = sidecar_persistence_valid E j"
  "protected_history_valid (j\<lparr>fj_identity := i\<rparr>) = protected_history_valid j"
  "terminal_valid E (j\<lparr>fj_identity := i\<rparr>) = terminal_valid E j"
  by (simp_all add: signed_valid_def request_valid_def sidecar_valid_def sidecar_persistence_valid_def
      protected_history_valid_def terminal_valid_def)

lemma stage_is_valid_blank [simp]: "stage_is_valid E (j\<lparr>fj_identity := i\<rparr>) = stage_is_valid E j"
  by (cases "fj_stage j") (simp_all add: stage_is_valid_def)

lemma finalization_journal_identity_blank [simp]:
  "finalization_journal_identity E (j\<lparr>fj_identity := i\<rparr>) = finalization_journal_identity E j"
  by (simp add: finalization_journal_identity_def)

lemma at_sidecar_blank: "at_sidecar (j\<lparr>fj_identity := i\<rparr>) = (at_sidecar j)\<lparr>fj_identity := i\<rparr>"
  by (simp add: at_sidecar_def)

lemma at_sidecar_later:
  "at_sidecar (j\<lparr>fj_stage := s, fj_sidecar_persistence := p\<rparr>) = at_sidecar j"
  "at_sidecar (j\<lparr>fj_stage := s, fj_terminal := t\<rparr>) = at_sidecar j"
  by (simp_all add: at_sidecar_def)

lemma fin_identity_valid: "finalization_journal_identity E j = Inr i \<Longrightarrow> stage_is_valid E j"
  by (auto simp: finalization_journal_identity_def split: if_splits)

lemma at_sidecar_id:
  assumes "stage_is_valid E j" and "fj_stage j = SidecarIssued"
  shows "at_sidecar (j\<lparr>fj_stage := s, fj_protected_history_attachment := a\<rparr>) = j"
  using assms by (cases j) (simp add: stage_is_valid_def at_sidecar_def)

lemma fin_step_wf:
  assumes "fin_wf E j" and "fin_step E j j'"
  shows "fin_wf E j'"
  using assms(2)
proof cases
  case (attach a)
  from assms(1) attach(1) have "at_sidecar (j\<lparr>fj_stage := ProtectedHistoryAttached, fj_protected_history_attachment := Some a\<rparr>) = j"
    by (intro at_sidecar_id [of E]) (auto simp: fin_wf_def intro: fin_identity_valid)
  with attach assms(1) show ?thesis
    by (auto simp: fin_wf_def fin_identified_def attachment_bound_def at_sidecar_blank)
qed (use assms(1) in \<open>auto simp: fin_wf_def fin_identified_def attachment_bound_def
       at_sidecar_blank at_sidecar_later\<close>)

lemma fin_step_rank:
  "fin_step E j j' \<Longrightarrow>
   fin_rank (fj_stage j) \<le> fin_rank (fj_stage j') \<and> fin_rank (fj_stage j') \<le> Suc (fin_rank (fj_stage j))"
  by (erule fin_stepE) (auto simp: fin_identified_def)

definition fin_key :: "finalization_journal \<Rightarrow> string \<times> string \<times> string \<times> working_directory \<times> finalization" where
  "fin_key j = (fj_invocation_id j, fj_principal_mapping_identity j, fj_launcher_request_identity j,
     fj_working_directory j, fj_finalization j)"

lemma fin_step_key: "fin_step E j j' \<Longrightarrow> fin_key j' = fin_key j"
  by (erule fin_stepE) (auto simp: fin_identified_def fin_key_def)

interpretation fin_machine: staged_journal "fin_step E" "\<lambda>j. fin_rank (fj_stage j)" fin_key "fin_wf E"
  for E
proof (unfold_locales, goal_cases)
  case (1 j j')
  from fin_step_rank [OF 1(2)] show ?case .
next
  case (2 j j')
  then show ?case by (rule fin_step_key)
next
  case (3 j j')
  then show ?case by (rule fin_step_wf)
qed

lemma persist_cases:
  assumes "persist E pid j h w = (r, h', w')"
  obtains (invalid) "r = Err FinInvalidJournal" "h' = h\<lparr>fh_journal := j\<rparr>" "w' = w"
  | (stored) j' where "fin_identified E j j'" "h' = h\<lparr>fh_journal := j'\<rparr>"
      "fin_replace_atomically E pid (fh_directory h) (fh_path h) j' w = (r, w')"
  using assms
  by (auto simp: persist_def fin_identified_def finalization_journal_identity_def Let_def
      split: sum.splits prod.splits if_splits option.splits)

lemma call_fin_cases:
  assumes "call_fin E pid c h w = (r, h', w')"
  obtains (refused) "r = Err FinInvalidJournal" "w' = w"
  | (step) j' where "fin_step E (fh_journal h) j'" "h' = h\<lparr>fh_journal := j'\<rparr>"
      "fin_replace_atomically E pid (fh_directory h) (fh_path h) j' w = (r, w')"
proof -
  have stored: thesis if "persist E pid j h w = (r, h', w')"
    and "\<And>j'. fin_identified E j j' \<Longrightarrow> fin_step E (fh_journal h) j'" for j
    using that(1) by (cases rule: persist_cases) (use that(2) refused step in auto)
  show thesis
  proof (cases c)
    case (RecordSigned x)
    with assms show ?thesis
      by (auto simp: record_signed_finalization_def Let_def split: if_splits intro: refused stored fin_step.sign)
  next
    case (RecordRequest x)
    with assms show ?thesis
      by (auto simp: record_archive_request_def Let_def split: if_splits option.splits
          intro: refused stored fin_step.request)
  next
    case (RecordSidecar x)
    with assms show ?thesis
      by (auto simp: record_sidecar_def Let_def split: if_splits option.splits
          intro: refused stored fin_step.sidecar)
  next
    case (RecordAttachment x)
    with assms show ?thesis
      by (auto simp: record_protected_history_attachment_def Let_def split: if_splits
          intro: refused stored fin_step.attach fin_step.attach_late)
  next
    case (RecordPersistence x)
    with assms show ?thesis
      by (auto simp: record_sidecar_persistence_def Let_def split: if_splits
          intro: refused stored fin_step.acknowledge)
  next
    case (RecordTerminal x)
    with assms show ?thesis
      by (auto simp: record_terminal_def Let_def split: if_splits intro: refused stored fin_step.terminal)
  qed
qed



section \<open>Memory and disk\<close>

definition fin_at :: "'x fin_env_scheme \<Rightarrow> finalization_journal \<Rightarrow> world \<Rightarrow> path \<Rightarrow> bool" where
  "fin_at E j w p \<longleftrightarrow>
     (\<exists>n b. node_at w p = Some n \<and> n_kind n = RegularFile \<and> n_uid n = w_euid w \<and> n_mode n = 384 \<and>
        fin_to_vec E j = Some b \<and> n_bytes n = b)"

definition live_fin :: "'x fin_env_scheme \<Rightarrow> fin_handle \<Rightarrow> world \<Rightarrow> bool" where
  "live_fin E h w \<longleftrightarrow>
     fin_wf E (fh_journal h) \<and>
     journal_path (fh_directory h) (fj_principal_mapping_identity (fh_journal h)) = Inr (fh_path h) \<and>
     fin_at E (fh_journal h) w (fh_path h)"

text \<open>What the code relies on of \<open>serde_jcs\<close> and \<open>serde_json\<close> at one journal.\<close>

definition fin_codec_at :: "'x fin_env_scheme \<Rightarrow> finalization_journal \<Rightarrow> bool" where
  "fin_codec_at E j \<longleftrightarrow>
     (\<exists>b. fin_to_vec E j = Some b \<and> length b \<le> MAX_JOURNAL_BYTES \<and> fin_from_slice E b = Some j)"

definition fin_store_ok :: "path \<Rightarrow> nat \<Rightarrow> world \<Rightarrow> bool" where
  "fin_store_ok d uid w \<longleftrightarrow> w_euid w = uid \<and>
     is_some_and (\<lambda>n. n_kind n = Directory \<and> n_uid n = uid \<and> n_mode n AND 18 = 0) (node_at w d)"

lemma fin_at_same: "same_except S w w' \<Longrightarrow> p \<notin> S \<Longrightarrow> fin_at E j w' p = fin_at E j w p"
  by (simp add: fin_at_def same_except_def)

lemma fin_store_ok_same:
  "fin_store_ok d uid w \<Longrightarrow> same_except S w w' \<Longrightarrow> d \<notin> S \<Longrightarrow> fin_store_ok d uid w'"
  by (simp add: fin_store_ok_def same_except_def)

lemma load_for_principal_at:
  assumes "fin_store_ok d uid w" and "journal_path d mapping = Inr p" and "fin_at E j w p"
    and "fin_codec_at E j" and "finalization_journal_identity E j = Inr (fj_identity j)"
    and "fj_principal_mapping_identity j = mapping"
  shows "load_for_principal E d uid mapping (no_faults w) =
    (Ok (Some \<lparr>fh_directory = d, fh_path = p, fh_journal = j\<rparr>), no_faults w)"
  using assms
  by (auto simp: load_for_principal_def fin_verify_store_def fin_verify_file_def path_exists_def and_then_def
      map_err_def symlink_metadata_def open_nofollow_def read_to_end_def faulty_no_faults fin_store_ok_def
      is_some_and_iff fin_at_def fin_codec_at_def)

lemma load_for_principal_absent:
  assumes "fin_store_ok d uid w" and "journal_path d mapping = Inr p" and "node_at w p = None"
  shows "load_for_principal E d uid mapping (no_faults w) = (Ok None, no_faults w)"
  using assms
  by (auto simp: load_for_principal_def fin_verify_store_def path_exists_def and_then_def
      map_err_def symlink_metadata_def faulty_no_faults fin_store_ok_def is_some_and_iff)

lemma fin_replace_ok_live:
  assumes "fin_replace_atomically E pid d p j w = (Ok (), w')"
    and "journal_path d (fj_principal_mapping_identity j) = Inr p" and "fin_wf E j"
  shows "live_fin E \<lparr>fh_directory = d, fh_path = p, fh_journal = j\<rparr> w'"
proof -
  note shape = journal_path_shape [OF assms(2)]
  obtain b where "fin_to_vec E j = Some b" "node_at w' p = Some (file_node w 384 b)"
    using fin_file.ok_installed [of pid "(d, p, j)" E w w'] shape(2) [of pid] shape(1) assms(1)
    by auto
  moreover have "w_euid w' = w_euid w"
    using fin_file.others_untouched [of pid "(d, p, j)" E w "Ok ()" w'] shape(2) [of pid] assms(1)
    by (simp add: same_except_def)
  ultimately show ?thesis using assms(2,3) by (simp add: live_fin_def fin_at_def)
qed

lemma call_fin_ok_live:
  assumes "call_fin E pid c h w = (Ok (), h', w')" and "live_fin E h w"
  shows "live_fin E h' w' \<and> fh_directory h' = fh_directory h \<and> fh_path h' = fh_path h \<and>
    fin_step E (fh_journal h) (fh_journal h')"
  using assms(1)
proof (cases rule: call_fin_cases)
  case (step j')
  from assms(2) have "journal_path (fh_directory h) (fj_principal_mapping_identity j') = Inr (fh_path h)"
    "fin_wf E j'"
    using fin_step_key [OF step(1)] fin_step_wf [OF _ step(1)] by (auto simp: live_fin_def fin_key_def)
  from fin_replace_ok_live [OF step(3) this] step(1,2) show ?thesis by (simp add: live_fin_def)
qed simp

lemma run_fin_ok_live:
  assumes "run_fin E pid cs h w = (Ok (), h', w')" and "live_fin E h w"
  shows "live_fin E h' w' \<and> fh_directory h' = fh_directory h \<and> fh_path h' = fh_path h \<and>
    (fin_step E)\<^sup>*\<^sup>* (fh_journal h) (fh_journal h')"
  using assms
proof (induction cs arbitrary: h w)
  case (Cons c cs)
  from Cons.prems(1) obtain h1 w1 where c: "call_fin E pid c h w = (Ok (), h1, w1)"
    and cs: "run_fin E pid cs h1 w1 = (Ok (), h', w')"
    by (auto split: prod.splits outcome.splits)
  from call_fin_ok_live [OF c Cons.prems(2)] Cons.IH [OF cs] show ?case
    by (auto intro: converse_rtranclp_into_rtranclp)
qed simp


lemma fin_verify_store_looks: "ensures (fin_verify_store d uid) w (\<lambda>r w'. same_except {} w w')"
  unfolding fin_verify_store_def ensures_and_then ensures_map_err
  by (rule ensures_mono [OF look_ensures(1)]) (auto split: outcome.splits)

lemma fin_write_new_ok_at:
  assumes "fin_write_new E p j w = (Ok (), w')"
  shows "fin_at E j w' p \<and> node_at w p = None \<and> same_except {p} w w'"
proof (cases "fin_to_vec E j")
  case None
  with assms show ?thesis by (simp add: fin_write_new_def)
next
  case (Some b)
  from ensuresD [OF fin_write_new_created [OF Some] assms]
  have "created p 384 b w True w'" by simp
  with Some show ?thesis by (simp add: created_def fin_at_def same_except_def)
qed

lemma fin_begin_ok_live:
  assumes "fin_begin E d uid mapping request wd fin w = (Ok h, w')"
  shows "live_fin E h w' \<and> fj_stage (fh_journal h) = FinIntent \<and>
    fin_key (fh_journal h) = (ec_invocation_id (ef_completion fin), mapping, request, wd, fin) \<and>
    fh_directory h = d \<and> node_at w (fh_path h) = None \<and> same_except {fh_path h} w w'"
proof -
  let ?j = "first_fin_journal mapping request wd fin"
  from assms obtain w1 p i w2 where vs: "fin_verify_store d uid w = (Ok (), w1)"
    and p: "journal_path d mapping = Inr p" and i: "finalization_journal_identity E ?j = Inr i"
    and wn: "fin_write_new E p (?j\<lparr>fj_identity := i\<rparr>) w1 = (Ok (), w2)"
    and sy: "fin_sync_directory d w2 = (Ok (), w')"
    and h: "h = \<lparr>fh_directory = d, fh_path = p, fh_journal = ?j\<lparr>fj_identity := i\<rparr>\<rparr>"
    by (auto simp: fin_begin_def and_then_Ok_iff lift_result_Ok_iff map_err_Ok_iff Let_def)
  from ensuresD [OF fin_verify_store_looks vs] have a: "same_except {} w w1" .
  from ensuresD [OF fin_sync_directory_ensures sy] have c: "same_except {} w2 w'" .
  note b = fin_write_new_ok_at [OF wn]
  have "fin_at E (?j\<lparr>fj_identity := i\<rparr>) w' p" using b by (simp add: fin_at_same [OF c])
  moreover have "fin_wf E (?j\<lparr>fj_identity := i\<rparr>)"
    using i by (simp add: fin_wf_def) (simp add: first_fin_journal_def)
  moreover have "fin_key (?j\<lparr>fj_identity := i\<rparr>) = (ec_invocation_id (ef_completion fin), mapping, request, wd, fin)"
    "fj_stage ?j = FinIntent" "fj_principal_mapping_identity ?j = mapping"
    by (simp_all add: fin_key_def first_fin_journal_def)
  moreover have "same_except {p} w w'" "node_at w p = None"
    using a b c by (auto simp: same_except_def)
  ultimately show ?thesis using h p by (simp add: live_fin_def)
qed

lemma remove_then_sync:
  "ensures (and_then (map_err f (remove_file p)) (\<lambda>_. fin_sync_directory d)) w
     (\<lambda>r w'. same_except {p} w w' \<and> (is_Ok r \<longrightarrow> node_at w' p = None))"
proof (rule ensures_and_thenI [where P = "\<lambda>r w'. same_except {p} w w' \<and> (is_Ok r \<longrightarrow> node_at w' p = None)"])
  show "ensures (map_err f (remove_file p)) w (\<lambda>r w'. same_except {p} w w' \<and> (is_Ok r \<longrightarrow> node_at w' p = None))"
    unfolding ensures_map_err
    by (rule ensures_mono [OF remove_ensures]) (auto simp: same_except_def split: outcome.splits if_splits)
next
  fix a :: unit and w1
  assume "same_except {p} w w1 \<and> (is_Ok (Ok a :: (_, unit) outcome) \<longrightarrow> node_at w1 p = None)"
  then show "ensures (fin_sync_directory d) w1 (\<lambda>r w'. same_except {p} w w' \<and> (is_Ok r \<longrightarrow> node_at w' p = None))"
    by (intro ensures_mono [OF fin_sync_directory_ensures]) (auto simp: same_except_def)
qed simp_all

text \<open>A leftover temporary file of this process and principal makes every replacement fail.\<close>

lemma fin_replace_blocked:
  assumes "node_at w (fin_tmp pid d p) \<noteq> None"
  shows "ensures (fin_replace_atomically E pid d p j) w (\<lambda>r w'. \<not> is_Ok r \<and> same_except {} w w')"
proof -
  have create: "ensures (create_new (fin_tmp pid d p) 384) w (\<lambda>r w'. \<not> is_Ok r \<and> same_except {} w w')"
    by (rule ensures_mono [OF create_new_created])
       (use assms in \<open>auto simp: created_def same_except_def split: if_splits, metis+\<close>)
  have "ensures (fin_write_new E (fin_tmp pid d p) j) w (\<lambda>r w'. \<not> is_Ok r \<and> same_except {} w w')"
    by (cases "fin_to_vec E j")
       (auto simp: fin_write_new_def ensures_and_then split: outcome.splits intro!: ensures_mono [OF create])
  then show ?thesis
    by (cases "file_stem p")
       (auto simp: fin_replace_atomically_def fin_tmp_def Let_def ensures_and_then ensures_map_err
         split: outcome.splits elim!: ensures_mono)
qed

end
