(* ===== verification/Finalization_Store.thy ===== *)
theory Finalization_Store
  imports Finalization_Journal
begin

text \<open>
  What the finalization store promises across faults and restarts, with a concrete finalization as
  the input of the witnesses.
\<close>


section \<open>A concrete finalization\<close>

definition sample_finalization :: finalization where
  "sample_finalization = \<lparr>ef_schema_version = 1, ef_identity = ''ef'', ef_completion = sample_completion,
     ef_child_identity = digest CHR ''c'', ef_scope_identity = digest CHR ''e'', ef_child_exit_posture = None,
     ef_observed_exit_code = Some 0, ef_child_reaped = True, ef_child_absent = None, ef_scope_removed = True,
     ef_cgroup_empty_or_absent = True, ef_active_slot_removed = True\<rparr>"

definition sample_signed :: signed_finalization where
  "sample_signed = \<lparr>sf_identity = ''sf'', sf_finalization = sample_finalization, sf_rest = []\<rparr>"

definition sample_request :: archive_request where
  "sample_request = \<lparr>ar_schema_version = 1, ar_message_kind = ''k'', ar_request_identity = ''ar'',
     ar_authority_id = ''a'', ar_launcher_request_identity = digest CHR ''b'',
     ar_receipt_archive_identity = ''ra'', ar_crossing_transaction_identity = ''xf'',
     ar_signed_finalization_identity = Some ''sf''\<rparr>"

definition sample_sidecar :: sidecar where
  "sample_sidecar = \<lparr>sd_schema_version = 1, sd_identity = ''sd'', sd_signed_finalization = sample_signed,
     sd_signed_archive = \<lparr>sa_identity = ''sa'', sa_receipt_archive_identity = ''ra'', sa_crossing_transaction_identity = ''xf'',
       sa_rest = []\<rparr>\<rparr>"

definition sample_attachment :: protected_history_attachment where
  "sample_attachment = \<lparr>pa_schema_version = 1, pa_catalog_identity = digest CHR ''1'',
     pa_repository_binding_identity = digest CHR ''2'', pa_catalog_namespace_identity = digest CHR ''3'',
     pa_archive_blob_identity = digest CHR ''4'', pa_contract_snapshot_blob_identity = digest CHR ''5'',
     pa_sidecar_blob_identity = digest CHR ''6'', pa_finalization_journal_identity = digest CHR ''f''\<rparr>"

definition sample_persistence :: archive_persistence where
  "sample_persistence = \<lparr>ap_schema_version = 1, ap_message_kind = ''k'', ap_identity = ''ap'',
     ap_request_identity = ''ar'', ap_sidecar_identity = ''sd''\<rparr>"

definition sample_terminal :: terminal_frame where
  "sample_terminal = \<lparr>tf_message_kind = ''tf'', tf_protocol_version = ''v1'', tf_invocation_id = ''invocation-1'',
     tf_outcome = TerminalCompleted, tf_exit_code = Some 0,
     tf_stage = Some SelectedExecutionCompletedBoundaryRemoved,
     tf_finalization = Some sample_finalization\<rparr>"

definition sample_terminal_persistence :: terminal_persistence where
  "sample_terminal_persistence = \<lparr>tp_schema_version = 1, tp_message_kind = ''k'', tp_identity = ''tp'',
     tp_invocation_id = ''invocation-1'', tp_terminal_identity = ''tf''\<rparr>"

definition sample_fin_journal :: "finalization_journal_stage \<Rightarrow> finalization_journal" where
  "sample_fin_journal st =
     (let r = fin_rank st in
      (first_fin_journal (digest CHR ''a'') (digest CHR ''b'') sample_wd sample_finalization)
        \<lparr>fj_identity := digest CHR ''f'', fj_stage := st,
         fj_signed_finalization := (if 1 \<le> r then Some sample_signed else None),
         fj_archive_request := (if 2 \<le> r then Some sample_request else None),
         fj_sidecar := (if 3 \<le> r then Some sample_sidecar else None),
         fj_protected_history_attachment := (if 4 \<le> r then Some sample_attachment else None),
         fj_sidecar_persistence := (if 5 \<le> r then Some sample_persistence else None),
         fj_terminal := (if 6 \<le> r then Some sample_terminal else None)\<rparr>)"

definition sample_fin_calls :: "fin_call list" where
  "sample_fin_calls = [RecordSigned sample_signed, RecordRequest sample_request, RecordSidecar sample_sidecar,
     RecordAttachment sample_attachment, RecordPersistence sample_persistence, RecordTerminal sample_terminal]"

definition all_fin_stages :: "finalization_journal_stage list" where
  "all_fin_stages = [FinIntent, SignedFinalization, ArchiveRequested, SidecarIssued,
     ProtectedHistoryAttached, SidecarAcknowledged, TerminalIssued]"

definition sample_fin_encode :: "finalization_journal \<Rightarrow> string" where
  "sample_fin_encode j = ''{'' @ decimal (fin_rank (fj_stage j)) @ ''}''"

definition sample_fin_decode :: "string \<Rightarrow> finalization_journal option" where
  "sample_fin_decode bs = List.find (\<lambda>j. bs = sample_fin_encode j) (map sample_fin_journal all_fin_stages)"

definition sample_fin_env :: fin_env where
  "sample_fin_env = slot_env.extend sample_env
     (fin_env.fields (\<lambda>_ _. Some (digest CHR ''f'')) (Some \<circ> sample_fin_encode) sample_fin_decode)"

definition sample_fin_store :: path where
  "sample_fin_store = [RootDir, Normal ''final'']"

definition sample_fin_path :: path where
  "sample_fin_path = path_join sample_fin_store (replicate 64 CHR ''a'' @ ''.json'')"

definition sample_fin_world :: "fault list \<Rightarrow> world" where
  "sample_fin_world fs = \<lparr>w_files = [(sample_fin_store, sample_dir_node)], w_euid = 0, w_faults = fs\<rparr>"

definition sample_fin_handle :: "finalization_journal_stage \<Rightarrow> fin_handle" where
  "sample_fin_handle st = \<lparr>fh_directory = sample_fin_store, fh_path = sample_fin_path,
     fh_journal = sample_fin_journal st\<rparr>"

definition sample_fin_node :: "finalization_journal_stage \<Rightarrow> fnode" where
  "sample_fin_node st = \<lparr>n_kind = RegularFile, n_uid = 0, n_gid = 0, n_mode = 384, n_ino = (0, 3),
     n_bytes = sample_fin_encode (sample_fin_journal st)\<rparr>"

definition sample_fin_world_at :: "finalization_journal_stage \<Rightarrow> fault list \<Rightarrow> world" where
  "sample_fin_world_at st fs = \<lparr>w_files = [(sample_fin_store, sample_dir_node), (sample_fin_path, sample_fin_node st)],
     w_euid = 0, w_faults = fs\<rparr>"

lemma fj_stage_sample [simp]: "fj_stage (sample_fin_journal st) = st"
  by (simp add: sample_fin_journal_def Let_def first_fin_journal_def)

lemma sample_fin_codec: "fin_codec_at sample_fin_env (sample_fin_journal st)"
proof -
  have env: "fin_to_vec sample_fin_env = Some \<circ> sample_fin_encode" "fin_from_slice sample_fin_env = sample_fin_decode"
    by (simp_all add: sample_fin_env_def slot_env.defs fin_env.defs)
  have "sample_fin_decode (sample_fin_encode (sample_fin_journal st)) = Some (sample_fin_journal st) \<and>
    length (sample_fin_encode (sample_fin_journal st)) = 3"
    by (cases st)
       (simp_all add: sample_fin_decode_def all_fin_stages_def sample_fin_encode_def decimal.simps digit_char_def)
  then show ?thesis by (simp add: fin_codec_at_def env MAX_JOURNAL_BYTES_def)
qed

lemma sample_fin_wf: "fin_wf sample_fin_env (sample_fin_journal st)"
  by (cases st; hypsubst; code_simp)

lemma sample_fin_live: "live_fin sample_fin_env (sample_fin_handle st) (sample_fin_world_at st fs)"
proof -
  have "journal_path sample_fin_store (digest CHR ''a'') = Inr sample_fin_path" by code_simp
  then show ?thesis
    using sample_fin_wf [of st]
    by (simp add: live_fin_def sample_fin_handle_def fin_at_def sample_fin_world_at_def sample_fin_node_def
        sample_fin_path_def sample_fin_store_def path_join_def sample_fin_env_def slot_env.defs fin_env.defs)
       (simp add: sample_fin_journal_def Let_def first_fin_journal_def)
qed

lemma sample_fin_store_ok: "fin_store_ok sample_fin_store 0 (sample_fin_world_at st fs)"
  by (simp add: fin_store_ok_def sample_fin_world_at_def sample_dir_node_def)



section \<open>Properties of the finalization store\<close>

text \<open>
  C5. Finalization evidence. Whatever operations succeed after a finalization is retained, under any
  schedule of faults, the journal on disk is the one in memory, keeps its invocation, principal,
  request, working directory and finalization, every message it holds is valid for its stage and
  bound to the messages before it, and from the attachment on the protected-history attachment
  names the identity of this very journal at the moment its sidecar had been issued. A restart
  finds exactly this journal.
\<close>

theorem fin_evidence_chain:
  assumes "fin_begin E d uid mapping request wd fin w = (Ok h0, w0)"
    and "run_fin E pid cs h0 w0 = (Ok (), h, w1)" and "fin_codec_at E (fh_journal h)" and "fin_store_ok d uid w1"
  shows "stage_is_valid E (fh_journal h) \<and>
    (4 \<le> fin_rank (fj_stage (fh_journal h)) \<longrightarrow> attachment_bound E (fh_journal h)) \<and>
    fin_key (fh_journal h) = (ec_invocation_id (ef_completion fin), mapping, request, wd, fin) \<and>
    load_for_principal E d uid mapping (no_faults w1) = (Ok (Some h), no_faults w1)"
proof -
  note b = fin_begin_ok_live [OF assms(1)]
  from b have live: "live_fin E h0 w0" by simp
  note r = run_fin_ok_live [OF assms(2) live]
  have key: "fin_key (fh_journal h) = (ec_invocation_id (ef_completion fin), mapping, request, wd, fin)"
    using fin_machine.run_key [of E "fh_journal h0" "fh_journal h"] b r by simp
  have "load_for_principal E d uid mapping (no_faults w1) =
      (Ok (Some \<lparr>fh_directory = d, fh_path = fh_path h, fh_journal = fh_journal h\<rparr>), no_faults w1)"
    using b r key by (intro load_for_principal_at [OF assms(4) _ _ assms(3)])
      (auto simp: live_fin_def fin_wf_def fin_key_def)
  moreover have "h = \<lparr>fh_directory = d, fh_path = fh_path h, fh_journal = fh_journal h\<rparr>"
    using b r by (cases h) auto
  ultimately show ?thesis
    using r key by (auto simp: live_fin_def fin_wf_def intro: fin_identity_valid)
qed

lemma sample_fin_run:
  "fin_begin sample_fin_env sample_fin_store 0 (digest CHR ''a'') (digest CHR ''b'') sample_wd sample_finalization
     (sample_fin_world []) = (Ok (sample_fin_handle FinIntent), snd (fin_begin sample_fin_env sample_fin_store 0
       (digest CHR ''a'') (digest CHR ''b'') sample_wd sample_finalization (sample_fin_world [])))"
  "run_fin sample_fin_env 77 sample_fin_calls (sample_fin_handle FinIntent)
     (snd (fin_begin sample_fin_env sample_fin_store 0
       (digest CHR ''a'') (digest CHR ''b'') sample_wd sample_finalization (sample_fin_world []))) =
     (Ok (), sample_fin_handle TerminalIssued, sample_fin_world_at TerminalIssued [])"
  by code_simp+

theorem fin_evidence_chain_witness:
  "attachment_bound sample_fin_env (sample_fin_journal TerminalIssued) \<and>
   load_for_principal sample_fin_env sample_fin_store 0 (digest CHR ''a'')
     (no_faults (sample_fin_world_at TerminalIssued [])) =
     (Ok (Some (sample_fin_handle TerminalIssued)), no_faults (sample_fin_world_at TerminalIssued []))"
  using fin_evidence_chain [OF sample_fin_run _ sample_fin_store_ok] sample_fin_codec [of TerminalIssued]
  by (simp add: sample_fin_handle_def)

text \<open>
  C6. Interruption. An operation on a retained finalization runs under any schedule of I/O faults and
  with a crash at any system call. A restart then finds a journal: the old one, or the one the
  operation was recording; the latter, if the operation had returned \<open>Ok\<close>.
\<close>

theorem fin_interruption:
  assumes "live_fin E h w" and "fin_store_ok (fh_directory h) uid w" and "fin_codec_at E (fh_journal h)"
    and "call_fin E pid c h w = (r, h', w')" and "fin_codec_at E (fh_journal h')"
  shows "\<exists>k. load_for_principal E (fh_directory h) uid (fj_principal_mapping_identity (fh_journal h)) (no_faults w')
       = (Ok (Some k), no_faults w') \<and>
     (k = h \<or> k = h' \<and> fin_step E (fh_journal h) (fh_journal h')) \<and> (is_Ok r \<longrightarrow> k = h')"
proof -
  let ?d = "fh_directory h" and ?p = "fh_path h" and ?m = "fj_principal_mapping_identity (fh_journal h)"
  from assms(1) have path: "journal_path ?d ?m = Inr ?p" and wf: "fin_wf E (fh_journal h)"
    and at: "fin_at E (fh_journal h) w ?p" by (auto simp: live_fin_def)
  have old: "load_for_principal E ?d uid ?m (no_faults w') = (Ok (Some h), no_faults w')"
    if "fin_store_ok ?d uid w'" "fin_at E (fh_journal h) w' ?p"
    using load_for_principal_at [OF that(1) path that(2) assms(3)] wf by (simp add: fin_wf_def)
  show ?thesis
    using assms(4)
  proof (cases rule: call_fin_cases)
    case refused
    with old [simplified refused] assms(2) at show ?thesis by auto
  next
    case (step j')
    note shape = journal_path_shape [OF path]
    from assms(5) step(2) obtain b where b: "fin_to_vec E j' = Some b" by (auto simp: fin_codec_at_def)
    have rep: "replaced (fin_tmp pid ?d ?p) ?p 384 b w (is_Ok r) w'"
      using ensuresD [OF fin_file.contract [of pid "(?d, ?p, j')" E b w]] shape(1) shape(2) [of pid] b step(3)
      by simp
    then have same: "same_except {fin_tmp pid ?d ?p, ?p} w w'" by (simp add: replaced_def)
    have "?d \<noteq> ?p" using path by (auto simp: journal_path_def split: option.splits if_splits)
    then have store: "fin_store_ok ?d uid w'"
      by (intro fin_store_ok_same [OF assms(2) same]) (simp add: fin_tmp_def)
    have key: "fj_principal_mapping_identity j' = ?m" using fin_step_key [OF step(1)] by (simp add: fin_key_def)
    have new: "load_for_principal E ?d uid ?m (no_faults w') = (Ok (Some h'), no_faults w')"
      if "node_at w' ?p = Some (file_node w 384 b)"
    proof -
      have "fin_at E j' w' ?p" using that same b by (simp add: fin_at_def same_except_def)
      from load_for_principal_at [OF store path this _ _ key] assms(5) step(2) fin_step_wf [OF wf step(1)]
      show ?thesis by (simp add: fin_wf_def)
    qed
    have "node_at w' ?p = Some (file_node w 384 b) \<or> \<not> is_Ok r \<and> node_at w' ?p = node_at w ?p"
      using rep by (auto simp: replaced_def)
    then show ?thesis
    proof
      assume "node_at w' ?p = Some (file_node w 384 b)"
      with new step(1,2) show ?thesis by auto
    next
      assume kept: "\<not> is_Ok r \<and> node_at w' ?p = node_at w ?p"
      then have "fin_at E (fh_journal h) w' ?p" using at same by (simp add: fin_at_def same_except_def)
      with kept old [OF store this] show ?thesis by blast
    qed
  qed
qed

theorem fin_interruption_witness:
  "\<exists>k. load_for_principal sample_fin_env sample_fin_store 0 (digest CHR ''a'')
     (no_faults (snd (snd (call_fin sample_fin_env 77 (RecordTerminal sample_terminal)
        (sample_fin_handle SidecarAcknowledged)
        (sample_fin_world_at SidecarAcknowledged [NoFault, CrashFault 1]))))) = k \<and> is_Ok (fst k)"
proof -
  let ?run = "call_fin sample_fin_env 77 (RecordTerminal sample_terminal) (sample_fin_handle SidecarAcknowledged)
    (sample_fin_world_at SidecarAcknowledged [NoFault, CrashFault 1])"
  have "fst (snd ?run) = sample_fin_handle TerminalIssued" by code_simp
  then have run: "?run = (fst ?run, sample_fin_handle TerminalIssued, snd (snd ?run))" by (metis prod.collapse)
  have "fin_store_ok (fh_directory (sample_fin_handle SidecarAcknowledged)) 0
      (sample_fin_world_at SidecarAcknowledged [NoFault, CrashFault 1])"
    by (simp add: sample_fin_handle_def sample_fin_store_ok)
  from fin_interruption [OF sample_fin_live this _ run] sample_fin_codec
  obtain k where "load_for_principal sample_fin_env (fh_directory (sample_fin_handle SidecarAcknowledged)) 0
      (fj_principal_mapping_identity (fh_journal (sample_fin_handle SidecarAcknowledged)))
      (no_faults (snd (snd ?run))) = (Ok (Some k), no_faults (snd (snd ?run)))"
    by (auto simp: sample_fin_handle_def)
  moreover have "fj_principal_mapping_identity (fh_journal (sample_fin_handle SidecarAcknowledged)) = digest CHR ''a''"
    "fh_directory (sample_fin_handle SidecarAcknowledged) = sample_fin_store" by code_simp+
  ultimately show ?thesis by simp
qed


text \<open>
  C7. Removal. The acknowledgement of a terminal frame touches no file but the one of the journal,
  and touches that one only when the journal has issued its terminal frame, is attached to
  protected history with the complete chain of evidence, and the acknowledgement is valid and
  names this invocation and the identity of exactly this terminal frame. When it returns \<open>Ok\<close>,
  a restart finds no retained finalization.
\<close>

theorem fin_removed_only_acknowledged:
  assumes "live_fin E h w" and "acknowledge_terminal_and_finalize E p h w = (r, w')"
    and "fin_store_ok (fh_directory h) uid w"
  shows "same_except {fh_path h} w w' \<and>
    (node_at w' (fh_path h) \<noteq> node_at w (fh_path h) \<longrightarrow>
       fj_stage (fh_journal h) = TerminalIssued \<and> stage_is_valid E (fh_journal h) \<and>
       protected_history_valid (fh_journal h) \<and> attachment_bound E (fh_journal h) \<and>
       launcher_terminal_persistence_v1_identity E p = Some (tp_identity p) \<and>
       tp_invocation_id p = fj_invocation_id (fh_journal h) \<and>
       is_some_and (\<lambda>t. launcher_terminal_frame_v1_identity E t = Some (tp_terminal_identity p))
         (fj_terminal (fh_journal h))) \<and>
    (is_Ok r \<longrightarrow> load_for_principal E (fh_directory h) uid (fj_principal_mapping_identity (fh_journal h))
       (no_faults w') = (Ok None, no_faults w'))"
proof -
  let ?j = "fh_journal h" and ?p = "fh_path h"
  define fit where "fit \<longleftrightarrow> fj_stage ?j = TerminalIssued \<and> fj_protected_history_attachment ?j \<noteq> None \<and>
    launcher_terminal_persistence_v1_identity E p = Some (tp_identity p) \<and> tp_invocation_id p = fj_invocation_id ?j \<and>
    is_some_and (\<lambda>t. launcher_terminal_frame_v1_identity E t = Some (tp_terminal_identity p)) (fj_terminal ?j)"
  have refused: "r = Err FinInvalidJournal \<and> w' = w" if "\<not> fit"
    using that assms(2)
    by (auto simp: fit_def acknowledge_terminal_and_finalize_def Let_def split: option.splits if_splits)
  have removed: "same_except {?p} w w' \<and> (is_Ok r \<longrightarrow> node_at w' ?p = None)" if "fit"
    using that assms(2) ensuresD [OF remove_then_sync [of "\<lambda>_. FinPersistenceFailed" ?p "fh_directory h" w]]
    by (auto simp: fit_def acknowledge_terminal_and_finalize_def Let_def split: option.splits if_splits)
  from assms(1) have path: "journal_path (fh_directory h) (fj_principal_mapping_identity ?j) = Inr ?p"
    and wf: "fin_wf E ?j" by (auto simp: live_fin_def)
  from path have "fh_directory h \<noteq> ?p" by (auto simp: journal_path_def split: option.splits if_splits)
  then have gone: "is_Ok r \<longrightarrow> load_for_principal E (fh_directory h) uid (fj_principal_mapping_identity ?j)
       (no_faults w') = (Ok None, no_faults w')"
    using removed refused fin_store_ok_same [OF assms(3), of "{?p}" w'] load_for_principal_absent [OF _ path]
    by (cases fit) auto
  have chain: "fit \<longrightarrow> stage_is_valid E ?j \<and> protected_history_valid ?j \<and> attachment_bound E ?j"
    using wf fin_identity_valid [of E ?j] by (auto simp: fit_def fin_wf_def stage_is_valid_def)
  show ?thesis
  proof (cases fit)
    case True
    from True [unfolded fit_def] removed [OF True] gone chain show ?thesis using True by simp
  next
    case False
    with refused [OF False] show ?thesis by simp
  qed
qed

theorem fin_removed_only_acknowledged_witness:
  "fst (load_for_principal sample_fin_env sample_fin_store 0 (digest CHR ''a'')
     (no_faults (snd (acknowledge_terminal_and_finalize sample_fin_env sample_terminal_persistence
        (sample_fin_handle TerminalIssued) (sample_fin_world_at TerminalIssued []))))) = Ok None"
proof -
  let ?run = "acknowledge_terminal_and_finalize sample_fin_env sample_terminal_persistence
    (sample_fin_handle TerminalIssued) (sample_fin_world_at TerminalIssued [])"
  have "is_Ok (fst ?run)" by code_simp
  have key: "fj_principal_mapping_identity (fh_journal (sample_fin_handle TerminalIssued)) = digest CHR ''a''"
    "fh_directory (sample_fin_handle TerminalIssued) = sample_fin_store" by code_simp+
  have "?run = (fst ?run, snd ?run)" by simp
  from fin_removed_only_acknowledged [OF sample_fin_live this, of 0] key sample_fin_store_ok \<open>is_Ok (fst ?run)\<close>
  show ?thesis by simp
qed

text \<open>
  C8. A temporary file left by a failed replacement is never removed: while it stands, every later
  operation on that principal's finalization by the same process fails, whatever it records, and
  changes no file, even when nothing else goes wrong.
\<close>

theorem fin_leftover_blocks:
  assumes "node_at w (fin_tmp pid (fh_directory h) (fh_path h)) \<noteq> None" and "call_fin E pid c h w = (r, h', w')"
  shows "\<not> is_Ok r \<and> same_except {} w w'"
  using assms(2)
proof (cases rule: call_fin_cases)
  case (step j')
  from ensuresD [OF fin_replace_blocked [OF assms(1)] step(3)] show ?thesis .
qed simp

theorem fin_leftover_blocks_witness:
  "let h = sample_fin_handle SidecarAcknowledged;
       (_, _, w1) = call_fin sample_fin_env 77 (RecordTerminal sample_terminal) h
         (sample_fin_world_at SidecarAcknowledged [NoFault, NoFault, NoFault, IoFault 0])
   in \<not> is_Ok (fst (call_fin sample_fin_env 77 (RecordTerminal sample_terminal) h w1)) \<and> w_faults w1 = []"
proof -
  let ?h = "sample_fin_handle SidecarAcknowledged" and ?c = "RecordTerminal sample_terminal"
  let ?w1 = "snd (snd (call_fin sample_fin_env 77 ?c ?h
      (sample_fin_world_at SidecarAcknowledged [NoFault, NoFault, NoFault, IoFault 0])))"
  have left: "node_at ?w1 (fin_tmp 77 (fh_directory ?h) (fh_path ?h)) \<noteq> None \<and> w_faults ?w1 = []" by code_simp
  have "call_fin sample_fin_env 77 ?c ?h ?w1 = (fst (call_fin sample_fin_env 77 ?c ?h ?w1),
      fst (snd (call_fin sample_fin_env 77 ?c ?h ?w1)), snd (snd (call_fin sample_fin_env 77 ?c ?h ?w1)))" by simp
  from fin_leftover_blocks [OF conjunct1 [OF left] this] left show ?thesis
    by (simp add: case_prod_beta)
qed

end
