(* ===== verification/Host_Process.thy ===== *)
theory Host_Process
  imports Protocol_Types Store_Fs
begin

text \<open>
  Processes of the host as \<open>src/prepared_child.rs\<close> sees them: \<open>process_start_identity\<close>,
  \<open>recorded_child_is_live_exact\<close> and \<open>terminate_recorded_child\<close>.

  The kernel and systemd are not code of the repository. Their answers are the fields of \<open>host\<close>,
  a parameter: each question is put at a moment of a discrete clock, so that an answer may
  change between two calls. What the launcher does to the host is a log of events.
\<close>


section \<open>The host\<close>

datatype 'a bus_reply = Reply 'a | MethodError string | BusError

text \<open>
  \<open>poll_interrupts\<close> is how often a \<open>poll\<close> begun at a moment is interrupted by a signal before it
  returns; \<open>proc_stat\<close> takes the \<open>pid_t\<close> of the path, \<open>proc_dir\<close> the unsigned pid.
\<close>

record host =
  proc_stat :: "nat \<Rightarrow> int \<Rightarrow> string option"
  proc_dir :: "nat \<Rightarrow> nat \<Rightarrow> bool"
  pidfd_open :: "nat \<Rightarrow> int \<Rightarrow> bool"
  pidfd_send_signal :: "nat \<Rightarrow> bool"
  poll_interrupts :: "nat \<Rightarrow> nat"
  poll_ready :: "nat \<Rightarrow> bool"
  sha256_identity :: "string \<Rightarrow> string"
  bus_proxy :: "nat \<Rightarrow> bool"
  bus_manager_pid :: "nat \<Rightarrow> nat option"
  bus_get_unit :: "nat \<Rightarrow> string \<Rightarrow> string bus_reply"
  bus_start_unit :: "nat \<Rightarrow> string \<Rightarrow> nat \<Rightarrow> unit bus_reply"
  bus_property :: "nat \<Rightarrow> string \<Rightarrow> string \<Rightarrow> string option"
  bus_delegate :: "nat \<Rightarrow> string \<Rightarrow> bool option"
  cgroup_exists :: "nat \<Rightarrow> path \<Rightarrow> bool"
  cgroup_read :: "nat \<Rightarrow> path \<Rightarrow> string option"

text \<open>
  \<open>Killed t p\<close>: a kill through the pidfd opened at moment \<open>t\<close> for \<open>p\<close>; \<open>StoppedUnit u\<close>: a
  \<open>KillUnit\<close> and \<open>StopUnit\<close> of \<open>u\<close>; \<open>StartedUnit u p\<close>: a transient unit requested for process \<open>p\<close>.
\<close>

datatype host_event = Killed nat int | StoppedUnit string | StartedUnit string nat

record hstate =
  h_now :: nat
  h_log :: "host_event list"

type_synonym ('e, 'a) host_op = "(hstate, 'e, 'a) proc"

definition ask :: "(nat \<Rightarrow> 'a) \<Rightarrow> ('e, 'a) host_op" where
  "ask f s = (Ok (f (h_now s)), s\<lparr>h_now := Suc (h_now s)\<rparr>)"

definition emit :: "host_event \<Rightarrow> ('e, unit) host_op" where
  "emit e s = (Ok (), s\<lparr>h_log := h_log s @ [e]\<rparr>)"

lemma ask_run [simp]: "ask f s = (Ok (f (h_now s)), s\<lparr>h_now := Suc (h_now s)\<rparr>)"
  by (simp add: ask_def)

lemma emit_run [simp]: "emit e s = (Ok (), s\<lparr>h_log := h_log s @ [e]\<rparr>)"
  by (simp add: emit_def)


section \<open>Text of the process file system\<close>

text \<open>\<open>rfind\<close> and the text after it; \<open>split_whitespace\<close>; \<open>lines\<close>; \<open>parse::<u32>\<close>.\<close>

definition after_last :: "char \<Rightarrow> string \<Rightarrow> string option" where
  "after_last c s = (if c \<in> set s then Some (rev (takeWhile (\<lambda>x. x \<noteq> c) (rev s))) else None)"

definition is_space :: "char \<Rightarrow> bool" where
  "is_space c \<longleftrightarrow> c = CHR '' '' \<or> byte_in (CHR 0x09) (CHR 0x0D) c"

fun words_from :: "string \<Rightarrow> string \<Rightarrow> string list" where
  "words_from acc [] = (if acc = [] then [] else [rev acc])"
| "words_from acc (c # cs) =
     (if is_space c then (if acc = [] then words_from [] cs else rev acc # words_from [] cs)
      else words_from (c # acc) cs)"

definition split_whitespace :: "string \<Rightarrow> string list" where
  "split_whitespace s = words_from [] s"

definition list_nth :: "nat \<Rightarrow> 'a list \<Rightarrow> 'a option" where
  "list_nth n xs = (if n < length xs then Some (xs ! n) else None)"

definition drop_final_cr :: "string \<Rightarrow> string" where
  "drop_final_cr s = (case rev s of CHR 0x0D # r \<Rightarrow> rev r | _ \<Rightarrow> s)"

definition text_lines :: "string \<Rightarrow> string list" where
  "text_lines s =
     (let parts = split_on (CHR 0x0A) s in
      map drop_final_cr (butlast parts) @ (if last parts = [] then [] else [last parts]))"

definition digit_value :: "char \<Rightarrow> int" where
  "digit_value c = of_char c - 48"

definition digits_value :: "string \<Rightarrow> int" where
  "digits_value s = foldl (\<lambda>n c. 10 * n + digit_value c) 0 s"

definition parse_u32 :: "string \<Rightarrow> nat option" where
  "parse_u32 s =
     (let ds = (case s of CHR ''+'' # r \<Rightarrow> r | _ \<Rightarrow> s) in
      if ds \<noteq> [] \<and> list_all is_ascii_digit ds \<and> digits_value ds < 2 ^ 32
      then Some (nat (digits_value ds)) else None)"


section \<open>Identity of a process and its termination\<close>

datatype prepared_child_error =
    InvalidInputs | ForkFailed | StopFailed | ExitedBeforeStop | IdentityUnavailable | CleanupFailed
  | ResumeFailed | PostureUnavailable | PostureMismatch | AttestationBridgeUnavailable
  | AuthorizationAdmissionMismatch | AuthorizationDecisionBridgeUnavailable
  | ExecutionCompletionUnavailable | ExecutionCompletionIdentityMismatch
  | ExecutionCompletionPersistenceFailed | ExecutionCompletionExitMismatch
  | OutputBridgeUnavailable

text \<open>\<open>u32 as pid_t\<close>, and the decimal rendering of a \<open>pid_t\<close>.\<close>

definition as_pid_t :: "nat \<Rightarrow> int" where
  "as_pid_t p = sint (of_nat p :: 32 word)"

definition decimal_int :: "int \<Rightarrow> string" where
  "decimal_int i = (if i < 0 then ''-'' @ decimal (nat (- i)) else decimal (nat i))"

definition start_identity_of :: "host \<Rightarrow> int \<Rightarrow> string \<Rightarrow> string option" where
  "start_identity_of H p stat =
     Option.bind (after_last (CHR '')'') stat) (\<lambda>rest.
     Option.bind (list_nth 19 (split_whitespace rest)) (\<lambda>start_time.
       Some (sha256_identity H (''pid:'' @ decimal_int p @ '';start_time:'' @ start_time))))"

definition process_start_identity :: "host \<Rightarrow> int \<Rightarrow> (prepared_child_error, string) host_op" where
  "process_start_identity H p =
     and_then (ask (\<lambda>t. proc_stat H t p)) (\<lambda>stat.
       case Option.bind stat (start_identity_of H p) of
         None \<Rightarrow> throw IdentityUnavailable
       | Some i \<Rightarrow> ret i)"

text \<open>
  Both callers match on the same three arms: the recorded process, no process at all, or
  anything else.
\<close>

definition recorded_child_is_live_exact :: "host \<Rightarrow> child_process \<Rightarrow> (prepared_child_error, bool) host_op" where
  "recorded_child_is_live_exact H c s =
     (case process_start_identity H (as_pid_t (ch_pid c)) s of
        (Ok i, s') \<Rightarrow>
          if i = ch_process_start_time_identity c then (Ok True, s') else (Err IdentityUnavailable, s')
      | (Err _, s') \<Rightarrow>
          and_then (ask (\<lambda>t. proc_dir H t (ch_pid c))) (\<lambda>present.
            if present then throw IdentityUnavailable else ret False) s'
      | (Crashed, s') \<Rightarrow> (Crashed, s'))"

fun poll_until :: "host \<Rightarrow> nat \<Rightarrow> (prepared_child_error, unit) host_op" where
  "poll_until H 0 = and_then (ask (poll_ready H)) (\<lambda>ready.
     if ready then ret () else throw CleanupFailed)"
| "poll_until H (Suc n) = and_then (ask (\<lambda>_. ())) (\<lambda>_. poll_until H n)"

text \<open>The reaping loop after \<open>poll\<close> has no effect on the result.\<close>

definition terminate_recorded_child :: "host \<Rightarrow> child_process \<Rightarrow> (prepared_child_error, unit) host_op" where
  "terminate_recorded_child H c =
     and_then (recorded_child_is_live_exact H c) (\<lambda>live.
       if \<not> live then ret ()
       else
         let p = as_pid_t (ch_pid c) in
         and_then (ask (\<lambda>t. if pidfd_open H t p then Some t else None)) (\<lambda>descriptor.
           case descriptor of
             None \<Rightarrow> throw CleanupFailed
           | Some opened \<Rightarrow>
               and_then (ask (\<lambda>t. Option.bind (proc_stat H t p) (start_identity_of H p))) (\<lambda>again.
                 if again \<noteq> Some (ch_process_start_time_identity c) then throw IdentityUnavailable
                 else
                   and_then (ask (pidfd_send_signal H)) (\<lambda>sent.
                     if \<not> sent then throw CleanupFailed
                     else
                       and_then (emit (Killed opened p)) (\<lambda>_.
                       and_then (ask (poll_interrupts H)) (\<lambda>n. poll_until H n))))))"



section \<open>Only the recorded process is killed\<close>

definition start_identity_at :: "host \<Rightarrow> nat \<Rightarrow> int \<Rightarrow> string option" where
  "start_identity_at H t p = Option.bind (proc_stat H t p) (start_identity_of H p)"

lemma live_exact_run:
  assumes "recorded_child_is_live_exact H c s = (r, s')"
  shows "h_log s' = h_log s \<and> h_now s < h_now s' \<and>
    (r = Ok True \<longrightarrow> h_now s' = Suc (h_now s) \<and>
       start_identity_at H (h_now s) (as_pid_t (ch_pid c)) = Some (ch_process_start_time_identity c)) \<and>
    (r = Ok False \<longrightarrow> (\<exists>t. h_now s \<le> t \<and> t < h_now s' \<and> \<not> proc_dir H t (ch_pid c)))"
  using assms
  by (auto simp: recorded_child_is_live_exact_def process_start_identity_def and_then_def start_identity_at_def
      split: option.splits if_splits intro!: exI [of _ "Suc (h_now s)"])

lemma poll_until_log: "poll_until H n s = (r, s') \<Longrightarrow> h_log s' = h_log s \<and> h_now s < h_now s'"
proof (induction n arbitrary: s)
  case (Suc n)
  then have "poll_until H n (s\<lparr>h_now := Suc (h_now s)\<rparr>) = (r, s')" by (simp add: and_then_def)
  from Suc.IH [OF this] show ?case by simp
qed (auto simp: and_then_def split: if_splits)

lemma terminate_run:
  assumes "terminate_recorded_child H c s = (r, s')"
  shows "h_now s < h_now s' \<and>
    (h_log s' = h_log s \<or>
     h_log s' = h_log s @ [Killed (Suc (h_now s)) (as_pid_t (ch_pid c))] \<and>
     start_identity_at H (h_now s) (as_pid_t (ch_pid c)) = Some (ch_process_start_time_identity c) \<and>
     start_identity_at H (Suc (Suc (h_now s))) (as_pid_t (ch_pid c)) = Some (ch_process_start_time_identity c))"
proof -
  obtain l s1 where live: "recorded_child_is_live_exact H c s = (l, s1)" by fastforce
  note l = live_exact_run [OF live]
  show ?thesis
  proof (cases "l = Ok True")
    case True
    with l live assms show ?thesis
      by (auto simp: terminate_recorded_child_def and_then_def Let_def start_identity_at_def
          split: if_splits option.splits dest: poll_until_log)
  next
    case False
    with l live assms show ?thesis
      by (cases l) (auto simp: terminate_recorded_child_def and_then_def)
  qed
qed

text \<open>A successful termination: the process was absent, or it was killed and its end was polled.\<close>

definition child_ended :: "host \<Rightarrow> child_process \<Rightarrow> hstate \<Rightarrow> hstate \<Rightarrow> bool" where
  "child_ended H c s s' \<longleftrightarrow>
     (\<exists>t. h_now s \<le> t \<and> t < h_now s' \<and> \<not> proc_dir H t (ch_pid c)) \<or>
     (\<exists>k t. h_log s' = h_log s @ [Killed k (as_pid_t (ch_pid c))] \<and> h_now s \<le> t \<and> t < h_now s' \<and> poll_ready H t)"

lemma poll_until_ok: "poll_until H n s = (Ok (), s') \<Longrightarrow> \<exists>t. h_now s \<le> t \<and> t < h_now s' \<and> poll_ready H t"
proof (induction n arbitrary: s)
  case (Suc n)
  then have "poll_until H n (s\<lparr>h_now := Suc (h_now s)\<rparr>) = (Ok (), s')" by (simp add: and_then_def)
  from Suc.IH [OF this] show ?case by (auto dest: Suc_leD)
qed (auto simp: and_then_def split: if_splits)

lemma terminate_ok:
  assumes "terminate_recorded_child H c s = (Ok (), s')"
  shows "child_ended H c s s'"
proof -
  obtain l s1 where live: "recorded_child_is_live_exact H c s = (l, s1)" by fastforce
  note l = live_exact_run [OF live]
  show ?thesis
  proof (cases "l = Ok True")
    case True
    with l live assms obtain n where
      kill: "poll_until H n (s1\<lparr>h_log := h_log s @ [Killed (h_now s1) (as_pid_t (ch_pid c))], h_now := h_now s1 + 4\<rparr>) = (Ok (), s')"
      by (auto simp: terminate_recorded_child_def and_then_def Let_def eval_nat_numeral
          split: if_splits option.splits)
    from poll_until_ok [OF kill] poll_until_log [OF kill] l show ?thesis
      unfolding child_ended_def by fastforce
  next
    case False
    with l live assms show ?thesis
      by (cases l) (auto simp: terminate_recorded_child_def and_then_def child_ended_def)
  qed
qed

text \<open>
  What the kernel documents of pids: a process is the occupant of its pid for one interval of
  time, \<open>/proc/<pid>/stat\<close> is the occupant's, and a pid and a start time name one process.
\<close>

definition pid_incarnations :: "host \<Rightarrow> (nat \<Rightarrow> int \<Rightarrow> 'p option) \<Rightarrow> ('p \<Rightarrow> string) \<Rightarrow> bool" where
  "pid_incarnations H occupant start \<longleftrightarrow>
     (\<forall>t p i. start_identity_at H t p = Some i \<longrightarrow> (\<exists>q. occupant t p = Some q \<and> start q = i)) \<and>
     (\<forall>t t' p q q'. occupant t p = Some q \<and> occupant t' p = Some q' \<and> start q = start q' \<longrightarrow> q = q') \<and>
     (\<forall>t0 t1 t2 p q. t0 \<le> t1 \<and> t1 \<le> t2 \<and> occupant t0 p = Some q \<and> occupant t2 p = Some q \<longrightarrow>
        occupant t1 p = Some q)"

text \<open>
  C9. A recycled pid is never killed. Every kill \<open>terminate_recorded_child\<close> sends goes through a
  descriptor that, at the moment it was opened, named the very process recorded in the slot,
  whatever processes came and went under that pid between the checks.
\<close>

theorem terminate_kills_recorded_only:
  assumes "pid_incarnations H occupant start" and "terminate_recorded_child H c s = (r, s')"
    and "Killed t p \<in> set (drop (length (h_log s)) (h_log s'))"
  shows "p = as_pid_t (ch_pid c) \<and>
    (\<exists>q. occupant t p = Some q \<and> start q = ch_process_start_time_identity c)"
proof -
  from terminate_run [OF assms(2)] assms(3)
  have p: "p = as_pid_t (ch_pid c)" and t: "t = Suc (h_now s)"
    and first: "start_identity_at H (h_now s) p = Some (ch_process_start_time_identity c)"
    and second: "start_identity_at H (Suc (Suc (h_now s))) p = Some (ch_process_start_time_identity c)"
    by auto
  from assms(1) first obtain q where q: "occupant (h_now s) p = Some q" "start q = ch_process_start_time_identity c"
    unfolding pid_incarnations_def by blast
  from assms(1) second obtain q' where q': "occupant (Suc (Suc (h_now s))) p = Some q'" "start q' = ch_process_start_time_identity c"
    unfolding pid_incarnations_def by blast
  with assms(1) q have "q' = q" unfolding pid_incarnations_def by metis
  have "h_now s \<le> t" "t \<le> Suc (Suc (h_now s))" using t by simp_all
  with assms(1) q(1) q'(1) \<open>q' = q\<close> have "occupant t p = Some q" unfolding pid_incarnations_def by blast
  with p q(2) show ?thesis by blast
qed


text \<open>
  A quiet host: process 42 runs throughout with start time 7, its scope unit does not exist and
  no control group does.
\<close>

definition sample_stat :: string where
  "sample_stat = ''42 (ota) S 1 42 42 0 -1 4194560 1 0 0 0 0 0 0 0 20 0 1 0 7 1000 10''"

definition quiet_host :: host where
  "quiet_host = \<lparr>proc_stat = (\<lambda>_ p. if p = 42 then Some sample_stat else None), proc_dir = (\<lambda>_ p. p = 42),
     pidfd_open = (\<lambda>_ p. p = 42), pidfd_send_signal = (\<lambda>_. True), poll_interrupts = (\<lambda>_. 1),
     poll_ready = (\<lambda>_. True), sha256_identity = (\<lambda>s. s), bus_proxy = (\<lambda>_. True), bus_manager_pid = (\<lambda>_. Some 1),
     bus_get_unit = (\<lambda>_ _. MethodError ''org.freedesktop.systemd1.NoSuchUnit''),
     bus_start_unit = (\<lambda>_ _ _. Reply ()), bus_property = (\<lambda>_ _ _. None), bus_delegate = (\<lambda>_ _. None),
     cgroup_exists = (\<lambda>_ _. False), cgroup_read = (\<lambda>_ _. None)\<rparr>"

definition quiet_start :: hstate where
  "quiet_start = \<lparr>h_now = 0, h_log = []\<rparr>"

definition recorded_child :: child_process where
  "recorded_child = \<lparr>ch_schema_version = 1, ch_identity = ''c'', ch_invocation_id = ''invocation-1'',
     ch_request_identity = ''r'', ch_pid = 42, ch_process_start_time_identity = ''pid:42;start_time:7'',
     ch_ota_binary_identity = ''o'', ch_principal_mapping_identity = ''m'', ch_working_directory_identity = ''w''\<rparr>"

theorem terminate_kills_recorded_only_witness:
  "\<exists>q. (if (42::int) = 42 then Some ''pid:42;start_time:7'' else None) = Some q \<and>
     q = ch_process_start_time_identity recorded_child"
proof -
  let ?occ = "\<lambda>(t::nat) (p::int). if p = 42 then Some ''pid:42;start_time:7'' else None"
  let ?run = "terminate_recorded_child quiet_host recorded_child quiet_start"
  have "start_identity_of quiet_host 42 sample_stat = Some ''pid:42;start_time:7''" by code_simp
  then have "start_identity_at quiet_host t p = ?occ t p" for t p
    by (simp add: start_identity_at_def quiet_host_def)
  then have "pid_incarnations quiet_host ?occ (\<lambda>q. q)"
    by (simp add: pid_incarnations_def)
  moreover have "?run = (fst ?run, snd ?run)" by simp
  moreover have "Killed 1 42 \<in> set (drop (length (h_log quiet_start)) (h_log (snd ?run)))" by code_simp
  ultimately have "(42::int) = as_pid_t (ch_pid recorded_child) \<and>
      (\<exists>q. ?occ 1 42 = Some q \<and> q = ch_process_start_time_identity recorded_child)"
    by (rule terminate_kills_recorded_only)
  then show ?thesis by blast
qed

end
