(* ===== verification/Systemd_Scope.thy ===== *)
theory Systemd_Scope
  imports Host_Process Slot_Samples
begin

text \<open>
  The transient systemd scope of an invocation, \<open>src/systemd_scope.rs\<close>: how the launcher attaches
  a stopped child to a scope of its own, verifies it, and stops it until it is confirmed empty.
  The bus, systemd and the control-group file system answer through \<open>host\<close>. A loop with a deadline
  takes the number of rounds before the deadline passes as an argument, so that a statement about
  all rounds is a statement about every timing.
\<close>


section \<open>The manager\<close>

datatype systemd_scope_error =
  ManagerUnavailable | CreationFailed | ScopeMismatch | ScopeAbsent | CleanupFailed

definition INVOCATION_SLICE :: string where
  "INVOCATION_SLICE = ''ota-authority-invocations.slice''"

definition verify_system_bus_socket :: "(world, systemd_scope_error, unit) proc" where
  "verify_system_bus_socket =
     and_then (map_err (\<lambda>_. ManagerUnavailable)
                 (symlink_metadata (components ''/run/dbus/system_bus_socket''))) (\<lambda>socket.
     and_then (map_err (\<lambda>_. ManagerUnavailable) (symlink_metadata (components ''/run/dbus''))) (\<lambda>parent.
       if n_kind socket \<noteq> Socket \<or> n_uid socket \<noteq> 0 \<or> n_kind parent \<noteq> Directory \<or> n_uid parent \<noteq> 0
          \<or> n_mode parent AND 18 \<noteq> 0
       then throw ManagerUnavailable else ret ()))"

definition require :: "'e \<Rightarrow> (nat \<Rightarrow> 'a option) \<Rightarrow> ('e, 'a) host_op" where
  "require e f = and_then (ask f) (\<lambda>x. case x of Some a \<Rightarrow> ret a | None \<Rightarrow> throw e)"

definition manager_proxy :: "host \<Rightarrow> (systemd_scope_error, unit) host_op" where
  "manager_proxy H = require ManagerUnavailable (\<lambda>t. if bus_proxy H t then Some () else None)"

text \<open>\<open>connect\<close> after the socket is verified: the peer of the systemd name must be process 1.\<close>

definition connect_manager :: "host \<Rightarrow> (systemd_scope_error, unit) host_op" where
  "connect_manager H =
     and_then (manager_proxy H) (\<lambda>_.
     and_then (manager_proxy H) (\<lambda>_.
     and_then (require ManagerUnavailable (bus_manager_pid H)) (\<lambda>manager_pid.
       if manager_pid \<noteq> 1 then throw ManagerUnavailable else ret ())))"


section \<open>Control groups\<close>

definition contains_dotdot :: "string \<Rightarrow> bool" where
  "contains_dotdot s \<longleftrightarrow> sublist ''..'' s"

definition cgroup_path :: "string \<Rightarrow> path option" where
  "cgroup_path g =
     (if \<not> starts_with ''/'' g \<or> contains_dotdot g then None
      else Some (components (''/sys/fs/cgroup/'' @ dropWhile (\<lambda>c. c = CHR ''/'') g)))"

definition parse_all :: "string list \<Rightarrow> nat list option" where
  "parse_all ls = (if list_all (\<lambda>l. parse_u32 l \<noteq> None) ls then Some (map (the \<circ> parse_u32) ls) else None)"

definition cgroup_pids_at :: "host \<Rightarrow> string \<Rightarrow> nat \<Rightarrow> nat list option" where
  "cgroup_pids_at H g t =
     Option.bind (cgroup_path g) (\<lambda>p.
     Option.bind (cgroup_read H t (path_join p ''cgroup.procs'')) (\<lambda>content.
       parse_all (text_lines content)))"

definition cgroup_contains_exact_pid :: "host \<Rightarrow> string \<Rightarrow> nat \<Rightarrow> ('e, bool) host_op" where
  "cgroup_contains_exact_pid H g p = ask (\<lambda>t. cgroup_pids_at H g t = Some [p])"

definition cgroup_is_empty_or_absent_at :: "host \<Rightarrow> string \<Rightarrow> nat \<Rightarrow> bool" where
  "cgroup_is_empty_or_absent_at H g t =
     (case cgroup_path g of
        Some p \<Rightarrow> \<not> cgroup_exists H t p \<or> is_some_and (\<lambda>ps. ps = []) (cgroup_pids_at H g t)
      | None \<Rightarrow> False)"

definition cgroup_is_empty_or_absent :: "host \<Rightarrow> string \<Rightarrow> ('e, bool) host_op" where
  "cgroup_is_empty_or_absent H g = ask (cgroup_is_empty_or_absent_at H g)"


section \<open>Observing a scope\<close>

record observed_scope =
  ob_unit_object_path :: string
  ob_slice :: string
  ob_control_group :: string
  ob_delegate :: bool
  ob_kill_mode :: string
  ob_collect_mode :: string

definition scope_unit_name :: "string \<Rightarrow> systemd_scope_error + string" where
  "scope_unit_name request =
     (case strip_prefix ''sha256:'' request of
        Some d \<Rightarrow>
          if length d = 64 \<and> list_all lower_hex_byte d
          then Inr (''ota-authority-invocation-'' @ d @ ''.scope'') else Inl ScopeMismatch
      | None \<Rightarrow> Inl ScopeMismatch)"

definition get_unit :: "host \<Rightarrow> string \<Rightarrow> (systemd_scope_error, string) host_op" where
  "get_unit H u =
     and_then (ask (\<lambda>t. bus_get_unit H t u)) (\<lambda>reply.
       case reply of
         Reply p \<Rightarrow> ret p
       | MethodError n \<Rightarrow>
           throw (if n = ''org.freedesktop.systemd1.NoSuchUnit'' then ScopeAbsent else ManagerUnavailable)
       | BusError \<Rightarrow> throw ManagerUnavailable)"

definition property :: "host \<Rightarrow> string \<Rightarrow> string \<Rightarrow> (systemd_scope_error, string) host_op" where
  "property H p name = require ScopeMismatch (\<lambda>t. bus_property H t p name)"

definition observe_existing_scope :: "host \<Rightarrow> string \<Rightarrow> (systemd_scope_error, observed_scope) host_op" where
  "observe_existing_scope H u =
     and_then (manager_proxy H) (\<lambda>_.
     and_then (get_unit H u) (\<lambda>p.
     and_then (manager_proxy H) (\<lambda>_.
     and_then (manager_proxy H) (\<lambda>_.
     and_then (property H p ''Id'') (\<lambda>unit_id.
       if unit_id \<noteq> u then throw ScopeMismatch
       else and_then (property H p ''ActiveState'') (\<lambda>active.
         if active \<noteq> ''active'' then throw ScopeMismatch
         else
           and_then (property H p ''Slice'') (\<lambda>slice.
           and_then (property H p ''ControlGroup'') (\<lambda>group.
           and_then (require ScopeMismatch (\<lambda>t. bus_delegate H t p)) (\<lambda>delegate.
           and_then (property H p ''KillMode'') (\<lambda>kill_mode.
           and_then (property H p ''CollectMode'') (\<lambda>collect.
             ret \<lparr>ob_unit_object_path = p, ob_slice = slice, ob_control_group = group,
                  ob_delegate = delegate, ob_kill_mode = kill_mode, ob_collect_mode = collect\<rparr>)))))))))))"

definition scope_of ::
  "'x protocol_scheme \<Rightarrow> string \<Rightarrow> string \<Rightarrow> child_process \<Rightarrow> string \<Rightarrow> observed_scope \<Rightarrow> systemd_scope" where
  "scope_of P invocation request c u ob =
     \<lparr>sc_schema_version = 1, sc_identity = [], sc_invocation_id = invocation,
      sc_request_identity = request, sc_child_identity = ch_identity c, sc_child_pid = ch_pid c,
      sc_unit_name = u, sc_unit_object_path = ob_unit_object_path ob, sc_slice = ob_slice ob,
      sc_control_group = ob_control_group ob, sc_delegate = ob_delegate ob,
      sc_kill_mode = ob_kill_mode ob, sc_collect_mode = ob_collect_mode ob\<rparr>"

definition identified_scope :: "'x protocol_scheme \<Rightarrow> systemd_scope \<Rightarrow> systemd_scope_error + systemd_scope" where
  "identified_scope P sc =
     (case launcher_systemd_scope_identity P sc of
        Some i \<Rightarrow> Inr (sc\<lparr>sc_identity := i\<rparr>)
      | None \<Rightarrow> Inl ScopeMismatch)"

fun observe_scope ::
  "'x protocol_scheme \<Rightarrow> host \<Rightarrow> string \<Rightarrow> string \<Rightarrow> child_process \<Rightarrow> string \<Rightarrow> nat
     \<Rightarrow> (systemd_scope_error, systemd_scope) host_op" where
  "observe_scope P H invocation request c u rounds s =
     (let later = (\<lambda>s. case rounds of 0 \<Rightarrow> throw ScopeMismatch s
                   | Suc n \<Rightarrow> observe_scope P H invocation request c u n s) in
      case observe_existing_scope H u s of
        (Ok ob, s') \<Rightarrow>
          and_then (cgroup_contains_exact_pid H (ob_control_group ob) (ch_pid c)) (\<lambda>exact.
            if exact then lift_result (identified_scope P (scope_of P invocation request c u ob))
            else later) s'
      | (Err _, s') \<Rightarrow> later s'
      | (Crashed, s') \<Rightarrow> (Crashed, s'))"

definition verify_recorded_scope_binding ::
  "'x protocol_scheme \<Rightarrow> systemd_scope \<Rightarrow> child_process \<Rightarrow> systemd_scope_error + unit" where
  "verify_recorded_scope_binding P sc c =
     (if launcher_systemd_scope_identity P sc \<noteq> Some (sc_identity sc)
         \<or> ch_identity c \<noteq> sc_child_identity sc \<or> ch_pid c \<noteq> sc_child_pid sc
      then Inl ScopeMismatch else Inr ())"

definition observed_scope_matches :: "systemd_scope \<Rightarrow> observed_scope \<Rightarrow> bool" where
  "observed_scope_matches sc ob \<longleftrightarrow>
     ob_unit_object_path ob = sc_unit_object_path sc \<and> ob_slice ob = sc_slice sc \<and>
     ob_control_group ob = sc_control_group sc \<and> ob_delegate ob = sc_delegate sc \<and>
     ob_kill_mode ob = sc_kill_mode sc \<and> ob_collect_mode ob = sc_collect_mode sc"

definition observed_scope_is_exact_and_empty ::
  "host \<Rightarrow> systemd_scope \<Rightarrow> observed_scope \<Rightarrow> (systemd_scope_error, bool) host_op" where
  "observed_scope_is_exact_and_empty H sc ob =
     (if \<not> observed_scope_matches sc ob then ret False
      else cgroup_is_empty_or_absent H (ob_control_group ob))"

definition live_exact :: "host \<Rightarrow> child_process \<Rightarrow> (systemd_scope_error, bool) host_op" where
  "live_exact H c = map_err (\<lambda>_. ScopeMismatch) (recorded_child_is_live_exact H c)"

definition verify_scope ::
  "'x protocol_scheme \<Rightarrow> host \<Rightarrow> systemd_scope \<Rightarrow> child_process \<Rightarrow> (systemd_scope_error, unit) host_op" where
  "verify_scope P H sc c =
     and_then (lift_result (verify_recorded_scope_binding P sc c)) (\<lambda>_.
     and_then (observe_existing_scope H (sc_unit_name sc)) (\<lambda>ob.
     and_then (live_exact H c) (\<lambda>live.
       if \<not> live then throw ScopeMismatch
       else if \<not> observed_scope_matches sc ob then throw ScopeMismatch
       else and_then (cgroup_contains_exact_pid H (ob_control_group ob) (sc_child_pid sc)) (\<lambda>exact.
              if exact then ret () else throw ScopeMismatch))))"


section \<open>Stopping a scope\<close>

definition scope_is_terminal :: "host \<Rightarrow> string \<Rightarrow> string \<Rightarrow> (systemd_scope_error, bool) host_op" where
  "scope_is_terminal H u g s =
     (case observe_existing_scope H u s of
        (Err ScopeAbsent, s') \<Rightarrow> cgroup_is_empty_or_absent H g s'
      | (Crashed, s') \<Rightarrow> (Crashed, s')
      | (_, s') \<Rightarrow> (Ok False, s'))"

fun await_absent :: "host \<Rightarrow> string \<Rightarrow> string \<Rightarrow> nat \<Rightarrow> (systemd_scope_error, unit) host_op" where
  "await_absent H u g rounds =
     and_then (scope_is_terminal H u g) (\<lambda>gone.
       if gone then ret ()
       else (case rounds of 0 \<Rightarrow> throw CleanupFailed | Suc n \<Rightarrow> await_absent H u g n))"

text \<open>The replies to \<open>KillUnit\<close> and \<open>StopUnit\<close> are discarded; only the observed end counts.\<close>

definition stop_unit_by_name ::
  "host \<Rightarrow> string \<Rightarrow> string \<Rightarrow> nat \<Rightarrow> (systemd_scope_error, unit) host_op" where
  "stop_unit_by_name H u g rounds =
     and_then (manager_proxy H) (\<lambda>_.
     and_then (emit (StoppedUnit u)) (\<lambda>_. await_absent H u g rounds))"

definition cleanup_observation ::
  "host \<Rightarrow> systemd_scope \<Rightarrow> (systemd_scope_error, observed_scope option) host_op" where
  "cleanup_observation H sc s =
     (case observe_existing_scope H (sc_unit_name sc) s of
        (Ok ob, s') \<Rightarrow> (Ok (Some ob), s')
      | (Err ScopeAbsent, s') \<Rightarrow>
          and_then (cgroup_is_empty_or_absent H (sc_control_group sc)) (\<lambda>gone.
            if gone then ret None else throw ScopeAbsent) s'
      | (Err e, s') \<Rightarrow> (Err e, s')
      | (Crashed, s') \<Rightarrow> (Crashed, s'))"

text \<open>
  The unit is stopped when the observation is exact and empty; \<open>e\<close> is the error when it is not.
\<close>

definition stop_if_exact_and_empty ::
  "host \<Rightarrow> systemd_scope \<Rightarrow> systemd_scope_error \<Rightarrow> nat \<Rightarrow> (systemd_scope_error, unit) host_op" where
  "stop_if_exact_and_empty H sc e rounds =
     and_then (cleanup_observation H sc) (\<lambda>ob.
       case ob of
         None \<Rightarrow> ret ()
       | Some ob \<Rightarrow>
           and_then (observed_scope_is_exact_and_empty H sc ob) (\<lambda>fit.
             if fit then stop_unit_by_name H (sc_unit_name sc) (sc_control_group sc) rounds
             else throw e))"

definition stop_and_confirm_empty_inner ::
  "'x protocol_scheme \<Rightarrow> host \<Rightarrow> nat \<Rightarrow> systemd_scope \<Rightarrow> child_process \<Rightarrow> (systemd_scope_error, unit) host_op" where
  "stop_and_confirm_empty_inner P H rounds sc c =
     and_then (lift_result (verify_recorded_scope_binding P sc c)) (\<lambda>_.
     and_then (scope_is_terminal H (sc_unit_name sc) (sc_control_group sc)) (\<lambda>gone.
       if gone then ret ()
       else and_then (live_exact H c) (\<lambda>live.
         if \<not> live then stop_if_exact_and_empty H sc ScopeMismatch rounds
         else (\<lambda>s. case verify_scope P H sc c s of
             (Ok _, s') \<Rightarrow> stop_unit_by_name H (sc_unit_name sc) (sc_control_group sc) rounds s'
           | (Err e, s') \<Rightarrow> stop_if_exact_and_empty H sc e rounds s'
           | (Crashed, s') \<Rightarrow> (Crashed, s')))))"

definition recover_unrecorded_scope ::
  "'x protocol_scheme \<Rightarrow> host \<Rightarrow> nat \<Rightarrow> string \<Rightarrow> string \<Rightarrow> child_process \<Rightarrow> (systemd_scope_error, unit) host_op" where
  "recover_unrecorded_scope P H rounds invocation request c =
     and_then (lift_result (scope_unit_name request)) (\<lambda>u s.
       case observe_existing_scope H u s of
         (Err ScopeAbsent, s') \<Rightarrow> (Ok (), s')
       | (Err e, s') \<Rightarrow> (Err e, s')
       | (Crashed, s') \<Rightarrow> (Crashed, s')
       | (Ok ob, s') \<Rightarrow>
           and_then (cgroup_contains_exact_pid H (ob_control_group ob) (ch_pid c)) (\<lambda>exact.
             if \<not> exact then throw ScopeMismatch
             else and_then (lift_result (identified_scope P (scope_of P invocation request c u ob))) (\<lambda>sc.
                    stop_and_confirm_empty_inner P H rounds sc c)) s')"

definition start_error_requires_reconciliation :: "'a bus_reply \<Rightarrow> bool" where
  "start_error_requires_reconciliation r = (case r of MethodError _ \<Rightarrow> False | _ \<Rightarrow> True)"

text \<open>An error recovers the scope first: the error is \<open>e\<close> when that succeeds.\<close>

definition recover_then_fail ::
  "'x protocol_scheme \<Rightarrow> host \<Rightarrow> nat \<Rightarrow> string \<Rightarrow> string \<Rightarrow> child_process \<Rightarrow> systemd_scope_error
     \<Rightarrow> (systemd_scope_error, 'a) host_op" where
  "recover_then_fail P H rounds invocation request c e s =
     (case recover_unrecorded_scope P H rounds invocation request c s of
        (Ok _, s') \<Rightarrow> (Err e, s')
      | (Err _, s') \<Rightarrow> (Err CleanupFailed, s')
      | (Crashed, s') \<Rightarrow> (Crashed, s'))"

definition attach_stopped_child_inner ::
  "'x protocol_scheme \<Rightarrow> host \<Rightarrow> nat \<Rightarrow> string \<Rightarrow> string \<Rightarrow> child_process \<Rightarrow> (systemd_scope_error, systemd_scope) host_op" where
  "attach_stopped_child_inner P H rounds invocation request c =
     and_then (lift_result (scope_unit_name request)) (\<lambda>u.
     and_then (manager_proxy H) (\<lambda>_.
     and_then (ask (\<lambda>t. bus_start_unit H t u (ch_pid c))) (\<lambda>started.
     and_then (emit (StartedUnit u (ch_pid c))) (\<lambda>_.
       case started of
         Reply _ \<Rightarrow>
           (\<lambda>s. case observe_scope P H invocation request c u rounds s of
              (Err _, s') \<Rightarrow> recover_then_fail P H rounds invocation request c ScopeMismatch s'
            | r \<Rightarrow> r)
       | _ \<Rightarrow>
           if start_error_requires_reconciliation started
           then recover_then_fail P H rounds invocation request c CreationFailed
           else throw CreationFailed))))"



section \<open>What a call sees\<close>

text \<open>Calls that only ask questions: the log stays and the clock does not go back.\<close>

definition only_asks :: "('e, 'a) host_op \<Rightarrow> bool" where
  "only_asks m \<longleftrightarrow> (\<forall>s r s'. m s = (r, s') \<longrightarrow> h_log s' = h_log s \<and> h_now s \<le> h_now s')"

named_theorems asks_intros \<open>calls that only ask\<close>

lemma only_asksD: "only_asks m \<Longrightarrow> m s = (r, s') \<Longrightarrow> h_log s' = h_log s \<and> h_now s \<le> h_now s'"
  by (simp add: only_asks_def)

lemma asks_basic [asks_intros]:
  "only_asks (ask f)" "only_asks (ret a)" "only_asks (throw e)" "only_asks (lift_result x)"
  by (auto simp: only_asks_def lift_result_def split: sum.splits)

lemma asks_and_then [asks_intros]:
  assumes "only_asks m" and "\<And>a. only_asks (f a)"
  shows "only_asks (and_then m f)"
  unfolding only_asks_def
proof (intro allI impI)
  fix s r s' assume run: "and_then m f s = (r, s')"
  obtain q s1 where m: "m s = (q, s1)" by fastforce
  from only_asksD [OF assms(1) m] run only_asksD [OF assms(2)] m
  show "h_log s' = h_log s \<and> h_now s \<le> h_now s'"
    by (cases q) (fastforce simp: and_then_def)+
qed

lemma asks_map_err [asks_intros]: "only_asks m \<Longrightarrow> only_asks (map_err g m)"
  by (auto simp: only_asks_def map_err_def split: prod.splits outcome.splits)

lemma asks_if [asks_intros]: "only_asks m \<Longrightarrow> only_asks n \<Longrightarrow> only_asks (if b then m else n)"
  by simp

lemma asks_require [asks_intros]: "only_asks (require e f)"
  unfolding require_def by (intro asks_intros, rename_tac x, case_tac x) (simp_all add: asks_intros)

lemma asks_observe [asks_intros]: "only_asks (observe_existing_scope H u)"
proof -
  have "only_asks (get_unit H u)"
    unfolding get_unit_def by (intro asks_intros, rename_tac x, case_tac x) (simp_all add: asks_intros)
  then show ?thesis
    unfolding observe_existing_scope_def manager_proxy_def property_def by (intro asks_intros)
qed

lemma asks_cgroup [asks_intros]:
  "only_asks (cgroup_contains_exact_pid H g p)" "only_asks (cgroup_is_empty_or_absent H g)"
  by (simp_all add: cgroup_contains_exact_pid_def cgroup_is_empty_or_absent_def asks_intros)

lemma asks_live_exact [asks_intros]: "only_asks (live_exact H c)"
  unfolding live_exact_def
  by (rule asks_map_err) (auto simp: only_asks_def dest: live_exact_run)

lemma asks_verify_scope [asks_intros]: "only_asks (verify_scope P H sc c)"
  unfolding verify_scope_def by (intro asks_intros)

text \<open>
  \<open>seen_gone H u g a b\<close>: between the moments \<open>a\<close> and \<open>b\<close> the manager answered that unit \<open>u\<close> does
  not exist, and after that the control group \<open>g\<close> was empty or absent.
\<close>

definition seen_gone :: "host \<Rightarrow> string \<Rightarrow> string \<Rightarrow> nat \<Rightarrow> nat \<Rightarrow> bool" where
  "seen_gone H u g a b \<longleftrightarrow>
     (\<exists>t0 t1. a \<le> t0 \<and> t0 < t1 \<and> t1 < b \<and>
        bus_get_unit H t0 u = MethodError ''org.freedesktop.systemd1.NoSuchUnit'' \<and>
        cgroup_is_empty_or_absent_at H g t1)"

lemma seen_gone_mono: "seen_gone H u g a b \<Longrightarrow> a' \<le> a \<Longrightarrow> b \<le> b' \<Longrightarrow> seen_gone H u g a' b'"
  unfolding seen_gone_def by (meson le_trans less_le_trans)

lemma observe_absent:
  assumes "observe_existing_scope H u s = (Err ScopeAbsent, s')"
  shows "\<exists>t. h_now s \<le> t \<and> t < h_now s' \<and>
    bus_get_unit H t u = MethodError ''org.freedesktop.systemd1.NoSuchUnit''"
  using assms
  by (auto simp: observe_existing_scope_def manager_proxy_def get_unit_def property_def require_def and_then_def
      split: if_splits option.splits bus_reply.splits prod.splits outcome.splits
      intro!: exI [of _ "Suc (h_now s)"])

lemma terminal_seen_gone:
  assumes "scope_is_terminal H u g s = (Ok True, s')"
  shows "seen_gone H u g (h_now s) (h_now s')"
proof -
  from assms obtain s1 where obs: "observe_existing_scope H u s = (Err ScopeAbsent, s1)"
    and cg: "cgroup_is_empty_or_absent_at H g (h_now s1)" and s': "h_now s' = Suc (h_now s1)"
    by (auto simp: scope_is_terminal_def cgroup_is_empty_or_absent_def
        split: prod.splits outcome.splits systemd_scope_error.splits)
  from observe_absent [OF obs] cg s' show ?thesis unfolding seen_gone_def by auto
qed


lemma asks_terminal [asks_intros]: "only_asks (scope_is_terminal H u g)"
  unfolding only_asks_def scope_is_terminal_def cgroup_is_empty_or_absent_def
  by (auto split: prod.splits outcome.splits systemd_scope_error.splits dest: only_asksD [OF asks_observe])

lemma await_absent_run:
  assumes "await_absent H u g n s = (r, s')"
  shows "h_log s' = h_log s \<and> h_now s \<le> h_now s' \<and>
    (is_Ok r \<longrightarrow> seen_gone H u g (h_now s) (h_now s'))"
  using assms
proof (induction n arbitrary: s)
  case 0
  obtain q s1 where t: "scope_is_terminal H u g s = (q, s1)" by fastforce
  with 0 only_asksD [OF asks_terminal t] terminal_seen_gone [of H u g s s1] show ?case
    by (cases q) (auto simp: and_then_def split: if_splits)
next
  case (Suc n)
  obtain q s1 where t: "scope_is_terminal H u g s = (q, s1)" by fastforce
  note asks = only_asksD [OF asks_terminal t]
  show ?case
  proof (cases "q = Ok False")
    case True
    with Suc.prems t have "await_absent H u g n s1 = (r, s')" by (simp add: and_then_def)
    from Suc.IH [OF this] asks show ?thesis by (auto intro: seen_gone_mono)
  next
    case False
    with Suc.prems t asks terminal_seen_gone [of H u g s s1] show ?thesis
      by (cases q) (auto simp: and_then_def split: if_splits)
  qed
qed

declare await_absent.simps [simp del]

lemma stop_unit_run:
  assumes "stop_unit_by_name H u g n s = (r, s')"
  shows "h_now s \<le> h_now s' \<and> (h_log s' = h_log s \<or> h_log s' = h_log s @ [StoppedUnit u]) \<and>
    (is_Ok r \<longrightarrow> seen_gone H u g (h_now s) (h_now s'))"
proof -
  obtain q s1 where mp: "manager_proxy H s = (q, s1)" by fastforce
  have "only_asks (manager_proxy H)" by (simp add: manager_proxy_def asks_require)
  from only_asksD [OF this mp] have asks: "h_log s1 = h_log s" "h_now s \<le> h_now s1" by simp_all
  show ?thesis
  proof (cases q)
    case (Ok u')
    with assms mp have "await_absent H u g n (s1\<lparr>h_log := h_log s1 @ [StoppedUnit u]\<rparr>) = (r, s')"
      by (simp add: stop_unit_by_name_def and_then_def)
    from await_absent_run [OF this] asks show ?thesis by (auto intro: seen_gone_mono)
  qed (use assms mp asks in \<open>auto simp: stop_unit_by_name_def and_then_def\<close>)
qed

text \<open>
  \<open>observed_exactly H sc a b\<close>: between the moments \<open>a\<close> and \<open>b\<close> the manager answered for the unit of
  \<open>sc\<close> with its object path, its own name, an active state and the recorded control group.
\<close>

definition observed_exactly :: "host \<Rightarrow> systemd_scope \<Rightarrow> nat \<Rightarrow> nat \<Rightarrow> bool" where
  "observed_exactly H sc a b \<longleftrightarrow>
     (\<exists>t1 t2 t3 t4. {t1, t2, t3, t4} \<subseteq> {a..<b} \<and>
        bus_get_unit H t1 (sc_unit_name sc) = Reply (sc_unit_object_path sc) \<and>
        bus_property H t2 (sc_unit_object_path sc) ''Id'' = Some (sc_unit_name sc) \<and>
        bus_property H t3 (sc_unit_object_path sc) ''ActiveState'' = Some ''active'' \<and>
        bus_property H t4 (sc_unit_object_path sc) ''ControlGroup'' = Some (sc_control_group sc))"

lemma observed_exactly_mono:
  assumes "observed_exactly H sc a b" and "a' \<le> a" and "b \<le> b'"
  shows "observed_exactly H sc a' b'"
proof -
  have "{a..<b} \<subseteq> {a'..<b'}" using assms(2,3) by auto
  with assms(1) show ?thesis unfolding observed_exactly_def by (meson subset_trans)
qed

lemma observe_ok:
  assumes "observe_existing_scope H u s = (Ok ob, s')"
  shows "\<exists>t1 t2 t3 t4. {t1, t2, t3, t4} \<subseteq> {h_now s..<h_now s'} \<and>
     bus_get_unit H t1 u = Reply (ob_unit_object_path ob) \<and>
     bus_property H t2 (ob_unit_object_path ob) ''Id'' = Some u \<and>
     bus_property H t3 (ob_unit_object_path ob) ''ActiveState'' = Some ''active'' \<and>
     bus_property H t4 (ob_unit_object_path ob) ''ControlGroup'' = Some (ob_control_group ob)"
  using assms
  by (intro exI [of _ "h_now s + 1"] exI [of _ "h_now s + 4"] exI [of _ "h_now s + 5"] exI [of _ "h_now s + 7"])
     (auto simp: observe_existing_scope_def manager_proxy_def get_unit_def property_def require_def and_then_def
      eval_nat_numeral
      split: if_splits option.splits bus_reply.splits prod.splits outcome.splits)

lemma observe_matching:
  assumes "observe_existing_scope H (sc_unit_name sc) s = (Ok ob, s')" and "observed_scope_matches sc ob"
  shows "observed_exactly H sc (h_now s) (h_now s')"
  using observe_ok [OF assms(1)] assms(2) by (simp add: observed_exactly_def observed_scope_matches_def)


text \<open>
  \<open>stop_justified P H sc c a b\<close>: what was seen between \<open>a\<close> and \<open>b\<close> before a unit is stopped: the record
  of the scope is intact and names this child; the unit is exactly the recorded one; and either
  its control group held exactly the pid of the live recorded child, or it was empty or absent.
\<close>

definition stop_justified :: "'x protocol_scheme \<Rightarrow> host \<Rightarrow> systemd_scope \<Rightarrow> child_process \<Rightarrow> nat \<Rightarrow> nat \<Rightarrow> bool" where
  "stop_justified P H sc c a b \<longleftrightarrow>
     verify_recorded_scope_binding P sc c = Inr () \<and> observed_exactly H sc a b \<and>
     ((\<exists>t. t \<in> {a..<b} \<and>
         start_identity_at H t (as_pid_t (ch_pid c)) = Some (ch_process_start_time_identity c)) \<and>
      (\<exists>t. t \<in> {a..<b} \<and> cgroup_pids_at H (sc_control_group sc) t = Some [ch_pid c])
      \<or> (\<exists>t. t \<in> {a..<b} \<and> cgroup_is_empty_or_absent_at H (sc_control_group sc) t))"

lemma stop_justified_mono:
  assumes "stop_justified P H sc c a b" and "a' \<le> a" and "b \<le> b'"
  shows "stop_justified P H sc c a' b'"
proof -
  have "{a..<b} \<subseteq> {a'..<b'}" using assms(2,3) by auto
  with assms(1) observed_exactly_mono [OF _ assms(2,3)] show ?thesis unfolding stop_justified_def by blast
qed

lemma verify_scope_ok:
  assumes "verify_scope P H sc c s = (Ok (), s')"
  shows "stop_justified P H sc c (h_now s) (h_now s')"
proof -
  from assms obtain ob s1 s2 where bind: "verify_recorded_scope_binding P sc c = Inr ()"
    and obs: "observe_existing_scope H (sc_unit_name sc) s = (Ok ob, s1)"
    and live: "live_exact H c s1 = (Ok True, s2)" and match: "observed_scope_matches sc ob"
    and cg: "cgroup_pids_at H (ob_control_group ob) (h_now s2) = Some [sc_child_pid sc]"
    and s': "h_now s' = Suc (h_now s2)"
    by (auto simp: verify_scope_def and_then_Ok_iff lift_result_Ok_iff cgroup_contains_exact_pid_def
        split: if_splits)
  have exact: "observed_exactly H sc (h_now s) (h_now s1)" by (rule observe_matching [OF obs match])
  have l: "h_now s2 = Suc (h_now s1)"
    "start_identity_at H (h_now s1) (as_pid_t (ch_pid c)) = Some (ch_process_start_time_identity c)"
    using live live_exact_run [of H c s1 "Ok True" s2] by (auto simp: live_exact_def map_err_Ok_iff)
  have pid: "sc_child_pid sc = ch_pid c" and grp: "ob_control_group ob = sc_control_group sc"
    using bind match by (auto simp: verify_recorded_scope_binding_def observed_scope_matches_def split: if_splits)
  have "h_now s \<le> h_now s1" using only_asksD [OF asks_observe obs] by simp
  then have "observed_exactly H sc (h_now s) (h_now s')"
    using l(1) s' by (intro observed_exactly_mono [OF exact]) auto
  moreover have "h_now s1 \<in> {h_now s..<h_now s'}" "h_now s2 \<in> {h_now s..<h_now s'}"
    using \<open>h_now s \<le> h_now s1\<close> l(1) s' by auto
  ultimately show ?thesis
    using bind cg l(2) pid grp unfolding stop_justified_def by metis
qed

text \<open>A stop appends at most one event, and only when it is justified.\<close>

definition stops_only_justified ::
  "'x protocol_scheme \<Rightarrow> host \<Rightarrow> systemd_scope \<Rightarrow> child_process \<Rightarrow> hstate \<Rightarrow> hstate \<Rightarrow> bool" where
  "stops_only_justified P H sc c s s' \<longleftrightarrow>
     h_now s \<le> h_now s' \<and>
     (h_log s' = h_log s \<or>
      h_log s' = h_log s @ [StoppedUnit (sc_unit_name sc)] \<and> stop_justified P H sc c (h_now s) (h_now s'))"

lemma cleanup_observation_run:
  assumes "cleanup_observation H sc s = (r, s')"
  shows "h_log s' = h_log s \<and> h_now s \<le> h_now s' \<and>
    (\<forall>ob. r = Ok (Some ob) \<longrightarrow> observe_existing_scope H (sc_unit_name sc) s = (Ok ob, s')) \<and>
    (r = Ok None \<longrightarrow> seen_gone H (sc_unit_name sc) (sc_control_group sc) (h_now s) (h_now s'))"
proof -
  obtain q s1 where obs: "observe_existing_scope H (sc_unit_name sc) s = (q, s1)" by fastforce
  note asks = only_asksD [OF asks_observe obs]
  have gone: "seen_gone H (sc_unit_name sc) (sc_control_group sc) (h_now s) (Suc (h_now s1))"
    if "q = Err ScopeAbsent" "cgroup_is_empty_or_absent_at H (sc_control_group sc) (h_now s1)"
    using observe_absent [of H "sc_unit_name sc" s s1] obs that unfolding seen_gone_def by auto
  show ?thesis
    using assms obs asks gone
    by (auto simp: cleanup_observation_def and_then_def cgroup_is_empty_or_absent_def
        split: outcome.splits systemd_scope_error.splits if_splits)
qed

lemma stop_if_exact_run:
  assumes "stop_if_exact_and_empty H sc e n s = (r, s')" and "verify_recorded_scope_binding P sc c = Inr ()"
  shows "stops_only_justified P H sc c s s' \<and>
    (is_Ok r \<longrightarrow> seen_gone H (sc_unit_name sc) (sc_control_group sc) (h_now s) (h_now s'))"
proof -
  obtain q s1 where co: "cleanup_observation H sc s = (q, s1)" by fastforce
  note c1 = cleanup_observation_run [OF co]
  show ?thesis
  proof (cases "\<exists>ob. q = Ok (Some ob) \<and> observed_scope_matches sc ob \<and>
      cgroup_is_empty_or_absent_at H (ob_control_group ob) (h_now s1)")
    case True
    then obtain ob where q: "q = Ok (Some ob)" and match: "observed_scope_matches sc ob"
      and cg: "cgroup_is_empty_or_absent_at H (ob_control_group ob) (h_now s1)" by blast
    let ?s2 = "s1\<lparr>h_now := Suc (h_now s1)\<rparr>"
    from assms(1) co q match cg have "stop_unit_by_name H (sc_unit_name sc) (sc_control_group sc) n ?s2 = (r, s')"
      by (simp add: stop_if_exact_and_empty_def and_then_def observed_scope_is_exact_and_empty_def
          cgroup_is_empty_or_absent_def)
    note stop = stop_unit_run [OF this]
    have "observed_exactly H sc (h_now s) (h_now s1)" using c1 q by (auto intro: observe_matching [OF _ match])
    moreover have "ob_control_group ob = sc_control_group sc" using match by (simp add: observed_scope_matches_def)
    ultimately have "stop_justified P H sc c (h_now s) (h_now ?s2)"
      using assms(2) cg c1 unfolding stop_justified_def
      by (auto intro!: observed_exactly_mono [of H sc "h_now s" "h_now s1"] exI [of _ "h_now s1"])
    then have "stop_justified P H sc c (h_now s) (h_now s')"
      by (rule stop_justified_mono) (use stop in auto)
    with stop c1 show ?thesis by (auto simp: stops_only_justified_def intro: seen_gone_mono)
  next
    case False
    with assms(1) co c1 show ?thesis
      by (auto simp: stop_if_exact_and_empty_def and_then_def observed_scope_is_exact_and_empty_def
          cgroup_is_empty_or_absent_def stops_only_justified_def
          split: outcome.splits option.splits if_splits)
  qed
qed


lemma stop_and_confirm_run:
  assumes "stop_and_confirm_empty_inner P H n sc c s = (r, s')"
  shows "stops_only_justified P H sc c s s' \<and>
    (is_Ok r \<longrightarrow> seen_gone H (sc_unit_name sc) (sc_control_group sc) (h_now s) (h_now s'))"
proof (cases "verify_recorded_scope_binding P sc c")
  case (Inl e)
  with assms show ?thesis by (auto simp: stop_and_confirm_empty_inner_def and_then_def stops_only_justified_def)
next
  case (Inr u)
  then have bind: "verify_recorded_scope_binding P sc c = Inr ()" by simp
  obtain q s1 where t: "scope_is_terminal H (sc_unit_name sc) (sc_control_group sc) s = (q, s1)" by fastforce
  note at = only_asksD [OF asks_terminal t]
  obtain l s2 where live: "live_exact H c s1 = (l, s2)" by fastforce
  note al = only_asksD [OF asks_live_exact live]
  have later: ?thesis
    if "stops_only_justified P H sc c s2 s' \<and>
      (is_Ok r \<longrightarrow> seen_gone H (sc_unit_name sc) (sc_control_group sc) (h_now s2) (h_now s'))"
    using that at al by (auto simp: stops_only_justified_def intro: stop_justified_mono seen_gone_mono)
  show ?thesis
  proof (cases "q = Ok False")
    case False
    with assms bind t at terminal_seen_gone [of H "sc_unit_name sc" "sc_control_group sc" s s1] show ?thesis
      by (cases q) (auto simp: stop_and_confirm_empty_inner_def and_then_def stops_only_justified_def split: if_splits)
  next
    case True
    with assms bind t have rest: "and_then (live_exact H c) (\<lambda>live.
         if \<not> live then stop_if_exact_and_empty H sc ScopeMismatch n
         else (\<lambda>s. case verify_scope P H sc c s of
             (Ok _, s') \<Rightarrow> stop_unit_by_name H (sc_unit_name sc) (sc_control_group sc) n s'
           | (Err e, s') \<Rightarrow> stop_if_exact_and_empty H sc e n s'
           | (Crashed, s') \<Rightarrow> (Crashed, s'))) s1 = (r, s')"
      by (simp add: stop_and_confirm_empty_inner_def and_then_def)
    consider (dead) "l = Ok False" | (live) "l = Ok True" | (none) "\<not> is_Ok l"
      by (cases l) auto
    then show ?thesis
    proof cases
      case dead
      with rest live have "stop_if_exact_and_empty H sc ScopeMismatch n s2 = (r, s')" by (simp add: and_then_def)
      from stop_if_exact_run [OF this bind] show ?thesis by (rule later)
    next
      case none
      with rest live at al show ?thesis by (cases l) (auto simp: and_then_def stops_only_justified_def)
    next
      case live': live
      obtain v s3 where vs: "verify_scope P H sc c s2 = (v, s3)" by fastforce
      note av = only_asksD [OF asks_verify_scope vs]
      show ?thesis
      proof (cases v)
        case (Ok u)
        with rest live live' vs have st: "stop_unit_by_name H (sc_unit_name sc) (sc_control_group sc) n s3 = (r, s')"
          by (simp add: and_then_def)
        from Ok vs have "stop_justified P H sc c (h_now s2) (h_now s3)" by (simp add: verify_scope_ok)
        then have "stop_justified P H sc c (h_now s2) (h_now s')"
          by (rule stop_justified_mono) (use stop_unit_run [OF st] in auto)
        with stop_unit_run [OF st] av show ?thesis
          by (intro later) (auto simp: stops_only_justified_def intro: seen_gone_mono)
      next
        case (Err e)
        with rest live live' vs have "stop_if_exact_and_empty H sc e n s3 = (r, s')" by (simp add: and_then_def)
        from stop_if_exact_run [OF this bind] av show ?thesis
          by (intro later) (auto simp: stops_only_justified_def intro: stop_justified_mono seen_gone_mono)
      next
        case Crashed
        with rest live live' vs av show ?thesis
          by (intro later) (auto simp: and_then_def stops_only_justified_def)
      qed
    qed
  qed
qed

lemma recover_unrecorded_run:
  assumes "recover_unrecorded_scope P H n invocation request c s = (r, s')"
  shows "h_now s \<le> h_now s' \<and>
    (h_log s' = h_log s \<or>
     (\<exists>sc. scope_unit_name request = Inr (sc_unit_name sc) \<and> sc_child_pid sc = ch_pid c \<and>
        h_log s' = h_log s @ [StoppedUnit (sc_unit_name sc)] \<and>
        stop_justified P H sc c (h_now s) (h_now s'))) \<and>
    (is_Ok r \<longrightarrow> (\<exists>u t. scope_unit_name request = Inr u \<and> h_now s \<le> t \<and> t < h_now s' \<and>
       bus_get_unit H t u = MethodError ''org.freedesktop.systemd1.NoSuchUnit''))"
proof (cases "scope_unit_name request")
  case (Inl e)
  with assms show ?thesis by (auto simp: recover_unrecorded_scope_def and_then_def)
next
  case (Inr u)
  obtain q s1 where obs: "observe_existing_scope H u s = (q, s1)" by fastforce
  note ao = only_asksD [OF asks_observe obs]
  show ?thesis
  proof (cases "\<exists>ob sc. q = Ok ob \<and> cgroup_pids_at H (ob_control_group ob) (h_now s1) = Some [ch_pid c] \<and>
      identified_scope P (scope_of P invocation request c u ob) = Inr sc")
    case True
    then obtain ob sc where q: "q = Ok ob" "cgroup_pids_at H (ob_control_group ob) (h_now s1) = Some [ch_pid c]"
      and sc: "identified_scope P (scope_of P invocation request c u ob) = Inr sc" by blast
    let ?s2 = "s1\<lparr>h_now := Suc (h_now s1)\<rparr>"
    from assms Inr obs q sc have "stop_and_confirm_empty_inner P H n sc c ?s2 = (r, s')"
      by (simp add: recover_unrecorded_scope_def and_then_def cgroup_contains_exact_pid_def)
    note st = stop_and_confirm_run [OF this]
    have names: "sc_unit_name sc = u" "sc_child_pid sc = ch_pid c"
      using sc by (auto simp: identified_scope_def scope_of_def split: option.splits)
    have "stop_justified P H sc c (h_now s) (h_now s')" if "stop_justified P H sc c (h_now ?s2) (h_now s')"
      by (rule stop_justified_mono [OF that]) (use ao in auto)
    moreover have "seen_gone H u (sc_control_group sc) (h_now s) (h_now s')" if "is_Ok r"
      by (rule seen_gone_mono [of H u _ "h_now ?s2" "h_now s'"]) (use st that names ao in auto)
    then have "is_Ok r \<Longrightarrow> \<exists>t. h_now s \<le> t \<and> t < h_now s' \<and>
        bus_get_unit H t u = MethodError ''org.freedesktop.systemd1.NoSuchUnit''"
      unfolding seen_gone_def by (meson less_trans)
    ultimately show ?thesis using st ao Inr names by (auto simp: stops_only_justified_def)
  next
    case False
    with assms Inr obs ao observe_absent [of H u s s1] show ?thesis
      by (auto simp: recover_unrecorded_scope_def and_then_def cgroup_contains_exact_pid_def lift_result_def
          split: outcome.splits systemd_scope_error.splits if_splits sum.splits)
  qed
qed



text \<open>
  The error \<open>ScopeAbsent\<close> says that the unit was seen to be absent. It does not say that the control
  group was: when the unit stays absent, the group was seen not to be empty or absent.
\<close>

definition seen_absent :: "host \<Rightarrow> string \<Rightarrow> nat \<Rightarrow> nat \<Rightarrow> bool" where
  "seen_absent H u a b \<longleftrightarrow>
     (\<exists>t. a \<le> t \<and> t < b \<and> bus_get_unit H t u = MethodError ''org.freedesktop.systemd1.NoSuchUnit'')"

lemma seen_absent_mono: "seen_absent H u a b \<Longrightarrow> a' \<le> a \<Longrightarrow> b \<le> b' \<Longrightarrow> seen_absent H u a' b'"
  unfolding seen_absent_def by (meson le_trans less_le_trans)

lemma seen_gone_absent: "seen_gone H u g a b \<Longrightarrow> seen_absent H u a b"
  unfolding seen_gone_def seen_absent_def by (meson less_trans)

lemma cleanup_observation_absent:
  assumes "cleanup_observation H sc s = (Err ScopeAbsent, s')"
  shows "seen_absent H (sc_unit_name sc) (h_now s) (h_now s') \<and>
    (\<exists>t. h_now s \<le> t \<and> t < h_now s' \<and> \<not> cgroup_is_empty_or_absent_at H (sc_control_group sc) t)"
proof -
  from assms obtain s1 where obs: "observe_existing_scope H (sc_unit_name sc) s = (Err ScopeAbsent, s1)"
    and cg: "\<not> cgroup_is_empty_or_absent_at H (sc_control_group sc) (h_now s1)" and s': "h_now s' = Suc (h_now s1)"
    by (auto simp: cleanup_observation_def and_then_def cgroup_is_empty_or_absent_def
        split: prod.splits outcome.splits systemd_scope_error.splits if_splits)
  have "h_now s \<le> h_now s1" using only_asksD [OF asks_observe obs] by simp
  moreover have "seen_absent H (sc_unit_name sc) (h_now s) (h_now s1)"
    using observe_absent [OF obs] by (simp add: seen_absent_def)
  then have "seen_absent H (sc_unit_name sc) (h_now s) (h_now s')" by (rule seen_absent_mono) (simp_all add: s')
  ultimately show ?thesis using cg s' by (metis lessI)
qed

lemma await_absent_error: "await_absent H u g n s = (Err e, s') \<Longrightarrow> e = CleanupFailed"
proof (induction n arbitrary: s)
  case 0
  then show ?case
    by (auto simp: await_absent.simps and_then_def scope_is_terminal_def cgroup_is_empty_or_absent_def
        split: prod.splits outcome.splits systemd_scope_error.splits if_splits)
next
  case (Suc n)
  then show ?case
    by (auto simp: await_absent.simps [of _ _ _ "Suc n"] and_then_def scope_is_terminal_def
        cgroup_is_empty_or_absent_def
        split: prod.splits outcome.splits systemd_scope_error.splits if_splits)
qed

lemma stop_unit_error: "stop_unit_by_name H u g n s = (Err e, s') \<Longrightarrow> e \<noteq> ScopeAbsent"
  by (auto simp: stop_unit_by_name_def manager_proxy_def require_def and_then_def
      split: if_splits dest: await_absent_error)

lemma stop_if_exact_absent:
  assumes "stop_if_exact_and_empty H sc e n s = (Err ScopeAbsent, s')" and "e \<noteq> ScopeAbsent"
  shows "seen_absent H (sc_unit_name sc) (h_now s) (h_now s') \<and>
    (\<exists>t. h_now s \<le> t \<and> t < h_now s' \<and> \<not> cgroup_is_empty_or_absent_at H (sc_control_group sc) t)"
proof -
  obtain q s1 where co: "cleanup_observation H sc s = (q, s1)" by fastforce
  have "q = Err ScopeAbsent \<and> s1 = s'"
    using assms co
    by (auto simp: stop_if_exact_and_empty_def and_then_def observed_scope_is_exact_and_empty_def
        cgroup_is_empty_or_absent_def split: outcome.splits option.splits if_splits dest: stop_unit_error)
  with co cleanup_observation_absent show ?thesis by blast
qed

lemma verify_scope_absent:
  assumes "verify_scope P H sc c s = (Err ScopeAbsent, s')"
  shows "seen_absent H (sc_unit_name sc) (h_now s) (h_now s')"
proof -
  obtain q s1 where obs: "observe_existing_scope H (sc_unit_name sc) s = (q, s1)" by fastforce
  have "q = Err ScopeAbsent \<and> s1 = s'"
    using assms obs
    by (auto simp: verify_scope_def and_then_def lift_result_def verify_recorded_scope_binding_def live_exact_def
        map_err_def cgroup_contains_exact_pid_def
        split: sum.splits outcome.splits prod.splits if_splits)
  with obs observe_absent [of H "sc_unit_name sc" s s1] show ?thesis by (simp add: seen_absent_def)
qed

lemma stop_and_confirm_absent:
  assumes "stop_and_confirm_empty_inner P H n sc c s = (Err ScopeAbsent, s')"
  shows "seen_absent H (sc_unit_name sc) (h_now s) (h_now s')"
proof -
  let ?u = "sc_unit_name sc" and ?g = "sc_control_group sc"
  have bind: "verify_recorded_scope_binding P sc c = Inr ()"
    using assms by (auto simp: stop_and_confirm_empty_inner_def and_then_def verify_recorded_scope_binding_def
        split: if_splits)
  obtain q s1 where t: "scope_is_terminal H ?u ?g s = (q, s1)" by fastforce
  note at = only_asksD [OF asks_terminal t]
  obtain l s2 where live: "live_exact H c s1 = (l, s2)" by fastforce
  note al = only_asksD [OF asks_live_exact live]
  have noterr: "q \<noteq> Err ScopeAbsent" "l \<noteq> Err ScopeAbsent"
    using t live by (auto simp: scope_is_terminal_def cgroup_is_empty_or_absent_def live_exact_def map_err_def
        split: prod.splits outcome.splits systemd_scope_error.splits)
  obtain v s3 where vs: "verify_scope P H sc c s2 = (v, s3)" by fastforce
  note av = only_asksD [OF asks_verify_scope vs]
  have "q = Ok False" "is_Ok l" using assms bind t live noterr
    by (cases q; cases l; auto simp: stop_and_confirm_empty_inner_def and_then_def split: if_splits)+
  then consider "l = Ok False" "stop_if_exact_and_empty H sc ScopeMismatch n s2 = (Err ScopeAbsent, s')"
    | e where "l = Ok True" "v = Err e" "stop_if_exact_and_empty H sc e n s3 = (Err ScopeAbsent, s')"
    using assms bind t live vs
    by (cases l; cases v) (auto simp: stop_and_confirm_empty_inner_def and_then_def split: if_splits dest: stop_unit_error)
  then show ?thesis
  proof cases
    case 1
    from stop_if_exact_absent [OF 1(2)] at al show ?thesis by (auto intro: seen_absent_mono)
  next
    case 2
    have "h_now s3 \<le> h_now s'"
      using stop_if_exact_run [OF 2(3) bind] by (simp add: stops_only_justified_def)
    with 2 stop_if_exact_absent [OF 2(3)] verify_scope_absent [of P H sc c s2 s3] vs at al av show ?thesis
      by (cases "e = ScopeAbsent") (auto intro: seen_absent_mono)
  qed
qed


section \<open>Properties of the scope boundary\<close>

text \<open>
  C10. A scope is reported stopped only when it is gone. If \<open>stop_and_confirm_empty\<close> returns \<open>Ok\<close>,
  then during the call the manager answered that the recorded unit does not exist, and after
  that answer the recorded control group was empty or absent; whatever the bus replied to the
  kill and stop requests.
\<close>

theorem stop_confirms_gone:
  assumes "stop_and_confirm_empty_inner P H rounds sc c s = (Ok (), s')"
  shows "seen_gone H (sc_unit_name sc) (sc_control_group sc) (h_now s) (h_now s')"
  using stop_and_confirm_run [OF assms] by simp

text \<open>
  C11. No foreign unit is stopped. Stopping a recorded scope, or recovering one that was never
  recorded, asks systemd to kill at most one unit; it is the unit named by the record or by the
  request, observed under its own name and object path with its recorded control group; and
  that group held exactly the pid of the recorded child, which was still the recorded process,
  or was empty or absent.
\<close>

theorem stops_are_justified:
  "(stop_and_confirm_empty_inner P H rounds sc c s = (r, s') \<longrightarrow> stops_only_justified P H sc c s s') \<and>
   (recover_unrecorded_scope P H rounds invocation request c s = (r, s') \<longrightarrow>
      h_log s' = h_log s \<or>
      (\<exists>sc'. scope_unit_name request = Inr (sc_unit_name sc') \<and> sc_child_pid sc' = ch_pid c \<and>
         h_log s' = h_log s @ [StoppedUnit (sc_unit_name sc')] \<and>
         stop_justified P H sc' c (h_now s) (h_now s')))"
  using stop_and_confirm_run recover_unrecorded_run by blast

text \<open>
  A busy host: the unit of the sample invocation exists until moment 40 with process 42 alone in its
  control group, and is gone after.
\<close>

definition busy_host :: host where
  "busy_host = quiet_host
     \<lparr>bus_get_unit := (\<lambda>t u. if t < 40 then Reply ''/u'' else MethodError ''org.freedesktop.systemd1.NoSuchUnit''),
      bus_property := (\<lambda>_ _ name.
         if name = ''Id'' then Some (''ota-authority-invocation-'' @ replicate 64 CHR ''b'' @ ''.scope'')
         else if name = ''ActiveState'' then Some ''active'' else if name = ''Slice'' then Some INVOCATION_SLICE
         else if name = ''ControlGroup'' then Some ''/g'' else Some name),
      bus_delegate := (\<lambda>_ _. Some False),
      cgroup_exists := (\<lambda>t _. t < 40), cgroup_read := (\<lambda>t _. if t < 40 then Some (''42'' @ [CHR 0x0A]) else None)\<rparr>"

definition busy_child :: child_process where
  "busy_child = sample_child\<lparr>ch_process_start_time_identity := ''pid:42;start_time:7''\<rparr>"

definition busy_scope :: systemd_scope where
  "busy_scope = sample_scope\<lparr>sc_unit_name := ''ota-authority-invocation-'' @ replicate 64 CHR ''b'' @ ''.scope'',
     sc_unit_object_path := ''/u'', sc_slice := INVOCATION_SLICE, sc_control_group := ''/g'',
     sc_kill_mode := ''KillMode'', sc_collect_mode := ''CollectMode''\<rparr>"

theorem stop_confirms_gone_witness:
  "seen_gone busy_host (sc_unit_name busy_scope) (sc_control_group busy_scope) 0
     (h_now (snd (stop_and_confirm_empty_inner sample_env busy_host 9 busy_scope busy_child quiet_start)))"
proof -
  let ?run = "stop_and_confirm_empty_inner sample_env busy_host 9 busy_scope busy_child quiet_start"
  have "fst ?run = Ok ()" "h_now quiet_start = 0" by code_simp+
  with stop_confirms_gone [of sample_env busy_host 9 busy_scope busy_child quiet_start "snd ?run"]
  show ?thesis by (metis prod.collapse)
qed

theorem stops_are_justified_witness:
  "stop_justified sample_env busy_host busy_scope busy_child 0
     (h_now (snd (stop_and_confirm_empty_inner sample_env busy_host 9 busy_scope busy_child quiet_start)))"
proof -
  let ?run = "stop_and_confirm_empty_inner sample_env busy_host 9 busy_scope busy_child quiet_start"
  have log: "h_log (snd ?run) = [StoppedUnit (sc_unit_name busy_scope)]" "h_log quiet_start = []"
    "h_now quiet_start = 0" by code_simp+
  have "?run = (fst ?run, snd ?run)" by simp
  then have "stops_only_justified sample_env busy_host busy_scope busy_child quiet_start (snd ?run)"
    using stops_are_justified by blast
  with log show ?thesis by (simp add: stops_only_justified_def)
qed

end
