(* ===== verification/Recovery.thy ===== *)
theory Recovery
  imports Slot_Store Finalization_Store Systemd_Scope
begin

text \<open>
  What the service does with the slots a previous process left behind: the functions of
  \<open>src/systemd_service.rs\<close> that end a boundary (\<open>build_execution_finalization\<close>,
  \<open>retain_finalization_intent\<close>, \<open>preparation_failure\<close>, \<open>reconcile_active_slots\<close>). The state is the
  file system with its faults and the host with its clock and log.
\<close>


section \<open>Errors of the service\<close>

datatype target_directory_error =
    OutsideAllowedRoots | UnavailableToExecutionPrincipal | HelperFailed | HelperTimedOut
  | HelperWaitFailed | PrivilegeTransitionFailed | GroupTransitionCapabilityUnavailable
  | UserTransitionCapabilityUnavailable | UserTransitionCapabilityLost
  | DescriptorSanitizationFailed | ParentBindingFailed | SupplementaryGroupClearFailed
  | GroupTransitionFailed | UserTransitionFailed | PrincipalVerificationFailed
  | RootUnavailableToExecutionPrincipal | DescriptorTransferFailed

datatype systemd_service_error =
    RootRequired | ListenerUnavailable | InvalidRequest | PeerUnmapped | PeerPostureUnavailable
  | RepositoryOutsideAllowedRoots
  | RepositoryUnavailableToExecutionPrincipal target_directory_error
  | ActiveSlotUnavailable | ChildPreparationFailed | ChildCleanupFailed | ScopeUnavailable
  | BrokerProxyUnavailable | InstallationIdentityUnavailable | RetainedAuthorityContextUnavailable
  | CapabilityObservationReplayUnavailable | RuntimeProfileUnavailable
  | PreAuthorizationProtocolRefused | AuthorizationDecisionRefused | ScopeCleanupFailed
  | SelectedExecutionFailed | FinalizationUnavailable

definition map_systemd_scope_error :: "systemd_scope_error \<Rightarrow> systemd_service_error" where
  "map_systemd_scope_error e =
     (case e of systemd_scope_error.CleanupFailed \<Rightarrow> ScopeCleanupFailed | _ \<Rightarrow> ScopeUnavailable)"

definition map_active_slot_error :: "active_slot_error \<Rightarrow> systemd_service_error" where
  "map_active_slot_error _ = ActiveSlotUnavailable"

definition map_prepared_child_error :: "prepared_child_error \<Rightarrow> systemd_service_error" where
  "map_prepared_child_error e =
     (case e of
        prepared_child_error.CleanupFailed \<Rightarrow> ChildCleanupFailed
      | AttestationBridgeUnavailable \<Rightarrow> PreAuthorizationProtocolRefused
      | AuthorizationAdmissionMismatch \<Rightarrow> PreAuthorizationProtocolRefused
      | AuthorizationDecisionBridgeUnavailable \<Rightarrow> AuthorizationDecisionRefused
      | _ \<Rightarrow> ChildPreparationFailed)"

definition map_target_directory_error :: "target_directory_error \<Rightarrow> systemd_service_error" where
  "map_target_directory_error e =
     (case e of
        OutsideAllowedRoots \<Rightarrow> RepositoryOutsideAllowedRoots
      | _ \<Rightarrow> RepositoryUnavailableToExecutionPrincipal e)"

definition FINALIZATION_DIRECTORY :: path where
  "FINALIZATION_DIRECTORY = components ''/var/lib/ota/authority-launcher/finalization''"

definition ACTIVE_SLOT_DIRECTORY :: path where
  "ACTIVE_SLOT_DIRECTORY = components ''/var/lib/ota/authority-launcher/active''"


section \<open>Retaining a finalization\<close>

definition finalization_of :: "active_slot_journal \<Rightarrow> completion \<Rightarrow> int option \<Rightarrow> bool \<Rightarrow> string \<Rightarrow> string \<Rightarrow> finalization" where
  "finalization_of j c observed recovered child_id scope_id =
     \<lparr>ef_schema_version = (if recovered then 2 else 1), ef_identity = [], ef_completion = c,
      ef_child_identity = child_id, ef_scope_identity = scope_id,
      ef_child_exit_posture = (if recovered then Some RecoveredAbsentCompletionBound else None),
      ef_observed_exit_code = (if recovered then None else observed),
      ef_child_reaped = (\<not> recovered), ef_child_absent = (if recovered then Some True else None),
      ef_scope_removed = True, ef_cgroup_empty_or_absent = True, ef_active_slot_removed = True\<rparr>"

definition build_execution_finalization ::
  "'x protocol_scheme \<Rightarrow> active_slot_journal \<Rightarrow> completion \<Rightarrow> int option \<Rightarrow> bool
     \<Rightarrow> systemd_service_error + finalization" where
  "build_execution_finalization P j c observed recovered =
     (case (as_child j, as_scope j) of
        (None, _) \<Rightarrow> Inl FinalizationUnavailable
      | (Some _, None) \<Rightarrow> Inl FinalizationUnavailable
      | (Some child, Some scope) \<Rightarrow>
          (let f = finalization_of j c observed recovered (ch_identity child) (sc_identity scope) in
           case launcher_execution_finalization_v1_identity P f of
             None \<Rightarrow> Inl SelectedExecutionFailed
           | Some i \<Rightarrow> Inr (f\<lparr>ef_identity := i\<rparr>)))"

definition retain_finalization_intent ::
  "'x fin_env_scheme \<Rightarrow> path \<Rightarrow> active_slot_journal \<Rightarrow> finalization
     \<Rightarrow> (world, systemd_service_error, fin_handle) proc" where
  "retain_finalization_intent E d j f =
     and_then (map_err (\<lambda>_. FinalizationUnavailable)
                 (load_for_principal E d 0 (as_principal_mapping_identity j))) (\<lambda>existing.
       case existing of
         Some h \<Rightarrow>
           if fj_launcher_request_identity (fh_journal h) \<noteq> as_request_identity j
              \<or> fj_working_directory (fh_journal h) \<noteq> as_working_directory j
              \<or> fj_finalization (fh_journal h) \<noteq> f
           then throw FinalizationUnavailable else ret h
       | None \<Rightarrow>
           map_err (\<lambda>_. FinalizationUnavailable)
             (fin_begin E d 0 (as_principal_mapping_identity j) (as_request_identity j)
                (as_working_directory j) f))"

definition preparation_failure ::
  "active_slot \<Rightarrow> prepared_child_error \<Rightarrow> (world, systemd_service_error, systemd_service_error) proc" where
  "preparation_failure s e w =
     (if e = prepared_child_error.CleanupFailed then (Ok ChildCleanupFailed, w)
      else (case finalize_slot s w of
              (Ok _, w') \<Rightarrow> (Ok (map_prepared_child_error e), w')
            | (Err _, w') \<Rightarrow> (Ok ChildCleanupFailed, w')
            | (Crashed, w') \<Rightarrow> (Crashed, w')))"


section \<open>Reconciliation at start\<close>

record machine =
  m_world :: world
  m_host :: hstate

definition on_world :: "(world, 'e, 'a) proc \<Rightarrow> (machine, 'e, 'a) proc" where
  "on_world p m = (case p (m_world m) of (r, w) \<Rightarrow> (r, m\<lparr>m_world := w\<rparr>))"

definition on_host :: "(hstate, 'e, 'a) proc \<Rightarrow> (machine, 'e, 'a) proc" where
  "on_host p m = (case p (m_host m) of (r, h) \<Rightarrow> (r, m\<lparr>m_host := h\<rparr>))"

text \<open>The closure \<open>reconcile_active_slots\<close> passes on.\<close>

definition retain_completion ::
  "'x fin_env_scheme \<Rightarrow> path \<Rightarrow> active_slot_journal \<Rightarrow> (world, systemd_service_error, unit) proc" where
  "retain_completion E d j =
     (case as_execution_completion j of
        None \<Rightarrow> ret ()
      | Some c \<Rightarrow>
          and_then (lift_result (build_execution_finalization E j c None True)) (\<lambda>f.
          and_then (retain_finalization_intent E d j f) (\<lambda>_. ret ())))"

text \<open>
  The loop carries \<open>failure\<close>. The last two steps of a slot: retain its completion, then remove it.
\<close>

definition finish_slot ::
  "'x fin_env_scheme \<Rightarrow> path \<Rightarrow> systemd_service_error option \<Rightarrow> active_slot
     \<Rightarrow> (machine, systemd_service_error, systemd_service_error option) proc" where
  "finish_slot E d failure s m =
     (case on_world (retain_completion E d (sl_journal s)) m of
        (Ok _, m1) \<Rightarrow>
          (case on_world (finalize_slot s) m1 of
             (Ok _, m2) \<Rightarrow> (Ok failure, m2)
           | (Err _, m2) \<Rightarrow> (Ok (Some ChildCleanupFailed), m2)
           | (Crashed, m2) \<Rightarrow> (Crashed, m2))
      | (Err _, m1) \<Rightarrow> (Ok (Some FinalizationUnavailable), m1)
      | (Crashed, m1) \<Rightarrow> (Crashed, m1))"

definition terminate_then_finish ::
  "'x fin_env_scheme \<Rightarrow> host \<Rightarrow> path \<Rightarrow> systemd_service_error option \<Rightarrow> active_slot \<Rightarrow> child_process
     \<Rightarrow> (machine, systemd_service_error, systemd_service_error option) proc" where
  "terminate_then_finish E H d failure s child m =
     (case on_host (terminate_recorded_child H child) m of
        (Ok _, m1) \<Rightarrow> finish_slot E d failure s m1
      | (Err _, m1) \<Rightarrow> (Ok (Some ChildCleanupFailed), m1)
      | (Crashed, m1) \<Rightarrow> (Crashed, m1))"

definition reconcile_absent_scope ::
  "'x fin_env_scheme \<Rightarrow> host \<Rightarrow> path \<Rightarrow> systemd_service_error option \<Rightarrow> active_slot \<Rightarrow> child_process
     \<Rightarrow> (machine, systemd_service_error, systemd_service_error option) proc" where
  "reconcile_absent_scope E H d failure s child m =
     (case on_host (recorded_child_is_live_exact H child) m of
        (Ok live, m1) \<Rightarrow>
          if \<not> live then finish_slot E d failure s m1
          else (case on_host (terminate_recorded_child H child) m1 of
                  (Crashed, m2) \<Rightarrow> (Crashed, m2)
                | (_, m2) \<Rightarrow> (Ok (Some ScopeCleanupFailed), m2))
      | (Err _, m1) \<Rightarrow> (Ok (Some ScopeCleanupFailed), m1)
      | (Crashed, m1) \<Rightarrow> (Crashed, m1))"

definition reconcile_slot ::
  "'x fin_env_scheme \<Rightarrow> host \<Rightarrow> nat \<Rightarrow> path \<Rightarrow> systemd_service_error option \<Rightarrow> active_slot
     \<Rightarrow> (machine, systemd_service_error, systemd_service_error option) proc" where
  "reconcile_slot E H rounds d failure s =
     (case as_child (sl_journal s) of
        None \<Rightarrow> ret (if failure = None then Some ActiveSlotUnavailable else failure)
      | Some child \<Rightarrow>
          (case as_scope (sl_journal s) of
             Some scope \<Rightarrow>
               (\<lambda>m. case on_host (stop_and_confirm_empty_inner E H rounds scope child) m of
                  (Ok _, m1) \<Rightarrow> terminate_then_finish E H d failure s child m1
                | (Err e, m1) \<Rightarrow>
                    if e = ScopeAbsent then reconcile_absent_scope E H d failure s child m1
                    else (Ok (Some ScopeCleanupFailed), m1)
                | (Crashed, m1) \<Rightarrow> (Crashed, m1))
           | None \<Rightarrow>
               (\<lambda>m. case on_host (recover_unrecorded_scope E H rounds (ch_invocation_id child)
                            (ch_request_identity child) child) m of
                  (Ok _, m1) \<Rightarrow> terminate_then_finish E H d failure s child m1
                | (Err _, m1) \<Rightarrow> (Ok (Some ScopeCleanupFailed), m1)
                | (Crashed, m1) \<Rightarrow> (Crashed, m1))))"

fun reconcile_slots ::
  "'x fin_env_scheme \<Rightarrow> host \<Rightarrow> nat \<Rightarrow> path \<Rightarrow> active_slot list \<Rightarrow> systemd_service_error option
     \<Rightarrow> (machine, systemd_service_error, unit) proc" where
  "reconcile_slots E H rounds d [] failure =
     (case failure of Some e \<Rightarrow> throw e | None \<Rightarrow> ret ())"
| "reconcile_slots E H rounds d (s # ss) failure =
     and_then (reconcile_slot E H rounds d failure s) (reconcile_slots E H rounds d ss)"

definition reconcile_loaded_slots_with_completion ::
  "'x fin_env_scheme \<Rightarrow> host \<Rightarrow> nat \<Rightarrow> path \<Rightarrow> active_slot list \<Rightarrow> (machine, systemd_service_error, unit) proc" where
  "reconcile_loaded_slots_with_completion E H rounds d slots = reconcile_slots E H rounds d slots None"

definition reconcile_active_slots ::
  "'x fin_env_scheme \<Rightarrow> host \<Rightarrow> nat \<Rightarrow> path \<Rightarrow> path \<Rightarrow> nat \<Rightarrow> path \<Rightarrow> (machine, systemd_service_error, unit) proc" where
  "reconcile_active_slots E H rounds fd d uid root =
     and_then (map_err map_active_slot_error (on_world (load_all E d uid root))) (\<lambda>slots.
       if slots = [] then ret ()
       else
         and_then (map_err (\<lambda>_. ScopeCleanupFailed) (on_world verify_system_bus_socket)) (\<lambda>_.
         and_then (map_err (\<lambda>_. ScopeCleanupFailed) (on_host (connect_manager H))) (\<lambda>_.
           reconcile_loaded_slots_with_completion E H rounds fd slots)))"



section \<open>What retaining a finalization leaves\<close>

definition fin_paths :: "path \<Rightarrow> string \<Rightarrow> path set" where
  "fin_paths d m = {p. journal_path d m = Inr p}"

text \<open>\<open>fin_on_disk E j w p\<close>: the file at \<open>p\<close> decodes to \<open>j\<close>, or is the encoding of \<open>j\<close>.\<close>

definition fin_on_disk :: "'x fin_env_scheme \<Rightarrow> finalization_journal \<Rightarrow> world \<Rightarrow> path \<Rightarrow> bool" where
  "fin_on_disk E j w p \<longleftrightarrow> is_some_and (\<lambda>n.
     fin_from_slice E (n_bytes n) = Some j \<or> fin_to_vec E j = Some (n_bytes n)) (node_at w p)"

lemma touches_path_exists [touches_intros]: "touches S (path_exists p)"
  by (rule touchesI)
     (auto simp: path_exists_def split: prod.splits outcome.splits dest: touchesD [OF touches_looks(1)])

lemma touches_load_for_principal [touches_intros]: "touches S (load_for_principal E d uid m)"
  unfolding load_for_principal_def fin_verify_store_def fin_verify_file_def
  by (intro touches_intros)

lemma touches_fin_write_new: "touches {p} (fin_write_new E p j)"
proof (cases "fin_to_vec E j")
  case (Some b)
  then show ?thesis
    by (intro touchesI) (auto dest!: ensuresD [OF fin_write_new_created [OF Some]] simp: created_def)
qed (simp add: fin_write_new_def touches_intros)

lemma touches_fin_begin: "touches (fin_paths d m) (fin_begin E d uid m request wd f)"
  unfolding fin_begin_def Let_def fin_verify_store_def fin_sync_directory_def
  by (intro touches_and_then touches_lift_then touches_map_err touches_looks touches_if touches_basic
      touches_mono [OF touches_fin_write_new])
     (auto simp: fin_paths_def)

lemma touches_retain: "touches (fin_paths d (as_principal_mapping_identity j)) (retain_finalization_intent E d j f)"
  unfolding retain_finalization_intent_def by (intro touches_intros touches_fin_begin)

lemma touches_retain_completion:
  "touches (fin_paths d (as_principal_mapping_identity j)) (retain_completion E d j)"
  unfolding retain_completion_def by (intro touches_intros touches_retain)

lemma load_for_principal_ok:
  assumes "load_for_principal E d uid m w = (Ok (Some h), w')"
  shows "journal_path d m = Inr (fh_path h) \<and> fj_principal_mapping_identity (fh_journal h) = m \<and>
    fin_on_disk E (fh_journal h) w (fh_path h)"
proof -
  from assms obtain p w1 w2 w3 n w4 bs i where p: "journal_path d m = Inr p"
    and a: "fin_verify_store d uid w = (Ok (), w1)" and b: "path_exists p w1 = (Ok True, w2)"
    and c: "fin_verify_file p uid w2 = (Ok (), w3)" and n: "open_nofollow p w3 = (Ok n, w4)"
    and bs: "read_to_end n w4 = (Ok bs, w')" and j: "fin_from_slice E bs = Some (fh_journal h)"
    and i: "fj_principal_mapping_identity (fh_journal h) = m" and h: "fh_path h = p"
    by (auto simp: load_for_principal_def and_then_Ok_iff lift_result_Ok_iff map_err_Ok_iff
        split: if_splits option.splits)
  have "touches {} (fin_verify_file p uid)" unfolding fin_verify_file_def by (intro touches_intros)
  then have "same_except {} w2 w3" using c by (rule touchesD)
  moreover have "same_except {} w1 w2" by (rule touchesD [OF touches_path_exists b])
  moreover have "same_except {} w w1" by (rule ensuresD [OF fin_verify_store_looks a])
  ultimately have "node_at w3 p = node_at w p" by (simp add: same_except_def)
  moreover have "node_at w3 p = Some n" using ensuresD [OF look_ensures(2) n] by simp
  ultimately have "node_at w p = Some n" by simp
  moreover have "bs = n_bytes n" using ensuresD [OF look_ensures(3) bs] by simp
  ultimately show ?thesis using p i h j by (simp add: fin_on_disk_def)
qed

text \<open>A retained finalization is on disk, for this request, directory and finalization.\<close>

definition retained :: "'x fin_env_scheme \<Rightarrow> path \<Rightarrow> active_slot_journal \<Rightarrow> finalization \<Rightarrow> world \<Rightarrow> bool" where
  "retained E d j f w \<longleftrightarrow>
     (\<exists>k p. journal_path d (as_principal_mapping_identity j) = Inr p \<and> fin_on_disk E k w p \<and>
        fj_principal_mapping_identity k = as_principal_mapping_identity j \<and>
        fj_launcher_request_identity k = as_request_identity j \<and>
        fj_working_directory k = as_working_directory j \<and> fj_finalization k = f)"

lemma retained_same: "same_except {p} w w' \<Longrightarrow> p \<notin> fin_paths d (as_principal_mapping_identity j) \<Longrightarrow>
   retained E d j f w \<Longrightarrow> retained E d j f w'"
  by (auto simp: retained_def fin_paths_def fin_on_disk_def same_except_def)

lemma retain_ok:
  assumes "retain_finalization_intent E d j f w = (Ok h, w')"
  shows "retained E d j f w'"
proof -
  from assms obtain e w1 where load: "load_for_principal E d 0 (as_principal_mapping_identity j) w = (Ok e, w1)"
    and rest: "(case e of
         Some h \<Rightarrow>
           if fj_launcher_request_identity (fh_journal h) \<noteq> as_request_identity j
              \<or> fj_working_directory (fh_journal h) \<noteq> as_working_directory j
              \<or> fj_finalization (fh_journal h) \<noteq> f
           then throw FinalizationUnavailable else ret h
       | None \<Rightarrow>
           map_err (\<lambda>_. FinalizationUnavailable)
             (fin_begin E d 0 (as_principal_mapping_identity j) (as_request_identity j)
                (as_working_directory j) f)) w1 = (Ok h, w')"
    by (auto simp: retain_finalization_intent_def and_then_Ok_iff map_err_Ok_iff)
  show ?thesis
  proof (cases e)
    case (Some h')
    with rest have "w' = w1" and f: "fj_launcher_request_identity (fh_journal h') = as_request_identity j"
      "fj_working_directory (fh_journal h') = as_working_directory j" "fj_finalization (fh_journal h') = f"
      by (auto split: if_splits)
    moreover have "same_except {} w w1" by (rule touchesD [OF touches_load_for_principal load])
    ultimately show ?thesis
      using load_for_principal_ok [of E d 0 _ w h' w1] load Some f
      unfolding retained_def by (auto simp: fin_on_disk_def same_except_def)
  next
    case None
    with rest have "fin_begin E d 0 (as_principal_mapping_identity j) (as_request_identity j)
        (as_working_directory j) f w1 = (Ok h, w')" by (simp add: map_err_Ok_iff)
    from fin_begin_ok_live [OF this] show ?thesis
      unfolding retained_def by (auto simp: live_fin_def fin_key_def fin_on_disk_def fin_at_def)
  qed
qed



section \<open>What the reconciliation of one slot does\<close>

lemma on_world_run: "on_world p m = (r, m') \<longleftrightarrow> (\<exists>w. p (m_world m) = (r, w) \<and> m' = m\<lparr>m_world := w\<rparr>)"
  by (auto simp: on_world_def split: prod.splits)

lemma on_host_run: "on_host p m = (r, m') \<longleftrightarrow> (\<exists>h. p (m_host m) = (r, h) \<and> m' = m\<lparr>m_host := h\<rparr>)"
  by (auto simp: on_host_def split: prod.splits)

lemma touches_finalize: "touches {sl_path s} (finalize_slot s)"
  unfolding finalize_slot_def sync_directory_def by (intro touches_intros)

lemma finalize_ok:
  assumes "finalize_slot s w = (Ok (), w')"
  shows "node_at w' (sl_path s) = None"
proof -
  from assms obtain w1 where r: "remove_file (sl_path s) w = (Ok (), w1)"
    and d: "sync_directory (sl_directory s) w1 = (Ok (), w')"
    by (auto simp: finalize_slot_def and_then_Ok_iff map_err_Ok_iff)
  from ensuresD [OF remove_ensures r] ensuresD [OF sync_directory_ensures d] show ?thesis
    by (simp add: same_except_def)
qed

definition completion_retained :: "'x fin_env_scheme \<Rightarrow> path \<Rightarrow> active_slot_journal \<Rightarrow> world \<Rightarrow> bool" where
  "completion_retained E d j w \<longleftrightarrow>
     (\<forall>c. as_execution_completion j = Some c \<longrightarrow>
        (\<exists>f. build_execution_finalization E j c None True = Inr f \<and> retained E d j f w))"

lemma retain_completion_ok:
  assumes "retain_completion E d j w = (Ok (), w')"
  shows "completion_retained E d j w'"
  using assms
  by (auto simp: completion_retained_def retain_completion_def and_then_Ok_iff lift_result_Ok_iff
      dest: retain_ok split: option.splits)

abbreviation slot_paths :: "path \<Rightarrow> active_slot \<Rightarrow> path set" where
  "slot_paths d s \<equiv> insert (sl_path s) (fin_paths d (as_principal_mapping_identity (sl_journal s)))"

text \<open>
  The store half of a reconciled slot: only its own files change, its file changes only after the
  completion is retained, and it is gone when no failure is reported.
\<close>

definition store_settled ::
  "'x fin_env_scheme \<Rightarrow> path \<Rightarrow> active_slot \<Rightarrow> world \<Rightarrow> bool \<Rightarrow> world \<Rightarrow> bool" where
  "store_settled E d s w gone w' \<longleftrightarrow>
     same_except (slot_paths d s) w w' \<and>
     (node_at w' (sl_path s) \<noteq> node_at w (sl_path s) \<longrightarrow> completion_retained E d (sl_journal s) w') \<and>
     (gone \<longrightarrow> node_at w' (sl_path s) = None \<and> completion_retained E d (sl_journal s) w')"

lemma completion_retained_same:
  "same_except {p} w w' \<Longrightarrow> p \<notin> fin_paths d (as_principal_mapping_identity j) \<Longrightarrow>
   completion_retained E d j w \<Longrightarrow> completion_retained E d j w'"
  unfolding completion_retained_def using retained_same by blast

lemma finish_slot_settled:
  assumes "finish_slot E d failure s m = (r, m')"
    and "sl_path s \<notin> fin_paths d (as_principal_mapping_identity (sl_journal s))"
  shows "m_host m' = m_host m \<and> store_settled E d s (m_world m) (r = Ok None) (m_world m') \<and>
    (failure \<noteq> None \<longrightarrow> r \<noteq> Ok None)"
proof -
  let ?w = "m_world m" and ?j = "sl_journal s"
  obtain q w1 where rt: "retain_completion E d ?j ?w = (q, w1)" by fastforce
  have t1: "same_except (fin_paths d (as_principal_mapping_identity ?j)) ?w w1"
    by (rule touchesD [OF touches_retain_completion rt])
  then have kept: "node_at w1 (sl_path s) = node_at ?w (sl_path s)" using assms(2) by (simp add: same_except_def)
  show ?thesis
  proof (cases "q = Ok ()")
    case True
    obtain z w2 where fin: "finalize_slot s w1 = (z, w2)" by fastforce
    have t2: "same_except {sl_path s} w1 w2" by (rule touchesD [OF touches_finalize fin])
    have "completion_retained E d ?j w1" using rt True by (simp add: retain_completion_ok)
    then have ret: "completion_retained E d ?j w2" by (rule completion_retained_same [OF t2 assms(2)])
    have "same_except (slot_paths d s) ?w w2" by (rule same_except_trans [OF t1 t2]) auto
    moreover have "z = Ok () \<Longrightarrow> node_at w2 (sl_path s) = None" using fin by (simp add: finalize_ok)
    moreover have "m' = m\<lparr>m_world := w2\<rparr>" "r = Ok None \<Longrightarrow> z = Ok () \<and> failure = None"
      using assms(1) rt True fin by (auto simp: finish_slot_def on_world_def split: outcome.splits)
    ultimately show ?thesis using ret by (auto simp: store_settled_def)
  next
    case False
    then have "m' = m\<lparr>m_world := w1\<rparr>" "r \<noteq> Ok None"
      using assms(1) rt by (auto simp: finish_slot_def on_world_def split: outcome.splits)
    moreover have "same_except (slot_paths d s) ?w w1" using t1 by (auto simp: same_except_def)
    ultimately show ?thesis using kept by (auto simp: store_settled_def)
  qed
qed

text \<open>
  The host half: before anything of the slot is removed, its unit was seen to be absent and its
  child to be absent or killed to the end.
\<close>

definition boundary_gone :: "host \<Rightarrow> active_slot_journal \<Rightarrow> hstate \<Rightarrow> hstate \<Rightarrow> bool" where
  "boundary_gone H j h h' \<longleftrightarrow>
     (\<exists>c. as_child j = Some c \<and>
        (\<exists>h1. h_now h \<le> h_now h1 \<and>
           (case as_scope j of
              Some sc \<Rightarrow> seen_absent H (sc_unit_name sc) (h_now h) (h_now h1)
            | None \<Rightarrow> (\<exists>u. scope_unit_name (ch_request_identity c) = Inr u \<and>
                               seen_absent H u (h_now h) (h_now h1))) \<and>
           child_ended H c h1 h'))"

definition slot_settled ::
  "'x fin_env_scheme \<Rightarrow> host \<Rightarrow> path \<Rightarrow> active_slot \<Rightarrow> machine \<Rightarrow> bool \<Rightarrow> machine \<Rightarrow> bool" where
  "slot_settled E H d s m gone m' \<longleftrightarrow>
     store_settled E d s (m_world m) gone (m_world m') \<and>
     (gone \<or> node_at (m_world m') (sl_path s) \<noteq> node_at (m_world m) (sl_path s) \<longrightarrow>
        boundary_gone H (sl_journal s) (m_host m) (m_host m'))"

lemma unsettled: "m_world m' = m_world m \<Longrightarrow> slot_settled E H d s m False m'"
  by (simp add: slot_settled_def store_settled_def)

lemma slot_settled_later:
  assumes "slot_settled E H d s m1 gone m'" and "m_world m1 = m_world m"
    and "boundary_gone H (sl_journal s) (m_host m1) (m_host m') \<Longrightarrow> boundary_gone H (sl_journal s) (m_host m) (m_host m')"
  shows "slot_settled E H d s m gone m'"
  using assms by (auto simp: slot_settled_def)

lemma finish_slot_with_boundary:
  assumes "finish_slot E d failure s m1 = (r, m')" and "m_world m1 = m_world m"
    and "sl_path s \<notin> fin_paths d (as_principal_mapping_identity (sl_journal s))"
    and "boundary_gone H (sl_journal s) (m_host m) (m_host m1)"
  shows "slot_settled E H d s m (r = Ok None) m' \<and> (failure \<noteq> None \<longrightarrow> r \<noteq> Ok None)"
  using finish_slot_settled [OF assms(1,3)] assms(2,4) by (auto simp: slot_settled_def)

lemma terminate_then_finish_settled:
  assumes "terminate_then_finish E H d failure s c m1 = (r, m')" and "m_world m1 = m_world m"
    and "sl_path s \<notin> fin_paths d (as_principal_mapping_identity (sl_journal s))"
    and "\<And>h'. child_ended H c (m_host m1) h' \<Longrightarrow> boundary_gone H (sl_journal s) (m_host m) h'"
  shows "slot_settled E H d s m (r = Ok None) m' \<and> (failure \<noteq> None \<longrightarrow> r \<noteq> Ok None)"
proof -
  obtain q h2 where t: "terminate_recorded_child H c (m_host m1) = (q, h2)" by fastforce
  show ?thesis
  proof (cases "q = Ok ()")
    case True
    with assms(1) t have fin: "finish_slot E d failure s (m1\<lparr>m_host := h2\<rparr>) = (r, m')"
      by (simp add: terminate_then_finish_def on_host_def)
    have "boundary_gone H (sl_journal s) (m_host m) (m_host (m1\<lparr>m_host := h2\<rparr>))"
      using assms(4) terminate_ok [of H c "m_host m1" h2] t True by simp
    from finish_slot_with_boundary [OF fin _ assms(3) this] assms(2) show ?thesis by simp
  next
    case False
    then have "m' = m1\<lparr>m_host := h2\<rparr>" "r \<noteq> Ok None"
      using assms(1) t by (auto simp: terminate_then_finish_def on_host_def split: outcome.splits)
    with assms(2) show ?thesis by (simp add: unsettled)
  qed
qed


lemma boundary_goneI:
  assumes "as_child j = Some c" and "h_now h \<le> h_now h1"
    and "\<And>sc. as_scope j = Some sc \<Longrightarrow> seen_absent H (sc_unit_name sc) (h_now h) (h_now h1)"
    and "as_scope j = None \<Longrightarrow> \<exists>u. scope_unit_name (ch_request_identity c) = Inr u \<and> seen_absent H u (h_now h) (h_now h1)"
    and "child_ended H c h1 h'"
  shows "boundary_gone H j h h'"
  using assms unfolding boundary_gone_def by (cases "as_scope j") auto

lemma absent_scope_settled:
  assumes "reconcile_absent_scope E H d failure s c m1 = (r, m')" and "m_world m1 = m_world m"
    and "sl_path s \<notin> fin_paths d (as_principal_mapping_identity (sl_journal s))"
    and "\<And>h'. child_ended H c (m_host m1) h' \<Longrightarrow> boundary_gone H (sl_journal s) (m_host m) h'"
  shows "slot_settled E H d s m (r = Ok None) m' \<and> (failure \<noteq> None \<longrightarrow> r \<noteq> Ok None)"
proof -
  obtain l h2 where live: "recorded_child_is_live_exact H c (m_host m1) = (l, h2)" by fastforce
  show ?thesis
  proof (cases "l = Ok False")
    case True
    with assms(1) live have fin: "finish_slot E d failure s (m1\<lparr>m_host := h2\<rparr>) = (r, m')"
      by (simp add: reconcile_absent_scope_def on_host_def)
    have "child_ended H c (m_host m1) h2"
      using live_exact_run [OF live] True by (auto simp: child_ended_def)
    then have "boundary_gone H (sl_journal s) (m_host m) (m_host (m1\<lparr>m_host := h2\<rparr>))" using assms(4) by simp
    from finish_slot_with_boundary [OF fin _ assms(3) this] assms(2) show ?thesis by simp
  next
    case False
    then have "m_world m' = m_world m1" "r \<noteq> Ok None"
      using assms(1) live
      by (auto simp: reconcile_absent_scope_def on_host_def split: outcome.splits prod.splits if_splits)
    with assms(2) show ?thesis by (simp add: unsettled)
  qed
qed

lemma reconcile_slot_settled:
  assumes "reconcile_slot E H rounds d failure s m = (r, m')"
    and "sl_path s \<notin> fin_paths d (as_principal_mapping_identity (sl_journal s))"
  shows "slot_settled E H d s m (r = Ok None) m' \<and> (failure \<noteq> None \<longrightarrow> r \<noteq> Ok None)"
proof (cases "as_child (sl_journal s)")
  case None
  with assms(1) show ?thesis by (auto simp: reconcile_slot_def unsettled split: if_splits)
next
  case child: (Some c)
  show ?thesis
  proof (cases "as_scope (sl_journal s)")
    case scope: (Some sc)
    obtain q h1 where st: "stop_and_confirm_empty_inner E H rounds sc c (m_host m) = (q, h1)" by fastforce
    have mono: "h_now (m_host m) \<le> h_now h1"
      using stop_and_confirm_run [OF st] by (simp add: stops_only_justified_def)
    have gone: "boundary_gone H (sl_journal s) (m_host m) h'"
      if "child_ended H c h1 h'" "seen_absent H (sc_unit_name sc) (h_now (m_host m)) (h_now h1)" for h'
      by (rule boundary_goneI [OF child mono _ _ that(1)]) (use that scope in auto)
    consider (ok) "q = Ok ()" | (absent) "q = Err ScopeAbsent" | (other) "r \<noteq> Ok None" "m_world m' = m_world m"
      using assms(1) st child scope
      by (cases q) (auto simp: reconcile_slot_def on_host_def split: if_splits)
    then show ?thesis
    proof cases
      case ok
      with assms(1) st child scope have fin: "terminate_then_finish E H d failure s c (m\<lparr>m_host := h1\<rparr>) = (r, m')"
        by (simp add: reconcile_slot_def on_host_def)
      have "seen_absent H (sc_unit_name sc) (h_now (m_host m)) (h_now h1)"
        using stop_and_confirm_run [OF st] ok by (auto intro: seen_gone_absent)
      with gone show ?thesis by (intro terminate_then_finish_settled [OF fin _ assms(2)]) simp_all
    next
      case absent
      with assms(1) st child scope have fin: "reconcile_absent_scope E H d failure s c (m\<lparr>m_host := h1\<rparr>) = (r, m')"
        by (simp add: reconcile_slot_def on_host_def)
      have "seen_absent H (sc_unit_name sc) (h_now (m_host m)) (h_now h1)"
        using stop_and_confirm_absent st absent by simp
      with gone show ?thesis by (intro absent_scope_settled [OF fin _ assms(2)]) simp_all
    next
      case other
      then show ?thesis by (simp add: unsettled)
    qed
  next
    case scope: None
    obtain q h1 where st: "recover_unrecorded_scope E H rounds (ch_invocation_id c) (ch_request_identity c) c (m_host m) = (q, h1)"
      by fastforce
    note rec = recover_unrecorded_run [OF st]
    show ?thesis
    proof (cases "q = Ok ()")
      case True
      with assms(1) st child scope have fin: "terminate_then_finish E H d failure s c (m\<lparr>m_host := h1\<rparr>) = (r, m')"
        by (simp add: reconcile_slot_def on_host_def)
      have "boundary_gone H (sl_journal s) (m_host m) h'" if "child_ended H c h1 h'" for h'
        by (rule boundary_goneI [OF child _ _ _ that]) (use rec True scope in \<open>auto simp: seen_absent_def\<close>)
      then show ?thesis by (intro terminate_then_finish_settled [OF fin _ assms(2)]) simp_all
    next
      case False
      then have "r \<noteq> Ok None" "m_world m' = m_world m"
        using assms(1) st child scope by (cases q; auto simp: reconcile_slot_def on_host_def)+
      then show ?thesis by (simp add: unsettled)
    qed
  qed
qed



section \<open>Slots of one store\<close>

definition slots_apart :: "path \<Rightarrow> path \<Rightarrow> active_slot list \<Rightarrow> bool" where
  "slots_apart d sd ss \<longleftrightarrow> sd \<noteq> d \<and>
     distinct (map (as_principal_mapping_identity \<circ> sl_journal) ss) \<and>
     (\<forall>s\<in>set ss. slot_at sd (sl_path s) (sl_journal s))"

lemma fin_paths_join: "p \<in> fin_paths d m \<Longrightarrow> \<exists>n. p = path_join d n"
  by (auto simp: fin_paths_def journal_path_def split: option.splits if_splits)

lemma fin_paths_inj: "p \<in> fin_paths d m \<Longrightarrow> p \<in> fin_paths d m' \<Longrightarrow> m = m'"
  by (auto simp: fin_paths_def journal_path_def strip_prefix_Some split: option.splits if_splits)

lemma slot_at_join: "slot_at sd p j \<Longrightarrow> \<exists>n. p = path_join sd n"
  by (auto simp: slot_at_def slot_path_def split: if_splits)

lemma slot_path_inj: "slot_path sd m = Inr p \<Longrightarrow> slot_path sd m' = Inr p \<Longrightarrow> m = m'"
  by (auto simp: slot_path_def is_sha256_identity_iff split: if_splits)

lemma apart_store:
  assumes "slots_apart d sd ss" and "s \<in> set ss"
  shows "sl_path s \<notin> fin_paths d m"
  using assms slot_at_join [of sd "sl_path s" "sl_journal s"] fin_paths_join [of "sl_path s" d m]
  by (auto simp: slots_apart_def path_join_def)

lemma apart_others:
  assumes "slots_apart d sd (s # ss)" and "t \<in> set ss"
  shows "slot_paths d s \<inter> slot_paths d t = {}"
proof -
  let ?m = "\<lambda>x. as_principal_mapping_identity (sl_journal x)"
  have ne: "?m s \<noteq> ?m t" using assms by (auto simp: slots_apart_def image_iff)
  have "sl_path s \<noteq> sl_path t"
    using assms ne slot_path_inj [of sd "?m s" "sl_path s" "?m t"] by (auto simp: slots_apart_def slot_at_def)
  moreover have "sl_path s \<notin> fin_paths d (?m t)" "sl_path t \<notin> fin_paths d (?m s)"
    by (rule apart_store [OF assms(1)]; use assms(2) in simp)+
  moreover have "fin_paths d (?m s) \<inter> fin_paths d (?m t) = {}" using ne fin_paths_inj by blast
  ultimately show ?thesis by blast
qed

lemma settled_kept:
  assumes "same_except S w w'" and "S \<inter> slot_paths d s = {}"
    and "node_at w (sl_path s) = None \<and> completion_retained E d (sl_journal s) w"
  shows "node_at w' (sl_path s) = None \<and> completion_retained E d (sl_journal s) w'"
proof -
  have "retained E d (sl_journal s) f w'" if "retained E d (sl_journal s) f w" for f
    using that assms(1,2) by (fastforce simp: retained_def fin_on_disk_def same_except_def fin_paths_def)
  with assms show ?thesis unfolding completion_retained_def by (auto simp: same_except_def)
qed

lemma reconcile_slots_ok:
  assumes "reconcile_slots E H rounds d ss failure m = (Ok (), m')" and "slots_apart d sd ss"
  shows "failure = None \<and> same_except (\<Union>s\<in>set ss. slot_paths d s) (m_world m) (m_world m') \<and>
    (\<forall>s\<in>set ss. node_at (m_world m') (sl_path s) = None \<and> completion_retained E d (sl_journal s) (m_world m'))"
  using assms
proof (induction ss arbitrary: failure m)
  case Nil
  then show ?case by (auto split: option.splits)
next
  case (Cons s ss)
  from Cons.prems(1) obtain f m1 where one: "reconcile_slot E H rounds d failure s m = (Ok f, m1)"
    and rest: "reconcile_slots E H rounds d ss f m1 = (Ok (), m')"
    by (auto simp: and_then_Ok_iff)
  have "slots_apart d sd ss" using Cons.prems(2) by (simp add: slots_apart_def)
  note IH = Cons.IH [OF rest this]
  have "sl_path s \<notin> fin_paths d (as_principal_mapping_identity (sl_journal s))"
    by (rule apart_store [OF Cons.prems(2)]) simp
  note st = reconcile_slot_settled [OF one this]
  from st IH have w1: "node_at (m_world m1) (sl_path s) = None \<and> completion_retained E d (sl_journal s) (m_world m1)"
    and s1: "same_except (slot_paths d s) (m_world m) (m_world m1)"
    by (auto simp: slot_settled_def store_settled_def)
  have apart: "(\<Union>t\<in>set ss. slot_paths d t) \<inter> slot_paths d s = {}"
    using apart_others [OF Cons.prems(2)] by blast
  have "node_at (m_world m') (sl_path s) = None \<and> completion_retained E d (sl_journal s) (m_world m')"
    by (rule settled_kept [OF _ apart w1]) (use IH in blast)
  moreover have "same_except (\<Union>t\<in>set (s # ss). slot_paths d t) (m_world m) (m_world m')"
    by (rule same_except_trans [OF s1, of "\<Union>t\<in>set ss. slot_paths d t"]) (use IH in auto)
  ultimately show ?case using IH st by auto
qed



section \<open>Properties of the reconciliation\<close>

text \<open>
  C12. Nothing of a slot is removed early. When the service reconciles a slot left by a previous
  process, under any answers of systemd and the kernel, any I/O faults and a crash at any point,
  only files of that slot's principal change; the file of the slot changes only after the unit
  of the invocation was seen to be absent, its child to be absent or killed to the end, and, when
  the slot holds a completion, a finalization of exactly that completion is on disk for the same
  principal, request and working directory. A slot that never recorded a child is kept as it is.
\<close>

theorem reconcile_removes_only_settled:
  assumes "reconcile_slot E H rounds d failure s m = (r, m')" and "slots_apart d sd [s]"
  shows "same_except (slot_paths d s) (m_world m) (m_world m') \<and>
    (node_at (m_world m') (sl_path s) \<noteq> node_at (m_world m) (sl_path s) \<longrightarrow>
       boundary_gone H (sl_journal s) (m_host m) (m_host m') \<and>
       completion_retained E d (sl_journal s) (m_world m')) \<and>
    (as_child (sl_journal s) = None \<longrightarrow> \<not> (r = Ok None) \<and> m_world m' = m_world m)"
proof -
  have "sl_path s \<notin> fin_paths d (as_principal_mapping_identity (sl_journal s))"
    by (rule apart_store [OF assms(2)]) simp
  from reconcile_slot_settled [OF assms(1) this]
  have "slot_settled E H d s m (r = Ok None) m'" by simp
  moreover have "as_child (sl_journal s) = None \<longrightarrow> \<not> (r = Ok None) \<and> m_world m' = m_world m"
    using assms(1) by (auto simp: reconcile_slot_def split: if_splits)
  ultimately show ?thesis by (auto simp: slot_settled_def store_settled_def)
qed

text \<open>
  C13. A successful reconciliation is complete. If the loop over the loaded slots ends without error,
  then every slot file is gone, and for every slot that held a completion a finalization of
  exactly that completion is on disk.
\<close>

theorem reconcile_ok_complete:
  assumes "reconcile_loaded_slots_with_completion E H rounds d ss m = (Ok (), m')" and "slots_apart d sd ss"
  shows "\<forall>s\<in>set ss. node_at (m_world m') (sl_path s) = None \<and>
    completion_retained E d (sl_journal s) (m_world m')"
  using reconcile_slots_ok [of E H rounds d ss None m m' sd] assms
  by (simp add: reconcile_loaded_slots_with_completion_def)

text \<open>What a second finalization of the same completion is compared with.\<close>

lemma recovered_differs:
  assumes "build_execution_finalization P j c observed False = Inr f"
    and "build_execution_finalization P j c' observed' True = Inr f'"
  shows "f' \<noteq> f"
proof -
  have "ef_schema_version f = 1" "ef_schema_version f' = 2"
    using assms by (auto simp: build_execution_finalization_def finalization_of_def Let_def split: option.splits)
  then show ?thesis by auto
qed

lemma finish_slot_refused:
  assumes "as_execution_completion (sl_journal s) = Some c"
    and "build_execution_finalization E (sl_journal s) c observed False = Inr f"
    and "load_for_principal E d 0 (as_principal_mapping_identity (sl_journal s)) w = (Ok (Some h), w)"
    and "fj_finalization (fh_journal h) = f" and "m_world m = w"
  shows "finish_slot E d failure s m = (Ok (Some FinalizationUnavailable), m)"
proof -
  have "\<exists>e. retain_completion E d (sl_journal s) w = (Err e, w)"
  proof (cases "build_execution_finalization E (sl_journal s) c None True")
    case (Inl e)
    with assms(1) show ?thesis by (simp add: retain_completion_def and_then_def)
  next
    case (Inr f')
    with recovered_differs [OF assms(2)] assms(1,3,4) show ?thesis
      by (auto simp: retain_completion_def and_then_def retain_finalization_intent_def map_err_def)
  qed
  with assms(5) show ?thesis by (auto simp: finish_slot_def on_world_def)
qed

text \<open>
  C14. A crash between retaining the finalization of a finished execution and removing its slot is
  not recovered. The finalization retained by the running service and the one rebuilt after a
  restart differ in schema version and exit posture, so \<open>retain_finalization_intent\<close> refuses its
  own journal: with the slot and that journal on disk, every reconciliation fails, whatever the
  host answers and without any fault, and leaves every file as it was.
\<close>

theorem interrupted_after_intent_is_stuck:
  assumes "as_execution_completion (sl_journal s) = Some c"
    and "build_execution_finalization E (sl_journal s) c observed False = Inr f"
    and "load_for_principal E d 0 (as_principal_mapping_identity (sl_journal s)) (m_world m) = (Ok (Some h), m_world m)"
    and "fj_finalization (fh_journal h) = f"
    and "reconcile_loaded_slots_with_completion E H rounds d [s] m = (r, m')"
  shows "\<not> is_Ok r \<and> m_world m' = m_world m"
proof -
  have fin: "finish_slot E d failure s (m\<lparr>m_host := h\<rparr>) = (Ok (Some FinalizationUnavailable), m\<lparr>m_host := h\<rparr>)"
    for failure h
    by (rule finish_slot_refused [OF assms(1-4)]) simp
  have ended: "terminate_then_finish E H d failure s c' (m\<lparr>m_host := h\<rparr>) = (q, m2) \<Longrightarrow>
      q \<noteq> Ok None \<and> m_world m2 = m_world m" for failure c' h q m2
    by (auto simp: terminate_then_finish_def on_host_def fin split: prod.splits outcome.splits)
  have absent: "reconcile_absent_scope E H d failure s c' (m\<lparr>m_host := h\<rparr>) = (q, m2) \<Longrightarrow>
      q \<noteq> Ok None \<and> m_world m2 = m_world m" for failure c' h q m2
    by (auto simp: reconcile_absent_scope_def on_host_def fin split: prod.splits outcome.splits if_splits)
  obtain q m2 where one: "reconcile_slot E H rounds d None s m = (q, m2)" by fastforce
  then have "q \<noteq> Ok None \<and> m_world m2 = m_world m"
    by (auto simp: reconcile_slot_def on_host_def split: option.splits prod.splits outcome.splits if_splits
        dest: ended absent)
  with one assms(5) show ?thesis
    by (cases q) (auto simp: reconcile_loaded_slots_with_completion_def and_then_def split: option.splits)
qed


text \<open>A host on which the unit is gone and its control group is not empty.\<close>

definition scope_left_behind :: "host \<Rightarrow> systemd_scope \<Rightarrow> child_process \<Rightarrow> bool" where
  "scope_left_behind H sc c \<longleftrightarrow>
     (\<forall>t. bus_proxy H t \<and>
        bus_get_unit H t (sc_unit_name sc) = MethodError ''org.freedesktop.systemd1.NoSuchUnit'' \<and>
        \<not> cgroup_is_empty_or_absent_at H (sc_control_group sc) t \<and>
        proc_stat H t (as_pid_t (ch_pid c)) = None \<and> \<not> proc_dir H t (ch_pid c))"

lemma left_behind_absent:
  assumes "scope_left_behind H sc c" and "verify_recorded_scope_binding P sc c = Inr ()"
  shows "fst (stop_and_confirm_empty_inner P H rounds sc c h) = Err ScopeAbsent"
    and "fst (recorded_child_is_live_exact H c h) = Ok False"
proof -
  have obs: "observe_existing_scope H (sc_unit_name sc) h = (Err ScopeAbsent, h\<lparr>h_now := Suc (Suc (h_now h))\<rparr>)" for h
    using assms(1) by (simp add: observe_existing_scope_def manager_proxy_def require_def get_unit_def and_then_def
        scope_left_behind_def)
  have live: "recorded_child_is_live_exact H c h = (Ok False, h\<lparr>h_now := Suc (Suc (h_now h))\<rparr>)" for h
    using assms(1) by (simp add: recorded_child_is_live_exact_def process_start_identity_def and_then_def
        scope_left_behind_def)
  show "fst (recorded_child_is_live_exact H c h) = Ok False" by (simp add: live)
  show "fst (stop_and_confirm_empty_inner P H rounds sc c h) = Err ScopeAbsent"
    using assms
    by (simp add: stop_and_confirm_empty_inner_def scope_is_terminal_def stop_if_exact_and_empty_def
        cleanup_observation_def and_then_def live_exact_def map_err_def obs live cgroup_is_empty_or_absent_def
        scope_left_behind_def)
qed

text \<open>
  C15. A recovered finalization may claim an empty control group that was never seen empty. When the
  unit of the invocation is gone but its control group still holds a process at every moment,
  and the recorded child itself is gone, stopping the scope reports \<open>ScopeAbsent\<close>; the slot is
  then removed and, for a completed execution, the retained finalization states
  \<open>cgroup_empty_or_absent\<close>.
\<close>

theorem settled_without_empty_cgroup:
  assumes "as_child (sl_journal s) = Some c" and "as_scope (sl_journal s) = Some sc"
    and "verify_recorded_scope_binding E sc c = Inr ()" and "scope_left_behind H sc c"
    and "retain_completion E d (sl_journal s) (m_world m) = (Ok (), w1)" and "finalize_slot s w1 = (Ok (), w2)"
    and "sl_path s \<notin> fin_paths d (as_principal_mapping_identity (sl_journal s))"
  shows "fst (reconcile_slot E H rounds d None s m) = Ok None \<and>
    node_at (m_world (snd (reconcile_slot E H rounds d None s m))) (sl_path s) = None \<and>
    (\<forall>x. as_execution_completion (sl_journal s) = Some x \<longrightarrow>
       (\<exists>f. retained E d (sl_journal s) f (m_world (snd (reconcile_slot E H rounds d None s m))) \<and>
            ef_completion f = x \<and> ef_cgroup_empty_or_absent f))"
proof -
  obtain h1 where stop: "stop_and_confirm_empty_inner E H rounds sc c (m_host m) = (Err ScopeAbsent, h1)"
    using left_behind_absent(1) [OF assms(4,3), of rounds "m_host m"] by (metis prod.collapse)
  obtain h2 where live: "recorded_child_is_live_exact H c h1 = (Ok False, h2)"
    using left_behind_absent(2) [OF assms(4,3), of h1] by (metis prod.collapse)
  have run: "reconcile_slot E H rounds d None s m = (Ok None, m\<lparr>m_host := h2, m_world := w2\<rparr>)"
    using assms(1,2,5,6) stop live
    by (simp add: reconcile_slot_def reconcile_absent_scope_def finish_slot_def on_host_def on_world_def)
  have "completion_retained E d (sl_journal s) w2"
    by (rule completion_retained_same [OF touchesD [OF touches_finalize assms(6)] assms(7) retain_completion_ok [OF assms(5)]])
  moreover have "build_execution_finalization E (sl_journal s) x None True = Inr f \<Longrightarrow>
      ef_completion f = x \<and> ef_cgroup_empty_or_absent f" for x f
    by (auto simp: build_execution_finalization_def finalization_of_def Let_def split: option.splits)
  ultimately show ?thesis
    using run finalize_ok [OF assms(6)] by (fastforce simp: completion_retained_def)
qed



section \<open>A concrete restart\<close>

text \<open>A machine after a reboot, with one completed slot and an empty finalization store.\<close>

definition rebooted_host :: host where
  "rebooted_host = quiet_host\<lparr>proc_stat := (\<lambda>_ _. None), proc_dir := (\<lambda>_ _. False)\<rparr>"

definition littered_host :: host where
  "littered_host = rebooted_host\<lparr>cgroup_exists := (\<lambda>_ _. True), cgroup_read := (\<lambda>_ _. Some (''43'' @ [CHR 0x0A]))\<rparr>"

definition completed_slot :: active_slot where
  "completed_slot = sample_slot ExecutionCompletionRecorded"

definition restart :: "(path \<times> fnode) list \<Rightarrow> machine" where
  "restart fs = \<lparr>m_world = \<lparr>w_files = [([RootDir], sample_dir_node), (sample_store, sample_dir_node),
       (sample_fin_store, sample_dir_node), (sample_slot_path, sample_file ExecutionCompletionRecorded)] @ fs,
     w_euid = 0, w_faults = []\<rparr>, m_host = quiet_start\<rparr>"

definition restart_reconcile :: "(systemd_service_error, unit) outcome \<times> machine" where
  "restart_reconcile = reconcile_loaded_slots_with_completion sample_fin_env rebooted_host 5 sample_fin_store
     [completed_slot] (restart [])"

lemma completed_slot_apart: "slots_apart sample_fin_store sample_store [completed_slot]"
  by code_simp

theorem reconcile_ok_complete_witness:
  "fst restart_reconcile = Ok () \<and>
   completion_retained sample_fin_env sample_fin_store (sl_journal completed_slot) (m_world (snd restart_reconcile))"
proof -
  have "fst restart_reconcile = Ok ()" by code_simp
  then have "reconcile_loaded_slots_with_completion sample_fin_env rebooted_host 5 sample_fin_store
     [completed_slot] (restart []) = (Ok (), snd restart_reconcile)"
    unfolding restart_reconcile_def by (metis prod.collapse)
  from reconcile_ok_complete [OF this completed_slot_apart] \<open>fst restart_reconcile = Ok ()\<close> show ?thesis by simp
qed

theorem reconcile_removes_only_settled_witness:
  "boundary_gone rebooted_host (sl_journal completed_slot) quiet_start
     (m_host (snd (reconcile_slot sample_fin_env rebooted_host 5 sample_fin_store None completed_slot (restart []))))"
proof -
  let ?run = "reconcile_slot sample_fin_env rebooted_host 5 sample_fin_store None completed_slot (restart [])"
  have changed: "node_at (m_world (snd ?run)) (sl_path completed_slot) = None"
    "node_at (m_world (restart [])) (sl_path completed_slot) \<noteq> None" "m_host (restart []) = quiet_start"
    by code_simp+
  have "?run = (fst ?run, snd ?run)" by simp
  from reconcile_removes_only_settled [OF this completed_slot_apart] changed show ?thesis by simp
qed

theorem interrupted_after_intent_is_stuck_witness:
  "\<not> is_Ok (fst (reconcile_loaded_slots_with_completion sample_fin_env rebooted_host 5 sample_fin_store
       [completed_slot] (restart [(sample_fin_path, sample_fin_node FinIntent)])))"
proof -
  let ?m = "restart [(sample_fin_path, sample_fin_node FinIntent)]"
  let ?run = "reconcile_loaded_slots_with_completion sample_fin_env rebooted_host 5 sample_fin_store [completed_slot] ?m"
  have calm: "no_faults (m_world ?m) = m_world ?m" by (simp add: restart_def no_faults_def)
  have path: "journal_path sample_fin_store (digest CHR ''a'') = Inr sample_fin_path" by code_simp
  have store: "fin_store_ok sample_fin_store 0 (m_world ?m)" by code_simp
  have node: "node_at (m_world ?m) sample_fin_path = Some (sample_fin_node FinIntent)" by code_simp
  then have at: "fin_at sample_fin_env (sample_fin_journal FinIntent) (m_world ?m) sample_fin_path"
    by (simp add: fin_at_def restart_def sample_fin_node_def sample_fin_env_def slot_env.defs fin_env.defs)
  have ident: "finalization_journal_identity sample_fin_env (sample_fin_journal FinIntent)
      = Inr (fj_identity (sample_fin_journal FinIntent))"
    and key: "fj_principal_mapping_identity (sample_fin_journal FinIntent) = digest CHR ''a''" by code_simp+
  have load: "load_for_principal sample_fin_env sample_fin_store 0 (digest CHR ''a'') (m_world ?m) =
      (Ok (Some (sample_fin_handle FinIntent)), m_world ?m)"
    using load_for_principal_at [OF store path at sample_fin_codec ident key]
    unfolding calm sample_fin_handle_def by simp
  have slot: "as_execution_completion (sl_journal completed_slot) = Some sample_completion"
    "build_execution_finalization sample_fin_env (sl_journal completed_slot) sample_completion (Some 0) False
      = Inr sample_finalization"
    "as_principal_mapping_identity (sl_journal completed_slot) = digest CHR ''a''"
    "fj_finalization (fh_journal (sample_fin_handle FinIntent)) = sample_finalization"
    by code_simp+
  have "?run = (fst ?run, snd ?run)" by simp
  from interrupted_after_intent_is_stuck [OF slot(1,2) _ slot(4) this] load slot(3) show ?thesis by simp
qed

theorem settled_without_empty_cgroup_witness:
  "fst (reconcile_slot sample_fin_env littered_host 5 sample_fin_store None completed_slot (restart [])) = Ok None"
proof -
  let ?w = "m_world (restart [])"
  let ?rt = "retain_completion sample_fin_env sample_fin_store (sl_journal completed_slot) ?w"
  have rt: "?rt = (Ok (), snd ?rt)" by code_simp
  have fs: "finalize_slot completed_slot (snd ?rt) = (Ok (), snd (finalize_slot completed_slot (snd ?rt)))"
    by code_simp
  have slot: "as_child (sl_journal completed_slot) = Some sample_child"
    "as_scope (sl_journal completed_slot) = Some sample_scope"
    "verify_recorded_scope_binding sample_fin_env sample_scope sample_child = Inr ()" by code_simp+
  have "\<not> cgroup_is_empty_or_absent_at littered_host (sc_control_group sample_scope) t" for t
  proof -
    have "cgroup_path (sc_control_group sample_scope) \<noteq> None"
      "parse_all (text_lines (''43'' @ [CHR 0x0A])) = Some [43]" by code_simp+
    then show ?thesis by (auto simp: cgroup_is_empty_or_absent_at_def cgroup_pids_at_def littered_host_def)
  qed
  then have "scope_left_behind littered_host sample_scope sample_child"
    by (simp add: scope_left_behind_def littered_host_def rebooted_host_def quiet_host_def)
  moreover have "sl_path completed_slot \<notin> fin_paths sample_fin_store
      (as_principal_mapping_identity (sl_journal completed_slot))"
    by (rule apart_store [OF completed_slot_apart]) simp
  ultimately show ?thesis
    using settled_without_empty_cgroup [OF slot _ rt fs] by blast
qed

end
