(* ===== verification/Wire.thy ===== *)
theory Wire
  imports Finalization_Journal
begin

text \<open>
  The sockets of the launcher and what it sends over them: the messages it constructs or relays,
  the frame readers and writers of \<open>src/prepared_child.rs\<close> and \<open>src/systemd_service.rs\<close>, and the
  state they run in. The frame codec, the JSON codec, the identity functions and the string
  constants of the protocol crate are fields of \<open>wire_env\<close>.

  Every read of a socket is an event the peer and the kernel choose. Every message handed to a
  socket is logged with the file system of that moment, whether or not the write succeeds, so that
  a statement about the log is a statement about everything a peer may have seen.
\<close>


section \<open>Messages\<close>

record persistence_notice =
  pn_schema_version :: nat
  pn_identity :: string
  pn_message_kind :: string
  pn_subject_identity :: string

record startup_continuation =
  st_schema_version :: nat
  st_identity :: string
  st_message_kind :: string
  st_invocation_id :: string
  st_launcher_request_identity :: string
  st_child_process_identity :: string
  st_working_directory_identity :: string
  st_process_posture_identity :: string
  st_principal_mapping_identity :: string

record process_posture =
  po_identity :: string
  po_pid :: nat
  po_process_start_time_identity :: string
  po_ota_binary_identity :: string
  po_principal_mapping_identity :: string
  po_rest :: string

record broker_challenge =
  bc_message_kind :: string
  bc_protocol_version :: string
  bc_binding_identity :: string
  bc_nonce_commitment :: string
  bc_work_unit_identity :: string
  bc_contract_identity :: string
  bc_semantic_scope_identity :: string
  bc_rest :: string

record attestation =
  at_message_kind :: string
  at_protocol_version :: string
  at_binding_identity :: string
  at_challenge_nonce_commitment :: string
  at_work_unit_identity :: string
  at_semantic_scope_identity :: string
  at_invocation_id :: string
  at_runner_principal :: string
  at_child_process_identity :: string
  at_working_directory_identity :: string
  at_process_posture_identity :: string
  at_principal_mapping_identity :: string
  at_rest :: string

datatype output_stream = Stdout | Stderr

record output_frame =
  of_message_kind :: string
  of_protocol_version :: string
  of_invocation_id :: string
  of_sequence :: "64 word"
  of_stream :: output_stream
  of_payload :: string

record signed_finalization_frame =
  sff_message_kind :: string
  sff_protocol_version :: string
  sff_invocation_id :: string
  sff_signed_finalization :: signed_finalization

record archive_response =
  rs_schema_version :: nat
  rs_message_kind :: string
  rs_response_identity :: string
  rs_request_identity :: string
  rs_invocation_id :: string
  rs_sidecar_file_name :: "string option"
  rs_sidecar :: sidecar

text \<open>A \<open>serde_json::Value\<close>: an object keeps its members in a map.\<close>

datatype json =
    JNull | JBool bool | JNumber string | JString string | JArray "json list"
  | JObject "(string \<times> json) list"

definition json_message_kind :: "json \<Rightarrow> string option" where
  "json_message_kind v =
     (case v of
        JObject ms \<Rightarrow> (case map_of ms ''message_kind'' of Some (JString k) \<Rightarrow> Some k | _ \<Rightarrow> None)
      | _ \<Rightarrow> None)"

text \<open>
  What leaves the launcher. Each persistence notice names what is on disk; the last constructor is
  the sidecar file that is put into the repository of the client.
\<close>

datatype message =
    ContinuationMsg startup_continuation
  | AttestationMsg attestation
  | AuthorizationMsg authorization_request
  | DecisionMsg "decision_payload signed_message"
  | LeaseMsg "lease_payload signed_message"
  | IntentPersistenceMsg persistence_notice
  | ConsumeRequestMsg consume_request
  | ConsumeResponseMsg "consume_response_payload signed_message"
  | ConsumptionPersistenceMsg persistence_notice
  | CapabilityMsg json
  | PreludeMsg json
  | SnapshotMsg json
  | BindingMsg json
  | CompletionPersistenceMsg persistence_notice
  | OutputMsg output_frame
  | SignedFinalizationMsg signed_finalization_frame
  | ArchiveResponseMsg archive_response
  | TerminalMsg terminal_frame
  | SidecarFileMsg sidecar


section \<open>The protocol crate and the JSON codec\<close>

text \<open>
  \<open>protocol_constant E n\<close> is the value of the crate's string constant named \<open>n\<close>; \<open>request_from_value E t v\<close>
  is \<open>serde_json::from_value\<close> at the request type named \<open>t\<close>.
\<close>

record wire_env = fin_env +
  protocol_constant :: "string \<Rightarrow> string"
  max_frame_bytes :: nat
  encode_frame :: "string \<Rightarrow> string option"
  decode_frame :: "string \<Rightarrow> string option"
  message_to_vec :: "message \<Rightarrow> string option"
  message_identity :: "string \<Rightarrow> message \<Rightarrow> string option"
  posture_from_slice :: "string \<Rightarrow> process_posture option"
  challenge_from_slice :: "string \<Rightarrow> broker_challenge option"
  authorization_from_slice :: "string \<Rightarrow> authorization_request option"
  decision_from_slice :: "string \<Rightarrow> decision_payload signed_message option"
  decision_admission_from_slice :: "string \<Rightarrow> decision_admission option"
  lease_from_slice :: "string \<Rightarrow> lease_payload signed_message option"
  consume_request_from_slice :: "string \<Rightarrow> consume_request option"
  consume_response_from_slice :: "string \<Rightarrow> consume_response_payload signed_message option"
  lease_admission_from_slice :: "string \<Rightarrow> lease_admission option"
  value_from_slice :: "string \<Rightarrow> json option"
  request_from_value :: "string \<Rightarrow> json \<Rightarrow> json option"
  completion_from_value :: "json \<Rightarrow> completion option"
  archive_request_from_slice :: "string \<Rightarrow> archive_request option"
  archive_persistence_from_slice :: "string \<Rightarrow> archive_persistence option"
  terminal_persistence_from_slice :: "string \<Rightarrow> terminal_persistence option"
  ota_process_posture_identity :: "process_posture \<Rightarrow> string option"
  launcher_startup_continuation_identity :: "startup_continuation \<Rightarrow> string option"
  launcher_attestation_identity_v3 :: "attestation \<Rightarrow> string option"
  authorization_decision_admission_v1_identity :: "decision_admission \<Rightarrow> string option"
  lease_consumption_intent_persistence_v1_identity :: "persistence_notice \<Rightarrow> string option"
  lease_consumption_admission_v1_identity :: "lease_admission \<Rightarrow> string option"
  lease_consumption_persistence_v1_identity :: "persistence_notice \<Rightarrow> string option"
  launcher_execution_completion_persistence_v1_identity :: "persistence_notice \<Rightarrow> string option"
  launcher_finalization_archive_response_v1_identity :: "archive_response \<Rightarrow> string option"
  max_launcher_output_payload_bytes :: nat
  validate_launcher_output_frame_v1 :: "output_frame \<Rightarrow> bool"
  validate_signed_finalization_frame_v1 :: "signed_finalization_frame \<Rightarrow> bool"
  validate_launcher_terminal_frame_v1 :: "terminal_frame \<Rightarrow> bool"


section \<open>Sockets\<close>

text \<open>
  A read returns some bytes, is interrupted, or fails (an error, or the deadline has passed). The
  end of the list is the end of the stream, as is a read of no bytes.
\<close>

datatype read_event = Bytes string | ReadInterrupted | ReadFailed

datatype party = Child | Broker | Client | Repository

record wire =
  wi_in :: "party \<Rightarrow> read_event list"
  wi_writes :: "bool list"
  wi_sent :: "(party \<times> message \<times> world) list"
  wi_world :: world

text \<open>\<open>read_exact\<close> and \<open>read_exact_until\<close>: read until the buffer of \<open>n\<close> bytes is full.\<close>

fun read_exact_until :: "nat \<Rightarrow> read_event list \<Rightarrow> string option \<times> read_event list" where
  "read_exact_until 0 es = (Some [], es)"
| "read_exact_until (Suc n) [] = (None, [])"
| "read_exact_until (Suc n) (ReadFailed # es) = (None, es)"
| "read_exact_until (Suc n) (ReadInterrupted # es) = read_exact_until (Suc n) es"
| "read_exact_until (Suc n) (Bytes bs # es) =
     (if bs = [] then (None, es)
      else if length bs \<le> Suc n
      then (case read_exact_until (Suc n - length bs) es of
              (Some rest, es') \<Rightarrow> (Some (bs @ rest), es')
            | (None, es') \<Rightarrow> (None, es'))
      else (Some (take (Suc n) bs), Bytes (drop (Suc n) bs) # es))"

definition from_be_bytes :: "string \<Rightarrow> nat" where
  "from_be_bytes bs = foldl (\<lambda>n c. 256 * n + of_char c) 0 bs"

definition read_from :: "party \<Rightarrow> nat \<Rightarrow> 'e \<Rightarrow> ('w wire_scheme, 'e, string) proc" where
  "read_from p n e s =
     (case read_exact_until n (wi_in s p) of
        (Some bs, es) \<Rightarrow> (Ok bs, s\<lparr>wi_in := (wi_in s)(p := es)\<rparr>)
      | (None, es) \<Rightarrow> (Err e, s\<lparr>wi_in := (wi_in s)(p := es)\<rparr>))"

text \<open>A header of four bytes, a length that is neither zero nor too large, and the payload.\<close>

definition read_frame :: "'x wire_env_scheme \<Rightarrow> party \<Rightarrow> 'e \<Rightarrow> ('w wire_scheme, 'e, string \<times> string) proc" where
  "read_frame E p e =
     and_then (read_from p 4 e) (\<lambda>header.
       let n = from_be_bytes header in
       if n = 0 \<or> n > max_frame_bytes E then throw e
       else and_then (read_from p n e) (\<lambda>payload. ret (header, payload)))"

text \<open>
  The readers differ in their errors and in whether they pass the frame through \<open>decode_frame\<close>.
\<close>

definition decoded :: "'e \<Rightarrow> 'a option \<Rightarrow> ('w, 'e, 'a) proc" where
  "decoded e x = (case x of Some a \<Rightarrow> ret a | None \<Rightarrow> throw e)"

definition read_checked ::
  "'x wire_env_scheme \<Rightarrow> party \<Rightarrow> 'e \<Rightarrow> (string \<Rightarrow> 'a option) \<Rightarrow> ('w wire_scheme, 'e, 'a) proc" where
  "read_checked E p e parse =
     and_then (read_frame E p e) (\<lambda>(header, payload).
     and_then (decoded e (decode_frame E (header @ payload))) (\<lambda>body. decoded e (parse body)))"

definition read_plain ::
  "'x wire_env_scheme \<Rightarrow> party \<Rightarrow> 'e \<Rightarrow> (string \<Rightarrow> 'a option) \<Rightarrow> ('w wire_scheme, 'e, 'a) proc" where
  "read_plain E p e parse =
     and_then (read_frame E p e) (\<lambda>(header, payload). decoded e (parse payload))"

text \<open>\<open>write_all\<close> of an encoded message; nothing is handed over when it cannot be encoded.\<close>

definition transmit :: "party \<Rightarrow> message \<Rightarrow> 'e \<Rightarrow> ('w wire_scheme, 'e, unit) proc" where
  "transmit p m e s =
     (let s' = s\<lparr>wi_sent := wi_sent s @ [(p, m, wi_world s)], wi_writes := tl (wi_writes s)\<rparr> in
      if wi_writes s \<noteq> [] \<and> \<not> hd (wi_writes s) then (Err e, s') else (Ok (), s'))"

definition write_message :: "'x wire_env_scheme \<Rightarrow> party \<Rightarrow> message \<Rightarrow> 'e \<Rightarrow> ('w wire_scheme, 'e, unit) proc" where
  "write_message E p m e =
     (case Option.bind (message_to_vec E m) (encode_frame E) of
        None \<Rightarrow> throw e
      | Some _ \<Rightarrow> transmit p m e)"



section \<open>Reading does not depend on how the bytes arrive\<close>

text \<open>The bytes a reader can still get: those before the first failure or end of the stream.\<close>

fun pending :: "read_event list \<Rightarrow> string" where
  "pending [] = []"
| "pending (ReadFailed # es) = []"
| "pending (ReadInterrupted # es) = pending es"
| "pending (Bytes bs # es) = (if bs = [] then [] else bs @ pending es)"

lemma read_exact_until_Some:
  "read_exact_until n es = (Some bs, es') \<Longrightarrow> length bs = n \<and> pending es = bs @ pending es'"
proof (induction n es arbitrary: bs es' rule: read_exact_until.induct)
  case (5 n b es)
  show ?case
  proof (cases "b \<noteq> [] \<and> length b \<le> Suc n")
    case True
    with "5.prems" obtain rest where rest: "read_exact_until (Suc n - length b) es = (Some rest, es')"
      and bs: "bs = b @ rest"
      by (auto split: prod.splits option.splits)
    from "5.IH" [OF _ _ rest] True bs show ?thesis by auto
  next
    case False
    with "5.prems" show ?thesis by (auto split: if_splits)
  qed
qed auto

lemma read_exact_until_enough:
  "n \<le> length (pending es) \<Longrightarrow>
   \<exists>es'. read_exact_until n es = (Some (take n (pending es)), es') \<and> pending es' = drop n (pending es)"
proof (induction n es rule: read_exact_until.induct)
  case (5 n b es)
  show ?case
  proof (cases "b \<noteq> [] \<and> length b \<le> Suc n")
    case True
    with "5.prems" have "Suc n - length b \<le> length (pending es)" by auto
    with "5.IH" True obtain es' where
      "read_exact_until (Suc n - length b) es = (Some (take (Suc n - length b) (pending es)), es')"
      "pending es' = drop (Suc n - length b) (pending es)" by blast
    with True show ?thesis by auto
  next
    case False
    with "5.prems" show ?thesis by (auto split: if_splits)
  qed
qed auto

lemma read_from_Ok:
  "read_from p n e s = (Ok bs, s') \<Longrightarrow>
     length bs = n \<and> (\<exists>es. s' = s\<lparr>wi_in := (wi_in s)(p := es)\<rparr> \<and> pending (wi_in s p) = bs @ pending es)"
  by (auto simp: read_from_def split: prod.splits option.splits dest: read_exact_until_Some)

lemma read_from_enough:
  assumes "n \<le> length (pending (wi_in s p))"
  shows "\<exists>es. read_from p n e s = (Ok (take n (pending (wi_in s p))), s\<lparr>wi_in := (wi_in s)(p := es)\<rparr>) \<and>
    pending es = drop n (pending (wi_in s p))"
  using read_exact_until_enough [OF assms] by (auto simp: read_from_def)

text \<open>Big-endian four-byte lengths.\<close>

definition to_be_bytes :: "nat \<Rightarrow> string" where
  "to_be_bytes n = [char_of (n div 256 div 256 div 256), char_of (n div 256 div 256), char_of (n div 256), char_of n]"

lemma from_to_be_bytes:
  assumes "n < 2 ^ 32"
  shows "from_be_bytes (to_be_bytes n) = n"
proof -
  have top: "n div 256 div 256 div 256 < 256" using assms by (simp add: div_mult2_eq [symmetric])
  have digit: "256 * (m div 256) + m mod 256 = m" for m :: nat by simp
  have "from_be_bytes (to_be_bytes n) =
      256 * (256 * (256 * (n div 256 div 256 div 256 mod 256) + n div 256 div 256 mod 256) + n div 256 mod 256) + n mod 256"
    by (simp only: from_be_bytes_def to_be_bytes_def foldl.simps of_char_of) simp
  with top show ?thesis by (simp only: mod_less digit)
qed

text \<open>
  What the crate documents of its frames: the payload behind its length in four big-endian bytes,
  and \<open>decode_frame\<close> as the inverse.
\<close>

definition framed :: "'x wire_env_scheme \<Rightarrow> string \<Rightarrow> string \<Rightarrow> bool" where
  "framed E payload frame \<longleftrightarrow>
     frame = to_be_bytes (length payload) @ payload \<and> encode_frame E payload = Some frame \<and>
     decode_frame E frame = Some payload \<and> 0 < length payload \<and>
     length payload \<le> max_frame_bytes E \<and> max_frame_bytes E < 2 ^ 32"


lemma read_frame_Ok:
  assumes "read_frame E p e s = (Ok (header, payload), s')"
  shows "\<exists>es. s' = s\<lparr>wi_in := (wi_in s)(p := es)\<rparr> \<and> pending (wi_in s p) = header @ payload @ pending es \<and>
    length header = 4 \<and> length payload = from_be_bytes header \<and> 0 < length payload \<and>
    length payload \<le> max_frame_bytes E"
proof -
  from assms obtain s1 where h: "read_from p 4 e s = (Ok header, s1)"
    and n: "from_be_bytes header \<noteq> 0" "from_be_bytes header \<le> max_frame_bytes E"
    and b: "read_from p (from_be_bytes header) e s1 = (Ok payload, s')"
    by (auto simp: read_frame_def and_then_Ok_iff Let_def split: if_splits)
  from read_from_Ok [OF h] obtain es1 where "length header = 4" "s1 = s\<lparr>wi_in := (wi_in s)(p := es1)\<rparr>"
    "pending (wi_in s p) = header @ pending es1" by blast
  with read_from_Ok [OF b] n show ?thesis by auto
qed

lemma read_frame_framed:
  assumes "framed E payload frame" and "pending (wi_in s p) = frame @ rest"
  shows "\<exists>es. read_frame E p e s = (Ok (to_be_bytes (length payload), payload), s\<lparr>wi_in := (wi_in s)(p := es)\<rparr>) \<and>
    pending es = rest"
proof -
  have "length (to_be_bytes (length payload)) = 4" by (simp add: to_be_bytes_def)
  with assms have enough: "4 \<le> length (pending (wi_in s p))"
    and take4: "take 4 (pending (wi_in s p)) = to_be_bytes (length payload)"
    and drop4: "drop 4 (pending (wi_in s p)) = payload @ rest" by (auto simp: framed_def)
  obtain es where es: "read_from p 4 e s = (Ok (to_be_bytes (length payload)), s\<lparr>wi_in := (wi_in s)(p := es)\<rparr>)"
    "pending es = payload @ rest"
    using read_from_enough [OF enough, of e] take4 drop4 by auto
  let ?s1 = "s\<lparr>wi_in := (wi_in s)(p := es)\<rparr>"
  have "length payload \<le> length (pending (wi_in ?s1 p))" using es(2) by simp
  from read_from_enough [OF this, of e] es(2) obtain es' where
    "read_from p (length payload) e ?s1 = (Ok payload, ?s1\<lparr>wi_in := (wi_in ?s1)(p := es')\<rparr>)" "pending es' = rest"
    by auto
  moreover have "from_be_bytes (to_be_bytes (length payload)) = length payload"
    using assms(1) by (intro from_to_be_bytes) (simp add: framed_def)
  ultimately show ?thesis
    using es(1) assms(1) by (auto simp: read_frame_def Let_def and_then_OkI framed_def)
qed


section \<open>Round trip and bounds of frames\<close>

text \<open>
  C16. Frames arrive whole. A payload that \<open>encode_frame\<close> frames is what both readers parse, however
  the stream is cut into reads and interrupted; the bytes behind the frame stay for the next read,
  and nothing else of the state changes.
\<close>

theorem frame_roundtrip:
  assumes "framed E payload frame" and "pending (wi_in s p) = frame @ rest"
  shows "\<exists>es. pending es = rest \<and>
    read_checked E p e parse s = decoded e (parse payload) (s\<lparr>wi_in := (wi_in s)(p := es)\<rparr>) \<and>
    read_plain E p e parse s = decoded e (parse payload) (s\<lparr>wi_in := (wi_in s)(p := es)\<rparr>)"
proof -
  from read_frame_framed [OF assms, of e] obtain es where
    "read_frame E p e s = (Ok (to_be_bytes (length payload), payload), s\<lparr>wi_in := (wi_in s)(p := es)\<rparr>)"
    "pending es = rest" by blast
  moreover from assms(1) have "decode_frame E (to_be_bytes (length payload) @ payload) = Some payload"
    by (auto simp: framed_def)
  ultimately show ?thesis
    by (auto simp: read_checked_def read_plain_def and_then_OkI decoded_def [of e "Some payload"])
qed

text \<open>
  Frames are bounded. Whatever the peer sends, a frame that is accepted had a header of four bytes
  that announced exactly the length of its payload, a length between one and the maximum; the
  reader took these bytes from the front of the stream and no more.
\<close>

theorem frame_bounds:
  assumes "read_frame E p e s = (Ok (header, payload), s')"
  shows "length header = 4 \<and> from_be_bytes header = length payload \<and>
    1 \<le> length payload \<and> length payload \<le> max_frame_bytes E \<and>
    pending (wi_in s p) = header @ payload @ pending (wi_in s' p) \<and>
    (\<forall>q. q \<noteq> p \<longrightarrow> wi_in s' q = wi_in s q)"
  using read_frame_Ok [OF assms] by (auto simp: Suc_le_eq)

end
