(* ===== verification/Write_Ahead.thy ===== *)
theory Write_Ahead
  imports Launcher_Prelude
begin

text \<open>
  The contract between a store and the code that tells a peer what the store holds: a record that
  returns \<open>Ok\<close> is durable, and recording sends nothing. Under it, whatever follows a record runs
  in a state in which the record is durable, and a record that did not succeed sent nothing.
\<close>

locale write_ahead =
  fixes perform :: "'c \<Rightarrow> ('s, 'e, unit) proc"
    and sent :: "'s \<Rightarrow> 'x list"
    and live :: "'s \<Rightarrow> bool"
    and durable :: "'c \<Rightarrow> 's \<Rightarrow> bool"
  assumes perform_sends_nothing: "perform c s = (r, s') \<Longrightarrow> sent s' = sent s"
    and perform_durable: "live s \<Longrightarrow> perform c s = (Ok u, s') \<Longrightarrow> live s' \<and> durable c s'"
begin

lemma recorded_then:
  assumes "live s" and "and_then (perform c) k s = (r, s')"
  obtains (refused) r0 where "\<not> is_Ok r" "sent s' = sent s" "perform c s = (r0, s')" "\<not> is_Ok r0"
  | (recorded) s1 where "perform c s = (Ok (), s1)" "live s1" "durable c s1" "sent s1 = sent s" "k () s1 = (r, s')"
proof (cases "perform c s")
  case (Pair r1 s1)
  show thesis
  proof (cases r1)
    case (Ok u)
    with Pair perform_durable [OF assms(1), of c u s1] perform_sends_nothing [OF Pair] assms(2) show thesis
      by (intro recorded [of s1]) (simp_all add: and_then_def)
  next
    case (Err e)
    with Pair assms(2) perform_sends_nothing [OF Pair] refused show thesis by (auto simp: and_then_def)
  next
    case Crashed
    with Pair assms(2) perform_sends_nothing [OF Pair] refused show thesis by (auto simp: and_then_def)
  qed
qed

end

end
