(* ===== verification/Relay.thy ===== *)
theory Relay
  imports Wire Recovery Write_Ahead
begin

text \<open>
  The authorization relay of a prepared child, \<open>src/prepared_child.rs\<close>: the attestation bridge up
  to the authorization request (\<open>continue_to_v3_authorization_request\<close>), the loop over the broker's
  decisions (\<open>relay_v3_authorization_decisions\<close>) and the consumption of a lease
  (\<open>relay_v3_lease_consumption\<close>), with the closures \<open>src/systemd_service.rs\<close> passes to record each
  piece of evidence in the active slot.
\<close>


section \<open>State\<close>

record relay_state = wire +
  re_slot :: active_slot

type_synonym 'a relay = "(relay_state, prepared_child_error, 'a) proc"

text \<open>A closure that records in the active slot, with the error it maps every refusal to.\<close>

definition record_in_slot :: "'x slot_env_scheme \<Rightarrow> prepared_child_error \<Rightarrow> slot_call \<Rightarrow> unit relay" where
  "record_in_slot E e c s =
     (case call_slot E c (re_slot s) (wi_world s) of
        (r, sl, w) \<Rightarrow>
          ((case r of Ok _ \<Rightarrow> Ok () | Err _ \<Rightarrow> Err e | Crashed \<Rightarrow> Crashed),
           s\<lparr>re_slot := sl, wi_world := w\<rparr>))"

definition write_json_frame :: "'x wire_env_scheme \<Rightarrow> party \<Rightarrow> message \<Rightarrow> unit relay" where
  "write_json_frame E p m = write_message E p m AttestationBridgeUnavailable"

definition read_json_frame :: "'x wire_env_scheme \<Rightarrow> party \<Rightarrow> (string \<Rightarrow> 'a option) \<Rightarrow> 'a relay" where
  "read_json_frame E p parse = read_checked E p AttestationBridgeUnavailable parse"

definition bridged :: "'a relay \<Rightarrow> 'a relay" where
  "bridged m = map_err (\<lambda>_. AuthorizationDecisionBridgeUnavailable) m"

definition bridge_value :: "'a option \<Rightarrow> 'a relay" where
  "bridge_value x = decoded AuthorizationDecisionBridgeUnavailable x"

definition bridge_check :: "bool \<Rightarrow> unit relay" where
  "bridge_check refused = (if refused then throw AuthorizationDecisionBridgeUnavailable else ret ())"


section \<open>Process posture and attestation\<close>

definition receive_process_posture :: "'x wire_env_scheme \<Rightarrow> process_posture relay" where
  "receive_process_posture E = read_checked E Child PostureUnavailable (posture_from_slice E)"

definition validate_process_posture ::
  "'x wire_env_scheme \<Rightarrow> process_posture \<Rightarrow> child_process \<Rightarrow> string \<Rightarrow> prepared_child_error + unit" where
  "validate_process_posture E posture child expected =
     (case ota_process_posture_identity E posture of
        None \<Rightarrow> Inl PostureMismatch
      | Some derived \<Rightarrow>
          if po_identity posture \<noteq> derived
             \<or> po_pid posture \<noteq> ch_pid child
             \<or> po_process_start_time_identity posture \<noteq> ch_process_start_time_identity child
             \<or> po_ota_binary_identity posture \<noteq> ch_ota_binary_identity child
             \<or> po_principal_mapping_identity posture \<noteq> expected
          then Inl PostureMismatch else Inr ())"

definition startup_continuation_of ::
  "'x wire_env_scheme \<Rightarrow> child_process \<Rightarrow> process_posture \<Rightarrow> startup_continuation" where
  "startup_continuation_of E child posture =
     \<lparr>st_schema_version = 1, st_identity = [],
      st_message_kind = protocol_constant E ''LAUNCHER_STARTUP_CONTINUATION'',
      st_invocation_id = ch_invocation_id child,
      st_launcher_request_identity = ch_request_identity child,
      st_child_process_identity = ch_identity child,
      st_working_directory_identity = ch_working_directory_identity child,
      st_process_posture_identity = po_identity posture,
      st_principal_mapping_identity = po_principal_mapping_identity posture\<rparr>"

definition attestation_refused ::
  "'x wire_env_scheme \<Rightarrow> child_process \<Rightarrow> process_posture \<Rightarrow> broker_challenge \<Rightarrow> attestation \<Rightarrow> bool" where
  "attestation_refused E child posture challenge a \<longleftrightarrow>
     at_message_kind a \<noteq> protocol_constant E ''ATTESTATION_RESPONSE''
     \<or> at_protocol_version a \<noteq> protocol_constant E ''SYSTEMD_PROTECTED_LAUNCHER_ATTESTATION_PROTOCOL_V3''
     \<or> at_binding_identity a \<noteq> bc_binding_identity challenge
     \<or> at_challenge_nonce_commitment a \<noteq> bc_nonce_commitment challenge
     \<or> at_work_unit_identity a \<noteq> bc_work_unit_identity challenge
     \<or> at_semantic_scope_identity a \<noteq> bc_semantic_scope_identity challenge
     \<or> at_invocation_id a \<noteq> ch_invocation_id child
     \<or> at_runner_principal a \<noteq> po_principal_mapping_identity posture
     \<or> at_child_process_identity a \<noteq> ch_identity child
     \<or> at_working_directory_identity a \<noteq> ch_working_directory_identity child
     \<or> at_process_posture_identity a \<noteq> po_identity posture
     \<or> at_principal_mapping_identity a \<noteq> po_principal_mapping_identity posture"

definition authorization_refused ::
  "'x wire_env_scheme \<Rightarrow> broker_challenge \<Rightarrow> attestation \<Rightarrow> string \<Rightarrow> authorization_request \<Rightarrow> bool" where
  "authorization_refused E challenge a attestation_identity q \<longleftrightarrow>
     rq_message_kind q \<noteq> protocol_constant E ''AUTHORIZATION_REQUEST''
     \<or> rq_binding_identity q \<noteq> bc_binding_identity challenge
     \<or> rq_attestation_identity q \<noteq> attestation_identity
     \<or> rq_challenge_nonce_commitment q \<noteq> bc_nonce_commitment challenge
     \<or> rq_work_unit_identity q \<noteq> bc_work_unit_identity challenge
     \<or> rq_contract_identity q \<noteq> bc_contract_identity challenge
     \<or> rq_semantic_scope_identity q \<noteq> bc_semantic_scope_identity challenge
     \<or> rq_runner_principal q \<noteq> at_runner_principal a"

text \<open>\<open>produce\<close> is the closure that obtains the attestation from the attestor.\<close>

definition continue_to_v3_authorization_request ::
  "'x wire_env_scheme \<Rightarrow> child_process \<Rightarrow> process_posture
     \<Rightarrow> (broker_challenge \<Rightarrow> prepared_child_error + attestation)
     \<Rightarrow> (authorization_request \<times> string \<times> startup_continuation) relay" where
  "continue_to_v3_authorization_request E child posture produce =
     and_then (decoded AttestationBridgeUnavailable
        (launcher_startup_continuation_identity E (startup_continuation_of E child posture))) (\<lambda>i.
     let continuation = (startup_continuation_of E child posture)\<lparr>st_identity := i\<rparr> in
     and_then (write_json_frame E Child (ContinuationMsg continuation)) (\<lambda>_.
     and_then (read_json_frame E Child (challenge_from_slice E)) (\<lambda>challenge.
       if bc_message_kind challenge \<noteq> protocol_constant E ''CHALLENGE_REQUEST''
          \<or> bc_protocol_version challenge \<noteq> protocol_constant E ''PROTOCOL_VERSION_V1''
       then throw AttestationBridgeUnavailable
       else
     and_then (lift_result (produce challenge)) (\<lambda>a.
     and_then (decoded AttestationBridgeUnavailable (launcher_attestation_identity_v3 E a)) (\<lambda>aid.
       if attestation_refused E child posture challenge a then throw AttestationBridgeUnavailable
       else
     and_then (write_json_frame E Child (AttestationMsg a)) (\<lambda>_.
     and_then (read_json_frame E Child (authorization_from_slice E)) (\<lambda>q.
       if authorization_refused E challenge a aid q then throw AuthorizationAdmissionMismatch
       else
     and_then (decoded AuthorizationAdmissionMismatch
        (message_identity E (protocol_constant E ''AUTHORIZATION_REQUEST_DOMAIN_V1'') (AuthorizationMsg q)))
        (\<lambda>rid. ret (q, rid, continuation)))))))))"


section \<open>Consuming a lease\<close>

definition relay_prepared_lease ::
  "'x wire_env_scheme \<Rightarrow> decision_relay \<Rightarrow> (lease_payload signed_message \<times> string) relay" where
  "relay_prepared_lease E d =
     and_then (bridged (read_json_frame E Broker (lease_from_slice E))) (\<lambda>lease.
     and_then (bridge_check (pl_message_kind (sg_payload lease) \<noteq> protocol_constant E ''LEASE_ISSUANCE'')) (\<lambda>_.
     and_then (bridge_value (message_identity E (protocol_constant E ''LEASE_ISSUANCE_DOMAIN_V1'') (LeaseMsg lease))) (\<lambda>lid.
     and_then (bridge_check
         (pl_authorization_decision_identity (sg_payload lease) \<noteq> dr_authorization_decision_identity d
          \<or> pl_binding_identity (sg_payload lease) \<noteq> dp_binding_identity (sg_payload (dr_authorization_decision d))
          \<or> pl_work_unit_identity (sg_payload lease) \<noteq> dp_work_unit_identity (sg_payload (dr_authorization_decision d)))) (\<lambda>_.
     and_then (bridged (write_json_frame E Child (LeaseMsg lease))) (\<lambda>_. ret (lease, lid))))))"

definition receive_consume_request ::
  "'x wire_env_scheme \<Rightarrow> lease_payload signed_message \<Rightarrow> string \<Rightarrow> (consume_request \<times> string) relay" where
  "receive_consume_request E lease lid =
     and_then (bridged (read_json_frame E Child (consume_request_from_slice E))) (\<lambda>q.
     and_then (bridge_check
         (cr_message_kind q \<noteq> protocol_constant E ''LEASE_CONSUME''
          \<or> cr_lease_identity q \<noteq> lid
          \<or> cr_binding_identity q \<noteq> pl_binding_identity (sg_payload lease)
          \<or> cr_work_unit_identity q \<noteq> pl_work_unit_identity (sg_payload lease))) (\<lambda>_.
     and_then (bridge_value (message_identity E (protocol_constant E ''LEASE_CONSUME_DOMAIN_V1'') (ConsumeRequestMsg q)))
       (\<lambda>qid. ret (q, qid))))"

definition notice :: "string \<Rightarrow> string \<Rightarrow> persistence_notice" where
  "notice kind subject = \<lparr>pn_schema_version = 1, pn_identity = [], pn_message_kind = kind, pn_subject_identity = subject\<rparr>"

definition persist_consumption_intent ::
  "'x wire_env_scheme \<Rightarrow> decision_relay \<Rightarrow> lease_payload signed_message \<Rightarrow> string \<Rightarrow> consume_request \<Rightarrow> string \<Rightarrow> unit relay" where
  "persist_consumption_intent E d lease lid q qid =
     (let intent = \<lparr>ir_schema_version = 1, ir_identity = [],
        ir_authorization_decision_relay_identity = dr_identity d, ir_prepared_lease = lease,
        ir_prepared_lease_identity = lid, ir_consume_request = q, ir_consume_request_identity = qid\<rparr> in
     and_then (bridge_value (lease_consumption_intent_relay_evidence_v1_identity E intent)) (\<lambda>i.
     and_then (record_in_slot E AuthorizationDecisionBridgeUnavailable
         (RecordIntent (intent\<lparr>ir_identity := i\<rparr>))) (\<lambda>_.
     let n = notice (protocol_constant E ''LEASE_CONSUMPTION_INTENT_PERSISTENCE'') i in
     and_then (bridge_value (lease_consumption_intent_persistence_v1_identity E n)) (\<lambda>ni.
       bridged (write_json_frame E Child (IntentPersistenceMsg (n\<lparr>pn_identity := ni\<rparr>)))))))"

definition forward_consume_request ::
  "'x wire_env_scheme \<Rightarrow> string \<Rightarrow> consume_request \<Rightarrow> string \<Rightarrow> (consume_response_payload signed_message \<times> string) relay" where
  "forward_consume_request E lid q qid =
     and_then (bridged (write_json_frame E Broker (ConsumeRequestMsg q))) (\<lambda>_.
     and_then (bridged (read_json_frame E Broker (consume_response_from_slice E))) (\<lambda>response.
     and_then (bridge_check
         (rp_message_kind (sg_payload response) \<noteq> protocol_constant E ''LEASE_CONSUME_RESPONSE''
          \<or> rp_consume_request_identity (sg_payload response) \<noteq> qid
          \<or> rp_lease_identity (sg_payload response) \<noteq> lid
          \<or> rp_binding_identity (sg_payload response) \<noteq> cr_binding_identity q
          \<or> rp_work_unit_identity (sg_payload response) \<noteq> cr_work_unit_identity q)) (\<lambda>_.
     and_then (bridge_value (message_identity E (protocol_constant E ''LEASE_CONSUME_RESPONSE_DOMAIN_V1'')
         (ConsumeResponseMsg response))) (\<lambda>rid.
     and_then (bridged (write_json_frame E Child (ConsumeResponseMsg response))) (\<lambda>_.
       ret (response, rid))))))"

definition receive_consumption_admission ::
  "'x wire_env_scheme \<Rightarrow> string \<Rightarrow> consume_request \<Rightarrow> string \<Rightarrow> string \<Rightarrow> lease_admission relay" where
  "receive_consumption_admission E lid q qid rid =
     and_then (bridged (read_json_frame E Child (lease_admission_from_slice E))) (\<lambda>a.
     and_then (bridge_check
         (lease_consumption_admission_v1_identity E a \<noteq> Some (la_identity a)
          \<or> la_prepared_lease_identity a \<noteq> lid
          \<or> la_consume_request_identity a \<noteq> qid
          \<or> la_consume_response_identity a \<noteq> rid
          \<or> la_binding_identity a \<noteq> cr_binding_identity q
          \<or> la_work_unit_identity a \<noteq> cr_work_unit_identity q
          \<or> la_crossing_transaction_id a \<noteq> cr_crossing_transaction_id q
          \<or> la_crossing_transaction_identity a \<noteq> cr_crossing_transaction_identity q)) (\<lambda>_. ret a))"

definition persist_consumption :: "'x wire_env_scheme \<Rightarrow> consumption_relay \<Rightarrow> consumption_relay relay" where
  "persist_consumption E evidence =
     and_then (bridge_value (lease_consumption_relay_evidence_v1_identity E evidence)) (\<lambda>i.
     let l = evidence\<lparr>lc_identity := i\<rparr> in
     and_then (record_in_slot E AuthorizationDecisionBridgeUnavailable (RecordConsumption l)) (\<lambda>_.
     let n = notice (protocol_constant E ''LEASE_CONSUMPTION_PERSISTENCE'') (la_identity (lc_admission l)) in
     and_then (bridge_value (lease_consumption_persistence_v1_identity E n)) (\<lambda>ni.
     and_then (bridged (write_json_frame E Child (ConsumptionPersistenceMsg (n\<lparr>pn_identity := ni\<rparr>)))) (\<lambda>_.
       ret l))))"

definition relay_v3_lease_consumption :: "'x wire_env_scheme \<Rightarrow> decision_relay \<Rightarrow> consumption_relay relay" where
  "relay_v3_lease_consumption E d =
     and_then (relay_prepared_lease E d) (\<lambda>(lease, lid).
     and_then (receive_consume_request E lease lid) (\<lambda>(q, qid).
     and_then (persist_consumption_intent E d lease lid q qid) (\<lambda>_.
     and_then (forward_consume_request E lid q qid) (\<lambda>(response, rid).
     and_then (receive_consumption_admission E lid q qid rid) (\<lambda>a.
       persist_consumption E
         \<lparr>lc_schema_version = 1, lc_identity = [],
          lc_authorization_decision_relay_identity = dr_identity d,
          lc_prepared_lease = lease, lc_prepared_lease_identity = lid, lc_consume_request = q,
          lc_consume_request_identity = qid, lc_consume_response = response,
          lc_consume_response_identity = rid, lc_admission = a\<rparr>)))))"


section \<open>The decision loop\<close>

definition admission_refused ::
  "'x wire_env_scheme \<Rightarrow> authorization_request \<Rightarrow> string \<Rightarrow> decision_payload signed_message \<Rightarrow> string
     \<Rightarrow> decision_admission \<Rightarrow> bool" where
  "admission_refused E q rid decision did a \<longleftrightarrow>
     authorization_decision_admission_v1_identity E a \<noteq> Some (da_identity a)
     \<or> da_request_identity a \<noteq> rid
     \<or> da_authorization_decision_identity a \<noteq> did
     \<or> da_binding_identity a \<noteq> rq_binding_identity q
     \<or> da_attestation_identity a \<noteq> rq_attestation_identity q
     \<or> da_work_unit_identity a \<noteq> rq_work_unit_identity q
     \<or> da_contract_identity a \<noteq> rq_contract_identity q
     \<or> da_semantic_scope_identity a \<noteq> rq_semantic_scope_identity q
     \<or> da_decision a \<noteq> dp_decision (sg_payload decision)"

text \<open>The body of the loop up to the recorded evidence.\<close>

definition decision_round :: "'x wire_env_scheme \<Rightarrow> authorization_request \<Rightarrow> string \<Rightarrow> decision_relay relay" where
  "decision_round E q rid =
     and_then (bridged (read_json_frame E Broker (decision_from_slice E))) (\<lambda>decision.
     and_then (bridge_check
         (dp_message_kind (sg_payload decision) \<noteq> protocol_constant E ''AUTHORIZATION_DECISION'')) (\<lambda>_.
     and_then (bridge_value (message_identity E (protocol_constant E ''AUTHORIZATION_DECISION_DOMAIN_V1'')
         (DecisionMsg decision))) (\<lambda>did.
     and_then (bridged (write_json_frame E Child (DecisionMsg decision))) (\<lambda>_.
     and_then (bridged (read_json_frame E Child (decision_admission_from_slice E))) (\<lambda>a.
     and_then (bridge_check (admission_refused E q rid decision did a)) (\<lambda>_.
     let evidence = \<lparr>dr_schema_version = 1, dr_identity = [], dr_request_identity = rid,
       dr_authorization_decision = decision, dr_authorization_decision_identity = did, dr_admission = a\<rparr> in
     and_then (bridge_value (authorization_decision_relay_evidence_v1_identity E evidence)) (\<lambda>i.
     and_then (record_in_slot E AuthorizationDecisionBridgeUnavailable
         (RecordDecision (evidence\<lparr>dr_identity := i\<rparr>))) (\<lambda>_.
       ret (evidence\<lparr>dr_identity := i\<rparr>)))))))))"

text \<open>
  What a successful step leaves: a read takes at least one byte from its own stream, a write and a
  record leave the streams alone. So every round of the loop shortens what the broker has sent.
\<close>

lemma decoded_Ok_iff: "decoded e x s = (Ok a, s') \<longleftrightarrow> x = Some a \<and> s' = s"
  by (auto simp: decoded_def split: option.splits)

lemma read_checked_Ok:
  assumes "read_checked E p e parse s = (Ok a, s')"
  shows "\<exists>es. s' = s\<lparr>wi_in := (wi_in s)(p := es)\<rparr> \<and> length (pending es) < length (pending (wi_in s p))"
proof -
  from assms obtain header payload where "read_frame E p e s = (Ok (header, payload), s')"
    by (auto simp: read_checked_def and_then_Ok_iff decoded_Ok_iff)
  from read_frame_Ok [OF this] show ?thesis by auto
qed

lemma read_json_frame_Ok:
  "read_json_frame E p parse s = (Ok a, s') \<Longrightarrow>
     \<exists>es. s' = s\<lparr>wi_in := (wi_in s)(p := es)\<rparr> \<and> length (pending es) < length (pending (wi_in s p))"
  unfolding read_json_frame_def by (rule read_checked_Ok)

lemma write_message_in: "write_message E p m e s = (r, s') \<Longrightarrow> wi_in s' = wi_in s"
  by (auto simp: write_message_def transmit_def Let_def split: option.splits if_splits)

lemma write_json_frame_in: "write_json_frame E p m s = (r, s') \<Longrightarrow> wi_in s' = wi_in s"
  unfolding write_json_frame_def by (rule write_message_in)

lemma record_in_slot_in: "record_in_slot E e c s = (r, s') \<Longrightarrow> wi_in s' = wi_in s"
  by (auto simp: record_in_slot_def split: prod.splits)

lemma bridged_Ok_iff: "bridged m s = (Ok a, s') \<longleftrightarrow> m s = (Ok a, s')"
  by (simp add: bridged_def map_err_Ok_iff)

lemma bridge_value_Ok_iff: "bridge_value x s = (Ok a, s') \<longleftrightarrow> x = Some a \<and> s' = s"
  by (simp add: bridge_value_def decoded_Ok_iff)

lemma bridge_check_Ok_iff: "bridge_check b s = (Ok u, s') \<longleftrightarrow> \<not> b \<and> s' = s"
  by (auto simp: bridge_check_def)

lemmas relay_Ok_iff = and_then_Ok_iff bridged_Ok_iff bridge_value_Ok_iff bridge_check_Ok_iff decoded_Ok_iff
  lift_result_Ok_iff

lemma decision_round_shortens:
  assumes "decision_round E q rid s = (Ok d, s')"
  shows "length (pending (wi_in s' Broker)) < length (pending (wi_in s Broker))"
proof -
  from assms obtain decision a s1 s2 s3 c where
    "read_json_frame E Broker (decision_from_slice E) s = (Ok decision, s1)"
    "write_json_frame E Child (DecisionMsg decision) s1 = (Ok (), s2)"
    "read_json_frame E Child (decision_admission_from_slice E) s2 = (Ok a, s3)"
    "record_in_slot E AuthorizationDecisionBridgeUnavailable c s3 = (Ok (), s')"
    by (auto simp: decision_round_def relay_Ok_iff Let_def)
  then show ?thesis
    by (auto dest!: read_json_frame_Ok write_json_frame_in record_in_slot_in)
qed

function decision_loop ::
  "'x wire_env_scheme \<Rightarrow> authorization_request \<Rightarrow> string \<Rightarrow> (authorization_decision \<times> consumption_relay option) relay" where
  "decision_loop E q rid s =
     (case decision_round E q rid s of
        (Ok evidence, s1) \<Rightarrow>
          (case relay_decision evidence of
             Pending \<Rightarrow> decision_loop E q rid s1
           | Allowed \<Rightarrow> and_then (relay_v3_lease_consumption E evidence) (\<lambda>l. ret (Allowed, Some l)) s1
           | Denied \<Rightarrow> (Ok (Denied, None), s1))
      | (Err e, s1) \<Rightarrow> (Err e, s1)
      | (Crashed, s1) \<Rightarrow> (Crashed, s1))"
  by pat_completeness auto
termination
  by (relation "measure (\<lambda>(E, q, rid, s). length (pending (wi_in s Broker)))")
     (auto dest: decision_round_shortens [OF sym])

declare decision_loop.simps [simp del]

definition relay_v3_authorization_decisions ::
  "'x wire_env_scheme \<Rightarrow> authorization_request \<Rightarrow> string \<Rightarrow> (authorization_decision \<times> consumption_relay option) relay" where
  "relay_v3_authorization_decisions E q rid =
     and_then (bridged (write_json_frame E Broker (AuthorizationMsg q))) (\<lambda>_. decision_loop E q rid)"


section \<open>What is on disk when a message leaves\<close>

text \<open>\<open>recorded_in c j\<close>: the journal holds, at the stage of that record, what \<open>c\<close> recorded.\<close>

fun recorded_in :: "slot_call \<Rightarrow> active_slot_journal \<Rightarrow> bool" where
  "recorded_in (RecordChild c) j \<longleftrightarrow> as_stage j = ChildPrepared \<and> as_child j = Some c"
| "recorded_in (RecordScope sc) j \<longleftrightarrow> as_stage j = ScopeAttached \<and> as_scope j = Some sc"
| "recorded_in (RecordDecision d) j \<longleftrightarrow>
     as_stage j = AuthorizationDecisionVerified \<and> as_authorization_decision j = Some d"
| "recorded_in (RecordIntent i) j \<longleftrightarrow>
     as_stage j = LeaseConsumptionIntentRecorded \<and> as_lease_consumption_intent j = Some i"
| "recorded_in (RecordConsumption l) j \<longleftrightarrow>
     as_stage j = LeaseConsumptionVerified \<and> as_lease_consumption j = Some l"
| "recorded_in (RecordCompletion c) j \<longleftrightarrow>
     as_stage j = ExecutionCompletionRecorded \<and> as_execution_completion j = Some c"

lemma store_journal_journal:
  "store_journal E j s w = (Ok (), s', w') \<Longrightarrow> \<exists>i. sl_journal s' = j\<lparr>as_identity := i\<rparr>"
  by (auto simp: store_journal_def Let_def split: sum.splits prod.splits)

lemma call_slot_recorded: "call_slot E c s w = (Ok (), s', w') \<Longrightarrow> recorded_in c (sl_journal s')"
  by (cases c)
     (auto simp: record_child_def record_scope_def record_authorization_decision_def
       record_lease_consumption_intent_def record_lease_consumption_def record_execution_completion_def Let_def
       split: if_splits active_slot_stage.splits option.splits dest!: store_journal_journal)

abbreviation relay_live :: "'x slot_env_scheme \<Rightarrow> relay_state \<Rightarrow> bool" where
  "relay_live E s \<equiv> live_slot E (re_slot s) (wi_world s)"

interpretation slot_ahead: write_ahead "record_in_slot E e" wi_sent "relay_live E"
  "\<lambda>c s. recorded_in c (sl_journal (re_slot s))"
  for E e
proof (unfold_locales, goal_cases)
  case (1 c s r s')
  then show ?case by (auto simp: record_in_slot_def split: prod.splits)
next
  case (2 s c u s')
  from 2(2) have "call_slot E c (re_slot s) (wi_world s) = (Ok (), re_slot s', wi_world s')"
    by (auto simp: record_in_slot_def split: prod.splits outcome.splits)
  from call_ok_live [OF this 2(1)] call_slot_recorded [OF this] show ?case by simp
qed

text \<open>
  The messages that announce something: they may leave only when the slot file holds it. A journal
  backs such a message when it is valid, with its whole chain of evidence, and names its subject.
\<close>

fun announced_by :: "message \<Rightarrow> active_slot_journal \<Rightarrow> bool" where
  "announced_by (IntentPersistenceMsg n) j \<longleftrightarrow>
     (\<exists>i. recorded_in (RecordIntent i) j \<and> pn_subject_identity n = ir_identity i)"
| "announced_by (ConsumeRequestMsg q) j \<longleftrightarrow>
     (\<exists>i. recorded_in (RecordIntent i) j \<and> ir_consume_request i = q)"
| "announced_by (ConsumptionPersistenceMsg n) j \<longleftrightarrow>
     (\<exists>l. recorded_in (RecordConsumption l) j \<and> pn_subject_identity n = la_identity (lc_admission l))"
| "announced_by (CompletionPersistenceMsg n) j \<longleftrightarrow>
     (\<exists>c. recorded_in (RecordCompletion c) j \<and> pn_subject_identity n = ec_identity c)"
| "announced_by _ j \<longleftrightarrow> True"

fun announcing :: "message \<Rightarrow> bool" where
  "announcing (IntentPersistenceMsg n) = True"
| "announcing (ConsumeRequestMsg q) = True"
| "announcing (ConsumptionPersistenceMsg n) = True"
| "announcing (CompletionPersistenceMsg n) = True"
| "announcing _ = False"

definition backed :: "'x slot_env_scheme \<Rightarrow> path \<Rightarrow> party \<times> message \<times> world \<Rightarrow> bool" where
  "backed E p x = (case x of (_, m, w) \<Rightarrow>
     announcing m \<longrightarrow> (\<exists>j. slot_wf E j \<and> journal_at E j w p \<and> announced_by m j))"

definition announcements :: "(party \<times> message \<times> world) list \<Rightarrow> message list" where
  "announcements xs = filter announcing (map (\<lambda>(_, m, _). m) xs)"

lemma announcements_simps [simp]:
  "announcements [] = []"
  "announcements (xs @ ys) = announcements xs @ announcements ys"
  "announcements [(p, m, w)] = (if announcing m then [m] else [])"
  by (simp_all add: announcements_def)

text \<open>
  \<open>extends E s s' A\<close>: from \<open>s\<close> to \<open>s'\<close> the slot kept its file and everything that left was backed;
  the announcements among it are \<open>A\<close>.
\<close>

definition extends :: "'x slot_env_scheme \<Rightarrow> relay_state \<Rightarrow> relay_state \<Rightarrow> message list \<Rightarrow> bool" where
  "extends E s s' A \<longleftrightarrow> sl_path (re_slot s') = sl_path (re_slot s) \<and>
     (\<exists>new. wi_sent s' = wi_sent s @ new \<and> list_all (backed E (sl_path (re_slot s))) new \<and> announcements new = A)"

lemma extends_refl: "wi_sent s' = wi_sent s \<Longrightarrow> sl_path (re_slot s') = sl_path (re_slot s) \<Longrightarrow> extends E s s' []"
  by (simp add: extends_def)

lemma extends_trans: "extends E s s1 A \<Longrightarrow> extends E s1 s2 B \<Longrightarrow> extends E s s2 (A @ B)"
  by (fastforce simp: extends_def)

lemma extends_snoc:
  "extends E s s1 A \<Longrightarrow> extends E s1 s2 [] \<Longrightarrow> extends E s s2 A"
  "extends E s s1 [] \<Longrightarrow> extends E s1 s2 B \<Longrightarrow> extends E s s2 B"
  using extends_trans [of E s s1 A s2 "[]"] extends_trans [of E s s1 "[]" s2 B] by simp_all

lemma announcing_write:
  assumes "write_message E p m e s = (r, s')" and "relay_live E s" and "announced_by m (sl_journal (re_slot s))"
  shows "(extends E s s' [] \<or> announcing m \<and> extends E s s' [m]) \<and>
    (announcing m \<longrightarrow> is_Ok r \<longrightarrow> extends E s s' [m]) \<and> re_slot s' = re_slot s \<and> wi_world s' = wi_world s"
proof -
  have "backed E (sl_path (re_slot s)) (p, m, wi_world s)"
    using assms(2,3) by (auto simp: backed_def live_slot_def)
  with assms(1) show ?thesis
    by (auto simp: write_message_def transmit_def Let_def extends_def split: option.splits if_splits)
qed

text \<open>Steps that touch neither the slot nor the store and announce nothing.\<close>

definition plain :: "'x slot_env_scheme \<Rightarrow> 'a relay \<Rightarrow> bool" where
  "plain E m \<longleftrightarrow> (\<forall>s r s'. m s = (r, s') \<longrightarrow>
     re_slot s' = re_slot s \<and> wi_world s' = wi_world s \<and> extends E s s' [])"

named_theorems plain_intros \<open>steps that announce nothing and leave the slot alone\<close>

lemma plainD: "plain E m \<Longrightarrow> m s = (r, s') \<Longrightarrow> re_slot s' = re_slot s \<and> wi_world s' = wi_world s \<and> extends E s s' []"
  by (simp add: plain_def)

lemma plain_in: "(\<And>s r s'. m s = (r, s') \<Longrightarrow> \<exists>f. s' = s\<lparr>wi_in := f\<rparr>) \<Longrightarrow> plain E m"
  by (fastforce simp: plain_def intro: extends_refl)

lemma plain_basic [plain_intros]:
  "plain E (ret a)" "plain E (throw x)" "plain E (lift_result y)" "plain E (decoded x z)"
  "plain E (bridge_value z)" "plain E (bridge_check b)"
  by (auto simp: plain_def extends_def lift_result_def decoded_def bridge_value_def bridge_check_def
      split: sum.splits option.splits if_splits)

lemma plain_and_then [plain_intros]:
  assumes "plain E m" and "\<And>a. plain E (f a)"
  shows "plain E (and_then m f)"
  unfolding plain_def
proof (intro allI impI)
  fix s r s'
  assume run: "and_then m f s = (r, s')"
  obtain r1 s1 where m: "m s = (r1, s1)" by fastforce
  note one = plainD [OF assms(1) m]
  show "re_slot s' = re_slot s \<and> wi_world s' = wi_world s \<and> extends E s s' []"
  proof (cases r1)
    case (Ok a)
    with run m have "f a s1 = (r, s')" by (simp add: and_then_def)
    from plainD [OF assms(2) this] one show ?thesis using extends_trans [of E s s1 "[]" s' "[]"] by simp
  qed (use run m one in \<open>auto simp: and_then_def\<close>)
qed

lemma plain_map_err [plain_intros]: "plain E m \<Longrightarrow> plain E (map_err g m)"
  by (fastforce simp: plain_def map_err_def split: prod.splits outcome.splits)

lemma plain_bridged [plain_intros]: "plain E m \<Longrightarrow> plain E (bridged m)"
  unfolding bridged_def by (rule plain_map_err)

lemma plain_if [plain_intros]: "plain E m \<Longrightarrow> plain E n \<Longrightarrow> plain E (if b then m else n)"
  by simp

lemma plain_prod [plain_intros]: "(\<And>a b. plain E (f a b)) \<Longrightarrow> plain E (case x of (a, b) \<Rightarrow> f a b)"
  by (cases x) simp

lemma plain_Let [plain_intros]: "(\<And>a. plain E (f a)) \<Longrightarrow> plain E (Let x f)"
  by simp

lemma plain_read_from [plain_intros]: "plain E (read_from p n e)"
  by (rule plain_in) (auto simp: read_from_def split: prod.splits option.splits)

lemma plain_read_frame [plain_intros]: "plain E (read_frame E' p e)"
  unfolding read_frame_def by (intro plain_intros)

lemma plain_read [plain_intros]: "plain E (read_checked E' p e parse)" "plain E (read_plain E' p e parse)"
  "plain E (read_json_frame E' p parse)"
  unfolding read_checked_def read_plain_def read_json_frame_def by (intro plain_intros)+

lemma plain_write [plain_intros]: "\<not> announcing m \<Longrightarrow> plain E (write_message E' p m e)"
  by (auto simp: plain_def write_message_def transmit_def Let_def extends_def backed_def split: option.splits if_splits)

lemma plain_write_json [plain_intros]: "\<not> announcing m \<Longrightarrow> plain E (write_json_frame E' p m)"
  unfolding write_json_frame_def by (rule plain_write)


section \<open>The relay announces only what is recorded\<close>

lemma and_then_ret_unit: "and_then m (\<lambda>_. ret ()) = (m :: ('w, 'e, unit) proc)"
  by (rule ext) (simp add: and_then_def split: prod.splits outcome.splits)

declare and_then_ret [simp]

lemma bridge_value_then [simp]:
  "and_then (bridge_value (Some x)) f = f x"
  "and_then (bridge_value None) f = throw AuthorizationDecisionBridgeUnavailable"
  by (auto simp: fun_eq_iff and_then_def bridge_value_def decoded_def)

lemma relay_steps_plain [plain_intros]:
  "plain E (relay_prepared_lease E d)"
  "plain E (receive_consume_request E lease lid)"
  "plain E (receive_consumption_admission E lid q qid rid)"
  "plain E (receive_process_posture E)"
  unfolding relay_prepared_lease_def receive_consume_request_def receive_consumption_admission_def
    receive_process_posture_def
  by (intro plain_intros; simp)+

lemma record_in_slot_extends: "record_in_slot E e c s = (r, s') \<Longrightarrow> extends E s s' []"
proof (rule extends_refl)
  assume "record_in_slot E e c s = (r, s')"
  then obtain r0 where run: "call_slot E c (re_slot s) (wi_world s) = (r0, re_slot s', wi_world s')"
    and "wi_sent s' = wi_sent s"
    by (auto simp: record_in_slot_def split: prod.splits)
  then show "wi_sent s' = wi_sent s" by simp
  from run show "sl_path (re_slot s') = sl_path (re_slot s)" by (cases rule: call_slot_cases) simp_all
qed

text \<open>Record, then announce: the shape of every persistence notice.\<close>

lemma record_announce:
  assumes "relay_live E s"
    and "and_then (record_in_slot E e c) (\<lambda>_. and_then (bridge_value v) (\<lambda>x.
      and_then (bridged (write_json_frame E p (M x))) (\<lambda>_. ret b))) s = (r, s')"
    and "\<And>x j. recorded_in c j \<Longrightarrow> announced_by (M x) j" and "\<And>x. announcing (M x)"
  shows "\<exists>A. extends E s s' A \<and> (A = [] \<or> (\<exists>x. A = [M x])) \<and>
    (is_Ok r \<longrightarrow> r = Ok b \<and> (\<exists>x. A = [M x]) \<and> relay_live E s' \<and> recorded_in c (sl_journal (re_slot s')))"
  using assms(1,2)
proof (cases rule: slot_ahead.recorded_then)
  case (refused r0)
  then show ?thesis using record_in_slot_extends by blast
next
  case (recorded s1)
  note ext = record_in_slot_extends [OF recorded(1)]
  show ?thesis
  proof (cases v)
    case None
    with recorded(5) ext show ?thesis by (auto simp: and_then_def bridge_value_def decoded_def)
  next
    case (Some x)
    obtain r2 s2 where w: "write_message E p (M x) AttestationBridgeUnavailable s1 = (r2, s2)" by fastforce
    from announcing_write [OF w recorded(2) assms(3) [OF recorded(3)]] assms(4) [of x]
    have wr: "extends E s1 s2 [] \<or> extends E s1 s2 [M x]" "is_Ok r2 \<Longrightarrow> extends E s1 s2 [M x]"
      "re_slot s2 = re_slot s1" "wi_world s2 = wi_world s1" by auto
    from Some recorded(5) w have "s2 = s'" and "r = (case r2 of Ok _ \<Rightarrow> Ok b | Err _ \<Rightarrow> Err AuthorizationDecisionBridgeUnavailable | Crashed \<Rightarrow> Crashed)"
      by (auto simp: and_then_def bridge_value_def decoded_def bridged_def map_err_def write_json_frame_def
          split: outcome.splits)
    with wr recorded(2,3) extends_snoc(2) [OF ext] show ?thesis by (cases r2) auto
  qed
qed

lemma persist_consumption_intent_announces:
  assumes "relay_live E s" and "persist_consumption_intent E d lease lid q qid s = (r, s')"
  shows "\<exists>A. extends E s s' A \<and> (A = [] \<or> (\<exists>n. A = [IntentPersistenceMsg n])) \<and>
    (is_Ok r \<longrightarrow> relay_live E s' \<and> (\<exists>n. A = [IntentPersistenceMsg n]) \<and>
      (\<exists>i. recorded_in (RecordIntent i) (sl_journal (re_slot s')) \<and> ir_consume_request i = q \<and>
        ir_consume_request_identity i = qid \<and> ir_prepared_lease_identity i = lid \<and>
        ir_authorization_decision_relay_identity i = dr_identity d))"
proof -
  let ?intent = "\<lparr>ir_schema_version = 1, ir_identity = [],
        ir_authorization_decision_relay_identity = dr_identity d, ir_prepared_lease = lease,
        ir_prepared_lease_identity = lid, ir_consume_request = q, ir_consume_request_identity = qid\<rparr>"
  show ?thesis
  proof (cases "lease_consumption_intent_relay_evidence_v1_identity E ?intent")
    case None
    with assms(2) show ?thesis
      by (auto simp: persist_consumption_intent_def Let_def intro: extends_refl)
  next
    case (Some i)
    let ?n = "notice (protocol_constant E ''LEASE_CONSUMPTION_INTENT_PERSISTENCE'') i"
    let ?c = "RecordIntent (?intent\<lparr>ir_identity := i\<rparr>)"
    from assms(2) Some have "and_then (record_in_slot E AuthorizationDecisionBridgeUnavailable ?c) (\<lambda>_.
        and_then (bridge_value (lease_consumption_intent_persistence_v1_identity E ?n)) (\<lambda>ni.
        and_then (bridged (write_json_frame E Child (IntentPersistenceMsg (?n\<lparr>pn_identity := ni\<rparr>)))) (\<lambda>_. ret ()))) s = (r, s')"
      by (simp only: persist_consumption_intent_def Let_def and_then_ret_unit bridge_value_then)
    from record_announce [OF assms(1) this] show ?thesis by (fastforce simp: notice_def)
  qed
qed

lemma persist_consumption_announces:
  assumes "relay_live E s" and "persist_consumption E evidence s = (r, s')"
  shows "\<exists>A. extends E s s' A \<and> (A = [] \<or> (\<exists>n. A = [ConsumptionPersistenceMsg n])) \<and>
    (\<forall>l. r = Ok l \<longrightarrow> relay_live E s' \<and> (\<exists>n. A = [ConsumptionPersistenceMsg n]) \<and>
      recorded_in (RecordConsumption l) (sl_journal (re_slot s')) \<and> (\<exists>i. l = evidence\<lparr>lc_identity := i\<rparr>))"
proof (cases "lease_consumption_relay_evidence_v1_identity E evidence")
  case None
  with assms(2) show ?thesis
    by (auto simp: persist_consumption_def intro: extends_refl)
next
  case (Some i)
  let ?l = "evidence\<lparr>lc_identity := i\<rparr>"
  let ?n = "notice (protocol_constant E ''LEASE_CONSUMPTION_PERSISTENCE'') (la_identity (lc_admission ?l))"
  from assms(2) Some have "and_then (record_in_slot E AuthorizationDecisionBridgeUnavailable (RecordConsumption ?l)) (\<lambda>_.
      and_then (bridge_value (lease_consumption_persistence_v1_identity E ?n)) (\<lambda>ni.
      and_then (bridged (write_json_frame E Child (ConsumptionPersistenceMsg (?n\<lparr>pn_identity := ni\<rparr>)))) (\<lambda>_. ret ?l))) s = (r, s')"
    by (simp add: persist_consumption_def Let_def)
  from record_announce [OF assms(1) this] show ?thesis by (fastforce simp: notice_def)
qed

lemma forward_consume_request_announces:
  assumes "relay_live E s" and "recorded_in (RecordIntent i) (sl_journal (re_slot s))" and "ir_consume_request i = q"
    and "forward_consume_request E lid q qid s = (r, s')"
  shows "re_slot s' = re_slot s \<and> wi_world s' = wi_world s \<and>
    (\<exists>A. extends E s s' A \<and> (A = [] \<or> A = [ConsumeRequestMsg q]) \<and> (is_Ok r \<longrightarrow> A = [ConsumeRequestMsg q]))"
proof -
  let ?rest = "\<lambda>_. and_then (bridged (read_json_frame E Broker (consume_response_from_slice E))) (\<lambda>response.
     and_then (bridge_check
         (rp_message_kind (sg_payload response) \<noteq> protocol_constant E ''LEASE_CONSUME_RESPONSE''
          \<or> rp_consume_request_identity (sg_payload response) \<noteq> qid
          \<or> rp_lease_identity (sg_payload response) \<noteq> lid
          \<or> rp_binding_identity (sg_payload response) \<noteq> cr_binding_identity q
          \<or> rp_work_unit_identity (sg_payload response) \<noteq> cr_work_unit_identity q)) (\<lambda>_.
     and_then (bridge_value (message_identity E (protocol_constant E ''LEASE_CONSUME_RESPONSE_DOMAIN_V1'')
         (ConsumeResponseMsg response))) (\<lambda>rid.
     and_then (bridged (write_json_frame E Child (ConsumeResponseMsg response))) (\<lambda>_.
       ret (response, rid)))))"
  have plain: "plain E (?rest u)" for u by (intro plain_intros) simp
  obtain r1 s1 where w: "write_message E Broker (ConsumeRequestMsg q) AttestationBridgeUnavailable s = (r1, s1)"
    by fastforce
  from announcing_write [OF w assms(1)] assms(2,3)
  have wr: "extends E s s1 [] \<or> extends E s s1 [ConsumeRequestMsg q]" "is_Ok r1 \<Longrightarrow> extends E s s1 [ConsumeRequestMsg q]"
    "re_slot s1 = re_slot s" "wi_world s1 = wi_world s" by auto
  show ?thesis
  proof (cases r1)
    case (Ok u)
    with w assms(4) have "?rest () s1 = (r, s')"
      by (simp add: forward_consume_request_def and_then_def bridged_def map_err_def write_json_frame_def)
    from plainD [OF plain this] wr Ok extends_snoc(1) [of E s s1 _ s'] show ?thesis by auto
  qed (use w assms(4) wr in \<open>auto simp: forward_consume_request_def and_then_def bridged_def map_err_def write_json_frame_def\<close>)
qed

lemma plain_then:
  assumes "plain E m" and "and_then m k s = (r, s')"
  obtains (failed) r0 where "\<not> is_Ok r" "extends E s s' []" "m s = (r0, s')" "\<not> is_Ok r0"
  | (went_on) a s1 where "m s = (Ok a, s1)" "extends E s s1 []" "re_slot s1 = re_slot s" "wi_world s1 = wi_world s"
      "k a s1 = (r, s')"
proof (cases "m s")
  case (Pair r1 s1)
  from plainD [OF assms(1) Pair] Pair assms(2) went_on failed show thesis
    by (cases r1) (auto simp: and_then_def)
qed

text \<open>What the checks of the consumption relay establish of the evidence they produce.\<close>

definition consumption_bound :: "decision_relay \<Rightarrow> consumption_relay \<Rightarrow> bool" where
  "consumption_bound d l \<longleftrightarrow>
     (let payload = sg_payload (dr_authorization_decision d); lease = sg_payload (lc_prepared_lease l);
          q = lc_consume_request l; response = sg_payload (lc_consume_response l); a = lc_admission l in
      lc_authorization_decision_relay_identity l = dr_identity d \<and>
      pl_authorization_decision_identity lease = dr_authorization_decision_identity d \<and>
      pl_binding_identity lease = dp_binding_identity payload \<and> pl_work_unit_identity lease = dp_work_unit_identity payload \<and>
      cr_lease_identity q = lc_prepared_lease_identity l \<and>
      cr_binding_identity q = dp_binding_identity payload \<and> cr_work_unit_identity q = dp_work_unit_identity payload \<and>
      rp_consume_request_identity response = lc_consume_request_identity l \<and>
      rp_lease_identity response = lc_prepared_lease_identity l \<and>
      rp_binding_identity response = dp_binding_identity payload \<and> rp_work_unit_identity response = dp_work_unit_identity payload \<and>
      la_prepared_lease_identity a = lc_prepared_lease_identity l \<and>
      la_consume_request_identity a = lc_consume_request_identity l \<and>
      la_consume_response_identity a = lc_consume_response_identity l \<and>
      la_binding_identity a = dp_binding_identity payload \<and> la_work_unit_identity a = dp_work_unit_identity payload \<and>
      la_crossing_transaction_id a = cr_crossing_transaction_id q \<and>
      la_crossing_transaction_identity a = cr_crossing_transaction_identity q)"

lemma consumption_ok_bound:
  assumes "relay_v3_lease_consumption E d s = (Ok l, s')"
  shows "consumption_bound d l"
proof -
  from assms obtain lease lid s1 q qid s2 s3 response rid s4 a s5 where
    "relay_prepared_lease E d s = (Ok (lease, lid), s1)"
    "receive_consume_request E lease lid s1 = (Ok (q, qid), s2)"
    "forward_consume_request E lid q qid s3 = (Ok (response, rid), s4)"
    "receive_consumption_admission E lid q qid rid s4 = (Ok a, s5)"
    and p: "persist_consumption E \<lparr>lc_schema_version = 1, lc_identity = [],
          lc_authorization_decision_relay_identity = dr_identity d,
          lc_prepared_lease = lease, lc_prepared_lease_identity = lid, lc_consume_request = q,
          lc_consume_request_identity = qid, lc_consume_response = response,
          lc_consume_response_identity = rid, lc_admission = a\<rparr> s5 = (Ok l, s')"
    by (auto simp: relay_v3_lease_consumption_def and_then_Ok_iff)
  moreover from p obtain i where "l = \<lparr>lc_schema_version = 1, lc_identity = i,
          lc_authorization_decision_relay_identity = dr_identity d,
          lc_prepared_lease = lease, lc_prepared_lease_identity = lid, lc_consume_request = q,
          lc_consume_request_identity = qid, lc_consume_response = response,
          lc_consume_response_identity = rid, lc_admission = a\<rparr>"
    by (auto simp: persist_consumption_def relay_Ok_iff Let_def)
  ultimately show ?thesis
    by (auto simp: relay_prepared_lease_def receive_consume_request_def forward_consume_request_def
        receive_consumption_admission_def relay_Ok_iff consumption_bound_def)
qed

text \<open>The announcements of a consumption, in their order.\<close>

definition consumption_trace :: "message list \<Rightarrow> bool" where
  "consumption_trace A \<longleftrightarrow> (\<exists>n q m. prefix A [IntentPersistenceMsg n, ConsumeRequestMsg q, ConsumptionPersistenceMsg m])"

lemma consumption_trace_simps [simp]:
  "consumption_trace []" "consumption_trace [IntentPersistenceMsg n]"
  "consumption_trace [IntentPersistenceMsg n, ConsumeRequestMsg q]"
  "consumption_trace [IntentPersistenceMsg n, ConsumeRequestMsg q, ConsumptionPersistenceMsg m]"
  by (auto simp: consumption_trace_def)

lemma consumption_tail_announces:
  assumes live: "relay_live E s" and i: "recorded_in (RecordIntent i) (sl_journal (re_slot s))" "ir_consume_request i = q"
    and run: "and_then (forward_consume_request E lid q qid) (\<lambda>(response, rid).
      and_then (receive_consumption_admission E lid q qid rid) (\<lambda>a. persist_consumption E (ev response rid a))) s = (r, s')"
  shows "\<exists>A. extends E s s' A \<and> (\<exists>m. prefix A [ConsumeRequestMsg q, ConsumptionPersistenceMsg m]) \<and>
    (\<forall>l. r = Ok l \<longrightarrow> relay_live E s' \<and> recorded_in (RecordConsumption l) (sl_journal (re_slot s')) \<and> length A = 2)"
proof -
  obtain r1 s1 where f: "forward_consume_request E lid q qid s = (r1, s1)" by fastforce
  from forward_consume_request_announces [OF live i f] obtain A1 where
    same: "re_slot s1 = re_slot s" "wi_world s1 = wi_world s" and
    A1: "extends E s s1 A1" "A1 = [] \<or> A1 = [ConsumeRequestMsg q]" "is_Ok r1 \<Longrightarrow> A1 = [ConsumeRequestMsg q]" by blast
  show ?thesis
  proof (cases r1)
    case (Ok z)
    obtain response rid where z: "z = (response, rid)" by (cases z)
    from Ok z f run have "and_then (receive_consumption_admission E lid q qid rid)
        (\<lambda>a. persist_consumption E (ev response rid a)) s1 = (r, s')"
      by (simp add: and_then_def [of "forward_consume_request E lid q qid"])
    with relay_steps_plain(3) show ?thesis
    proof (cases rule: plain_then)
      case (failed r0)
      with A1 Ok extends_snoc(1) [of E s s1 A1 s'] show ?thesis by auto
    next
      case (went_on a s2)
      from went_on(3,4) same live have "relay_live E s2" by simp
      from persist_consumption_announces [OF this went_on(5)] obtain A2 where
        A2: "extends E s2 s' A2" "A2 = [] \<or> (\<exists>n. A2 = [ConsumptionPersistenceMsg n])"
        "\<And>l. r = Ok l \<Longrightarrow> relay_live E s' \<and> (\<exists>n. A2 = [ConsumptionPersistenceMsg n]) \<and>
           recorded_in (RecordConsumption l) (sl_journal (re_slot s'))" by metis
      have "extends E s s' (A1 @ A2)" by (rule extends_trans [OF extends_snoc(1) [OF A1(1) went_on(2)] A2(1)])
      with A1(3) Ok A2(2,3) show ?thesis by (intro exI [of _ "A1 @ A2"]) auto
    qed
  qed (use f run A1 in \<open>auto simp: and_then_def\<close>)
qed

lemma relay_v3_lease_consumption_announces:
  assumes live: "relay_live E s" and run: "relay_v3_lease_consumption E d s = (r, s')"
  shows "\<exists>A. extends E s s' A \<and> consumption_trace A \<and>
    (\<forall>l. r = Ok l \<longrightarrow> relay_live E s' \<and> recorded_in (RecordConsumption l) (sl_journal (re_slot s')) \<and> length A = 3)"
  using relay_steps_plain(1) run [unfolded relay_v3_lease_consumption_def]
proof (cases rule: plain_then)
  case (went_on x s1)
  obtain lease lid where x: "x = (lease, lid)" by (cases x)
  from relay_steps_plain(2) went_on(5) [unfolded x prod.case] show ?thesis
  proof (cases rule: plain_then)
    case next1: (went_on y s2)
    obtain q qid where y: "y = (q, qid)" by (cases y)
    from went_on next1 live have live2: "relay_live E s2" and ext2: "extends E s s2 []"
      using extends_snoc(1) [of E s s1 "[]" s2] by simp_all
    obtain r3 s3 where p: "persist_consumption_intent E d lease lid q qid s2 = (r3, s3)" by fastforce
    from persist_consumption_intent_announces [OF live2 p] obtain A3 where
      A3: "extends E s2 s3 A3" "A3 = [] \<or> (\<exists>n. A3 = [IntentPersistenceMsg n])"
      and ok3: "is_Ok r3 \<Longrightarrow> relay_live E s3 \<and> (\<exists>n. A3 = [IntentPersistenceMsg n]) \<and>
        (\<exists>i. recorded_in (RecordIntent i) (sl_journal (re_slot s3)) \<and> ir_consume_request i = q)" by blast
    note ext3 = extends_snoc(2) [OF ext2 A3(1)]
    show ?thesis
    proof (cases r3)
      case (Ok u)
      with ok3 obtain n i where live3: "relay_live E s3" and n: "A3 = [IntentPersistenceMsg n]"
        and i: "recorded_in (RecordIntent i) (sl_journal (re_slot s3))" "ir_consume_request i = q" by auto
      from Ok p next1(5) [unfolded y prod.case] have "and_then (forward_consume_request E lid q qid) (\<lambda>(response, rid).
          and_then (receive_consumption_admission E lid q qid rid) (\<lambda>a. persist_consumption E
            \<lparr>lc_schema_version = 1, lc_identity = [],
             lc_authorization_decision_relay_identity = dr_identity d,
             lc_prepared_lease = lease, lc_prepared_lease_identity = lid, lc_consume_request = q,
             lc_consume_request_identity = qid, lc_consume_response = response,
             lc_consume_response_identity = rid, lc_admission = a\<rparr>)) s3 = (r, s')"
        by (simp add: and_then_def [of "persist_consumption_intent E d lease lid q qid"])
      from consumption_tail_announces [OF live3 i this] obtain A m where
        "extends E s3 s' A" "prefix A [ConsumeRequestMsg q, ConsumptionPersistenceMsg m]"
        and ok: "\<forall>l. r = Ok l \<longrightarrow> relay_live E s' \<and> recorded_in (RecordConsumption l) (sl_journal (re_slot s')) \<and> length A = 2"
        by blast
      then show ?thesis using n extends_trans [OF ext3]
        by (intro exI [of _ "IntentPersistenceMsg n # A"]) (auto simp: consumption_trace_def)
    qed (use next1(5) p ext3 A3(2) in \<open>auto simp: y and_then_def\<close>)
  qed (use went_on(2) extends_snoc(1) in fastforce)
qed auto

definition decision_bound :: "'x wire_env_scheme \<Rightarrow> authorization_request \<Rightarrow> string \<Rightarrow> decision_relay \<Rightarrow> bool" where
  "decision_bound E q rid d \<longleftrightarrow> dr_request_identity d = rid \<and>
     \<not> admission_refused E q rid (dr_authorization_decision d) (dr_authorization_decision_identity d) (dr_admission d)"

lemma decision_round_announces:
  assumes live: "relay_live E s" and run: "decision_round E q rid s = (r, s')"
  shows "extends E s s' [] \<and>
    (\<forall>d. r = Ok d \<longrightarrow> relay_live E s' \<and> recorded_in (RecordDecision d) (sl_journal (re_slot s')) \<and> decision_bound E q rid d)"
proof -
  let ?before = "and_then (bridged (read_json_frame E Broker (decision_from_slice E))) (\<lambda>decision.
     and_then (bridge_check
         (dp_message_kind (sg_payload decision) \<noteq> protocol_constant E ''AUTHORIZATION_DECISION'')) (\<lambda>_.
     and_then (bridge_value (message_identity E (protocol_constant E ''AUTHORIZATION_DECISION_DOMAIN_V1'')
         (DecisionMsg decision))) (\<lambda>did.
     and_then (bridged (write_json_frame E Child (DecisionMsg decision))) (\<lambda>_.
     and_then (bridged (read_json_frame E Child (decision_admission_from_slice E))) (\<lambda>a.
     and_then (bridge_check (admission_refused E q rid decision did a)) (\<lambda>_.
     let evidence = \<lparr>dr_schema_version = 1, dr_identity = [], dr_request_identity = rid,
       dr_authorization_decision = decision, dr_authorization_decision_identity = did, dr_admission = a\<rparr> in
     and_then (bridge_value (authorization_decision_relay_evidence_v1_identity E evidence)) (\<lambda>i.
       ret (evidence\<lparr>dr_identity := i\<rparr>))))))))"
  have plain: "plain E ?before" by (intro plain_intros) simp
  have "decision_round E q rid = and_then ?before (\<lambda>d.
      and_then (record_in_slot E AuthorizationDecisionBridgeUnavailable (RecordDecision d)) (\<lambda>_. ret d))"
    by (simp add: decision_round_def and_then_assoc Let_def)
  with run have "and_then ?before (\<lambda>d.
      and_then (record_in_slot E AuthorizationDecisionBridgeUnavailable (RecordDecision d)) (\<lambda>_. ret d)) s = (r, s')" by simp
  with plain show ?thesis
  proof (cases rule: plain_then)
    case (went_on d s1)
    from went_on(1) have bound: "decision_bound E q rid d"
      by (auto simp: relay_Ok_iff Let_def decision_bound_def)
    from live went_on(3,4) have "relay_live E s1" by simp
    from this went_on(5) show ?thesis
    proof (cases rule: slot_ahead.recorded_then)
      case (refused r0)
      with extends_snoc(1) [OF went_on(2) record_in_slot_extends] show ?thesis by auto
    next
      case (recorded s2)
      with bound extends_snoc(1) [OF went_on(2) record_in_slot_extends [OF recorded(1)]] show ?thesis by auto
    qed
  qed auto
qed

text \<open>What a relay that ends leaves behind, by the decision it ends with.\<close>

definition relay_settled ::
  "'x wire_env_scheme \<Rightarrow> authorization_request \<Rightarrow> string \<Rightarrow> authorization_decision \<times> consumption_relay option
     \<Rightarrow> message list \<Rightarrow> active_slot_journal \<Rightarrow> bool" where
  "relay_settled E q rid result A j \<longleftrightarrow>
     (\<exists>d. decision_bound E q rid d \<and> relay_decision d = fst result \<and>
       (case result of
          (Denied, None) \<Rightarrow> recorded_in (RecordDecision d) j \<and> A = []
        | (Allowed, Some l) \<Rightarrow> recorded_in (RecordConsumption l) j \<and> consumption_bound d l \<and> length A = 3
        | _ \<Rightarrow> False))"

lemma decision_loop_announces:
  "relay_live E s \<Longrightarrow> decision_loop E q rid s = (r, s') \<Longrightarrow>
   \<exists>A. extends E s s' A \<and> consumption_trace A \<and>
     (\<forall>x. r = Ok x \<longrightarrow> relay_live E s' \<and> relay_settled E q rid x A (sl_journal (re_slot s')))"
proof (induction E q rid s arbitrary: r s' rule: decision_loop.induct)
  case (1 E q rid s)
  obtain r1 s1 where round: "decision_round E q rid s = (r1, s1)" by fastforce
  note one = decision_round_announces [OF "1.prems"(1) round]
  note run = "1.prems"(2) [unfolded decision_loop.simps [of E q rid s] round prod.case]
  show ?case
  proof (cases r1)
    case (Ok d)
    with one have ext: "extends E s s1 []" and live: "relay_live E s1"
      and d: "recorded_in (RecordDecision d) (sl_journal (re_slot s1))" "decision_bound E q rid d" by auto
    show ?thesis
    proof (cases "relay_decision d")
      case Pending
      with Ok run have "decision_loop E q rid s1 = (r, s')" by simp
      from "1.IH" [OF round [symmetric] Ok Pending live this] extends_snoc(2) [OF ext] show ?thesis by blast
    next
      case Denied
      with Ok run ext live d show ?thesis by (intro exI [of _ "[]"]) (auto simp: relay_settled_def)
    next
      case Allowed
      obtain r2 s2 where lease: "relay_v3_lease_consumption E d s1 = (r2, s2)" by fastforce
      from relay_v3_lease_consumption_announces [OF live lease] obtain A where
        A: "extends E s1 s2 A" "consumption_trace A"
        and ok: "\<forall>l. r2 = Ok l \<longrightarrow> relay_live E s2 \<and> recorded_in (RecordConsumption l) (sl_journal (re_slot s2)) \<and> length A = 3"
        by blast
      from Allowed Ok run lease have
        "s' = s2 \<and> r = (case r2 of Ok l \<Rightarrow> Ok (Allowed, Some l) | Err e \<Rightarrow> Err e | Crashed \<Rightarrow> Crashed)"
        by (auto simp: and_then_def split: outcome.splits)
      with A ok d(2) Allowed consumption_ok_bound [of E d s1 _ s2] lease extends_snoc(2) [OF ext A(1)] show ?thesis
        by (intro exI [of _ A]) (auto simp: relay_settled_def split: outcome.splits)
    qed
  qed (use run one in \<open>auto simp: relay_settled_def\<close>)
qed

lemma relay_decisions_announce:
  assumes "relay_live E s" and "relay_v3_authorization_decisions E q rid s = (r, s')"
  shows "\<exists>A. extends E s s' A \<and> consumption_trace A \<and>
     (\<forall>x. r = Ok x \<longrightarrow> relay_live E s' \<and> relay_settled E q rid x A (sl_journal (re_slot s')))"
proof -
  have "plain E (bridged (write_json_frame E Broker (AuthorizationMsg q)))" by (intro plain_intros) simp
  from this assms(2) [unfolded relay_v3_authorization_decisions_def] show ?thesis
  proof (cases rule: plain_then)
    case (went_on u s1)
    from assms(1) went_on(3,4) have "relay_live E s1" by simp
    from decision_loop_announces [OF this went_on(5)] extends_snoc(2) [OF went_on(2)] show ?thesis by blast
  qed auto
qed


section \<open>Properties of the authorization relay\<close>

text \<open>
  C18. Write-ahead. Whatever the broker and the child send, at any fault of the store and however the
  relay ends, a consume request is forwarded to the broker, and a persistence notice is given to
  the child, only while the slot file holds a valid journal with the complete chain of evidence and
  exactly the subject of that message: the intent for the consume request and its notice, the
  verified consumption for the consumption notice. They leave in this order, each at most once.
\<close>

theorem relay_write_ahead:
  assumes "relay_live E s" and "relay_v3_authorization_decisions E q rid s = (r, s')"
  shows "\<exists>new. wi_sent s' = wi_sent s @ new \<and> list_all (backed E (sl_path (re_slot s))) new \<and>
    consumption_trace (announcements new)"
  using relay_decisions_announce [OF assms] by (auto simp: extends_def)

text \<open>
  C19. Outcome of the relay. When the relay returns, its decision is never \<open>Pending\<close>. A denial is
  returned without a lease, with the denial recorded on disk and nothing announced. An
  authorization is returned with a consumption that is recorded on disk, bound link by link to
  the decision, and announced to both peers; and the decision in question was admitted for exactly
  the authorization request that was forwarded. The slot is live afterwards.
\<close>

theorem relay_outcome:
  assumes "relay_live E s" and "relay_v3_authorization_decisions E q rid s = (Ok result, s')"
  shows "relay_live E s' \<and> (\<exists>new. wi_sent s' = wi_sent s @ new \<and>
    relay_settled E q rid result (announcements new) (sl_journal (re_slot s')))"
  using relay_decisions_announce [OF assms] by (auto simp: extends_def)

end
