(* ===== verification/Selected_Relay.thy ===== *)
theory Selected_Relay
  imports Relay
begin

text \<open>
  The relay of the selected execution, \<open>relay_selected_execution_with_secret_binding\<close> of
  \<open>src/prepared_child.rs\<close>: the state machine of the secret-delivery exchange, the completion the
  child reports, its record and acknowledgement, the wait for the child and the two threads that
  carry its output to the client.

  The closures that answer a request of the child are arguments, \<open>secret_handlers\<close>; each is called
  at most once. They act on stores of their own (the replay stores of snapshots and capability
  observations), which are no part of the state here. A response is the JSON value it becomes.
\<close>


section \<open>The secret-delivery state machine\<close>

datatype secret_delivery_relay_state =
    AwaitPreludeOrLegacyOrCompletion | PreludeResponded | SnapshotResponded | SnapshotV2Responded
  | LegacyBound | V2Bound | V3Bound | V4Bound

definition CAPABILITY_KIND :: "'x wire_env_scheme \<Rightarrow> string" where
  "CAPABILITY_KIND E = protocol_constant E ''PROTECTED_LAUNCHER_CAPABILITY_OBSERVATION_REQUEST''"

definition SNAPSHOT_KIND :: "'x wire_env_scheme \<Rightarrow> string" where
  "SNAPSHOT_KIND E = protocol_constant E ''PROTECTED_AUTHORITY_SNAPSHOT_REQUEST''"

definition SNAPSHOT_V2_KIND :: "'x wire_env_scheme \<Rightarrow> string" where
  "SNAPSHOT_V2_KIND E = protocol_constant E ''PROTECTED_AUTHORITY_SNAPSHOT_REQUEST_V2''"

definition BINDING_KIND :: "'x wire_env_scheme \<Rightarrow> string" where
  "BINDING_KIND E = protocol_constant E ''PROTECTED_LAUNCHER_SECRET_DELIVERY_TRANSACTION_BINDING_REQUEST''"

definition BINDING_V2_KIND :: "'x wire_env_scheme \<Rightarrow> string" where
  "BINDING_V2_KIND E = protocol_constant E ''PROTECTED_LAUNCHER_SECRET_DELIVERY_TRANSACTION_BINDING_REQUEST_V2''"

definition BINDING_V3_KIND :: "'x wire_env_scheme \<Rightarrow> string" where
  "BINDING_V3_KIND E = protocol_constant E ''PROTECTED_LAUNCHER_SECRET_DELIVERY_TRANSACTION_BINDING_REQUEST_V3''"

definition BINDING_V4_KIND :: "'x wire_env_scheme \<Rightarrow> string" where
  "BINDING_V4_KIND E = protocol_constant E ''PROTECTED_LAUNCHER_SECRET_DELIVERY_TRANSACTION_BINDING_REQUEST_V4''"

definition COMPLETION_KIND :: "'x wire_env_scheme \<Rightarrow> string" where
  "COMPLETION_KIND E = protocol_constant E ''LAUNCHER_EXECUTION_COMPLETION''"

definition request_kinds :: "'x wire_env_scheme \<Rightarrow> string list" where
  "request_kinds E = [CAPABILITY_KIND E, SNAPSHOT_KIND E, SNAPSHOT_V2_KIND E, BINDING_KIND E,
     BINDING_V2_KIND E, BINDING_V3_KIND E, BINDING_V4_KIND E]"

definition advance_secret_delivery_relay_state ::
  "'x wire_env_scheme \<Rightarrow> secret_delivery_relay_state \<Rightarrow> string option
     \<Rightarrow> prepared_child_error + secret_delivery_relay_state" where
  "advance_secret_delivery_relay_state E st kind =
     (case kind of
        None \<Rightarrow> Inr st
      | Some k \<Rightarrow>
          if st = AwaitPreludeOrLegacyOrCompletion \<and> k = CAPABILITY_KIND E then Inr PreludeResponded
          else if st = PreludeResponded \<and> k = SNAPSHOT_KIND E then Inr SnapshotResponded
          else if st = PreludeResponded \<and> k = SNAPSHOT_V2_KIND E then Inr SnapshotV2Responded
          else if st = AwaitPreludeOrLegacyOrCompletion \<and> k = BINDING_KIND E then Inr LegacyBound
          else if st = SnapshotResponded \<and> k = BINDING_V2_KIND E then Inr V2Bound
          else if st = SnapshotResponded \<and> k = BINDING_V3_KIND E then Inr V3Bound
          else if st = SnapshotV2Responded \<and> k = BINDING_V4_KIND E then Inr V4Bound
          else if k \<in> set (request_kinds E) then Inl AuthorizationAdmissionMismatch
          else Inr st)"

definition parse_completion_for_state ::
  "'x wire_env_scheme \<Rightarrow> json \<Rightarrow> secret_delivery_relay_state \<Rightarrow> prepared_child_error + completion" where
  "parse_completion_for_state E v st =
     (if st \<notin> {LegacyBound, V2Bound, V3Bound, V4Bound} then Inl AuthorizationAdmissionMismatch
      else if is_some_and (\<lambda>k. k \<in> set (request_kinds E)) (json_message_kind v)
      then Inl AuthorizationAdmissionMismatch
      else (case completion_from_value E v of
              Some c \<Rightarrow> Inr c | None \<Rightarrow> Inl ExecutionCompletionUnavailable))"

definition parse_pre_binding_refusal_completion ::
  "'x wire_env_scheme \<Rightarrow> json \<Rightarrow> secret_delivery_relay_state \<Rightarrow> prepared_child_error + completion option" where
  "parse_pre_binding_refusal_completion E v st =
     (if json_message_kind v \<noteq> Some (COMPLETION_KIND E) then Inr None
      else if st \<notin> {PreludeResponded, SnapshotResponded, SnapshotV2Responded}
      then Inl AuthorizationAdmissionMismatch
      else (case completion_from_value E v of
              None \<Rightarrow> Inl ExecutionCompletionUnavailable
            | Some c \<Rightarrow>
                if ec_outcome c \<noteq> FailedOutcome then Inl AuthorizationAdmissionMismatch
                else Inr (Some c)))"


section \<open>The exchange with the child\<close>

record secret_handlers =
  observe_same_child_capability :: "json \<Rightarrow> prepared_child_error + json \<times> json"
  respond_authority_snapshot :: "json \<Rightarrow> prepared_child_error + json"
  respond_authority_snapshot_v2 :: "json \<Rightarrow> prepared_child_error + json"
  bind_secret_delivery :: "json \<Rightarrow> prepared_child_error + json"
  bind_snapshot_secret_delivery :: "json \<Rightarrow> prepared_child_error + json"
  bind_snapshot_secret_delivery_v3 :: "json \<Rightarrow> prepared_child_error + json"
  bind_snapshot_secret_delivery_v4 :: "json \<Rightarrow> prepared_child_error + json"

definition read_value_blocking :: "'x wire_env_scheme \<Rightarrow> json relay" where
  "read_value_blocking E = read_plain E Child ExecutionCompletionUnavailable (value_from_slice E)"

definition write_json_frame_blocking :: "'x wire_env_scheme \<Rightarrow> message \<Rightarrow> unit relay" where
  "write_json_frame_blocking E m = write_message E Child m ExecutionCompletionUnavailable"

definition reply :: "'x wire_env_scheme \<Rightarrow> message \<Rightarrow> unit relay" where
  "reply E m = map_err (\<lambda>_. AuthorizationAdmissionMismatch) (write_json_frame_blocking E m)"

text \<open>A request parsed at its type and passed to its closure.\<close>

definition handle :: "'x wire_env_scheme \<Rightarrow> string \<Rightarrow> (json \<Rightarrow> prepared_child_error + 'a) \<Rightarrow> json \<Rightarrow> 'a relay" where
  "handle E t f v =
     and_then (decoded AuthorizationAdmissionMismatch (request_from_value E t v)) (\<lambda>request. lift_result (f request))"

definition binding_exchange ::
  "'x wire_env_scheme \<Rightarrow> secret_handlers \<Rightarrow> secret_delivery_relay_state \<Rightarrow> json \<Rightarrow> completion relay" where
  "binding_exchange E H st binding =
     and_then (lift_result (advance_secret_delivery_relay_state E st (json_message_kind binding))) (\<lambda>st'.
     and_then
       (if json_message_kind binding = Some (BINDING_V2_KIND E)
        then handle E ''ProtectedLauncherSecretDeliveryTransactionBindingRequestV2'' (bind_snapshot_secret_delivery H) binding
        else if json_message_kind binding = Some (BINDING_V3_KIND E)
        then handle E ''ProtectedLauncherSecretDeliveryTransactionBindingRequestV3'' (bind_snapshot_secret_delivery_v3 H) binding
        else if json_message_kind binding = Some (BINDING_V4_KIND E)
        then handle E ''ProtectedLauncherSecretDeliveryTransactionBindingRequestV4'' (bind_snapshot_secret_delivery_v4 H) binding
        else throw AuthorizationAdmissionMismatch) (\<lambda>response.
     and_then (reply E (BindingMsg response)) (\<lambda>_.
     and_then (read_value_blocking E) (\<lambda>value. lift_result (parse_completion_for_state E value st')))))"

definition snapshot_exchange ::
  "'x wire_env_scheme \<Rightarrow> secret_handlers \<Rightarrow> secret_delivery_relay_state \<Rightarrow> json \<Rightarrow> completion relay" where
  "snapshot_exchange E H st0 snapshot =
     and_then (lift_result (advance_secret_delivery_relay_state E st0 (json_message_kind snapshot))) (\<lambda>st.
     and_then
       (if st = SnapshotResponded
        then handle E ''ProtectedAuthoritySnapshotRequestV1'' (respond_authority_snapshot H) snapshot
        else if st = SnapshotV2Responded
        then handle E ''ProtectedAuthoritySnapshotRequestV2'' (respond_authority_snapshot_v2 H) snapshot
        else throw AuthorizationAdmissionMismatch) (\<lambda>response.
     and_then (reply E (SnapshotMsg response)) (\<lambda>_.
     and_then (read_value_blocking E) (\<lambda>binding.
     and_then (lift_result (parse_pre_binding_refusal_completion E binding st)) (\<lambda>refusal.
       case refusal of Some c \<Rightarrow> ret c | None \<Rightarrow> binding_exchange E H st binding)))))"

definition prelude_exchange ::
  "'x wire_env_scheme \<Rightarrow> secret_handlers \<Rightarrow> secret_delivery_relay_state \<Rightarrow> json \<Rightarrow> completion relay" where
  "prelude_exchange E H st first =
     and_then (handle E ''ProtectedLauncherCapabilityObservationRequestV1'' (observe_same_child_capability H) first)
       (\<lambda>(response, prelude).
     and_then (reply E (CapabilityMsg response)) (\<lambda>_.
     and_then (reply E (PreludeMsg prelude)) (\<lambda>_.
     and_then (read_value_blocking E) (\<lambda>snapshot.
     and_then (lift_result (parse_pre_binding_refusal_completion E snapshot st)) (\<lambda>refusal.
       case refusal of Some c \<Rightarrow> ret c | None \<Rightarrow> snapshot_exchange E H st snapshot)))))"

definition legacy_exchange ::
  "'x wire_env_scheme \<Rightarrow> secret_handlers \<Rightarrow> secret_delivery_relay_state \<Rightarrow> json \<Rightarrow> completion relay" where
  "legacy_exchange E H st first =
     and_then (handle E ''ProtectedLauncherSecretDeliveryTransactionBindingRequestV1'' (bind_secret_delivery H) first)
       (\<lambda>response.
     and_then (reply E (BindingMsg response)) (\<lambda>_.
     and_then (read_value_blocking E) (\<lambda>value. lift_result (parse_completion_for_state E value st))))"

text \<open>The match on the first frame, in the order of its arms.\<close>

definition receive_completion :: "'x wire_env_scheme \<Rightarrow> secret_handlers \<Rightarrow> completion relay" where
  "receive_completion E H =
     and_then (read_value_blocking E) (\<lambda>first.
       let kind = json_message_kind first in
       if kind = Some (BINDING_KIND E) then
         and_then (lift_result (advance_secret_delivery_relay_state E AwaitPreludeOrLegacyOrCompletion kind))
           (\<lambda>st. legacy_exchange E H st first)
       else if kind = Some (CAPABILITY_KIND E) then
         and_then (lift_result (advance_secret_delivery_relay_state E AwaitPreludeOrLegacyOrCompletion kind))
           (\<lambda>st. prelude_exchange E H st first)
       else if kind \<in> {Some (BINDING_V2_KIND E), Some (BINDING_V3_KIND E), Some (BINDING_V4_KIND E)}
       then throw AuthorizationAdmissionMismatch
       else decoded ExecutionCompletionUnavailable (completion_from_value E first))"



section \<open>Waiting for the child\<close>

text \<open>
  An answer of \<open>waitpid\<close> for the child: its status word, an interrupted call, or another error. The
  status macros are those of Linux.
\<close>

datatype wait_event = Waited "32 word" | WaitInterrupted | WaitFailed

definition WIFEXITED :: "32 word \<Rightarrow> bool" where
  "WIFEXITED status \<longleftrightarrow> status AND 0x7f = 0"

definition WEXITSTATUS :: "32 word \<Rightarrow> int" where
  "WEXITSTATUS status = sint (drop_bit 8 status AND 0xff)"

definition WIFSIGNALED :: "32 word \<Rightarrow> bool" where
  "WIFSIGNALED status \<longleftrightarrow> 2 \<le> sint (ucast ((status AND 0x7f) + 1) :: 8 word)"

definition WTERMSIG :: "32 word \<Rightarrow> int" where
  "WTERMSIG status = sint (status AND 0x7f)"

definition exit_code_of :: "32 word \<Rightarrow> int option" where
  "exit_code_of status =
     (if WIFEXITED status then Some (WEXITSTATUS status)
      else if WIFSIGNALED status then Some (128 + WTERMSIG status)
      else None)"

text \<open>The result and the pid that is kept: zero once the child is reaped.\<close>

fun wait_for_status :: "int \<Rightarrow> wait_event list \<Rightarrow> 32 word option \<times> int" where
  "wait_for_status pid (Waited status # es) = (Some status, 0)"
| "wait_for_status pid (WaitInterrupted # es) = wait_for_status pid es"
| "wait_for_status pid (WaitFailed # es) = (None, pid)"
| "wait_for_status pid [] = (None, pid)"

definition wait_and_reap_selected_child :: "int \<Rightarrow> wait_event list \<Rightarrow> (prepared_child_error + int option) \<times> int" where
  "wait_and_reap_selected_child pid es =
     (if pid \<le> 0 then (Inl prepared_child_error.CleanupFailed, pid)
      else (case wait_for_status pid es of
              (None, pid') \<Rightarrow> (Inl prepared_child_error.CleanupFailed, pid')
            | (Some status, pid') \<Rightarrow>
                (case exit_code_of status of
                   Some code \<Rightarrow> (Inr (Some code), pid')
                 | None \<Rightarrow> (Inl prepared_child_error.CleanupFailed, pid'))))"

datatype kill_result = KillSent | KillNoProcess | KillRefused

definition terminate_and_reap :: "int \<Rightarrow> kill_result \<Rightarrow> wait_event list \<Rightarrow> (prepared_child_error + unit) \<times> int" where
  "terminate_and_reap pid kill es =
     (if pid \<le> 0 then (Inr (), pid)
      else if kill = KillRefused then (Inl prepared_child_error.CleanupFailed, pid)
      else (case wait_for_status pid es of
              (Some _, pid') \<Rightarrow> (Inr (), pid')
            | (None, pid') \<Rightarrow> (Inl prepared_child_error.CleanupFailed, pid')))"


section \<open>Output threads\<close>

text \<open>
  Each thread reads a chunk, takes the lock, numbers and sends the frame and advances the shared
  counter. The two threads interleave in any order, chunk by chunk.
\<close>

record outputs =
  op_source :: "output_stream \<Rightarrow> read_event list"
  op_done :: "output_stream \<Rightarrow> (prepared_child_error + unit) option"
  op_sequence :: "64 word"

definition saturating_succ :: "64 word \<Rightarrow> 64 word" where
  "saturating_succ n = (if n = -1 then n else n + 1)"

definition finish_thread :: "output_stream \<Rightarrow> prepared_child_error + unit \<Rightarrow> outputs \<Rightarrow> outputs" where
  "finish_thread st r out = out\<lparr>op_done := (op_done out)(st := Some r)\<rparr>"

definition send_chunk ::
  "'x wire_env_scheme \<Rightarrow> string \<Rightarrow> output_stream \<Rightarrow> string \<Rightarrow> outputs \<Rightarrow> relay_state \<Rightarrow> outputs \<times> relay_state" where
  "send_chunk E invocation st payload out s =
     (let frame = \<lparr>of_message_kind = protocol_constant E ''LAUNCHER_OUTPUT'',
        of_protocol_version = protocol_constant E ''SYSTEMD_LAUNCHER_SERVICE_PROTOCOL_V1'',
        of_invocation_id = invocation, of_sequence = op_sequence out, of_stream = st, of_payload = payload\<rparr> in
      if \<not> validate_launcher_output_frame_v1 E frame
      then (finish_thread st (Inl OutputBridgeUnavailable) out, s)
      else (case write_message E Client (OutputMsg frame) OutputBridgeUnavailable s of
              (Ok _, s') \<Rightarrow> (out\<lparr>op_sequence := saturating_succ (op_sequence out)\<rparr>, s')
            | (_, s') \<Rightarrow> (finish_thread st (Inl OutputBridgeUnavailable) out, s')))"

text \<open>One iteration of the loop of a thread that has not ended. A read into no space returns nothing.\<close>

fun output_step ::
  "'x wire_env_scheme \<Rightarrow> string \<Rightarrow> output_stream \<Rightarrow> outputs \<Rightarrow> relay_state \<Rightarrow> outputs \<times> relay_state" where
  "output_step E invocation st out s =
     (if op_done out st \<noteq> None then (out, s)
      else (case op_source out st of
         [] \<Rightarrow> (finish_thread st (Inr ()) out, s)
       | ReadInterrupted # es \<Rightarrow> (out\<lparr>op_source := (op_source out)(st := es)\<rparr>, s)
       | ReadFailed # es \<Rightarrow> (finish_thread st (Inl OutputBridgeUnavailable) out, s)
       | Bytes bs # es \<Rightarrow>
           let n = max_launcher_output_payload_bytes E; rest = drop n bs in
           if bs = [] \<or> n = 0 then (finish_thread st (Inr ()) out, s)
           else send_chunk E invocation st (take n bs)
                  (out\<lparr>op_source := (op_source out)(st := (if rest = [] then es else Bytes rest # es))\<rparr>) s))"

fun output_steps ::
  "'x wire_env_scheme \<Rightarrow> string \<Rightarrow> output_stream list \<Rightarrow> outputs \<Rightarrow> relay_state \<Rightarrow> outputs \<times> relay_state" where
  "output_steps E invocation [] out s = (out, s)"
| "output_steps E invocation (st # sts) out s =
     (case output_step E invocation st out s of (out', s') \<Rightarrow> output_steps E invocation sts out' s')"

text \<open>
  The threads run as \<open>schedule\<close> interleaves them; \<open>join\<close> then waits for the one and for the other.
  The iterations a thread can still need bound how long it has to be run.
\<close>

definition output_work :: "read_event list \<Rightarrow> nat" where
  "output_work es = Suc (sum_list (map (\<lambda>e. case e of Bytes bs \<Rightarrow> Suc (length bs) | _ \<Rightarrow> 1) es))"

definition join_thread ::
  "'x wire_env_scheme \<Rightarrow> string \<Rightarrow> output_stream \<Rightarrow> outputs \<Rightarrow> relay_state \<Rightarrow> outputs \<times> relay_state" where
  "join_thread E invocation st out s =
     output_steps E invocation (replicate (output_work (op_source out st)) st) out s"

definition relay_outputs ::
  "'x wire_env_scheme \<Rightarrow> string \<Rightarrow> output_stream list \<Rightarrow> (output_stream \<Rightarrow> read_event list) \<Rightarrow> relay_state
     \<Rightarrow> outputs \<times> relay_state" where
  "relay_outputs E invocation schedule source s =
     (case output_steps E invocation schedule \<lparr>op_source = source, op_done = (\<lambda>_. None), op_sequence = 0\<rparr> s of
        (out1, s1) \<Rightarrow>
          (case join_thread E invocation Stdout out1 s1 of
             (out2, s2) \<Rightarrow> join_thread E invocation Stderr out2 s2))"


section \<open>The relay of the selected execution\<close>

record selected_child =
  xc_record :: child_process
  xc_pid :: int
  xc_stdout :: "read_event list option"
  xc_stderr :: "read_event list option"
  xc_client_clone :: bool
  xc_schedule :: "output_stream list"
  xc_waits :: "wait_event list"

definition completion_mismatch ::
  "'x wire_env_scheme \<Rightarrow> child_process \<Rightarrow> consumption_relay \<Rightarrow> completion \<Rightarrow> bool" where
  "completion_mismatch E child l c \<longleftrightarrow>
     launcher_execution_completion_v1_identity E c \<noteq> Some (ec_identity c)
     \<or> ec_invocation_id c \<noteq> ch_invocation_id child
     \<or> ec_lease_consumption_admission_identity c \<noteq> la_identity (lc_admission l)
     \<or> ec_work_unit_identity c \<noteq> la_work_unit_identity (lc_admission l)
     \<or> ec_crossing_transaction_id c \<noteq> la_crossing_transaction_id (lc_admission l)
     \<or> ec_pending_crossing_transaction_identity c \<noteq> la_crossing_transaction_identity (lc_admission l)"

text \<open>The closure \<open>persist_completion\<close> and the acknowledgement that follows it.\<close>

definition acknowledge_completion :: "'x wire_env_scheme \<Rightarrow> completion \<Rightarrow> unit relay" where
  "acknowledge_completion E c =
     and_then (record_in_slot E ExecutionCompletionPersistenceFailed (RecordCompletion c)) (\<lambda>_.
     let n = notice (protocol_constant E ''LAUNCHER_EXECUTION_COMPLETION_PERSISTENCE'') (ec_identity c) in
     and_then (decoded ExecutionCompletionIdentityMismatch
         (launcher_execution_completion_persistence_v1_identity E n)) (\<lambda>ni.
       write_json_frame_blocking E (CompletionPersistenceMsg (n\<lparr>pn_identity := ni\<rparr>))))"

definition join_outputs :: "'x wire_env_scheme \<Rightarrow> selected_child \<Rightarrow> (output_stream \<Rightarrow> read_event list) \<Rightarrow> unit relay" where
  "join_outputs E X source s =
     (case relay_outputs E (ch_invocation_id (xc_record X)) (xc_schedule X) source s of
        (out, s') \<Rightarrow>
          if op_done out Stdout \<noteq> Some (Inr ()) \<or> op_done out Stderr \<noteq> Some (Inr ())
          then (Err OutputBridgeUnavailable, s') else (Ok (), s'))"

definition relay_selected_execution_with_secret_binding ::
  "'x wire_env_scheme \<Rightarrow> secret_handlers \<Rightarrow> selected_child \<Rightarrow> consumption_relay \<Rightarrow> (completion \<times> int option) relay" where
  "relay_selected_execution_with_secret_binding E H X l =
     and_then (decoded OutputBridgeUnavailable (xc_stdout X)) (\<lambda>out.
     and_then (decoded OutputBridgeUnavailable (xc_stderr X)) (\<lambda>err.
       if \<not> xc_client_clone X then throw OutputBridgeUnavailable
       else
     and_then (receive_completion E H) (\<lambda>c.
       if completion_mismatch E (xc_record X) l c then throw ExecutionCompletionIdentityMismatch
       else
     and_then (acknowledge_completion E c) (\<lambda>_.
     and_then (lift_result (fst (wait_and_reap_selected_child (xc_pid X) (xc_waits X)))) (\<lambda>observed.
     and_then (join_outputs E X (\<lambda>st. case st of Stdout \<Rightarrow> out | Stderr \<Rightarrow> err)) (\<lambda>_.
       if observed \<noteq> ec_exit_code c then throw ExecutionCompletionExitMismatch
       else ret (c, observed)))))))"


section \<open>The output threads end and number every frame\<close>

lemma send_chunk_other:
  "send_chunk E i st p out s = (out', s') \<Longrightarrow> st' \<noteq> st \<Longrightarrow>
     op_source out' = op_source out \<and> op_done out' st' = op_done out st'"
  by (auto simp: send_chunk_def Let_def finish_thread_def split: if_splits prod.splits outcome.splits)

lemma send_chunk_source: "send_chunk E i st p out s = (out', s') \<Longrightarrow> op_source out' = op_source out"
  by (auto simp: send_chunk_def Let_def finish_thread_def split: if_splits prod.splits outcome.splits)

lemma output_step_other:
  "output_step E i st out s = (out', s') \<Longrightarrow> st' \<noteq> st \<Longrightarrow>
     op_source out' st' = op_source out st' \<and> op_done out' st' = op_done out st'"
  by (auto simp: finish_thread_def Let_def split: if_splits list.splits read_event.splits dest!: send_chunk_other)

lemma output_step_progress:
  assumes "output_step E i st out s = (out', s')"
  shows "op_done out' st \<noteq> None \<or> output_work (op_source out' st) < output_work (op_source out st)"
  using assms
  by (auto simp: finish_thread_def Let_def output_work_def split: if_splits list.splits read_event.splits
      dest!: send_chunk_source)

lemma output_step_done: "op_done out st \<noteq> None \<Longrightarrow> output_step E i st' out s = (out', s') \<Longrightarrow> op_done out' st = op_done out st"
  by (cases "st' = st") (auto dest: output_step_other simp del: output_step.simps simp: output_step.simps [of E i st])

lemma output_steps_done: "op_done out st \<noteq> None \<Longrightarrow> output_steps E i sts out s = (out', s') \<Longrightarrow> op_done out' st = op_done out st"
proof (induction sts arbitrary: out s)
  case (Cons st' sts)
  obtain out1 s1 where one: "output_step E i st' out s = (out1, s1)" by fastforce
  from output_step_done [OF Cons.prems(1) one] Cons.prems(1) have "op_done out1 st = op_done out st" "op_done out1 st \<noteq> None" by simp_all
  with Cons.IH [of out1 s1] Cons.prems(2) one show ?case by (simp del: output_step.simps)
qed simp

lemma replicate_steps_end:
  "output_work (op_source out st) \<le> n \<Longrightarrow> output_steps E i (replicate n st) out s = (out', s') \<Longrightarrow> op_done out' st \<noteq> None"
proof (induction n arbitrary: out s)
  case 0
  then show ?case by (simp add: output_work_def)
next
  case (Suc n)
  obtain out1 s1 where one: "output_step E i st out s = (out1, s1)" by fastforce
  from Suc.prems(2) one have rest: "output_steps E i (replicate n st) out1 s1 = (out', s')"
    by (simp del: output_step.simps)
  from output_step_progress [OF one] show ?case
  proof
    assume "op_done out1 st \<noteq> None"
    from output_steps_done [OF this rest] this show ?thesis by simp
  next
    assume "output_work (op_source out1 st) < output_work (op_source out st)"
    with Suc.prems(1) Suc.IH [OF _ rest] show ?thesis by simp
  qed
qed

lemma join_thread_ends: "join_thread E i st out s = (out', s') \<Longrightarrow> op_done out' st \<noteq> None"
  unfolding join_thread_def by (rule replicate_steps_end [OF order_refl])

text \<open>
  What a run of the threads without a failure sends: frames numbered by the shared counter, whose
  payloads are, stream by stream, what was read.
\<close>

definition frames_of :: "output_stream \<Rightarrow> output_frame list \<Rightarrow> string" where
  "frames_of st fs = concat (map of_payload (filter (\<lambda>f. of_stream f = st) fs))"

definition output_left :: "outputs \<Rightarrow> output_stream \<Rightarrow> string" where
  "output_left out st = (if op_done out st = None then pending (op_source out st) else [])"

definition sent_frames :: "relay_state \<Rightarrow> output_frame list \<Rightarrow> relay_state \<Rightarrow> bool" where
  "sent_frames s fs s' \<longleftrightarrow> wi_sent s' = wi_sent s @ map (\<lambda>f. (Client, OutputMsg f, wi_world s)) fs \<and>
     re_slot s' = re_slot s \<and> wi_world s' = wi_world s \<and> wi_in s' = wi_in s"

definition clean :: "outputs \<Rightarrow> bool" where
  "clean out \<longleftrightarrow> (\<forall>st e. op_done out st \<noteq> Some (Inl e))"

definition numbered :: "64 word \<Rightarrow> output_frame list \<Rightarrow> 64 word \<Rightarrow> bool" where
  "numbered n fs n' \<longleftrightarrow> n' = (saturating_succ ^^ length fs) n \<and>
     map of_sequence fs = map (\<lambda>i. (saturating_succ ^^ i) n) [0..<length fs]"

lemma numbered_Nil [simp]: "numbered n [] n' \<longleftrightarrow> n' = n"
  by (auto simp: numbered_def)

lemma numbered_Cons:
  "of_sequence f = n \<Longrightarrow> numbered (saturating_succ n) fs n' \<Longrightarrow> numbered n (f # fs) n'"
  by (auto simp: numbered_def upt_conv_Cons funpow_swap1 map_Suc_upt [symmetric] o_def simp del: upt_Suc)

lemma output_step_cases:
  assumes "output_step E i st out s = (out1, s1)" and "0 < max_launcher_output_payload_bytes E"
  obtains (quiet) "s1 = s" "op_sequence out1 = op_sequence out" "\<forall>st'. output_left out1 st' = output_left out st'"
  | (failed) e x where "out1 = finish_thread st (Inl e) x"
  | (sent) p rest es where "op_done out st = None" "op_source out st = Bytes (p @ rest) # es" "p \<noteq> []"
      "send_chunk E i st p (out\<lparr>op_source := (op_source out)(st := (if rest = [] then es else Bytes rest # es))\<rparr>) s = (out1, s1)"
proof (cases "op_done out st")
  case None
  show thesis
  proof (cases "op_source out st")
    case Nil
    with None assms(1) show thesis by (intro quiet) (auto simp: finish_thread_def output_left_def split: if_splits)
  next
    case (Cons ev es)
    show thesis
    proof (cases ev)
      case (Bytes bs)
      let ?n = "max_launcher_output_payload_bytes E"
      show thesis
      proof (cases "bs = []")
        case True
        with None Cons Bytes assms(1) show thesis by (intro quiet) (auto simp: finish_thread_def output_left_def split: if_splits)
      next
        case False
        with None Cons Bytes assms sent [of "take ?n bs" "drop ?n bs" es] show thesis by (simp add: Let_def)
      qed
    next
      case ReadInterrupted
      with None Cons assms(1) show thesis by (intro quiet) (auto simp: output_left_def split: if_splits)
    next
      case ReadFailed
      with None Cons assms(1) show thesis by (intro failed [of OutputBridgeUnavailable out]) simp
    qed
  qed
next
  case Some
  with assms quiet show thesis by simp
qed

lemma not_clean_failed [simp]: "\<not> clean (finish_thread st (Inl e) out)"
  by (auto simp: clean_def finish_thread_def)

lemma send_chunk_clean:
  assumes "send_chunk E i st p x s = (out1, s1)" and "clean out1"
  obtains f where "of_sequence f = op_sequence x" "of_stream f = st" "of_payload f = p" "sent_frames s [f] s1"
    "out1 = x\<lparr>op_sequence := saturating_succ (op_sequence x)\<rparr>"
proof -
  let ?f = "\<lparr>of_message_kind = protocol_constant E ''LAUNCHER_OUTPUT'',
        of_protocol_version = protocol_constant E ''SYSTEMD_LAUNCHER_SERVICE_PROTOCOL_V1'',
        of_invocation_id = i, of_sequence = op_sequence x, of_stream = st, of_payload = p\<rparr>"
  from assms have "write_message E Client (OutputMsg ?f) OutputBridgeUnavailable s = (Ok (), s1)"
    and "out1 = x\<lparr>op_sequence := saturating_succ (op_sequence x)\<rparr>"
    by (auto simp: send_chunk_def Let_def split: if_splits prod.splits outcome.splits)
  moreover from this(1) have "sent_frames s [?f] s1"
    by (auto simp: write_message_def transmit_def Let_def sent_frames_def split: option.splits if_splits)
  ultimately show thesis by (intro that [of ?f]) simp_all
qed

lemma clean_step:
  assumes "output_step E i st out s = (out1, s1)" and "clean out1" and "0 < max_launcher_output_payload_bytes E"
  shows "\<exists>fs. sent_frames s fs s1 \<and> numbered (op_sequence out) fs (op_sequence out1) \<and>
    (\<forall>st'. output_left out st' = frames_of st' fs @ output_left out1 st')"
  using assms(1,3)
proof (cases rule: output_step_cases)
  case quiet
  then show ?thesis by (intro exI [of _ "[]"]) (simp add: sent_frames_def frames_of_def)
next
  case (failed e x)
  with assms(2) show ?thesis by simp
next
  case (sent p rest es)
  from sent(4) assms(2) obtain f where
    f: "of_sequence f = op_sequence out" "of_stream f = st" "of_payload f = p" "sent_frames s [f] s1"
    "out1 = out\<lparr>op_source := (op_source out)(st := (if rest = [] then es else Bytes rest # es)),
       op_sequence := saturating_succ (op_sequence out)\<rparr>" by (rule send_chunk_clean) simp
  moreover have "output_left out st' = frames_of st' [f] @ output_left out1 st'" for st'
    using sent(1-3) f by (auto simp: output_left_def frames_of_def)
  ultimately show ?thesis by (intro exI [of _ "[f]"]) (auto intro: numbered_Cons)
qed

lemma sent_frames_trans: "sent_frames s fs s1 \<Longrightarrow> sent_frames s1 gs s2 \<Longrightarrow> sent_frames s (fs @ gs) s2"
  by (auto simp: sent_frames_def)

lemma numbered_append: "numbered n fs n1 \<Longrightarrow> numbered n1 gs n2 \<Longrightarrow> numbered n (fs @ gs) n2"
proof (induction fs arbitrary: n)
  case (Cons f fs)
  from Cons.prems(1) have "of_sequence f = n" "numbered (saturating_succ n) fs n1"
    by (auto simp: numbered_def upt_conv_Cons funpow_swap1 map_Suc_upt [symmetric] o_def simp del: upt_Suc)
  with Cons.IH [OF _ Cons.prems(2)] show ?case by (auto intro: numbered_Cons)
qed simp

lemma clean_mono: "output_steps E i sts out s = (out', s') \<Longrightarrow> clean out' \<Longrightarrow> clean out"
  unfolding clean_def by (metis output_steps_done option.distinct(1))

lemma clean_steps:
  "output_steps E i sts out s = (out', s') \<Longrightarrow> clean out' \<Longrightarrow> 0 < max_launcher_output_payload_bytes E \<Longrightarrow>
   \<exists>fs. sent_frames s fs s' \<and> numbered (op_sequence out) fs (op_sequence out') \<and>
    (\<forall>st'. output_left out st' = frames_of st' fs @ output_left out' st')"
proof (induction sts arbitrary: out s)
  case Nil
  then show ?case by (intro exI [of _ "[]"]) (simp add: sent_frames_def frames_of_def)
next
  case (Cons st sts)
  obtain out1 s1 where one: "output_step E i st out s = (out1, s1)" by fastforce
  with Cons.prems(1) have rest: "output_steps E i sts out1 s1 = (out', s')" by (simp del: output_step.simps)
  from clean_step [OF one clean_mono [OF rest Cons.prems(2)] Cons.prems(3)] Cons.IH [OF rest Cons.prems(2,3)]
  obtain fs gs where "sent_frames s fs s1" "numbered (op_sequence out) fs (op_sequence out1)"
    "\<forall>st'. output_left out st' = frames_of st' fs @ output_left out1 st'" "sent_frames s1 gs s'"
    "numbered (op_sequence out1) gs (op_sequence out')"
    "\<forall>st'. output_left out1 st' = frames_of st' gs @ output_left out' st'" by blast
  then show ?case
    by (intro exI [of _ "fs @ gs"]) (auto intro: sent_frames_trans numbered_append simp: frames_of_def)
qed

lemma saturating_count: "(saturating_succ ^^ i) 0 = of_nat (min i (2 ^ 64 - 1))"
proof (induction i)
  case (Suc i)
  show ?case
  proof (cases "i < 2 ^ 64 - 1")
    case True
    have "(of_nat i :: 64 word) \<noteq> - 1"
    proof
      assume "(of_nat i :: 64 word) = - 1"
      then have "unat (of_nat i :: 64 word) = unat (- 1 :: 64 word)" by simp
      with True show False by (simp add: unat_of_nat unsigned_minus_1_eq_mask mask_eq_exp_minus_1)
    qed
    with True Suc.IH show ?thesis by (simp add: saturating_succ_def min_def add.commute)
  next
    case False
    then have "min i (2 ^ 64 - 1) = 2 ^ 64 - 1" "min (Suc i) (2 ^ 64 - 1) = 2 ^ 64 - 1" by simp_all
    moreover have "(of_nat (2 ^ 64 - 1) :: 64 word) = - 1" by simp
    ultimately show ?thesis using Suc.IH by (simp add: saturating_succ_def)
  qed
qed simp

lemma output_steps_append:
  "output_steps E i (xs @ ys) out s = (case output_steps E i xs out s of (out', s') \<Rightarrow> output_steps E i ys out' s')"
  by (induction xs arbitrary: out s) (auto split: prod.splits simp del: output_step.simps)

text \<open>The whole run is one interleaving of the two threads.\<close>

lemma relay_outputs_steps:
  assumes "relay_outputs E i schedule source s = (out, s')"
  shows "\<exists>sts. output_steps E i sts \<lparr>op_source = source, op_done = (\<lambda>_. None), op_sequence = 0\<rparr> s = (out, s')"
proof -
  let ?out = "\<lparr>op_source = source, op_done = (\<lambda>_. None), op_sequence = 0\<rparr>"
  obtain out1 s1 where 1: "output_steps E i schedule ?out s = (out1, s1)" by fastforce
  obtain out2 s2 where 2: "join_thread E i Stdout out1 s1 = (out2, s2)" by fastforce
  from assms 1 2 have 3: "join_thread E i Stderr out2 s2 = (out, s')" by (simp add: relay_outputs_def)
  have "output_steps E i ((schedule @ replicate (output_work (op_source out1 Stdout)) Stdout) @
      replicate (output_work (op_source out2 Stderr)) Stderr) ?out s = (out, s')"
    using 1 2 3 by (simp add: output_steps_append join_thread_def)
  then show ?thesis by blast
qed

lemma relay_outputs_end:
  assumes "relay_outputs E i schedule source s = (out, s')"
  shows "op_done out st \<noteq> None"
proof -
  let ?out = "\<lparr>op_source = source, op_done = (\<lambda>_. None), op_sequence = 0\<rparr>"
  obtain out1 s1 where 1: "output_steps E i schedule ?out s = (out1, s1)" by fastforce
  obtain out2 s2 where 2: "join_thread E i Stdout out1 s1 = (out2, s2)" by fastforce
  from assms 1 2 have 3: "join_thread E i Stderr out2 s2 = (out, s')" by (simp add: relay_outputs_def)
  show ?thesis
  proof (cases st)
    case Stdout
    with join_thread_ends [OF 2] output_steps_done [OF _ 3 [unfolded join_thread_def]] show ?thesis by metis
  next
    case Stderr
    with join_thread_ends [OF 3] show ?thesis by simp
  qed
qed

text \<open>
  What the threads have sent at any moment, failures included. The \<open>k\<close>-th frame on the client
  socket is the \<open>k\<close>-th write, and it carries the number of frames written before it. A frame whose
  write failed is the last of its stream, and every thread accounts for its events: it is still
  reading, it has sent all of them, or it stopped for a reason.
\<close>

definition write_ok :: "bool list \<Rightarrow> nat \<Rightarrow> bool" where
  "write_ok ws k \<longleftrightarrow> (k < length ws \<longrightarrow> ws ! k)"

definition frames_before :: "bool list \<Rightarrow> nat \<Rightarrow> nat" where
  "frames_before ws k = length (filter (write_ok ws) [0..<k])"

definition frame_at :: "'x wire_env_scheme \<Rightarrow> string \<Rightarrow> bool list \<Rightarrow> nat \<Rightarrow> output_stream \<Rightarrow> string \<Rightarrow> output_frame" where
  "frame_at E invocation ws k st payload =
     \<lparr>of_message_kind = protocol_constant E ''LAUNCHER_OUTPUT'',
      of_protocol_version = protocol_constant E ''SYSTEMD_LAUNCHER_SERVICE_PROTOCOL_V1'',
      of_invocation_id = invocation, of_sequence = of_nat (min (frames_before ws k) (2 ^ 64 - 1)),
      of_stream = st, of_payload = payload\<rparr>"

definition sendable :: "'x wire_env_scheme \<Rightarrow> output_frame \<Rightarrow> bool" where
  "sendable E f \<longleftrightarrow> validate_launcher_output_frame_v1 E f
     \<and> Option.bind (message_to_vec E (OutputMsg f)) (encode_frame E) \<noteq> None"

fun read_fails :: "read_event list \<Rightarrow> bool" where
  "read_fails [] \<longleftrightarrow> False"
| "read_fails (ReadFailed # es) \<longleftrightarrow> True"
| "read_fails (ReadInterrupted # es) \<longleftrightarrow> read_fails es"
| "read_fails (Bytes bs # es) \<longleftrightarrow> bs \<noteq> [] \<and> read_fails es"

definition chunk_bounds :: "'x wire_env_scheme \<Rightarrow> string \<Rightarrow> bool" where
  "chunk_bounds E payload \<longleftrightarrow> payload \<noteq> [] \<and> length payload \<le> max_launcher_output_payload_bytes E"

definition frames_valid :: "'x wire_env_scheme \<Rightarrow> string \<Rightarrow> bool list \<Rightarrow> output_frame list \<Rightarrow> bool" where
  "frames_valid E invocation ws fs \<longleftrightarrow>
     (\<forall>k<length fs. fs ! k = frame_at E invocation ws k (of_stream (fs ! k)) (of_payload (fs ! k)) \<and>
        chunk_bounds E (of_payload (fs ! k)) \<and> sendable E (fs ! k) \<and>
        (write_ok ws k \<or> (\<forall>j<length fs. k < j \<longrightarrow> of_stream (fs ! j) \<noteq> of_stream (fs ! k))))"

definition write_failed :: "bool list \<Rightarrow> output_stream \<Rightarrow> output_frame list \<Rightarrow> bool" where
  "write_failed ws st fs \<longleftrightarrow> (\<exists>k<length fs. of_stream (fs ! k) = st \<and> \<not> write_ok ws k)"

definition unsendable_chunk ::
  "'x wire_env_scheme \<Rightarrow> string \<Rightarrow> bool list \<Rightarrow> read_event list \<Rightarrow> output_stream \<Rightarrow> output_frame list \<Rightarrow> bool" where
  "unsendable_chunk E invocation ws es st fs \<longleftrightarrow>
     (\<exists>p k. chunk_bounds E p \<and> k \<le> length fs \<and> prefix (frames_of st fs @ p) (pending es) \<and>
        \<not> sendable E (frame_at E invocation ws k st p))"

fun thread_result ::
  "'x wire_env_scheme \<Rightarrow> string \<Rightarrow> bool list \<Rightarrow> read_event list \<Rightarrow> output_stream \<Rightarrow> output_frame list
     \<Rightarrow> prepared_child_error + unit \<Rightarrow> bool" where
  "thread_result E invocation ws es st fs (Inr _) \<longleftrightarrow>
     frames_of st fs = pending es \<and> \<not> read_fails es \<and> \<not> write_failed ws st fs"
| "thread_result E invocation ws es st fs (Inl e) \<longleftrightarrow>
     e = OutputBridgeUnavailable \<and> prefix (frames_of st fs) (pending es) \<and>
     (frames_of st fs = pending es \<and> read_fails es \<or> write_failed ws st fs \<or> unsendable_chunk E invocation ws es st fs)"

definition thread_at ::
  "'x wire_env_scheme \<Rightarrow> string \<Rightarrow> bool list \<Rightarrow> read_event list \<Rightarrow> outputs \<Rightarrow> output_stream \<Rightarrow> output_frame list \<Rightarrow> bool" where
  "thread_at E invocation ws es out st fs \<longleftrightarrow>
     (case op_done out st of
        Some r \<Rightarrow> thread_result E invocation ws es st fs r
      | None \<Rightarrow> pending es = frames_of st fs @ pending (op_source out st) \<and>
          read_fails es = read_fails (op_source out st) \<and> \<not> write_failed ws st fs)"

definition relayed ::
  "'x wire_env_scheme \<Rightarrow> string \<Rightarrow> bool list \<Rightarrow> (output_stream \<Rightarrow> read_event list) \<Rightarrow> output_frame list \<Rightarrow> outputs \<Rightarrow> bool" where
  "relayed E invocation ws source fs out \<longleftrightarrow>
     op_sequence out = of_nat (min (frames_before ws (length fs)) (2 ^ 64 - 1)) \<and>
     frames_valid E invocation ws fs \<and> (\<forall>st. thread_at E invocation ws (source st) out st fs)"

lemma frames_of_snoc [simp]: "frames_of st (fs @ [f]) = frames_of st fs @ (if of_stream f = st then of_payload f else [])"
  by (simp add: frames_of_def)

lemma write_failed_snoc [simp]:
  "write_failed ws st (fs @ [f]) \<longleftrightarrow> write_failed ws st fs \<or> of_stream f = st \<and> \<not> write_ok ws (length fs)"
  by (auto simp: write_failed_def Ex_less_Suc nth_append cong: conj_cong)

lemma frames_before_Suc:
  "of_nat (min (frames_before ws (Suc k)) (2 ^ 64 - 1)) =
     (if write_ok ws k then saturating_succ else id) (of_nat (min (frames_before ws k) (2 ^ 64 - 1)))"
  unfolding saturating_count [symmetric] by (simp add: frames_before_def)

lemma frames_valid_snoc:
  assumes "frames_valid E i ws fs" and "\<not> write_failed ws st fs"
    and "chunk_bounds E p" and "sendable E (frame_at E i ws (length fs) st p)"
  shows "frames_valid E i ws (fs @ [frame_at E i ws (length fs) st p])"
  using assms unfolding frames_valid_def write_failed_def
  by (auto simp: nth_append frame_at_def less_Suc_eq)

lemma thread_result_other:
  "thread_result E i ws es st fs r \<Longrightarrow> of_stream f \<noteq> st \<Longrightarrow> thread_result E i ws es st (fs @ [f]) r"
  by (cases r) (auto simp: unsendable_chunk_def intro: le_SucI)

lemma thread_at_other:
  "thread_at E i ws es out st fs \<Longrightarrow> of_stream f \<noteq> st \<Longrightarrow>
   op_done out' st = op_done out st \<Longrightarrow> op_source out' st = op_source out st \<Longrightarrow> thread_at E i ws es out' st (fs @ [f])"
  by (auto simp: thread_at_def thread_result_other split: option.splits)

lemma relayed_quiet:
  assumes "relayed E i ws source fs out" and "op_sequence out1 = op_sequence out"
    and "thread_at E i ws (source st) out1 st fs"
    and "\<And>st'. st' \<noteq> st \<Longrightarrow> op_done out1 st' = op_done out st' \<and> op_source out1 st' = op_source out st'"
  shows "relayed E i ws source fs out1"
  unfolding relayed_def
proof (intro conjI allI)
  fix st'
  from assms(1) have "thread_at E i ws (source st') out st' fs" by (simp add: relayed_def)
  then show "thread_at E i ws (source st') out1 st' fs"
    using assms(3) assms(4) [of st'] by (cases "st' = st") (auto simp: thread_at_def split: option.splits)
qed (use assms(1,2) in \<open>simp_all add: relayed_def\<close>)

lemma relayed_send:
  assumes "relayed E i ws source fs out" and "op_done out st = None" and "op_source out st = Bytes (p @ rest) # es"
    and "chunk_bounds E p" and "wi_writes s = drop (length fs) ws"
    and "send_chunk E i st p (out\<lparr>op_source := (op_source out)(st := (if rest = [] then es else Bytes rest # es))\<rparr>) s = (out1, s1)"
  shows "\<exists>gs. sent_frames s gs s1 \<and> relayed E i ws source (fs @ gs) out1 \<and> wi_writes s1 = drop (length (fs @ gs)) ws"
proof -
  let ?f = "frame_at E i ws (length fs) st p"
  let ?x = "out\<lparr>op_source := (op_source out)(st := (if rest = [] then es else Bytes rest # es))\<rparr>"
  from assms(1) have valid: "frames_valid E i ws fs" and "thread_at E i ws (source st) out st fs"
    and number: "op_sequence out = of_nat (min (frames_before ws (length fs)) (2 ^ 64 - 1))"
    by (simp_all add: relayed_def)
  with assms(2-4) have here: "pending (source st) = frames_of st fs @ p @ pending (op_source ?x st)"
      "read_fails (source st) = read_fails (op_source ?x st)" "\<not> write_failed ws st fs"
    by (auto simp: thread_at_def chunk_bounds_def)
  have frame: "?f = \<lparr>of_message_kind = protocol_constant E ''LAUNCHER_OUTPUT'',
        of_protocol_version = protocol_constant E ''SYSTEMD_LAUNCHER_SERVICE_PROTOCOL_V1'',
        of_invocation_id = i, of_sequence = op_sequence ?x, of_stream = st, of_payload = p\<rparr>"
    by (simp add: frame_at_def number)
  show ?thesis
  proof (cases "sendable E ?f")
    case False
    with assms(6) have "out1 = finish_thread st (Inl OutputBridgeUnavailable) ?x" "s1 = s"
      unfolding send_chunk_def frame [symmetric] Let_def
      by (auto simp: sendable_def write_message_def throw_def split: if_splits)
    moreover have "unsendable_chunk E i ws (source st) st fs"
      unfolding unsendable_chunk_def using False assms(4) here(1)
      by (intro exI [of _ p] exI [of _ "length fs"]) simp
    ultimately show ?thesis using here(1) assms(5)
      by (intro exI [of _ "[]"]) (auto simp: sent_frames_def finish_thread_def thread_at_def intro!: relayed_quiet [OF assms(1), of _ st])
  next
    case True
    let ?ok = "write_ok ws (length fs)"
    let ?y = "if ?ok then ?x\<lparr>op_sequence := saturating_succ (op_sequence ?x)\<rparr>
      else finish_thread st (Inl OutputBridgeUnavailable) ?x"
    have "(wi_writes s \<noteq> [] \<and> \<not> hd (wi_writes s)) = (\<not> ?ok)"
      by (auto simp: assms(5) write_ok_def hd_drop_conv_nth)
    with True assms(6) have run: "out1 = ?y" "sent_frames s [?f] s1" "wi_writes s1 = drop (Suc (length fs)) ws"
      unfolding send_chunk_def frame [symmetric] Let_def
      by (auto simp: sendable_def write_message_def transmit_def Let_def sent_frames_def assms(5) tl_drop drop_Suc
          split: if_splits)
    have "thread_at E i ws (source st') out1 st' (fs @ [?f])" for st'
    proof (cases "st' = st")
      case True
      with here assms(2) show ?thesis by (auto simp: run(1) thread_at_def finish_thread_def frame_at_def)
    next
      case False
      from assms(1) have "thread_at E i ws (source st') out st' fs" by (simp add: relayed_def)
      then show ?thesis by (rule thread_at_other) (use False in \<open>auto simp: run(1) finish_thread_def frame_at_def\<close>)
    qed
    moreover have "op_sequence out1 = of_nat (min (frames_before ws (Suc (length fs))) (2 ^ 64 - 1))"
      unfolding frames_before_Suc by (simp add: run(1) finish_thread_def number)
    moreover note frames_valid_snoc [OF valid here(3) assms(4) True]
    ultimately show ?thesis using run(2,3) by (intro exI [of _ "[?f]"]) (simp add: relayed_def)
  qed
qed

lemma relayed_step:
  assumes "output_step E i st out s = (out1, s1)" and "0 < max_launcher_output_payload_bytes E"
    and "relayed E i ws source fs out" and "wi_writes s = drop (length fs) ws"
  shows "\<exists>gs. sent_frames s gs s1 \<and> relayed E i ws source (fs @ gs) out1 \<and> wi_writes s1 = drop (length (fs @ gs)) ws"
proof -
  have at: "thread_at E i ws (source st) out st fs" using assms(3) by (simp add: relayed_def)
  have quiet: ?thesis if "s1 = s" "op_sequence out1 = op_sequence out" "thread_at E i ws (source st) out1 st fs"
    using that assms(4) relayed_quiet [OF assms(3) that(2,3)] output_step_other [OF assms(1)]
    by (intro exI [of _ "[]"]) (simp add: sent_frames_def)
  show ?thesis
  proof (cases "\<exists>bs es. op_done out st = None \<and> op_source out st = Bytes bs # es \<and> bs \<noteq> []")
    case True
    then obtain bs es where b: "op_done out st = None" "op_source out st = Bytes bs # es" "bs \<noteq> []" by blast
    let ?n = "max_launcher_output_payload_bytes E"
    have "chunk_bounds E (take ?n bs)" using b(3) assms(2) by (simp add: chunk_bounds_def)
    with relayed_send [OF assms(3) b(1), of "take ?n bs" "drop ?n bs" es s out1 s1] b assms(1,2,4)
    show ?thesis by (simp add: Let_def)
  next
    case False
    with assms(1) at show ?thesis
      by (intro quiet) (auto simp: thread_at_def finish_thread_def Let_def split: if_splits list.splits read_event.splits)
  qed
qed

lemma relayed_steps:
  "output_steps E i sts out s = (out', s') \<Longrightarrow> 0 < max_launcher_output_payload_bytes E \<Longrightarrow>
   relayed E i ws source fs out \<Longrightarrow> wi_writes s = drop (length fs) ws \<Longrightarrow>
   \<exists>gs. sent_frames s gs s' \<and> relayed E i ws source (fs @ gs) out'"
proof (induction sts arbitrary: out s fs)
  case Nil
  then show ?case by (intro exI [of _ "[]"]) (simp add: sent_frames_def)
next
  case (Cons st sts)
  obtain out1 s1 where one: "output_step E i st out s = (out1, s1)" by fastforce
  with Cons.prems(1) have rest: "output_steps E i sts out1 s1 = (out', s')" by (simp del: output_step.simps)
  from relayed_step [OF one Cons.prems(2-4)] obtain gs where
    gs: "sent_frames s gs s1" "relayed E i ws source (fs @ gs) out1" "wi_writes s1 = drop (length (fs @ gs)) ws" by blast
  from Cons.IH [OF rest Cons.prems(2) gs(2,3)] obtain hs where
    "sent_frames s1 hs s'" "relayed E i ws source ((fs @ gs) @ hs) out'" by blast
  with sent_frames_trans [OF gs(1)] show ?case by (intro exI [of _ "gs @ hs"]) simp
qed

text \<open>
  C20. The output threads relay faithfully, failures included. Whatever the child writes, however
  the two threads interleave and whichever reads, writes or validations fail, all that is sent are
  validated output frames of this invocation with a payload of one to
  \<open>MAX_LAUNCHER_OUTPUT_PAYLOAD_BYTES\<close> bytes, each numbered by the frames written before it on
  either stream (a failed write takes no number), and none follows a failed write on its stream.
  A thread that ends well has sent exactly what the child wrote to its stream, and no read or write
  of it failed. A thread that ends in error reports \<open>OutputBridgeUnavailable\<close>, has sent a
  prefix of that output, with nothing skipped and nothing after the failure, and has a reason: the
  read after all it sent failed, the write of its last frame failed, or the next chunk is refused
  by the validation or the encoding.
\<close>

theorem output_relayed_faithfully:
  assumes "0 < max_launcher_output_payload_bytes E"
    and "relay_outputs E invocation schedule source s = (out, s')"
  shows "\<exists>fs. sent_frames s fs s' \<and> frames_valid E invocation (wi_writes s) fs \<and>
    (\<forall>st. \<exists>r. op_done out st = Some r \<and> thread_result E invocation (wi_writes s) (source st) st fs r)"
proof -
  let ?out = "\<lparr>op_source = source, op_done = (\<lambda>_. None), op_sequence = 0\<rparr>"
  from relay_outputs_steps [OF assms(2)] obtain sts where
    run: "output_steps E invocation sts ?out s = (out, s')" by blast
  have "relayed E invocation (wi_writes s) source [] ?out"
    by (simp add: relayed_def frames_before_def frames_valid_def thread_at_def write_failed_def frames_of_def)
  from relayed_steps [OF run assms(1) this] obtain fs where
    fs: "sent_frames s fs s'" "relayed E invocation (wi_writes s) source fs out" by auto
  have "\<exists>r. op_done out st = Some r \<and> thread_result E invocation (wi_writes s) (source st) st fs r" for st
    using relay_outputs_end [OF assms(2), of st] fs(2) by (auto simp: relayed_def thread_at_def split: option.splits)
  with fs show ?thesis by (auto simp: relayed_def)
qed

text \<open>
  The client gets the whole output, in order. When both threads end without an error, the frames
  sent are numbered consecutively from zero across both streams (saturating at the largest 64-bit
  number), whatever the interleaving, and the payloads of each stream put together are exactly
  what the child wrote to it. Nothing else was sent and the slot is untouched.
\<close>

theorem output_frames_numbered:
  assumes "0 < max_launcher_output_payload_bytes E"
    and "relay_outputs E invocation schedule source s = (out, s')"
    and "op_done out Stdout = Some (Inr ())" and "op_done out Stderr = Some (Inr ())"
  shows "\<exists>fs. sent_frames s fs s' \<and>
    map of_sequence fs = map (\<lambda>i. of_nat (min i (2 ^ 64 - 1))) [0..<length fs] \<and>
    frames_of Stdout fs = pending (source Stdout) \<and> frames_of Stderr fs = pending (source Stderr)"
proof -
  let ?out = "\<lparr>op_source = source, op_done = (\<lambda>_. None), op_sequence = 0\<rparr>"
  from relay_outputs_steps [OF assms(2)] obtain sts where
    run: "output_steps E invocation sts ?out s = (out, s')" by blast
  have "clean out" unfolding clean_def
  proof (intro allI)
    fix st e
    from assms(3,4) show "op_done out st \<noteq> Some (Inl e)" by (cases st) simp_all
  qed
  from clean_steps [OF run this assms(1)] obtain fs where fs: "sent_frames s fs s'"
    "numbered 0 fs (op_sequence out)" "\<forall>st. output_left ?out st = frames_of st fs @ output_left out st" by auto
  from fs(2) have "map of_sequence fs = map (\<lambda>i. of_nat (min i (2 ^ 64 - 1))) [0..<length fs]"
    by (simp add: numbered_def saturating_count)
  with fs assms(3,4) show ?thesis by (auto simp: output_left_def)
qed


section \<open>What the selected relay announces\<close>

lemma plain_option [plain_intros]: "plain E m \<Longrightarrow> (\<And>a. plain E (f a)) \<Longrightarrow> plain E (case x of None \<Rightarrow> m | Some a \<Rightarrow> f a)"
  by (cases x) simp_all

lemma selected_steps_plain [plain_intros]:
  "plain E (read_value_blocking E)" "\<not> announcing m \<Longrightarrow> plain E (reply E m)" "plain E (handle E t f v)"
  unfolding read_value_blocking_def reply_def write_json_frame_blocking_def handle_def
  by (intro plain_intros; simp)+

lemma exchanges_plain [plain_intros]:
  "plain E (binding_exchange E H st v)" "plain E (snapshot_exchange E H st v)"
  "plain E (prelude_exchange E H st v)" "plain E (legacy_exchange E H st v)" "plain E (receive_completion E H)"
proof -
  show b: "plain E (binding_exchange E H st v)" for st v
    unfolding binding_exchange_def by (intro plain_intros) simp
  show s: "plain E (snapshot_exchange E H st v)" for st v
    unfolding snapshot_exchange_def by (intro plain_intros b) simp
  show p: "plain E (prelude_exchange E H st v)" for st v
    unfolding prelude_exchange_def by (intro plain_intros s) simp_all
  show l: "plain E (legacy_exchange E H st v)" for st v
    unfolding legacy_exchange_def by (intro plain_intros) simp
  show "plain E (receive_completion E H)"
    unfolding receive_completion_def by (intro plain_intros p l)
qed

lemma output_step_plain:
  assumes "output_step E i st out s = (out', s')"
  shows "re_slot s' = re_slot s \<and> wi_world s' = wi_world s \<and> extends E' s s' []"
proof -
  have send: "re_slot s' = re_slot s \<and> wi_world s' = wi_world s \<and> extends E' s s' []"
    if "send_chunk E i st p x s = (out', s')" for p x
  proof -
    from that obtain f r where "s' = s \<or> write_message E Client (OutputMsg f) OutputBridgeUnavailable s = (r, s')"
      by (auto simp: send_chunk_def Let_def split: if_splits prod.splits outcome.splits)
    then show ?thesis
    proof
      assume "write_message E Client (OutputMsg f) OutputBridgeUnavailable s = (r, s')"
      moreover have "plain E' (write_message E Client (OutputMsg f) OutputBridgeUnavailable)"
        by (rule plain_write) simp
      ultimately show ?thesis by (auto dest: plainD)
    qed (simp add: extends_refl)
  qed
  from assms show ?thesis
    by (auto simp: Let_def extends_refl split: if_splits list.splits read_event.splits dest!: send)
qed

lemma output_steps_plain:
  "output_steps E i sts out s = (out', s') \<Longrightarrow>
   re_slot s' = re_slot s \<and> wi_world s' = wi_world s \<and> extends E' s s' []"
proof (induction sts arbitrary: out s)
  case (Cons st sts)
  obtain out1 s1 where one: "output_step E i st out s = (out1, s1)" by fastforce
  with Cons.prems have "output_steps E i sts out1 s1 = (out', s')" by (simp del: output_step.simps)
  from Cons.IH [OF this] output_step_plain [OF one, of E'] extends_snoc(1) show ?case by auto
qed (simp add: extends_refl)

lemma join_outputs_plain [plain_intros]: "plain E' (join_outputs E X source)"
  by (auto simp: plain_def join_outputs_def split: prod.splits if_splits
      dest!: relay_outputs_steps intro: output_steps_plain [THEN conjunct1] output_steps_plain [THEN conjunct2, THEN conjunct1]
        output_steps_plain [THEN conjunct2, THEN conjunct2])

lemma acknowledge_completion_announces:
  assumes "relay_live E s" and "acknowledge_completion E c s = (r, s')"
  shows "\<exists>A. extends E s s' A \<and> (A = [] \<or> (\<exists>n. A = [CompletionPersistenceMsg n])) \<and>
    (is_Ok r \<longrightarrow> relay_live E s' \<and> recorded_in (RecordCompletion c) (sl_journal (re_slot s')) \<and>
      (\<exists>n. A = [CompletionPersistenceMsg n] \<and> pn_subject_identity n = ec_identity c))"
  using assms(1) assms(2) [unfolded acknowledge_completion_def]
proof (cases rule: slot_ahead.recorded_then)
  case (refused r0)
  then show ?thesis using record_in_slot_extends by blast
next
  case (recorded s1)
  note ext = record_in_slot_extends [OF recorded(1)]
  let ?n = "notice (protocol_constant E ''LAUNCHER_EXECUTION_COMPLETION_PERSISTENCE'') (ec_identity c)"
  show ?thesis
  proof (cases "launcher_execution_completion_persistence_v1_identity E ?n")
    case None
    with recorded(5) ext show ?thesis by (auto simp: Let_def and_then_def decoded_def)
  next
    case (Some i)
    let ?m = "CompletionPersistenceMsg (?n\<lparr>pn_identity := i\<rparr>)"
    from Some recorded(5) have w: "write_message E Child ?m ExecutionCompletionUnavailable s1 = (r, s')"
      by (simp add: Let_def and_then_def decoded_def write_json_frame_blocking_def)
    have "announced_by ?m (sl_journal (re_slot s1))" using recorded(3) by (auto simp: notice_def)
    note wr = announcing_write [OF w recorded(2) this]
    show ?thesis
    proof (cases "is_Ok r")
      case True
      with wr recorded(2,3) extends_snoc(2) [OF ext, of s' "[?m]"] show ?thesis
        by (intro exI [of _ "[?m]"]) (auto simp: notice_def)
    next
      case False
      with wr extends_snoc(2) [OF ext, of s'] show ?thesis by blast
    qed
  qed
qed

lemma wait_ok_reaped:
  "fst (wait_and_reap_selected_child pid es) = Inr code \<Longrightarrow> wait_and_reap_selected_child pid es = (Inr code, 0)"
proof -
  have "wait_for_status pid es = (Some status, pid') \<Longrightarrow> pid' = 0" for status pid'
    by (induction pid es rule: wait_for_status.induct) auto
  then show "fst (wait_and_reap_selected_child pid es) = Inr code \<Longrightarrow> wait_and_reap_selected_child pid es = (Inr code, 0)"
    by (auto simp: wait_and_reap_selected_child_def split: if_splits prod.splits option.splits)
qed

lemma selected_relay_announces:
  assumes live: "relay_live E s" and run: "relay_selected_execution_with_secret_binding E H X l s = (r, s')"
  shows "\<exists>A. extends E s s' A \<and> (A = [] \<or> (\<exists>n. A = [CompletionPersistenceMsg n])) \<and>
    (\<forall>c code. r = Ok (c, code) \<longrightarrow> relay_live E s' \<and> recorded_in (RecordCompletion c) (sl_journal (re_slot s')) \<and>
      \<not> completion_mismatch E (xc_record X) l c \<and> code = ec_exit_code c \<and>
      wait_and_reap_selected_child (xc_pid X) (xc_waits X) = (Inr code, 0) \<and>
      (\<exists>n. A = [CompletionPersistenceMsg n]))"
proof (cases "xc_stdout X = None \<or> xc_stderr X = None \<or> \<not> xc_client_clone X")
  case True
  with run show ?thesis
    by (intro exI [of _ "[]"]) (auto simp: relay_selected_execution_with_secret_binding_def and_then_def decoded_def
        extends_refl split: option.splits)
next
  case False
  then obtain out err where X: "xc_stdout X = Some out" "xc_stderr X = Some err" "xc_client_clone X" by auto
  let ?after = "\<lambda>c _. and_then (lift_result (fst (wait_and_reap_selected_child (xc_pid X) (xc_waits X)))) (\<lambda>observed.
     and_then (join_outputs E X (\<lambda>st. case st of Stdout \<Rightarrow> out | Stderr \<Rightarrow> err)) (\<lambda>_.
       if observed \<noteq> ec_exit_code c then throw ExecutionCompletionExitMismatch
       else ret (c, observed)))"
  have after: "plain E (?after c u)" for c u by (intro plain_intros)
  from X run have "and_then (receive_completion E H) (\<lambda>c.
       if completion_mismatch E (xc_record X) l c then throw ExecutionCompletionIdentityMismatch
       else and_then (acknowledge_completion E c) (?after c)) s = (r, s')"
    by (simp add: relay_selected_execution_with_secret_binding_def and_then_def [of "decoded _ _"] decoded_def)
  with exchanges_plain(5) show ?thesis
  proof (cases rule: plain_then)
    case (went_on c s1)
    show ?thesis
    proof (cases "completion_mismatch E (xc_record X) l c")
      case True
      with went_on(2,5) show ?thesis by auto
    next
      case False
      from live went_on(3,4) have live1: "relay_live E s1" by simp
      obtain r2 s2 where ack: "acknowledge_completion E c s1 = (r2, s2)" by fastforce
      from acknowledge_completion_announces [OF live1 ack] obtain A where
        A: "extends E s1 s2 A" "A = [] \<or> (\<exists>n. A = [CompletionPersistenceMsg n])"
        and ok: "is_Ok r2 \<Longrightarrow> relay_live E s2 \<and> recorded_in (RecordCompletion c) (sl_journal (re_slot s2)) \<and>
          (\<exists>n. A = [CompletionPersistenceMsg n])" by blast
      note ext2 = extends_snoc(2) [OF went_on(2) A(1)]
      show ?thesis
      proof (cases r2)
        case (Ok u)
        with ack went_on(5) False have aft: "?after c () s2 = (r, s')"
          by (simp add: and_then_def [of "acknowledge_completion E c"])
        from plainD [OF after aft] ok Ok have keep: "relay_live E s'" "recorded_in (RecordCompletion c) (sl_journal (re_slot s'))"
          "extends E s2 s' []" by auto
        have "r = Ok (c', code) \<Longrightarrow> c' = c \<and> code = ec_exit_code c \<and>
            wait_and_reap_selected_child (xc_pid X) (xc_waits X) = (Inr code, 0)" for c' code
          using aft wait_ok_reaped by (auto simp: relay_Ok_iff split: if_splits)
        with keep False extends_snoc(1) [OF ext2 keep(3)] ok Ok A(2) show ?thesis by (intro exI [of _ A]) auto
      qed (use ack went_on(5) False ext2 A(2) in \<open>auto simp: and_then_def [of "acknowledge_completion E c"]\<close>)
    qed
  qed auto
qed

text \<open>
  C22. The completion is on disk before the child is told. However the relay of the selected execution
  ends, the child receives a completion notice at most once, and only while the slot file holds a
  valid journal with exactly that completion and its whole chain of evidence. When the relay
  returns, the completion it returns is that one, it names this invocation and the consumed lease,
  the child has been reaped, and the exit code it reported is the one the kernel observed.
\<close>

theorem selected_relay_write_ahead:
  assumes "relay_live E s" and "relay_selected_execution_with_secret_binding E H X l s = (r, s')"
  shows "\<exists>new. wi_sent s' = wi_sent s @ new \<and> list_all (backed E (sl_path (re_slot s))) new \<and>
    length (announcements new) \<le> 1 \<and>
    (\<forall>c code. r = Ok (c, code) \<longrightarrow> relay_live E s' \<and> recorded_in (RecordCompletion c) (sl_journal (re_slot s')) \<and>
      \<not> completion_mismatch E (xc_record X) l c \<and> code = ec_exit_code c \<and>
      wait_and_reap_selected_child (xc_pid X) (xc_waits X) = (Inr code, 0) \<and> length (announcements new) = 1)"
proof -
  obtain A where A: "extends E s s' A"
    "A = [] \<or> (\<exists>n. A = [CompletionPersistenceMsg n])"
    and ok: "\<forall>c code. r = Ok (c, code) \<longrightarrow> relay_live E s' \<and> recorded_in (RecordCompletion c) (sl_journal (re_slot s')) \<and>
      \<not> completion_mismatch E (xc_record X) l c \<and> code = ec_exit_code c \<and>
      wait_and_reap_selected_child (xc_pid X) (xc_waits X) = (Inr code, 0) \<and>
      (\<exists>n. A = [CompletionPersistenceMsg n])"
    using selected_relay_announces [OF assms] by (elim exE conjE) (rule that)
  from A(1) obtain new where "wi_sent s' = wi_sent s @ new" "list_all (backed E (sl_path (re_slot s))) new"
    "announcements new = A" by (auto simp: extends_def)
  with A(2) ok show ?thesis by (intro exI [of _ new]) auto
qed


section \<open>The exchange follows the delivery protocol\<close>

text \<open>
  The replies a child may get, as a specification: nothing; the binding of the legacy request; or
  the capability with its prelude, then a snapshot, then a binding of the version that belongs to
  the snapshot. An exchange that stops before its binding is a refusal.
\<close>

datatype delivery_end = Unbound | Bound | RefusedBeforeBinding

inductive delivery :: "secret_handlers \<Rightarrow> message list \<Rightarrow> delivery_end \<Rightarrow> bool" for H where
  direct: "delivery H [] Unbound"
| legacy: "bind_secret_delivery H q = Inr b \<Longrightarrow> delivery H [BindingMsg b] Bound"
| prelude: "observe_same_child_capability H q = Inr (c, p) \<Longrightarrow>
    delivery H [CapabilityMsg c, PreludeMsg p] RefusedBeforeBinding"
| snapshot: "observe_same_child_capability H q = Inr (c, p) \<Longrightarrow>
    respond_authority_snapshot H q' = Inr a \<or> respond_authority_snapshot_v2 H q' = Inr a \<Longrightarrow>
    delivery H [CapabilityMsg c, PreludeMsg p, SnapshotMsg a] RefusedBeforeBinding"
| bound: "observe_same_child_capability H q = Inr (c, p) \<Longrightarrow> respond_authority_snapshot H q' = Inr a \<Longrightarrow>
    bind_snapshot_secret_delivery H q'' = Inr b \<or> bind_snapshot_secret_delivery_v3 H q'' = Inr b \<Longrightarrow>
    delivery H [CapabilityMsg c, PreludeMsg p, SnapshotMsg a, BindingMsg b] Bound"
| bound_v4: "observe_same_child_capability H q = Inr (c, p) \<Longrightarrow> respond_authority_snapshot_v2 H q' = Inr a \<Longrightarrow>
    bind_snapshot_secret_delivery_v4 H q'' = Inr b \<Longrightarrow>
    delivery H [CapabilityMsg c, PreludeMsg p, SnapshotMsg a, BindingMsg b] Bound"

definition sends :: "relay_state \<Rightarrow> message list \<Rightarrow> relay_state \<Rightarrow> bool" where
  "sends s ms s' \<longleftrightarrow> (\<exists>new. wi_sent s' = wi_sent s @ new \<and> map (\<lambda>(_, m, _). m) new = ms)"

lemma sends_refl: "wi_sent s' = wi_sent s \<Longrightarrow> sends s [] s'"
  by (simp add: sends_def)

lemma sends_trans: "sends s ms s1 \<Longrightarrow> sends s1 ns s2 \<Longrightarrow> sends s (ms @ ns) s2"
  by (fastforce simp: sends_def)

definition silent :: "'a relay \<Rightarrow> bool" where
  "silent m \<longleftrightarrow> (\<forall>s r s'. m s = (r, s') \<longrightarrow> wi_sent s' = wi_sent s)"

lemma silent_basic:
  "silent (lift_result y)" "silent (decoded x z)" "silent (throw e)" "silent (ret a)" "silent (read_from p n e)"
  by (auto simp: silent_def lift_result_def decoded_def read_from_def
      split: sum.splits option.splits prod.splits)

lemma silent_and_then:
  assumes "silent m" and "\<And>a. silent (f a)"
  shows "silent (and_then m f)"
  unfolding silent_def
proof (intro allI impI)
  fix s r s'
  assume run: "and_then m f s = (r, s')"
  obtain r1 s1 where m: "m s = (r1, s1)" by fastforce
  with assms(1) have "wi_sent s1 = wi_sent s" by (auto simp: silent_def)
  with m run assms(2) show "wi_sent s' = wi_sent s" by (cases r1) (auto simp: silent_def and_then_def)
qed

lemma silent_prod: "(\<And>a b. silent (f a b)) \<Longrightarrow> silent (case x of (a, b) \<Rightarrow> f a b)"
  by (cases x) simp

lemma silent_if: "silent m \<Longrightarrow> silent n \<Longrightarrow> silent (if b then m else n)"
  by simp

lemma silent_Let: "(\<And>a. silent (f a)) \<Longrightarrow> silent (Let x f)"
  by simp

lemmas silent_intros = silent_basic silent_and_then silent_prod silent_if silent_Let

lemma silent_read: "silent (read_value_blocking E)"
  unfolding read_value_blocking_def read_plain_def read_frame_def by (intro silent_intros)

lemma silent_handle: "silent (handle E t f v)"
  unfolding handle_def by (intro silent_intros)

lemma reply_sends:
  "reply E m s = (r, s') \<Longrightarrow> (if is_Ok r then sends s [m] s' else sends s [] s' \<or> sends s [m] s')"
  by (auto simp: reply_def map_err_def write_json_frame_blocking_def write_message_def transmit_def Let_def sends_def
      split: option.splits if_splits)

text \<open>A silent step and what follows it.\<close>

lemma silent_then:
  assumes "silent m" and "and_then m k s = (r, s')"
  obtains (failed) "\<not> is_Ok r" "sends s [] s'"
  | (went_on) a s1 where "m s = (Ok a, s1)" "wi_sent s1 = wi_sent s" "k a s1 = (r, s')"
proof (cases "m s")
  case (Pair r1 s1)
  with assms failed went_on show thesis by (cases r1) (auto simp: silent_def and_then_def sends_def)
qed

lemma reply_then:
  assumes "and_then (reply E m) k s = (r, s')"
  obtains (failed) "\<not> is_Ok r" "sends s [] s' \<or> sends s [m] s'"
  | (went_on) s1 where "sends s [m] s1" "k () s1 = (r, s')"
proof (cases "reply E m s")
  case (Pair r1 s1)
  from reply_sends [OF Pair] Pair assms failed went_on show thesis by (cases r1) (auto simp: and_then_def)
qed

lemma reply_read_parse:
  assumes "and_then (reply E m) (\<lambda>_. and_then (read_value_blocking E) (\<lambda>v. lift_result (f v))) s = (r, s')"
  shows "(\<not> is_Ok r \<and> sends s [] s') \<or> sends s [m] s'"
  using assms
proof (cases rule: reply_then)
  case (went_on s1)
  have "silent (and_then (read_value_blocking E) (\<lambda>v. lift_result (f v)))"
    by (intro silent_intros silent_read)
  with went_on(2) have "wi_sent s' = wi_sent s1" by (auto simp: silent_def)
  with went_on(1) show ?thesis by (simp add: sends_def)
qed auto

definition distinct_kinds :: "'x wire_env_scheme \<Rightarrow> bool" where
  "distinct_kinds E \<longleftrightarrow> distinct (COMPLETION_KIND E # request_kinds E)"

text \<open>The bindings that belong to a snapshot state.\<close>

definition binding_for :: "secret_handlers \<Rightarrow> secret_delivery_relay_state \<Rightarrow> json \<Rightarrow> bool" where
  "binding_for H st b \<longleftrightarrow> (\<exists>q.
     st = SnapshotResponded \<and> (bind_snapshot_secret_delivery H q = Inr b \<or> bind_snapshot_secret_delivery_v3 H q = Inr b)
     \<or> st = SnapshotV2Responded \<and> bind_snapshot_secret_delivery_v4 H q = Inr b)"

definition snapshot_for :: "secret_handlers \<Rightarrow> secret_delivery_relay_state \<Rightarrow> json \<Rightarrow> bool" where
  "snapshot_for H st a \<longleftrightarrow> (\<exists>q.
     st = SnapshotResponded \<and> respond_authority_snapshot H q = Inr a
     \<or> st = SnapshotV2Responded \<and> respond_authority_snapshot_v2 H q = Inr a)"

lemma handle_Ok: "handle E t f v s = (Ok a, s') \<Longrightarrow> \<exists>q. f q = Inr a"
  by (auto simp: handle_def relay_Ok_iff)

lemma binding_exchange_sends:
  assumes kinds: "distinct_kinds E" and st: "st = SnapshotResponded \<or> st = SnapshotV2Responded"
    and run: "binding_exchange E H st v s = (r, s')"
  shows "\<not> is_Ok r \<and> sends s [] s' \<or> (\<exists>b. binding_for H st b \<and> sends s [BindingMsg b] s')"
  using silent_basic(1) run [unfolded binding_exchange_def]
proof (cases rule: silent_then)
  case (went_on st' s1)
  let ?answer = "if json_message_kind v = Some (BINDING_V2_KIND E)
        then handle E ''ProtectedLauncherSecretDeliveryTransactionBindingRequestV2'' (bind_snapshot_secret_delivery H) v
        else if json_message_kind v = Some (BINDING_V3_KIND E)
        then handle E ''ProtectedLauncherSecretDeliveryTransactionBindingRequestV3'' (bind_snapshot_secret_delivery_v3 H) v
        else if json_message_kind v = Some (BINDING_V4_KIND E)
        then handle E ''ProtectedLauncherSecretDeliveryTransactionBindingRequestV4'' (bind_snapshot_secret_delivery_v4 H) v
        else throw AuthorizationAdmissionMismatch"
  have "silent ?answer" by (intro silent_intros silent_handle)
  from this went_on(3) show ?thesis
  proof (cases rule: silent_then)
    case failed
    with went_on(2) show ?thesis by (simp add: sends_def)
  next
    case answered: (went_on b s2)
    from went_on(1) kinds st answered(1) have "binding_for H st b"
      by (auto simp: relay_Ok_iff advance_secret_delivery_relay_state_def distinct_kinds_def request_kinds_def
          binding_for_def split: if_splits dest!: handle_Ok)
    moreover from reply_read_parse [OF answered(3)] went_on(2) answered(2)
    have "\<not> is_Ok r \<and> sends s [] s' \<or> sends s [BindingMsg b] s'" by (simp add: sends_def)
    ultimately show ?thesis by blast
  qed
qed auto

lemma parse_refusal_Ok:
  "parse_pre_binding_refusal_completion E v st = Inr (Some c) \<Longrightarrow> ec_outcome c = FailedOutcome"
  by (auto simp: parse_pre_binding_refusal_completion_def split: if_splits option.splits)

text \<open>The frame after a reply: a refusal ends the exchange, anything else goes on.\<close>

lemma refusal_or_next:
  assumes "and_then (read_value_blocking E) (\<lambda>w.
      and_then (lift_result (parse_pre_binding_refusal_completion E w st)) (\<lambda>refusal.
        case refusal of Some c \<Rightarrow> ret c | None \<Rightarrow> k w)) s = (r, s')"
  obtains (ended) "sends s [] s'" "\<forall>c. r = Ok c \<longrightarrow> ec_outcome c = FailedOutcome"
  | (went_on) w s1 where "wi_sent s1 = wi_sent s" "k w s1 = (r, s')"
  using silent_read assms
proof (cases rule: silent_then)
  case failed
  then show thesis by (intro ended) auto
next
  case got: (went_on w s1)
  from silent_basic(1) got(3) show thesis
  proof (cases rule: silent_then)
    case failed
    with got(2) show thesis by (intro ended) (auto simp: sends_def)
  next
    case parsed: (went_on refusal s2)
    show thesis
    proof (cases refusal)
      case None
      with parsed got(2) show thesis by (intro went_on [of s2 w]) auto
    next
      case (Some c)
      with parsed got(2) show thesis
        by (intro ended) (auto simp: sends_def relay_Ok_iff dest: parse_refusal_Ok)
    qed
  qed
qed

text \<open>How far a run from a snapshot request on got.\<close>

inductive snapshot_run :: "secret_handlers \<Rightarrow> relay_state \<Rightarrow> ('e, completion) outcome \<Rightarrow> relay_state \<Rightarrow> bool"
  for H s r s' where
  none_sent: "\<not> is_Ok r \<Longrightarrow> sends s [] s' \<Longrightarrow> snapshot_run H s r s'"
| snapshot_only: "snapshot_for H st a \<Longrightarrow> sends s [SnapshotMsg a] s' \<Longrightarrow>
    (\<And>c. r = Ok c \<Longrightarrow> ec_outcome c = FailedOutcome) \<Longrightarrow> snapshot_run H s r s'"
| both: "snapshot_for H st a \<Longrightarrow> binding_for H st b \<Longrightarrow> sends s [SnapshotMsg a, BindingMsg b] s' \<Longrightarrow>
    snapshot_run H s r s'"

lemma not_Ok [simp]: "\<not> is_Ok r \<Longrightarrow> r \<noteq> Ok c"
  by auto

lemma snapshot_exchange_sends:
  assumes kinds: "distinct_kinds E" and run: "snapshot_exchange E H PreludeResponded v s = (r, s')"
  shows "snapshot_run H s r s'"
  using silent_basic(1) run [unfolded snapshot_exchange_def]
proof (cases rule: silent_then)
  case failed
  then show ?thesis by (rule snapshot_run.none_sent)
next
  case (went_on st s1)
  let ?answer = "if st = SnapshotResponded
        then handle E ''ProtectedAuthoritySnapshotRequestV1'' (respond_authority_snapshot H) v
        else if st = SnapshotV2Responded
        then handle E ''ProtectedAuthoritySnapshotRequestV2'' (respond_authority_snapshot_v2 H) v
        else throw AuthorizationAdmissionMismatch"
  have "silent ?answer" by (intro silent_intros silent_handle)
  from this went_on(3) show ?thesis
  proof (cases rule: silent_then)
    case failed
    with went_on(2) show ?thesis by (intro snapshot_run.none_sent) (simp_all add: sends_def)
  next
    case answered: (went_on a s2)
    then have snap: "snapshot_for H st a" and st: "st = SnapshotResponded \<or> st = SnapshotV2Responded"
      by (auto simp: snapshot_for_def split: if_splits dest!: handle_Ok)
    from answered(3) show ?thesis
    proof (cases rule: reply_then)
      case failed
      then have "sends s [] s' \<or> sends s [SnapshotMsg a] s'" using went_on(2) answered(2) by (simp add: sends_def)
      with failed(1) snap show ?thesis by (auto intro: snapshot_run.none_sent snapshot_run.snapshot_only)
    next
      case replied: (went_on s3)
      then have a3: "sends s [SnapshotMsg a] s3" using went_on(2) answered(2) by (simp add: sends_def)
      from replied(2) show ?thesis
      proof (cases rule: refusal_or_next)
        case ended
        with sends_trans [OF a3 ended(1)] snap show ?thesis by (intro snapshot_run.snapshot_only) auto
      next
        case more: (went_on w s4)
        have a4: "sends s [SnapshotMsg a] s4" using a3 more(1) by (simp add: sends_def)
        from binding_exchange_sends [OF kinds st more(2)] show ?thesis
        proof (elim disjE exE conjE)
          assume "\<not> is_Ok r" "sends s4 [] s'"
          with sends_trans [OF a4, of "[]"] snap show ?thesis by (intro snapshot_run.snapshot_only) auto
        next
          fix b
          assume "binding_for H st b" "sends s4 [BindingMsg b] s'"
          with sends_trans [OF a4, of "[BindingMsg b]"] snap show ?thesis by (intro snapshot_run.both) auto
        qed
      qed
    qed
  qed
qed

text \<open>\<open>delivers H s r s'\<close>: the replies are a prefix of a delivery, and all of it when a completion came.\<close>

definition delivers :: "secret_handlers \<Rightarrow> relay_state \<Rightarrow> ('e, completion) outcome \<Rightarrow> relay_state \<Rightarrow> bool" where
  "delivers H s r s' \<longleftrightarrow> (\<exists>D e ms. delivery H D e \<and> prefix ms D \<and> sends s ms s' \<and>
     (\<forall>c. r = Ok c \<longrightarrow> ms = D \<and> (e = RefusedBeforeBinding \<longrightarrow> ec_outcome c = FailedOutcome)))"

lemma delivers_failed: "delivery H D e \<Longrightarrow> sends s ms s' \<Longrightarrow> prefix ms D \<Longrightarrow> \<not> is_Ok r \<Longrightarrow> delivers H s r s'"
  unfolding delivers_def by auto

lemma delivers_all:
  "delivery H D e \<Longrightarrow> sends s D s' \<Longrightarrow> (\<And>c. r = Ok c \<Longrightarrow> e = RefusedBeforeBinding \<Longrightarrow> ec_outcome c = FailedOutcome) \<Longrightarrow>
   delivers H s r s'"
  unfolding delivers_def by blast

lemma delivered_after_prelude:
  assumes q: "observe_same_child_capability H q = Inr (c, p)" and sent: "sends s [CapabilityMsg c, PreludeMsg p] s1"
    and run: "snapshot_run H s1 r s'"
  shows "delivers H s r s'"
  using run
proof cases
  case none_sent
  with sends_trans [OF sent none_sent(2)] show ?thesis by (intro delivers_all [OF delivery.prelude [OF q]]) auto
next
  case (snapshot_only st a)
  from snapshot_only(1) obtain q' where
    q': "respond_authority_snapshot H q' = Inr a \<or> respond_authority_snapshot_v2 H q' = Inr a"
    by (auto simp: snapshot_for_def)
  with sends_trans [OF sent snapshot_only(2)] snapshot_only(3) show ?thesis
    by (intro delivers_all [OF delivery.snapshot [OF q q']]) auto
next
  case (both st a b)
  from both(1,2) have "delivery H [CapabilityMsg c, PreludeMsg p, SnapshotMsg a, BindingMsg b] Bound"
    using delivery.bound [OF q] delivery.bound_v4 [OF q] by (auto simp: snapshot_for_def binding_for_def)
  with sends_trans [OF sent both(3)] show ?thesis by (auto intro: delivers_all)
qed

lemma prelude_exchange_delivers:
  assumes kinds: "distinct_kinds E" and run: "prelude_exchange E H PreludeResponded v s = (r, s')"
  shows "delivers H s r s'"
  using silent_handle run [unfolded prelude_exchange_def]
proof (cases rule: silent_then)
  case failed
  then show ?thesis by (intro delivers_failed [OF delivery.direct]) auto
next
  case (went_on x s1)
  obtain c p where x: "x = (c, p)" by (cases x)
  from handle_Ok [OF went_on(1)] x obtain q where q: "observe_same_child_capability H q = Inr (c, p)" by blast
  note pre = delivery.prelude [OF q]
  from went_on(3) [unfolded x prod.case] show ?thesis
  proof (cases rule: reply_then)
    case failed
    then have "sends s [] s' \<or> sends s [CapabilityMsg c] s'" using went_on(2) by (simp add: sends_def)
    then show ?thesis using failed(1) by (elim disjE) (auto intro: delivers_failed [OF pre])
  next
    case first: (went_on s2)
    have c2: "sends s [CapabilityMsg c] s2" using first(1) went_on(2) by (simp add: sends_def)
    from first(2) show ?thesis
    proof (cases rule: reply_then)
      case failed
      then have "sends s [CapabilityMsg c] s' \<or> sends s [CapabilityMsg c, PreludeMsg p] s'"
        using sends_trans [OF c2, of "[]"] sends_trans [OF c2, of "[PreludeMsg p]"] by auto
      then show ?thesis using failed(1) by (elim disjE) (auto intro: delivers_failed [OF pre])
    next
      case second: (went_on s3)
      have p3: "sends s [CapabilityMsg c, PreludeMsg p] s3" using sends_trans [OF c2 second(1)] by simp
      from second(2) show ?thesis
      proof (cases rule: refusal_or_next)
        case ended
        with sends_trans [OF p3 ended(1)] show ?thesis by (intro delivers_all [OF pre]) auto
      next
        case more: (went_on w s4)
        have "sends s [CapabilityMsg c, PreludeMsg p] s4" using p3 more(1) by (simp add: sends_def)
        from delivered_after_prelude [OF q this snapshot_exchange_sends [OF kinds more(2)]] show ?thesis .
      qed
    qed
  qed
qed

lemma legacy_exchange_delivers:
  assumes run: "legacy_exchange E H st v s = (r, s')"
  shows "delivers H s r s'"
  using silent_handle run [unfolded legacy_exchange_def]
proof (cases rule: silent_then)
  case failed
  then show ?thesis by (intro delivers_failed [OF delivery.direct]) auto
next
  case (went_on b s1)
  from handle_Ok [OF went_on(1)] obtain q where q: "bind_secret_delivery H q = Inr b" by blast
  from reply_read_parse [OF went_on(3)] went_on(2)
  have "\<not> is_Ok r \<and> sends s [] s' \<or> sends s [BindingMsg b] s'" by (simp add: sends_def)
  then show ?thesis
  proof (elim disjE conjE)
    assume "sends s [BindingMsg b] s'"
    then show ?thesis by (intro delivers_all [OF delivery.legacy [OF q]]) auto
  qed (rule delivers_failed [OF delivery.legacy [OF q]], auto)
qed

text \<open>
  C23. The exchange with the child refines the delivery protocol. Whatever frames the child sends, the
  launcher's replies are a prefix of a delivery: no reply is repeated, reordered or given without
  the ones before it, and a binding is of the version that belongs to the snapshot. When the
  exchange yields a completion the delivery is complete, and a completion that came before the
  binding of a begun delivery reports a failed execution.
\<close>

theorem exchange_refines_delivery:
  assumes "distinct_kinds E" and "receive_completion E H s = (r, s')"
  shows "delivers H s r s'"
  using silent_read assms(2) [unfolded receive_completion_def]
proof (cases rule: silent_then)
  case failed
  then show ?thesis by (intro delivers_failed [OF delivery.direct]) auto
next
  case (went_on v s1)
  have start: "delivers H s1 r s' \<Longrightarrow> delivers H s r s'" using went_on(2) by (simp add: delivers_def sends_def)
  have quiet: "delivers H s1 r s'" if "wi_sent s' = wi_sent s1"
    by (rule delivers_all [OF delivery.direct]) (use that in \<open>auto simp: sends_def\<close>)
  have advanced: "advance_secret_delivery_relay_state E AwaitPreludeOrLegacyOrCompletion (Some (BINDING_KIND E)) = Inr LegacyBound"
    "advance_secret_delivery_relay_state E AwaitPreludeOrLegacyOrCompletion (Some (CAPABILITY_KIND E)) = Inr PreludeResponded"
    using assms(1) by (auto simp: advance_secret_delivery_relay_state_def distinct_kinds_def request_kinds_def)
  show ?thesis
    using went_on(3) advanced prelude_exchange_delivers [OF assms(1)] legacy_exchange_delivers quiet
    by (intro start) (auto simp: Let_def and_then_def decoded_def split: if_splits option.splits)
qed


section \<open>The state machine and its paths\<close>

fun advance_all ::
  "'x wire_env_scheme \<Rightarrow> secret_delivery_relay_state \<Rightarrow> string option list \<Rightarrow> prepared_child_error + secret_delivery_relay_state" where
  "advance_all E st [] = Inr st"
| "advance_all E st (k # ks) =
     (case advance_secret_delivery_relay_state E st k of Inl e \<Rightarrow> Inl e | Inr st' \<Rightarrow> advance_all E st' ks)"

fun delivery_path :: "'x wire_env_scheme \<Rightarrow> secret_delivery_relay_state \<Rightarrow> string list" where
  "delivery_path E AwaitPreludeOrLegacyOrCompletion = []"
| "delivery_path E PreludeResponded = [CAPABILITY_KIND E]"
| "delivery_path E SnapshotResponded = [CAPABILITY_KIND E, SNAPSHOT_KIND E]"
| "delivery_path E SnapshotV2Responded = [CAPABILITY_KIND E, SNAPSHOT_V2_KIND E]"
| "delivery_path E LegacyBound = [BINDING_KIND E]"
| "delivery_path E V2Bound = [CAPABILITY_KIND E, SNAPSHOT_KIND E, BINDING_V2_KIND E]"
| "delivery_path E V3Bound = [CAPABILITY_KIND E, SNAPSHOT_KIND E, BINDING_V3_KIND E]"
| "delivery_path E V4Bound = [CAPABILITY_KIND E, SNAPSHOT_V2_KIND E, BINDING_V4_KIND E]"

definition requests_of :: "'x wire_env_scheme \<Rightarrow> string option list \<Rightarrow> string list" where
  "requests_of E ks = filter (\<lambda>k. k \<in> set (request_kinds E)) (List.map_filter id ks)"

lemma requests_of_simps [simp]:
  "requests_of E [] = []"
  "requests_of E (None # ks) = requests_of E ks"
  "requests_of E (Some k # ks) = (if k \<in> set (request_kinds E) then k # requests_of E ks else requests_of E ks)"
  by (simp_all add: requests_of_def List.map_filter_simps)

lemma advance_step_path:
  assumes "distinct_kinds E" and "k \<in> set (request_kinds E)"
    and "advance_secret_delivery_relay_state E st (Some k) = Inr st'"
  shows "delivery_path E st' = delivery_path E st @ [k]"
  using assms
  by (cases st) (auto simp: advance_secret_delivery_relay_state_def distinct_kinds_def request_kinds_def split: if_splits)

lemma advance_step_refused:
  assumes "distinct_kinds E" and "k \<in> set (request_kinds E)"
    and "advance_secret_delivery_relay_state E st (Some k) = Inl e"
  shows "\<not> prefix (delivery_path E st @ [k]) (delivery_path E st')"
  using assms
  by (cases st; cases st')
     (auto simp: advance_secret_delivery_relay_state_def distinct_kinds_def request_kinds_def split: if_splits)

lemma delivery_path_inj: "distinct_kinds E \<Longrightarrow> delivery_path E st = delivery_path E st' \<Longrightarrow> st = st'"
  by (cases st; cases st') (auto simp: distinct_kinds_def request_kinds_def)

lemma advance_all_path:
  assumes "distinct_kinds E"
  shows "advance_all E st ks = Inr st' \<longleftrightarrow> delivery_path E st @ requests_of E ks = delivery_path E st'"
proof (induction ks arbitrary: st)
  case Nil
  show ?case using delivery_path_inj [OF assms] by auto
next
  case (Cons k ks)
  show ?case
  proof (cases "\<exists>x. k = Some x \<and> x \<in> set (request_kinds E)")
    case True
    then obtain x where x: "k = Some x" "x \<in> set (request_kinds E)" by blast
    show ?thesis
    proof (cases "advance_secret_delivery_relay_state E st k")
      case (Inl e)
      with advance_step_refused [OF assms x(2), of st e st'] x show ?thesis
        by simp (metis append.assoc append_Cons append_Nil prefixI)
    next
      case (Inr st1)
      with advance_step_path [OF assms x(2), of st st1] x Cons.IH [of st1] show ?thesis by simp
    qed
  next
    case False
    then have "advance_secret_delivery_relay_state E st k = Inr st" "requests_of E (k # ks) = requests_of E ks"
      by (cases k; auto simp: advance_secret_delivery_relay_state_def request_kinds_def)+
    with Cons.IH show ?thesis by simp
  qed
qed

lemma advance_all_error:
  assumes "distinct_kinds E"
  shows "advance_all E st ks = Inl e \<Longrightarrow> e = AuthorizationAdmissionMismatch"
proof (induction ks arbitrary: st)
  case (Cons k ks)
  then show ?case
    by (cases "advance_secret_delivery_relay_state E st k")
       (auto simp: advance_secret_delivery_relay_state_def split: option.splits if_splits)
qed simp

text \<open>
  C24. The state machine accepts exactly the delivery paths. From the initial state, a sequence of
  message kinds is accepted and ends in a given state exactly when the requests in it, taken in
  order, are the one path of requests that leads there; frames of other kinds do not matter, and
  every other sequence is refused as an admission mismatch.
\<close>

theorem relay_state_paths:
  assumes "distinct_kinds E"
  shows "(advance_all E AwaitPreludeOrLegacyOrCompletion ks = Inr st \<longleftrightarrow> requests_of E ks = delivery_path E st) \<and>
    (advance_all E AwaitPreludeOrLegacyOrCompletion ks = Inl AuthorizationAdmissionMismatch \<longleftrightarrow>
      (\<nexists>st'. requests_of E ks = delivery_path E st'))"
  using advance_all_path [OF assms, of AwaitPreludeOrLegacyOrCompletion ks] advance_all_error [OF assms]
  by (cases "advance_all E AwaitPreludeOrLegacyOrCompletion ks") auto


section \<open>Exit codes\<close>

lemma sint_small:
  fixes w :: "'a :: len word"
  assumes "uint w < 2 ^ (LENGTH('a) - 1)"
  shows "sint w = uint w"
proof -
  have "- (2 ^ (LENGTH('a) - 1)) \<le> uint w"
    using uint_lt_0 [of w] by (smt (verit) zero_le_power)
  with assms show ?thesis by (simp add: sint_uint signed_take_bit_int_eq_self)
qed

lemma uint_low_bits: "uint (w AND 0x7f :: 32 word) = uint w mod 128" "uint (w AND 0xff :: 32 word) = uint w mod 256"
  using take_bit_eq_mask [of 7 "uint w"] take_bit_eq_mask [of 8 "uint w"]
  by (simp_all add: uint_and take_bit_eq_mod mask_eq_exp_minus_1)

lemma WEXITSTATUS_eq: "WEXITSTATUS status = uint status div 256 mod 256"
proof -
  have "uint (drop_bit 8 status AND 0xff) = uint status div 256 mod 256"
    by (simp add: uint_low_bits uint_div_distrib drop_bit_eq_div)
  moreover have "uint status div 256 mod 256 < 2 ^ (LENGTH(32) - 1)"
    by (rule order.strict_trans [of _ 256]) simp_all
  ultimately show ?thesis by (simp add: WEXITSTATUS_def sint_small)
qed

lemma WTERMSIG_eq: "WTERMSIG status = uint status mod 128"
proof -
  have "uint status mod 128 < 2 ^ (LENGTH(32) - 1)"
    by (rule order.strict_trans [of _ 128]) simp_all
  then show ?thesis by (simp add: WTERMSIG_def sint_small uint_low_bits)
qed

lemma WIFSIGNALED_eq: "WIFSIGNALED status \<longleftrightarrow> 1 \<le> uint status mod 128 \<and> uint status mod 128 < 127"
proof -
  define n where "n = uint status mod 128"
  have n: "0 \<le> n" "n < 128" by (simp_all add: n_def)
  have "status AND 0x7f = word_of_int n"
    unfolding n_def by (simp flip: uint_low_bits)
  then have "(status AND 0x7f) + 1 = word_of_int (n + 1)" by simp
  then have "ucast ((status AND 0x7f) + 1) = (word_of_int (n + 1) :: 8 word)"
    using n by (simp only: unsigned_of_int) (simp add: take_bit_int_eq_self)
  then have sint: "sint (ucast ((status AND 0x7f) + 1) :: 8 word) = signed_take_bit 7 (n + 1)"
    by (simp only: signed_of_int) simp
  show ?thesis
  proof (cases "n = 127")
    case True
    then show ?thesis unfolding WIFSIGNALED_def n_def [symmetric] sint by simp
  next
    case False
    with n show ?thesis
      unfolding WIFSIGNALED_def n_def [symmetric] sint by (simp add: signed_take_bit_int_eq_self)
  qed
qed

text \<open>
  The exit code of a reaped child. Read off the raw 32-bit status word, the reported code is
  the second byte when the low seven bits are zero (a normal exit), 128 plus the signal when they
  are between 1 and 126, and there is none for a stopped or continued child; so it always lies
  between 0 and 255, no matter how the 8-bit and 32-bit arithmetic of the macros wraps.
\<close>

theorem exit_code_bounds:
  "exit_code_of status =
     (let low = uint status mod 128 in
      if low = 0 then Some (uint status div 256 mod 256)
      else if low < 127 then Some (128 + low) else None) \<and>
   pred_option (\<lambda>code. 0 \<le> code \<and> code \<le> 255) (exit_code_of status)"
proof -
  have "WIFEXITED status \<longleftrightarrow> uint status mod 128 = 0"
    by (metis WIFEXITED_def uint_low_bits(1) uint_0_iff)
  moreover have "uint status mod 128 \<ge> 0" "uint status mod 128 < 128"
    "0 \<le> uint status div 256 mod 256" "uint status div 256 mod 256 < 256"
    by simp_all
  ultimately show ?thesis
    unfolding exit_code_of_def WEXITSTATUS_eq WTERMSIG_eq WIFSIGNALED_eq Let_def
    by (cases "uint status mod 128 = 0"; cases "uint status mod 128 < 127") auto
qed

end
