(* ===== verification/Relay_Samples.thy ===== *)
theory Relay_Samples
  imports Selected_Relay Finalization_Store
begin

text \<open>
  A concrete run of the relays, the input of their witnesses: a protocol crate whose constants are
  their own names, frames of one letter per message, and a broker and a child that follow the
  protocol from an attached scope to a completed execution.
\<close>


section \<open>The protocol crate\<close>

definition sample_constant :: "string \<Rightarrow> string" where
  "sample_constant n =
     (if n \<in> {''AUTHORIZATION_DECISION'', ''LEASE_ISSUANCE'', ''LEASE_CONSUME'', ''LEASE_CONSUME_RESPONSE''}
      then ''k'' else n)"

definition sample_encode_frame :: "string \<Rightarrow> string option" where
  "sample_encode_frame p = Some (to_be_bytes (length p) @ p)"

definition sample_message_identity :: "string \<Rightarrow> message \<Rightarrow> string option" where
  "sample_message_identity d m =
     (case m of
        DecisionMsg _ \<Rightarrow> Some ''ad'' | LeaseMsg _ \<Rightarrow> Some ''l'' | ConsumeRequestMsg _ \<Rightarrow> Some ''cr''
      | ConsumeResponseMsg _ \<Rightarrow> Some ''cs'' | _ \<Rightarrow> None)"

definition letter :: "string \<Rightarrow> 'a \<Rightarrow> string \<Rightarrow> 'a option" where
  "letter l x bs = (if bs = l then Some x else None)"

text \<open>A request of the child, and its completion, as JSON values.\<close>

definition kind_value :: "string \<Rightarrow> json" where
  "kind_value k = JObject [(''message_kind'', JString k)]"

definition sample_value :: "string \<Rightarrow> json option" where
  "sample_value bs =
     map_of [(''c'', kind_value ''PROTECTED_LAUNCHER_CAPABILITY_OBSERVATION_REQUEST''),
       (''s'', kind_value ''PROTECTED_AUTHORITY_SNAPSHOT_REQUEST''),
       (''b'', kind_value ''PROTECTED_LAUNCHER_SECRET_DELIVERY_TRANSACTION_BINDING_REQUEST_V2''),
       (''e'', kind_value ''LAUNCHER_EXECUTION_COMPLETION'')] bs"

definition sample_wire_env :: wire_env where
  "sample_wire_env = fin_env.extend sample_fin_env
     (wire_env.fields sample_constant 9 sample_encode_frame (\<lambda>f. Some (drop 4 f)) (\<lambda>_. Some ''m'')
        sample_message_identity (\<lambda>_. None) (\<lambda>_. None) (\<lambda>_. None)
        (letter ''d'' (dr_authorization_decision (sample_decision Allowed)))
        (letter ''a'' (dr_admission (sample_decision Allowed)))
        (letter ''l'' sample_lease) (letter ''q'' sample_consume_request)
        (letter ''r'' (lc_consume_response sample_consumption)) (letter ''x'' (lc_admission sample_consumption))
        sample_value (\<lambda>_ v. Some v) (\<lambda>_. Some sample_completion)
        (\<lambda>_. None) (\<lambda>_. None) (\<lambda>_. None)
        (Some \<circ> po_identity) (Some \<circ> st_identity) (\<lambda>_. Some ''at'') (Some \<circ> da_identity) (Some \<circ> pn_identity)
        (Some \<circ> la_identity) (Some \<circ> pn_identity) (Some \<circ> pn_identity) (Some \<circ> rs_response_identity)
        2 (\<lambda>_. True) (\<lambda>_. True) (\<lambda>_. True))"


section \<open>The peers\<close>

text \<open>Frames of one letter each, cut into a header and a payload with an interruption between.\<close>

definition sample_header :: string where
  "sample_header = [CHR 0x00, CHR 0x00, CHR 0x00, CHR 0x01]"

definition letters :: "string \<Rightarrow> read_event list" where
  "letters ls = concat (map (\<lambda>c. [Bytes sample_header, ReadInterrupted, Bytes [c]]) ls)"

definition sample_authorization :: authorization_request where
  "sample_authorization = \<lparr>rq_message_kind = ''AUTHORIZATION_REQUEST'', rq_binding_identity = ''b'',
     rq_attestation_identity = ''at'', rq_challenge_nonce_commitment = ''n'', rq_work_unit_identity = ''w'',
     rq_contract_identity = ''c'', rq_semantic_scope_identity = ''s'', rq_runner_principal = ''p'', rq_rest = []\<rparr>"

definition sample_relay_state :: "active_slot_stage \<Rightarrow> string \<Rightarrow> string \<Rightarrow> relay_state" where
  "sample_relay_state st broker child =
     \<lparr>wi_in = (\<lambda>p. case p of Broker \<Rightarrow> letters broker | Child \<Rightarrow> letters child | _ \<Rightarrow> []),
      wi_writes = [], wi_sent = [], wi_world = sample_world_at st [], re_slot = sample_slot st\<rparr>"

definition sample_handlers :: secret_handlers where
  "sample_handlers = \<lparr>observe_same_child_capability = (\<lambda>_. Inr (JNull, JNull)),
     respond_authority_snapshot = Inr, respond_authority_snapshot_v2 = Inr, bind_secret_delivery = Inr,
     bind_snapshot_secret_delivery = Inr, bind_snapshot_secret_delivery_v3 = Inr,
     bind_snapshot_secret_delivery_v4 = Inr\<rparr>"

definition sample_selected_child :: selected_child where
  "sample_selected_child = \<lparr>xc_record = sample_child, xc_pid = 42, xc_stdout = Some [Bytes ''hello''],
     xc_stderr = Some [ReadInterrupted, Bytes ''x''], xc_client_clone = True, xc_schedule = [Stderr, Stdout],
     xc_waits = [WaitInterrupted, Waited 0]\<rparr>"

lemma sample_relay_live: "relay_live sample_wire_env (sample_relay_state st broker child)"
proof -
  have "slot_wf sample_wire_env (sample_journal st)" by (cases st; hypsubst; code_simp)
  moreover have "slot_at sample_store sample_slot_path (sample_journal st)" by (cases st; hypsubst; code_simp)
  moreover have "slot_to_vec sample_wire_env = Some \<circ> sample_encode"
    by (simp add: sample_wire_env_def sample_fin_env_def sample_env_def slot_env.defs fin_env.defs wire_env.defs)
  ultimately show ?thesis
    by (simp add: live_slot_def sample_relay_state_def sample_slot_def journal_at_def sample_world_at_def
        sample_file_def sample_slot_path_def sample_store_def path_join_def)
qed

lemma sample_kinds: "distinct_kinds sample_wire_env"
  by code_simp

lemma sample_framed: "framed sample_wire_env ''c'' (sample_header @ ''c'')"
proof -
  have "to_be_bytes (length ''c'') = sample_header"
    by code_simp
  then show ?thesis
    by (simp add: framed_def sample_wire_env_def sample_fin_env_def slot_env.defs fin_env.defs wire_env.defs
        sample_encode_frame_def sample_header_def)
qed

definition decisions_run :: "(prepared_child_error, authorization_decision \<times> consumption_relay option) outcome \<times> relay_state" where
  "decisions_run = relay_v3_authorization_decisions sample_wire_env sample_authorization ''rq''
     (sample_relay_state ScopeAttached ''dlr'' ''aqx'')"

definition selected_run :: "(prepared_child_error, completion \<times> int option) outcome \<times> relay_state" where
  "selected_run = relay_selected_execution_with_secret_binding sample_wire_env sample_handlers
     sample_selected_child sample_consumption (sample_relay_state LeaseConsumptionVerified [] ''csbe'')"


section \<open>Witnesses\<close>

theorem frame_roundtrip_witness:
  "pending (wi_in (sample_relay_state Intent [] ''cs'') Child) = (sample_header @ ''c'') @ (sample_header @ ''s'') \<and>
   (\<exists>es. pending es = sample_header @ ''s'' \<and>
      read_checked sample_wire_env Child () sample_value (sample_relay_state Intent [] ''cs'') =
        decoded () (sample_value ''c'')
          ((sample_relay_state Intent [] ''cs'')\<lparr>wi_in := (wi_in (sample_relay_state Intent [] ''cs''))(Child := es)\<rparr>))"
proof -
  have rest: "pending (wi_in (sample_relay_state Intent [] ''cs'') Child) = (sample_header @ ''c'') @ (sample_header @ ''s'')"
    by code_simp
  from frame_roundtrip [OF sample_framed this, of "()" sample_value] show ?thesis
    by (elim exE conjE) (intro conjI rest exI)
qed

theorem frame_bounds_witness:
  "\<exists>s'. read_frame sample_wire_env Child () (sample_relay_state Intent [] ''c'') = (Ok (sample_header, ''c''), s') \<and>
     1 \<le> length ''c'' \<and> length ''c'' \<le> max_frame_bytes sample_wire_env \<and> pending (wi_in s' Child) = []"
proof -
  let ?run = "read_frame sample_wire_env Child () (sample_relay_state Intent [] ''c'')"
  have "fst ?run = Ok (sample_header, ''c'')" by code_simp
  then have run: "?run = (Ok (sample_header, ''c''), snd ?run)" by (metis prod.collapse)
  have "pending (wi_in (sample_relay_state Intent [] ''c'') Child) = sample_header @ ''c''" by code_simp
  with frame_bounds [OF run] run show ?thesis by (intro exI [of _ "snd ?run"]) simp
qed

theorem relay_write_ahead_witness:
  "is_Ok (fst decisions_run) \<and>
   map (\<lambda>(p, m, _). (p, announcing m)) (wi_sent (snd decisions_run)) =
     [(Broker, False), (Child, False), (Child, False), (Child, True), (Broker, True), (Child, False), (Child, True)] \<and>
   list_all (backed sample_wire_env sample_slot_path) (wi_sent (snd decisions_run))"
proof -
  have "is_Ok (fst decisions_run)" by code_simp
  moreover have "map (\<lambda>(p, m, _). (p, announcing m)) (wi_sent (snd decisions_run)) =
     [(Broker, False), (Child, False), (Child, False), (Child, True), (Broker, True), (Child, False), (Child, True)]"
    by code_simp
  moreover have "list_all (backed sample_wire_env sample_slot_path) (wi_sent (snd decisions_run))"
    using relay_write_ahead [OF sample_relay_live, of sample_authorization "''rq''" ScopeAttached "''dlr''" "''aqx''"
        "fst decisions_run" "snd decisions_run"]
    by (simp add: decisions_run_def sample_relay_state_def sample_slot_def)
  ultimately show ?thesis by blast
qed

theorem relay_outcome_witness:
  "\<exists>result. fst decisions_run = Ok result \<and> fst result = Allowed \<and> relay_live sample_wire_env (snd decisions_run) \<and>
     relay_settled sample_wire_env sample_authorization ''rq'' result
       (announcements (wi_sent (snd decisions_run))) (sl_journal (re_slot (snd decisions_run)))"
proof -
  have "(case fst decisions_run of Ok result \<Rightarrow> fst result = Allowed | _ \<Rightarrow> False)" by code_simp
  then obtain result where ok: "fst decisions_run = Ok result" "fst result = Allowed"
    by (cases "fst decisions_run") auto
  then have "relay_v3_authorization_decisions sample_wire_env sample_authorization ''rq''
     (sample_relay_state ScopeAttached ''dlr'' ''aqx'') = (Ok result, snd decisions_run)"
    by (metis decisions_run_def prod.collapse)
  from relay_outcome [OF sample_relay_live this] ok show ?thesis
    by (auto simp: sample_relay_state_def)
qed

text \<open>A run in which the second write fails, which ends standard output, and then a read of standard error.\<close>

definition failing_outputs :: "output_stream \<Rightarrow> read_event list" where
  "failing_outputs st = (case st of Stdout \<Rightarrow> [Bytes ''hello'']
     | Stderr \<Rightarrow> [ReadInterrupted, Bytes ''x'', Bytes ''y'', ReadFailed, Bytes ''z''])"

definition failing_outputs_run :: "outputs \<times> relay_state" where
  "failing_outputs_run = relay_outputs sample_wire_env ''i'' [Stderr, Stderr, Stdout] failing_outputs
     ((sample_relay_state Intent [] [])\<lparr>wi_writes := [True, False]\<rparr>)"

theorem output_relayed_faithfully_witness:
  "\<exists>fs s'. sent_frames ((sample_relay_state Intent [] [])\<lparr>wi_writes := [True, False]\<rparr>) fs s' \<and>
     map of_payload fs = [''x'', ''he'', ''y''] \<and> map of_sequence fs = [0, 1, 1] \<and>
     frames_valid sample_wire_env ''i'' [True, False] fs \<and>
     (\<forall>st. thread_result sample_wire_env ''i'' [True, False] (failing_outputs st) st fs (Inl OutputBridgeUnavailable))"
proof -
  let ?s = "(sample_relay_state Intent [] [])\<lparr>wi_writes := [True, False]\<rparr>"
  have space: "0 < max_launcher_output_payload_bytes sample_wire_env" by code_simp
  have "op_done (fst failing_outputs_run) Stdout = Some (Inl OutputBridgeUnavailable)"
    "op_done (fst failing_outputs_run) Stderr = Some (Inl OutputBridgeUnavailable)" by code_simp+
  then have ended: "op_done (fst failing_outputs_run) st = Some (Inl OutputBridgeUnavailable)" for st by (cases st) simp_all
  have run: "relay_outputs sample_wire_env ''i'' [Stderr, Stderr, Stdout] failing_outputs ?s =
      (fst failing_outputs_run, snd failing_outputs_run)" by (simp add: failing_outputs_run_def)
  from output_relayed_faithfully [OF space run] obtain fs where
    fs: "sent_frames ?s fs (snd failing_outputs_run)" "frames_valid sample_wire_env ''i'' [True, False] fs"
    "\<forall>st. thread_result sample_wire_env ''i'' [True, False] (failing_outputs st) st fs (Inl OutputBridgeUnavailable)"
    by (auto simp: ended)
  have "map (\<lambda>(_, m, _). case m of OutputMsg f \<Rightarrow> (of_payload f, of_sequence f) | _ \<Rightarrow> ([], 0))
      (wi_sent (snd failing_outputs_run)) = [(''x'', 0), (''he'', 1), (''y'', 1)]" by code_simp
  moreover have "wi_sent (snd failing_outputs_run) = map (\<lambda>f. (Client, OutputMsg f, wi_world ?s)) fs"
    using fs(1) by (simp add: sent_frames_def sample_relay_state_def)
  ultimately have "map (\<lambda>f. (of_payload f, of_sequence f)) fs = [(''x'', 0), (''he'', 1), (''y'', 1)]"
    by (simp add: o_def)
  then have "map of_payload fs = [''x'', ''he'', ''y'']" "map of_sequence fs = [0, 1, 1]" by auto
  with fs show ?thesis by (intro exI [of _ fs] exI [of _ "snd failing_outputs_run"] conjI)
qed

theorem output_frames_numbered_witness:
  "\<exists>fs s'. sent_frames (sample_relay_state Intent [] []) fs s' \<and> map of_sequence fs = [0, 1, 2, 3] \<and>
     frames_of Stdout fs = ''hello'' \<and> frames_of Stderr fs = ''x''"
proof -
  let ?source = "\<lambda>st. case st of Stdout \<Rightarrow> [Bytes ''hello''] | Stderr \<Rightarrow> [ReadInterrupted, Bytes ''x'']"
  let ?run = "relay_outputs sample_wire_env ''i'' [Stderr, Stdout] ?source (sample_relay_state Intent [] [])"
  have space: "0 < max_launcher_output_payload_bytes sample_wire_env" by code_simp
  have ended: "op_done (fst ?run) Stdout = Some (Inr ())" "op_done (fst ?run) Stderr = Some (Inr ())" by code_simp+
  from output_frames_numbered [OF space prod.collapse [symmetric] ended] obtain fs where
    fs: "sent_frames (sample_relay_state Intent [] []) fs (snd ?run)"
    "map of_sequence fs = map (\<lambda>i. of_nat (min i (2 ^ 64 - 1))) [0..<length fs]"
    "frames_of Stdout fs = ''hello''" "frames_of Stderr fs = ''x''"
    by auto
  have "length (wi_sent (snd ?run)) = 4" "wi_sent (sample_relay_state Intent [] []) = []" by code_simp+
  with fs(1) have "length fs = 4" by (simp add: sent_frames_def)
  moreover have "map (\<lambda>i. of_nat (min i (2 ^ 64 - 1)) :: 64 word) [0..<4] = [0, 1, 2, 3]"
    by (simp add: upt_rec)
  ultimately show ?thesis using fs by (intro exI [of _ fs] exI [of _ "snd ?run"]) simp
qed

theorem selected_relay_write_ahead_witness:
  "fst selected_run = Ok (sample_completion, Some 0) \<and> relay_live sample_wire_env (snd selected_run) \<and>
   recorded_in (RecordCompletion sample_completion) (sl_journal (re_slot (snd selected_run))) \<and>
   list_all (backed sample_wire_env sample_slot_path) (wi_sent (snd selected_run)) \<and>
   length (announcements (wi_sent (snd selected_run))) = 1"
proof -
  have ok: "fst selected_run = Ok (sample_completion, Some 0)" by code_simp
  have "wi_sent (sample_relay_state LeaseConsumptionVerified [] ''csbe'') = []"
    "sl_path (re_slot (sample_relay_state LeaseConsumptionVerified [] ''csbe'')) = sample_slot_path" by code_simp+
  moreover have "relay_selected_execution_with_secret_binding sample_wire_env sample_handlers sample_selected_child
      sample_consumption (sample_relay_state LeaseConsumptionVerified [] ''csbe'') = (fst selected_run, snd selected_run)"
    by (simp add: selected_run_def)
  note selected_relay_write_ahead [OF sample_relay_live this]
  ultimately show ?thesis unfolding ok by auto
qed

theorem exchange_refines_delivery_witness:
  "fst (receive_completion sample_wire_env sample_handlers (sample_relay_state Intent [] ''csbe'')) = Ok sample_completion \<and>
   (let s = sample_relay_state Intent [] ''csbe''; run = receive_completion sample_wire_env sample_handlers s in
    delivers sample_handlers s (fst run) (snd run))"
proof -
  have "fst (receive_completion sample_wire_env sample_handlers (sample_relay_state Intent [] ''csbe'')) = Ok sample_completion"
    by code_simp
  with exchange_refines_delivery [OF sample_kinds prod.collapse [symmetric],
      of sample_handlers "sample_relay_state Intent [] ''csbe''"]
  show ?thesis unfolding Let_def by blast
qed

theorem relay_state_paths_witness:
  "distinct_kinds sample_wire_env \<and>
   advance_all sample_wire_env AwaitPreludeOrLegacyOrCompletion
     [Some (CAPABILITY_KIND sample_wire_env), None, Some ''other'', Some (SNAPSHOT_KIND sample_wire_env)] = Inr SnapshotResponded"
proof -
  let ?ks = "[Some (CAPABILITY_KIND sample_wire_env), None, Some ''other'', Some (SNAPSHOT_KIND sample_wire_env)]"
  have "requests_of sample_wire_env ?ks = delivery_path sample_wire_env SnapshotResponded" by code_simp
  with relay_state_paths [OF sample_kinds, of ?ks SnapshotResponded] sample_kinds show ?thesis by blast
qed

end
