(* ===== verification/Snapshot_Replay.thy ===== *)
theory Snapshot_Replay
  imports Wire
begin

text \<open>
  The one-use state of the private authority-snapshot exchange,
  \<open>src/protected_authority_snapshot.rs\<close>: one record per snapshot request in a protected directory,
  reserved before the snapshot is disclosed and settled (consumed or refused) once. Every call
  holds an exclusive lock on \<open>replay.lock\<close>, so calls of several processes run one after the other,
  as they do here; each carries the pid of its process and the clock it reads.

  Versions 1 and 2 of a request and versions 2 to 4 of a binding differ in the checks of the
  protocol crate they pass, which are fields of \<open>replay_env\<close>, and in the fields they have: one
  record type holds the fields of all versions that the code reads.
\<close>


section \<open>Messages and records\<close>

datatype snapshot_replay_error = ReplayUnavailable | ReplayDetected | ReplayMismatch

datatype replay_status = Reserved | Consumed | Refused

record replay_record =
  rr_schema_version :: nat
  rr_request_identity :: string
  rr_challenge_identity :: string
  rr_startup_continuation_identity :: string
  rr_session_identity :: string
  rr_status :: replay_status
  rr_response_identity :: "string option"
  rr_protected_snapshot_identity :: "string option"
  rr_binding_request_identity :: "string option"
  rr_binding_identity :: "string option"

datatype snapshot_version = SnapshotV1 | SnapshotV2

datatype binding_version = BindingV2 | BindingV3 | BindingV4

record snapshot_request =
  sq_identity :: string
  sq_challenge_identity :: string
  sq_session_identity :: string
  sq_rest :: string

record snapshot_response =
  sr_identity :: string
  sr_request_identity :: string
  sr_protected_snapshot_identity :: string
  sr_payload_schema_version :: nat
  sr_payload_record_kind :: string
  sr_payload_request_identity :: string
  sr_payload_startup_continuation_identity :: string
  sr_payload_session_identity :: string
  sr_rest :: string

record binding_request =
  br_identity :: string
  br_startup_continuation_identity :: string
  br_session_identity :: string
  br_protected_snapshot_identity :: string
  br_protected_snapshot_schema_version :: nat
  br_protected_snapshot_record_kind :: string
  br_transport_dependency_record_identity :: string
  br_rest :: string

record transaction_binding =
  tb_identity :: string
  tb_request_identity :: string
  tb_startup_continuation_identity :: string
  tb_session_identity :: string
  tb_protected_snapshot_identity :: string
  tb_protected_snapshot_schema_version :: nat
  tb_protected_snapshot_record_kind :: string
  tb_transport_dependency_record_identity :: string
  tb_rest :: string

record binding_response =
  bs_request_identity :: string
  bs_protected_snapshot_identity :: string
  bs_protected_snapshot_schema_version :: nat
  bs_protected_snapshot_record_kind :: string
  bs_binding :: transaction_binding

record reservation =
  rv_record_name :: string
  rv_request_identity :: string
  rv_challenge_identity :: string
  rv_startup_continuation_identity :: string
  rv_session_identity :: string
  rv_request :: snapshot_request
  rv_startup_continuation :: startup_continuation

record consumption_links =
  cl_response_identity :: string
  cl_response_request_identity :: string
  cl_payload_request_identity :: string
  cl_payload_startup_continuation_identity :: string
  cl_payload_session_identity :: string
  cl_protected_snapshot_identity :: string
  cl_binding_request_identity :: string
  cl_binding_request_startup_continuation_identity :: string
  cl_binding_request_session_identity :: string
  cl_binding_request_protected_snapshot_identity :: string
  cl_binding_response_request_identity :: string
  cl_binding_response_protected_snapshot_identity :: string
  cl_binding_request_identity_in_binding :: string
  cl_binding_startup_continuation_identity :: string
  cl_binding_session_identity :: string
  cl_binding_protected_snapshot_identity :: string
  cl_binding_identity :: string

record reconciled_consumption =
  rc_response_identity :: string
  rc_protected_snapshot_identity :: string
  rc_binding_request_identity :: string
  rc_binding_identity :: string

text \<open>The protocol crate's reconciliations (whether they return \<open>Ok\<close>) and the JSON codec of a record.\<close>

record replay_env =
  reconcile_snapshot_request :: "snapshot_version \<Rightarrow> snapshot_request \<Rightarrow> startup_continuation \<Rightarrow> nat \<Rightarrow> bool"
  reconcile_snapshot_response ::
    "snapshot_version \<Rightarrow> snapshot_request \<Rightarrow> snapshot_response \<Rightarrow> startup_continuation \<Rightarrow> nat \<Rightarrow> bool"
  snapshot_response_v1_identity :: "snapshot_response \<Rightarrow> string option"
  validate_binding_request :: "binding_version \<Rightarrow> binding_request \<Rightarrow> bool"
  validate_binding :: "binding_version \<Rightarrow> transaction_binding \<Rightarrow> bool"
  record_to_vec :: "replay_record \<Rightarrow> string option"
  record_from_slice :: "string \<Rightarrow> replay_record option"

text \<open>The open store (\<open>ProtectedAuthoritySnapshotReplayStoreV1\<close>) in a process, at one reading of the clock.\<close>

record replay_store =
  ro_directory :: path
  ro_expected_uid :: nat
  ro_pid :: nat
  ro_unix_timestamp :: int

type_synonym 'a replay_op = "(world, snapshot_replay_error, 'a) proc"


section \<open>Files of the store\<close>

definition current_time :: "replay_store \<Rightarrow> snapshot_replay_error + nat" where
  "current_time S =
     (if 0 \<le> ro_unix_timestamp S then Inr (nat (ro_unix_timestamp S)) else Inl ReplayUnavailable)"

definition record_name :: "string \<Rightarrow> snapshot_replay_error + string" where
  "record_name identity =
     (case strip_prefix ''sha256:'' identity of
        Some hex \<Rightarrow>
          if length hex = 64 \<and> list_all is_ascii_hexdigit hex then Inr (hex @ ''.json'')
          else Inl ReplayMismatch
      | None \<Rightarrow> Inl ReplayMismatch)"

definition unavailable :: "'a io \<Rightarrow> 'a replay_op" where
  "unavailable m = map_err (\<lambda>_. ReplayUnavailable) m"

text \<open>\<open>metadata\<close> of an open file, and the check on it.\<close>

definition file_metadata :: "fnode \<Rightarrow> fnode io" where
  "file_metadata n = faulty untouched (\<lambda>w. (Ok n, w))"

definition verify_protected_file :: "nat \<Rightarrow> fnode \<Rightarrow> unit replay_op" where
  "verify_protected_file uid n =
     and_then (unavailable (file_metadata n)) (\<lambda>md.
       if n_kind md \<noteq> RegularFile \<or> n_uid md \<noteq> uid \<or> n_mode md AND 0xfff \<noteq> 384
       then throw ReplayUnavailable else ret ())"

text \<open>\<open>openat2\<close> with \<open>O_RDWR | O_CREAT | O_NOFOLLOW\<close>, and \<open>flock\<close>.\<close>

definition open_or_create :: "path \<Rightarrow> mode \<Rightarrow> fnode io" where
  "open_or_create p m =
     faulty untouched (\<lambda>w.
       case node_at w p of
         Some n \<Rightarrow> if n_kind n \<in> {Symlink, Directory} then (Err OtherIo, w) else (Ok n, w)
       | None \<Rightarrow>
          (case node_at w (butlast p) of
             Some d \<Rightarrow> if n_kind d = Directory then (Ok (new_node w m), put_node p (new_node w m) w)
                       else (Err OtherIo, w)
           | None \<Rightarrow> (Err NotFound, w)))"

definition flock_exclusive :: "unit io" where
  "flock_exclusive = faulty untouched (\<lambda>w. (Ok (), w))"

definition replay_lock :: "replay_store \<Rightarrow> unit replay_op" where
  "replay_lock S =
     and_then (unavailable (open_or_create (path_join (ro_directory S) ''replay.lock'') 384)) (\<lambda>n.
     and_then (verify_protected_file (ro_expected_uid S) n) (\<lambda>_.
       unavailable flock_exclusive))"

definition write_new_record :: "'x replay_env_scheme \<Rightarrow> replay_store \<Rightarrow> string \<Rightarrow> replay_record \<Rightarrow> unit replay_op" where
  "write_new_record E S name r =
     (case record_to_vec E r of
        None \<Rightarrow> throw ReplayUnavailable
      | Some bytes \<Rightarrow>
          let p = path_join (ro_directory S) name in
          and_then (map_err (\<lambda>_. ReplayDetected) (create_new p 384)) (\<lambda>_.
            unavailable (write_chunks p [bytes])))"

definition temporary_record_name :: "string \<Rightarrow> nat \<Rightarrow> string" where
  "temporary_record_name name pid = ''.'' @ name @ ''.'' @ decimal pid @ ''.tmp''"

definition replace_record :: "'x replay_env_scheme \<Rightarrow> replay_store \<Rightarrow> string \<Rightarrow> replay_record \<Rightarrow> unit replay_op" where
  "replace_record E S name r =
     (case record_to_vec E r of
        None \<Rightarrow> throw ReplayUnavailable
      | Some bytes \<Rightarrow>
          let temporary = path_join (ro_directory S) (temporary_record_name name (ro_pid S)) in
          and_then (and_then (unavailable (create_new temporary 384)) (\<lambda>_.
            unavailable (write_chunks temporary [bytes]))) (\<lambda>_.
          unavailable (rename_file temporary (path_join (ro_directory S) name))))"


section \<open>Reserving a request\<close>

definition reserved_record :: "snapshot_request \<Rightarrow> startup_continuation \<Rightarrow> replay_record" where
  "reserved_record request continuation =
     \<lparr>rr_schema_version = 1, rr_request_identity = sq_identity request,
      rr_challenge_identity = sq_challenge_identity request,
      rr_startup_continuation_identity = st_identity continuation,
      rr_session_identity = sq_session_identity request, rr_status = Reserved,
      rr_response_identity = None, rr_protected_snapshot_identity = None,
      rr_binding_request_identity = None, rr_binding_identity = None\<rparr>"

definition reservation_of :: "string \<Rightarrow> snapshot_request \<Rightarrow> startup_continuation \<Rightarrow> reservation" where
  "reservation_of name request continuation =
     \<lparr>rv_record_name = name, rv_request_identity = sq_identity request,
      rv_challenge_identity = sq_challenge_identity request,
      rv_startup_continuation_identity = st_identity continuation,
      rv_session_identity = sq_session_identity request,
      rv_request = request, rv_startup_continuation = continuation\<rparr>"

definition reserve_at ::
  "'x replay_env_scheme \<Rightarrow> snapshot_version \<Rightarrow> replay_store \<Rightarrow> snapshot_request \<Rightarrow> startup_continuation
     \<Rightarrow> reservation replay_op" where
  "reserve_at E v S request continuation =
     and_then (lift_result (current_time S)) (\<lambda>now.
       if \<not> reconcile_snapshot_request E v request continuation now then throw ReplayMismatch
       else
     and_then (lift_result (record_name (sq_identity request))) (\<lambda>name.
     and_then (replay_lock S) (\<lambda>_.
     and_then (write_new_record E S name (reserved_record request continuation)) (\<lambda>_.
     and_then (unavailable sync_all) (\<lambda>_.
       ret (reservation_of name request continuation))))))"

definition reserve ::
  "'x replay_env_scheme \<Rightarrow> replay_store \<Rightarrow> snapshot_request \<Rightarrow> startup_continuation \<Rightarrow> reservation replay_op" where
  "reserve E = reserve_at E SnapshotV1"

definition reserve_v2 ::
  "'x replay_env_scheme \<Rightarrow> replay_store \<Rightarrow> snapshot_request \<Rightarrow> startup_continuation \<Rightarrow> reservation replay_op" where
  "reserve_v2 E = reserve_at E SnapshotV2"


section \<open>Settling a reservation\<close>

definition not_reserved :: "reservation \<Rightarrow> replay_record \<Rightarrow> bool" where
  "not_reserved R r \<longleftrightarrow>
     rr_schema_version r \<noteq> 1
     \<or> rr_status r \<noteq> Reserved
     \<or> rr_request_identity r \<noteq> rv_request_identity R
     \<or> rr_challenge_identity r \<noteq> rv_challenge_identity R
     \<or> rr_startup_continuation_identity r \<noteq> rv_startup_continuation_identity R
     \<or> rr_session_identity r \<noteq> rv_session_identity R
     \<or> rr_response_identity r \<noteq> None
     \<or> rr_protected_snapshot_identity r \<noteq> None
     \<or> rr_binding_request_identity r \<noteq> None
     \<or> rr_binding_identity r \<noteq> None"

definition load_reserved :: "'x replay_env_scheme \<Rightarrow> replay_store \<Rightarrow> reservation \<Rightarrow> replay_record replay_op" where
  "load_reserved E S R =
     and_then (unavailable (open_nofollow (path_join (ro_directory S) (rv_record_name R)))) (\<lambda>n.
     and_then (verify_protected_file (ro_expected_uid S) n) (\<lambda>_.
     and_then (unavailable (read_to_end n)) (\<lambda>bytes.
       case record_from_slice E bytes of
         None \<Rightarrow> throw ReplayUnavailable
       | Some r \<Rightarrow> if not_reserved R r then throw ReplayMismatch else ret r)))"

text \<open>Both settlements load the reserved record, change it and replace it under the lock.\<close>

definition settle ::
  "'x replay_env_scheme \<Rightarrow> replay_store \<Rightarrow> reservation \<Rightarrow> (replay_record \<Rightarrow> replay_record) \<Rightarrow> unit replay_op" where
  "settle E S R f =
     and_then (replay_lock S) (\<lambda>_.
     and_then (load_reserved E S R) (\<lambda>r.
     and_then (replace_record E S (rv_record_name R) (f r)) (\<lambda>_.
       unavailable sync_all)))"

definition refused_record :: "replay_record \<Rightarrow> replay_record" where
  "refused_record r = r\<lparr>rr_status := Refused\<rparr>"

definition consumed_record :: "reconciled_consumption \<Rightarrow> replay_record \<Rightarrow> replay_record" where
  "consumed_record c r =
     r\<lparr>rr_status := Consumed, rr_response_identity := Some (rc_response_identity c),
       rr_protected_snapshot_identity := Some (rc_protected_snapshot_identity c),
       rr_binding_request_identity := Some (rc_binding_request_identity c),
       rr_binding_identity := Some (rc_binding_identity c)\<rparr>"

definition refuse :: "'x replay_env_scheme \<Rightarrow> replay_store \<Rightarrow> reservation \<Rightarrow> unit replay_op" where
  "refuse E S R = settle E S R refused_record"

definition consume_reconciled ::
  "'x replay_env_scheme \<Rightarrow> replay_store \<Rightarrow> reservation \<Rightarrow> reconciled_consumption \<Rightarrow> unit replay_op" where
  "consume_reconciled E S R c = settle E S R (consumed_record c)"

definition reconcile_consumption_links ::
  "reservation \<Rightarrow> consumption_links \<Rightarrow> snapshot_replay_error + reconciled_consumption" where
  "reconcile_consumption_links R l =
     (if cl_response_request_identity l \<noteq> rv_request_identity R
         \<or> cl_payload_request_identity l \<noteq> rv_request_identity R
         \<or> cl_payload_startup_continuation_identity l \<noteq> rv_startup_continuation_identity R
         \<or> cl_payload_session_identity l \<noteq> rv_session_identity R
         \<or> cl_binding_request_startup_continuation_identity l \<noteq> rv_startup_continuation_identity R
         \<or> cl_binding_request_session_identity l \<noteq> rv_session_identity R
         \<or> cl_binding_request_protected_snapshot_identity l \<noteq> cl_protected_snapshot_identity l
         \<or> cl_binding_response_request_identity l \<noteq> cl_binding_request_identity l
         \<or> cl_binding_response_protected_snapshot_identity l \<noteq> cl_protected_snapshot_identity l
         \<or> cl_binding_request_identity_in_binding l \<noteq> cl_binding_request_identity l
         \<or> cl_binding_startup_continuation_identity l \<noteq> rv_startup_continuation_identity R
         \<or> cl_binding_session_identity l \<noteq> rv_session_identity R
         \<or> cl_binding_protected_snapshot_identity l \<noteq> cl_protected_snapshot_identity l
      then Inl ReplayMismatch
      else Inr \<lparr>rc_response_identity = cl_response_identity l,
                rc_protected_snapshot_identity = cl_protected_snapshot_identity l,
                rc_binding_request_identity = cl_binding_request_identity l,
                rc_binding_identity = cl_binding_identity l\<rparr>)"

definition links_of :: "snapshot_response \<Rightarrow> binding_request \<Rightarrow> binding_response \<Rightarrow> consumption_links" where
  "links_of response request bound =
     \<lparr>cl_response_identity = sr_identity response,
      cl_response_request_identity = sr_request_identity response,
      cl_payload_request_identity = sr_payload_request_identity response,
      cl_payload_startup_continuation_identity = sr_payload_startup_continuation_identity response,
      cl_payload_session_identity = sr_payload_session_identity response,
      cl_protected_snapshot_identity = sr_protected_snapshot_identity response,
      cl_binding_request_identity = br_identity request,
      cl_binding_request_startup_continuation_identity = br_startup_continuation_identity request,
      cl_binding_request_session_identity = br_session_identity request,
      cl_binding_request_protected_snapshot_identity = br_protected_snapshot_identity request,
      cl_binding_response_request_identity = bs_request_identity bound,
      cl_binding_response_protected_snapshot_identity = bs_protected_snapshot_identity bound,
      cl_binding_request_identity_in_binding = tb_request_identity (bs_binding bound),
      cl_binding_startup_continuation_identity = tb_startup_continuation_identity (bs_binding bound),
      cl_binding_session_identity = tb_session_identity (bs_binding bound),
      cl_binding_protected_snapshot_identity = tb_protected_snapshot_identity (bs_binding bound),
      cl_binding_identity = tb_identity (bs_binding bound)\<rparr>"

definition consume_links ::
  "'x replay_env_scheme \<Rightarrow> replay_store \<Rightarrow> reservation \<Rightarrow> snapshot_response \<Rightarrow> binding_request \<Rightarrow> binding_response
     \<Rightarrow> unit replay_op" where
  "consume_links E S R response request bound =
     and_then (lift_result (reconcile_consumption_links R (links_of response request bound)))
       (consume_reconciled E S R)"

text \<open>The checks versions 2 and 3 of the binding make of a version 1 response, in the order of the code.\<close>

definition response_v1_refused ::
  "'x replay_env_scheme \<Rightarrow> nat \<Rightarrow> reservation \<Rightarrow> snapshot_response \<Rightarrow> bool" where
  "response_v1_refused E now R response \<longleftrightarrow>
     \<not> reconcile_snapshot_response E SnapshotV1 (rv_request R) response (rv_startup_continuation R) now
     \<or> snapshot_response_v1_identity E response \<noteq> Some (sr_identity response)"

definition consume ::
  "'x replay_env_scheme \<Rightarrow> replay_store \<Rightarrow> reservation \<Rightarrow> snapshot_response \<Rightarrow> binding_request \<Rightarrow> binding_response
     \<Rightarrow> unit replay_op" where
  "consume E S R response request bound =
     and_then (lift_result (current_time S)) (\<lambda>now.
       if response_v1_refused E now R response
          \<or> \<not> validate_binding_request E BindingV2 request
          \<or> \<not> validate_binding E BindingV2 (bs_binding bound)
       then throw ReplayMismatch
       else consume_links E S R response request bound)"

definition consume_v3 ::
  "'x replay_env_scheme \<Rightarrow> replay_store \<Rightarrow> reservation \<Rightarrow> snapshot_response \<Rightarrow> binding_request \<Rightarrow> binding_response
     \<Rightarrow> unit replay_op" where
  "consume_v3 E S R response request bound =
     and_then (lift_result (current_time S)) (\<lambda>now.
       if response_v1_refused E now R response
          \<or> \<not> validate_binding_request E BindingV3 request
          \<or> \<not> validate_binding E BindingV3 (bs_binding bound)
          \<or> tb_transport_dependency_record_identity (bs_binding bound) \<noteq> br_transport_dependency_record_identity request
       then throw ReplayMismatch
       else consume_links E S R response request bound)"

definition snapshot_form_mismatch :: "snapshot_response \<Rightarrow> binding_request \<Rightarrow> binding_response \<Rightarrow> bool" where
  "snapshot_form_mismatch response request bound \<longleftrightarrow>
     br_protected_snapshot_schema_version request \<noteq> sr_payload_schema_version response
     \<or> br_protected_snapshot_record_kind request \<noteq> sr_payload_record_kind response
     \<or> bs_protected_snapshot_schema_version bound \<noteq> br_protected_snapshot_schema_version request
     \<or> bs_protected_snapshot_record_kind bound \<noteq> br_protected_snapshot_record_kind request
     \<or> tb_protected_snapshot_schema_version (bs_binding bound) \<noteq> br_protected_snapshot_schema_version request
     \<or> tb_protected_snapshot_record_kind (bs_binding bound) \<noteq> br_protected_snapshot_record_kind request
     \<or> tb_transport_dependency_record_identity (bs_binding bound) \<noteq> br_transport_dependency_record_identity request"

definition consume_v4 ::
  "'x replay_env_scheme \<Rightarrow> replay_store \<Rightarrow> reservation \<Rightarrow> snapshot_response \<Rightarrow> binding_request \<Rightarrow> binding_response
     \<Rightarrow> unit replay_op" where
  "consume_v4 E S R response request bound =
     and_then (lift_result (current_time S)) (\<lambda>now.
       if \<not> reconcile_snapshot_response E SnapshotV2 (rv_request R) response (rv_startup_continuation R) now
          \<or> \<not> validate_binding_request E BindingV4 request
          \<or> \<not> validate_binding E BindingV4 (bs_binding bound)
          \<or> snapshot_form_mismatch response request bound
       then throw ReplayMismatch
       else consume_links E S R response request bound)"


section \<open>The calls of a store\<close>

datatype replay_call =
    Reserve snapshot_version snapshot_request startup_continuation
  | Consume binding_version reservation snapshot_response binding_request binding_response
  | Refuse reservation

definition run_consume ::
  "'x replay_env_scheme \<Rightarrow> replay_store \<Rightarrow> binding_version \<Rightarrow> reservation \<Rightarrow> snapshot_response \<Rightarrow> binding_request
     \<Rightarrow> binding_response \<Rightarrow> unit replay_op" where
  "run_consume E S b =
     (case b of BindingV2 \<Rightarrow> consume E S | BindingV3 \<Rightarrow> consume_v3 E S | BindingV4 \<Rightarrow> consume_v4 E S)"

fun run_call :: "'x replay_env_scheme \<Rightarrow> replay_store \<Rightarrow> replay_call \<Rightarrow> unit replay_op" where
  "run_call E S (Reserve v q st) =
     and_then ((case v of SnapshotV1 \<Rightarrow> reserve E | SnapshotV2 \<Rightarrow> reserve_v2 E) S q st) (\<lambda>_. ret ())"
| "run_call E S (Consume b R response request bound) = run_consume E S b R response request bound"
| "run_call E S (Refuse R) = refuse E S R"

fun run_calls ::
  "'x replay_env_scheme \<Rightarrow> (replay_store \<times> replay_call) list \<Rightarrow> world
     \<Rightarrow> (snapshot_replay_error, unit) outcome list \<times> world" where
  "run_calls E [] w = ([], w)"
| "run_calls E ((S, c) # cs) w =
     (case run_call E S c w of (r, w1) \<Rightarrow> case run_calls E cs w1 of (rs, w2) \<Rightarrow> (r # rs, w2))"

text \<open>A reservation names the record of its request: the code makes no other.\<close>

definition made :: "reservation \<Rightarrow> bool" where
  "made R \<longleftrightarrow> record_name (rv_request_identity R) = Inr (rv_record_name R)"

fun call_made :: "replay_call \<Rightarrow> bool" where
  "call_made (Reserve v q st) = True"
| "call_made (Consume b R response request bound) = made R"
| "call_made (Refuse R) = made R"

lemma reserve_made: "reserve_at E v S q st w = (Ok R, w') \<Longrightarrow> made R"
  by (auto simp: reserve_at_def made_def reservation_of_def and_then_Ok_iff lift_result_Ok_iff split: if_splits)


section \<open>The abstract store\<close>

text \<open>What a record's file means: nothing, a reservation, a settlement, or bytes that are no record.\<close>

datatype replay_token = Free | Open replay_record | Settled replay_record | Unreadable

definition token :: "'x replay_env_scheme \<Rightarrow> path \<Rightarrow> world \<Rightarrow> replay_token" where
  "token E p w =
     (case node_at w p of
        None \<Rightarrow> Free
      | Some n \<Rightarrow>
          (case record_from_slice E (n_bytes n) of
             None \<Rightarrow> Unreadable
           | Some r \<Rightarrow> if rr_status r = Reserved then Open r else Settled r))"

definition is_record_name :: "string \<Rightarrow> bool" where
  "is_record_name n \<longleftrightarrow> (\<exists>identity. record_name identity = Inr n)"

definition tokens :: "'x replay_env_scheme \<Rightarrow> path \<Rightarrow> world \<Rightarrow> string \<Rightarrow> replay_token" where
  "tokens E d w n = (if is_record_name n then token E (path_join d n) w else Free)"

text \<open>
  The store as its clients may think of it: a call does nothing, or takes one record one step
  along; only the latter may return \<open>Ok\<close>. An interrupted creation may leave bytes that are no
  record, and nothing ever leaves that state or a settlement.
\<close>

inductive replay_spec :: "replay_call \<Rightarrow> bool \<Rightarrow> (string \<Rightarrow> replay_token) \<Rightarrow> (string \<Rightarrow> replay_token) \<Rightarrow> bool" where
  nothing_done: "replay_spec c False \<sigma> \<sigma>"
| reserves: "record_name (sq_identity q) = Inr n \<Longrightarrow> \<sigma> n = Free \<Longrightarrow>
    replay_spec (Reserve v q st) ok \<sigma> (\<sigma>(n := Open (reserved_record q st)))"
| tears: "record_name (sq_identity q) = Inr n \<Longrightarrow> \<sigma> n = Free \<Longrightarrow>
    replay_spec (Reserve v q st) False \<sigma> (\<sigma>(n := Unreadable))"
| consumes: "\<sigma> (rv_record_name R) = Open r \<Longrightarrow> \<not> not_reserved R r \<Longrightarrow>
    reconcile_consumption_links R (links_of response request bound) = Inr c \<Longrightarrow>
    replay_spec (Consume b R response request bound) ok \<sigma> (\<sigma>(rv_record_name R := Settled (consumed_record c r)))"
| refuses: "\<sigma> (rv_record_name R) = Open r \<Longrightarrow> \<not> not_reserved R r \<Longrightarrow>
    replay_spec (Refuse R) ok \<sigma> (\<sigma>(rv_record_name R := Settled (refused_record r)))"

text \<open>
  What the code relies on of \<open>serde_jcs\<close> and \<open>serde_json\<close>: an encoded record decodes to itself, and
  no proper prefix of it is a record.
\<close>

definition record_codec :: "'x replay_env_scheme \<Rightarrow> bool" where
  "record_codec E \<longleftrightarrow> (\<forall>r b. record_to_vec E r = Some b \<longrightarrow>
     record_from_slice E b = Some r \<and> (\<forall>k < length b. record_from_slice E (take k b) = None))"

lemma record_name_head:
  assumes "record_name i = Inr n"
  shows "\<exists>c cs. n = c # cs \<and> is_ascii_hexdigit c"
proof -
  from assms obtain h where "n = h @ ''.json''" "length h = 64" "list_all is_ascii_hexdigit h"
    by (auto simp: record_name_def split: option.splits if_splits)
  then show ?thesis by (cases h) auto
qed

lemma other_names:
  assumes "is_record_name n"
  shows "n \<noteq> ''replay.lock''" "n \<noteq> temporary_record_name m pid"
  using assms unfolding is_record_name_def
  by (auto dest!: record_name_head simp: temporary_record_name_def byte_class_defs)


section \<open>What the calls do to the files\<close>

lemma touches_unavailable [touches_intros]: "touches A m \<Longrightarrow> touches A (unavailable m)"
  unfolding unavailable_def by (rule touches_map_err)

lemma touches_verify [touches_intros]: "touches A (verify_protected_file uid n)"
proof -
  have "touches A (file_metadata n)"
    unfolding file_metadata_def by (rule touches_faulty) (simp add: touches_def ensures_def)
  then show ?thesis unfolding verify_protected_file_def by (intro touches_intros)
qed

lemma touches_replay_lock: "touches {path_join (ro_directory S) ''replay.lock''} (replay_lock S)"
proof -
  have "touches {p} (open_or_create p m)" for p m
    unfolding open_or_create_def
    by (rule touches_faulty) (auto simp: touches_def ensures_def same_except_put split: option.splits)
  moreover have "touches A flock_exclusive" for A
    unfolding flock_exclusive_def by (rule touches_faulty) (simp add: touches_def ensures_def)
  ultimately show ?thesis unfolding replay_lock_def by (intro touches_intros)
qed

lemma load_reserved_ensures:
  "ensures (load_reserved E S R) w (\<lambda>r w'. same_except {} w w' \<and>
     (\<forall>x. r = Ok x \<longrightarrow> \<not> not_reserved R x \<and>
       (\<exists>n. node_at w (path_join (ro_directory S) (rv_record_name R)) = Some n \<and>
            record_from_slice E (n_bytes n) = Some x)))"
proof -
  have "touches {} (load_reserved E S R)"
    unfolding load_reserved_def by (intro touches_intros)
  moreover have "\<not> not_reserved R x \<and> (\<exists>n. node_at w (path_join (ro_directory S) (rv_record_name R)) = Some n \<and>
      record_from_slice E (n_bytes n) = Some x)" if "load_reserved E S R w = (Ok x, w')" for x w'
  proof -
    from that obtain n w1 w2 w3 bytes where
      "open_nofollow (path_join (ro_directory S) (rv_record_name R)) w = (Ok n, w1)"
      "read_to_end n w2 = (Ok bytes, w3)" "record_from_slice E bytes = Some x" "\<not> not_reserved R x"
      by (auto simp: load_reserved_def unavailable_def and_then_Ok_iff map_err_Ok_iff split: option.splits if_splits)
    with ensuresD [OF look_ensures(2)] ensuresD [OF look_ensures(3)] show ?thesis by metis
  qed
  ultimately show ?thesis
    unfolding ensures_def by (metis prod.collapse touchesD)
qed

lemma temporary_neq [simp]: "temporary_record_name n pid \<noteq> n" "n \<noteq> temporary_record_name n pid"
  by (auto simp: temporary_record_name_def dest: arg_cong [of _ _ length])

abbreviation record_path :: "replay_store \<Rightarrow> string \<Rightarrow> path" where
  "record_path S n \<equiv> path_join (ro_directory S) n"

abbreviation temporary_path :: "replay_store \<Rightarrow> string \<Rightarrow> path" where
  "temporary_path S n \<equiv> path_join (ro_directory S) (temporary_record_name n (ro_pid S))"

interpretation replay_file: atomic_replacement
  "\<lambda>(n, r). replace_record E S n r" "\<lambda>(n, r). temporary_path S n" "\<lambda>(n, r). record_path S n"
  "\<lambda>(n, r). record_to_vec E r" 384
  for E and S
proof (unfold_locales, goal_cases)
  case (1 a bs w)
  obtain n r where a: "a = (n, r)" by (cases a)
  with 1 have bytes: "record_to_vec E r = Some bs" by simp
  let ?tmp = "temporary_path S n" and ?dst = "record_path S n"
  have neq: "?tmp \<noteq> ?dst" by simp
  have "ensures (replace_record E S n r) w (\<lambda>r. replaced ?tmp ?dst 384 bs w (is_Ok r))"
    unfolding replace_record_def bytes option.case Let_def unavailable_def
  proof (rule ensures_and_then_ok [where P = "created ?tmp 384 bs w"])
    show "ensures (and_then (map_err (\<lambda>_. ReplayUnavailable) (create_new ?tmp 384))
        (\<lambda>_. map_err (\<lambda>_. ReplayUnavailable) (write_chunks ?tmp [bs]))) w (\<lambda>r. created ?tmp 384 bs w (is_Ok r))"
      using create_write_created [of _ ?tmp 384 _ "[bs]" w] by simp
  next
    fix w' assume "created ?tmp 384 bs w True w'"
    from rename_replaced [OF this neq]
    show "ensures (map_err (\<lambda>_. ReplayUnavailable) (rename_file ?tmp ?dst)) w' (\<lambda>r. replaced ?tmp ?dst 384 bs w (is_Ok r))"
      by (simp add: ensures_map_err_ok)
  next
    fix w' assume "created ?tmp 384 bs w False w'"
    then show "replaced ?tmp ?dst 384 bs w False w'" by (rule replaced_created_failed [OF _ neq])
  qed
  with a show ?case by simp
next
  case (2 a w)
  then show ?case by (cases a) (simp add: replace_record_def)
qed

lemma write_new_record_ensures:
  assumes "record_to_vec E r = Some bs"
  shows "ensures (write_new_record E S n r) w (\<lambda>q. created (record_path S n) 384 bs w (is_Ok q))"
  using create_write_created [of _ "record_path S n" 384 _ "[bs]" w] assms
  by (simp add: write_new_record_def Let_def unavailable_def)

text \<open>The token of a file, from its bytes.\<close>

lemma token_same: "node_at w' p = node_at w p \<Longrightarrow> token E p w' = token E p w"
  by (simp add: token_def)

lemma token_whole:
  assumes "record_codec E" and "record_to_vec E r = Some bs" and "node_at w p = Some n" and "n_bytes n = bs"
  shows "token E p w = (if rr_status r = Reserved then Open r else Settled r)"
  using assms by (auto simp: token_def record_codec_def)

lemma token_part:
  assumes "record_codec E" and "record_to_vec E r = Some bs" and "node_at w p = Some n" and "n_bytes n = take k bs"
    and "rr_status r = Reserved"
  shows "token E p w = Open r \<or> token E p w = Unreadable"
proof (cases "k < length bs")
  case True
  with assms show ?thesis by (auto simp: token_def record_codec_def)
next
  case False
  with token_whole [OF assms(1,2,3)] assms(4,5) show ?thesis by simp
qed

text \<open>
  \<open>stepped E p A T w ok w'\<close>: only the paths in \<open>A\<close> changed, and the token of \<open>p\<close> stayed as it was,
  without \<open>Ok\<close>, or took a step of \<open>T\<close>.
\<close>

definition stepped ::
  "'x replay_env_scheme \<Rightarrow> path \<Rightarrow> path set \<Rightarrow> (bool \<Rightarrow> replay_token \<Rightarrow> replay_token \<Rightarrow> bool)
     \<Rightarrow> world \<Rightarrow> bool \<Rightarrow> world \<Rightarrow> bool" where
  "stepped E p A T w ok w' \<longleftrightarrow> same_except A w w' \<and>
     (token E p w' = token E p w \<and> \<not> ok \<or> T ok (token E p w) (token E p w'))"

lemma stepped_nothing: "same_except B w w' \<Longrightarrow> p \<notin> B \<Longrightarrow> B \<subseteq> A \<Longrightarrow> stepped E p A T w False w'"
  by (auto simp: stepped_def same_except_def intro: token_same)

lemma stepped_before:
  "same_except B w w1 \<Longrightarrow> p \<notin> B \<Longrightarrow> stepped E p A T w1 ok w' \<Longrightarrow> stepped E p (B \<union> A) T w ok w'"
  using token_same [of w1 p w E] by (auto simp: stepped_def same_except_def)

lemma stepped_after:
  assumes "stepped E p A T w True w1" and "same_except {} w1 w'" and "\<And>a b. T True a b \<Longrightarrow> T ok a b"
  shows "stepped E p A T w ok w'"
  using assms token_same [of w' p w1 E] by (auto simp: stepped_def same_except_def)

lemma locked_stepped:
  assumes "\<And>w1. ensures m w1 (\<lambda>r. stepped E p A T w1 (is_Ok r))" and "p \<noteq> record_path S ''replay.lock''"
  shows "ensures (and_then (replay_lock S) (\<lambda>_. m)) w
    (\<lambda>r. stepped E p ({record_path S ''replay.lock''} \<union> A) T w (is_Ok r))"
proof (rule ensures_and_then_ok [where P = "\<lambda>_. same_except {record_path S ''replay.lock''} w"])
  show "ensures (replay_lock S) w (\<lambda>r. same_except {record_path S ''replay.lock''} w)"
    by (rule ensures_touches [OF touches_replay_lock])
next
  fix w1 assume "same_except {record_path S ''replay.lock''} w w1"
  then show "ensures m w1 (\<lambda>r. stepped E p ({record_path S ''replay.lock''} \<union> A) T w (is_Ok r))"
    using assms(2) by (intro ensures_mono [OF assms(1)] stepped_before) auto
qed (use assms(2) in \<open>auto intro: stepped_nothing\<close>)

text \<open>The steps of a reservation and of a settlement.\<close>

fun reserve_token :: "replay_record \<Rightarrow> bool \<Rightarrow> replay_token \<Rightarrow> replay_token \<Rightarrow> bool" where
  "reserve_token r ok a b \<longleftrightarrow> a = Free \<and> (b = Open r \<or> b = Unreadable \<and> \<not> ok)"

fun settle_token ::
  "reservation \<Rightarrow> (replay_record \<Rightarrow> replay_record) \<Rightarrow> bool \<Rightarrow> replay_token \<Rightarrow> replay_token \<Rightarrow> bool" where
  "settle_token R f ok a b \<longleftrightarrow> (\<exists>r. a = Open r \<and> \<not> not_reserved R r \<and> b = Settled (f r))"

lemma write_new_record_stepped:
  assumes codec: "record_codec E" and reserved: "rr_status r = Reserved"
  shows "ensures (write_new_record E S n r) w
    (\<lambda>q. stepped E (record_path S n) {record_path S n} (reserve_token r) w (is_Ok q))"
proof (cases "record_to_vec E r")
  case None
  then show ?thesis by (simp add: write_new_record_def stepped_def)
next
  case (Some bs)
  let ?p = "record_path S n"
  show ?thesis
  proof (rule ensures_mono [OF write_new_record_ensures [OF Some]])
    fix q :: "(snapshot_replay_error, unit) outcome" and w'
    assume new: "created ?p 384 bs w (is_Ok q) w'"
    then have same: "same_except {?p} w w'" by (simp add: created_def)
    have free: "token E ?p w = Free" if "node_at w ?p = None" using that by (simp add: token_def)
    show "stepped E ?p {?p} (reserve_token r) w (is_Ok q) w'"
    proof (cases "is_Ok q")
      case True
      with new token_whole [OF codec Some, of w' ?p] reserved free same show ?thesis
        by (auto simp: created_def stepped_def)
    next
      case False
      with new consider "node_at w' ?p = node_at w ?p"
        | k where "node_at w ?p = None" "node_at w' ?p = Some (file_node w 384 (take k bs))"
        by (auto simp: created_def)
      then show ?thesis
      proof cases
        case 1
        with same False show ?thesis by (auto simp: stepped_def intro: token_same)
      next
        case 2
        with token_part [OF codec Some 2(2) _ reserved] free same False show ?thesis
          by (auto simp: stepped_def)
      qed
    qed
  qed
qed

lemma reserve_step:
  assumes codec: "record_codec E" and name: "record_name (sq_identity q) = Inr n"
  shows "ensures (reserve_at E v S q st) w
    (\<lambda>r. stepped E (record_path S n) {record_path S ''replay.lock'', record_path S n}
       (reserve_token (reserved_record q st)) w (is_Ok r))"
proof -
  let ?p = "record_path S n" and ?T = "reserve_token (reserved_record q st)"
  have neq: "?p \<noteq> record_path S ''replay.lock''"
    using name other_names(1) [of n] by (auto simp: is_record_name_def)
  have "ensures (and_then (write_new_record E S n (reserved_record q st)) (\<lambda>_.
      and_then (unavailable sync_all) (\<lambda>_. ret (reservation_of n q st)))) w1
      (\<lambda>r. stepped E ?p {?p} ?T w1 (is_Ok r))" for w1
  proof (rule ensures_and_then_ok [OF write_new_record_stepped [OF codec]])
    fix w2 assume new: "stepped E ?p {?p} ?T w1 True w2"
    have "touches {} (and_then (unavailable sync_all) (\<lambda>_. ret (reservation_of n q st)))" by (intro touches_intros)
    then show "ensures (and_then (unavailable sync_all) (\<lambda>_. ret (reservation_of n q st))) w2
        (\<lambda>r. stepped E ?p {?p} ?T w1 (is_Ok r))"
      by (rule ensures_touches) (rule stepped_after [OF new], auto)
  qed (simp_all add: reserved_record_def)
  from locked_stepped [OF this neq, of w] name show ?thesis
    by (auto simp: reserve_at_def ensures_and_then ensures_lift_result insert_commute
        intro: stepped_nothing split: sum.splits)
qed

lemma load_then_replace_stepped:
  assumes codec: "record_codec E" and settled: "\<And>r. rr_status (f r) \<noteq> Reserved"
  shows "ensures (and_then (load_reserved E S R) (\<lambda>r. replace_record E S (rv_record_name R) (f r))) w
    (\<lambda>q. stepped E (record_path S (rv_record_name R))
       {temporary_path S (rv_record_name R), record_path S (rv_record_name R)} (settle_token R f) w (is_Ok q))"
    (is "ensures _ w (\<lambda>q. stepped E ?p ?A ?T w (is_Ok q))")
proof (rule ensures_and_thenI [OF load_reserved_ensures])
  fix r w1
  assume "same_except {} w w1 \<and> (\<forall>x. Ok r = (Ok x :: (snapshot_replay_error, replay_record) outcome) \<longrightarrow>
    \<not> not_reserved R x \<and> (\<exists>n. node_at w ?p = Some n \<and> record_from_slice E (n_bytes n) = Some x))"
  then obtain n where look: "same_except {} w w1" "\<not> not_reserved R r" "node_at w ?p = Some n"
    "record_from_slice E (n_bytes n) = Some r" by blast
  then have opened: "token E ?p w = Open r" by (simp add: token_def not_reserved_def)
  show "ensures (replace_record E S (rv_record_name R) (f r)) w1 (\<lambda>q. stepped E ?p ?A ?T w (is_Ok q))"
  proof (cases "record_to_vec E (f r)")
    case None
    with look(1) show ?thesis by (auto simp: replace_record_def intro: stepped_nothing)
  next
    case (Some bs)
    show ?thesis
    proof (rule ensures_mono [OF replay_file.contract [of S "(rv_record_name R, f r)" E bs w1, simplified, OF Some]])
      fix q :: "(snapshot_replay_error, unit) outcome" and w'
      assume new: "replaced (temporary_path S (rv_record_name R)) ?p 384 bs w1 (is_Ok q) w'"
      with look(1) have same: "same_except ?A w w'" by (auto simp: replaced_def same_except_def)
      from new consider "\<not> is_Ok q" "node_at w' ?p = node_at w1 ?p" | "node_at w' ?p = Some (file_node w1 384 bs)"
        by (auto simp: replaced_def)
      then show "stepped E ?p ?A ?T w (is_Ok q) w'"
      proof cases
        case 1
        with same look(1) token_same [of w' ?p w E] show ?thesis by (auto simp: stepped_def same_except_def)
      next
        case 2
        with token_whole [OF codec Some 2] settled opened same look(2) show ?thesis by (auto simp: stepped_def)
      qed
    qed
  qed
qed (auto intro: stepped_nothing)

lemma settle_step:
  assumes codec: "record_codec E" and settled: "\<And>r. rr_status (f r) \<noteq> Reserved" and R: "made R"
  shows "ensures (settle E S R f) w
    (\<lambda>q. stepped E (record_path S (rv_record_name R))
       ({record_path S ''replay.lock''} \<union> {temporary_path S (rv_record_name R), record_path S (rv_record_name R)})
       (settle_token R f) w (is_Ok q))"
proof -
  have neq: "record_path S (rv_record_name R) \<noteq> record_path S ''replay.lock''"
    using R other_names(1) [of "rv_record_name R"] by (auto simp: made_def is_record_name_def)
  have "ensures (and_then (and_then (load_reserved E S R) (\<lambda>r. replace_record E S (rv_record_name R) (f r)))
      (\<lambda>_. unavailable sync_all)) w1
      (\<lambda>q. stepped E (record_path S (rv_record_name R))
       {temporary_path S (rv_record_name R), record_path S (rv_record_name R)} (settle_token R f) w1 (is_Ok q))" for w1
  proof (rule ensures_and_then_ok [OF load_then_replace_stepped [OF codec settled]])
    fix w2
    assume new: "stepped E (record_path S (rv_record_name R))
       {temporary_path S (rv_record_name R), record_path S (rv_record_name R)} (settle_token R f) w1 True w2"
    have "touches {} (unavailable sync_all)" by (intro touches_intros)
    then show "ensures (unavailable sync_all) w2 (\<lambda>q. stepped E (record_path S (rv_record_name R))
       {temporary_path S (rv_record_name R), record_path S (rv_record_name R)} (settle_token R f) w1 (is_Ok q))"
      by (rule ensures_touches) (rule stepped_after [OF new], auto)
  qed
  then show ?thesis
    unfolding settle_def by (intro locked_stepped neq) (simp add: and_then_assoc)
qed


section \<open>The store implements the abstract one\<close>

lemma tokens_stepped:
  assumes "stepped E (record_path S n) A T w ok w'" and "is_record_name n"
    and "A \<subseteq> {record_path S ''replay.lock'', temporary_path S n, record_path S n}"
  shows "tokens E (ro_directory S) w' = (tokens E (ro_directory S) w)(n := token E (record_path S n) w')"
    and "tokens E (ro_directory S) w n = token E (record_path S n) w"
proof -
  have "token E (record_path S m) w' = token E (record_path S m) w" if "is_record_name m" "m \<noteq> n" for m
  proof (rule token_same)
    have "record_path S m \<notin> A" using assms(3) other_names [OF that(1)] that(2) by auto
    with assms(1) show "node_at w' (record_path S m) = node_at w (record_path S m)"
      by (auto simp: stepped_def same_except_def)
  qed
  with assms(2) show "tokens E (ro_directory S) w' = (tokens E (ro_directory S) w)(n := token E (record_path S n) w')"
    by (auto simp: tokens_def)
  from assms(2) show "tokens E (ro_directory S) w n = token E (record_path S n) w" by (simp add: tokens_def)
qed

lemma settled_status [simp]: "rr_status (consumed_record c r) = Consumed" "rr_status (refused_record r) = Refused"
  by (simp_all add: consumed_record_def refused_record_def)

lemma reserve_refines:
  assumes codec: "record_codec E" and run: "reserve_at E v S q st w = (r, w')"
  shows "replay_spec (Reserve v' q st) (is_Ok r) (tokens E (ro_directory S) w) (tokens E (ro_directory S) w')"
proof (cases "record_name (sq_identity q)")
  case (Inl e)
  with run have "w' = w" "\<not> is_Ok r"
    by (auto simp: reserve_at_def and_then_def lift_result_def split: sum.splits if_splits)
  then show ?thesis by (simp add: replay_spec.nothing_done)
next
  case (Inr n)
  then have n: "is_record_name n" by (auto simp: is_record_name_def)
  note step = ensuresD [OF reserve_step [OF codec Inr] run]
  note toks = tokens_stepped [OF step n]
  from step consider (same) "token E (record_path S n) w' = token E (record_path S n) w" "\<not> is_Ok r"
    | (reserved) "token E (record_path S n) w = Free" "token E (record_path S n) w' = Open (reserved_record q st)"
    | (torn) "token E (record_path S n) w = Free" "token E (record_path S n) w' = Unreadable" "\<not> is_Ok r"
    by (auto simp: stepped_def)
  then show ?thesis
  proof cases
    case same
    with toks have "tokens E (ro_directory S) w' = tokens E (ro_directory S) w" by (simp add: fun_upd_idem)
    with same show ?thesis by (simp add: replay_spec.nothing_done)
  next
    case reserved
    with toks show ?thesis by (simp add: replay_spec.reserves [OF Inr])
  next
    case torn
    with toks show ?thesis by (simp add: replay_spec.tears [OF Inr])
  qed
qed

lemma settle_refines:
  assumes codec: "record_codec E" and settled: "\<And>r. rr_status (f r) \<noteq> Reserved" and R: "made R"
    and run: "settle E S R f w = (q, w')"
  obtains "\<not> is_Ok q" "tokens E (ro_directory S) w' = tokens E (ro_directory S) w"
  | r where "tokens E (ro_directory S) w (rv_record_name R) = Open r" "\<not> not_reserved R r"
      "tokens E (ro_directory S) w' = (tokens E (ro_directory S) w)(rv_record_name R := Settled (f r))"
proof -
  from R have n: "is_record_name (rv_record_name R)" by (auto simp: made_def is_record_name_def)
  note step = ensuresD [OF settle_step [OF codec settled R] run]
  note toks = tokens_stepped [OF step n]
  from step consider (same) "token E (record_path S (rv_record_name R)) w' = token E (record_path S (rv_record_name R)) w" "\<not> is_Ok q"
    | (settled) r where "token E (record_path S (rv_record_name R)) w = Open r" "\<not> not_reserved R r"
       "token E (record_path S (rv_record_name R)) w' = Settled (f r)"
    by (auto simp: stepped_def)
  then show thesis
  proof cases
    case same
    with toks show thesis by (intro that(1)) (simp_all add: fun_upd_idem)
  next
    case (settled r)
    with toks show thesis by (intro that(2) [of r]) simp_all
  qed
qed

lemma run_consume_cases:
  assumes "run_consume E S b R response request bound w = (r, w')"
  obtains (refused) "\<not> is_Ok r" "w' = w"
  | (settled) c where "reconcile_consumption_links R (links_of response request bound) = Inr c"
      "settle E S R (consumed_record c) w = (r, w')"
proof -
  have links: thesis if "consume_links E S R response request bound w = (r, w')"
    using that refused settled
    by (auto simp: consume_links_def consume_reconciled_def and_then_def lift_result_def split: sum.splits)
  show thesis
  proof (cases "current_time S")
    case (Inl e)
    with assms refused show thesis
      by (auto simp: run_consume_def consume_def consume_v3_def consume_v4_def and_then_def
          split: binding_version.splits)
  next
    case (Inr now)
    with assms refused links show thesis
      by (auto simp: run_consume_def consume_def consume_v3_def consume_v4_def and_then_def
          split: binding_version.splits if_splits)
  qed
qed

lemma run_call_refines:
  assumes "record_codec E" and "call_made c" and "run_call E S c w = (r, w')"
  shows "replay_spec c (is_Ok r) (tokens E (ro_directory S) w) (tokens E (ro_directory S) w')"
proof (cases c)
  case (Reserve v q st)
  with assms(3) obtain r1 v' where "reserve_at E v' S q st w = (r1, w')" "is_Ok r1 = is_Ok r"
    by (cases v) (auto simp: reserve_def reserve_v2_def and_then_def split: prod.splits outcome.splits)
  with reserve_refines [OF assms(1) this(1)] Reserve show ?thesis by simp
next
  case (Consume b R response request bound)
  with assms(3) have run: "run_consume E S b R response request bound w = (r, w')" by simp
  show ?thesis
  proof (cases rule: run_consume_cases [OF run])
    case 1
    then show ?thesis by (simp add: replay_spec.nothing_done)
  next
    case (2 k)
    from assms(2) Consume have "made R" by simp
    show ?thesis
      by (rule settle_refines [OF assms(1) _ \<open>made R\<close> 2(2)])
         (use Consume 2(1) in \<open>auto intro: replay_spec.nothing_done replay_spec.consumes\<close>)
  qed
next
  case (Refuse R)
  with assms(2,3) have refused: "made R" "settle E S R refused_record w = (r, w')" by (simp_all add: refuse_def)
  show ?thesis
    by (rule settle_refines [OF assms(1) _ refused])
       (use Refuse in \<open>auto intro: replay_spec.nothing_done replay_spec.refuses\<close>)
qed

text \<open>
  C26. The replay store implements the abstract one. Under any faults and with a crash at any system
  call, a call on the store either changes no record, and then does not return \<open>Ok\<close>, or takes the one
  step of its kind on the record of its request: reserving a request that had no record; consuming
  or refusing a record that is reserved for exactly this exchange, a consumption storing the
  identities of a response and binding that are linked to the reservation field by field. No other
  record changes; a creation that is cut short leaves bytes that stay unusable.
\<close>

theorem replay_refines:
  assumes "record_codec E" and "call_made c" and "run_call E S c w = (r, w')"
  shows "replay_spec c (is_Ok r) (tokens E (ro_directory S) w) (tokens E (ro_directory S) w')"
  using assms by (rule run_call_refines)


section \<open>Every request is used once\<close>

fun reserves_name :: "string \<Rightarrow> replay_call \<Rightarrow> bool" where
  "reserves_name n (Reserve v q st) \<longleftrightarrow> record_name (sq_identity q) = Inr n"
| "reserves_name n _ \<longleftrightarrow> False"

fun settles_name :: "string \<Rightarrow> replay_call \<Rightarrow> bool" where
  "settles_name n (Reserve v q st) \<longleftrightarrow> False"
| "settles_name n (Consume b R response request bound) \<longleftrightarrow> rv_record_name R = n"
| "settles_name n (Refuse R) \<longleftrightarrow> rv_record_name R = n"

fun usable :: "replay_token \<Rightarrow> bool" where
  "usable Free = True"
| "usable (Open r) = True"
| "usable (Settled r) = False"
| "usable Unreadable = False"

lemma spec_keeps:
  assumes "replay_spec c ok \<sigma> \<sigma>'"
  shows "\<sigma> n \<noteq> Free \<Longrightarrow> \<sigma>' n \<noteq> Free" and "\<not> usable (\<sigma> n) \<Longrightarrow> \<not> usable (\<sigma>' n)"
  using assms by (cases; auto)+

lemma spec_reserves: "replay_spec c True \<sigma> \<sigma>' \<Longrightarrow> reserves_name n c \<Longrightarrow> \<sigma> n = Free \<and> \<sigma>' n \<noteq> Free"
  by (erule replay_spec.cases) auto

lemma spec_settles: "replay_spec c True \<sigma> \<sigma>' \<Longrightarrow> settles_name n c \<Longrightarrow> usable (\<sigma> n) \<and> \<not> usable (\<sigma>' n)"
  by (erule replay_spec.cases) auto

text \<open>The calls of a run that satisfy \<open>P\<close> and returned \<open>Ok\<close>.\<close>

definition succeeded ::
  "(replay_call \<Rightarrow> bool) \<Rightarrow> (replay_store \<times> replay_call) list \<Rightarrow> (snapshot_replay_error, unit) outcome list \<Rightarrow> nat" where
  "succeeded P cs rs = length (filter (\<lambda>((S, c), r). P c \<and> is_Ok r) (zip cs rs))"

lemma succeeded_simps [simp]:
  "succeeded P [] rs = 0"
  "succeeded P ((S, c) # cs) (r # rs) = (if P c \<and> is_Ok r then 1 else 0) + succeeded P cs rs"
  by (simp_all add: succeeded_def)

lemma run_calls_uses:
  assumes "record_codec E" and "list_all (\<lambda>(S, c). ro_directory S = d \<and> call_made c) cs"
    and "run_calls E cs w = (rs, w')"
  shows "succeeded (reserves_name n) cs rs \<le> (if tokens E d w n = Free then 1 else 0) \<and>
    succeeded (settles_name n) cs rs \<le> (if usable (tokens E d w n) then 1 else 0)"
  using assms(2,3)
proof (induction cs arbitrary: w rs)
  case Nil
  then show ?case by simp
next
  case (Cons Sc cs)
  obtain S c where Sc: "Sc = (S, c)" by (cases Sc)
  from Cons.prems Sc obtain r w1 rs1 where run: "run_call E S c w = (r, w1)" "run_calls E cs w1 = (rs1, w')"
    and rs: "rs = r # rs1" by (auto split: prod.splits)
  from Cons.prems(1) Sc have d: "ro_directory S = d" "call_made c"
    "list_all (\<lambda>(S, c). ro_directory S = d \<and> call_made c) cs" by auto
  from run_call_refines [OF assms(1) d(2) run(1)] d(1)
  have step: "replay_spec c (is_Ok r) (tokens E d w) (tokens E d w1)" by simp
  note spec_keeps [OF step, of n] Cons.IH [OF d(3) run(2)]
  moreover have "tokens E d w n = Free \<and> tokens E d w1 n \<noteq> Free" if "reserves_name n c" "is_Ok r"
    using spec_reserves [of c "tokens E d w" "tokens E d w1" n] step that by simp
  moreover have "usable (tokens E d w n) \<and> \<not> usable (tokens E d w1 n)" if "settles_name n c" "is_Ok r"
    using spec_settles [of c "tokens E d w" "tokens E d w1" n] step that by simp
  ultimately show ?case unfolding Sc rs by (auto split: if_splits)
qed

text \<open>
  C27. Every snapshot request is used once. In whatever order processes call the store, whatever
  faults they meet and wherever they are killed, at most one reservation of a request ever returns
  \<open>Ok\<close>, and at most one settlement, be it a consumption under any version of the binding or a
  refusal; once a request is reserved or settled at the start, none does.
\<close>

theorem replay_one_use:
  assumes "record_codec E" and "list_all (\<lambda>(S, c). ro_directory S = d \<and> call_made c) cs"
    and "run_calls E cs w = (rs, w')"
  shows "succeeded (reserves_name n) cs rs \<le> (if tokens E d w n = Free then 1 else 0) \<and>
    succeeded (settles_name n) cs rs \<le> (if usable (tokens E d w n) then 1 else 0)"
  using assms by (rule run_calls_uses)


section \<open>An exchange\<close>

definition sample_snapshot_request :: snapshot_request where
  "sample_snapshot_request = \<lparr>sq_identity = digest CHR ''b'', sq_challenge_identity = ''ch'',
     sq_session_identity = ''se'', sq_rest = []\<rparr>"

definition sample_continuation :: startup_continuation where
  "sample_continuation = \<lparr>st_schema_version = 1, st_identity = ''st'', st_message_kind = ''k'',
     st_invocation_id = ''i'', st_launcher_request_identity = ''r'', st_child_process_identity = ''c'',
     st_working_directory_identity = ''w'', st_process_posture_identity = ''p'',
     st_principal_mapping_identity = ''m''\<rparr>"

definition sample_reservation :: reservation where
  "sample_reservation =
     reservation_of (replicate 64 CHR ''b'' @ ''.json'') sample_snapshot_request sample_continuation"

definition sample_response :: snapshot_response where
  "sample_response = \<lparr>sr_identity = ''rs'', sr_request_identity = digest CHR ''b'',
     sr_protected_snapshot_identity = ''sn'', sr_payload_schema_version = 1, sr_payload_record_kind = ''k'',
     sr_payload_request_identity = digest CHR ''b'', sr_payload_startup_continuation_identity = ''st'',
     sr_payload_session_identity = ''se'', sr_rest = []\<rparr>"

definition sample_binding_request :: binding_request where
  "sample_binding_request = \<lparr>br_identity = ''br'', br_startup_continuation_identity = ''st'',
     br_session_identity = ''se'', br_protected_snapshot_identity = ''sn'',
     br_protected_snapshot_schema_version = 1, br_protected_snapshot_record_kind = ''k'',
     br_transport_dependency_record_identity = ''t'', br_rest = []\<rparr>"

definition sample_binding_response :: binding_response where
  "sample_binding_response = \<lparr>bs_request_identity = ''br'', bs_protected_snapshot_identity = ''sn'',
     bs_protected_snapshot_schema_version = 1, bs_protected_snapshot_record_kind = ''k'',
     bs_binding = \<lparr>tb_identity = ''tb'', tb_request_identity = ''br'', tb_startup_continuation_identity = ''st'',
       tb_session_identity = ''se'', tb_protected_snapshot_identity = ''sn'',
       tb_protected_snapshot_schema_version = 1, tb_protected_snapshot_record_kind = ''k'',
       tb_transport_dependency_record_identity = ''t'', tb_rest = []\<rparr>\<rparr>"

definition sample_reserved :: replay_record where
  "sample_reserved = reserved_record sample_snapshot_request sample_continuation"

definition sample_consumed :: replay_record where
  "sample_consumed = consumed_record
     \<lparr>rc_response_identity = ''rs'', rc_protected_snapshot_identity = ''sn'',
      rc_binding_request_identity = ''br'', rc_binding_identity = ''tb''\<rparr> sample_reserved"

definition sample_replay_env :: replay_env where
  "sample_replay_env = \<lparr>reconcile_snapshot_request = (\<lambda>_ _ _ _. True),
     reconcile_snapshot_response = (\<lambda>_ _ _ _ _. True), snapshot_response_v1_identity = Some \<circ> sr_identity,
     validate_binding_request = (\<lambda>_ _. True), validate_binding = (\<lambda>_ _. True),
     record_to_vec = (\<lambda>r. if r = sample_reserved then Some ''r'' else if r = sample_consumed then Some ''c''
       else if r = refused_record sample_reserved then Some ''f'' else None),
     record_from_slice = (\<lambda>bs. if bs = ''r'' then Some sample_reserved else if bs = ''c'' then Some sample_consumed
       else if bs = ''f'' then Some (refused_record sample_reserved) else None)\<rparr>"

definition sample_replay_store :: "nat \<Rightarrow> replay_store" where
  "sample_replay_store pid = \<lparr>ro_directory = sample_store, ro_expected_uid = 0, ro_pid = pid, ro_unix_timestamp = 5\<rparr>"

definition sample_replay_calls :: "(replay_store \<times> replay_call) list" where
  "sample_replay_calls =
     [(sample_replay_store 7, Reserve SnapshotV1 sample_snapshot_request sample_continuation),
      (sample_replay_store 8, Reserve SnapshotV1 sample_snapshot_request sample_continuation),
      (sample_replay_store 7, Consume BindingV2 sample_reservation sample_response sample_binding_request sample_binding_response),
      (sample_replay_store 7, Refuse sample_reservation)]"

lemma sample_record_codec: "record_codec sample_replay_env"
  by (auto simp: record_codec_def sample_replay_env_def)

theorem replay_refines_witness:
  "let S = sample_replay_store 7; c = Reserve SnapshotV1 sample_snapshot_request sample_continuation;
     run = run_call sample_replay_env S c sample_world in
   fst run = Ok () \<and> tokens sample_replay_env sample_store (snd run) (replicate 64 CHR ''b'' @ ''.json'') = Open sample_reserved \<and>
   replay_spec c True (tokens sample_replay_env sample_store sample_world) (tokens sample_replay_env sample_store (snd run))"
proof -
  let ?S = "sample_replay_store 7" and ?c = "Reserve SnapshotV1 sample_snapshot_request sample_continuation"
  let ?run = "run_call sample_replay_env ?S ?c sample_world"
  have ok: "fst ?run = Ok ()" by code_simp
  have "token sample_replay_env (path_join sample_store (replicate 64 CHR ''b'' @ ''.json'')) (snd ?run) = Open sample_reserved"
    by code_simp
  moreover have "record_name (digest CHR ''b'') = Inr (replicate 64 CHR ''b'' @ ''.json'')" by code_simp
  ultimately have "tokens sample_replay_env sample_store (snd ?run) (replicate 64 CHR ''b'' @ ''.json'') = Open sample_reserved"
    by (auto simp: tokens_def is_record_name_def)
  moreover have "ro_directory ?S = sample_store" by (simp add: sample_replay_store_def)
  moreover note replay_refines [OF sample_record_codec _ prod.collapse [symmetric], of ?c ?S sample_world]
  ultimately show ?thesis unfolding Let_def by (simp add: ok del: run_call.simps)
qed

theorem replay_one_use_witness:
  "fst (run_calls sample_replay_env sample_replay_calls sample_world) =
     [Ok (), Err ReplayDetected, Ok (), Err ReplayMismatch] \<and>
   succeeded (reserves_name (replicate 64 CHR ''b'' @ ''.json'')) sample_replay_calls
     (fst (run_calls sample_replay_env sample_replay_calls sample_world)) \<le> 1 \<and>
   succeeded (settles_name (replicate 64 CHR ''b'' @ ''.json'')) sample_replay_calls
     (fst (run_calls sample_replay_env sample_replay_calls sample_world)) \<le> 1"
proof -
  have "list_all (\<lambda>(S, c). ro_directory S = sample_store \<and> call_made c) sample_replay_calls" by code_simp
  from replay_one_use [OF sample_record_codec this prod.collapse [symmetric], of "replicate 64 CHR ''b'' @ ''.json''" sample_world]
  have "succeeded (reserves_name (replicate 64 CHR ''b'' @ ''.json'')) sample_replay_calls
     (fst (run_calls sample_replay_env sample_replay_calls sample_world)) \<le> 1 \<and>
    succeeded (settles_name (replicate 64 CHR ''b'' @ ''.json'')) sample_replay_calls
     (fst (run_calls sample_replay_env sample_replay_calls sample_world)) \<le> 1"
    by (smt (verit) le_zero_eq zero_le_one)
  moreover have "fst (run_calls sample_replay_env sample_replay_calls sample_world) =
     [Ok (), Err ReplayDetected, Ok (), Err ReplayMismatch]" by code_simp
  ultimately show ?thesis by blast
qed

end
