(* ===== verification/Finalization_Service.thy ===== *)
theory Finalization_Service
  imports Recovery Write_Ahead Wire
begin

text \<open>
  The finalization session of \<open>src/systemd_service.rs\<close>: signing a retained finalization, the archive
  exchange with the client, the terminal frame and its acknowledgement, and the recovery of a
  finalization that an earlier session left behind.

  The services the session calls are fields of \<open>finalization_host\<close>: the attestor that signs, the
  search for the client's archive, the protected history and the open repository. Each may answer
  differently at every call, so it is given the state of the moment. The sidecar file put into the
  repository is logged with the messages, and fails when the schedule of writes says so.
\<close>


section \<open>State and services\<close>

record service_state = wire +
  se_journal :: fin_handle

type_synonym 'a service = "(service_state, systemd_service_error, 'a) proc"

record finalization_signing_request =
  fs_schema_version :: nat
  fs_message_kind :: string
  fs_request_identity :: string
  fs_finalization :: finalization
  fs_producer_binding_identity :: string
  fs_launcher_service_binding_identity :: string
  fs_launcher_configuration_identity :: string
  fs_launcher_executable_identity :: string
  fs_launcher_profile_identity :: string

record archive_signing_request =
  aq_schema_version :: nat
  aq_message_kind :: string
  aq_request_identity :: string
  aq_signed_finalization :: signed_finalization
  aq_receipt_archive_identity :: string
  aq_crossing_transaction_identity :: string
  aq_producer_binding_identity :: string

record recovery_request =
  ry_schema_version :: nat
  ry_message_kind :: string
  ry_request_identity :: string
  ry_authority_id :: string
  ry_launcher_request_identity :: string

record finalization_host =
  fo_pid :: nat
  service_unit_identity :: string
  configuration_identity :: string
  systemd_launcher_profile_v4_identity :: "string option"
  singular_launcher_executable_identity :: "string option"
  load_producer_binding :: "service_state \<Rightarrow> string option"
  launcher_finalization_signing_request_v1_identity :: "finalization_signing_request \<Rightarrow> string option"
  request_finalization :: "service_state \<Rightarrow> finalization_signing_request \<Rightarrow> signed_finalization option"
  launcher_finalization_archive_signing_request_v1_identity :: "archive_signing_request \<Rightarrow> string option"
  request_finalization_archive :: "service_state \<Rightarrow> archive_signing_request \<Rightarrow> signed_archive option"
  launcher_finalization_recovery_request_v1_identity :: "recovery_request \<Rightarrow> string option"
  open_repository_directory :: "service_state \<Rightarrow> string \<Rightarrow> target_directory_error + nat \<times> nat"
  locate_archive :: "service_state \<Rightarrow> string \<Rightarrow> string \<Rightarrow> string option"
  load_protected_history_binding :: "service_state \<Rightarrow> string option"
  attach_protected_history ::
    "service_state \<Rightarrow> string \<Rightarrow> string \<Rightarrow> sidecar \<Rightarrow> finalization_journal \<Rightarrow> protected_history_attachment option"

text \<open>Reading the state, a value that may be missing, and a check.\<close>

definition peek :: "(service_state \<Rightarrow> 'a) \<Rightarrow> 'a service" where
  "peek f s = (Ok (f s), s)"

definition require :: "systemd_service_error \<Rightarrow> (service_state \<Rightarrow> 'a option) \<Rightarrow> 'a service" where
  "require e f s = (case f s of Some a \<Rightarrow> (Ok a, s) | None \<Rightarrow> (Err e, s))"

abbreviation available :: "(service_state \<Rightarrow> 'a option) \<Rightarrow> 'a service" where
  "available \<equiv> require FinalizationUnavailable"

definition check :: "bool \<Rightarrow> unit service" where
  "check refused = (if refused then throw FinalizationUnavailable else ret ())"

abbreviation journal_of :: "service_state \<Rightarrow> finalization_journal" where
  "journal_of s \<equiv> fh_journal (se_journal s)"

definition record_in_journal :: "'x fin_env_scheme \<Rightarrow> finalization_host \<Rightarrow> fin_call \<Rightarrow> unit service" where
  "record_in_journal E H c s =
     (case call_fin E (fo_pid H) c (se_journal s) (wi_world s) of
        (r, h, w) \<Rightarrow>
          ((case r of Ok _ \<Rightarrow> Ok () | Err _ \<Rightarrow> Err FinalizationUnavailable | Crashed \<Rightarrow> Crashed),
           s\<lparr>se_journal := h, wi_world := w\<rparr>))"

text \<open>A procedure over the file system, and the handle it yields.\<close>

definition on_files :: "(world, systemd_service_error, 'a) proc \<Rightarrow> 'a service" where
  "on_files m s = (case m (wi_world s) of (r, w) \<Rightarrow> (r, s\<lparr>wi_world := w\<rparr>))"

definition hold :: "fin_handle \<Rightarrow> unit service" where
  "hold h s = (Ok (), s\<lparr>se_journal := h\<rparr>)"


section \<open>Frames\<close>

definition receive_typed_frame :: "'x wire_env_scheme \<Rightarrow> (string \<Rightarrow> 'a option) \<Rightarrow> 'a service" where
  "receive_typed_frame E parse = read_plain E Client FinalizationUnavailable parse"

definition write_typed_frame :: "'x wire_env_scheme \<Rightarrow> message \<Rightarrow> unit service" where
  "write_typed_frame E m = write_message E Client m FinalizationUnavailable"

definition write_terminal ::
  "'x wire_env_scheme \<Rightarrow> string \<Rightarrow> terminal_outcome \<Rightarrow> int option \<Rightarrow> terminal_stage option \<Rightarrow> finalization option
     \<Rightarrow> unit service" where
  "write_terminal E invocation outcome exit_code stage fin =
     (let terminal = \<lparr>tf_message_kind = protocol_constant E ''LAUNCHER_TERMINAL'',
        tf_protocol_version = protocol_constant E ''SYSTEMD_LAUNCHER_SERVICE_PROTOCOL_V1'',
        tf_invocation_id = invocation, tf_outcome = outcome, tf_exit_code = exit_code, tf_stage = stage,
        tf_finalization = fin\<rparr> in
      if \<not> validate_launcher_terminal_frame_v1 E terminal then throw InvalidRequest
      else write_message E Client (TerminalMsg terminal) InvalidRequest)"

definition write_signed_finalization ::
  "'x wire_env_scheme \<Rightarrow> string \<Rightarrow> signed_finalization \<Rightarrow> unit service" where
  "write_signed_finalization E invocation signed_fin =
     (let frame = \<lparr>sff_message_kind = protocol_constant E ''LAUNCHER_SIGNED_EXECUTION_FINALIZATION'',
        sff_protocol_version = protocol_constant E ''SYSTEMD_LAUNCHER_SERVICE_PROTOCOL_V1'',
        sff_invocation_id = invocation, sff_signed_finalization = signed_fin\<rparr> in
      if \<not> validate_signed_finalization_frame_v1 E frame then throw SelectedExecutionFailed
      else write_message E Client (SignedFinalizationMsg frame) SelectedExecutionFailed)"

definition selected_terminal :: "'x wire_env_scheme \<Rightarrow> finalization \<Rightarrow> terminal_frame" where
  "selected_terminal E fin =
     (let (outcome, stage) =
        (case ec_outcome (ef_completion fin) of
           CompletedOutcome \<Rightarrow> (TerminalCompleted, SelectedExecutionCompletedBoundaryRemoved)
         | FailedOutcome \<Rightarrow> (TerminalFailed, SelectedExecutionFailedBoundaryRemoved)
         | InterruptedOutcome \<Rightarrow> (TerminalCancelled, SelectedExecutionInterruptedBoundaryRemoved)) in
      \<lparr>tf_message_kind = protocol_constant E ''LAUNCHER_TERMINAL'',
       tf_protocol_version = protocol_constant E ''SYSTEMD_LAUNCHER_SERVICE_PROTOCOL_V1'',
       tf_invocation_id = ec_invocation_id (ef_completion fin), tf_outcome = outcome,
       tf_exit_code = ec_exit_code (ef_completion fin), tf_stage = Some stage, tf_finalization = Some fin\<rparr>)"


section \<open>Signing\<close>

definition sign_execution_finalization ::
  "'x wire_env_scheme \<Rightarrow> finalization_host \<Rightarrow> finalization \<Rightarrow> signed_finalization service" where
  "sign_execution_finalization E H fin =
     and_then (require RuntimeProfileUnavailable (load_producer_binding H)) (\<lambda>producer.
     and_then (require RuntimeProfileUnavailable (\<lambda>_. systemd_launcher_profile_v4_identity H)) (\<lambda>profile.
     and_then (require RuntimeProfileUnavailable (\<lambda>_. singular_launcher_executable_identity H)) (\<lambda>executable.
     let request = \<lparr>fs_schema_version = 1,
       fs_message_kind = protocol_constant E ''LAUNCHER_FINALIZATION_SIGNING_REQUEST'',
       fs_request_identity = [], fs_finalization = fin, fs_producer_binding_identity = producer,
       fs_launcher_service_binding_identity = service_unit_identity H,
       fs_launcher_configuration_identity = configuration_identity H,
       fs_launcher_executable_identity = executable, fs_launcher_profile_identity = profile\<rparr> in
     and_then (require SelectedExecutionFailed
         (\<lambda>_. launcher_finalization_signing_request_v1_identity H request)) (\<lambda>i.
       require SelectedExecutionFailed (\<lambda>s. request_finalization H s (request\<lparr>fs_request_identity := i\<rparr>))))))"

definition sign_if_intent :: "'x wire_env_scheme \<Rightarrow> finalization_host \<Rightarrow> unit service" where
  "sign_if_intent E H =
     and_then (peek journal_of) (\<lambda>j.
       if fj_stage j \<noteq> FinIntent then ret ()
       else and_then (sign_execution_finalization E H (fj_finalization j)) (\<lambda>signed_fin.
         record_in_journal E H (RecordSigned signed_fin)))"


section \<open>The archive exchange\<close>

text \<open>The first match on the stage: a new request is recorded, the recorded one may be repeated.\<close>

definition accept_archive_request :: "'x wire_env_scheme \<Rightarrow> finalization_host \<Rightarrow> archive_request \<Rightarrow> unit service" where
  "accept_archive_request E H request =
     and_then (peek journal_of) (\<lambda>j.
       if fj_stage j = SignedFinalization then record_in_journal E H (RecordRequest request)
       else if fj_stage j \<in> {ArchiveRequested, SidecarIssued, ProtectedHistoryAttached, SidecarAcknowledged, TerminalIssued}
               \<and> fj_archive_request j = Some request then ret ()
       else throw FinalizationUnavailable)"

definition issue_sidecar ::
  "'x wire_env_scheme \<Rightarrow> finalization_host \<Rightarrow> signed_finalization \<Rightarrow> archive_request \<Rightarrow> sidecar service" where
  "issue_sidecar E H signed_fin request =
     and_then (available (load_producer_binding H)) (\<lambda>producer.
     let signing = \<lparr>aq_schema_version = 1,
       aq_message_kind = protocol_constant E ''LAUNCHER_FINALIZATION_ARCHIVE_SIGNING_REQUEST'',
       aq_request_identity = [], aq_signed_finalization = signed_fin,
       aq_receipt_archive_identity = ar_receipt_archive_identity request,
       aq_crossing_transaction_identity = ar_crossing_transaction_identity request,
       aq_producer_binding_identity = producer\<rparr> in
     and_then (available (\<lambda>_. launcher_finalization_archive_signing_request_v1_identity H signing)) (\<lambda>i.
     and_then (available (\<lambda>s. request_finalization_archive H s (signing\<lparr>aq_request_identity := i\<rparr>))) (\<lambda>archive.
     let sc = \<lparr>sd_schema_version = 1, sd_identity = [], sd_signed_finalization = signed_fin, sd_signed_archive = archive\<rparr> in
     and_then (available (\<lambda>_. launcher_finalization_archive_sidecar_v1_identity E sc)) (\<lambda>si.
     and_then (record_in_journal E H (RecordSidecar (sc\<lparr>sd_identity := si\<rparr>))) (\<lambda>_.
       ret (sc\<lparr>sd_identity := si\<rparr>))))))"

definition attach_history :: "'x wire_env_scheme \<Rightarrow> finalization_host \<Rightarrow> string \<Rightarrow> sidecar \<Rightarrow> unit service" where
  "attach_history E H target sc =
     and_then (available (load_protected_history_binding H)) (\<lambda>binding.
     and_then (available (\<lambda>s. attach_protected_history H s binding target sc (journal_of s))) (\<lambda>attachment.
     and_then (peek journal_of) (\<lambda>j.
       if fj_stage j \<in> {SidecarIssued, SidecarAcknowledged, TerminalIssued} \<and> fj_protected_history_attachment j = None
       then record_in_journal E H (RecordAttachment attachment)
       else if fj_stage j \<in> {ProtectedHistoryAttached, SidecarAcknowledged, TerminalIssued}
               \<and> fj_protected_history_attachment j = Some attachment then ret ()
       else throw FinalizationUnavailable)))"

definition persist_sidecar :: "sidecar \<Rightarrow> unit service" where
  "persist_sidecar sc = transmit Repository (SidecarFileMsg sc) FinalizationUnavailable"

definition answer_archive_request ::
  "'x wire_env_scheme \<Rightarrow> string \<Rightarrow> archive_request \<Rightarrow> string \<Rightarrow> sidecar \<Rightarrow> unit service" where
  "answer_archive_request E invocation request target sc =
     (let response = \<lparr>rs_schema_version = 1,
        rs_message_kind = protocol_constant E ''LAUNCHER_FINALIZATION_ARCHIVE_RESPONSE'', rs_response_identity = [],
        rs_request_identity = ar_request_identity request, rs_invocation_id = invocation,
        rs_sidecar_file_name = Some target, rs_sidecar = sc\<rparr> in
      and_then (available (\<lambda>_. launcher_finalization_archive_response_v1_identity E response)) (\<lambda>i.
        write_typed_frame E (ArchiveResponseMsg (response\<lparr>rs_response_identity := i\<rparr>))))"

definition acknowledge_sidecar :: "'x wire_env_scheme \<Rightarrow> finalization_host \<Rightarrow> archive_persistence \<Rightarrow> unit service" where
  "acknowledge_sidecar E H p =
     and_then (peek journal_of) (\<lambda>j.
       if fj_stage j = ProtectedHistoryAttached then record_in_journal E H (RecordPersistence p)
       else if fj_stage j \<in> {SidecarAcknowledged, TerminalIssued} \<and> fj_sidecar_persistence j = Some p then ret ()
       else throw FinalizationUnavailable)"

definition complete_archive_attachment_for_request ::
  "'x wire_env_scheme \<Rightarrow> finalization_host \<Rightarrow> string \<Rightarrow> archive_request \<Rightarrow> unit service" where
  "complete_archive_attachment_for_request E H invocation request =
     and_then (check (launcher_finalization_archive_request_v1_identity E request \<noteq> Some (ar_request_identity request))) (\<lambda>_.
     and_then (available (\<lambda>s. locate_archive H s (ar_receipt_archive_identity request)
         (ar_crossing_transaction_identity request))) (\<lambda>target.
     and_then (accept_archive_request E H request) (\<lambda>_.
     and_then (available (\<lambda>s. fj_signed_finalization (journal_of s))) (\<lambda>signed_fin.
     and_then (and_then (peek (\<lambda>s. fj_sidecar (journal_of s))) (\<lambda>existing.
         case existing of Some sc \<Rightarrow> ret sc | None \<Rightarrow> issue_sidecar E H signed_fin request)) (\<lambda>sc.
     and_then (attach_history E H target sc) (\<lambda>_.
     and_then (persist_sidecar sc) (\<lambda>_.
     and_then (answer_archive_request E invocation request target sc) (\<lambda>_.
     and_then (receive_typed_frame E (archive_persistence_from_slice E)) (\<lambda>p.
     and_then (check (launcher_finalization_archive_persistence_v1_identity E p \<noteq> Some (ap_identity p))) (\<lambda>_.
     and_then (persist_sidecar sc) (\<lambda>_.
       acknowledge_sidecar E H p)))))))))))"

definition complete_archive_attachment :: "'x wire_env_scheme \<Rightarrow> finalization_host \<Rightarrow> string \<Rightarrow> unit service" where
  "complete_archive_attachment E H invocation =
     and_then (receive_typed_frame E (archive_request_from_slice E))
       (complete_archive_attachment_for_request E H invocation)"


section \<open>The terminal frame\<close>

definition issue_terminal :: "'x wire_env_scheme \<Rightarrow> finalization_host \<Rightarrow> unit service" where
  "issue_terminal E H =
     and_then (peek journal_of) (\<lambda>j.
       if fj_stage j \<noteq> SidecarAcknowledged then ret ()
       else
         and_then (check (\<not> validate_launcher_terminal_frame_v1 E (selected_terminal E (fj_finalization j)))) (\<lambda>_.
           record_in_journal E H (RecordTerminal (selected_terminal E (fj_finalization j)))))"

definition write_selected_terminal_and_finalize :: "'x wire_env_scheme \<Rightarrow> finalization_host \<Rightarrow> unit service" where
  "write_selected_terminal_and_finalize E H =
     and_then (issue_terminal E H) (\<lambda>_.
     and_then (available (\<lambda>s. fj_terminal (journal_of s))) (\<lambda>terminal.
     and_then (write_typed_frame E (TerminalMsg terminal)) (\<lambda>_.
     and_then (receive_typed_frame E (terminal_persistence_from_slice E)) (\<lambda>p.
     and_then (check (launcher_terminal_persistence_v1_identity E p \<noteq> Some (tp_identity p))) (\<lambda>_.
     and_then (peek se_journal) (\<lambda>h.
       on_files (map_err (\<lambda>_. FinalizationUnavailable) (acknowledge_terminal_and_finalize E p h))))))))"


section \<open>Recovery of a finalization\<close>

text \<open>Loading the principal's journal for a request, as both recovery entries do.\<close>

definition load_requested :: "'x wire_env_scheme \<Rightarrow> string \<Rightarrow> string \<Rightarrow> unit service" where
  "load_requested E mapping request_identity =
     and_then (on_files (map_err (\<lambda>_. FinalizationUnavailable)
         (load_for_principal E FINALIZATION_DIRECTORY 0 mapping))) (\<lambda>found.
       case found of
         None \<Rightarrow> throw FinalizationUnavailable
       | Some h \<Rightarrow>
           if fj_launcher_request_identity (fh_journal h) \<noteq> request_identity then throw FinalizationUnavailable
           else hold h)"

definition reopen_repository :: "finalization_host \<Rightarrow> unit service" where
  "reopen_repository H =
     and_then (peek (\<lambda>s. fj_working_directory (journal_of s))) (\<lambda>wd.
     and_then (\<lambda>s. lift_result (map_sum map_target_directory_error id
         (open_repository_directory H s (wd_logical_path wd))) s) (\<lambda>(device, inode).
       check (device \<noteq> wd_device wd \<or> inode \<noteq> wd_inode wd)))"

definition serve_finalization_recovery ::
  "'x wire_env_scheme \<Rightarrow> finalization_host \<Rightarrow> string \<Rightarrow> archive_request \<Rightarrow> nat service" where
  "serve_finalization_recovery E H mapping request =
     and_then (load_requested E mapping (ar_launcher_request_identity request)) (\<lambda>_.
     and_then (reopen_repository H) (\<lambda>_.
     and_then (sign_if_intent E H) (\<lambda>_.
     and_then (peek (\<lambda>s. fj_invocation_id (journal_of s))) (\<lambda>invocation.
     and_then (complete_archive_attachment_for_request E H invocation request) (\<lambda>_.
     and_then (write_selected_terminal_and_finalize E H) (\<lambda>_. ret 0))))))"

definition serve_finalization_recovery_start ::
  "'x wire_env_scheme \<Rightarrow> finalization_host \<Rightarrow> string \<Rightarrow> recovery_request \<Rightarrow> nat service" where
  "serve_finalization_recovery_start E H mapping recovery =
     and_then (check (launcher_finalization_recovery_request_v1_identity H recovery \<noteq> Some (ry_request_identity recovery))) (\<lambda>_.
     and_then (load_requested E mapping (ry_launcher_request_identity recovery)) (\<lambda>_.
     and_then (sign_if_intent E H) (\<lambda>_.
     and_then (available (\<lambda>s. fj_signed_finalization (journal_of s))) (\<lambda>signed_fin.
     and_then (peek (\<lambda>s. fj_invocation_id (journal_of s))) (\<lambda>invocation.
     and_then (write_signed_finalization E invocation signed_fin) (\<lambda>_.
     and_then (receive_typed_frame E (archive_request_from_slice E)) (\<lambda>request.
       serve_finalization_recovery E H mapping request)))))))"


section \<open>What is on disk when a message leaves\<close>

text \<open>
  A restart reads what the file decodes to. \<open>fin_codec\<close> is what the code relies on of the JSON codec.
\<close>

definition fin_read :: "'x fin_env_scheme \<Rightarrow> finalization_journal \<Rightarrow> world \<Rightarrow> path \<Rightarrow> bool" where
  "fin_read E j w p \<longleftrightarrow> finalization_journal_identity E j = Inr (fj_identity j) \<and>
     (\<exists>n. node_at w p = Some n \<and> n_kind n = RegularFile \<and> fin_from_slice E (n_bytes n) = Some j)"

definition fin_codec :: "'x fin_env_scheme \<Rightarrow> bool" where
  "fin_codec E \<longleftrightarrow> (\<forall>j b. fin_to_vec E j = Some b \<longrightarrow> fin_from_slice E b = Some j)"

definition fin_live :: "'x fin_env_scheme \<Rightarrow> service_state \<Rightarrow> bool" where
  "fin_live E s \<longleftrightarrow> fin_codec E \<and> fin_read E (journal_of s) (wi_world s) (fh_path (se_journal s)) \<and>
     journal_path (fh_directory (se_journal s)) (fj_principal_mapping_identity (journal_of s)) = Inr (fh_path (se_journal s))"

fun fin_recorded :: "fin_call \<Rightarrow> finalization_journal \<Rightarrow> bool" where
  "fin_recorded (RecordSigned x) j \<longleftrightarrow> fj_stage j = SignedFinalization \<and> fj_signed_finalization j = Some x"
| "fin_recorded (RecordRequest x) j \<longleftrightarrow> fj_stage j = ArchiveRequested \<and> fj_archive_request j = Some x"
| "fin_recorded (RecordSidecar x) j \<longleftrightarrow> fj_stage j = SidecarIssued \<and> fj_sidecar j = Some x"
| "fin_recorded (RecordAttachment x) j \<longleftrightarrow>
     fj_stage j \<in> {ProtectedHistoryAttached, SidecarAcknowledged, TerminalIssued} \<and>
     fj_protected_history_attachment j = Some x"
| "fin_recorded (RecordPersistence x) j \<longleftrightarrow> fj_stage j = SidecarAcknowledged \<and> fj_sidecar_persistence j = Some x"
| "fin_recorded (RecordTerminal x) j \<longleftrightarrow> fj_stage j = TerminalIssued \<and> fj_terminal j = Some x"

text \<open>Steps never withdraw what a journal holds.\<close>

definition holds_on :: "finalization_journal \<Rightarrow> finalization_journal \<Rightarrow> bool" where
  "holds_on j j' \<longleftrightarrow>
     fin_key j' = fin_key j \<and> fin_rank (fj_stage j) \<le> fin_rank (fj_stage j') \<and>
     (fj_signed_finalization j \<noteq> None \<longrightarrow> fj_signed_finalization j' = fj_signed_finalization j) \<and>
     (fj_archive_request j \<noteq> None \<longrightarrow> fj_archive_request j' = fj_archive_request j) \<and>
     (fj_sidecar j \<noteq> None \<longrightarrow> fj_sidecar j' = fj_sidecar j) \<and>
     (fj_protected_history_attachment j \<noteq> None \<longrightarrow>
        fj_protected_history_attachment j' = fj_protected_history_attachment j) \<and>
     (fj_sidecar_persistence j \<noteq> None \<longrightarrow> fj_sidecar_persistence j' = fj_sidecar_persistence j) \<and>
     (fj_terminal j \<noteq> None \<longrightarrow> fj_terminal j' = fj_terminal j)"

lemma holds_on_refl [simp]: "holds_on j j"
  by (simp add: holds_on_def)

lemma holds_on_trans: "holds_on j j' \<Longrightarrow> holds_on j' j'' \<Longrightarrow> holds_on j j''"
  by (fastforce simp: holds_on_def)

lemma valid_stage_fields:
  assumes "finalization_journal_identity E j = Inr i"
  shows "fj_stage j = FinIntent \<Longrightarrow> fj_signed_finalization j = None"
    "fj_stage j = SignedFinalization \<Longrightarrow> fj_archive_request j = None"
    "fj_stage j = ArchiveRequested \<Longrightarrow> fj_sidecar j = None"
    "fj_stage j = SidecarIssued \<Longrightarrow> fj_protected_history_attachment j = None"
    "fj_stage j = ProtectedHistoryAttached \<Longrightarrow> fj_sidecar_persistence j = None"
    "fj_stage j = SidecarAcknowledged \<Longrightarrow> fj_terminal j = None"
  using fin_identity_valid [OF assms] by (simp_all add: stage_is_valid_def)

lemma step_holds_on:
  assumes "fin_step E j j'" and "finalization_journal_identity E j = Inr i"
  shows "holds_on j j'"
  using assms(1)
  by (rule fin_stepE)
     (use valid_stage_fields [OF assms(2)] in \<open>auto simp: holds_on_def fin_identified_def fin_key_def\<close>)

lemma persist_journal:
  "persist E pid j h w = (Ok (), h', w') \<Longrightarrow> \<exists>i. fh_journal h' = j\<lparr>fj_identity := i\<rparr>"
  by (auto simp: persist_def Let_def split: sum.splits prod.splits)

lemma call_fin_recorded: "call_fin E pid c h w = (Ok (), h', w') \<Longrightarrow> fin_recorded c (fh_journal h')"
  by (cases c)
     (auto simp: record_signed_finalization_def record_archive_request_def record_sidecar_def
       record_protected_history_attachment_def record_sidecar_persistence_def record_terminal_def Let_def
       split: if_splits option.splits dest!: persist_journal)

lemma call_fin_handle:
  "call_fin E pid c h w = (r, h', w') \<Longrightarrow> fh_path h' = fh_path h \<and> fh_directory h' = fh_directory h"
  by (cases c)
     (auto simp: record_signed_finalization_def record_archive_request_def record_sidecar_def
       record_protected_history_attachment_def record_sidecar_persistence_def record_terminal_def persist_def Let_def
       split: if_splits option.splits sum.splits prod.splits)

lemma fin_read_same: "same_except A w w' \<Longrightarrow> p \<notin> A \<Longrightarrow> fin_read E j w' p = fin_read E j w p"
  by (simp add: fin_read_def same_except_def)

lemma call_fin_disk:
  assumes "call_fin E pid c h w = (r, h', w')" and "fin_codec E" and "fin_read E (fh_journal h) w (fh_path h)"
    and "journal_path (fh_directory h) (fj_principal_mapping_identity (fh_journal h)) = Inr (fh_path h)"
  shows "(\<exists>j. fin_read E j w' (fh_path h) \<and> holds_on (fh_journal h) j) \<and>
    (is_Ok r \<longrightarrow> fin_read E (fh_journal h') w' (fh_path h) \<and> holds_on (fh_journal h) (fh_journal h'))"
  using assms(1)
proof (cases rule: call_fin_cases)
  case refused
  with assms(3) show ?thesis by auto
next
  case (step j')
  let ?p = "fh_path h" and ?d = "fh_directory h"
  note shape = journal_path_shape [OF assms(4)]
  have old_valid: "finalization_journal_identity E (fh_journal h) = Inr (fj_identity (fh_journal h))"
    using assms(3) by (simp add: fin_read_def)
  have on: "holds_on (fh_journal h) j'" by (rule step_holds_on [OF step(1) old_valid])
  have valid: "finalization_journal_identity E j' = Inr (fj_identity j')"
    using step(1) by (rule fin_stepE) (auto simp: fin_identified_def)
  show ?thesis
  proof (cases "fin_to_vec E j'")
    case None
    have "\<not> is_Ok r \<and> same_except {fin_tmp pid ?d ?p} w w'"
      using ensuresD [OF fin_file.no_content [where a = "(?d, ?p, j')" and E = E and pid = pid and w = w]] None step(3) by simp
    with assms(3) shape(2) [of pid] fin_read_same [of _ w w' ?p E "fh_journal h"] show ?thesis
      by (intro conjI exI [of _ "fh_journal h"]) auto
  next
    case (Some b)
    have rep: "replaced (fin_tmp pid ?d ?p) ?p 384 b w (is_Ok r) w'"
      using ensuresD [OF fin_file.contract [of pid "(?d, ?p, j')" E b w]] shape(1) shape(2) [of pid] Some step(3)
      by simp
    then consider "node_at w' ?p = Some (file_node w 384 b)" | "\<not> is_Ok r" "node_at w' ?p = node_at w ?p"
      by (auto simp: replaced_def)
    then show ?thesis
    proof cases
      case 1
      with assms(2) Some valid have "fin_read E j' w' ?p" by (simp add: fin_read_def fin_codec_def)
      with on step(2) show ?thesis by auto
    next
      case 2
      with assms(3) show ?thesis by (intro conjI exI [of _ "fh_journal h"]) (auto simp: fin_read_def)
    qed
  qed
qed

lemma record_in_journal_disk:
  assumes "fin_live E s" and "record_in_journal E H c s = (r, s')"
  shows "wi_sent s' = wi_sent s \<and> fh_path (se_journal s') = fh_path (se_journal s) \<and>
    (\<exists>j. fin_read E j (wi_world s') (fh_path (se_journal s)) \<and> holds_on (journal_of s) j) \<and>
    (is_Ok r \<longrightarrow> fin_live E s' \<and> fin_recorded c (journal_of s') \<and> holds_on (journal_of s) (journal_of s'))"
proof -
  from assms(2) obtain r0 where run: "call_fin E (fo_pid H) c (se_journal s) (wi_world s) = (r0, se_journal s', wi_world s')"
    and sent: "wi_sent s' = wi_sent s" and r: "is_Ok r \<longleftrightarrow> r0 = Ok ()"
    by (auto simp: record_in_journal_def split: prod.splits outcome.splits)
  from assms(1) have live: "fin_codec E" "fin_read E (journal_of s) (wi_world s) (fh_path (se_journal s))"
    "journal_path (fh_directory (se_journal s)) (fj_principal_mapping_identity (journal_of s)) = Inr (fh_path (se_journal s))"
    by (auto simp: fin_live_def)
  note disk = call_fin_disk [OF run live] and handle = call_fin_handle [OF run]
  moreover have "fin_live E s' \<and> fin_recorded c (journal_of s')" if "is_Ok r"
  proof -
    from that r have "fin_recorded c (journal_of s')" using run call_fin_recorded by metis
    moreover from that r disk have "holds_on (journal_of s) (journal_of s')" "fin_read E (journal_of s') (wi_world s') (fh_path (se_journal s))"
      by simp_all
    ultimately show ?thesis using live handle by (simp add: fin_live_def holds_on_def fin_key_def)
  qed
  ultimately show ?thesis using sent r by auto
qed

interpretation fin_ahead: write_ahead "record_in_journal E H" wi_sent "fin_live E" "\<lambda>c s. fin_recorded c (journal_of s)"
  for E H
proof (unfold_locales, goal_cases)
  case (1 c s r s')
  then show ?case by (auto simp: record_in_journal_def split: prod.splits)
next
  case (2 s c u s')
  from record_in_journal_disk [OF 2] show ?case by simp
qed

text \<open>What a message of the session needs on disk.\<close>

fun fin_announced :: "message \<Rightarrow> finalization_journal \<Rightarrow> bool" where
  "fin_announced (SignedFinalizationMsg f) j \<longleftrightarrow>
     fj_signed_finalization j = Some (sff_signed_finalization f) \<and> sff_invocation_id f = fj_invocation_id j"
| "fin_announced (SidecarFileMsg sc) j \<longleftrightarrow> fj_sidecar j = Some sc \<and> fj_protected_history_attachment j \<noteq> None"
| "fin_announced (ArchiveResponseMsg r) j \<longleftrightarrow>
     fj_sidecar j = Some (rs_sidecar r) \<and> fj_protected_history_attachment j \<noteq> None \<and>
     map_option ar_request_identity (fj_archive_request j) = Some (rs_request_identity r)"
| "fin_announced (TerminalMsg t) j \<longleftrightarrow>
     fj_stage j = TerminalIssued \<and> fj_terminal j = Some t \<and> fj_protected_history_attachment j \<noteq> None"
| "fin_announced _ j \<longleftrightarrow> False"

definition fin_backed :: "'x fin_env_scheme \<Rightarrow> path \<Rightarrow> party \<times> message \<times> world \<Rightarrow> bool" where
  "fin_backed E p x = (case x of (_, m, w) \<Rightarrow> \<exists>j. fin_read E j w p \<and> fin_announced m j)"

text \<open>
  \<open>serves E P m Q\<close>: from a live state whose journal satisfies \<open>P\<close>, whatever happens, everything \<open>m\<close>
  sends is backed, and a restart finds a journal that still holds what was there; and if \<open>m\<close>
  returns \<open>a\<close>, the state is live and its journal satisfies \<open>Q a\<close>.
\<close>

definition advances :: "'x fin_env_scheme \<Rightarrow> service_state \<Rightarrow> service_state \<Rightarrow> bool" where
  "advances E s s' \<longleftrightarrow> fh_path (se_journal s') = fh_path (se_journal s) \<and>
     (\<exists>new. wi_sent s' = wi_sent s @ new \<and> list_all (fin_backed E (fh_path (se_journal s))) new) \<and>
     (\<exists>j. fin_read E j (wi_world s') (fh_path (se_journal s)) \<and> holds_on (journal_of s) j)"

definition serves ::
  "'x fin_env_scheme \<Rightarrow> (finalization_journal \<Rightarrow> bool) \<Rightarrow> 'a service \<Rightarrow> ('a \<Rightarrow> finalization_journal \<Rightarrow> bool) \<Rightarrow> bool" where
  "serves E P m Q \<longleftrightarrow> (\<forall>s r s'. fin_live E s \<longrightarrow> P (journal_of s) \<longrightarrow> m s = (r, s') \<longrightarrow>
     advances E s s' \<and> (\<forall>a. r = Ok a \<longrightarrow> fin_live E s' \<and> holds_on (journal_of s) (journal_of s') \<and> Q a (journal_of s')))"

lemma servesI:
  assumes "\<And>s r s'. fin_live E s \<Longrightarrow> P (journal_of s) \<Longrightarrow> m s = (r, s') \<Longrightarrow>
     advances E s s' \<and> (\<forall>a. r = Ok a \<longrightarrow> fin_live E s' \<and> holds_on (journal_of s) (journal_of s') \<and> Q a (journal_of s'))"
  shows "serves E P m Q"
  using assms by (auto simp: serves_def)

lemma servesD:
  assumes "serves E P m Q" and "m s = (r, s')" and "fin_live E s" and "P (journal_of s)"
  shows "advances E s s'" and "r = Ok a \<Longrightarrow> fin_live E s' \<and> holds_on (journal_of s) (journal_of s') \<and> Q a (journal_of s')"
  using assms by (auto simp: serves_def)

lemma advances_refl: "fin_live E s \<Longrightarrow> se_journal s' = se_journal s \<Longrightarrow> wi_sent s' = wi_sent s \<Longrightarrow>
    wi_world s' = wi_world s \<Longrightarrow> advances E s s'"
  by (auto simp: advances_def fin_live_def intro: exI [of _ "journal_of s"])

lemma advances_trans:
  assumes "advances E s s1" and "advances E s1 s2" and "holds_on (journal_of s) (journal_of s1)"
  shows "advances E s s2"
  using assms unfolding advances_def by (fastforce intro: holds_on_trans)

lemma serves_then:
  assumes "serves E P m Q" and "\<And>a. serves E (Q a) (f a) R"
  shows "serves E P (and_then m f) R"
proof (rule servesI)
  fix s r s'
  assume live: "fin_live E s" and P: "P (journal_of s)" and run: "and_then m f s = (r, s')"
  obtain r1 s1 where m: "m s = (r1, s1)" by fastforce
  note one = servesD [OF assms(1) m live P]
  show "advances E s s' \<and> (\<forall>a. r = Ok a \<longrightarrow> fin_live E s' \<and> holds_on (journal_of s) (journal_of s') \<and> R a (journal_of s'))"
  proof (cases r1)
    case (Ok a)
    with run m have f: "f a s1 = (r, s')" by (simp add: and_then_def)
    from Ok one have one': "fin_live E s1" "holds_on (journal_of s) (journal_of s1)" "Q a (journal_of s1)" by auto
    note two = servesD [OF assms(2) f one'(1,3)]
    from one two one'(2) show ?thesis by (auto intro: advances_trans holds_on_trans)
  qed (use run m one in \<open>auto simp: and_then_def\<close>)
qed

lemma serves_weaken:
  "serves E P m Q \<Longrightarrow> (\<And>j. P' j \<Longrightarrow> P j) \<Longrightarrow> (\<And>a j. Q a j \<Longrightarrow> Q' a j) \<Longrightarrow> serves E P' m Q'"
  by (rule servesI) (auto dest: servesD)

text \<open>Steps that send nothing and leave journal and files alone.\<close>

definition idle :: "'a service \<Rightarrow> bool" where
  "idle m \<longleftrightarrow> (\<forall>s r s'. m s = (r, s') \<longrightarrow> se_journal s' = se_journal s \<and> wi_sent s' = wi_sent s \<and> wi_world s' = wi_world s)"

named_theorems idle_intros \<open>steps that send nothing and leave journal and files alone\<close>

lemma idleD: "idle m \<Longrightarrow> m s = (r, s') \<Longrightarrow> se_journal s' = se_journal s \<and> wi_sent s' = wi_sent s \<and> wi_world s' = wi_world s"
  by (simp add: idle_def)

lemma serves_idle: "idle m \<Longrightarrow> serves E P m (\<lambda>_. P)"
proof (rule servesI)
  fix s r s'
  assume "idle m" and live: "fin_live E s" "P (journal_of s)" and run: "m s = (r, s')"
  then have "se_journal s' = se_journal s" "wi_sent s' = wi_sent s" "wi_world s' = wi_world s"
    using idleD by blast+
  with live show "advances E s s' \<and> (\<forall>a. r = Ok a \<longrightarrow> fin_live E s' \<and> holds_on (journal_of s) (journal_of s') \<and> P (journal_of s'))"
    by (auto simp: fin_live_def intro: advances_refl)
qed

lemma idle_basic [idle_intros]:
  "idle (ret a)" "idle (throw e)" "idle (peek f)" "idle (require e g)" "idle (check b)" "idle (lift_result x)"
  by (auto simp: idle_def peek_def require_def check_def lift_result_def split: option.splits sum.splits)

lemma idle_then [idle_intros]:
  assumes "idle m" and "\<And>a. idle (f a)"
  shows "idle (and_then m f)"
  unfolding idle_def
proof (intro allI impI)
  fix s r s'
  assume run: "and_then m f s = (r, s')"
  obtain r1 s1 where m: "m s = (r1, s1)" by fastforce
  from idleD [OF assms(1) m] run m show "se_journal s' = se_journal s \<and> wi_sent s' = wi_sent s \<and> wi_world s' = wi_world s"
    by (cases r1) (auto simp: and_then_def dest: idleD [OF assms(2)])
qed

lemma idle_if [idle_intros]: "idle m \<Longrightarrow> idle n \<Longrightarrow> idle (if b then m else n)"
  by simp

lemma idle_Let [idle_intros]: "(\<And>a. idle (f a)) \<Longrightarrow> idle (Let x f)"
  by simp

lemma idle_prod [idle_intros]: "(\<And>a b. idle (f a b)) \<Longrightarrow> idle (case x of (a, b) \<Rightarrow> f a b)"
  by (cases x) simp

lemma idle_read [idle_intros]: "idle (read_from p n e)" "idle (decoded e x)"
  by (auto simp: idle_def read_from_def decoded_def split: prod.splits option.splits)

lemma idle_read_frame [idle_intros]: "idle (read_frame E p e)"
  unfolding read_frame_def by (intro idle_intros)

lemma idle_receive [idle_intros]: "idle (receive_typed_frame E parse)"
  unfolding receive_typed_frame_def read_plain_def by (intro idle_intros)

lemma serves_peek: "serves E P (peek journal_of) (\<lambda>a j. P j \<and> a = j)"
  by (rule servesI) (auto simp: peek_def intro: advances_refl)

lemma serves_peeks: "serves E P (peek (\<lambda>s. f (journal_of s))) (\<lambda>a j. P j \<and> a = f j)"
  by (rule servesI) (auto simp: peek_def intro: advances_refl)

lemma serves_require: "serves E P (require e (\<lambda>s. f (journal_of s))) (\<lambda>a j. P j \<and> f j = Some a)"
  by (rule servesI) (auto simp: require_def intro: advances_refl split: option.splits)

lemma serves_record: "serves E P (record_in_journal E H c) (\<lambda>_ j'. fin_recorded c j' \<and> (\<exists>j. P j \<and> holds_on j j'))"
  by (rule servesI)
     (use record_in_journal_disk in \<open>fastforce simp: advances_def\<close>)

lemma serves_write:
  assumes "\<And>j. P j \<Longrightarrow> fin_announced m j"
  shows "serves E P (write_message E' p m e) (\<lambda>_. P)" "serves E P (transmit p m e) (\<lambda>_. P)"
proof -
  have step: "advances E s s' \<and> (\<forall>a. r = Ok a \<longrightarrow> fin_live E s' \<and> holds_on (journal_of s) (journal_of s') \<and> P (journal_of s'))"
    if "fin_live E s" "P (journal_of s)" "transmit p m e s = (r, s')" for s r s'
  proof -
    from that(3) have s': "wi_sent s' = wi_sent s @ [(p, m, wi_world s)]" "se_journal s' = se_journal s" "wi_world s' = wi_world s"
      by (auto simp: transmit_def Let_def split: if_splits)
    have "fin_backed E (fh_path (se_journal s)) (p, m, wi_world s)"
      using that(1,2) assms by (auto simp: fin_backed_def fin_live_def)
    with that(1,2) s' show ?thesis by (auto simp: advances_def fin_live_def intro: exI [of _ "journal_of s"])
  qed
  then show "serves E P (transmit p m e) (\<lambda>_. P)" by (intro servesI)
  with serves_idle [OF idle_basic(2)] show "serves E P (write_message E' p m e) (\<lambda>_. P)"
    by (auto simp: write_message_def split: option.splits)
qed

text \<open>What a journal keeps holding may be carried along.\<close>

definition stable :: "(finalization_journal \<Rightarrow> bool) \<Rightarrow> bool" where
  "stable P \<longleftrightarrow> (\<forall>j j'. P j \<longrightarrow> holds_on j j' \<longrightarrow> P j')"

named_theorems stable_intros \<open>conditions a journal keeps\<close>

lemma stable_basic [stable_intros]:
  "stable (\<lambda>j. True)"
  "stable (\<lambda>j. fj_signed_finalization j = Some x)"
  "stable (\<lambda>j. fj_archive_request j = Some rq)"
  "stable (\<lambda>j. fj_sidecar j = Some sc)"
  "stable (\<lambda>j. fj_protected_history_attachment j \<noteq> None)"
  "stable (\<lambda>j. fj_invocation_id j = i)"
  by (auto simp: stable_def holds_on_def fin_key_def)

lemma stable_conj [stable_intros]: "stable P \<Longrightarrow> stable Q \<Longrightarrow> stable (\<lambda>j. P j \<and> Q j)"
  by (auto simp: stable_def)

lemma serves_record_stable:
  assumes "stable P"
  shows "serves E P (record_in_journal E H c) (\<lambda>_ j. fin_recorded c j \<and> P j)"
  by (rule serves_weaken [OF serves_record [where P = P]]) (use assms in \<open>auto simp: stable_def\<close>)

lemma serves_throw: "serves E P (throw e) Q"
  by (rule servesI) (auto intro: advances_refl)

lemma serves_ret: "(\<And>j. P j \<Longrightarrow> Q a j) \<Longrightarrow> serves E P (ret a) Q"
  by (rule servesI) (auto intro: advances_refl)

lemma serves_if: "(b \<Longrightarrow> serves E P m Q) \<Longrightarrow> (\<not> b \<Longrightarrow> serves E P n Q) \<Longrightarrow> serves E P (if b then m else n) Q"
  by simp

lemma serves_valid:
  "serves E P m Q \<Longrightarrow> serves E P m (\<lambda>a j. Q a j \<and> finalization_journal_identity E j = Inr (fj_identity j))"
  by (rule servesI) (auto dest: servesD simp: fin_live_def fin_read_def)

lemma idle_sign [idle_intros]: "idle (sign_execution_finalization E H fin)"
  unfolding sign_execution_finalization_def by (intro idle_intros)

lemma sign_if_intent_serves:
  assumes "stable P"
  shows "serves E P (sign_if_intent E H) (\<lambda>_. P)"
  unfolding sign_if_intent_def
proof (rule serves_then [OF serves_peek], rule serves_if)
  fix j
  show "serves E (\<lambda>j'. P j' \<and> j = j') (ret ()) (\<lambda>_. P)" by (rule serves_ret) simp
  have "serves E (\<lambda>j'. P j' \<and> j = j') (sign_execution_finalization E H (fj_finalization j)) (\<lambda>_. P)"
    by (rule serves_weaken [OF serves_idle [where P = P]]) (auto intro: idle_intros)
  then show "serves E (\<lambda>j'. P j' \<and> j = j') (and_then (sign_execution_finalization E H (fj_finalization j))
      (\<lambda>signed_fin. record_in_journal E H (RecordSigned signed_fin))) (\<lambda>_. P)"
    by (rule serves_then) (rule serves_weaken [OF serves_record_stable [OF assms]], auto)
qed

lemma accept_serves:
  assumes "stable P"
  shows "serves E P (accept_archive_request E H request) (\<lambda>_ j. P j \<and> fj_archive_request j = Some request)"
  unfolding accept_archive_request_def
  by (intro serves_then [OF serves_peek] serves_if)
     (auto intro!: serves_throw serves_ret intro: serves_weaken [OF serves_record_stable [OF assms]])

lemma issue_sidecar_serves:
  assumes "stable P"
  shows "serves E P (issue_sidecar E H signed_fin request) (\<lambda>sc j. P j \<and> fj_sidecar j = Some sc)"
  unfolding issue_sidecar_def Let_def
  by (intro serves_then [OF serves_idle [where P = P], OF idle_basic(4)] serves_then [OF serves_record_stable [OF assms]] serves_ret)
     auto

lemma attach_serves:
  assumes "stable P"
  shows "serves E P (attach_history E H target sc) (\<lambda>_ j. P j \<and> fj_protected_history_attachment j \<noteq> None)"
  unfolding attach_history_def
  by (intro serves_then [OF serves_idle [where P = P], OF idle_basic(4)] serves_then [OF serves_peek] serves_if)
     (auto intro!: serves_throw serves_ret intro: serves_weaken [OF serves_record_stable [OF assms]])

lemma acknowledge_sidecar_serves:
  assumes "stable P"
  shows "serves E P (acknowledge_sidecar E H p) (\<lambda>_. P)"
  unfolding acknowledge_sidecar_def
  by (intro serves_then [OF serves_peek] serves_if)
     (auto intro!: serves_throw serves_ret intro: serves_weaken [OF serves_record_stable [OF assms]])

lemma complete_archive_serves:
  "serves E (\<lambda>_. True) (complete_archive_attachment_for_request E H invocation request)
     (\<lambda>_ j. fj_protected_history_attachment j \<noteq> None)"
proof -
  let ?A = "\<lambda>j. True \<and> fj_archive_request j = Some request"
  let ?B = "\<lambda>sc j. ?A j \<and> fj_sidecar j = Some sc"
  let ?C = "\<lambda>sc j. ?B sc j \<and> fj_protected_history_attachment j \<noteq> None"
  have st: "stable ?A" "\<And>sc. stable (?B sc)" "\<And>sc. stable (?C sc)" by (intro stable_intros)+
  have sidecar: "serves E (\<lambda>j. ?A j \<and> fj_signed_finalization j = Some x)
      (and_then (peek (\<lambda>s. fj_sidecar (journal_of s))) (\<lambda>existing.
         case existing of Some sc \<Rightarrow> ret sc | None \<Rightarrow> issue_sidecar E H x request)) ?B" for x
  proof (rule serves_then [OF serves_peeks])
    fix existing
    show "serves E (\<lambda>j. (?A j \<and> fj_signed_finalization j = Some x) \<and> existing = fj_sidecar j)
        (case existing of Some sc \<Rightarrow> ret sc | None \<Rightarrow> issue_sidecar E H x request) ?B"
    proof (cases existing)
      case None
      then show ?thesis by simp (rule serves_weaken [OF issue_sidecar_serves [OF st(1)]], auto)
    next
      case (Some sc)
      then show ?thesis by (auto intro!: serves_ret)
    qed
  qed
  have published: "serves E (?C sc) (persist_sidecar sc) (\<lambda>_. ?C sc)" for sc
    unfolding persist_sidecar_def by (rule serves_write) simp
  have answered: "serves E (?C sc) (answer_archive_request E invocation request target sc) (\<lambda>_. ?C sc)" for sc target
    unfolding answer_archive_request_def Let_def write_typed_frame_def
    by (intro serves_then [OF serves_idle [where P = "?C sc"], OF idle_basic(4)] serves_write) simp
  have rest: "serves E (?C sc) (and_then (persist_sidecar sc) (\<lambda>_.
     and_then (answer_archive_request E invocation request target sc) (\<lambda>_.
     and_then (receive_typed_frame E (archive_persistence_from_slice E)) (\<lambda>p.
     and_then (check (launcher_finalization_archive_persistence_v1_identity E p \<noteq> Some (ap_identity p))) (\<lambda>_.
     and_then (persist_sidecar sc) (\<lambda>_. acknowledge_sidecar E H p))))))
     (\<lambda>_. ?C sc)" for sc target
    by (intro serves_then [OF published] serves_then [OF answered] serves_then [OF serves_idle [where P = "?C sc"]]
         acknowledge_sidecar_serves st idle_intros)
  have rest': "serves E (?C sc) m (\<lambda>_. ?C sc) \<Longrightarrow> serves E (?C sc) m (\<lambda>_ j. fj_protected_history_attachment j \<noteq> None)" for sc m
    by (erule serves_weaken) auto
  show ?thesis
    unfolding complete_archive_attachment_for_request_def
    by (intro serves_then [OF serves_idle [where P = "\<lambda>_. True"]] idle_intros
        serves_then [OF accept_serves] serves_then [OF serves_require] stable_intros serves_then [OF sidecar]
        serves_then [OF attach_serves [OF st(2)]] rest' [OF rest])
qed

lemma issue_terminal_serves:
  assumes "stable P"
  shows "serves E P (issue_terminal E H) (\<lambda>_. P)"
  unfolding issue_terminal_def
proof (rule serves_then [OF serves_peek], rule serves_if)
  fix j
  show "serves E (\<lambda>j'. P j' \<and> j = j') (ret ()) (\<lambda>_. P)" by (rule serves_ret) simp
  have "serves E (\<lambda>j'. P j' \<and> j = j') (check b) (\<lambda>_. P)" for b
    by (rule serves_weaken [OF serves_idle [where P = P]]) (auto intro: idle_intros)
  then show "serves E (\<lambda>j'. P j' \<and> j = j')
      (and_then (check (\<not> validate_launcher_terminal_frame_v1 E (selected_terminal E (fj_finalization j)))) (\<lambda>_.
         record_in_journal E H (RecordTerminal (selected_terminal E (fj_finalization j))))) (\<lambda>_. P)"
    by (rule serves_then) (rule serves_weaken [OF serves_record_stable [OF assms]], auto)
qed

lemma terminal_means_issued:
  "finalization_journal_identity E j = Inr i \<Longrightarrow> fj_terminal j = Some t \<Longrightarrow> fj_stage j = TerminalIssued"
  by (drule fin_identity_valid) (cases "fj_stage j"; simp add: stage_is_valid_def)

text \<open>The terminal exchange up to the acknowledgement.\<close>

definition terminal_exchange :: "'x wire_env_scheme \<Rightarrow> finalization_host \<Rightarrow> (terminal_frame \<times> terminal_persistence) service" where
  "terminal_exchange E H =
     and_then (issue_terminal E H) (\<lambda>_.
     and_then (available (\<lambda>s. fj_terminal (journal_of s))) (\<lambda>terminal.
     and_then (write_typed_frame E (TerminalMsg terminal)) (\<lambda>_.
     and_then (receive_typed_frame E (terminal_persistence_from_slice E)) (\<lambda>p.
     and_then (check (launcher_terminal_persistence_v1_identity E p \<noteq> Some (tp_identity p))) (\<lambda>_.
       ret (terminal, p))))))"

lemma write_selected_eq:
  "write_selected_terminal_and_finalize E H =
     and_then (terminal_exchange E H) (\<lambda>(terminal, p).
     and_then (peek se_journal) (\<lambda>h.
       on_files (map_err (\<lambda>_. FinalizationUnavailable) (acknowledge_terminal_and_finalize E p h))))"
  by (simp add: write_selected_terminal_and_finalize_def terminal_exchange_def and_then_assoc and_then_ret)

lemma terminal_exchange_serves:
  "serves E (\<lambda>j. fj_protected_history_attachment j \<noteq> None) (terminal_exchange E H)
     (\<lambda>(t, p) j. fj_protected_history_attachment j \<noteq> None \<and> fj_stage j = TerminalIssued \<and> fj_terminal j = Some t)"
proof -
  let ?P = "\<lambda>j. fj_protected_history_attachment j \<noteq> None"
  let ?T = "\<lambda>t j. fj_protected_history_attachment j \<noteq> None \<and> fj_stage j = TerminalIssued \<and> fj_terminal j = Some t"
  have "serves E ?P (available (\<lambda>s. fj_terminal (journal_of s))) ?T"
    by (rule serves_weaken [OF serves_valid [OF serves_require [where P = ?P]]]) (auto intro: terminal_means_issued)
  then show ?thesis
    unfolding terminal_exchange_def write_typed_frame_def
    by (intro serves_then [OF issue_terminal_serves [OF stable_basic(5)]] serves_then [where Q = ?T]
        serves_then [OF serves_write(1)] serves_then [OF serves_idle] idle_intros serves_ret) auto
qed


section \<open>The recovery session\<close>

text \<open>
  \<open>acknowledged E p s s'\<close>: the file at \<open>p\<close> is gone, everything sent was backed, and among it is a
  terminal frame whose identity a valid acknowledgement of the client names.
\<close>

definition acknowledged :: "'x wire_env_scheme \<Rightarrow> path \<Rightarrow> service_state \<Rightarrow> service_state \<Rightarrow> bool" where
  "acknowledged E p s s' \<longleftrightarrow> node_at (wi_world s') p = None \<and>
     (\<exists>new. wi_sent s' = wi_sent s @ new \<and> list_all (fin_backed E p) new \<and>
        (\<exists>w t a. (Client, TerminalMsg t, w) \<in> set new \<and>
           launcher_terminal_persistence_v1_identity E a = Some (tp_identity a) \<and>
           tp_invocation_id a = tf_invocation_id t \<and>
           launcher_terminal_frame_v1_identity E t = Some (tp_terminal_identity a)))"

lemma acknowledged_before:
  assumes "advances E s s1" and "acknowledged E (fh_path (se_journal s)) s1 s'"
  shows "acknowledged E (fh_path (se_journal s)) s s'"
  using assms unfolding advances_def acknowledged_def by fastforce

lemma acknowledge_cases:
  assumes "acknowledge_terminal_and_finalize E a h w = (r, w')"
  obtains (kept) "\<not> is_Ok r" "node_at w' (fh_path h) = node_at w (fh_path h)"
  | (removed) t where "node_at w' (fh_path h) = None" "fj_terminal (fh_journal h) = Some t"
      "launcher_terminal_persistence_v1_identity E a = Some (tp_identity a)"
      "tp_invocation_id a = fj_invocation_id (fh_journal h)"
      "launcher_terminal_frame_v1_identity E t = Some (tp_terminal_identity a)"
proof (cases "w' = w \<and> \<not> is_Ok r")
  case True
  then show thesis by (intro kept) auto
next
  case False
  with assms obtain t where fit: "fj_terminal (fh_journal h) = Some t"
      "launcher_terminal_persistence_v1_identity E a = Some (tp_identity a)"
      "tp_invocation_id a = fj_invocation_id (fh_journal h)"
      "launcher_terminal_frame_v1_identity E t = Some (tp_terminal_identity a)"
    and run: "and_then (map_err (\<lambda>_. FinPersistenceFailed) (remove_file (fh_path h)))
      (\<lambda>_. fin_sync_directory (fh_directory h)) w = (r, w')"
    by (auto simp: acknowledge_terminal_and_finalize_def Let_def split: option.splits if_splits)
  have "ensures (and_then (map_err (\<lambda>_. FinPersistenceFailed) (remove_file (fh_path h)))
      (\<lambda>_. fin_sync_directory (fh_directory h))) w
      (\<lambda>r w'. node_at w' (fh_path h) = None \<or> \<not> is_Ok r \<and> node_at w' (fh_path h) = node_at w (fh_path h))"
    by (rule ensures_and_thenI [where P = "\<lambda>r w'. if is_Ok r then node_at w' (fh_path h) = None
          else node_at w' (fh_path h) = node_at w (fh_path h)"])
       (auto simp: ensures_map_err same_except_def split: outcome.splits if_splits
         intro!: ensures_mono [OF remove_ensures] ensures_mono [OF fin_sync_directory_ensures])
  from ensuresD [OF this run] fit removed kept show thesis by blast
qed

lemma terminal_exchange_sent:
  assumes "terminal_exchange E H s = (Ok (t, a), s1)" and "fin_live E s"
  shows "launcher_terminal_persistence_v1_identity E a = Some (tp_identity a) \<and>
    (\<exists>new w. wi_sent s1 = wi_sent s @ new \<and> (Client, TerminalMsg t, w) \<in> set new)"
proof -
  from assms(1) obtain s2 s3 s4 where issue: "issue_terminal E H s = (Ok (), s2)"
    and wr: "write_message E Client (TerminalMsg t) FinalizationUnavailable s2 = (Ok (), s3)"
    and rd: "receive_typed_frame E (terminal_persistence_from_slice E) s3 = (Ok a, s4)"
    and ck: "check (launcher_terminal_persistence_v1_identity E a \<noteq> Some (tp_identity a)) s4 = (Ok (), s1)"
    by (auto simp: terminal_exchange_def and_then_Ok_iff require_def write_typed_frame_def split: option.splits)
  have "advances E s s2" using servesD(1) [OF issue_terminal_serves [OF stable_basic(1)] issue assms(2)] by simp
  then obtain new where "wi_sent s2 = wi_sent s @ new" by (auto simp: advances_def)
  moreover have "wi_sent s3 = wi_sent s2 @ [(Client, TerminalMsg t, wi_world s2)]"
    using wr by (auto simp: write_message_def transmit_def Let_def split: option.splits if_splits)
  moreover have "wi_sent s4 = wi_sent s3" using idleD [OF idle_receive rd] by simp
  moreover have "s1 = s4" "launcher_terminal_persistence_v1_identity E a = Some (tp_identity a)"
    using ck by (auto simp: check_def split: if_splits)
  ultimately show ?thesis by auto
qed

lemma write_selected_ends:
  assumes "fin_live E s" and "fj_protected_history_attachment (journal_of s) \<noteq> None"
    and "write_selected_terminal_and_finalize E H s = (r, s')"
  shows "\<not> is_Ok r \<and> advances E s s' \<or> acknowledged E (fh_path (se_journal s)) s s'"
proof -
  obtain r1 s1 where ex: "terminal_exchange E H s = (r1, s1)" by fastforce
  note ser = servesD [OF terminal_exchange_serves ex assms(1,2)]
  show ?thesis
  proof (cases r1)
    case (Ok tp)
    obtain t a where tp: "tp = (t, a)" by (cases tp)
    from Ok tp ser(2) have live: "fin_live E s1" and t: "fj_terminal (journal_of s1) = Some t"
      and stage: "fj_stage (journal_of s1) = TerminalIssued" by auto
    have invocation: "tf_invocation_id t = fj_invocation_id (journal_of s1)"
      using live t stage fin_identity_valid [of E "journal_of s1"]
      by (auto simp: fin_live_def fin_read_def stage_is_valid_def terminal_valid_def)
    from terminal_exchange_sent [OF ex [unfolded Ok tp] assms(1)] obtain new w where
      new: "wi_sent s1 = wi_sent s @ new" "(Client, TerminalMsg t, w) \<in> set new" by blast
    with ser(1) have backed: "list_all (fin_backed E (fh_path (se_journal s))) new"
      and path: "fh_path (se_journal s1) = fh_path (se_journal s)" by (auto simp: advances_def)
    from assms(3) ex Ok tp obtain r2 w2 where
      ack: "acknowledge_terminal_and_finalize E a (se_journal s1) (wi_world s1) = (r2, w2)"
      and s': "s' = s1\<lparr>wi_world := w2\<rparr>" and r: "is_Ok r \<longleftrightarrow> is_Ok r2"
      by (auto simp: write_selected_eq and_then_def peek_def on_files_def map_err_def split: prod.splits outcome.splits)
    show ?thesis
      using ack
    proof (cases rule: acknowledge_cases)
      case kept
      then have "fin_read E j (wi_world s') (fh_path (se_journal s)) = fin_read E j (wi_world s1) (fh_path (se_journal s))" for j
        using path s' by (simp add: fin_read_def)
      with ser(1) s' kept(1) r show ?thesis by (auto simp: advances_def)
    next
      case (removed t')
      with t have "t' = t" by simp
      with removed new backed path s' invocation show ?thesis by (auto simp: acknowledged_def)
    qed
  qed (use ex ser(1) assms(3) in \<open>auto simp: write_selected_eq and_then_def\<close>)
qed

text \<open>Loading the journal reads the file and nothing else.\<close>

lemma load_for_principal_reads:
  assumes "load_for_principal E d uid mapping w = (r, w')"
  shows "same_except {} w w' \<and> (\<forall>h. r = Ok (Some h) \<longrightarrow> fin_read E (fh_journal h) w' (fh_path h) \<and>
    journal_path d mapping = Inr (fh_path h) \<and> fh_directory h = d \<and>
    fj_principal_mapping_identity (fh_journal h) = mapping)"
proof -
  have exists: "touches {} (path_exists p)" for p
    by (rule touchesI)
       (auto simp: path_exists_def split: prod.splits outcome.splits dest: ensuresD [OF look_ensures(1)])
  have "touches {} (load_for_principal E d uid mapping)"
    unfolding load_for_principal_def fin_verify_store_def fin_verify_file_def by (intro touches_intros exists)
  from touchesD [OF this assms] have same: "same_except {} w w'" .
  moreover have "fin_read E (fh_journal h) w' (fh_path h) \<and> journal_path d mapping = Inr (fh_path h) \<and>
      fh_directory h = d \<and> fj_principal_mapping_identity (fh_journal h) = mapping" if "r = Ok (Some h)" for h
  proof -
    from assms that obtain p w1 n1 w2 n w3 bs w4 j w0 where p: "journal_path d mapping = Inr p"
      and md: "symlink_metadata p w1 = (Ok n1, w2)" "n_kind n1 = RegularFile"
      and op: "open_nofollow p w2 = (Ok n, w3)" and rd: "read_to_end n w3 = (Ok bs, w4)"
      and j: "fin_from_slice E bs = Some j" "finalization_journal_identity E j = Inr (fj_identity j)"
        "fj_principal_mapping_identity j = mapping" "h = \<lparr>fh_directory = d, fh_path = p, fh_journal = j\<rparr>" "w' = w4"
      by (auto simp: load_for_principal_def fin_verify_file_def and_then_Ok_iff lift_result_Ok_iff map_err_Ok_iff
          split: if_splits option.splits)
    from ensuresD [OF look_ensures(1) md(1)] ensuresD [OF look_ensures(2) op] ensuresD [OF look_ensures(3) rd]
    have "node_at w' p = Some n" "n = n1" "bs = n_bytes n" using j(5) by (auto simp: same_except_def)
    with p j md(2) show ?thesis by (auto simp: fin_read_def)
  qed
  ultimately show ?thesis by blast
qed

lemma load_requested_cases:
  assumes "load_requested E mapping rid s = (r, s')" and "fin_codec E"
  shows "wi_sent s' = wi_sent s \<and> same_except {} (wi_world s) (wi_world s') \<and>
    (is_Ok r \<longrightarrow> fin_live E s' \<and> journal_path FINALIZATION_DIRECTORY mapping = Inr (fh_path (se_journal s')) \<and>
      fj_launcher_request_identity (journal_of s') = rid)"
proof -
  obtain r1 w1 where ld: "load_for_principal E FINALIZATION_DIRECTORY 0 mapping (wi_world s) = (r1, w1)" by fastforce
  note reads = load_for_principal_reads [OF ld]
  show ?thesis
  proof (cases "\<exists>h. r1 = Ok (Some h)")
    case True
    then obtain h where h: "r1 = Ok (Some h)" by blast
    with assms ld reads show ?thesis
      by (auto simp: load_requested_def and_then_def on_files_def map_err_def hold_def fin_live_def split: if_splits)
  next
    case False
    with assms(1) ld reads show ?thesis
      by (auto simp: load_requested_def and_then_def on_files_def map_err_def
          split: outcome.splits option.splits)
  qed
qed

text \<open>
  How a session on the file at \<open>p\<close> may end: everything sent was backed; without \<open>Ok\<close> a restart still
  finds a journal that holds what the one before held, or else the terminal was acknowledged and
  the file is gone.
\<close>

definition session :: "'x wire_env_scheme \<Rightarrow> path \<Rightarrow> service_state \<Rightarrow> bool \<Rightarrow> service_state \<Rightarrow> bool" where
  "session E p s ok s' \<longleftrightarrow>
     (\<exists>new. wi_sent s' = wi_sent s @ new \<and> list_all (fin_backed E p) new) \<and>
     (acknowledged E p s s' \<or>
      \<not> ok \<and> (\<forall>j. fin_read E j (wi_world s) p \<longrightarrow> (\<exists>j'. fin_read E j' (wi_world s') p \<and> holds_on j j')))"

lemma fin_read_unique: "fin_read E j w p \<Longrightarrow> fin_read E j' w p \<Longrightarrow> j' = j"
  by (auto simp: fin_read_def)

lemma session_advances:
  assumes "advances E s s'" and "fin_live E s" and "fh_path (se_journal s) = p"
  shows "session E p s False s'"
  using assms fin_read_unique [of E "journal_of s" "wi_world s" p]
  by (fastforce simp: session_def advances_def fin_live_def)

lemma session_acknowledged: "acknowledged E p s s' \<Longrightarrow> session E p s ok s'"
  by (auto simp: session_def acknowledged_def)

lemma session_quiet: "wi_sent s' = wi_sent s \<Longrightarrow> same_except {} (wi_world s) (wi_world s') \<Longrightarrow> session E p s False s'"
  by (auto simp: session_def fin_read_same intro: exI [of _ "[]"])

lemma session_after:
  assumes "\<exists>new. wi_sent s1 = wi_sent s @ new \<and> list_all (fin_backed E p) new"
    and "\<And>j. fin_read E j (wi_world s) p \<Longrightarrow> \<exists>j'. fin_read E j' (wi_world s1) p \<and> holds_on j j'"
    and "session E p s1 ok s'"
  shows "session E p s ok s'"
proof -
  from assms(1) obtain new where new: "wi_sent s1 = wi_sent s @ new" "list_all (fin_backed E p) new" by blast
  from assms(3) obtain more where more: "wi_sent s' = wi_sent s1 @ more" "list_all (fin_backed E p) more"
    by (auto simp: session_def)
  have "acknowledged E p s s'" if "acknowledged E p s1 s'"
    using that new by (fastforce simp: acknowledged_def)
  moreover have "\<exists>j'. fin_read E j' (wi_world s') p \<and> holds_on j j'"
    if "\<forall>j. fin_read E j (wi_world s1) p \<longrightarrow> (\<exists>j'. fin_read E j' (wi_world s') p \<and> holds_on j j')"
      "fin_read E j (wi_world s) p" for j
    using that assms(2) by (meson holds_on_trans)
  ultimately show ?thesis using assms(3) new more by (auto simp: session_def)
qed

lemma idle_lift [idle_intros]: "idle (\<lambda>s. lift_result (f s) s)"
  by (auto simp: idle_def lift_result_def split: sum.splits)

lemma recovery_body_serves:
  "serves E (\<lambda>_. True) (and_then (reopen_repository H) (\<lambda>_. and_then (sign_if_intent E H) (\<lambda>_.
     and_then (peek (\<lambda>s. fj_invocation_id (journal_of s))) (\<lambda>invocation.
       complete_archive_attachment_for_request E H invocation request))))
     (\<lambda>_ j. fj_protected_history_attachment j \<noteq> None)"
proof -
  have "idle (reopen_repository H)"
    unfolding reopen_repository_def by (intro idle_intros)
  then show ?thesis
    by (intro serves_then [OF serves_idle [where P = "\<lambda>_. True"]] idle_intros complete_archive_serves
        serves_then [OF sign_if_intent_serves [OF stable_basic(1)]])
qed

lemma serve_recovery_session:
  assumes "fin_codec E" and "journal_path FINALIZATION_DIRECTORY mapping = Inr p"
    and "serve_finalization_recovery E H mapping request s = (r, s')"
  shows "session E p s (is_Ok r) s'"
proof -
  let ?body = "and_then (reopen_repository H) (\<lambda>_. and_then (sign_if_intent E H) (\<lambda>_.
     and_then (peek (\<lambda>s. fj_invocation_id (journal_of s))) (\<lambda>invocation.
       complete_archive_attachment_for_request E H invocation request)))"
  have eq: "serve_finalization_recovery E H mapping request =
      and_then (load_requested E mapping (ar_launcher_request_identity request)) (\<lambda>_.
      and_then ?body (\<lambda>_. and_then (write_selected_terminal_and_finalize E H) (\<lambda>_. ret 0)))"
    by (simp add: serve_finalization_recovery_def and_then_assoc)
  obtain r1 s1 where ld: "load_requested E mapping (ar_launcher_request_identity request) s = (r1, s1)" by fastforce
  note load = load_requested_cases [OF ld assms(1)]
  show ?thesis
  proof (cases "is_Ok r1")
    case False
    with assms(3) ld eq have "s' = s1" "\<not> is_Ok r" by (cases r1; auto simp: and_then_def)+
    with load show ?thesis by (auto intro: session_quiet)
  next
    case True
    with load assms(2) have live: "fin_live E s1" and path: "fh_path (se_journal s1) = p" by auto
    obtain r2 s2 where body: "?body s1 = (r2, s2)" by fastforce
    note ser = servesD [OF recovery_body_serves body live TrueI]
    have "session E p s1 (is_Ok r) s'"
    proof (cases "is_Ok r2")
      case False
      with assms(3) ld True body eq have "s' = s2" "\<not> is_Ok r" by (cases r1; cases r2; auto simp: and_then_def)+
      with session_advances [OF ser(1) live path] show ?thesis by simp
    next
      case Ok2: True
      then obtain u where u: "r2 = Ok u" by (cases r2) auto
      obtain r3 s3 where wr: "write_selected_terminal_and_finalize E H s2 = (r3, s3)" by fastforce
      with assms(3) ld True u body eq have ends: "s' = s3" "is_Ok r = is_Ok r3"
        by (cases r1; cases r3; auto simp: and_then_def)+
      from ser u have live2: "fin_live E s2" "fj_protected_history_attachment (journal_of s2) \<noteq> None"
        "holds_on (journal_of s1) (journal_of s2)" by auto
      from ser(1) path have path2: "fh_path (se_journal s2) = p" by (simp add: advances_def)
      have "session E p s2 (is_Ok r) s'"
        using write_selected_ends [OF live2(1,2) wr] ends path2 session_advances [OF _ live2(1) path2]
        by (auto intro: session_acknowledged)
      moreover have "\<exists>j'. fin_read E j' (wi_world s2) p \<and> holds_on j j'" if "fin_read E j (wi_world s1) p" for j
        using that fin_read_unique [OF that, of "journal_of s1"] ser(1) live path by (auto simp: advances_def fin_live_def)
      ultimately show ?thesis using ser(1) path by (intro session_after [of s2 s1]) (auto simp: advances_def)
    qed
    then show ?thesis
      using load by (intro session_after [of s1 s]) (auto simp: fin_read_same intro: exI [of _ "[]"])
  qed
qed

lemma start_body_serves:
  "serves E (\<lambda>_. True) (and_then (sign_if_intent E H) (\<lambda>_.
     and_then (available (\<lambda>s. fj_signed_finalization (journal_of s))) (\<lambda>signed_fin.
     and_then (peek (\<lambda>s. fj_invocation_id (journal_of s))) (\<lambda>invocation.
     and_then (write_signed_finalization E invocation signed_fin) (\<lambda>_.
       receive_typed_frame E (archive_request_from_slice E)))))) (\<lambda>_ _. True)"
proof -
  have "serves E (\<lambda>j. (True \<and> fj_signed_finalization j = Some x) \<and> i = fj_invocation_id j)
      (write_signed_finalization E i x) (\<lambda>_ _. True)" for x i
    unfolding write_signed_finalization_def Let_def
    by (intro serves_if serves_throw)
       (rule serves_weaken [OF serves_write(1) [where P = "\<lambda>j. fj_signed_finalization j = Some x \<and> i = fj_invocation_id j"]],
        auto)
  then show ?thesis
    by (intro serves_then [OF sign_if_intent_serves [OF stable_basic(1)]] serves_then [OF serves_require]
        serves_then [OF serves_peeks] serves_then [where Q = "\<lambda>_ _. True"] serves_idle [where P = "\<lambda>_. True"] idle_intros)
qed

lemma recovery_start_session:
  assumes "fin_codec E" and "journal_path FINALIZATION_DIRECTORY mapping = Inr p"
    and "serve_finalization_recovery_start E H mapping recovery s = (r, s')"
  shows "session E p s (is_Ok r) s'"
proof -
  let ?check = "check (launcher_finalization_recovery_request_v1_identity H recovery \<noteq> Some (ry_request_identity recovery))"
  let ?load = "load_requested E mapping (ry_launcher_request_identity recovery)"
  let ?body = "and_then (sign_if_intent E H) (\<lambda>_.
     and_then (available (\<lambda>s. fj_signed_finalization (journal_of s))) (\<lambda>signed_fin.
     and_then (peek (\<lambda>s. fj_invocation_id (journal_of s))) (\<lambda>invocation.
     and_then (write_signed_finalization E invocation signed_fin) (\<lambda>_.
       receive_typed_frame E (archive_request_from_slice E)))))"
  have eq: "serve_finalization_recovery_start E H mapping recovery =
      and_then ?check (\<lambda>_. and_then ?load (\<lambda>_. and_then ?body (serve_finalization_recovery E H mapping)))"
    by (simp add: serve_finalization_recovery_start_def and_then_assoc)
  show ?thesis
  proof (cases "\<exists>u. ?check s = (Ok u, s)")
    case False
    with assms(3) eq have "s' = s" "\<not> is_Ok r" by (auto simp: and_then_def check_def split: if_splits)
    then show ?thesis by (auto intro: session_quiet)
  next
    case checked: True
    obtain r1 s1 where ld: "?load s = (r1, s1)" by fastforce
    note load = load_requested_cases [OF ld assms(1)]
    show ?thesis
    proof (cases "is_Ok r1")
      case False
      with assms(3) ld checked eq have "s' = s1" "\<not> is_Ok r" by (cases r1; auto simp: and_then_def)+
      with load show ?thesis by (auto intro: session_quiet)
    next
      case True
      with load assms(2) have live: "fin_live E s1" and path: "fh_path (se_journal s1) = p" by auto
      obtain r2 s2 where body: "?body s1 = (r2, s2)" by fastforce
      note ser = servesD [OF start_body_serves body live TrueI]
      have "session E p s1 (is_Ok r) s'"
      proof (cases r2)
        case (Ok request)
        with assms(3) ld True checked body eq have "serve_finalization_recovery E H mapping request s2 = (r, s')"
          by (cases r1; auto simp: and_then_def)
        from serve_recovery_session [OF assms(1,2) this] have "session E p s2 (is_Ok r) s'" .
        moreover have "\<exists>j'. fin_read E j' (wi_world s2) p \<and> holds_on j j'" if "fin_read E j (wi_world s1) p" for j
          using that fin_read_unique [OF that, of "journal_of s1"] ser(1) live path by (auto simp: advances_def fin_live_def)
        ultimately show ?thesis using ser(1) path by (intro session_after [of s2 s1]) (auto simp: advances_def)
      qed (use assms(3) ld True checked body eq session_advances [OF ser(1) live path] in
          \<open>cases r1; auto simp: and_then_def\<close>)+
      then show ?thesis
        using load by (intro session_after [of s1 s]) (auto simp: fin_read_same intro: exI [of _ "[]"])
    qed
  qed
qed

text \<open>
  C28. Finalization announces only what is durable. Whatever the client sends, at any fault of the
  store and of the services, and however the recovery session ends: when a signed finalization,
  an archive response, a sidecar file or a terminal frame leaves, the file of the principal
  decodes to a valid journal that holds exactly it; the sidecar leaves only after the journal is
  attached to protected history, the terminal frame only at the stage that issued it.
\<close>

theorem finalization_write_ahead:
  assumes "fin_codec E" and "journal_path FINALIZATION_DIRECTORY mapping = Inr p"
    and "serve_finalization_recovery_start E H mapping recovery s = (r, s')"
  shows "\<exists>new. wi_sent s' = wi_sent s @ new \<and> list_all (fin_backed E p) new"
  using recovery_start_session [OF assms] by (simp add: session_def)


end
