(* ===== verification/Systemd_Client.thy ===== *)
theory Systemd_Client
  imports Finalization_Service Selected_Relay
begin

text \<open>
  The unprivileged client of the launcher's socket (\<open>src/systemd_client.rs\<close> and its binary): it
  connects to the fixed socket, sends one invocation, copies the numbered output frames to its own
  standard output and error, confirms the archive and the terminal frame, and may recover a
  finalization over a second connection.

  What the operating system answers (metadata, credentials, reads, writes, a peek at the socket) is
  chosen by the environment. Every message handed to the socket is logged, whether or not the
  write succeeds.
\<close>


section \<open>Errors\<close>

datatype client_error = Usage | LocalBoundary | ServiceUnavailable | Protocol | OutputIncomplete

fun exit_code :: "client_error \<Rightarrow> nat" where
  "exit_code Usage = 64"
| "exit_code LocalBoundary = 70"
| "exit_code Protocol = 70"
| "exit_code ServiceUnavailable = 75"
| "exit_code OutputIncomplete = 75"

fun reason_code :: "client_error \<Rightarrow> string" where
  "reason_code Usage = ''invalid_invocation''"
| "reason_code LocalBoundary = ''client_boundary_unavailable''"
| "reason_code ServiceUnavailable = ''launcher_service_unavailable''"
| "reason_code Protocol = ''launcher_protocol_invalid''"
| "reason_code OutputIncomplete = ''output_incomplete''"

fun execution_started :: "client_error \<Rightarrow> bool option" where
  "execution_started Usage = Some False"
| "execution_started LocalBoundary = Some False"
| "execution_started OutputIncomplete = Some True"
| "execution_started ServiceUnavailable = None"
| "execution_started Protocol = None"


section \<open>Requests, messages, the protocol crate\<close>

record invocation_request =
  iq_authority_id :: string
  iq_repository :: string
  iq_ota_arguments :: "string list"

datatype recovery_policy = Immediate | AdministratorControlled

record invocation_result =
  iv_ok :: bool
  iv_request_identity :: string
  iv_output_complete :: bool
  iv_terminal :: terminal_frame

record launcher_invocation =
  li_message_kind :: string
  li_protocol_version :: string
  li_authority_id :: string
  li_ota_arguments :: "string list"
  li_repository_path :: string

datatype client_message =
    InvocationRequestMsg launcher_invocation
  | RecoveryRequestMsg recovery_request
  | ArchiveRequestMsg archive_request
  | ArchivePersistenceMsg archive_persistence
  | TerminalPersistenceMsg terminal_persistence

text \<open>
  \<open>canonical_repository\<close> is what \<open>canonicalize\<close> answers, as \<open>to_string_lossy\<close> renders it; the other
  fields are functions of the protocol crate and of the JSON codec.
\<close>

record client_env = wire_env +
  canonical_repository :: "string \<Rightarrow> string option"
  validate_launcher_invocation_request_v1 :: "launcher_invocation \<Rightarrow> bool"
  launcher_invocation_request_identity :: "launcher_invocation \<Rightarrow> string option"
  recovery_request_v1_identity :: "recovery_request \<Rightarrow> string option"
  client_message_to_vec :: "client_message \<Rightarrow> string option"
  output_from_value :: "json \<Rightarrow> output_frame option"
  signed_frame_from_value :: "json \<Rightarrow> signed_finalization_frame option"
  terminal_from_value :: "json \<Rightarrow> terminal_frame option"
  signed_frame_from_slice :: "string \<Rightarrow> signed_finalization_frame option"
  archive_response_from_slice :: "string \<Rightarrow> archive_response option"
  terminal_from_slice :: "string \<Rightarrow> terminal_frame option"


section \<open>State\<close>

text \<open>
  What one attempt to connect meets. \<open>SO_PEERCRED\<close> answers with a length and credentials, or fails.
\<close>

record peer_credentials =
  pc_length :: nat
  pc_pid :: int
  pc_uid :: nat
  pc_gid :: nat

record connection =
  cn_parent :: "fnode option"
  cn_socket :: "fnode option"
  cn_connects :: bool
  cn_peer :: "peer_credentials option"
  cn_timeouts :: bool
  cn_stream :: "read_event list"

datatype peeked = QueuedByte | StreamEnd | WouldBlock | PeekFailed

text \<open>
  \<open>cl_local\<close> lists what the calls on the client's own output do: \<open>Some n\<close> is a failure after \<open>n\<close>
  bytes. Lists that have run out stand for calls that succeed and for a socket with nothing queued.
\<close>

record client =
  cl_connection :: "nat \<Rightarrow> connection"
  cl_connects :: nat
  cl_in :: "read_event list"
  cl_writes :: "bool list"
  cl_peeks :: "peeked list"
  cl_sent :: "client_message list"
  cl_local :: "nat option list"
  cl_output :: "output_stream \<Rightarrow> string"

type_synonym 'a client_proc = "(client, client_error, 'a) proc"


section \<open>The socket\<close>

definition SYSTEMD_LAUNCHER_SOCKET :: string where
  "SYSTEMD_LAUNCHER_SOCKET = ''/run/ota/authority-launcher.sock''"

definition verify_socket_path :: "path \<Rightarrow> (path \<Rightarrow> fnode option) \<Rightarrow> client_error + unit" where
  "verify_socket_path p metadata =
     (case path_parent p of
        None \<Rightarrow> Inl LocalBoundary
      | Some d \<Rightarrow>
         (case metadata d of
            None \<Rightarrow> Inl LocalBoundary
          | Some parent \<Rightarrow>
             (case metadata p of
                None \<Rightarrow> Inl ServiceUnavailable
              | Some socket \<Rightarrow>
                  if n_kind parent \<noteq> Directory \<or> n_uid parent \<noteq> 0 \<or> n_mode parent AND 0x12 \<noteq> 0
                     \<or> n_kind socket \<noteq> Socket \<or> n_uid socket \<noteq> 0 \<or> n_mode socket AND 0xFFF \<noteq> 0x1B0
                  then Inl LocalBoundary else Inr ())))"

definition verify_root_peer :: "peer_credentials option \<Rightarrow> client_error + unit" where
  "verify_root_peer credentials =
     (case credentials of
        None \<Rightarrow> Inl LocalBoundary
      | Some c \<Rightarrow>
          if pc_length c \<noteq> 12 \<or> pc_pid c \<le> 0 \<or> pc_uid c \<noteq> 0 \<or> pc_gid c \<noteq> 0
          then Inl LocalBoundary else Inr ())"

definition connection_metadata :: "connection \<Rightarrow> path \<Rightarrow> fnode option" where
  "connection_metadata n p =
     (if p = components SYSTEMD_LAUNCHER_SOCKET then cn_socket n
      else if path_parent (components SYSTEMD_LAUNCHER_SOCKET) = Some p then cn_parent n else None)"

definition connect_checks :: "connection \<Rightarrow> client_error + unit" where
  "connect_checks n =
     (case verify_socket_path (components SYSTEMD_LAUNCHER_SOCKET) (connection_metadata n) of
        Inl e \<Rightarrow> Inl e
      | Inr _ \<Rightarrow>
          if \<not> cn_connects n then Inl ServiceUnavailable
          else (case verify_root_peer (cn_peer n) of
                  Inl e \<Rightarrow> Inl e
                | Inr _ \<Rightarrow> if cn_timeouts n then Inr () else Inl LocalBoundary))"

definition connect_fixed_launcher :: "unit client_proc" where
  "connect_fixed_launcher s =
     (let n = cl_connection s (cl_connects s);
          s' = s\<lparr>cl_connects := Suc (cl_connects s)\<rparr> in
      case connect_checks n of
        Inl e \<Rightarrow> (Err e, s')
      | Inr _ \<Rightarrow> (Ok (), s'\<lparr>cl_in := cn_stream n\<rparr>))"

definition client_write_typed_frame :: "'x client_env_scheme \<Rightarrow> client_message \<Rightarrow> unit client_proc" where
  "client_write_typed_frame E m s =
     (case Option.bind (client_message_to_vec E m) (encode_frame E) of
        None \<Rightarrow> (Err Protocol, s)
      | Some _ \<Rightarrow>
         (let s' = s\<lparr>cl_sent := cl_sent s @ [m], cl_writes := tl (cl_writes s)\<rparr> in
          if cl_writes s \<noteq> [] \<and> \<not> hd (cl_writes s) then (Err ServiceUnavailable, s') else (Ok (), s')))"

definition client_read_exact :: "nat \<Rightarrow> client_error \<Rightarrow> string client_proc" where
  "client_read_exact n e s =
     (case read_exact_until n (cl_in s) of
        (Some bs, es) \<Rightarrow> (Ok bs, s\<lparr>cl_in := es\<rparr>)
      | (None, es) \<Rightarrow> (Err e, s\<lparr>cl_in := es\<rparr>))"

definition client_read_typed_frame ::
  "'x client_env_scheme \<Rightarrow> (string \<Rightarrow> 'a option) \<Rightarrow> 'a client_proc" where
  "client_read_typed_frame E parse =
     and_then (client_read_exact 4 ServiceUnavailable) (\<lambda>header.
       let n = from_be_bytes header in
       if n = 0 \<or> n > max_frame_bytes E then throw Protocol
       else and_then (client_read_exact n OutputIncomplete) (\<lambda>payload.
         and_then (decoded Protocol (decode_frame E (header @ payload))) (\<lambda>body.
           decoded Protocol (parse body))))"

definition reject_queued_trailing_frame :: "unit client_proc" where
  "reject_queued_trailing_frame s =
     (let s' = s\<lparr>cl_peeks := tl (cl_peeks s)\<rparr> in
      case cl_peeks s of
        [] \<Rightarrow> (Ok (), s')
      | QueuedByte # _ \<Rightarrow> (Err Protocol, s')
      | StreamEnd # _ \<Rightarrow> (Ok (), s')
      | WouldBlock # _ \<Rightarrow> (Ok (), s')
      | PeekFailed # _ \<Rightarrow> (Err Protocol, s'))"


section \<open>Output\<close>

definition write_output :: "output_stream \<Rightarrow> string \<Rightarrow> unit client_proc" where
  "write_output st bs s =
     (let add = (\<lambda>n. s\<lparr>cl_local := tl (cl_local s),
                      cl_output := (cl_output s)(st := cl_output s st @ take n bs)\<rparr>) in
      case cl_local s of
        Some n # _ \<Rightarrow> (Err LocalBoundary, add n)
      | _ \<Rightarrow> (Ok (), add (length bs)))"

definition flush :: "output_stream \<Rightarrow> unit client_proc" where
  "flush st s =
     (let s' = s\<lparr>cl_local := tl (cl_local s)\<rparr> in
      case cl_local s of Some _ # _ \<Rightarrow> (Err LocalBoundary, s') | _ \<Rightarrow> (Ok (), s'))"

text \<open>One output frame: its number, the \<open>checked_add\<close>, and the copy to the stream.\<close>

definition accept_output :: "'x client_env_scheme \<Rightarrow> 64 word \<Rightarrow> json \<Rightarrow> (64 word) client_proc" where
  "accept_output E next_sequence v =
     and_then (decoded Protocol (output_from_value E v)) (\<lambda>f.
       if \<not> validate_launcher_output_frame_v1 E f then throw Protocol
       else if of_sequence f \<noteq> next_sequence then throw Protocol
       else if next_sequence = -1 then throw Protocol
       else and_then (write_output (of_stream f) (of_payload f)) (\<lambda>_.
            and_then (flush Stdout) (\<lambda>_.
            and_then (flush Stderr) (\<lambda>_.
              ret (next_sequence + 1)))))"


section \<open>Acknowledgements\<close>

definition client_archive_request ::
  "'x client_env_scheme \<Rightarrow> string \<Rightarrow> string \<Rightarrow> signed_finalization_frame \<Rightarrow> archive_request option" where
  "client_archive_request E authority request frame =
     (let c = ef_completion (sf_finalization (sff_signed_finalization frame)) in
      case ec_receipt_archive_identity c of
        None \<Rightarrow> None
      | Some receipt \<Rightarrow>
         (let q = \<lparr>ar_schema_version = 1,
            ar_message_kind = protocol_constant E ''LAUNCHER_FINALIZATION_ARCHIVE_REQUEST'', ar_request_identity = [],
            ar_authority_id = authority, ar_launcher_request_identity = request,
            ar_receipt_archive_identity = receipt,
            ar_crossing_transaction_identity = ec_crossing_transaction_identity c,
            ar_signed_finalization_identity = Some (sf_identity (sff_signed_finalization frame))\<rparr> in
          map_option (\<lambda>i. q\<lparr>ar_request_identity := i\<rparr>) (launcher_finalization_archive_request_v1_identity E q)))"

definition response_refused ::
  "'x client_env_scheme \<Rightarrow> signed_finalization_frame \<Rightarrow> archive_request \<Rightarrow> archive_response \<Rightarrow> bool" where
  "response_refused E frame q resp \<longleftrightarrow>
     launcher_finalization_archive_response_v1_identity E resp \<noteq> Some (rs_response_identity resp)
     \<or> rs_request_identity resp \<noteq> ar_request_identity q
     \<or> rs_invocation_id resp \<noteq> sff_invocation_id frame
     \<or> sd_signed_finalization (rs_sidecar resp) \<noteq> sff_signed_finalization frame
     \<or> sa_receipt_archive_identity (sd_signed_archive (rs_sidecar resp)) \<noteq> ar_receipt_archive_identity q
     \<or> sa_crossing_transaction_identity (sd_signed_archive (rs_sidecar resp)) \<noteq> ar_crossing_transaction_identity q"

definition client_archive_persistence ::
  "'x client_env_scheme \<Rightarrow> archive_request \<Rightarrow> archive_response \<Rightarrow> archive_persistence option" where
  "client_archive_persistence E q resp =
     (let p = \<lparr>ap_schema_version = 1,
        ap_message_kind = protocol_constant E ''LAUNCHER_FINALIZATION_ARCHIVE_PERSISTENCE'', ap_identity = [],
        ap_request_identity = ar_request_identity q, ap_sidecar_identity = sd_identity (rs_sidecar resp)\<rparr> in
      map_option (\<lambda>i. p\<lparr>ap_identity := i\<rparr>) (launcher_finalization_archive_persistence_v1_identity E p))"

definition acknowledge_archive ::
  "'x client_env_scheme \<Rightarrow> string \<Rightarrow> string \<Rightarrow> signed_finalization_frame \<Rightarrow> unit client_proc" where
  "acknowledge_archive E authority request frame =
     and_then (decoded Protocol (client_archive_request E authority request frame)) (\<lambda>q.
     and_then (client_write_typed_frame E (ArchiveRequestMsg q)) (\<lambda>_.
     and_then (client_read_typed_frame E (archive_response_from_slice E)) (\<lambda>resp.
       if response_refused E frame q resp then throw Protocol
       else and_then (decoded Protocol (client_archive_persistence E q resp)) (\<lambda>p.
         client_write_typed_frame E (ArchivePersistenceMsg p)))))"

definition client_terminal_persistence :: "'x client_env_scheme \<Rightarrow> terminal_frame \<Rightarrow> terminal_persistence option" where
  "client_terminal_persistence E t =
     (case launcher_terminal_frame_v1_identity E t of
        None \<Rightarrow> None
      | Some ti \<Rightarrow>
         (let p = \<lparr>tp_schema_version = 1,
            tp_message_kind = protocol_constant E ''LAUNCHER_TERMINAL_PERSISTENCE'', tp_identity = [],
            tp_invocation_id = tf_invocation_id t, tp_terminal_identity = ti\<rparr> in
          map_option (\<lambda>i. p\<lparr>tp_identity := i\<rparr>) (launcher_terminal_persistence_v1_identity E p)))"

definition acknowledge_terminal :: "'x client_env_scheme \<Rightarrow> terminal_frame \<Rightarrow> unit client_proc" where
  "acknowledge_terminal E t =
     (if tf_finalization t = None then ret ()
      else and_then (decoded Protocol (client_terminal_persistence E t)) (\<lambda>p.
        client_write_typed_frame E (TerminalPersistenceMsg p)))"


section \<open>The session\<close>

definition accept_signed ::
  "'x client_env_scheme \<Rightarrow> string \<Rightarrow> string \<Rightarrow> signed_finalization_frame option \<Rightarrow> json
     \<Rightarrow> signed_finalization_frame client_proc" where
  "accept_signed E authority request known v =
     (if known \<noteq> None then throw Protocol
      else and_then (decoded Protocol (signed_frame_from_value E v)) (\<lambda>frame.
        if \<not> validate_signed_finalization_frame_v1 E frame then throw Protocol
        else and_then (acknowledge_archive E authority request frame) (\<lambda>_. ret frame)))"

definition finalization_matches :: "terminal_frame \<Rightarrow> signed_finalization_frame option \<Rightarrow> bool" where
  "finalization_matches t known =
     (case (tf_finalization t, known) of
        (Some fin, Some frame) \<Rightarrow>
          sf_finalization (sff_signed_finalization frame) = fin \<and> sff_invocation_id frame = tf_invocation_id t
      | (None, None) \<Rightarrow> True
      | _ \<Rightarrow> False)"

definition accept_terminal ::
  "'x client_env_scheme \<Rightarrow> signed_finalization_frame option \<Rightarrow> json \<Rightarrow> terminal_frame client_proc" where
  "accept_terminal E known v =
     and_then (decoded Protocol (terminal_from_value E v)) (\<lambda>t.
       if \<not> validate_launcher_terminal_frame_v1 E t then throw Protocol
       else if \<not> finalization_matches t known then throw Protocol
       else and_then reject_queued_trailing_frame (\<lambda>_.
            and_then (acknowledge_terminal E t) (\<lambda>_. ret t)))"

text \<open>One iteration of the loop: it goes on with a new number and finalization, or returns a terminal.\<close>

definition session_round ::
  "'x client_env_scheme \<Rightarrow> string \<Rightarrow> string \<Rightarrow> 64 word \<Rightarrow> signed_finalization_frame option
     \<Rightarrow> (64 word \<times> signed_finalization_frame option + terminal_frame) client_proc" where
  "session_round E authority request n known =
     and_then (client_read_typed_frame E (value_from_slice E)) (\<lambda>v.
       if json_message_kind v = Some (protocol_constant E ''LAUNCHER_OUTPUT'')
       then and_then (accept_output E n v) (\<lambda>n'. ret (Inl (n', known)))
       else if json_message_kind v = Some (protocol_constant E ''LAUNCHER_SIGNED_EXECUTION_FINALIZATION'')
       then and_then (accept_signed E authority request known v) (\<lambda>frame. ret (Inl (n, Some frame)))
       else if json_message_kind v = Some (protocol_constant E ''LAUNCHER_TERMINAL'')
       then and_then (accept_terminal E known v) (\<lambda>t. ret (Inr t))
       else throw Protocol)"

text \<open>Every iteration takes a frame off the stream, so the loop ends with the bytes that arrive.\<close>

lemma client_read_exact_Ok:
  "client_read_exact n e s = (Ok bs, s') \<Longrightarrow>
     length bs = n \<and> (\<exists>es. s' = s\<lparr>cl_in := es\<rparr> \<and> pending (cl_in s) = bs @ pending es)"
  by (auto simp: client_read_exact_def split: prod.splits option.splits dest: read_exact_until_Some)

declare decoded_Ok_iff [simp]

lemma client_read_typed_frame_Ok:
  assumes "client_read_typed_frame E parse s = (Ok a, s')"
  obtains header payload body es where "s' = s\<lparr>cl_in := es\<rparr>" "pending (cl_in s) = header @ payload @ pending es"
    "length header = 4" "decode_frame E (header @ payload) = Some body" "parse body = Some a"
proof -
  from assms obtain header s1 payload body where h: "client_read_exact 4 ServiceUnavailable s = (Ok header, s1)"
    and b: "client_read_exact (from_be_bytes header) OutputIncomplete s1 = (Ok payload, s')"
    and d: "decode_frame E (header @ payload) = Some body" "parse body = Some a"
    by (auto simp: client_read_typed_frame_def and_then_Ok_iff Let_def split: if_splits)
  from client_read_exact_Ok [OF h] obtain es1 where "length header = 4" "s1 = s\<lparr>cl_in := es1\<rparr>"
    "pending (cl_in s) = header @ pending es1" by blast
  with client_read_exact_Ok [OF b] d that show ?thesis by auto
qed

text \<open>
  What an operation says and hears. \<open>says s A s'\<close>: it kept the connection and sent \<open>A\<close>. \<open>hears s s'\<close>:
  it took bytes off the front of the stream only. \<open>arrived\<close>: the stream carries a frame of that value.
\<close>

definition says :: "client \<Rightarrow> client_message list \<Rightarrow> client \<Rightarrow> bool" where
  "says s A s' \<longleftrightarrow> cl_connection s' = cl_connection s \<and> cl_connects s' = cl_connects s \<and>
     cl_sent s' = cl_sent s @ A"

definition hears :: "client \<Rightarrow> client \<Rightarrow> bool" where
  "hears s s' \<longleftrightarrow> suffix (pending (cl_in s')) (pending (cl_in s))"

definition arrived :: "'x wire_env_scheme \<Rightarrow> (string \<Rightarrow> 'a option) \<Rightarrow> string \<Rightarrow> 'a \<Rightarrow> bool" where
  "arrived E parse bytes a \<longleftrightarrow>
     (\<exists>pre frame rest body. bytes = pre @ frame @ rest \<and> decode_frame E frame = Some body \<and> parse body = Some a)"

definition tells ::
  "'a client_proc \<Rightarrow> client \<Rightarrow> ('a \<Rightarrow> client_message list \<Rightarrow> bool) \<Rightarrow> (client_message list \<Rightarrow> bool) \<Rightarrow> bool" where
  "tells m s Q Q' \<longleftrightarrow> (\<forall>r s'. m s = (r, s') \<longrightarrow>
     (\<exists>A. says s A s' \<and> (case r of Ok a \<Rightarrow> Q a A \<and> hears s s' | Err e \<Rightarrow> Q' A | Crashed \<Rightarrow> False)))"

lemma tellsI:
  assumes "\<And>r s'. m s = (r, s') \<Longrightarrow>
     \<exists>A. says s A s' \<and> (case r of Ok a \<Rightarrow> Q a A \<and> hears s s' | Err e \<Rightarrow> Q' A | Crashed \<Rightarrow> False)"
  shows "tells m s Q Q'"
  using assms by (simp add: tells_def)

lemma tellsE:
  assumes "tells m s Q Q'" and "m s = (r, s')"
  obtains A where "says s A s'" "case r of Ok a \<Rightarrow> Q a A \<and> hears s s' | Err e \<Rightarrow> Q' A | Crashed \<Rightarrow> False"
  using assms by (auto simp: tells_def)

lemma tells_mono:
  assumes "tells m s P P'" and "\<And>a A. P a A \<Longrightarrow> Q a A" and "\<And>A. P' A \<Longrightarrow> Q' A"
  shows "tells m s Q Q'"
proof (rule tellsI)
  fix r s' assume "m s = (r, s')"
  with assms(1) obtain A where "says s A s'"
    "case r of Ok a \<Rightarrow> P a A \<and> hears s s' | Err e \<Rightarrow> P' A | Crashed \<Rightarrow> False" by (rule tellsE)
  with assms(2,3) show "\<exists>A. says s A s' \<and> (case r of Ok a \<Rightarrow> Q a A \<and> hears s s' | Err e \<Rightarrow> Q' A | Crashed \<Rightarrow> False)"
    by (intro exI [of _ A]) (auto split: outcome.splits)
qed

lemma says_append: "says s A s1 \<Longrightarrow> says s1 B s2 \<Longrightarrow> says s (A @ B) s2"
  by (simp add: says_def)

lemma hears_trans: "hears s s1 \<Longrightarrow> hears s1 s2 \<Longrightarrow> hears s s2"
  unfolding hears_def by (rule suffix_order.order_trans)

lemma arrived_suffix: "suffix b bytes \<Longrightarrow> arrived E parse b a \<Longrightarrow> arrived E parse bytes a"
  unfolding arrived_def suffix_def by (metis append.assoc)

lemma arrived_later: "hears s s1 \<Longrightarrow> arrived E parse (pending (cl_in s1)) a \<Longrightarrow> arrived E parse (pending (cl_in s)) a"
  unfolding hears_def by (rule arrived_suffix)

lemma tells_basic [simp]:
  "tells (ret a) s Q Q' \<longleftrightarrow> Q a []" "tells (throw e) s Q Q' \<longleftrightarrow> Q' []"
  by (auto simp: tells_def says_def hears_def)

lemma tells_then:
  assumes "tells m s P P'"
    and "\<And>a A s1. P a A \<Longrightarrow> m s = (Ok a, s1) \<Longrightarrow> hears s s1 \<Longrightarrow>
      tells (f a) s1 (\<lambda>b B. Q b (A @ B)) (\<lambda>B. Q' (A @ B))"
    and "\<And>A. P' A \<Longrightarrow> Q' A"
  shows "tells (and_then m f) s Q Q'"
proof (rule tellsI)
  fix r s' assume run: "and_then m f s = (r, s')"
  obtain r1 s1 where m: "m s = (r1, s1)" by fastforce
  with assms(1) obtain A where A: "says s A s1"
    "case r1 of Ok a \<Rightarrow> P a A \<and> hears s s1 | Err e \<Rightarrow> P' A | Crashed \<Rightarrow> False" by (rule tellsE)
  show "\<exists>A. says s A s' \<and> (case r of Ok a \<Rightarrow> Q a A \<and> hears s s' | Err e \<Rightarrow> Q' A | Crashed \<Rightarrow> False)"
  proof (cases r1)
    case (Ok a)
    with A m run assms(2) [of a A s1] have "tells (f a) s1 (\<lambda>b B. Q b (A @ B)) (\<lambda>B. Q' (A @ B))"
      and f: "f a s1 = (r, s')" and h: "hears s s1" by (auto simp: and_then_def)
    then obtain B where "says s1 B s'"
      "case r of Ok b \<Rightarrow> Q b (A @ B) \<and> hears s1 s' | Err e \<Rightarrow> Q' (A @ B) | Crashed \<Rightarrow> False"
      by (auto elim: tellsE)
    with A(1) h show ?thesis
      by (intro exI [of _ "A @ B"]) (auto intro: says_append hears_trans split: outcome.splits)
  qed (use A m run assms(3) in \<open>auto simp: and_then_def\<close>)
qed

lemma tells_then_ret: "tells m s (\<lambda>_. Q a) Q' \<Longrightarrow> tells (and_then m (\<lambda>_. ret a)) s Q Q'"
  by (erule tells_then) auto

lemma tells_decoded: "tells (decoded e x) s (\<lambda>a A. x = Some a \<and> A = []) (\<lambda>A. A = [])"
  by (rule tellsI) (auto simp: says_def hears_def decoded_def split: option.splits)

lemma tells_read_exact: "tells (client_read_exact n e) s (\<lambda>_ A. A = []) (\<lambda>A. A = [])"
  by (rule tellsI)
     (auto simp: says_def hears_def suffix_def client_read_exact_def split: prod.splits option.splits
       dest: read_exact_until_Some)

lemma tells_read:
  "tells (client_read_typed_frame E parse) s
     (\<lambda>a A. A = [] \<and> arrived E parse (pending (cl_in s)) a) (\<lambda>A. A = [])"
proof -
  have quiet: "tells (client_read_typed_frame E parse) s (\<lambda>_ A. A = []) (\<lambda>A. A = [])"
    unfolding client_read_typed_frame_def Let_def
    by (rule tells_then [OF tells_read_exact])
       (auto intro!: tells_then [OF tells_read_exact] tells_then [OF tells_decoded] intro: tells_mono [OF tells_decoded])
  have "arrived E parse (pending (cl_in s)) a" if "client_read_typed_frame E parse s = (Ok a, s')" for a s'
    using that by (rule client_read_typed_frame_Ok) (unfold arrived_def, metis append.assoc append_Nil)
  with quiet show ?thesis unfolding tells_def by (force split: outcome.splits)
qed

lemma tells_write:
  "tells (client_write_typed_frame E m) s (\<lambda>_ A. A = [m]) (\<lambda>A. A = [] \<or> A = [m])"
  by (rule tellsI) (auto simp: client_write_typed_frame_def Let_def says_def hears_def split: option.splits if_splits)

lemma tells_local:
  "tells (write_output st bs) s (\<lambda>_ A. A = []) (\<lambda>A. A = [])"
  "tells (flush st) s (\<lambda>_ A. A = []) (\<lambda>A. A = [])"
  "tells reject_queued_trailing_frame s (\<lambda>_ A. A = []) (\<lambda>A. A = [])"
  by (rule tellsI; auto simp: write_output_def flush_def reject_queued_trailing_frame_def Let_def says_def hears_def
      split: list.splits option.splits peeked.splits)+

lemma tells_output: "tells (accept_output E n v) s (\<lambda>_ A. A = []) (\<lambda>A. A = [])"
  unfolding accept_output_def
  by (rule tells_then [OF tells_decoded])
     (auto intro!: tells_then [OF tells_local(1)] tells_then [OF tells_local(2)])

lemma tells_archive:
  "tells (acknowledge_archive E a rid frame) s
     (\<lambda>_ A. \<exists>q resp p. client_archive_request E a rid frame = Some q \<and>
        arrived E (archive_response_from_slice E) (pending (cl_in s)) resp \<and> \<not> response_refused E frame q resp \<and>
        client_archive_persistence E q resp = Some p \<and> A = [ArchiveRequestMsg q, ArchivePersistenceMsg p])
     (\<lambda>A. A = [] \<or> (\<exists>q. client_archive_request E a rid frame = Some q \<and>
        (A = [ArchiveRequestMsg q] \<or>
         (\<exists>resp p. arrived E (archive_response_from_slice E) (pending (cl_in s)) resp \<and> \<not> response_refused E frame q resp \<and>
            client_archive_persistence E q resp = Some p \<and> A = [ArchiveRequestMsg q, ArchivePersistenceMsg p]))))"
  unfolding acknowledge_archive_def
  apply (rule tells_then [OF tells_decoded])
   apply (rule tells_then [OF tells_write])
    apply (rule tells_then [OF tells_read])
     apply (auto intro!: tells_then [OF tells_decoded] tells_mono [OF tells_write] dest: arrived_later)
  done


lemma session_round_parts:
  assumes "session_round E a rid n known s = (Ok (Inl x), s')"
  obtains v s1 where "client_read_typed_frame E (value_from_slice E) s = (Ok v, s1)" "hears s1 s'"
proof -
  from assms obtain v s1 where v: "client_read_typed_frame E (value_from_slice E) s = (Ok v, s1)"
    and rest: "(\<exists>n'. accept_output E n v s1 = (Ok n', s')) \<or> (\<exists>f. accept_signed E a rid known v s1 = (Ok f, s'))"
    by (auto simp: session_round_def and_then_Ok_iff split: if_splits)
  from rest have "hears s1 s'"
  proof
    assume "\<exists>n'. accept_output E n v s1 = (Ok n', s')"
    then show ?thesis by (auto elim!: tellsE [OF tells_output])
  next
    assume "\<exists>f. accept_signed E a rid known v s1 = (Ok f, s')"
    then show ?thesis
      by (auto simp: accept_signed_def and_then_Ok_iff split: if_splits elim!: tellsE [OF tells_archive])
  qed
  with v that show ?thesis by blast
qed

lemma session_round_hears: "session_round E a rid n known s = (Ok (Inl x), s') \<Longrightarrow> hears s s'"
  by (erule session_round_parts) (auto elim!: tellsE [OF tells_read] intro: hears_trans)

lemma session_round_shortens:
  assumes "session_round E a rid n known s = (Ok (Inl x), s')"
  shows "length (pending (cl_in s')) < length (pending (cl_in s))"
  using assms
proof (rule session_round_parts)
  fix v s1 assume v: "client_read_typed_frame E (value_from_slice E) s = (Ok v, s1)" and "hears s1 s'"
  from v have "length (pending (cl_in s1)) < length (pending (cl_in s))" by (rule client_read_typed_frame_Ok) auto
  moreover from \<open>hears s1 s'\<close> have "length (pending (cl_in s')) \<le> length (pending (cl_in s1))"
    by (auto simp: hears_def intro: suffix_length_le)
  ultimately show ?thesis by simp
qed

function session_loop ::
  "'x client_env_scheme \<Rightarrow> string \<Rightarrow> string \<Rightarrow> 64 word \<Rightarrow> signed_finalization_frame option \<Rightarrow> terminal_frame client_proc" where
  "session_loop E authority request n known s =
     (case session_round E authority request n known s of
        (Ok (Inl (n', known')), s1) \<Rightarrow> session_loop E authority request n' known' s1
      | (Ok (Inr t), s1) \<Rightarrow> (Ok t, s1)
      | (Err e, s1) \<Rightarrow> (Err e, s1)
      | (Crashed, s1) \<Rightarrow> (Crashed, s1))"
  by pat_completeness auto
termination
  by (relation "measure (\<lambda>(E, a, rid, n, known, s). length (pending (cl_in s)))")
     (auto dest: session_round_shortens [OF sym])

declare session_loop.simps [simp del]

definition read_session :: "'x client_env_scheme \<Rightarrow> string \<Rightarrow> string \<Rightarrow> terminal_frame client_proc" where
  "read_session E authority request = session_loop E authority request 0 None"


section \<open>Recovery\<close>

definition client_recovery_request :: "'x client_env_scheme \<Rightarrow> string \<Rightarrow> string \<Rightarrow> recovery_request option" where
  "client_recovery_request E authority request =
     (let q = \<lparr>ry_schema_version = 1, ry_message_kind = protocol_constant E ''LAUNCHER_FINALIZATION_RECOVERY_REQUEST'',
        ry_request_identity = [], ry_authority_id = authority, ry_launcher_request_identity = request\<rparr> in
      map_option (\<lambda>i. q\<lparr>ry_request_identity := i\<rparr>) (recovery_request_v1_identity E q))"

definition observe_then_acknowledge ::
  "('a \<Rightarrow> client_error + unit) \<Rightarrow> ('a \<Rightarrow> unit client_proc) \<Rightarrow> 'a \<Rightarrow> unit client_proc" where
  "observe_then_acknowledge observer acknowledger x =
     and_then (lift_result (observer x)) (\<lambda>_. acknowledger x)"

text \<open>The exchange over an open connection, after the request has been built.\<close>

definition recovery_exchange ::
  "'x client_env_scheme \<Rightarrow> string \<Rightarrow> string \<Rightarrow> (terminal_frame \<Rightarrow> client_error + unit) \<Rightarrow> terminal_frame client_proc" where
  "recovery_exchange E authority request observer =
     and_then (client_read_typed_frame E (signed_frame_from_slice E)) (\<lambda>frame.
       if \<not> validate_signed_finalization_frame_v1 E frame then throw Protocol
       else
     and_then (acknowledge_archive E authority request frame) (\<lambda>_.
     and_then (client_read_typed_frame E (terminal_from_slice E)) (\<lambda>t.
       if \<not> validate_launcher_terminal_frame_v1 E t then throw Protocol
       else if tf_finalization t \<noteq> Some (sf_finalization (sff_signed_finalization frame)) then throw Protocol
       else and_then (observe_then_acknowledge observer (acknowledge_terminal E) t) (\<lambda>_. ret t))))"

definition recover_finalization ::
  "'x client_env_scheme \<Rightarrow> string \<Rightarrow> string \<Rightarrow> (terminal_frame \<Rightarrow> client_error + unit) \<Rightarrow> terminal_frame client_proc" where
  "recover_finalization E authority request observer =
     and_then (decoded Protocol (client_recovery_request E authority request)) (\<lambda>q.
     and_then connect_fixed_launcher (\<lambda>_.
     and_then (client_write_typed_frame E (RecoveryRequestMsg q)) (\<lambda>_.
       recovery_exchange E authority request observer)))"


section \<open>Invocations\<close>

definition validate_authority_label :: "string \<Rightarrow> client_error + unit" where
  "validate_authority_label v = (if is_bounded_label v then Inr () else Inl Usage)"

definition validate_ota_arguments :: "string list \<Rightarrow> client_error + unit" where
  "validate_ota_arguments args =
     (if (case args of a # _ \<Rightarrow> a = ''run'' \<or> a = ''up'' | [] \<Rightarrow> False)
         \<or> (case args of p # k # _ \<Rightarrow> p = ''proof'' \<and> (k = ''runtime'' \<or> k = ''lifecycle'') | _ \<Rightarrow> False)
      then Inr () else Inl Usage)"

text \<open>The checks and the request that an invocation and a recovery have in common.\<close>

definition prepare_invocation ::
  "'x client_env_scheme \<Rightarrow> invocation_request \<Rightarrow> client_error + launcher_invocation \<times> string" where
  "prepare_invocation E req =
     (case validate_authority_label (iq_authority_id req) of
        Inl e \<Rightarrow> Inl e
      | Inr _ \<Rightarrow>
     (case validate_ota_arguments (iq_ota_arguments req) of
        Inl e \<Rightarrow> Inl e
      | Inr _ \<Rightarrow>
     (case canonical_repository E (iq_repository req) of
        None \<Rightarrow> Inl Usage
      | Some repository \<Rightarrow>
         (let i = \<lparr>li_message_kind = protocol_constant E ''LAUNCHER_INVOCATION_REQUEST'',
            li_protocol_version = protocol_constant E ''SYSTEMD_LAUNCHER_SERVICE_PROTOCOL_V1'',
            li_authority_id = iq_authority_id req, li_ota_arguments = iq_ota_arguments req,
            li_repository_path = repository\<rparr> in
          if \<not> validate_launcher_invocation_request_v1 E i then Inl Usage
          else (case launcher_invocation_request_identity E i of
                  None \<Rightarrow> Inl Usage
                | Some rid \<Rightarrow> Inr (i, rid))))))"

definition should_attempt_recovery :: "client_error \<Rightarrow> recovery_policy \<Rightarrow> bool" where
  "should_attempt_recovery e policy \<longleftrightarrow>
     policy = Immediate \<and> (e = ServiceUnavailable \<or> e = OutputIncomplete)"

text \<open>The session that follows the invocation, and the recovery after it.\<close>

definition invoke_session ::
  "'x client_env_scheme \<Rightarrow> string \<Rightarrow> string \<Rightarrow> recovery_policy \<Rightarrow> invocation_result client_proc" where
  "invoke_session E authority rid policy s =
     (case read_session E authority rid s of
        (Ok t, s1) \<Rightarrow>
          (Ok \<lparr>iv_ok = (tf_exit_code t = Some 0), iv_request_identity = rid, iv_output_complete = True,
               iv_terminal = t\<rparr>, s1)
      | (Err e, s1) \<Rightarrow>
          if should_attempt_recovery e policy
          then and_then (recover_finalization E authority rid (\<lambda>_. Inr ())) (\<lambda>t.
                 throw (if tf_finalization t \<noteq> None then OutputIncomplete else ServiceUnavailable)) s1
          else (Err e, s1)
      | (Crashed, s1) \<Rightarrow> (Crashed, s1))"

definition invoke_with_writers ::
  "'x client_env_scheme \<Rightarrow> invocation_request \<Rightarrow> recovery_policy \<Rightarrow> invocation_result client_proc" where
  "invoke_with_writers E req policy =
     and_then (lift_result (prepare_invocation E req)) (\<lambda>(i, rid).
     and_then connect_fixed_launcher (\<lambda>_.
     and_then (client_write_typed_frame E (InvocationRequestMsg i)) (\<lambda>_.
       invoke_session E (iq_authority_id req) rid policy)))"

definition recover_invocation_with_observer ::
  "'x client_env_scheme \<Rightarrow> invocation_request \<Rightarrow> (invocation_result \<Rightarrow> client_error + unit) \<Rightarrow> invocation_result client_proc" where
  "recover_invocation_with_observer E req observer =
     and_then (lift_result (prepare_invocation E req)) (\<lambda>(i, rid).
       let result = (\<lambda>t. \<lparr>iv_ok = (tf_exit_code t = Some 0), iv_request_identity = rid, iv_output_complete = False,
         iv_terminal = t\<rparr>) in
       and_then (recover_finalization E (iq_authority_id req) rid (\<lambda>t. observer (result t))) (\<lambda>t. ret (result t)))"

text \<open>The exit status of the binary. \<open>printed\<close> says whether the result could be rendered as JSON.\<close>

definition client_main :: "bool \<Rightarrow> bool \<Rightarrow> client_error + invocation_result \<Rightarrow> nat" where
  "client_main json printed r =
     (case r of
        Inr result \<Rightarrow>
          if json \<and> \<not> printed then 70
          else (case tf_exit_code (iv_terminal result) of
                  Some c \<Rightarrow> if 0 \<le> c \<and> c \<le> 255 then nat c else 70
                | None \<Rightarrow> 70)
      | Inl e \<Rightarrow> exit_code e)"



section \<open>What the client says in a session\<close>

text \<open>
  The protocol from the client's side, as an abstract state machine. \<open>F\<close>, \<open>R\<close> and \<open>T\<close> say which signed
  finalizations, archive responses and terminal frames have arrived. An archive is requested for a
  valid finalization, its persistence confirmed for a response bound to that request, and a terminal
  frame acknowledged that carries exactly this finalization. A direct session also compares the
  invocations and accepts a terminal frame without a finalization, which is not acknowledged.
\<close>

datatype session_phase =
    Listening
  | Asked signed_finalization_frame archive_request
  | Confirmed signed_finalization_frame
  | Concluded terminal_frame

definition same_invocation :: "bool \<Rightarrow> signed_finalization_frame \<Rightarrow> terminal_frame \<Rightarrow> bool" where
  "same_invocation direct frame t \<longleftrightarrow> direct \<longrightarrow> sff_invocation_id frame = tf_invocation_id t"

inductive converses ::
  "'x client_env_scheme \<Rightarrow> string \<Rightarrow> string \<Rightarrow> bool \<Rightarrow> (signed_finalization_frame \<Rightarrow> bool) \<Rightarrow> (archive_response \<Rightarrow> bool)
     \<Rightarrow> (terminal_frame \<Rightarrow> bool) \<Rightarrow> session_phase \<Rightarrow> client_message list \<Rightarrow> bool"
  for E a rid direct F R T where
  listen: "converses E a rid direct F R T Listening []"
| ask: "converses E a rid direct F R T Listening A \<Longrightarrow> F frame \<Longrightarrow> validate_signed_finalization_frame_v1 E frame \<Longrightarrow>
    client_archive_request E a rid frame = Some q \<Longrightarrow>
    converses E a rid direct F R T (Asked frame q) (A @ [ArchiveRequestMsg q])"
| confirm: "converses E a rid direct F R T (Asked frame q) A \<Longrightarrow> R resp \<Longrightarrow> \<not> response_refused E frame q resp \<Longrightarrow>
    client_archive_persistence E q resp = Some p \<Longrightarrow>
    converses E a rid direct F R T (Confirmed frame) (A @ [ArchivePersistenceMsg p])"
| conclude: "converses E a rid direct F R T (Confirmed frame) A \<Longrightarrow> T t \<Longrightarrow> validate_launcher_terminal_frame_v1 E t \<Longrightarrow>
    tf_finalization t = Some (sf_finalization (sff_signed_finalization frame)) \<Longrightarrow> same_invocation direct frame t \<Longrightarrow>
    client_terminal_persistence E t = Some tp \<Longrightarrow>
    converses E a rid direct F R T (Concluded t) (A @ [TerminalPersistenceMsg tp])"
| refused: "direct \<Longrightarrow> converses E a rid direct F R T Listening A \<Longrightarrow> T t \<Longrightarrow> validate_launcher_terminal_frame_v1 E t \<Longrightarrow>
    tf_finalization t = None \<Longrightarrow> converses E a rid direct F R T (Concluded t) A"

lemma converses_mono:
  assumes "converses E a rid direct F R T ph A"
    and "\<And>x. F x \<Longrightarrow> F' x" and "\<And>x. R x \<Longrightarrow> R' x" and "\<And>x. T x \<Longrightarrow> T' x"
  shows "converses E a rid direct F' R' T' ph A"
  using assms(1) by induction (auto intro: converses.intros assms(2-))

text \<open>The archive exchange takes a listening client to a confirmed one.\<close>

lemma converses_archive:
  assumes "F frame" "validate_signed_finalization_frame_v1 E frame"
    and "\<And>x. arrived E (archive_response_from_slice E) (pending (cl_in s)) x \<Longrightarrow> R x"
    and "converses E a rid direct F R T Listening A0"
  shows "tells (acknowledge_archive E a rid frame) s
    (\<lambda>_ A. converses E a rid direct F R T (Confirmed frame) (A0 @ A))
    (\<lambda>A. \<exists>ph. converses E a rid direct F R T ph (A0 @ A))"
proof -
  have asked: "converses E a rid direct F R T (Asked frame q) (A0 @ [ArchiveRequestMsg q])"
    if "client_archive_request E a rid frame = Some q" for q
    using that assms by (auto intro: converses.ask)
  have confirmed: "converses E a rid direct F R T (Confirmed frame) (A0 @ [ArchiveRequestMsg q, ArchivePersistenceMsg p])"
    if "client_archive_request E a rid frame = Some q" "\<not> response_refused E frame q resp"
      "arrived E (archive_response_from_slice E) (pending (cl_in s)) resp" "client_archive_persistence E q resp = Some p"
    for q resp p
    using converses.confirm [OF asked [OF that(1)] _ that(2,4)] assms(3) that(3) by simp
  show ?thesis
  proof (rule tells_mono [OF tells_archive], goal_cases)
    case (1 u A)
    then show ?case using confirmed by blast
  next
    case (2 A)
    then show ?case using asked confirmed assms(4) by (metis append_Nil2)
  qed
qed

lemma converses_terminal:
  assumes "T t" "validate_launcher_terminal_frame_v1 E t" "same_invocation direct frame t"
    and "tf_finalization t = Some (sf_finalization (sff_signed_finalization frame))"
    and "converses E a rid direct F R T (Confirmed frame) A0"
  shows "tells (acknowledge_terminal E t) s
    (\<lambda>_ A. converses E a rid direct F R T (Concluded t) (A0 @ A))
    (\<lambda>A. \<exists>ph. converses E a rid direct F R T ph (A0 @ A))"
proof -
  have concluded: "converses E a rid direct F R T (Concluded t) (A0 @ [TerminalPersistenceMsg tp])"
    if "client_terminal_persistence E t = Some tp" for tp
    using that assms by (auto intro: converses.conclude)
  have "tells (client_write_typed_frame E (TerminalPersistenceMsg tp)) s'
      (\<lambda>_ A. converses E a rid direct F R T (Concluded t) (A0 @ A))
      (\<lambda>A. \<exists>ph. converses E a rid direct F R T ph (A0 @ A))"
    if "client_terminal_persistence E t = Some tp" for s' tp
    by (rule tells_mono [OF tells_write]) (use concluded [OF that] assms(5) in auto)
  with assms(4,5) show ?thesis unfolding acknowledge_terminal_def
    by (auto intro!: tells_then [OF tells_decoded])
qed


abbreviation heard_value :: "'x client_env_scheme \<Rightarrow> (json \<Rightarrow> 'a option) \<Rightarrow> string \<Rightarrow> 'a \<Rightarrow> bool" where
  "heard_value E parse \<equiv> arrived E (\<lambda>b. Option.bind (value_from_slice E b) parse)"

lemma heard_valueI:
  "arrived E (value_from_slice E) bytes v \<Longrightarrow> parse v = Some x \<Longrightarrow> heard_value E parse bytes x"
  unfolding arrived_def by (metis bind.bind_lunit)

abbreviation direct_session :: "'x client_env_scheme \<Rightarrow> string \<Rightarrow> string \<Rightarrow> string \<Rightarrow> session_phase \<Rightarrow> client_message list \<Rightarrow> bool" where
  "direct_session E a rid bytes \<equiv> converses E a rid True (heard_value E (signed_frame_from_value E) bytes)
     (arrived E (archive_response_from_slice E) bytes) (heard_value E (terminal_from_value E) bytes)"

definition spoken :: "'x client_env_scheme \<Rightarrow> string \<Rightarrow> string \<Rightarrow> string \<Rightarrow> client_message list \<Rightarrow> bool" where
  "spoken E a rid bytes A \<longleftrightarrow> (\<exists>ph. direct_session E a rid bytes ph A)"

lemma spokenI: "direct_session E a rid bytes ph A \<Longrightarrow> spoken E a rid bytes A"
  by (auto simp: spoken_def)

text \<open>The phase a round starts in, and the one it ends in.\<close>

fun known_phase :: "signed_finalization_frame option \<Rightarrow> session_phase" where
  "known_phase None = Listening"
| "known_phase (Some frame) = Confirmed frame"

lemma tells_accept_terminal:
  assumes "direct_session E a rid bytes (known_phase known) A0"
    and "\<And>x. terminal_from_value E v = Some x \<Longrightarrow> heard_value E (terminal_from_value E) bytes x"
  shows "tells (accept_terminal E known v) s
    (\<lambda>t A. direct_session E a rid bytes (Concluded t) (A0 @ A)) (\<lambda>A. spoken E a rid bytes (A0 @ A))"
proof -
  have "tells (acknowledge_terminal E t) s' (\<lambda>_ A. direct_session E a rid bytes (Concluded t) (A0 @ A))
      (\<lambda>A. spoken E a rid bytes (A0 @ A))"
    if "terminal_from_value E v = Some t" "validate_launcher_terminal_frame_v1 E t" "finalization_matches t known" for t s'
  proof (cases known)
    case None
    with that(3) have "tf_finalization t = None" by (auto simp: finalization_matches_def split: option.splits)
    moreover from this have "direct_session E a rid bytes (Concluded t) A0"
      using assms None that by (intro converses.refused) auto
    ultimately show ?thesis by (simp add: acknowledge_terminal_def spokenI)
  next
    case (Some frame)
    with that(3) have "tf_finalization t = Some (sf_finalization (sff_signed_finalization frame))"
      "same_invocation True frame t"
      by (auto simp: finalization_matches_def same_invocation_def split: option.splits)
    with Some assms that show ?thesis unfolding spoken_def by (intro converses_terminal) auto
  qed
  moreover have "spoken E a rid bytes A0" using assms(1) by (rule spokenI)
  ultimately show ?thesis unfolding accept_terminal_def
    by (auto intro!: tells_then [OF tells_decoded] tells_then [OF tells_local(3)] tells_then_ret)
qed


lemma tells_accept_signed:
  assumes "direct_session E a rid bytes (known_phase known) A0" and "suffix (pending (cl_in s)) bytes"
    and "\<And>x. signed_frame_from_value E v = Some x \<Longrightarrow> heard_value E (signed_frame_from_value E) bytes x"
  shows "tells (accept_signed E a rid known v) s
    (\<lambda>frame A. direct_session E a rid bytes (Confirmed frame) (A0 @ A)) (\<lambda>A. spoken E a rid bytes (A0 @ A))"
proof -
  have some: "spoken E a rid bytes A0" using assms(1) by (rule spokenI)
  have "tells (acknowledge_archive E a rid frame) s
      (\<lambda>_ A. direct_session E a rid bytes (Confirmed frame) (A0 @ A)) (\<lambda>A. spoken E a rid bytes (A0 @ A))"
    if "signed_frame_from_value E v = Some frame" "validate_signed_finalization_frame_v1 E frame" "known = None" for frame
    unfolding spoken_def by (rule converses_archive) (use that assms arrived_suffix in auto)
  with some show ?thesis unfolding accept_signed_def
    by (auto intro!: tells_then [OF tells_decoded] tells_then_ret)
qed

lemma tells_session_round:
  assumes "direct_session E a rid bytes (known_phase known) A0" and "suffix (pending (cl_in s)) bytes"
  shows "tells (session_round E a rid n known) s
    (\<lambda>x A. direct_session E a rid bytes (case x of Inl (n', known') \<Rightarrow> known_phase known' | Inr t \<Rightarrow> Concluded t) (A0 @ A))
    (\<lambda>A. spoken E a rid bytes (A0 @ A))"
  unfolding session_round_def
proof (rule tells_then [OF tells_read], goal_cases)
  case (1 v A s1)
  then have "arrived E (value_from_slice E) bytes v" by (intro arrived_suffix [OF assms(2)]) simp
  note heard = heard_valueI [OF this]
  have near: "suffix (pending (cl_in s1)) bytes"
    using 1(3) assms(2) unfolding hears_def by (rule suffix_order.order_trans)
  have some: "spoken E a rid bytes A0" using assms(1) by (rule spokenI)
  from 1(1) some assms(1) show ?case
    by (auto intro!: tells_then [OF tells_output] tells_then [OF tells_accept_signed [OF assms(1) near heard]]
        tells_then [OF tells_accept_terminal [OF assms(1) heard]])
next
  case (2 A)
  then show ?case using assms(1) by (simp add: spokenI)
qed

lemma session_loop_converses:
  "direct_session E a rid bytes (known_phase known) A0 \<Longrightarrow> suffix (pending (cl_in s)) bytes \<Longrightarrow>
   tells (session_loop E a rid n known) s
     (\<lambda>t A. direct_session E a rid bytes (Concluded t) (A0 @ A)) (\<lambda>A. spoken E a rid bytes (A0 @ A))"
proof (induction E a rid n known s arbitrary: A0 rule: session_loop.induct)
  case (1 E a rid n known s)
  note one = tells_session_round [OF "1.prems"]
  show ?case
  proof (rule tellsI)
    fix r s' assume run: "session_loop E a rid n known s = (r, s')"
    obtain r1 s1 where round: "session_round E a rid n known s = (r1, s1)" by fastforce
    with one obtain A where A: "says s A s1" and q: "case r1 of
        Ok x \<Rightarrow> direct_session E a rid bytes (case x of Inl (n', known') \<Rightarrow> known_phase known' | Inr t \<Rightarrow> Concluded t) (A0 @ A) \<and> hears s s1
      | Err e \<Rightarrow> spoken E a rid bytes (A0 @ A) | Crashed \<Rightarrow> False" by (rule tellsE)
    note run = run [unfolded session_loop.simps [of E a rid n known s] round prod.case]
    show "\<exists>A. says s A s' \<and> (case r of Ok t \<Rightarrow> direct_session E a rid bytes (Concluded t) (A0 @ A) \<and> hears s s'
        | Err e \<Rightarrow> spoken E a rid bytes (A0 @ A) | Crashed \<Rightarrow> False)"
    proof (cases r1)
      case (Ok x)
      show ?thesis
      proof (cases x)
        case (Inl y)
        obtain n' known' where y: "y = (n', known')" by fastforce
        with Ok Inl q have "direct_session E a rid bytes (known_phase known') (A0 @ A)" "hears s s1" by auto
        moreover from this "1.prems"(2) have "suffix (pending (cl_in s1)) bytes"
          unfolding hears_def using suffix_order.order_trans by blast
        ultimately have "tells (session_loop E a rid n' known') s1
            (\<lambda>t B. direct_session E a rid bytes (Concluded t) ((A0 @ A) @ B))
            (\<lambda>B. spoken E a rid bytes ((A0 @ A) @ B))"
          using "1.IH" [OF round [symmetric] Ok Inl y [symmetric]] by blast
        moreover from run Ok Inl y have "session_loop E a rid n' known' s1 = (r, s')" by simp
        ultimately obtain B where "says s1 B s'" "case r of
            Ok t \<Rightarrow> direct_session E a rid bytes (Concluded t) ((A0 @ A) @ B) \<and> hears s1 s'
          | Err e \<Rightarrow> spoken E a rid bytes ((A0 @ A) @ B) | Crashed \<Rightarrow> False" by (rule tellsE)
        with A \<open>hears s s1\<close> show ?thesis
          by (intro exI [of _ "A @ B"]) (auto intro: says_append hears_trans split: outcome.splits)
      next
        case (Inr t)
        with Ok run A q show ?thesis by auto
      qed
    qed (use run A q in auto)
  qed
qed


abbreviation recovery_session :: "'x client_env_scheme \<Rightarrow> string \<Rightarrow> string \<Rightarrow> string \<Rightarrow> session_phase \<Rightarrow> client_message list \<Rightarrow> bool" where
  "recovery_session E a rid bytes \<equiv> converses E a rid False (arrived E (signed_frame_from_slice E) bytes)
     (arrived E (archive_response_from_slice E) bytes) (arrived E (terminal_from_slice E) bytes)"

definition recovery_spoken :: "'x client_env_scheme \<Rightarrow> string \<Rightarrow> string \<Rightarrow> string \<Rightarrow> client_message list \<Rightarrow> bool" where
  "recovery_spoken E a rid bytes A \<longleftrightarrow> (\<exists>ph. recovery_session E a rid bytes ph A)"

lemma recovery_spokenI: "recovery_session E a rid bytes ph A \<Longrightarrow> recovery_spoken E a rid bytes A"
  by (auto simp: recovery_spoken_def)

lemma tells_lift_result: "tells (lift_result x) s (\<lambda>_ A. A = []) (\<lambda>A. A = [])"
  by (rule tellsI) (auto simp: says_def hears_def lift_result_def split: sum.splits)

lemma tells_recovery_exchange:
  "tells (recovery_exchange E a rid observer) s
     (\<lambda>t. recovery_session E a rid (pending (cl_in s)) (Concluded t)) (recovery_spoken E a rid (pending (cl_in s)))"
  unfolding recovery_exchange_def
proof (rule tells_then [OF tells_read], goal_cases)
  case (1 frame A s1)
  let ?S = "recovery_session E a rid (pending (cl_in s))" and ?P = "recovery_spoken E a rid (pending (cl_in s))"
  have start: "?S Listening []" by (rule converses.listen)
  from 1 have F: "arrived E (signed_frame_from_slice E) (pending (cl_in s)) frame" and [simp]: "A = []" by auto
  have archive: "tells (acknowledge_archive E a rid frame) s1 (\<lambda>_. ?S (Confirmed frame)) ?P"
    if "validate_signed_finalization_frame_v1 E frame"
    using converses_archive [of _ frame E s1 _ a rid False _ "[]", OF F that arrived_later [OF 1(3)] start]
    by (simp add: recovery_spoken_def [abs_def])
  have tail: "tells (and_then (client_read_typed_frame E (terminal_from_slice E)) (\<lambda>t.
       if \<not> validate_launcher_terminal_frame_v1 E t then throw Protocol
       else if tf_finalization t \<noteq> Some (sf_finalization (sff_signed_finalization frame)) then throw Protocol
       else and_then (observe_then_acknowledge observer (acknowledge_terminal E) t) (\<lambda>_. ret t))) s2
     (\<lambda>t B. ?S (Concluded t) (C @ B)) (\<lambda>B. ?P (C @ B))"
    if C: "?S (Confirmed frame) C" and "hears s1 s2" for C s2
  proof (rule tells_then [OF tells_read], goal_cases)
    case (1 t A s3)
    from 1(1) that \<open>hears s s1\<close> have T: "arrived E (terminal_from_slice E) (pending (cl_in s)) t"
      by (blast intro: arrived_later hears_trans)
    have "tells (acknowledge_terminal E t) s' (\<lambda>_ B. ?S (Concluded t) (C @ B)) (\<lambda>B. ?P (C @ B))"
      if "validate_launcher_terminal_frame_v1 E t"
        "tf_finalization t = Some (sf_finalization (sff_signed_finalization frame))" for s'
      unfolding recovery_spoken_def by (rule converses_terminal) (use that T C in \<open>auto simp: same_invocation_def\<close>)
    with 1(1) C show ?case
      by (auto intro!: tells_then_ret tells_then [OF tells_lift_result] simp: observe_then_acknowledge_def recovery_spokenI)
  qed (use C in \<open>auto simp: recovery_spokenI\<close>)
  show ?case
  proof (cases "validate_signed_finalization_frame_v1 E frame")
    case True
    from tells_then [OF archive [OF True] tail] True show ?thesis by simp
  qed (use start in \<open>simp add: recovery_spokenI\<close>)
qed (auto intro: recovery_spokenI converses.listen)



section \<open>What the client says over its connections\<close>

text \<open>A connection the client may use: a root-owned socket in a root-owned directory, served by root.\<close>

definition trusted :: "connection \<Rightarrow> bool" where
  "trusted n \<longleftrightarrow>
     (\<exists>d k c. cn_parent n = Some d \<and> n_kind d = Directory \<and> n_uid d = 0 \<and> n_mode d AND 0x12 = 0 \<and>
        cn_socket n = Some k \<and> n_kind k = Socket \<and> n_uid k = 0 \<and> n_mode k AND 0xFFF = 0x1B0 \<and>
        cn_peer n = Some c \<and> 0 < pc_pid c \<and> pc_uid c = 0 \<and> pc_gid c = 0)"

lemma socket_parent: "path_parent (components SYSTEMD_LAUNCHER_SOCKET) = Some (components ''/run/ota'')"
  by code_simp

lemma socket_not_parent: "components ''/run/ota'' \<noteq> components SYSTEMD_LAUNCHER_SOCKET"
  by code_simp

lemma connect_checks_trusted: "connect_checks n = Inr u \<Longrightarrow> trusted n"
  using socket_not_parent
  by (auto simp: connect_checks_def verify_socket_path_def verify_root_peer_def connection_metadata_def trusted_def
      socket_parent split: sum.splits option.splits if_splits)

text \<open>Over one connection: nothing, or after its checks the first message and a conversation.\<close>

definition over_connection ::
  "connection \<Rightarrow> client_message \<Rightarrow> (string \<Rightarrow> client_message list \<Rightarrow> bool) \<Rightarrow> client_message list \<Rightarrow> bool" where
  "over_connection n first P A \<longleftrightarrow>
     A = [] \<or> trusted n \<and> (\<exists>A1. A = first # A1 \<and> P (pending (cn_stream n)) A1)"

lemma over_connection_Nil [simp]: "over_connection n first P []"
  by (simp add: over_connection_def)

text \<open>Connecting, the first message and what follows it, in one step.\<close>

lemma connect_then:
  assumes "and_then connect_fixed_launcher (\<lambda>_. and_then (client_write_typed_frame E first) (\<lambda>_. m)) s = (r, s')"
    and "P (pending (cn_stream (cl_connection s (cl_connects s)))) []"
  obtains (refused) e A where "r = Err e" "cl_connection s' = cl_connection s" "cl_connects s' = Suc (cl_connects s)"
      "cl_sent s' = cl_sent s @ A" "over_connection (cl_connection s (cl_connects s)) first P A"
  | (opened) s1 where "m s1 = (r, s')" "cl_connection s1 = cl_connection s" "cl_connects s1 = Suc (cl_connects s)"
      "cl_in s1 = cn_stream (cl_connection s (cl_connects s))" "cl_sent s1 = cl_sent s @ [first]"
      "trusted (cl_connection s (cl_connects s))"
proof (cases "connect_checks (cl_connection s (cl_connects s))")
  case (Inl e)
  with assms(1) refused [of e "[]"] show ?thesis by (auto simp: and_then_def connect_fixed_launcher_def Let_def)
next
  case (Inr u)
  let ?n = "cl_connection s (cl_connects s)"
  let ?s = "s\<lparr>cl_connects := Suc (cl_connects s), cl_in := cn_stream ?n\<rparr>"
  from Inr assms(1) have run: "and_then (client_write_typed_frame E first) (\<lambda>_. m) ?s = (r, s')"
    by (simp add: and_then_def [of connect_fixed_launcher] connect_fixed_launcher_def Let_def)
  obtain r1 s1 where w: "client_write_typed_frame E first ?s = (r1, s1)" by fastforce
  note ok = connect_checks_trusted [OF Inr]
  have s1: "cl_connection s1 = cl_connection s" "cl_connects s1 = Suc (cl_connects s)" "cl_in s1 = cn_stream ?n"
    "is_Ok r1 \<Longrightarrow> cl_sent s1 = cl_sent s @ [first]"
    "cl_sent s1 = cl_sent s \<or> cl_sent s1 = cl_sent s @ [first]" "r1 \<noteq> Crashed"
    using w by (auto simp: client_write_typed_frame_def Let_def split: option.splits if_splits)
  show ?thesis
  proof (cases r1)
    case (Ok v)
    with run w have "m s1 = (r, s')" by (simp add: and_then_def)
    with Ok s1 ok opened show ?thesis by auto
  next
    case (Err e)
    with run w have "r = Err e" "s' = s1" by (simp_all add: and_then_def)
    with s1 refused [of e "[]"] refused [of e "[first]"] ok assms(2) show ?thesis by (auto simp: over_connection_def)
  qed (use s1 in simp)
qed

lemma recover_finalization_says:
  assumes "recover_finalization E a rid observer s = (r, s')"
  shows "r \<noteq> Crashed \<and> cl_connection s' = cl_connection s \<and> cl_connects s' \<le> Suc (cl_connects s) \<and>
    (\<exists>q B. cl_sent s' = cl_sent s @ B \<and>
       over_connection (cl_connection s (cl_connects s)) (RecoveryRequestMsg q) (recovery_spoken E a rid) B)"
proof (cases "client_recovery_request E a rid")
  case None
  with assms show ?thesis by (auto simp: recover_finalization_def and_then_def decoded_def intro: exI [of _ "[]"])
next
  case (Some q)
  let ?n = "cl_connection s (cl_connects s)"
  from Some assms have "and_then connect_fixed_launcher (\<lambda>_. and_then (client_write_typed_frame E (RecoveryRequestMsg q))
      (\<lambda>_. recovery_exchange E a rid observer)) s = (r, s')"
    by (simp add: recover_finalization_def and_then_def [of "decoded _ _"] decoded_def)
  then show ?thesis
  proof (rule connect_then [where P = "recovery_spoken E a rid"])
    show "recovery_spoken E a rid (pending (cn_stream ?n)) []" by (rule recovery_spokenI) (rule converses.listen)
  next
    fix s1 assume run: "recovery_exchange E a rid observer s1 = (r, s')"
      and s1: "cl_connection s1 = cl_connection s" "cl_connects s1 = Suc (cl_connects s)" "cl_in s1 = cn_stream ?n"
        "cl_sent s1 = cl_sent s @ [RecoveryRequestMsg q]" "trusted ?n"
    from tells_recovery_exchange run obtain A where "says s1 A s'" "recovery_spoken E a rid (pending (cl_in s1)) A" "r \<noteq> Crashed"
      by (rule tellsE) (auto split: outcome.splits intro: recovery_spokenI)
    with s1 show ?thesis by (auto simp: says_def over_connection_def)
  qed auto
qed

lemma read_session_says:
  assumes "read_session E a rid s = (r, s')"
  shows "r \<noteq> Crashed \<and> (\<exists>A. says s A s' \<and> spoken E a rid (pending (cl_in s)) A \<and>
    (\<forall>t. r = Ok t \<longrightarrow> direct_session E a rid (pending (cl_in s)) (Concluded t) A))"
proof -
  have "direct_session E a rid (pending (cl_in s)) (known_phase None) []" by (simp add: converses.listen)
  from session_loop_converses [OF this suffix_order.order_refl] assms [unfolded read_session_def]
  obtain A where "says s A s'" "case r of Ok t \<Rightarrow> direct_session E a rid (pending (cl_in s)) (Concluded t) ([] @ A) \<and> hears s s'
      | Err e \<Rightarrow> spoken E a rid (pending (cl_in s)) ([] @ A) | Crashed \<Rightarrow> False" by (rule tellsE)
  then show ?thesis by (auto intro: spokenI split: outcome.splits)
qed

lemma invoke_session_says:
  assumes "invoke_session E a rid policy s = (r, s')"
  shows "r \<noteq> Crashed \<and> cl_connects s' \<le> cl_connects s + (if policy = Immediate then 1 else 0) \<and>
    (\<exists>A B. cl_sent s' = cl_sent s @ A @ B \<and> spoken E a rid (pending (cl_in s)) A \<and>
       (\<exists>q. over_connection (cl_connection s (cl_connects s)) (RecoveryRequestMsg q) (recovery_spoken E a rid) B) \<and>
       (B \<noteq> [] \<longrightarrow> policy = Immediate) \<and>
       (\<forall>x. r = Ok x \<longrightarrow> B = [] \<and> cl_connects s' = cl_connects s \<and> iv_output_complete x \<and>
          iv_ok x = (tf_exit_code (iv_terminal x) = Some 0) \<and>
          direct_session E a rid (pending (cl_in s)) (Concluded (iv_terminal x)) A))"
proof -
  obtain r1 s1 where session: "read_session E a rid s = (r1, s1)" by fastforce
  from read_session_says [OF session] obtain A where A: "r1 \<noteq> Crashed" "says s A s1" "spoken E a rid (pending (cl_in s)) A"
    "\<forall>t. r1 = Ok t \<longrightarrow> direct_session E a rid (pending (cl_in s)) (Concluded t) A" by blast
  show ?thesis
  proof (cases "\<exists>e. r1 = Err e \<and> should_attempt_recovery e policy")
    case True
    obtain r2 s2 where rec: "recover_finalization E a rid (\<lambda>_. Inr ()) s1 = (r2, s2)" by fastforce
    from recover_finalization_says [OF rec] obtain q B where B: "r2 \<noteq> Crashed" "cl_connects s2 \<le> Suc (cl_connects s1)"
      "cl_sent s2 = cl_sent s1 @ B"
      "over_connection (cl_connection s1 (cl_connects s1)) (RecoveryRequestMsg q) (recovery_spoken E a rid) B" by blast
    from assms session True rec B(1) have "s' = s2" "is_Err r"
      by (auto simp: invoke_session_def and_then_def split: outcome.splits)
    with A B True show ?thesis
      by (intro conjI exI [of _ A] exI [of _ B]) (auto simp: should_attempt_recovery_def says_def)
  next
    case False
    with assms session A(1) have "s' = s1" "\<And>x. r = Ok x \<Longrightarrow> \<exists>t. r1 = Ok t \<and> iv_terminal x = t \<and> iv_output_complete x \<and>
        iv_ok x = (tf_exit_code t = Some 0)" "r \<noteq> Crashed"
      by (auto simp: invoke_session_def split: outcome.splits)
    with A show ?thesis by (intro conjI exI [of _ A] exI [of _ "[]"]) (auto simp: says_def)
  qed
qed


section \<open>Properties of an invocation\<close>

text \<open>
  C30. An invocation is sent at most once, over a trusted socket, and only what arrived is acknowledged.
  Whatever the service and the system answer: over its first connection the client sends at most
  the invocation and a conversation of the session protocol about frames that arrived there; over a
  second one, which it opens only under the immediate policy, at most a recovery request and such a
  conversation. When it reports a result, that result is the terminal frame the first conversation
  concluded with, and no second connection was made.
\<close>

theorem invoke_converses:
  assumes "invoke_with_writers E req policy s = (r, s')"
  shows "r \<noteq> Crashed \<and> cl_connects s' \<le> cl_connects s + (if policy = Immediate then 2 else 1) \<and>
    (\<exists>i rid A B. cl_sent s' = cl_sent s @ A @ B \<and>
       over_connection (cl_connection s (cl_connects s)) (InvocationRequestMsg i) (spoken E (iq_authority_id req) rid) A \<and>
       (\<exists>q. over_connection (cl_connection s (Suc (cl_connects s))) (RecoveryRequestMsg q)
         (recovery_spoken E (iq_authority_id req) rid) B) \<and>
       (B \<noteq> [] \<longrightarrow> policy = Immediate) \<and>
       (\<forall>x. r = Ok x \<longrightarrow> B = [] \<and> cl_connects s' = Suc (cl_connects s) \<and> iv_output_complete x \<and>
          iv_ok x = (tf_exit_code (iv_terminal x) = Some 0) \<and>
          (\<exists>A1. A = InvocationRequestMsg i # A1 \<and> direct_session E (iq_authority_id req) rid
             (pending (cn_stream (cl_connection s (cl_connects s)))) (Concluded (iv_terminal x)) A1)))"
proof (cases "prepare_invocation E req")
  case (Inl e)
  with assms show ?thesis by (auto simp: invoke_with_writers_def and_then_def)
next
  case (Inr ir)
  obtain i rid where ir: "ir = (i, rid)" by fastforce
  let ?a = "iq_authority_id req" and ?n = "cl_connection s (cl_connects s)"
  from Inr ir assms have "and_then connect_fixed_launcher (\<lambda>_. and_then (client_write_typed_frame E (InvocationRequestMsg i))
      (\<lambda>_. invoke_session E ?a rid policy)) s = (r, s')"
    by (simp add: invoke_with_writers_def and_then_def [of "lift_result _"])
  then show ?thesis
  proof (rule connect_then [where P = "spoken E ?a rid"])
    show "spoken E ?a rid (pending (cn_stream ?n)) []" by (rule spokenI) (rule converses.listen)
  next
    fix e A assume "r = Err e" "cl_connects s' = Suc (cl_connects s)" "cl_sent s' = cl_sent s @ A"
      "over_connection ?n (InvocationRequestMsg i) (spoken E ?a rid) A"
    then show ?thesis by (intro conjI exI [of _ i] exI [of _ rid] exI [of _ A] exI [of _ "[]"]) auto
  next
    fix s1 assume run: "invoke_session E ?a rid policy s1 = (r, s')"
      and s1: "cl_connection s1 = cl_connection s" "cl_connects s1 = Suc (cl_connects s)" "cl_in s1 = cn_stream ?n"
        "cl_sent s1 = cl_sent s @ [InvocationRequestMsg i]" "trusted ?n"
    from invoke_session_says [OF run] obtain A B where "cl_sent s' = cl_sent s1 @ A @ B" "spoken E ?a rid (pending (cl_in s1)) A"
      "\<exists>q. over_connection (cl_connection s1 (cl_connects s1)) (RecoveryRequestMsg q) (recovery_spoken E ?a rid) B"
      "B \<noteq> [] \<longrightarrow> policy = Immediate" "r \<noteq> Crashed"
      "cl_connects s' \<le> cl_connects s1 + (if policy = Immediate then 1 else 0)"
      "\<forall>x. r = Ok x \<longrightarrow> B = [] \<and> cl_connects s' = cl_connects s1 \<and> iv_output_complete x \<and>
          iv_ok x = (tf_exit_code (iv_terminal x) = Some 0) \<and>
          direct_session E ?a rid (pending (cl_in s1)) (Concluded (iv_terminal x)) A" by blast
    with s1 show ?thesis
      by (intro conjI exI [of _ i] exI [of _ rid] exI [of _ "InvocationRequestMsg i # A"] exI [of _ B])
         (auto simp: over_connection_def)
  qed
qed

end
