(* ===== verification/Client_Session.thy ===== *)
theory Client_Session
  imports Systemd_Client
begin

text \<open>
  What a session of the client does with the output frames, alone and together with the threads of
  the launcher that send them: the client copies consecutive frames only, and a session with a
  launcher that ends its threads without an error reproduces the output of the child byte by byte.
\<close>


section \<open>What the client copies\<close>

text \<open>
  \<open>copied\<close>: the accepted frames are numbered from \<open>n\<close> on without reaching the largest number, and each
  stream grew by their payloads, cut off only when the session failed.
\<close>

definition copied ::
  "'x client_env_scheme \<Rightarrow> string \<Rightarrow> 64 word \<Rightarrow> output_frame list \<Rightarrow> bool \<Rightarrow> client \<Rightarrow> client \<Rightarrow> bool" where
  "copied E bytes n fs ok s s' \<longleftrightarrow>
     list_all (\<lambda>f. heard_value E (output_from_value E) bytes f \<and> validate_launcher_output_frame_v1 E f) fs \<and>
     (\<forall>i < length fs. unat (of_sequence (fs ! i)) = unat n + i) \<and> unat n + length fs < 2 ^ 64 \<and>
     (\<forall>st. \<exists>x. cl_output s' st = cl_output s st @ x \<and> prefix x (frames_of st fs) \<and> (ok \<longrightarrow> x = frames_of st fs))"

lemma word_below_max:
  fixes n :: "64 word"
  assumes "n \<noteq> -1"
  shows "Suc (unat n) < 2 ^ 64"
proof -
  have "unat (- 1 :: 64 word) = 2 ^ 64 - 1" by (simp add: unsigned_minus_1_eq_mask mask_eq_exp_minus_1)
  with assms have "unat n \<noteq> 2 ^ 64 - 1" by (metis unsigned_word_eqI)
  with unsigned_less [of n, where 'a = nat] show ?thesis by simp
qed

lemma unat_succ: "n \<noteq> -1 \<Longrightarrow> unat (n + 1 :: 64 word) = Suc (unat n)"
  using word_below_max [of n] by (simp add: unat_word_ariths)

lemma copied_Nil: "cl_output s' = cl_output s \<Longrightarrow> copied E bytes n [] ok s s'"
  using unsigned_less [of n, where 'a = nat] by (simp add: copied_def frames_of_def)

lemma frames_of_Cons:
  "frames_of st (f # fs) = (if of_stream f = st then of_payload f else []) @ frames_of st fs"
  by (simp add: frames_of_def)

text \<open>One frame, whole or cut off, and one frame before more.\<close>

lemma copied_one:
  assumes "heard_value E (output_from_value E) bytes f" "validate_launcher_output_frame_v1 E f" "of_sequence f = n" "n \<noteq> -1"
    and "cl_output s' = (cl_output s)(of_stream f := cl_output s (of_stream f) @ take k (of_payload f))"
    and "ok \<longrightarrow> length (of_payload f) \<le> k"
  shows "copied E bytes n [f] ok s s'"
  using assms word_below_max [OF assms(4)] by (auto simp: copied_def frames_of_def take_is_prefix)

lemma copied_Cons:
  assumes "copied E bytes n [f] True s s1" and "copied E bytes (n + 1) fs ok s1 s'" and "n \<noteq> -1"
  shows "copied E bytes n (f # fs) ok s s'"
proof -
  have seq: "\<forall>i < length (f # fs). unat (of_sequence ((f # fs) ! i)) = unat n + i"
    using assms unat_succ [OF assms(3)] by (auto simp: copied_def nth_Cons split: nat.splits)
  have "\<exists>x. cl_output s' st = cl_output s st @ x \<and> prefix x (frames_of st (f # fs)) \<and> (ok \<longrightarrow> x = frames_of st (f # fs))" for st
  proof -
    from assms(1,2) obtain x y where "cl_output s1 st = cl_output s st @ x" "x = frames_of st [f]"
      "cl_output s' st = cl_output s1 st @ y" "prefix y (frames_of st fs)" "ok \<longrightarrow> y = frames_of st fs"
      unfolding copied_def by blast
    then show ?thesis
      by (intro exI [of _ "x @ y"]) (auto simp: frames_of_def)
  qed
  with assms seq unat_succ [OF assms(3)] show ?thesis by (simp add: copied_def)
qed


lemma local_output:
  "write_output st bs s = (r, s') \<Longrightarrow>
     cl_output s' = (cl_output s)(st := cl_output s st @ take (length bs) bs) \<and> r = Ok () \<or>
     (\<exists>k e. cl_output s' = (cl_output s)(st := cl_output s st @ take k bs) \<and> r = Err e)"
  "flush st s = (r, s') \<Longrightarrow> cl_output s' = cl_output s"
  by (auto simp: write_output_def flush_def Let_def split: list.splits option.splits)

text \<open>Everything but the copy leaves the output alone.\<close>

definition printless :: "'a client_proc \<Rightarrow> bool" where
  "printless m \<longleftrightarrow> (\<forall>s r s'. m s = (r, s') \<longrightarrow> cl_output s' = cl_output s)"

named_theorems printless_intros

lemma printless_basic [printless_intros]:
  "printless (ret a)" "printless (throw e)" "printless (decoded e x)" "printless (client_read_exact k e)"
  "printless (client_write_typed_frame E m)" "printless reject_queued_trailing_frame" "printless (flush st)"
  by (auto simp: printless_def decoded_def client_read_exact_def client_write_typed_frame_def reject_queued_trailing_frame_def
      flush_def Let_def split: option.splits prod.splits if_splits list.splits peeked.splits)

lemma printless_then [printless_intros]: "printless m \<Longrightarrow> (\<And>a. printless (f a)) \<Longrightarrow> printless (and_then m f)"
  unfolding printless_def and_then_def by (fastforce split: prod.splits outcome.splits)

lemma printless_if [printless_intros]: "printless m \<Longrightarrow> printless m' \<Longrightarrow> printless (if b then m else m')"
  by simp

lemma printless_session [printless_intros]:
  "printless (client_read_typed_frame E parse)" "printless (acknowledge_archive E a rid frame)"
  "printless (acknowledge_terminal E t)"
  unfolding client_read_typed_frame_def acknowledge_archive_def acknowledge_terminal_def Let_def
  by (intro printless_intros)+

lemma printless_accept [printless_intros]: "printless (accept_signed E a rid known v)" "printless (accept_terminal E known v)"
  unfolding accept_signed_def accept_terminal_def by (intro printless_intros)+

lemma printlessD: "printless m \<Longrightarrow> m s = (r, s') \<Longrightarrow> cl_output s' = cl_output s"
  by (simp add: printless_def)

lemma accept_output_copied:
  assumes "accept_output E n v s = (r, s')"
    and "\<And>f. output_from_value E v = Some f \<Longrightarrow> heard_value E (output_from_value E) bytes f"
  shows "(\<exists>fs. copied E bytes n fs (is_Ok r) s s' \<and> (\<forall>n'. r = Ok n' \<longrightarrow> length fs = 1 \<and> n \<noteq> -1 \<and> n' = n + 1))"
proof (cases "\<exists>f. output_from_value E v = Some f \<and> validate_launcher_output_frame_v1 E f \<and> of_sequence f = n \<and> n \<noteq> -1")
  case False
  with assms(1) have "s' = s" "\<not> is_Ok r"
    by (auto simp: accept_output_def and_then_def decoded_def split: option.splits if_splits)
  then show ?thesis by (intro exI [of _ "[]"]) (auto intro: copied_Nil)
next
  case True
  then obtain f where f: "output_from_value E v = Some f" "validate_launcher_output_frame_v1 E f" "of_sequence f = n" "n \<noteq> -1"
    by blast
  let ?rest = "\<lambda>_. and_then (flush Stdout) (\<lambda>_. and_then (flush Stderr) (\<lambda>_. ret (n + 1)))"
  from f assms(1) have run: "and_then (write_output (of_stream f) (of_payload f)) ?rest s = (r, s')"
    by (simp add: accept_output_def and_then_def [of "decoded _ _"] decoded_def)
  obtain r1 s1 where w: "write_output (of_stream f) (of_payload f) s = (r1, s1)" by fastforce
  have quiet: "printless (?rest ())" by (intro printless_intros)
  note one = copied_one [OF assms(2) [OF f(1)] f(2-)]
  from local_output(1) [OF w] show ?thesis
  proof (elim disjE exE conjE)
    assume out: "cl_output s1 = (cl_output s)(of_stream f := cl_output s (of_stream f) @ take (length (of_payload f)) (of_payload f))"
      and "r1 = Ok ()"
    with run w have rest: "?rest () s1 = (r, s')" by (simp add: and_then_def)
    from printlessD [OF quiet this] out have "copied E bytes n [f] (is_Ok r) s s'" by (intro one [where k = "length (of_payload f)"]) simp_all
    moreover from rest have "r = Ok n' \<Longrightarrow> n' = n + 1" for n' by (auto simp: and_then_Ok_iff)
    ultimately show ?thesis using f(4) by (intro exI [of _ "[f]"]) simp
  next
    fix k e assume "cl_output s1 = (cl_output s)(of_stream f := cl_output s (of_stream f) @ take k (of_payload f))" "r1 = Err e"
    with run w have "r = Err e" "copied E bytes n [f] (is_Ok r) s s'" by (auto simp: and_then_def intro: one)
    then show ?thesis by auto
  qed
qed


lemma session_round_number:
  "session_round E a rid n known s = (Ok (Inl (n', known')), s') \<Longrightarrow>
   \<exists>v s1. client_read_typed_frame E (value_from_slice E) s = (Ok v, s1) \<and>
     (json_message_kind v = Some (protocol_constant E ''LAUNCHER_OUTPUT'') \<or> n' = n)"
  unfolding session_round_def and_then_Ok_iff by (elim exE conjE) (auto simp: and_then_Ok_iff split: if_splits)

lemma session_round_copied:
  assumes "session_round E a rid n known s = (r, s')" and "suffix (pending (cl_in s)) bytes"
  shows "\<exists>fs. copied E bytes n fs (is_Ok r) s s' \<and>
    (\<forall>n' known'. r = Ok (Inl (n', known')) \<longrightarrow> fs = [] \<and> n' = n \<or> length fs = 1 \<and> n \<noteq> -1 \<and> n' = n + 1)"
proof -
  let ?read = "client_read_typed_frame E (value_from_slice E)"
  obtain r1 s1 where read: "?read s = (r1, s1)" by fastforce
  have out1: "cl_output s1 = cl_output s" using printless_session(1) read by (rule printlessD)
  show ?thesis
  proof (cases "\<exists>v. r1 = Ok v \<and> json_message_kind v = Some (protocol_constant E ''LAUNCHER_OUTPUT'')")
    case False
    have "cl_output s' = cl_output s"
    proof (cases r1)
      case (Ok v)
      with False have kind: "json_message_kind v \<noteq> Some (protocol_constant E ''LAUNCHER_OUTPUT'')" by blast
      let ?rest = "\<lambda>v. if json_message_kind v = Some (protocol_constant E ''LAUNCHER_SIGNED_EXECUTION_FINALIZATION'')
         then and_then (accept_signed E a rid known v) (\<lambda>frame. ret (Inl (n, Some frame)))
         else if json_message_kind v = Some (protocol_constant E ''LAUNCHER_TERMINAL'')
         then and_then (accept_terminal E known v) (\<lambda>t. ret (Inr t)) else throw Protocol"
      have "printless (?rest v)" by (intro printless_intros)
      moreover from Ok kind read assms(1) have "?rest v s1 = (r, s')"
        by (simp add: session_round_def and_then_def [of ?read])
      ultimately have "cl_output s' = cl_output s1" by (rule printlessD)
      with out1 show ?thesis by simp
    qed (use assms(1) read out1 in \<open>auto simp: session_round_def and_then_def\<close>)
    moreover have "n' = n" if "r = Ok (Inl (n', known'))" for n' known'
      using session_round_number [OF assms(1) [unfolded that]] read False by auto
    ultimately show ?thesis by (intro exI [of _ "[]"]) (auto intro: copied_Nil)
  next
    case True
    then obtain v where v: "r1 = Ok v" "json_message_kind v = Some (protocol_constant E ''LAUNCHER_OUTPUT'')" by blast
    obtain r2 s2 where acc: "accept_output E n v s1 = (r2, s2)" by fastforce
    from v read have "arrived E (value_from_slice E) (pending (cl_in s)) v"
      by (auto elim: tellsE [OF tells_read])
    note heard = heard_valueI [OF arrived_suffix [OF assms(2) this]]
    from accept_output_copied [OF acc heard] obtain fs where fs: "copied E bytes n fs (is_Ok r2) s1 s2"
      "\<forall>n'. r2 = Ok n' \<longrightarrow> length fs = 1 \<and> n \<noteq> -1 \<and> n' = n + 1" by blast
    from v read acc assms(1) have "s' = s2" "is_Ok r = is_Ok r2"
      "\<And>n' known'. r = Ok (Inl (n', known')) \<Longrightarrow> r2 = Ok n'"
      by (auto simp: session_round_def and_then_def split: outcome.splits)
    with fs out1 show ?thesis by (intro exI [of _ fs]) (auto simp: copied_def)
  qed
qed

lemma session_loop_copied:
  "session_loop E a rid n known s = (r, s') \<Longrightarrow> suffix (pending (cl_in s)) bytes \<Longrightarrow>
   \<exists>fs. copied E bytes n fs (is_Ok r) s s'"
proof (induction E a rid n known s arbitrary: r s' rule: session_loop.induct)
  case (1 E a rid n known s)
  obtain r1 s1 where round: "session_round E a rid n known s = (r1, s1)" by fastforce
  note run = "1.prems"(1) [unfolded session_loop.simps [of E a rid n known s] round prod.case]
  from session_round_copied [OF round "1.prems"(2)] obtain fs where fs: "copied E bytes n fs (is_Ok r1) s s1"
    "\<forall>n' known'. r1 = Ok (Inl (n', known')) \<longrightarrow> fs = [] \<and> n' = n \<or> length fs = 1 \<and> n \<noteq> -1 \<and> n' = n + 1" by blast
  show ?case
  proof (cases "\<exists>n' known'. r1 = Ok (Inl (n', known'))")
    case True
    then obtain n' known' where r1: "r1 = Ok (Inl (n', known'))" by blast
    from round r1 have "hears s s1" by (auto intro: session_round_hears)
    with "1.prems"(2) have "suffix (pending (cl_in s1)) bytes"
      unfolding hears_def using suffix_order.order_trans by blast
    from "1.IH" [OF round [symmetric] r1 refl refl _ this] run r1 obtain gs where
      gs: "copied E bytes n' gs (is_Ok r) s1 s'" by auto
    from fs r1 consider "fs = []" "n' = n" | f where "fs = [f]" "n \<noteq> -1" "n' = n + 1"
      by (auto simp: length_Suc_conv)
    then show ?thesis
    proof cases
      case 1
      from fs(1) r1 1(1) have "cl_output s1 = cl_output s" by (auto simp: copied_def frames_of_def)
      with gs 1(2) have "copied E bytes n gs (is_Ok r) s s'" by (simp add: copied_def)
      then show ?thesis ..
    next
      case (2 f)
      from fs(1) r1 2(1) have "copied E bytes n [f] True s s1" by simp
      moreover from gs 2(3) have "copied E bytes (n + 1) gs (is_Ok r) s1 s'" by simp
      ultimately have "copied E bytes n (f # gs) (is_Ok r) s s'" using 2(2) by (rule copied_Cons)
      then show ?thesis ..
    qed
  next
    case False
    with run fs(1) have "copied E bytes n fs (is_Ok r) s s'" by (auto split: outcome.splits sum.splits)
    then show ?thesis ..
  qed
qed



text \<open>
  C31. The client shows output in order, once and without gaps. However a session ends, what it wrote to
  its standard output and error is the payloads of valid frames that arrived, numbered
  consecutively from zero, in that order; only a session that fails may stop in the middle of
  them, and a session that returns a terminal frame has written them completely. The numbers never
  reach the largest 64-bit number.
\<close>

theorem client_output_in_order:
  assumes "read_session E authority request s = (r, s')"
  shows "\<exists>fs. list_all (\<lambda>f. heard_value E (output_from_value E) (pending (cl_in s)) f \<and>
      validate_launcher_output_frame_v1 E f) fs \<and>
    (\<forall>i < length fs. unat (of_sequence (fs ! i)) = i) \<and> length fs < 2 ^ 64 \<and>
    (\<forall>st. \<exists>x. cl_output s' st = cl_output s st @ x \<and> prefix x (frames_of st fs) \<and>
       (is_Ok r \<longrightarrow> x = frames_of st fs))"
  using session_loop_copied [OF assms [unfolded read_session_def] suffix_order.order_refl]
  by (auto simp: copied_def)



section \<open>A session with the launcher\<close>

text \<open>
  What the crate and the JSON codec document: an encoded frame is the payload behind its length, and
  a value that was rendered parses back to itself, under the kind it carries.
\<close>

definition frame_of :: "'x wire_env_scheme \<Rightarrow> message \<Rightarrow> string option" where
  "frame_of E m = Option.bind (message_to_vec E m) (encode_frame E)"

definition reads_back :: "'x client_env_scheme \<Rightarrow> message \<Rightarrow> string \<Rightarrow> bool" where
  "reads_back E m payload \<longleftrightarrow>
     (case m of
        OutputMsg f \<Rightarrow> \<exists>v. value_from_slice E payload = Some v \<and> json_message_kind v = Some (of_message_kind f) \<and>
          output_from_value E v = Some f
      | SignedFinalizationMsg f \<Rightarrow> \<exists>v. value_from_slice E payload = Some v \<and>
          json_message_kind v = Some (sff_message_kind f) \<and> signed_frame_from_value E v = Some f
      | TerminalMsg t \<Rightarrow> \<exists>v. value_from_slice E payload = Some v \<and> json_message_kind v = Some (tf_message_kind t) \<and>
          terminal_from_value E v = Some t
      | ArchiveResponseMsg resp \<Rightarrow> archive_response_from_slice E payload = Some resp
      | _ \<Rightarrow> True)"

definition client_codec :: "'x client_env_scheme \<Rightarrow> bool" where
  "client_codec E \<longleftrightarrow>
     (\<forall>m payload frame. message_to_vec E m = Some payload \<and> encode_frame E payload = Some frame \<longrightarrow>
        framed E payload frame \<and> reads_back E m payload) \<and>
     distinct (map (protocol_constant E)
       [''LAUNCHER_OUTPUT'', ''LAUNCHER_SIGNED_EXECUTION_FINALIZATION'', ''LAUNCHER_TERMINAL''])"

lemma frame_of_reads:
  assumes "client_codec E" and "frame_of E m = Some frame"
  obtains payload where "framed E payload frame" "reads_back E m payload"
  using assms by (auto simp: client_codec_def frame_of_def bind_eq_Some_conv)

text \<open>A client whose own output works and whose socket takes what it writes, with nothing queued behind.\<close>

definition calm :: "client \<Rightarrow> bool" where
  "calm s \<longleftrightarrow> cl_local s = [] \<and> cl_writes s = [] \<and> cl_peeks s = []"

definition sendable :: "'x client_env_scheme \<Rightarrow> client_message \<Rightarrow> bool" where
  "sendable E m \<longleftrightarrow> Option.bind (client_message_to_vec E m) (encode_frame E) \<noteq> None"

lemma client_read_framed:
  assumes "framed E payload frame" and "pending (cl_in s) = frame @ rest"
  obtains es where "client_read_typed_frame E parse s = decoded Protocol (parse payload) (s\<lparr>cl_in := es\<rparr>)"
    "pending es = rest"
proof -
  have four: "length (to_be_bytes (length payload)) = 4" by (simp add: to_be_bytes_def)
  with assms have "4 \<le> length (pending (cl_in s))" "take 4 (pending (cl_in s)) = to_be_bytes (length payload)"
    "drop 4 (pending (cl_in s)) = payload @ rest" by (auto simp: framed_def)
  from read_exact_until_enough [OF this(1)] this(2,3) obtain es where
    es: "read_exact_until 4 (cl_in s) = (Some (to_be_bytes (length payload)), es)" "pending es = payload @ rest" by auto
  have "length payload \<le> length (pending es)" using es(2) by simp
  from read_exact_until_enough [OF this] es(2) obtain es' where
    es': "read_exact_until (length payload) es = (Some payload, es')" "pending es' = rest" by auto
  have "from_be_bytes (to_be_bytes (length payload)) = length payload"
    using assms(1) by (intro from_to_be_bytes) (simp add: framed_def)
  with es es' assms(1) have "client_read_typed_frame E parse s = decoded Protocol (parse payload) (s\<lparr>cl_in := es'\<rparr>)"
    by (auto simp: client_read_typed_frame_def client_read_exact_def Let_def and_then_def framed_def decoded_def)
  with es'(2) that show ?thesis by blast
qed

lemma calm_write: "calm s \<Longrightarrow> sendable E m \<Longrightarrow>
  client_write_typed_frame E m s = (Ok (), s\<lparr>cl_sent := cl_sent s @ [m]\<rparr>)"
  by (auto simp: calm_def sendable_def client_write_typed_frame_def Let_def)

lemma calm_output: "calm s \<Longrightarrow>
    write_output st bs s = (Ok (), s\<lparr>cl_output := (cl_output s)(st := cl_output s st @ bs)\<rparr>)"
  "calm s \<Longrightarrow> flush st s = (Ok (), s)" "calm s \<Longrightarrow> reject_queued_trailing_frame s = (Ok (), s)"
  by (cases s, simp add: calm_def write_output_def flush_def reject_queued_trailing_frame_def Let_def)+

lemma calm_update [simp]:
  "calm (s\<lparr>cl_in := es\<rparr>) = calm s" "calm (s\<lparr>cl_output := out\<rparr>) = calm s" "calm (s\<lparr>cl_sent := A\<rparr>) = calm s"
  by (simp_all add: calm_def)

text \<open>The frames of one message, one round.\<close>

definition launcher_frame :: "'x client_env_scheme \<Rightarrow> output_frame \<Rightarrow> bool" where
  "launcher_frame E f \<longleftrightarrow> frame_of E (OutputMsg f) \<noteq> None \<and> validate_launcher_output_frame_v1 E f \<and>
     of_message_kind f = protocol_constant E ''LAUNCHER_OUTPUT''"

lemma output_round:
  assumes "client_codec E" "calm s" "launcher_frame E f" "of_sequence f = n" "n \<noteq> -1"
    and "pending (cl_in s) = the (frame_of E (OutputMsg f)) @ rest"
  obtains es where "session_round E a rid n known s = (Ok (Inl (n + 1, known)), s\<lparr>cl_in := es, cl_output :=
      (cl_output s)(of_stream f := cl_output s (of_stream f) @ of_payload f)\<rparr>)" "pending es = rest"
proof -
  from assms(3) obtain frame where frame: "frame_of E (OutputMsg f) = Some frame" by (auto simp: launcher_frame_def)
  with assms(1) obtain payload where p: "framed E payload frame" "reads_back E (OutputMsg f) payload"
    by (rule frame_of_reads)
  from assms(6) frame have "pending (cl_in s) = frame @ rest" by simp
  with p(1) obtain es where "client_read_typed_frame E (value_from_slice E) s =
      decoded Protocol (value_from_slice E payload) (s\<lparr>cl_in := es\<rparr>)" "pending es = rest" by (rule client_read_framed)
  with p(2) assms that [of es] show ?thesis
    by (auto simp: reads_back_def session_round_def and_then_def decoded_def accept_output_def launcher_frame_def
        calm_output)
qed

lemma session_loop_outputs:
  assumes "client_codec E"
  shows "calm s \<Longrightarrow> list_all (launcher_frame E) fs \<Longrightarrow> (\<forall>i < length fs. unat (of_sequence (fs ! i)) = unat n + i) \<Longrightarrow>
    unat n + length fs < 2 ^ 64 \<Longrightarrow>
    pending (cl_in s) = concat (map (\<lambda>f. the (frame_of E (OutputMsg f))) fs) @ rest \<Longrightarrow>
    \<exists>n' es. session_loop E a rid n known s =
      session_loop E a rid n' known (s\<lparr>cl_in := es, cl_output := (\<lambda>st. cl_output s st @ frames_of st fs)\<rparr>) \<and> pending es = rest"
proof (induction fs arbitrary: n s)
  case Nil
  then show ?case by (intro exI [of _ n] exI [of _ "cl_in s"]) (simp add: frames_of_def)
next
  case (Cons f fs)
  from Cons.prems have first: "unat (of_sequence f) = unat n" by force
  then have num: "of_sequence f = n" by (rule unsigned_word_eqI)
  have max: "n \<noteq> -1"
  proof
    assume "n = -1"
    then have "unat n = 2 ^ 64 - 1" by (simp add: unsigned_minus_1_eq_mask mask_eq_exp_minus_1)
    with Cons.prems(4) show False by simp
  qed
  from Cons.prems have "launcher_frame E f" and "pending (cl_in s) = the (frame_of E (OutputMsg f)) @
      concat (map (\<lambda>f. the (frame_of E (OutputMsg f))) fs) @ rest" by auto
  from output_round [OF assms Cons.prems(1) this(1) num max this(2)] obtain es where
    round: "session_round E a rid n known s = (Ok (Inl (n + 1, known)), s\<lparr>cl_in := es, cl_output :=
      (cl_output s)(of_stream f := cl_output s (of_stream f) @ of_payload f)\<rparr>)"
    and es: "pending es = concat (map (\<lambda>f. the (frame_of E (OutputMsg f))) fs) @ rest" by blast
  let ?s = "s\<lparr>cl_in := es, cl_output := (cl_output s)(of_stream f := cl_output s (of_stream f) @ of_payload f)\<rparr>"
  have "\<forall>i < length fs. unat (of_sequence (fs ! i)) = unat (n + 1) + i"
    using Cons.prems(3) unat_succ [OF max] by (auto simp: nth_Cons split: nat.splits)
  with Cons.IH [of ?s "n + 1"] Cons.prems es unat_succ [OF max] obtain n' es' where
    "session_loop E a rid (n + 1) known ?s =
       session_loop E a rid n' known (?s\<lparr>cl_in := es', cl_output := (\<lambda>st. cl_output ?s st @ frames_of st fs)\<rparr>)"
    "pending es' = rest" by auto
  moreover have "(\<lambda>st. cl_output ?s st @ frames_of st fs) = (\<lambda>st. cl_output s st @ frames_of st (f # fs))"
    by (auto simp: frames_of_Cons)
  ultimately show ?case using round
    by (intro exI [of _ n'] exI [of _ es']) (simp add: session_loop.simps [of E a rid n known s])
qed


text \<open>What closes a session whose execution was completed: both sides of the archive exchange agree.\<close>

definition closing ::
  "'x client_env_scheme \<Rightarrow> string \<Rightarrow> string \<Rightarrow> signed_finalization_frame \<Rightarrow> archive_response \<Rightarrow> terminal_frame
     \<Rightarrow> archive_request \<Rightarrow> archive_persistence \<Rightarrow> terminal_persistence \<Rightarrow> bool" where
  "closing E a rid frame resp t q p tp \<longleftrightarrow>
     sff_message_kind frame = protocol_constant E ''LAUNCHER_SIGNED_EXECUTION_FINALIZATION'' \<and>
     validate_signed_finalization_frame_v1 E frame \<and> client_archive_request E a rid frame = Some q \<and>
     \<not> response_refused E frame q resp \<and> client_archive_persistence E q resp = Some p \<and>
     tf_message_kind t = protocol_constant E ''LAUNCHER_TERMINAL'' \<and> validate_launcher_terminal_frame_v1 E t \<and>
     finalization_matches t (Some frame) \<and> client_terminal_persistence E t = Some tp \<and>
     list_all (sendable E) [ArchiveRequestMsg q, ArchivePersistenceMsg p, TerminalPersistenceMsg tp]"

lemma archive_exchange:
  assumes "client_codec E" "calm s" "closing E a rid frame resp t q p tp"
    and "frame_of E (ArchiveResponseMsg resp) = Some f2" "pending (cl_in s) = f2 @ rest"
  obtains es where "acknowledge_archive E a rid frame s =
      (Ok (), s\<lparr>cl_in := es, cl_sent := cl_sent s @ [ArchiveRequestMsg q, ArchivePersistenceMsg p]\<rparr>)" "pending es = rest"
proof -
  from assms(1,4) obtain payload where payload: "framed E payload f2" "reads_back E (ArchiveResponseMsg resp) payload"
    by (rule frame_of_reads)
  let ?s = "s\<lparr>cl_sent := cl_sent s @ [ArchiveRequestMsg q]\<rparr>"
  from assms(5) have "pending (cl_in ?s) = f2 @ rest" by simp
  with payload(1) obtain es where "client_read_typed_frame E (archive_response_from_slice E) ?s =
      decoded Protocol (archive_response_from_slice E payload) (?s\<lparr>cl_in := es\<rparr>)" "pending es = rest" by (rule client_read_framed)
  with payload(2) assms(2,3) that [of es] show ?thesis
    by (simp add: acknowledge_archive_def and_then_def decoded_def closing_def calm_write reads_back_def)
qed

lemma closing_rounds:
  assumes "client_codec E" "calm s" "closing E a rid frame resp t q p tp"
    and "frame_of E (SignedFinalizationMsg frame) = Some f1" "frame_of E (ArchiveResponseMsg resp) = Some f2"
    and "frame_of E (TerminalMsg t) = Some f3" and "pending (cl_in s) = f1 @ f2 @ f3 @ rest"
  obtains es where "session_loop E a rid n None s = (Ok t, s\<lparr>cl_in := es, cl_sent := cl_sent s @
      [ArchiveRequestMsg q, ArchivePersistenceMsg p, TerminalPersistenceMsg tp]\<rparr>)" "pending es = rest"
proof -
  from assms(1,4) obtain p1 where p1: "framed E p1 f1" "reads_back E (SignedFinalizationMsg frame) p1" by (rule frame_of_reads)
  from assms(1,6) obtain p3 where p3: "framed E p3 f3" "reads_back E (TerminalMsg t) p3" by (rule frame_of_reads)
  have kinds: "protocol_constant E ''LAUNCHER_OUTPUT'' \<noteq> protocol_constant E ''LAUNCHER_SIGNED_EXECUTION_FINALIZATION''"
    "protocol_constant E ''LAUNCHER_OUTPUT'' \<noteq> protocol_constant E ''LAUNCHER_TERMINAL''"
    "protocol_constant E ''LAUNCHER_SIGNED_EXECUTION_FINALIZATION'' \<noteq> protocol_constant E ''LAUNCHER_TERMINAL''"
    using assms(1) by (auto simp: client_codec_def)
  from p1(1) assms(7) obtain es1 where 1: "client_read_typed_frame E (value_from_slice E) s =
      decoded Protocol (value_from_slice E p1) (s\<lparr>cl_in := es1\<rparr>)" "pending es1 = f2 @ f3 @ rest" by (rule client_read_framed)
  let ?s1 = "s\<lparr>cl_in := es1\<rparr>"
  from 1(2) have "pending (cl_in ?s1) = f2 @ f3 @ rest" by simp
  with assms(1,2,3,5) archive_exchange [of E ?s1 a rid frame resp t q p tp f2 "f3 @ rest"] obtain es2 where
    2: "acknowledge_archive E a rid frame ?s1 =
      (Ok (), ?s1\<lparr>cl_in := es2, cl_sent := cl_sent s @ [ArchiveRequestMsg q, ArchivePersistenceMsg p]\<rparr>)" "pending es2 = f3 @ rest" by auto
  let ?s2 = "s\<lparr>cl_in := es2, cl_sent := cl_sent s @ [ArchiveRequestMsg q, ArchivePersistenceMsg p]\<rparr>"
  from 1 2 p1(2) assms(3) kinds have round1: "session_round E a rid n None s = (Ok (Inl (n, Some frame)), ?s2)"
    by (auto simp: session_round_def and_then_def decoded_def reads_back_def accept_signed_def closing_def)
  from 2(2) have "pending (cl_in ?s2) = f3 @ rest" by simp
  with p3(1) obtain es3 where 3: "client_read_typed_frame E (value_from_slice E) ?s2 =
      decoded Protocol (value_from_slice E p3) (?s2\<lparr>cl_in := es3\<rparr>)" "pending es3 = rest" by (rule client_read_framed)
  from p3(2) obtain v where v: "value_from_slice E p3 = Some v" "json_message_kind v = Some (tf_message_kind t)"
    "terminal_from_value E v = Some t" by (auto simp: reads_back_def)
  obtain y where fin: "tf_finalization t = Some y" using assms(3) by (auto simp: closing_def finalization_matches_def split: option.splits)
  have "accept_terminal E (Some frame) v (?s2\<lparr>cl_in := es3\<rparr>) = (Ok t, s\<lparr>cl_in := es3, cl_sent :=
      cl_sent s @ [ArchiveRequestMsg q, ArchivePersistenceMsg p, TerminalPersistenceMsg tp]\<rparr>)"
    using v fin assms(2,3)
    by (simp add: accept_terminal_def and_then_def decoded_def closing_def calm_output acknowledge_terminal_def calm_write)
  with 3(1) v assms(3) kinds have "session_round E a rid n (Some frame) ?s2 = (Ok (Inr t), s\<lparr>cl_in := es3, cl_sent :=
      cl_sent s @ [ArchiveRequestMsg q, ArchivePersistenceMsg p, TerminalPersistenceMsg tp]\<rparr>)"
    by (simp add: session_round_def and_then_def decoded_def closing_def)
  with round1 3(2) that [of es3] show ?thesis
    by (simp add: session_loop.simps [of E a rid n None s] session_loop.simps [of E a rid n "Some frame" ?s2])
qed


text \<open>The threads send only frames that are encoded, valid and of the right kind.\<close>

definition frames_fit :: "'x client_env_scheme \<Rightarrow> relay_state \<Rightarrow> relay_state \<Rightarrow> bool" where
  "frames_fit E s s' \<longleftrightarrow> (\<exists>new. wi_sent s' = wi_sent s @ new \<and>
     list_all (\<lambda>(p, m, w). \<forall>f. m = OutputMsg f \<longrightarrow> launcher_frame E f) new)"

lemma frames_fit_refl [simp]: "frames_fit E s s"
  by (simp add: frames_fit_def)

lemma frames_fit_trans: "frames_fit E s s1 \<Longrightarrow> frames_fit E s1 s2 \<Longrightarrow> frames_fit E s s2"
  by (fastforce simp: frames_fit_def)

lemma write_message_frame:
  assumes "write_message E p m e s = (r, s')"
  shows "wi_sent s' = wi_sent s \<or> frame_of E m \<noteq> None \<and> wi_sent s' = wi_sent s @ [(p, m, wi_world s)]"
  using assms by (auto simp: write_message_def transmit_def frame_of_def Let_def split: option.splits if_splits)

lemma send_chunk_fit: "send_chunk E i st bs out s = (out', s') \<Longrightarrow> frames_fit E s s'"
  by (auto simp: send_chunk_def Let_def frames_fit_def launcher_frame_def split: if_splits prod.splits outcome.splits
      dest!: write_message_frame)

lemma output_step_fit: "output_step E i st out s = (out', s') \<Longrightarrow> frames_fit E s s'"
  by (auto simp: Let_def finish_thread_def split: if_splits list.splits read_event.splits dest!: send_chunk_fit)

lemma output_steps_fit: "output_steps E i sts out s = (out', s') \<Longrightarrow> frames_fit E s s'"
  by (induction sts arbitrary: out s)
     (auto simp del: output_step.simps split: prod.splits intro: frames_fit_trans output_step_fit)

lemma relay_outputs_fit: "relay_outputs E i schedule source s = (out, s') \<Longrightarrow> frames_fit E s s'"
  using relay_outputs_steps output_steps_fit by metis

lemma launcher_output:
  assumes "0 < max_launcher_output_payload_bytes E"
    and "relay_outputs E invocation schedule source l = (out, l')"
    and "op_done out Stdout = Some (Inr ())" "op_done out Stderr = Some (Inr ())"
    and "wi_sent l' = wi_sent l @ new" "length new < 2 ^ 64"
  obtains fs where "map (\<lambda>(p, m, w). m) new = map OutputMsg fs" "list_all (launcher_frame E) fs" "length fs < 2 ^ 64"
    "\<forall>i < length fs. unat (of_sequence (fs ! i)) = i" "\<And>st. frames_of st fs = pending (source st)"
proof -
  let ?out = "\<lparr>op_source = source, op_done = (\<lambda>_. None), op_sequence = 0\<rparr>"
  from relay_outputs_steps [OF assms(2)] obtain sts where
    run: "output_steps E invocation sts ?out l = (out, l')" by blast
  have "clean out" unfolding clean_def using assms(3,4) by (metis output_stream.exhaust option.inject sum.distinct(1))
  from clean_steps [OF run this assms(1)] obtain fs where fs: "sent_frames l fs l'"
    "numbered 0 fs (op_sequence out)" "\<forall>st. output_left ?out st = frames_of st fs @ output_left out st" by auto
  from fs(1) assms(5) have new: "new = map (\<lambda>f. (Client, OutputMsg f, wi_world l)) fs" by (simp add: sent_frames_def)
  with relay_outputs_fit [OF assms(2)] assms(5) have "list_all (launcher_frame E) fs"
    by (auto simp: frames_fit_def list_all_iff)
  moreover have "unat (of_sequence (fs ! i)) = i" if "i < length fs" for i
  proof -
    have "map of_sequence fs ! i = of_nat (min i (2 ^ 64 - 1))"
      using fs(2) that by (simp add: numbered_def saturating_count)
    with that assms(6) new show ?thesis by (simp add: min_def unat_of_nat)
  qed
  moreover have "frames_of st fs = pending (source st)" for st
    using fs(3) assms(3,4) by (cases st) (auto simp: output_left_def)
  ultimately show ?thesis using that [of fs] new assms(6) by (auto simp: comp_def)
qed

text \<open>What the launcher put on the client's socket, as a stream of bytes.\<close>

definition client_stream :: "'x client_env_scheme \<Rightarrow> message list \<Rightarrow> string" where
  "client_stream E ms = concat (map (the \<circ> frame_of E) ms)"

text \<open>
  C32. A session reproduces the execution. When the launcher's output threads end without an error and
  the launcher then sends the signed finalization, the archive response and the terminal frame that
  agree with the client's requests, a client that reads exactly these frames, however the stream is
  cut, returns that terminal frame; it has written to each of its streams exactly what the child
  wrote to it, whatever the interleaving of the threads, and has sent the archive request, its
  persistence and the acknowledgement of the terminal frame.
\<close>

theorem session_reproduces_output:
  assumes "client_codec E" and "0 < max_launcher_output_payload_bytes E"
    and "relay_outputs E invocation schedule source l = (out, l')"
    and "op_done out Stdout = Some (Inr ())" "op_done out Stderr = Some (Inr ())"
    and "wi_sent l' = wi_sent l @ new" "length new < 2 ^ 64"
    and "closing E authority request frame resp t q p tp"
    and "\<forall>m \<in> {SignedFinalizationMsg frame, ArchiveResponseMsg resp, TerminalMsg t}. frame_of E m \<noteq> None"
    and "calm s"
    and "pending (cl_in s) = client_stream E
      (map (\<lambda>(p, m, w). m) new @ [SignedFinalizationMsg frame, ArchiveResponseMsg resp, TerminalMsg t])"
  shows "\<exists>s'. read_session E authority request s = (Ok t, s') \<and>
    (\<forall>st. cl_output s' st = cl_output s st @ pending (source st)) \<and>
    cl_sent s' = cl_sent s @ [ArchiveRequestMsg q, ArchivePersistenceMsg p, TerminalPersistenceMsg tp]"
proof -
  from launcher_output [OF assms(2-7)] obtain fs where fs: "map (\<lambda>(p, m, w). m) new = map OutputMsg fs"
    "list_all (launcher_frame E) fs" "length fs < 2 ^ 64" "\<forall>i < length fs. unat (of_sequence (fs ! i)) = i"
    "\<And>st. frames_of st fs = pending (source st)" by blast
  from assms(9) obtain f1 f2 f3 where f: "frame_of E (SignedFinalizationMsg frame) = Some f1"
    "frame_of E (ArchiveResponseMsg resp) = Some f2" "frame_of E (TerminalMsg t) = Some f3" by auto
  from assms(11) fs(1) f have "pending (cl_in s) = concat (map (\<lambda>f. the (frame_of E (OutputMsg f))) fs) @ f1 @ f2 @ f3"
    by (simp add: client_stream_def comp_def)
  from session_loop_outputs [OF assms(1,10) fs(2) _ _ this, of 0 authority request None] fs(3,4) obtain n es where
    loop: "session_loop E authority request 0 None s =
      session_loop E authority request n None (s\<lparr>cl_in := es, cl_output := (\<lambda>st. cl_output s st @ frames_of st fs)\<rparr>)"
    and es: "pending es = f1 @ f2 @ f3" by auto
  let ?s = "s\<lparr>cl_in := es, cl_output := (\<lambda>st. cl_output s st @ frames_of st fs)\<rparr>"
  from assms(10) es have "calm ?s" "pending (cl_in ?s) = f1 @ f2 @ f3 @ []" by simp_all
  from closing_rounds [OF assms(1) this(1) assms(8) f this(2), of n] obtain es' where
    "session_loop E authority request n None ?s = (Ok t, ?s\<lparr>cl_in := es', cl_sent := cl_sent ?s @
      [ArchiveRequestMsg q, ArchivePersistenceMsg p, TerminalPersistenceMsg tp]\<rparr>)" by blast
  with loop fs(5) show ?thesis by (simp add: read_session_def)
qed



section \<open>A failed local write\<close>

text \<open>
  C33. A running execution is reported as not started. When the launcher has accepted the invocation and
  sends output of the execution, and the client cannot write it to its own stream, the client
  fails with the error of a refused boundary, whose report says that the execution has not
  started; it does not try to recover under either policy.
\<close>

theorem started_reported_as_not_started:
  assumes "client_codec E" and "prepare_invocation E req = Inr (i, rid)"
    and "connect_checks (cl_connection s (cl_connects s)) = Inr ()"
    and "cl_writes s = []" "sendable E (InvocationRequestMsg i)"
    and "launcher_frame E f" "of_sequence f = 0"
    and "pending (cn_stream (cl_connection s (cl_connects s))) = the (frame_of E (OutputMsg f)) @ rest"
    and "cl_local s = Some k # local"
  shows "\<exists>s'. invoke_with_writers E req policy s = (Err LocalBoundary, s') \<and>
    cl_sent s' = cl_sent s @ [InvocationRequestMsg i] \<and> execution_started LocalBoundary = Some False"
proof -
  let ?s = "s\<lparr>cl_connects := Suc (cl_connects s), cl_in := cn_stream (cl_connection s (cl_connects s)),
    cl_sent := cl_sent s @ [InvocationRequestMsg i], cl_writes := []\<rparr>"
  from assms(6) obtain frame where frame: "frame_of E (OutputMsg f) = Some frame" by (auto simp: launcher_frame_def)
  with assms(1) obtain payload where p: "framed E payload frame" "reads_back E (OutputMsg f) payload"
    by (rule frame_of_reads)
  from assms(8) frame have "pending (cl_in ?s) = frame @ rest" by simp
  with p(1) obtain es where es: "client_read_typed_frame E (value_from_slice E) ?s =
      decoded Protocol (value_from_slice E payload) (?s\<lparr>cl_in := es\<rparr>)" by (rule client_read_framed)
  from p(2) obtain v where v: "value_from_slice E payload = Some v" "json_message_kind v = Some (of_message_kind f)"
    "output_from_value E v = Some f" by (auto simp: reads_back_def)
  let ?s' = "?s\<lparr>cl_in := es, cl_local := local,
    cl_output := (cl_output s)(of_stream f := cl_output s (of_stream f) @ take k (of_payload f))\<rparr>"
  have "accept_output E 0 v (?s\<lparr>cl_in := es\<rparr>) = (Err LocalBoundary, ?s')"
    using assms(6,7,9) v by (simp add: accept_output_def and_then_def decoded_def launcher_frame_def write_output_def Let_def)
  with es v assms(6) have "session_round E (iq_authority_id req) rid 0 None ?s = (Err LocalBoundary, ?s')"
    by (simp add: session_round_def and_then_def decoded_def launcher_frame_def)
  then have "invoke_session E (iq_authority_id req) rid policy ?s = (Err LocalBoundary, ?s')"
    by (simp add: invoke_session_def read_session_def session_loop.simps should_attempt_recovery_def)
  moreover have "invoke_with_writers E req policy s = invoke_session E (iq_authority_id req) rid policy ?s"
    using assms(2-5) by (auto simp: invoke_with_writers_def and_then_def connect_fixed_launcher_def Let_def
        client_write_typed_frame_def sendable_def)
  ultimately show ?thesis by simp
qed

end
