(* ===== verification/Session_Samples.thy ===== *)
theory Session_Samples
  imports Finalization_Service Relay_Samples
begin

text \<open>
  A concrete finalization session, the input of its witnesses: a service that signs and attaches
  what the sample journals hold, and a client that asks for its archive, confirms the sidecar and
  acknowledges the terminal frame.
\<close>

text \<open>The size check over binary integers, which evaluate faster than natural numbers.\<close>

lemma fin_verify_file_code [code]:
  "fin_verify_file p uid =
     and_then (map_err (\<lambda>_. FinStoreUnavailable) (symlink_metadata p)) (\<lambda>n.
       if n_kind n \<noteq> RegularFile \<or> n_uid n \<noteq> uid \<or> n_mode n AND 63 \<noteq> 0
          \<or> int (length (n_bytes n)) > 131072
       then throw FinStoreUnavailable else ret ())"
  by (simp add: fin_verify_file_def MAX_JOURNAL_BYTES_def)

definition session_encode :: "finalization_journal \<Rightarrow> string option" where
  "session_encode j = (if j = sample_fin_journal (fj_stage j) then Some (sample_fin_encode j) else None)"

definition session_constant :: "string \<Rightarrow> string" where
  "session_constant n =
     (if n = ''LAUNCHER_TERMINAL'' then ''tf'' else if n = ''SYSTEMD_LAUNCHER_SERVICE_PROTOCOL_V1'' then ''v1'' else n)"

definition session_env :: wire_env where
  "session_env = sample_wire_env
     \<lparr>protocol_constant := session_constant, fin_to_vec := session_encode,
      launcher_finalization_archive_sidecar_v1_identity := (\<lambda>_. Some ''sd''),
      archive_request_from_slice := letter ''q'' sample_request,
      archive_persistence_from_slice := letter ''p'' sample_persistence,
      terminal_persistence_from_slice := letter ''t'' sample_terminal_persistence\<rparr>"

definition session_host :: finalization_host where
  "session_host = \<lparr>fo_pid = 7, service_unit_identity = ''u'', configuration_identity = ''c'',
     systemd_launcher_profile_v4_identity = Some ''p'', singular_launcher_executable_identity = Some ''e'',
     load_producer_binding = (\<lambda>_. Some ''b''), launcher_finalization_signing_request_v1_identity = (\<lambda>_. Some ''s''),
     request_finalization = (\<lambda>_ _. Some sample_signed),
     launcher_finalization_archive_signing_request_v1_identity = (\<lambda>_. Some ''a''),
     request_finalization_archive = (\<lambda>_ _. Some (sd_signed_archive sample_sidecar)),
     launcher_finalization_recovery_request_v1_identity = Some \<circ> ry_request_identity,
     open_repository_directory = (\<lambda>_ _. Inr (7, 9)), locate_archive = (\<lambda>_ _ _. Some ''f''),
     load_protected_history_binding = (\<lambda>_. Some ''h''), attach_protected_history = (\<lambda>_ _ _ _ _. Some sample_attachment)\<rparr>"

definition session_path :: path where
  "session_path = path_join FINALIZATION_DIRECTORY (replicate 64 CHR ''a'' @ ''.json'')"

definition session_state :: "finalization_journal_stage \<Rightarrow> string \<Rightarrow> service_state" where
  "session_state st client =
     \<lparr>wi_in = (\<lambda>p. case p of Client \<Rightarrow> letters client | _ \<Rightarrow> []), wi_writes = [], wi_sent = [],
      wi_world = \<lparr>w_files = [(FINALIZATION_DIRECTORY, sample_dir_node), (session_path, sample_fin_node st)],
        w_euid = 0, w_faults = []\<rparr>,
      se_journal = sample_fin_handle FinIntent\<rparr>"

definition session_request :: recovery_request where
  "session_request = \<lparr>ry_schema_version = 1, ry_message_kind = ''LAUNCHER_FINALIZATION_RECOVERY_REQUEST'',
     ry_request_identity = ''ry'', ry_authority_id = ''a'', ry_launcher_request_identity = digest CHR ''b''\<rparr>"

definition session_run :: "(systemd_service_error, nat) outcome \<times> service_state" where
  "session_run = serve_finalization_recovery_start session_env session_host (digest CHR ''a'') session_request
     (session_state FinIntent ''qpt'')"

lemma session_codec: "fin_codec session_env"
proof -
  have env: "fin_to_vec session_env = session_encode" "fin_from_slice session_env = sample_fin_decode"
    by (simp_all add: session_env_def sample_wire_env_def sample_fin_env_def slot_env.defs fin_env.defs wire_env.defs)
  have "sample_fin_decode (sample_fin_encode (sample_fin_journal st)) = Some (sample_fin_journal st)" for st
    by (cases st)
       (simp_all add: sample_fin_decode_def all_fin_stages_def sample_fin_encode_def decimal.simps digit_char_def)
  then show ?thesis unfolding fin_codec_def env session_encode_def by (metis option.discI option.inject)
qed

lemma session_run_facts:
  "fst session_run = Ok 0" "map (\<lambda>(p, _, _). p) (wi_sent (snd session_run)) = [Client, Repository, Client, Repository, Client]"
proof -
  have "case session_run of (r, s) \<Rightarrow>
      r = Ok 0 \<and> map (\<lambda>(p, _, _). p) (wi_sent s) = [Client, Repository, Client, Repository, Client]"
    by code_simp
  then show "fst session_run = Ok 0"
    "map (\<lambda>(p, _, _). p) (wi_sent (snd session_run)) = [Client, Repository, Client, Repository, Client]"
    by (simp_all add: case_prod_beta)
qed

lemma session_journal_path: "journal_path FINALIZATION_DIRECTORY (digest CHR ''a'') = Inr session_path"
  by code_simp

theorem finalization_write_ahead_witness:
  "fst session_run = Ok 0 \<and> length (wi_sent (snd session_run)) = 5 \<and>
   list_all (fin_backed session_env session_path) (wi_sent (snd session_run))"
proof -
  have "length (wi_sent (snd session_run)) = length [Client, Repository, Client, Repository, Client]"
    using session_run_facts(2) by (metis length_map)
  moreover have "serve_finalization_recovery_start session_env session_host (digest CHR ''a'') session_request
     (session_state FinIntent ''qpt'') = (fst session_run, snd session_run)" by (simp add: session_run_def)
  from finalization_write_ahead [OF session_codec session_journal_path this]
  have "list_all (fin_backed session_env session_path) (wi_sent (snd session_run))"
    by (auto simp: session_state_def)
  ultimately show ?thesis using session_run_facts by simp
qed


end
