(* ===== verification/Client_Samples.thy ===== *)
theory Client_Samples
  imports Client_Session Session_Samples
begin

text \<open>
  A concrete session of the client, the input of its witnesses: the child writes to both streams, the
  launcher numbers four frames and closes with a finalization, an archive response and a terminal
  frame; each message is one letter on the wire.
\<close>

definition client_frame :: "64 word \<Rightarrow> output_stream \<Rightarrow> string \<Rightarrow> output_frame" where
  "client_frame n st bs = \<lparr>of_message_kind = ''LAUNCHER_OUTPUT'', of_protocol_version = ''v1'', of_invocation_id = ''i'',
     of_sequence = n, of_stream = st, of_payload = bs\<rparr>"

definition client_signed_frame :: signed_finalization_frame where
  "client_signed_frame = \<lparr>sff_message_kind = ''LAUNCHER_SIGNED_EXECUTION_FINALIZATION'', sff_protocol_version = ''v1'',
     sff_invocation_id = ''invocation-1'', sff_signed_finalization = sample_signed\<rparr>"

definition client_response :: archive_response where
  "client_response = \<lparr>rs_schema_version = 1, rs_message_kind = ''r'', rs_response_identity = ''rs'',
     rs_request_identity = [], rs_invocation_id = ''invocation-1'', rs_sidecar_file_name = None, rs_sidecar = sample_sidecar\<rparr>"

definition client_table :: "(message \<times> char) list" where
  "client_table =
     [(OutputMsg (client_frame 0 Stdout ''he''), CHR ''A''), (OutputMsg (client_frame 1 Stdout ''ll''), CHR ''B''),
      (OutputMsg (client_frame 2 Stdout ''o''), CHR ''C''), (OutputMsg (client_frame 3 Stderr ''x''), CHR ''D''),
      (SignedFinalizationMsg client_signed_frame, CHR ''F''), (ArchiveResponseMsg client_response, CHR ''R''),
      (TerminalMsg sample_terminal, CHR ''T'')]"

fun client_kind :: "message \<Rightarrow> string" where
  "client_kind (OutputMsg f) = of_message_kind f"
| "client_kind (SignedFinalizationMsg f) = sff_message_kind f"
| "client_kind (TerminalMsg t) = tf_message_kind t"
| "client_kind _ = []"

definition client_letter :: "string \<Rightarrow> message option" where
  "client_letter bs = map_of (map (\<lambda>(m, c). ([c], m)) client_table) bs"

definition client_value :: "string \<Rightarrow> json option" where
  "client_value bs = map_option (\<lambda>m. JObject [(''message_kind'', JString (client_kind m)), (''c'', JString bs)]) (client_letter bs)"

definition value_message :: "json \<Rightarrow> message option" where
  "value_message v = (case v of JObject [_, (_, JString bs)] \<Rightarrow> client_letter bs | _ \<Rightarrow> None)"

definition output_message :: "message \<Rightarrow> output_frame option" where
  "output_message m = (case m of OutputMsg f \<Rightarrow> Some f | _ \<Rightarrow> None)"

definition signed_message_frame :: "message \<Rightarrow> signed_finalization_frame option" where
  "signed_message_frame m = (case m of SignedFinalizationMsg f \<Rightarrow> Some f | _ \<Rightarrow> None)"

definition terminal_message :: "message \<Rightarrow> terminal_frame option" where
  "terminal_message m = (case m of TerminalMsg t \<Rightarrow> Some t | _ \<Rightarrow> None)"

definition response_message :: "message \<Rightarrow> archive_response option" where
  "response_message m = (case m of ArchiveResponseMsg r \<Rightarrow> Some r | _ \<Rightarrow> None)"

definition client_sample_env :: client_env where
  "client_sample_env = wire_env.extend
     (session_env\<lparr>message_to_vec := (\<lambda>m. map_option (\<lambda>c. [c]) (map_of client_table m)), value_from_slice := client_value\<rparr>)
     (client_env.fields Some (\<lambda>_. True) (\<lambda>_. Some ''rid'') (\<lambda>_. Some ''ry'') (\<lambda>_. Some ''m'')
        (\<lambda>v. Option.bind (value_message v) output_message) (\<lambda>v. Option.bind (value_message v) signed_message_frame)
        (\<lambda>v. Option.bind (value_message v) terminal_message)
        (\<lambda>bs. Option.bind (client_letter bs) signed_message_frame)
        (\<lambda>bs. Option.bind (client_letter bs) response_message)
        (\<lambda>bs. Option.bind (client_letter bs) terminal_message))"

definition client_connection :: "string \<Rightarrow> connection" where
  "client_connection ls = \<lparr>cn_parent = Some \<lparr>n_kind = Directory, n_uid = 0, n_gid = 0, n_mode = 0x1ED, n_ino = (0, 1), n_bytes = []\<rparr>,
     cn_socket = Some \<lparr>n_kind = Socket, n_uid = 0, n_gid = 0, n_mode = 0x1B0, n_ino = (0, 2), n_bytes = []\<rparr>,
     cn_connects = True, cn_peer = Some \<lparr>pc_length = 12, pc_pid = 1, pc_uid = 0, pc_gid = 0\<rparr>, cn_timeouts = True,
     cn_stream = letters ls\<rparr>"

definition client_state :: "string \<Rightarrow> nat option list \<Rightarrow> client" where
  "client_state ls local = \<lparr>cl_connection = (\<lambda>_. client_connection ls), cl_connects = 0, cl_in = letters ls, cl_writes = [],
     cl_peeks = [], cl_sent = [], cl_local = local, cl_output = (\<lambda>_. [])\<rparr>"

definition client_request :: invocation_request where
  "client_request = \<lparr>iq_authority_id = ''release'', iq_repository = ''/srv'', iq_ota_arguments = [''run'', ''x'']\<rparr>"

definition client_archive :: archive_request where
  "client_archive = the (client_archive_request client_sample_env ''release'' ''rid'' client_signed_frame)"

definition client_run :: "(client_error, invocation_result) outcome \<times> client" where
  "client_run = invoke_with_writers client_sample_env client_request Immediate (client_state ''ABCDFRT'' [])"

lemmas client_sample_env_defs = client_sample_env_def session_env_def sample_wire_env_def sample_fin_env_def
  slot_env.defs fin_env.defs wire_env.defs client_env.defs

lemma client_codec_sample: "client_codec client_sample_env"
proof -
  let ?E = client_sample_env
  have "framed ?E payload frame \<and> reads_back ?E m payload"
    if "message_to_vec ?E m = Some payload" "encode_frame ?E payload = Some frame" for m payload frame
  proof -
    from that(1) obtain c where c: "payload = [c]" "(m, c) \<in> set client_table"
      by (auto simp: client_sample_env_defs dest!: map_of_SomeD)
    have "to_be_bytes 1 = sample_header" by code_simp
    with that(2) c(1) have "framed ?E payload frame"
      by (auto simp: framed_def client_sample_env_defs sample_encode_frame_def sample_header_def)
    moreover from c have "reads_back ?E m payload"
      by (auto simp: client_table_def reads_back_def client_sample_env_defs client_value_def client_letter_def
          json_message_kind_def value_message_def output_message_def signed_message_frame_def terminal_message_def response_message_def)
    ultimately show ?thesis by blast
  qed
  moreover have "distinct (map (protocol_constant ?E)
       [''LAUNCHER_OUTPUT'', ''LAUNCHER_SIGNED_EXECUTION_FINALIZATION'', ''LAUNCHER_TERMINAL''])" by code_simp
  ultimately show ?thesis by (auto simp: client_codec_def)
qed

lemma client_run_facts:
  "is_Ok (fst client_run)" "length (cl_sent (snd client_run)) = 4" "cl_connects (snd client_run) = 1"
  "cl_output (snd client_run) Stdout = ''hello''"
proof -
  have "case client_run of (r, s) \<Rightarrow> is_Ok r \<and> length (cl_sent s) = 4 \<and> cl_connects s = 1 \<and> cl_output s Stdout = ''hello''"
    by code_simp
  then show "is_Ok (fst client_run)" "length (cl_sent (snd client_run)) = 4" "cl_connects (snd client_run) = 1"
    "cl_output (snd client_run) Stdout = ''hello''" by (simp_all add: case_prod_beta)
qed

theorem invoke_converses_witness:
  "\<exists>x i rid A1. fst client_run = Ok x \<and> cl_sent (snd client_run) = InvocationRequestMsg i # A1 \<and> length A1 = 3 \<and>
     trusted (client_connection ''ABCDFRT'') \<and>
     direct_session client_sample_env ''release'' rid (pending (letters ''ABCDFRT'')) (Concluded (iv_terminal x)) A1"
proof -
  from client_run_facts(1) obtain x where x: "fst client_run = Ok x" by (cases "fst client_run") auto
  then have "invoke_with_writers client_sample_env client_request Immediate (client_state ''ABCDFRT'' []) = (Ok x, snd client_run)"
    by (metis client_run_def prod.collapse)
  from invoke_converses [OF this] obtain i rid A1 where "cl_sent (snd client_run) = InvocationRequestMsg i # A1"
    "over_connection (client_connection ''ABCDFRT'') (InvocationRequestMsg i) (spoken client_sample_env ''release'' rid)
       (InvocationRequestMsg i # A1)"
    "direct_session client_sample_env ''release'' rid (pending (letters ''ABCDFRT'')) (Concluded (iv_terminal x)) A1"
    by (auto simp: client_state_def client_request_def client_connection_def)
  with x client_run_facts(2) show ?thesis by (auto simp: over_connection_def)
qed


theorem client_output_in_order_witness:
  "\<exists>fs s'. read_session client_sample_env ''release'' ''rid'' (client_state ''ABCDFRT'' []) = (Ok sample_terminal, s') \<and>
     list_all (validate_launcher_output_frame_v1 client_sample_env) fs \<and>
     (\<forall>i < length fs. unat (of_sequence (fs ! i)) = i) \<and> frames_of Stdout fs = ''hello'' \<and> frames_of Stderr fs = ''x''"
proof -
  let ?run = "read_session client_sample_env ''release'' ''rid'' (client_state ''ABCDFRT'' [])"
  have "case ?run of (r, s) \<Rightarrow> r = Ok sample_terminal \<and> cl_output s Stdout = ''hello'' \<and> cl_output s Stderr = ''x''"
    by code_simp
  then have run: "?run = (Ok sample_terminal, snd ?run)" and out: "cl_output (snd ?run) Stdout = ''hello''"
    "cl_output (snd ?run) Stderr = ''x''" by (simp_all add: case_prod_beta prod_eq_iff)
  from client_output_in_order [OF run] obtain fs where fs: "list_all (validate_launcher_output_frame_v1 client_sample_env) fs"
    "\<forall>i < length fs. unat (of_sequence (fs ! i)) = i"
    "\<forall>st. cl_output (snd ?run) st = cl_output (client_state ''ABCDFRT'' []) st @ frames_of st fs"
    by (auto simp: list_all_iff)
  from fs(3) out have "frames_of Stdout fs = ''hello''" "frames_of Stderr fs = ''x''" by (simp_all add: client_state_def)
  with fs run show ?thesis by blast
qed

theorem session_reproduces_output_witness:
  "\<exists>s'. read_session client_sample_env ''release'' ''rid'' (client_state ''ABCDFRT'' []) = (Ok sample_terminal, s') \<and>
     cl_output s' Stdout = ''hello'' \<and> cl_output s' Stderr = ''x'' \<and> length (cl_sent s') = 3"
proof -
  let ?E = client_sample_env and ?l = "sample_relay_state Intent [] []" and ?s = "client_state ''ABCDFRT'' []"
  let ?source = "\<lambda>st. case st of Stdout \<Rightarrow> [Bytes ''hello''] | Stderr \<Rightarrow> [ReadInterrupted, Bytes ''x'']"
  let ?run = "relay_outputs ?E ''i'' [Stdout] ?source ?l"
  let ?q = client_archive
  let ?p = "the (client_archive_persistence ?E ?q client_response)" and ?tp = "the (client_terminal_persistence ?E sample_terminal)"
  have space: "0 < max_launcher_output_payload_bytes ?E" by code_simp
  have ended: "op_done (fst ?run) Stdout = Some (Inr ())" "op_done (fst ?run) Stderr = Some (Inr ())" by code_simp+
  have "wi_sent ?l = []" "length (wi_sent (snd ?run)) = 4" by code_simp+
  then have sent: "wi_sent (snd ?run) = wi_sent ?l @ wi_sent (snd ?run)" "length (wi_sent (snd ?run)) < 2 ^ 64" by simp_all
  have close: "closing ?E ''release'' ''rid'' client_signed_frame client_response sample_terminal ?q ?p ?tp" by code_simp
  have encoded: "\<forall>m \<in> {SignedFinalizationMsg client_signed_frame, ArchiveResponseMsg client_response, TerminalMsg sample_terminal}.
      frame_of ?E m \<noteq> None" by code_simp
  have calm: "calm ?s" by code_simp
  have stream: "pending (cl_in ?s) = client_stream ?E (map (\<lambda>(p, m, w). m) (wi_sent (snd ?run)) @
      [SignedFinalizationMsg client_signed_frame, ArchiveResponseMsg client_response, TerminalMsg sample_terminal])" by code_simp
  from session_reproduces_output [OF client_codec_sample space prod.collapse [symmetric] ended sent close encoded calm stream]
  obtain s' where "read_session ?E ''release'' ''rid'' ?s = (Ok sample_terminal, s')"
    "\<forall>st. cl_output s' st = cl_output ?s st @ pending (?source st)"
    "cl_sent s' = cl_sent ?s @ [ArchiveRequestMsg ?q, ArchivePersistenceMsg ?p, TerminalPersistenceMsg ?tp]" by blast
  then show ?thesis by (simp add: client_state_def)
qed

theorem started_reported_as_not_started_witness:
  "\<exists>s' i. invoke_with_writers client_sample_env client_request Immediate (client_state ''A'' [Some 1]) = (Err LocalBoundary, s') \<and>
     cl_sent s' = [InvocationRequestMsg i] \<and> execution_started LocalBoundary = Some False"
proof -
  let ?E = client_sample_env and ?s = "client_state ''A'' [Some 1]" and ?f = "client_frame 0 Stdout ''he''"
  have "case prepare_invocation ?E client_request of Inr (i, rid) \<Rightarrow> sendable ?E (InvocationRequestMsg i) | _ \<Rightarrow> False" by code_simp
  then obtain i rid where i: "prepare_invocation ?E client_request = Inr (i, rid)" "sendable ?E (InvocationRequestMsg i)"
    by (auto split: sum.splits)
  have conn: "connect_checks (cl_connection ?s (cl_connects ?s)) = Inr ()" by code_simp
  have frame: "launcher_frame ?E ?f" "of_sequence ?f = 0" by code_simp+
  have bytes: "pending (cn_stream (cl_connection ?s (cl_connects ?s))) = the (frame_of ?E (OutputMsg ?f)) @ []" by code_simp
  have state: "cl_writes ?s = []" "cl_local ?s = Some 1 # []" "cl_sent ?s = []" by (simp_all add: client_state_def)
  from started_reported_as_not_started [OF client_codec_sample i(1) conn state(1) i(2) frame bytes state(2), of Immediate] state(3)
  show ?thesis by auto
qed

end
