(* ===== verification/Launcher_Config.thy ===== *)
theory Launcher_Config
  imports Recovery
begin

text \<open>
  The configuration of the launcher (\<open>src/config.rs\<close>), what the service looks up in it (\<open>select_mapping\<close> of
  \<open>src/systemd_service.rs\<close>) and the choice of an allowed repository root (\<open>src/target_directory.rs\<close>).

  A path is kept as it is spelled and compared by its components, as \<open>std::path::Path\<close> does. A set
  that a loop fills is the list of what was inserted. The JSON codec, the identity functions of the
  protocol crate and SHA-256 are fields of \<open>config_env\<close>.
\<close>


section \<open>Records\<close>

record run_as =
  ra_uid :: nat
  ra_gid :: nat

record session_peer =
  sp_uid :: nat
  sp_gid :: nat

record launcher_session_binding =
  lb_authority_id :: string
  lb_broker_session_descriptor :: int
  lb_expected_peer :: session_peer

record launcher_config =
  lg_schema_version :: nat
  lg_ota_binary :: string
  lg_run_as :: run_as
  lg_environment :: "(string \<times> string) list"
  lg_sessions :: "launcher_session_binding list"

record closed_profile =
  cp_runner_service_unit :: string
  cp_runner_service_fragment_path :: string
  cp_runner_service_drop_in_paths :: "string list"
  cp_non_login_shell :: string
  cp_host_control_sockets :: "string list"

record attestation_claims =
  ac_authenticated_origin :: string
  ac_authority_mounts :: "string list"
  ac_requested_maximum_validity_seconds :: nat

record principal_mapping_config =
  pm_authority_id :: string
  pm_job_peer :: session_peer
  pm_execution :: run_as
  pm_closed_profile :: "closed_profile option"

record service_config =
  sv_schema_version :: nat
  sv_identity :: string
  sv_adapter :: string
  sv_socket_path :: string
  sv_socket_group_gid :: nat
  sv_ota_binary :: string
  sv_environment :: "(string \<times> string) list"
  sv_allowed_repository_roots :: "string list"
  sv_mappings :: "principal_mapping_config list"
  sv_broker_proxy_socket :: string
  sv_broker_proxy_peer :: session_peer
  sv_service_unit_identity :: string
  sv_socket_unit_identity :: string
  sv_ota_binary_identity :: string
  sv_broker_proxy_executable_identity :: string
  sv_broker_proxy_identity :: string
  sv_attestor_key_set_identity :: string
  sv_attestation_claims :: "attestation_claims option"
  sv_maximum_request_bytes :: nat
  sv_maximum_active_sessions :: nat
  sv_maximum_startup_seconds :: nat
  sv_maximum_terminal_wait_seconds :: nat

record core_broker_binding =
  bb_authority_id :: string
  bb_kind :: string
  bb_descriptor :: int

record core_broker_store =
  bs_schema_version :: nat
  bs_bindings :: "core_broker_binding list"

record unix_principal =
  up_uid :: nat
  up_gid :: nat

text \<open>The four user ids and the four gid ids of a principal are set to the same value.\<close>

record principal_mapping =
  pr_schema_version :: nat
  pr_identity :: string
  pr_job_peer :: unix_principal
  pr_execution :: unix_principal
  pr_job_principal_profile_identity :: string
  pr_launcher_session_binding_identity :: string

record config_env =
  frame_limit :: nat
  launcher_adapter :: string
  service_config_message_identity :: "service_config \<Rightarrow> string option"
  job_principal_profile_v2_identity :: "string option"
  launcher_principal_mapping_identity :: "principal_mapping \<Rightarrow> string option"
  launcher_config_from_reader :: "string \<Rightarrow> launcher_config option"
  service_config_from_reader :: "string \<Rightarrow> service_config option"
  core_store_from_reader :: "string \<Rightarrow> core_broker_store option"
  sha256_identity :: "string \<Rightarrow> string"


section \<open>Values\<close>

definition name_byte :: "char \<Rightarrow> bool" where
  "name_byte c \<longleftrightarrow> is_ascii_alphanumeric c \<or> c = CHR ''_''"

definition is_environment_name :: "string \<Rightarrow> bool" where
  "is_environment_name v \<longleftrightarrow> v \<noteq> [] \<and> length v \<le> 128 \<and> list_all name_byte v"

text \<open>\<open>char::is_control\<close> on the bytes of a valid string: the C0 controls, delete, and the C1 controls.\<close>

fun has_control :: "string \<Rightarrow> bool" where
  "has_control [] = False"
| "has_control (c # cs) =
     (c \<le> CHR 0x1F \<or> c = CHR 0x7F
      \<or> (c = CHR 0xC2 \<and> (case cs of d # _ \<Rightarrow> byte_in (CHR 0x80) (CHR 0x9F) d | [] \<Rightarrow> False))
      \<or> has_control cs)"

definition is_bounded_public_value :: "string \<Rightarrow> bool" where
  "is_bounded_public_value v \<longleftrightarrow> v \<noteq> [] \<and> length v \<le> 512 \<and> \<not> has_control v"

definition dotted :: "string \<Rightarrow> bool" where
  "dotted p \<longleftrightarrow> list_ex (\<lambda>c. c = CurDir \<or> c = ParentDir) (components p)"

fun unique_absolute_paths_from :: "path list \<Rightarrow> string list \<Rightarrow> bool" where
  "unique_absolute_paths_from seen [] = True"
| "unique_absolute_paths_from seen (p # ps) =
     (path_is_absolute p \<and> \<not> dotted p \<and> components p \<notin> set seen \<and> unique_absolute_paths_from (components p # seen) ps)"

definition unique_absolute_paths :: "string list \<Rightarrow> bool" where
  "unique_absolute_paths ps = unique_absolute_paths_from [] ps"


section \<open>The legacy configuration\<close>

fun validate_sessions :: "string list \<Rightarrow> int list \<Rightarrow> launcher_session_binding list \<Rightarrow> config_error + unit" where
  "validate_sessions authorities descriptors [] = Inr ()"
| "validate_sessions authorities descriptors (s # ss) =
     (if \<not> is_bounded_label (lb_authority_id s) \<or> lb_broker_session_descriptor s < 3
         \<or> lb_authority_id s \<in> set authorities \<or> lb_broker_session_descriptor s \<in> set descriptors
      then Inl Unsupported
      else validate_sessions (lb_authority_id s # authorities) (lb_broker_session_descriptor s # descriptors) ss)"

definition validate_launcher_config :: "launcher_config \<Rightarrow> config_error + unit" where
  "validate_launcher_config c =
     (if lg_schema_version c \<noteq> 1 \<or> \<not> path_is_absolute (lg_ota_binary c) \<or> ra_uid (lg_run_as c) = 0 \<or> ra_gid (lg_run_as c) = 0
         \<or> list_ex (\<lambda>(name, _). \<not> is_environment_name name) (lg_environment c) \<or> lg_sessions c = []
      then Inl Unsupported
      else validate_sessions [] [] (lg_sessions c))"

definition config_session :: "launcher_config \<Rightarrow> string \<Rightarrow> config_error + launcher_session_binding" where
  "config_session c authority =
     (case filter (\<lambda>s. lb_authority_id s = authority) (lg_sessions c) of
        [s] \<Rightarrow> Inr s
      | _ \<Rightarrow> Inl AuthorityUnavailable)"

definition select_core_binding :: "core_broker_store \<Rightarrow> string \<Rightarrow> config_error + int" where
  "select_core_binding store authority =
     (if bs_schema_version store \<noteq> 1 then Inl Unsupported
      else (case filter (\<lambda>b. bb_authority_id b = authority) (bs_bindings store) of
              [b] \<Rightarrow> if bb_kind b \<noteq> ''launcher_session_fd'' \<or> bb_descriptor b < 3 then Inl AuthorityUnavailable
                     else Inr (bb_descriptor b)
            | _ \<Rightarrow> Inl AuthorityUnavailable))"


section \<open>The configuration of the service\<close>

definition service_config_identity :: "config_env \<Rightarrow> service_config \<Rightarrow> config_error + string" where
  "service_config_identity E c =
     (case service_config_message_identity E (c\<lparr>sv_identity := []\<rparr>) of Some i \<Rightarrow> Inr i | None \<Rightarrow> Inl Malformed)"

definition reserved_names :: "string list" where
  "reserved_names = [''OTA_LAUNCHER_PRINCIPAL_MAPPING_IDENTITY'', ''OTA_SYSTEMD_LAUNCHER_STARTUP_GATE'']"

definition environment_refused :: "string \<times> string \<Rightarrow> bool" where
  "environment_refused e \<longleftrightarrow>
     \<not> is_environment_name (fst e) \<or> fst e \<in> set reserved_names \<or> length (snd e) > 4096 \<or> CHR 0x00 \<in> set (snd e)"

definition claims_refused :: "attestation_claims \<Rightarrow> bool" where
  "claims_refused a \<longleftrightarrow>
     \<not> is_bounded_public_value (ac_authenticated_origin a) \<or> ac_authority_mounts a = []
     \<or> length (ac_authority_mounts a) > 16 \<or> list_ex (\<lambda>v. \<not> is_bounded_label v) (ac_authority_mounts a)
     \<or> ac_requested_maximum_validity_seconds a = 0 \<or> ac_requested_maximum_validity_seconds a > 600"

definition limits_refused :: "config_env \<Rightarrow> service_config \<Rightarrow> bool" where
  "limits_refused E c \<longleftrightarrow>
     sv_schema_version c \<noteq> 1
     \<or> sv_adapter c \<noteq> launcher_adapter E
     \<or> components (sv_socket_path c) \<noteq> components ''/run/ota/authority-launcher.sock''
     \<or> sv_socket_group_gid c = 0
     \<or> \<not> path_is_absolute (sv_ota_binary c)
     \<or> \<not> path_is_absolute (sv_broker_proxy_socket c)
     \<or> components (sv_broker_proxy_socket c) = components (sv_socket_path c)
     \<or> sv_allowed_repository_roots c = []
     \<or> sv_mappings c = []
     \<or> sv_maximum_request_bytes c = 0 \<or> sv_maximum_request_bytes c > frame_limit E
     \<or> sv_maximum_active_sessions c = 0 \<or> sv_maximum_active_sessions c > 16
     \<or> sv_maximum_startup_seconds c = 0 \<or> sv_maximum_startup_seconds c > 600
     \<or> sv_maximum_terminal_wait_seconds c = 0 \<or> sv_maximum_terminal_wait_seconds c > 3600
     \<or> \<not> is_sha256_identity (sv_service_unit_identity c)
     \<or> \<not> is_sha256_identity (sv_socket_unit_identity c)
     \<or> \<not> is_sha256_identity (sv_ota_binary_identity c)
     \<or> \<not> is_sha256_identity (sv_broker_proxy_executable_identity c)
     \<or> \<not> is_sha256_identity (sv_broker_proxy_identity c)
     \<or> \<not> is_sha256_identity (sv_attestor_key_set_identity c)
     \<or> sp_uid (sv_broker_proxy_peer c) \<noteq> 0 \<or> sp_gid (sv_broker_proxy_peer c) \<noteq> 0
     \<or> length (sv_environment c) > 64
     \<or> list_ex environment_refused (sv_environment c)
     \<or> is_some_and claims_refused (sv_attestation_claims c)"

fun validate_roots :: "path list \<Rightarrow> string list \<Rightarrow> config_error + unit" where
  "validate_roots seen [] = Inr ()"
| "validate_roots seen (r # rs) =
     (if \<not> path_is_absolute r \<or> components r = [RootDir] \<or> dotted r \<or> components r \<in> set seen then Inl Unsupported
      else validate_roots (components r # seen) rs)"

text \<open>The two nested loops: a root against every later one.\<close>

fun roots_overlap :: "string list \<Rightarrow> bool" where
  "roots_overlap [] = False"
| "roots_overlap (r # rs) =
     (list_ex (\<lambda>s. prefix (components s) (components r) \<or> prefix (components r) (components s)) rs \<or> roots_overlap rs)"

definition profile_refused :: "closed_profile \<Rightarrow> bool" where
  "profile_refused p \<longleftrightarrow>
     \<not> ends_with ''.service'' (cp_runner_service_unit p) \<or> \<not> is_bounded_label (cp_runner_service_unit p)
     \<or> \<not> path_is_absolute (cp_runner_service_fragment_path p) \<or> \<not> path_is_absolute (cp_non_login_shell p)
     \<or> cp_host_control_sockets p = [] \<or> \<not> unique_absolute_paths (cp_runner_service_drop_in_paths p)
     \<or> \<not> unique_absolute_paths (cp_host_control_sockets p)"

definition principal_refused :: "nat \<Rightarrow> principal_mapping_config \<Rightarrow> bool" where
  "principal_refused gid m \<longleftrightarrow>
     \<not> is_bounded_label (pm_authority_id m)
     \<or> sp_uid (pm_job_peer m) = 0 \<or> sp_gid (pm_job_peer m) = 0 \<or> sp_gid (pm_job_peer m) \<noteq> gid
     \<or> ra_uid (pm_execution m) = 0 \<or> ra_gid (pm_execution m) = 0
     \<or> (sp_uid (pm_job_peer m) = ra_uid (pm_execution m) \<and> sp_gid (pm_job_peer m) = ra_gid (pm_execution m))"

fun validate_mappings ::
  "nat \<Rightarrow> string list \<Rightarrow> session_peer list \<Rightarrow> run_as list \<Rightarrow> principal_mapping_config list \<Rightarrow> config_error + unit" where
  "validate_mappings gid authorities peers executions [] = Inr ()"
| "validate_mappings gid authorities peers executions (m # ms) =
     (if principal_refused gid m \<or> pm_authority_id m \<in> set authorities \<or> pm_job_peer m \<in> set peers
         \<or> pm_execution m \<in> set executions
      then Inl Unsupported
      else if is_some_and profile_refused (pm_closed_profile m) then Inl Unsupported
      else validate_mappings gid (pm_authority_id m # authorities) (pm_job_peer m # peers)
             (pm_execution m # executions) ms)"

definition validate_service_config :: "config_env \<Rightarrow> service_config \<Rightarrow> config_error + unit" where
  "validate_service_config E c =
     (if limits_refused E c then Inl Unsupported
      else case validate_roots [] (sv_allowed_repository_roots c) of
        Inl e \<Rightarrow> Inl e
      | Inr _ \<Rightarrow>
          if roots_overlap (sv_allowed_repository_roots c) then Inl Unsupported
          else case validate_mappings (sv_socket_group_gid c) [] [] [] (sv_mappings c) of
            Inl e \<Rightarrow> Inl e
          | Inr _ \<Rightarrow>
             (case service_config_identity E c of
                Inl e \<Rightarrow> Inl e
              | Inr i \<Rightarrow> if sv_identity c \<noteq> i then Inl Unprotected else Inr ()))"

definition systemd_principal_mapping ::
  "config_env \<Rightarrow> service_config \<Rightarrow> principal_mapping_config \<Rightarrow> config_error + principal_mapping" where
  "systemd_principal_mapping E c m =
     (case job_principal_profile_v2_identity E of
        None \<Rightarrow> Inl Malformed
      | Some profile \<Rightarrow>
         (let r = \<lparr>pr_schema_version = 1, pr_identity = [],
            pr_job_peer = \<lparr>up_uid = sp_uid (pm_job_peer m), up_gid = sp_gid (pm_job_peer m)\<rparr>,
            pr_execution = \<lparr>up_uid = ra_uid (pm_execution m), up_gid = ra_gid (pm_execution m)\<rparr>,
            pr_job_principal_profile_identity = profile, pr_launcher_session_binding_identity = sv_identity c\<rparr> in
          case launcher_principal_mapping_identity E r of
            None \<Rightarrow> Inl Malformed
          | Some i \<Rightarrow> Inr (r\<lparr>pr_identity := i\<rparr>)))"


section \<open>Loading\<close>

definition open_protected_file :: "path \<Rightarrow> nat \<Rightarrow> path \<Rightarrow> (world, config_error, fnode) proc" where
  "open_protected_file p uid root =
     and_then (verify_protected_path p uid root ProtectedFile) (\<lambda>_.
     and_then (map_err (\<lambda>_. Unavailable) (open_nofollow p)) (\<lambda>opened.
     and_then (map_err (\<lambda>_. Unavailable) (symlink_metadata p)) (\<lambda>observed.
       if n_ino opened \<noteq> n_ino observed then throw Unprotected else ret opened)))"

definition open_protected_executable :: "path \<Rightarrow> nat \<Rightarrow> path \<Rightarrow> (world, config_error, fnode) proc" where
  "open_protected_executable p uid root =
     and_then (verify_protected_path p uid root ProtectedExecutable) (\<lambda>_.
     and_then (map_err (\<lambda>_. Unavailable) (open_nofollow p)) (\<lambda>opened.
     and_then (map_err (\<lambda>_. Unavailable) (symlink_metadata p)) (\<lambda>observed.
       if n_ino opened \<noteq> n_ino observed \<or> n_kind opened \<noteq> RegularFile \<or> n_uid opened \<noteq> uid
          \<or> n_mode opened AND 18 \<noteq> 0 \<or> n_mode opened AND 73 = 0 \<or> n_mode opened AND 3072 \<noteq> 0
       then throw Unprotected else ret opened)))"

definition sha256_file_identity :: "config_env \<Rightarrow> fnode \<Rightarrow> (world, config_error, string) proc" where
  "sha256_file_identity E n =
     and_then (map_err (\<lambda>_. Unavailable) (read_to_end n)) (\<lambda>bytes. ret (sha256_identity E bytes))"

definition read_config :: "(string \<Rightarrow> 'a option) \<Rightarrow> fnode \<Rightarrow> (world, config_error, 'a) proc" where
  "read_config parse n =
     and_then (map_err (\<lambda>_. Malformed) (read_to_end n)) (\<lambda>bytes.
       case parse bytes of Some c \<Rightarrow> ret c | None \<Rightarrow> throw Malformed)"

definition load_launcher_config :: "config_env \<Rightarrow> string \<Rightarrow> (world, config_error, launcher_config) proc" where
  "load_launcher_config E p =
     and_then (open_protected_file (components p) 0 [RootDir]) (\<lambda>file.
     and_then (read_config (launcher_config_from_reader E) file) (\<lambda>c.
     and_then (lift_result (validate_launcher_config c)) (\<lambda>_.
     and_then (verify_protected_executable (components (lg_ota_binary c)) 0 [RootDir]) (\<lambda>_. ret c))))"

definition load_service_config :: "config_env \<Rightarrow> string \<Rightarrow> (world, config_error, service_config \<times> fnode) proc" where
  "load_service_config E p =
     and_then (open_protected_file (components p) 0 [RootDir]) (\<lambda>file.
     and_then (read_config (service_config_from_reader E) file) (\<lambda>c.
     and_then (lift_result (validate_service_config E c)) (\<lambda>_.
     and_then (open_protected_executable (components (sv_ota_binary c)) 0 [RootDir]) (\<lambda>binary.
     and_then (sha256_file_identity E binary) (\<lambda>i.
       if i \<noteq> sv_ota_binary_identity c then throw Unprotected else ret (c, binary))))))"

definition load_core_binding :: "config_env \<Rightarrow> string \<Rightarrow> string \<Rightarrow> (world, config_error, int) proc" where
  "load_core_binding E p authority =
     and_then (open_protected_file (components p) 0 [RootDir]) (\<lambda>file.
     and_then (read_config (core_store_from_reader E) file) (\<lambda>store.
       lift_result (select_core_binding store authority)))"


section \<open>Looking up\<close>

definition select_mapping :: "service_config \<Rightarrow> string \<Rightarrow> session_peer \<Rightarrow> systemd_service_error + principal_mapping_config" where
  "select_mapping c authority peer =
     (case find (\<lambda>m. pm_authority_id m = authority \<and> sp_uid (pm_job_peer m) = sp_uid peer \<and> sp_gid (pm_job_peer m) = sp_gid peer)
             (sv_mappings c) of
        Some m \<Rightarrow> Inr m
      | None \<Rightarrow> Inl PeerUnmapped)"

definition select_allowed_root :: "service_config \<Rightarrow> string \<Rightarrow> target_directory_error + string \<times> path" where
  "select_allowed_root c requested =
     (if \<not> path_is_absolute requested \<or> dotted requested then Inl OutsideAllowedRoots
      else case filter (\<lambda>r. prefix (components r) (components requested)) (sv_allowed_repository_roots c) of
        [r] \<Rightarrow>
          (let relative = drop (length (components r)) (components requested) in
           Inr (r, if relative = [] then [CurDir] else relative))
      | _ \<Rightarrow> Inl OutsideAllowedRoots)"



section \<open>What an accepted configuration is\<close>

text \<open>Loops that fill a set accept exactly the lists without a duplicate.\<close>

lemma validate_roots_iff:
  "validate_roots seen rs = Inr () \<longleftrightarrow>
     (\<forall>r \<in> set rs. path_is_absolute r \<and> components r \<noteq> [RootDir] \<and> \<not> dotted r \<and> components r \<notin> set seen) \<and>
     distinct (map components rs)"
  by (induction seen rs rule: validate_roots.induct) (auto simp: image_iff)

lemma validate_roots_error: "validate_roots seen rs = Inl e \<Longrightarrow> e = Unsupported"
  by (induction seen rs rule: validate_roots.induct) (auto split: if_splits)

lemma roots_overlap_iff:
  "roots_overlap rs \<longleftrightarrow> (\<exists>i j. i < j \<and> j < length rs \<and>
     (prefix (components (rs ! j)) (components (rs ! i)) \<or> prefix (components (rs ! i)) (components (rs ! j))))"
proof (induction rs)
  case (Cons r rs)
  let ?P = "\<lambda>r s. prefix (components s) (components r) \<or> prefix (components r) (components s)"
  have "(\<exists>i j. i < j \<and> j < length (r # rs) \<and> ?P ((r # rs) ! i) ((r # rs) ! j)) \<longleftrightarrow>
      (\<exists>j < length rs. ?P r (rs ! j)) \<or> (\<exists>i j. i < j \<and> j < length rs \<and> ?P (rs ! i) (rs ! j))"
    (is "?L \<longleftrightarrow> ?A \<or> ?B")
  proof
    assume ?L
    then obtain i j where "i < j" "j < length (r # rs)" "?P ((r # rs) ! i) ((r # rs) ! j)" by blast
    then show "?A \<or> ?B" by (cases i; cases j) auto
  next
    assume "?A \<or> ?B"
    then show ?L
    proof
      assume ?A
      then obtain j where "j < length rs" "?P r (rs ! j)" by blast
      then show ?L by (intro exI [of _ 0] exI [of _ "Suc j"]) simp
    next
      assume ?B
      then obtain i j where "i < j" "j < length rs" "?P (rs ! i) (rs ! j)" by blast
      then show ?L by (intro exI [of _ "Suc i"] exI [of _ "Suc j"]) simp
    qed
  qed
  with Cons.IH show ?case by (simp add: list_ex_length del: nth_Cons)
qed simp

lemma validate_mappings_iff:
  "validate_mappings gid as ps es ms = Inr () \<longleftrightarrow>
     (\<forall>m \<in> set ms. \<not> principal_refused gid m \<and> \<not> is_some_and profile_refused (pm_closed_profile m) \<and>
        pm_authority_id m \<notin> set as \<and> pm_job_peer m \<notin> set ps \<and> pm_execution m \<notin> set es) \<and>
     distinct (map pm_authority_id ms) \<and> distinct (map pm_job_peer ms) \<and> distinct (map pm_execution ms)"
  by (induction gid as ps es ms rule: validate_mappings.induct) (auto simp: image_iff)

lemma validate_mappings_error: "validate_mappings gid as ps es ms = Inl e \<Longrightarrow> e = Unsupported"
  by (induction gid as ps es ms rule: validate_mappings.induct) (auto split: if_splits)

text \<open>
  \<open>config_shape\<close>: the limits hold, the roots are plain absolute paths none of which lies within another,
  and the mappings are fit and share no authority, no peer and no execution principal.
\<close>

definition config_shape :: "config_env \<Rightarrow> service_config \<Rightarrow> bool" where
  "config_shape E c \<longleftrightarrow>
     \<not> limits_refused E c \<and>
     (\<forall>r \<in> set (sv_allowed_repository_roots c). path_is_absolute r \<and> components r \<noteq> [RootDir] \<and> \<not> dotted r) \<and>
     (\<forall>i < length (sv_allowed_repository_roots c). \<forall>j < length (sv_allowed_repository_roots c).
        prefix (components (sv_allowed_repository_roots c ! i)) (components (sv_allowed_repository_roots c ! j)) \<longrightarrow> i = j) \<and>
     (\<forall>m \<in> set (sv_mappings c). \<not> principal_refused (sv_socket_group_gid c) m \<and>
        \<not> is_some_and profile_refused (pm_closed_profile m)) \<and>
     distinct (map pm_authority_id (sv_mappings c)) \<and> distinct (map pm_job_peer (sv_mappings c)) \<and>
     distinct (map pm_execution (sv_mappings c))"

lemma roots_apart_iff:
  "(distinct (map components rs) \<and> \<not> roots_overlap rs) \<longleftrightarrow>
   (\<forall>i < length rs. \<forall>j < length rs. prefix (components (rs ! i)) (components (rs ! j)) \<longrightarrow> i = j)"
  (is "?L \<longleftrightarrow> ?R")
proof
  assume l: ?L
  show ?R
  proof (intro allI impI)
    fix i j assume ij: "i < length rs" "j < length rs" "prefix (components (rs ! i)) (components (rs ! j))"
    from l have no: "\<not> (i < j \<and> j < length rs)" "\<not> (j < i \<and> i < length rs)"
      unfolding roots_overlap_iff using ij(3) by blast+
    with ij(1,2) show "i = j" by linarith
  qed
next
  assume r: ?R
  then have "distinct (map components rs)" by (auto simp: distinct_conv_nth)
  moreover have "\<not> roots_overlap rs"
  proof
    assume "roots_overlap rs"
    then obtain i j where ij: "i < j" "j < length rs"
      "prefix (components (rs ! j)) (components (rs ! i)) \<or> prefix (components (rs ! i)) (components (rs ! j))"
      unfolding roots_overlap_iff by blast
    from r ij(1,2) have "\<not> prefix (components (rs ! j)) (components (rs ! i))" "\<not> prefix (components (rs ! i)) (components (rs ! j))"
      using less_trans [OF ij(1,2)] by blast+
    with ij(3) show False by blast
  qed
  ultimately show ?L ..
qed

lemma config_shape_iff:
  "config_shape E c \<longleftrightarrow> \<not> limits_refused E c \<and> validate_roots [] (sv_allowed_repository_roots c) = Inr () \<and>
     \<not> roots_overlap (sv_allowed_repository_roots c) \<and>
     validate_mappings (sv_socket_group_gid c) [] [] [] (sv_mappings c) = Inr ()"
  unfolding config_shape_def validate_roots_iff validate_mappings_iff
  using roots_apart_iff [of "sv_allowed_repository_roots c"] by auto

lemma validate_service_config_shape:
  "validate_service_config E c =
     (if \<not> config_shape E c then Inl Unsupported
      else case service_config_identity E c of
        Inl e \<Rightarrow> Inl e | Inr i \<Rightarrow> if sv_identity c \<noteq> i then Inl Unprotected else Inr ())"
  unfolding config_shape_iff validate_service_config_def
  by (auto split: sum.splits dest: validate_roots_error validate_mappings_error)

text \<open>
  The validation of the service configuration decides well-formedness. It accepts a configuration
  exactly when every limit holds, the repository roots are absolute paths without dots of which
  none contains another, the principal mappings are fit and pairwise different in authority, peer
  and execution principal, and the stated identity is the computed one; it tells a wrong identity,
  an identity that cannot be computed and every other defect apart.
\<close>

theorem service_config_validation:
  "(validate_service_config E c = Inr () \<longleftrightarrow>
      config_shape E c \<and> service_config_message_identity E (c\<lparr>sv_identity := []\<rparr>) = Some (sv_identity c)) \<and>
   (validate_service_config E c = Inl Unsupported \<longleftrightarrow> \<not> config_shape E c) \<and>
   (validate_service_config E c = Inl Malformed \<longleftrightarrow>
      config_shape E c \<and> service_config_message_identity E (c\<lparr>sv_identity := []\<rparr>) = None) \<and>
   (validate_service_config E c = Inl Unprotected \<longleftrightarrow>
      config_shape E c \<and> (\<exists>i. service_config_message_identity E (c\<lparr>sv_identity := []\<rparr>) = Some i \<and> i \<noteq> sv_identity c))"
  by (auto simp: validate_service_config_shape service_config_identity_def split: option.splits)



section \<open>What the service finds in an accepted configuration\<close>

lemma filter_unique:
  assumes "\<And>i j. i < length xs \<Longrightarrow> j < length xs \<Longrightarrow> P (xs ! i) \<Longrightarrow> P (xs ! j) \<Longrightarrow> i = j"
    and "x \<in> set xs" and "P x"
  shows "filter P xs = [x]"
  using assms
proof (induction xs)
  case (Cons y ys)
  have later: "i = j" if "i < length ys" "j < length ys" "P (ys ! i)" "P (ys ! j)" for i j
    using Cons.prems(1) [of "Suc i" "Suc j"] that by simp
  show ?case
  proof (cases "P y")
    case True
    have no: "\<not> P z" if "z \<in> set ys" for z
    proof
      assume "P z"
      from \<open>z \<in> set ys\<close> obtain j where "j < length ys" "z = ys ! j" by (auto simp: in_set_conv_nth)
      with Cons.prems(1) [of 0 "Suc j"] True \<open>P z\<close> show False by simp
    qed
    then have "filter P ys = []" by (simp add: filter_empty_conv)
    moreover from Cons.prems(2,3) no have "x = y" by auto
    ultimately show ?thesis using True by simp
  next
    case False
    with Cons.IH [OF later] Cons.prems(2,3) show ?thesis by auto
  qed
qed simp

lemma select_mapping_iff:
  assumes "distinct (map pm_job_peer (sv_mappings c))"
  shows "select_mapping c a peer = Inr m \<longleftrightarrow>
    m \<in> set (sv_mappings c) \<and> pm_authority_id m = a \<and> pm_job_peer m = peer"
proof -
  let ?P = "\<lambda>m. pm_authority_id m = a \<and> sp_uid (pm_job_peer m) = sp_uid peer \<and> sp_gid (pm_job_peer m) = sp_gid peer"
  have peers: "?P x \<longleftrightarrow> pm_authority_id x = a \<and> pm_job_peer x = peer" for x by auto
  have one: "x = y" if "x \<in> set (sv_mappings c)" "y \<in> set (sv_mappings c)" "?P x" "?P y" for x y
    using assms that peers by (auto simp: distinct_map inj_on_def)
  have "find ?P (sv_mappings c) = Some m \<longleftrightarrow> m \<in> set (sv_mappings c) \<and> ?P m"
  proof (cases "find ?P (sv_mappings c)")
    case None
    then have "\<not> (m \<in> set (sv_mappings c) \<and> ?P m)" unfolding find_None_iff by blast
    with None show ?thesis by simp
  next
    case (Some x)
    then have "x \<in> set (sv_mappings c)" "?P x" by (auto simp: find_Some_iff)
    with Some one [of x m] show ?thesis by auto
  qed
  then show ?thesis unfolding select_mapping_def peers by (auto split: option.splits)
qed

lemma select_allowed_root_iff:
  assumes "config_shape E c"
  shows "select_allowed_root c q = Inr (r, rel) \<longleftrightarrow>
    path_is_absolute q \<and> \<not> dotted q \<and> r \<in> set (sv_allowed_repository_roots c) \<and> rel \<noteq> [] \<and>
    components q = components r @ (if rel = [CurDir] then [] else rel)"
proof -
  let ?rs = "sv_allowed_repository_roots c" and ?P = "\<lambda>r. prefix (components r) (components q)"
  have one: "i = j" if "i < length ?rs" "j < length ?rs" "?P (?rs ! i)" "?P (?rs ! j)" for i j
  proof -
    from prefix_same_cases [OF that(3,4)] that(1,2) assms show ?thesis unfolding config_shape_def by metis
  qed
  have filt: "filter ?P ?rs = [r] \<longleftrightarrow> r \<in> set ?rs \<and> ?P r"
  proof
    assume f: "filter ?P ?rs = [r]"
    then have "r \<in> set (filter ?P ?rs)" by simp
    then show "r \<in> set ?rs \<and> ?P r" by simp
  qed (use filter_unique [of ?rs ?P r] one in blast)
  show ?thesis
  proof (cases "path_is_absolute q \<and> \<not> dotted q")
    case True
    let ?rel = "\<lambda>r. drop (length (components r)) (components q)"
    have sel: "select_allowed_root c q = Inr (r, rel) \<longleftrightarrow>
        filter ?P ?rs = [r] \<and> rel = (if ?rel r = [] then [CurDir] else ?rel r)"
      using True by (auto simp: select_allowed_root_def Let_def split: list.splits)
    have nodot: "?rel r \<noteq> [CurDir]" using True by (auto simp: dotted_def list_ex_iff dest: in_set_dropD) (metis in_set_dropD list.set_intros(1))
    show ?thesis
    proof
      assume "select_allowed_root c q = Inr (r, rel)"
      with sel filt have "r \<in> set ?rs" "?P r" "rel = (if ?rel r = [] then [CurDir] else ?rel r)" by auto
      with True nodot show "path_is_absolute q \<and> \<not> dotted q \<and> r \<in> set ?rs \<and> rel \<noteq> [] \<and>
          components q = components r @ (if rel = [CurDir] then [] else rel)"
        by (auto simp: prefix_def)
    next
      assume "path_is_absolute q \<and> \<not> dotted q \<and> r \<in> set ?rs \<and> rel \<noteq> [] \<and>
          components q = components r @ (if rel = [CurDir] then [] else rel)"
      then show "select_allowed_root c q = Inr (r, rel)" unfolding sel filt by (auto simp: prefix_def)
    qed
  qed (auto simp: select_allowed_root_def)
qed

text \<open>
  C35. Under an accepted configuration the lookups are unambiguous. A client is given a mapping exactly
  when one names its authority and its own user and group; it then runs as a principal that is
  neither root nor the client itself, and no other authority or client runs as that principal. A
  requested repository is accepted exactly when it is an absolute path without dots beneath an
  allowed root; that root is the only one, and the rest of the path leads from it to the
  repository.
\<close>

theorem accepted_lookups:
  assumes "validate_service_config E c = Inr ()"
  shows "(select_mapping c a peer = Inr m \<longleftrightarrow>
      m \<in> set (sv_mappings c) \<and> pm_authority_id m = a \<and> pm_job_peer m = peer) \<and>
    (select_mapping c a peer = Inr m \<longrightarrow>
      ra_uid (pm_execution m) \<noteq> 0 \<and> ra_gid (pm_execution m) \<noteq> 0 \<and>
      (ra_uid (pm_execution m), ra_gid (pm_execution m)) \<noteq> (sp_uid peer, sp_gid peer)) \<and>
    (select_mapping c a peer = Inr m \<and> select_mapping c a' peer' = Inr m' \<and> pm_execution m = pm_execution m' \<longrightarrow>
      a = a' \<and> peer = peer') \<and>
    (select_allowed_root c q = Inr (r, rel) \<longleftrightarrow>
      path_is_absolute q \<and> \<not> dotted q \<and> r \<in> set (sv_allowed_repository_roots c) \<and> rel \<noteq> [] \<and>
      components q = components r @ (if rel = [CurDir] then [] else rel))"
proof -
  from assms have shape: "config_shape E c" by (auto simp: validate_service_config_shape split: if_splits)
  then have peers: "distinct (map pm_job_peer (sv_mappings c))" and fit: "\<forall>m \<in> set (sv_mappings c). \<not> principal_refused (sv_socket_group_gid c) m"
    and runs: "distinct (map pm_execution (sv_mappings c))" by (auto simp: config_shape_def)
  note found = select_mapping_iff [OF peers]
  from runs have "m = m'" if "m \<in> set (sv_mappings c)" "m' \<in> set (sv_mappings c)" "pm_execution m = pm_execution m'" for m m'
    using that by (auto simp: distinct_map inj_on_def)
  moreover from fit have "ra_uid (pm_execution m) \<noteq> 0 \<and> ra_gid (pm_execution m) \<noteq> 0 \<and>
      (ra_uid (pm_execution m), ra_gid (pm_execution m)) \<noteq> (sp_uid (pm_job_peer m), sp_gid (pm_job_peer m))"
    if "m \<in> set (sv_mappings c)" for m
    using that by (auto simp: principal_refused_def)
  ultimately show ?thesis using select_allowed_root_iff [OF shape, of q r rel] found by auto
qed


section \<open>What loading shows\<close>

lemma verify_protected_path_chain:
  assumes "w_faults w = []" and "verify_protected_path p uid [RootDir] k w = (Ok (), w')" and "RootDir \<notin> set (tl p)"
  shows "w' = w \<and> chain_ok p uid [RootDir] k w"
proof -
  from assms(2) have pre: "path_absolute p" "prefix [RootDir] p"
    and run: "verify_candidates p uid [RootDir] k (rev p) w = (Ok (), w')"
    by (auto simp: verify_protected_path_def split: if_splits)
  have same: "snd (verify_candidates p uid root k cs w) = w" for root cs
  proof (induction cs)
    case (Cons c cs)
    then show ?case
      by (cases "node_at w (rev (c # cs))")
         (auto simp: Let_def and_then_def map_err_look assms(1) split: prod.splits outcome.splits)
  qed simp
  with run have w': "w' = w" by (metis snd_conv)
  have "rev p \<noteq> []" "prefix (rev (rev p)) p" "path_absolute [RootDir]"
    using pre by (auto simp: path_absolute_def)
  from verify_candidates_correct [OF assms(1) this(1) _ this(2,3)] pre(2) assms(3) run w'
  show ?thesis by (simp add: chain_ok_def)
qed

lemma components_root: "RootDir \<notin> set (tl (components s))"
proof -
  let ?cs = "concat (map component_of (split_on CHR ''/'' s))"
  have no: "RootDir \<notin> set ?cs" using component_of_no_root by auto
  have "set (tl xs) \<subseteq> set xs" for xs :: path by (cases xs) auto
  then have "RootDir \<notin> set (tl ?cs)" using no by blast
  with no show ?thesis by (simp add: components_def)
qed

lemma open_protected_file_Ok:
  assumes "w_faults w = []" and "open_protected_file (components p) uid [RootDir] w = (Ok n, w')"
  shows "w' = w \<and> node_at w (components p) = Some n \<and> chain_ok (components p) uid [RootDir] ProtectedFile w"
proof -
  from assms(2) obtain w1 where v: "verify_protected_path (components p) uid [RootDir] ProtectedFile w = (Ok (), w1)"
    by (auto simp: open_protected_file_def and_then_Ok_iff)
  from verify_protected_path_chain [OF assms(1) v components_root] assms v show ?thesis
    by (auto simp: open_protected_file_def and_then_def map_err_def open_nofollow_def symlink_metadata_def faulty_no_faults
        split: option.splits if_splits)
qed

lemma open_protected_executable_Ok:
  assumes "w_faults w = []" and "open_protected_executable (components p) uid [RootDir] w = (Ok n, w')"
  shows "w' = w \<and> node_at w (components p) = Some n \<and> chain_ok (components p) uid [RootDir] ProtectedExecutable w"
proof -
  from assms(2) obtain w1 where v: "verify_protected_path (components p) uid [RootDir] ProtectedExecutable w = (Ok (), w1)"
    by (auto simp: open_protected_executable_def and_then_Ok_iff)
  from verify_protected_path_chain [OF assms(1) v components_root] assms v show ?thesis
    by (auto simp: open_protected_executable_def and_then_def map_err_def open_nofollow_def symlink_metadata_def faulty_no_faults
        split: option.splits if_splits)
qed

lemma read_config_Ok:
  "w_faults w = [] \<Longrightarrow> read_config parse n w = (Ok c, w') \<longleftrightarrow> parse (n_bytes n) = Some c \<and> w' = w"
  by (auto simp: read_config_def and_then_def map_err_def read_to_end_def faulty_no_faults split: option.splits)

text \<open>
  A loaded configuration and its executable are the administrator's. When the service has loaded its
  configuration, the file and every directory above it belong to root, are no links and are
  writable by nobody else; the file decodes to a configuration that passed the validation; the
  same holds of the executable it names, which is executable without set-id bits, and whose
  content has exactly the identity the configuration states. Loading changes no file.
\<close>

theorem loaded_config_protected:
  assumes "w_faults w = []" and "load_service_config E p w = (Ok (c, binary), w')"
  shows "w' = w \<and> chain_ok (components p) 0 [RootDir] ProtectedFile w \<and>
    (\<exists>file. node_at w (components p) = Some file \<and> service_config_from_reader E (n_bytes file) = Some c) \<and>
    validate_service_config E c = Inr () \<and>
    chain_ok (components (sv_ota_binary c)) 0 [RootDir] ProtectedExecutable w \<and>
    node_at w (components (sv_ota_binary c)) = Some binary \<and>
    sha256_identity E (n_bytes binary) = sv_ota_binary_identity c"
proof -
  from assms(2) obtain conf w1 w2 w3 where f: "open_protected_file (components p) 0 [RootDir] w = (Ok conf, w1)"
    and c: "read_config (service_config_from_reader E) conf w1 = (Ok c, w2)"
    and v: "validate_service_config E c = Inr ()"
    and b: "open_protected_executable (components (sv_ota_binary c)) 0 [RootDir] w2 = (Ok binary, w3)"
    and i: "sha256_file_identity E binary w3 = (Ok (sv_ota_binary_identity c), w')"
    by (auto simp: load_service_config_def and_then_Ok_iff lift_result_Ok_iff split: if_splits)
  note opened = open_protected_file_Ok [OF assms(1) f]
  with c assms(1) have dec: "service_config_from_reader E (n_bytes conf) = Some c" "w2 = w" by (auto simp: read_config_Ok)
  with b have bin: "w3 = w \<and> node_at w (components (sv_ota_binary c)) = Some binary \<and>
      chain_ok (components (sv_ota_binary c)) 0 [RootDir] ProtectedExecutable w"
    using open_protected_executable_Ok [OF assms(1)] by blast
  with i assms(1) have "sha256_identity E (n_bytes binary) = sv_ota_binary_identity c" "w' = w"
    by (auto simp: sha256_file_identity_def and_then_def map_err_def read_to_end_def faulty_no_faults)
  with opened dec v bin show ?thesis by auto
qed



section \<open>A concrete configuration\<close>

definition sample_mapping :: "string \<Rightarrow> nat \<Rightarrow> nat \<Rightarrow> principal_mapping_config" where
  "sample_mapping a job run = \<lparr>pm_authority_id = a, pm_job_peer = \<lparr>sp_uid = job, sp_gid = 900\<rparr>,
     pm_execution = \<lparr>ra_uid = run, ra_gid = 901\<rparr>, pm_closed_profile = None\<rparr>"

definition config_digest :: string where
  "config_digest = ''sha256:'' @ replicate 64 CHR ''a''"

definition sample_service_config :: service_config where
  "sample_service_config = \<lparr>sv_schema_version = 1, sv_identity = ''id'', sv_adapter = ''systemd'',
     sv_socket_path = ''/run/ota/authority-launcher.sock'', sv_socket_group_gid = 900, sv_ota_binary = ''/ota'',
     sv_environment = [(''PATH'', ''/usr/bin'')], sv_allowed_repository_roots = [''/srv/a'', ''/srv/b/''],
     sv_mappings = [sample_mapping ''release'' 100 200, sample_mapping ''audit'' 101 201],
     sv_broker_proxy_socket = ''/run/proxy'', sv_broker_proxy_peer = \<lparr>sp_uid = 0, sp_gid = 0\<rparr>,
     sv_service_unit_identity = config_digest, sv_socket_unit_identity = config_digest,
     sv_ota_binary_identity = config_digest, sv_broker_proxy_executable_identity = config_digest,
     sv_broker_proxy_identity = config_digest, sv_attestor_key_set_identity = config_digest,
     sv_attestation_claims = None, sv_maximum_request_bytes = 9, sv_maximum_active_sessions = 2,
     sv_maximum_startup_seconds = 3, sv_maximum_terminal_wait_seconds = 3\<rparr>"

definition sample_config_env :: config_env where
  "sample_config_env = \<lparr>frame_limit = 9, launcher_adapter = ''systemd'', service_config_message_identity = (\<lambda>_. Some ''id''),
     job_principal_profile_v2_identity = Some ''p'', launcher_principal_mapping_identity = (\<lambda>_. Some ''m''),
     launcher_config_from_reader = (\<lambda>_. None),
     service_config_from_reader = (\<lambda>bs. if bs = ''{}'' then Some sample_service_config else None),
     core_store_from_reader = (\<lambda>_. None), sha256_identity = (\<lambda>bs. if bs = ''elf'' then config_digest else [])\<rparr>"

definition config_node :: "file_kind \<Rightarrow> mode \<Rightarrow> string \<Rightarrow> fnode" where
  "config_node k m bs = \<lparr>n_kind = k, n_uid = 0, n_gid = 0, n_mode = m, n_ino = (0, length bs), n_bytes = bs\<rparr>"

definition sample_config_world :: world where
  "sample_config_world = \<lparr>w_files = [([RootDir], config_node Directory 0x1ED []),
     (components ''/c.json'', config_node RegularFile 0x1A4 ''{}''), (components ''/ota'', config_node RegularFile 0x1ED ''elf'')],
     w_euid = 0, w_faults = []\<rparr>"

lemma sample_config_valid: "validate_service_config sample_config_env sample_service_config = Inr ()"
  by code_simp

theorem accepted_lookups_witness:
  "select_mapping sample_service_config ''audit'' \<lparr>sp_uid = 101, sp_gid = 900\<rparr> = Inr (sample_mapping ''audit'' 101 201) \<and>
   select_allowed_root sample_service_config ''/srv/b//x/'' = Inr (''/srv/b/'', [Normal ''x''])"
proof -
  have "sample_mapping ''audit'' 101 201 \<in> set (sv_mappings sample_service_config)"
    "pm_authority_id (sample_mapping ''audit'' 101 201) = ''audit''"
    "pm_job_peer (sample_mapping ''audit'' 101 201) = \<lparr>sp_uid = 101, sp_gid = 900\<rparr>"
    by (simp_all add: sample_service_config_def sample_mapping_def)
  moreover have "path_is_absolute ''/srv/b//x/'' \<and> \<not> dotted ''/srv/b//x/'' \<and>
      ''/srv/b/'' \<in> set (sv_allowed_repository_roots sample_service_config) \<and> [Normal ''x''] \<noteq> [] \<and>
      components ''/srv/b//x/'' = components ''/srv/b/'' @ (if [Normal ''x''] = [CurDir] then [] else [Normal ''x''])"
    by code_simp
  ultimately show ?thesis
    using accepted_lookups [OF sample_config_valid, of "''audit''" "\<lparr>sp_uid = 101, sp_gid = 900\<rparr>"
        "sample_mapping ''audit'' 101 201" "''audit''" "\<lparr>sp_uid = 101, sp_gid = 900\<rparr>" "sample_mapping ''audit'' 101 201"
        "''/srv/b//x/''" "''/srv/b/''" "[Normal ''x'']"] by blast
qed

theorem loaded_config_protected_witness:
  "load_service_config sample_config_env ''/c.json'' sample_config_world =
     (Ok (sample_service_config, config_node RegularFile 0x1ED ''elf''), sample_config_world) \<and>
   chain_ok (components ''/c.json'') 0 [RootDir] ProtectedFile sample_config_world \<and>
   sha256_identity sample_config_env ''elf'' = sv_ota_binary_identity sample_service_config"
proof -
  have run: "load_service_config sample_config_env ''/c.json'' sample_config_world =
     (Ok (sample_service_config, config_node RegularFile 0x1ED ''elf''), sample_config_world)" by code_simp
  have "w_faults sample_config_world = []" by (simp add: sample_config_world_def)
  from loaded_config_protected [OF this run] run show ?thesis by (auto simp: config_node_def)
qed

end
