(* ===== verification/Publication.thy ===== *)
theory Publication
  imports Protected_Path
begin

text \<open>
  Publishing a file that must never be replaced, as the protected history
  (\<open>persist_exact_file\<close> of \<open>src/protected_history.rs\<close>) and the sidecar of an archive
  (\<open>persist_sidecar\<close> of \<open>src/archive_attachment.rs\<close>) do it: a temporary file under a random name is
  written and synced, then moved to its name with \<open>RENAME_NOREPLACE\<close>. The theory has the system
  calls for that, the frame condition \<open>grows\<close> (nothing that existed has changed, and what is new
  satisfies a predicate), and the interface \<open>publication\<close> both stores are instances of.

  An open directory is represented by its path and an open file by its node: nothing moves either
  between the calls.
\<close>


section \<open>System calls\<close>

text \<open>\<open>renameat2\<close> with \<open>RENAME_NOREPLACE\<close>.\<close>

definition rename_noreplace :: "path \<Rightarrow> path \<Rightarrow> unit io" where
  "rename_noreplace a b =
     faulty untouched (\<lambda>w.
       case node_at w a of
         None \<Rightarrow> (Err NotFound, w)
       | Some n \<Rightarrow> if node_at w b \<noteq> None then (Err AlreadyExists, w) else (Ok (), del_node a (put_node b n w)))"

text \<open>\<open>fstat\<close> on an open file.\<close>

definition fstat :: "fnode \<Rightarrow> fnode io" where
  "fstat n = faulty untouched (\<lambda>w. (Ok n, w))"

text \<open>\<open>open\<close> with \<open>O_DIRECTORY | O_NOFOLLOW\<close>.\<close>

definition open_directory :: "path \<Rightarrow> fnode io" where
  "open_directory p =
     faulty untouched (\<lambda>w.
       case node_at w p of
         None \<Rightarrow> (Err NotFound, w)
       | Some n \<Rightarrow> if n_kind n = Directory then (Ok n, w) else (Err OtherIo, w))"

definition geteuid :: "(world, 'e, nat) proc" where
  "geteuid w = (Ok (w_euid w), w)"

text \<open>A \<open>match\<close> on the result of a call.\<close>

definition match_result ::
  "('w, 'e, 'a) proc \<Rightarrow> ('a \<Rightarrow> ('w, 'f, 'b) proc) \<Rightarrow> ('e \<Rightarrow> ('w, 'f, 'b) proc) \<Rightarrow> ('w, 'f, 'b) proc" where
  "match_result m ok err w =
     (case m w of (Ok a, w') \<Rightarrow> ok a w' | (Err e, w') \<Rightarrow> err e w' | (Crashed, w') \<Rightarrow> (Crashed, w'))"

text \<open>A call made at the end whatever came before, its result ignored.\<close>

definition afterwards :: "('w, 'e, 'a) proc \<Rightarrow> ('w, 'f, unit) proc \<Rightarrow> ('w, 'e, 'a) proc" where
  "afterwards m cleanup w =
     (case m w of
        (Crashed, w') \<Rightarrow> (Crashed, w')
      | (r, w') \<Rightarrow> (case cleanup w' of (Crashed, w'') \<Rightarrow> (Crashed, w'') | (_, w'') \<Rightarrow> (r, w'')))"

text \<open>A call made only when an error is about to be returned.\<close>

definition on_error :: "('w, 'e, 'a) proc \<Rightarrow> ('w, 'f, unit) proc \<Rightarrow> ('w, 'e, 'a) proc" where
  "on_error m cleanup w =
     (case m w of
        (Err e, w') \<Rightarrow> (case cleanup w' of (Crashed, w'') \<Rightarrow> (Crashed, w'') | (_, w'') \<Rightarrow> (Err e, w''))
      | r \<Rightarrow> r)"

text \<open>\<open>CString::new\<close>: a name with a NUL byte is refused.\<close>

definition c_string :: "'e \<Rightarrow> string \<Rightarrow> 'e + string" where
  "c_string e s = (if CHR 0x00 \<in> set s then Inl e else Inr s)"

text \<open>
  The sixteen bytes of \<open>getrandom\<close> as one word, and their rendering by \<open>{byte:02x}\<close>, two
  lower-case hexadecimal digits for each byte.
\<close>

type_synonym random_bytes = "128 word"

definition hex_digit :: "nat \<Rightarrow> char" where
  "hex_digit n = char_of (if n < 10 then 48 + n else 87 + n)"

definition hex_suffix :: "random_bytes \<Rightarrow> string" where
  "hex_suffix r = map (\<lambda>i. hex_digit (unat (drop_bit (124 - 4 * i) r AND 15))) [0..<32]"

lemma hex_digit_lower: "n < 16 \<Longrightarrow> lower_hex_byte (hex_digit n)"
proof -
  assume "n < 16"
  then have "\<forall>n \<in> {..<16}. lower_hex_byte (hex_digit n)" by code_simp
  with \<open>n < 16\<close> show ?thesis by blast
qed

lemma hex_suffix_shape: "length (hex_suffix r) = 32" "list_all lower_hex_byte (hex_suffix r)"
proof -
  have "unat (x AND 15) < 16" for x :: random_bytes
  proof -
    have "x AND 15 \<le> 15" by (rule word_and_le1)
    then show ?thesis by (simp add: word_le_nat_alt)
  qed
  then show "list_all lower_hex_byte (hex_suffix r)"
    by (simp add: hex_suffix_def list_all_iff hex_digit_lower)
qed (simp add: hex_suffix_def)

lemma strip_suffix_Some: "strip_suffix q s = Some t \<longleftrightarrow> s = t @ q"
  by (auto simp: strip_suffix_def ends_with_def) (metis append_take_drop_id)

lemma lower_hex_no_nul: "list_all lower_hex_byte s \<Longrightarrow> CHR 0x00 \<notin> set s"
  by (auto simp: list_all_iff lower_hex_byte_def byte_class_defs)


section \<open>Growing worlds\<close>

text \<open>
  \<open>grows N w w'\<close>: every file of \<open>w\<close> is in \<open>w'\<close> unchanged, and each file that is new in \<open>w'\<close>
  satisfies \<open>N\<close>.
\<close>

definition grows :: "(path \<Rightarrow> fnode \<Rightarrow> bool) \<Rightarrow> world \<Rightarrow> world \<Rightarrow> bool" where
  "grows N w w' \<longleftrightarrow> w_euid w' = w_euid w \<and>
     (\<forall>q n. node_at w q = Some n \<longrightarrow> node_at w' q = Some n) \<and>
     (\<forall>q n. node_at w q = None \<and> node_at w' q = Some n \<longrightarrow> N q n)"

lemma growsD:
  assumes "grows N w w'"
  shows "w_euid w' = w_euid w" "node_at w q = Some n \<Longrightarrow> node_at w' q = Some n"
    "node_at w q = None \<Longrightarrow> node_at w' q = Some n \<Longrightarrow> N q n"
  using assms by (auto simp: grows_def)

lemma grows_refl [simp]: "grows N w w"
  by (auto simp: grows_def)

lemma grows_same: "same_except {} w w' \<Longrightarrow> grows N w w'"
  by (auto simp: same_except_def grows_def)

lemma grows_faults [simp]:
  "grows N w (w'\<lparr>w_faults := fs\<rparr>) = grows N w w'" "grows N (w\<lparr>w_faults := fs\<rparr>) w' = grows N w w'"
  by (simp_all add: grows_def)

lemma grows_trans: "grows N w w' \<Longrightarrow> grows N w' w'' \<Longrightarrow> grows N w w''"
  unfolding grows_def by (metis not_None_eq)

lemma grows_mono: "grows N w w' \<Longrightarrow> (\<And>q n. N q n \<Longrightarrow> M q n) \<Longrightarrow> grows M w w'"
  by (auto simp: grows_def)

lemma grows_put: "node_at w p = None \<Longrightarrow> N p n \<Longrightarrow> grows N w (put_node p n w)"
  by (auto simp: grows_def)

text \<open>What a new file of the launcher looks like: regular, its own, with the mode given.\<close>

definition own_file :: "nat \<Rightarrow> mode \<Rightarrow> fnode \<Rightarrow> bool" where
  "own_file u m n \<longleftrightarrow> n_kind n = RegularFile \<and> n_uid n = u \<and> n_mode n = m \<and> fst (n_ino n) = 0"

lemma own_file_node [simp]: "own_file u m (file_node w m bs) \<longleftrightarrow> w_euid w = u"
  by (auto simp: own_file_def file_node_def new_node_def)

text \<open>
  \<open>new_at tmp dst m bs u\<close>: the new files a publication of \<open>bs\<close> at \<open>dst\<close> may leave, the
  whole file at its name or a beginning of it at the temporary one.
\<close>

definition new_at :: "path \<Rightarrow> path \<Rightarrow> mode \<Rightarrow> string \<Rightarrow> nat \<Rightarrow> path \<Rightarrow> fnode \<Rightarrow> bool" where
  "new_at tmp dst m bs u q n \<longleftrightarrow> own_file u m n \<and>
     (q = dst \<and> n_bytes n = bs \<or> q = tmp \<and> prefix (n_bytes n) bs)"

lemma grows_created:
  assumes "created tmp m bs w ok w'" and "w_euid w = u"
  shows "grows (new_at tmp dst m bs u) w w'"
proof -
  have "node_at w' q = node_at w q \<or> q = tmp \<and> node_at w tmp = None \<and>
      (\<exists>k. node_at w' tmp = Some (file_node w m (take k bs)))" for q
  proof (cases "q = tmp \<and> node_at w' tmp \<noteq> node_at w tmp")
    case True
    show ?thesis
    proof (cases ok)
      case True
      then have "node_at w' tmp = Some (file_node w m (take (length bs) bs))" "node_at w tmp = None"
        using assms by (auto simp: created_def)
      with \<open>q = tmp \<and> _\<close> show ?thesis by blast
    qed (use True assms in \<open>auto simp: created_def\<close>)
  qed (use assms in \<open>auto simp: created_def same_except_def\<close>)
  note step = this
  have "w_euid w' = w_euid w" using assms by (simp add: created_def same_except_def)
  moreover have "node_at w' q = Some n" if "node_at w q = Some n" for q n using step [of q] that by auto
  moreover have "new_at tmp dst m bs u q n" if "node_at w q = None" "node_at w' q = Some n" for q n
    using step [of q] that assms by (auto simp: new_at_def take_is_prefix)
  ultimately show ?thesis by (simp add: grows_def)
qed

section \<open>Staging and moving\<close>

text \<open>
  What follows the creation of the temporary file: a complete one is moved to its name, and three
  continuations say what to do then.
\<close>

definition move_or ::
  "path \<Rightarrow> path \<Rightarrow> (world, 'e, unit) proc \<Rightarrow> (world, 'e, unit) proc \<Rightarrow> (world, 'e, unit) proc \<Rightarrow> (world, 'e, unit) proc" where
  "move_or tmp dst present failed moved =
     match_result (rename_noreplace tmp dst) (\<lambda>_. moved) (\<lambda>e. if e = AlreadyExists then present else failed)"

abbreviation holds :: "path \<Rightarrow> string \<Rightarrow> world \<Rightarrow> bool" where
  "holds p bs w \<equiv> (\<exists>n. node_at w p = Some n \<and> n_bytes n = bs)"

definition staged :: "path \<Rightarrow> path \<Rightarrow> mode \<Rightarrow> string \<Rightarrow> world \<Rightarrow> bool \<Rightarrow> world \<Rightarrow> bool" where
  "staged tmp dst m bs w ok w' \<longleftrightarrow> node_at w tmp = None \<and>
     grows (new_at tmp dst m bs (w_euid w)) w w' \<and> (ok \<longrightarrow> holds dst bs w')"

lemma look_calls:
  "touches S (fstat n)" "touches S (open_directory p)"
proof -
  have "touches {} (fstat n)" "touches {} (open_directory p)"
    unfolding fstat_def open_directory_def
    by (intro touches_faulty touchesI; auto split: option.splits if_splits)+
  then show "touches S (fstat n)" "touches S (open_directory p)" by (auto intro: touches_mono)
qed

lemmas [touches_intros] = look_calls

lemma touches_geteuid [touches_intros]: "touches S geteuid"
  by (rule touchesI) (auto simp: geteuid_def)

lemma touches_match [touches_intros]:
  assumes "touches S m" and "\<And>a. touches S (f a)" and "\<And>e. touches S (g e)"
  shows "touches S (match_result m f g)"
proof (rule touchesI)
  fix w r w' assume run: "match_result m f g w = (r, w')"
  obtain q w1 where m: "m w = (q, w1)" by fastforce
  from touchesD [OF assms(1) m] have "same_except S w w1" .
  moreover have "same_except S w1 w'"
    using run m assms(2,3) by (cases q) (auto simp: match_result_def dest: touchesD)
  ultimately show "same_except S w w'" by (rule same_except_trans) simp
qed

text \<open>What a call that only looks has seen when it returned.\<close>

lemma same_nodes: "touches {} m \<Longrightarrow> m w = (r, w') \<Longrightarrow> node_at w' = node_at w \<and> w_euid w' = w_euid w"
  by (auto dest!: touchesD simp: same_except_def fun_eq_iff)

lemma look_then:
  assumes "and_then m f w = (Ok b, w'')" and "touches {} m"
  obtains a w' where "m w = (Ok a, w')" "f a w' = (Ok b, w'')" "node_at w' = node_at w" "w_euid w' = w_euid w"
  using assms(1) same_nodes [OF assms(2)] unfolding and_then_Ok_iff by blast

lemma look_Ok:
  "open_nofollow p w = (Ok n, w') \<Longrightarrow> node_at w p = Some n \<and> n_kind n \<noteq> Symlink"
  "read_to_end n w = (Ok bs, w') \<Longrightarrow> bs = n_bytes n"
  "fstat n w = (Ok m, w') \<Longrightarrow> m = n"
  "open_directory p w = (Ok n, w') \<Longrightarrow> node_at w p = Some n \<and> n_kind n = Directory"
  "read_dir p w = (Ok names, w') \<Longrightarrow> names = dir_names w p"
  "open_nofollow p w = (Err NotFound, w') \<Longrightarrow> node_at w p = None"
  by (auto simp: open_nofollow_def read_to_end_def fstat_def open_directory_def read_dir_def faulty_def
      dir_names_def Let_def split: list.splits fault.splits option.splits if_splits)

lemma touches_read_dir [touches_intros]: "touches S (read_dir d)"
proof -
  have "touches {} (read_dir d)" unfolding read_dir_def
    by (intro touches_faulty touchesI) (auto split: option.splits if_splits)
  then show ?thesis by (auto intro: touches_mono)
qed

lemma rename_noreplace_ensures:
  assumes "node_at w a = Some n" and "a \<noteq> b"
  shows "ensures (rename_noreplace a b) w (\<lambda>r w'.
    if is_Ok r then node_at w b = None \<and> same_except {a, b} w w' \<and> node_at w' a = None \<and> node_at w' b = Some n
    else same_except {} w w')"
  unfolding rename_noreplace_def
  by (rule ensures_faulty) (use assms in \<open>auto simp: ensures_def same_except_def\<close>)

lemma staged_same: "staged tmp dst m bs w ok w' \<Longrightarrow> same_except {} w' w'' \<Longrightarrow> staged tmp dst m bs w ok w''"
  unfolding staged_def using grows_trans grows_same same_exceptD by (metis empty_iff)

lemma staged_weaken: "staged tmp dst m bs w ok w' \<Longrightarrow> staged tmp dst m bs w False w'"
  by (simp add: staged_def)

lemma staged_created: "created tmp m bs w True w' \<Longrightarrow> staged tmp dst m bs w False w'"
  unfolding staged_def by (auto simp: created_def intro: grows_created)

lemma staged_moved:
  assumes "created tmp m bs w True w'" and "node_at w' dst = None" and "same_except {tmp, dst} w' w''"
    and "node_at w'' tmp = None" and "node_at w'' dst = Some (file_node w m bs)" and "tmp \<noteq> dst"
  shows "staged tmp dst m bs w ok w''"
proof -
  have "node_at w dst = None" "w_euid w'' = w_euid w" "node_at w tmp = None"
    using assms by (auto simp: created_def same_except_def)
  moreover have "node_at w'' q = node_at w q" if "q \<noteq> tmp" "q \<noteq> dst" for q
    using assms that by (simp add: created_def same_except_def)
  ultimately show ?thesis
    using assms unfolding staged_def grows_def new_at_def by (metis file_node_sel(4) not_None_eq option.sel own_file_node)
qed

lemma staged_remove:
  assumes "staged tmp dst m bs w ok w'" and "tmp \<noteq> dst"
  shows "ensures (remove_file tmp) w' (\<lambda>r. staged tmp dst m bs w ok)"
proof (rule ensures_mono [OF remove_ensures])
  fix r :: "(io_error, unit) outcome" and w''
  assume post: "if is_Ok r then node_at w' tmp \<noteq> None \<and> same_except {tmp} w' w'' \<and> node_at w'' tmp = None
    else same_except {} w' w''"
  show "staged tmp dst m bs w ok w''"
  proof (cases "is_Ok r")
    case True
    with post have same: "same_except {tmp} w' w''" and gone: "node_at w'' tmp = None" by auto
    then have "node_at w'' q = (if q = tmp then None else node_at w' q)" for q
      by (simp add: same_except_def)
    with assms same show ?thesis by (auto simp: staged_def grows_def same_except_def)
  next
    case False
    with post assms show ?thesis by (auto intro: staged_same)
  qed
qed

lemma staged_afterwards:
  assumes "ensures p w1 (\<lambda>r. staged tmp dst m bs w (is_Ok r))" and "tmp \<noteq> dst"
  shows "ensures (afterwards p (remove_file tmp)) w1 (\<lambda>r. staged tmp dst m bs w (is_Ok r))"
proof -
  obtain r w2 where p: "p w1 = (r, w2)" by fastforce
  obtain q w3 where c: "remove_file tmp w2 = (q, w3)" by fastforce
  from ensuresD [OF assms(1) p] have "staged tmp dst m bs w (is_Ok r) w2" .
  moreover from ensuresD [OF staged_remove [OF this assms(2)] c] have "staged tmp dst m bs w (is_Ok r) w3" .
  ultimately show ?thesis
    using p c by (auto simp: ensures_def afterwards_def split: outcome.splits intro: staged_weaken)
qed

text \<open>A procedure that only looks, and what it has seen when it returns \<open>Ok\<close>.\<close>

definition confirms :: "path \<Rightarrow> string \<Rightarrow> (world, 'e, 'a) proc \<Rightarrow> bool" where
  "confirms dst bs p \<longleftrightarrow> touches {} p \<and> (\<forall>w a w'. p w = (Ok a, w') \<longrightarrow> holds dst bs w)"

lemma confirms_staged:
  assumes "confirms dst bs p" and "staged tmp dst m bs w False w'"
  shows "ensures p w' (\<lambda>r. staged tmp dst m bs w (is_Ok r))"
proof -
  obtain r w2 where p: "p w' = (r, w2)" by fastforce
  with assms(1) have "same_except {} w' w2" by (auto simp: confirms_def dest: touchesD)
  with assms(2) have "staged tmp dst m bs w False w2" by (rule staged_same)
  moreover have "holds dst bs w2" if "is_Ok r"
    using that p assms(1) \<open>same_except {} w' w2\<close> by (cases r) (auto simp: confirms_def same_except_def)
  ultimately show ?thesis using p by (auto simp: ensures_def staged_def)
qed

lemma move_or_staged:
  assumes "created tmp m bs w True w'" and "tmp \<noteq> dst" and "touches {} moved"
    and "\<And>w'. staged tmp dst m bs w False w' \<Longrightarrow> ensures present w' (\<lambda>r. staged tmp dst m bs w (is_Ok r))"
    and "\<And>w'. staged tmp dst m bs w False w' \<Longrightarrow> ensures failed w' (\<lambda>r. staged tmp dst m bs w (is_Ok r))"
  shows "ensures (move_or tmp dst present failed moved) w' (\<lambda>r. staged tmp dst m bs w (is_Ok r))"
proof -
  obtain r w2 where mv: "rename_noreplace tmp dst w' = (r, w2)" by fastforce
  from assms(1) have "node_at w' tmp = Some (file_node w m bs)" by (simp add: created_def)
  from ensuresD [OF rename_noreplace_ensures [OF this assms(2)] mv]
  have post: "if is_Ok r then node_at w' dst = None \<and> same_except {tmp, dst} w' w2 \<and> node_at w2 tmp = None \<and>
      node_at w2 dst = Some (file_node w m bs) else same_except {} w' w2" .
  show ?thesis
  proof (cases "is_Ok r")
    case True
    with post assms(1,2) have st: "staged tmp dst m bs w True w2" by (auto intro: staged_moved)
    have "ensures moved w2 (\<lambda>r. staged tmp dst m bs w (is_Ok r))"
    proof (rule ensures_touches [OF assms(3)])
      fix ok w3 assume "same_except {} w2 w3"
      with st have "staged tmp dst m bs w True w3" by (rule staged_same)
      then show "staged tmp dst m bs w ok w3" by (cases ok) (auto intro: staged_weaken)
    qed
    with True mv show ?thesis by (cases r) (auto simp: ensures_def move_or_def match_result_def)
  next
    case False
    with post have st: "staged tmp dst m bs w False w2"
      using staged_same [OF staged_created [OF assms(1)]] by simp
    with False mv assms(4,5) [OF st] show ?thesis
      by (auto simp: ensures_def move_or_def match_result_def split: outcome.splits)
  qed
qed

lemma on_error_staged:
  assumes "ensures p w1 (\<lambda>r w2. staged tmp dst m bs w False w2 \<and> (is_Ok r \<longrightarrow> Q w2))" and "tmp \<noteq> dst"
  shows "ensures (on_error p (remove_file tmp)) w1 (\<lambda>r w2. staged tmp dst m bs w False w2 \<and> (is_Ok r \<longrightarrow> Q w2))"
proof -
  obtain r w2 where p: "p w1 = (r, w2)" by fastforce
  obtain q w3 where c: "remove_file tmp w2 = (q, w3)" by fastforce
  from ensuresD [OF assms(1) p] have "staged tmp dst m bs w False w2" by simp
  moreover from ensuresD [OF staged_remove [OF this assms(2)] c] have "staged tmp dst m bs w False w3" .
  ultimately show ?thesis
    using p c ensuresD [OF assms(1) p] by (auto simp: ensures_def on_error_def split: outcome.splits)
qed

lemma write_staged_plain:
  assumes "created tmp m [] w True w'"
  shows "ensures (map_err g (write_chunks tmp [bs])) w'
    (\<lambda>r w''. staged tmp dst m bs w False w'' \<and> (is_Ok r \<longrightarrow> created tmp m bs w True w''))"
proof -
  from assms have tmp: "node_at w' tmp = Some (file_node w m [])" "node_at w tmp = None" by (auto simp: created_def)
  from write_chunks_wrote [OF tmp(1), of "[bs]"]
  have "ensures (write_chunks tmp [bs]) w' (\<lambda>r w''. node_at w tmp = None \<and> created tmp m bs w (is_Ok r) w'')"
    by (rule ensures_mono) (use assms tmp in \<open>auto intro: created_wrote\<close>)
  then have "ensures (map_err g (write_chunks tmp [bs])) w' (\<lambda>r w''. node_at w tmp = None \<and> created tmp m bs w (is_Ok r) w'')"
    by (simp add: ensures_map_err_ok [where Q = "\<lambda>ok w''. node_at w tmp = None \<and> created tmp m bs w ok w''"])
  then show ?thesis by (rule ensures_mono) (auto simp: staged_def intro: grows_created)
qed

lemma write_staged:
  assumes "created tmp m [] w True w'"
    and "\<And>w'. created tmp m bs w True w' \<Longrightarrow> ensures rest w' (\<lambda>r. staged tmp dst m bs w (is_Ok r))"
  shows "ensures (and_then (map_err g (write_chunks tmp [bs])) (\<lambda>_. rest)) w' (\<lambda>r. staged tmp dst m bs w (is_Ok r))"
  by (rule ensures_and_thenI [OF write_staged_plain [OF assms(1)]]) (use assms(2) in auto)

text \<open>The whole publication, from the creation of the temporary file on.\<close>

definition put_at :: "path \<Rightarrow> path \<Rightarrow> mode \<Rightarrow> string \<Rightarrow> world \<Rightarrow> bool \<Rightarrow> world \<Rightarrow> bool" where
  "put_at tmp dst m bs w ok w' \<longleftrightarrow> grows (new_at tmp dst m bs (w_euid w)) w w' \<and> (ok \<longrightarrow> holds dst bs w')"

lemma put_at_staged: "staged tmp dst m bs w ok w' \<Longrightarrow> put_at tmp dst m bs w ok w'"
  by (simp add: staged_def put_at_def)

lemma put_at_same: "same_except {} w w' \<Longrightarrow> (ok \<Longrightarrow> holds dst bs w) \<Longrightarrow> put_at tmp dst m bs w ok w'"
  by (auto simp: put_at_def same_except_def intro: grows_same)

lemma put_at_look:
  assumes "same_except {} w w'" and "put_at tmp dst m bs w' ok w''"
  shows "put_at tmp dst m bs w ok w''"
  using assms grows_trans [OF grows_same [OF assms(1)]] by (auto simp: put_at_def same_except_def)

lemma put_at_create:
  assumes "\<And>w'. created tmp m [] w True w' \<Longrightarrow> ensures rest w' (\<lambda>r. staged tmp dst m bs w (is_Ok r))"
  shows "ensures (and_then (map_err f (create_new tmp m)) (\<lambda>_. rest)) w (\<lambda>r. put_at tmp dst m bs w (is_Ok r))"
proof (rule ensures_and_then_ok)
  show "ensures (map_err f (create_new tmp m)) w (\<lambda>r. created tmp m [] w (is_Ok r))"
    by (simp add: ensures_map_err_ok create_new_created)
next
  fix w' assume "created tmp m [] w False w'"
  then show "put_at tmp dst m bs w False w'"
    by (auto simp: put_at_def intro: grows_created [OF created_more])
next
  fix w' assume "created tmp m [] w True w'"
  from assms [OF this] show "ensures rest w' (\<lambda>r. put_at tmp dst m bs w (is_Ok r))"
    by (rule ensures_mono) (rule put_at_staged)
qed

text \<open>Looking first, and publishing only if what was seen allows it.\<close>

lemma put_at_after_look:
  assumes "touches {} p"
    and "\<And>a w'. p w = (Ok a, w') \<Longrightarrow> same_except {} w w' \<Longrightarrow> ensures (f a) w' (\<lambda>r. put_at tmp dst m bs w' (is_Ok r))"
  shows "ensures (and_then p f) w (\<lambda>r. put_at tmp dst m bs w (is_Ok r))"
proof -
  obtain r w1 where p: "p w = (r, w1)" by fastforce
  from touchesD [OF assms(1) p] have same: "same_except {} w w1" .
  show ?thesis
  proof (cases r)
    case (Ok a)
    from assms(2) [OF p [unfolded Ok] same] have "ensures (f a) w1 (\<lambda>r. put_at tmp dst m bs w (is_Ok r))"
      by (rule ensures_mono) (rule put_at_look [OF same])
    with p Ok show ?thesis by (simp add: ensures_def and_then_def)
  qed (use p same in \<open>auto simp: ensures_def and_then_def intro: put_at_same\<close>)
qed


section \<open>The interface\<close>

text \<open>
  A store that publishes write-once: under any faults it changes nothing that exists, leaves at
  most its temporary file and the complete file, and \<open>Ok\<close> means the name holds exactly the bytes.
\<close>

locale publication =
  fixes publish :: "'a \<Rightarrow> (world, 'e, unit) proc"
    and tmp :: "'a \<Rightarrow> path" and dst :: "'a \<Rightarrow> path"
    and content :: "'a \<Rightarrow> string" and file_mode :: mode and valid :: "'a \<Rightarrow> bool"
  assumes contract: "valid a \<Longrightarrow> ensures (publish a) w (\<lambda>r. put_at (tmp a) (dst a) file_mode (content a) w (is_Ok r))"
    and names: "valid a \<Longrightarrow> valid b \<Longrightarrow> tmp a \<noteq> dst b"
begin

lemma write_once:
  assumes "valid a" and "publish a w = (r, w')" and "node_at w q = Some n"
  shows "node_at w' q = Some n"
  using ensuresD [OF contract [OF assms(1)] assms(2)] assms(3) by (auto simp: put_at_def dest: growsD)

lemma never_torn:
  assumes "valid a" and "valid b" and "publish a w = (r, w')"
  shows "node_at w' (dst b) = node_at w (dst b) \<or> dst b = dst a \<and> holds (dst a) (content a) w'"
proof (cases "node_at w (dst b) = None \<and> node_at w' (dst b) \<noteq> None")
  case True
  then obtain n where n: "node_at w' (dst b) = Some n" by blast
  with True ensuresD [OF contract [OF assms(1)] assms(3)]
  have "new_at (tmp a) (dst a) file_mode (content a) (w_euid w) (dst b) n" by (auto simp: put_at_def dest: growsD(3))
  with n names [OF assms(1,2)] show ?thesis by (auto simp: new_at_def)
next
  case False
  with ensuresD [OF contract [OF assms(1)] assms(3)] show ?thesis
    by (cases "node_at w (dst b)") (auto simp: put_at_def dest: growsD(2))
qed

lemma exact:
  assumes "valid a" and "publish a w = (Ok (), w')"
  shows "holds (dst a) (content a) w'"
  using ensuresD [OF contract [OF assms(1)] assms(2)] by (simp add: put_at_def)

text \<open>Two publications to one name with different contents cannot both succeed.\<close>

lemma no_overwrite:
  assumes "valid a" and "valid b" and "publish a w = (Ok (), w')" and "grows N w' w''"
    and "publish b w'' = (Ok (), w3)" and "dst a = dst b"
  shows "content a = content b"
proof -
  from exact [OF assms(1,3)] obtain n where n: "node_at w' (dst a) = Some n" "n_bytes n = content a" by blast
  with assms(4) have "node_at w'' (dst a) = Some n" by (auto dest: growsD)
  from write_once [OF assms(2,5) this] exact [OF assms(2,5)] n assms(6) show ?thesis by auto
qed

end

end
