(* ===== verification/Installation_Manifest.thy ===== *)
theory Installation_Manifest
  imports Launcher_Config Publication
begin

text \<open>
  The manifest of the installation (\<open>src/installation_manifest.rs\<close>): the administrator's list of the files
  the launcher consists of, each with its role, its path and the identity of its content. The service
  loads it together with its configuration, the protected history checks its binding against it, and
  the authority context is retained with the files it was verified against.

  The JSON codec and the identities of the protocol crate are fields of \<open>installation_env\<close>, with the
  kernel's \<open>realpath\<close>, its link counts and what an open descriptor shows at a later moment. The
  revisions baked into the binary are fields too. Of the crate's authority context the model has
  the fields the launcher reads; the others are one field.
\<close>


section \<open>Roles, and the order of the manifest\<close>

datatype installation_manifest_error = ManifestUnavailable | ManifestMalformed | ManifestMismatch

datatype installation_role =
    LauncherExecutable | OtaExecutable | LauncherConfiguration | LauncherServiceUnit | LauncherServiceDropIn
  | LauncherSocketUnit | LauncherSocketDropIn | BrokerProxyExecutable | BrokerProxyServiceUnit | BrokerProxySocketUnit
  | AttestorExecutable | AttestorConfiguration | AttestorVerifierSet | CapabilityProjectionVerifier
  | ProtectedLauncherAuthorityContext | AttestorServiceUnit | AttestorServiceDropIn | AttestorSocketUnit
  | AttestorSocketDropIn | SystemctlExecutable | SudoExecutable | PkcheckExecutable | PolkitRule
  | NonLoginShellExecutable | JobRunnerExecutable | ProductionClientExecutable | JobRunnerServiceUnit
  | JobRunnerServiceDropIn | HistoryClientExecutable | HistoryBinding | HistoryServiceUnit | HistorySocketUnit

text \<open>The derived order of the enumeration is the order of its declaration.\<close>

primrec role_index :: "installation_role \<Rightarrow> nat" where
  "role_index LauncherExecutable = 0"
| "role_index OtaExecutable = 1"
| "role_index LauncherConfiguration = 2"
| "role_index LauncherServiceUnit = 3"
| "role_index LauncherServiceDropIn = 4"
| "role_index LauncherSocketUnit = 5"
| "role_index LauncherSocketDropIn = 6"
| "role_index BrokerProxyExecutable = 7"
| "role_index BrokerProxyServiceUnit = 8"
| "role_index BrokerProxySocketUnit = 9"
| "role_index AttestorExecutable = 10"
| "role_index AttestorConfiguration = 11"
| "role_index AttestorVerifierSet = 12"
| "role_index CapabilityProjectionVerifier = 13"
| "role_index ProtectedLauncherAuthorityContext = 14"
| "role_index AttestorServiceUnit = 15"
| "role_index AttestorServiceDropIn = 16"
| "role_index AttestorSocketUnit = 17"
| "role_index AttestorSocketDropIn = 18"
| "role_index SystemctlExecutable = 19"
| "role_index SudoExecutable = 20"
| "role_index PkcheckExecutable = 21"
| "role_index PolkitRule = 22"
| "role_index NonLoginShellExecutable = 23"
| "role_index JobRunnerExecutable = 24"
| "role_index ProductionClientExecutable = 25"
| "role_index JobRunnerServiceUnit = 26"
| "role_index JobRunnerServiceDropIn = 27"
| "role_index HistoryClientExecutable = 28"
| "role_index HistoryBinding = 29"
| "role_index HistoryServiceUnit = 30"
| "role_index HistorySocketUnit = 31"

lemma role_index_inject: "role_index a = role_index b \<longleftrightarrow> a = b"
  by (cases a; cases b; simp)

instantiation installation_role :: linorder
begin

definition less_eq_installation_role :: "installation_role \<Rightarrow> installation_role \<Rightarrow> bool" where
  "a \<le> b \<longleftrightarrow> role_index a \<le> role_index b"

definition less_installation_role :: "installation_role \<Rightarrow> installation_role \<Rightarrow> bool" where
  "a < b \<longleftrightarrow> role_index a < role_index b"

instance
  by standard (auto simp: less_eq_installation_role_def less_installation_role_def role_index_inject
      dest: antisym)

end

text \<open>Paths are compared by their components, a root before the special names and those before the others.\<close>

primrec component_key :: "component \<Rightarrow> nat \<times> string" where
  "component_key RootDir = (0, [])"
| "component_key CurDir = (1, [])"
| "component_key ParentDir = (2, [])"
| "component_key (Normal s) = (3, s)"

lemma component_key_inject: "component_key a = component_key b \<longleftrightarrow> a = b"
  by (cases a; cases b) auto

instantiation component :: linorder
begin

definition less_eq_component :: "component \<Rightarrow> component \<Rightarrow> bool" where
  "a \<le> b \<longleftrightarrow> fst (component_key a) < fst (component_key b) \<or>
     fst (component_key a) = fst (component_key b) \<and> snd (component_key a) \<le> snd (component_key b)"

definition less_component :: "component \<Rightarrow> component \<Rightarrow> bool" where
  "a < b \<longleftrightarrow> fst (component_key a) < fst (component_key b) \<or>
     fst (component_key a) = fst (component_key b) \<and> snd (component_key a) < snd (component_key b)"

instance
proof
  fix a b :: component
  assume "a \<le> b" "b \<le> a"
  then have "component_key a = component_key b" by (auto simp: less_eq_component_def intro: prod_eqI)
  then show "a = b" by (simp add: component_key_inject)
qed (auto simp: less_eq_component_def less_component_def)

end

section \<open>Records and parameters\<close>

record installation_file =
  fi_role :: installation_role
  fi_path :: string
  fi_identity :: string

record installation_manifest =
  im_schema_version :: nat
  im_identity :: string
  im_launcher_configuration_identity :: string
  im_launcher_profile_identity :: string
  im_job_principal_profile_identity :: string
  im_files :: "installation_file list"

record prepared_provisioning_observation =
  po_schema_version :: nat
  po_identity :: string
  po_observed_at :: string
  po_runner_service_unit :: string
  po_runner_active_state :: string
  po_runner_sub_state :: string
  po_runner_main_pid :: nat
  po_runner_control_group :: string
  po_runner_service_fragment_path :: string
  po_runner_service_drop_in_paths :: "string list"
  po_runner_executable_identity :: string
  po_runner_service_identity :: string
  po_runner_drop_in_identity :: string
  po_job_uid :: nat
  po_execution_uid :: nat
  po_live_principal_processes :: "nat list"
  po_authority_state_posture :: string
  po_authority_state_ancestor_posture :: string
  po_authority_state_paths_checked :: "string list"
  po_authority_unit_posture :: string
  po_authority_units_checked :: "string list"
  po_authority_socket_listener_posture :: string
  po_authority_socket_paths_checked :: "string list"

record public_installation_evidence =
  pe_schema_version :: nat
  pe_identity :: string
  pe_protocol_source_revision :: string
  pe_core_source_revision :: string
  pe_launcher_source_revision :: string
  pe_prepared_provisioning_observation :: "prepared_provisioning_observation option"
  pe_installation_manifest :: installation_manifest

record implementation_subject =
  su_identity :: string
  su_launcher_artifact_identity :: string
  su_ota_artifact_identity :: string
  su_launcher_profile_identity :: string
  su_launcher_build_identity :: string
  su_core_build_identity :: string
  su_launcher_source_repository :: string
  su_launcher_source_revision :: string
  su_core_source_repository :: string
  su_core_source_revision :: string
  su_protocol_source_revision :: string
  su_others :: string

record runner_administrator =
  ad_identity :: string
  ad_others :: string

record authority_context =
  cx_identity :: string
  cx_runner_administrator :: runner_administrator
  cx_implementation_subject :: implementation_subject
  cx_others :: string

record installation_env =
  manifest_message_identity :: "string \<Rightarrow> installation_manifest \<Rightarrow> string option"
  evidence_message_identity :: "string \<Rightarrow> public_installation_evidence \<Rightarrow> string option"
  proxy_message_identity :: "string \<Rightarrow> string \<times> string \<Rightarrow> string option"
  build_message_identity :: "string \<Rightarrow> string \<times> string \<times> string \<times> string \<Rightarrow> string option"
  launcher_profile_v4_identity :: "string option"
  manifest_from_json :: "string \<Rightarrow> installation_manifest option"
  evidence_from_json :: "string \<Rightarrow> public_installation_evidence option"
  context_from_json :: "string \<Rightarrow> authority_context option"
  administrator_identity :: "runner_administrator \<Rightarrow> string option"
  subject_identity :: "implementation_subject \<Rightarrow> string option"
  context_identity :: "authority_context \<Rightarrow> string option"
  launcher_build_commit :: "string option"
  protocol_build_revision :: "string option"
  real_path :: "world \<Rightarrow> path \<Rightarrow> path option"
  link_count :: "nat \<times> nat \<Rightarrow> nat"
  descriptor_shows :: "world \<Rightarrow> nat \<times> nat \<Rightarrow> fnode"

type_synonym 'a manifest_io = "(world, installation_manifest_error, 'a) proc"

definition SYSTEMD_INSTALLATION_MANIFEST_PATH :: string where
  "SYSTEMD_INSTALLATION_MANIFEST_PATH = ''/etc/ota/authority-launcher-installation.json''"

definition SYSTEMD_AUTHORITY_LAUNCHER_CONFIG_PATH :: string where
  "SYSTEMD_AUTHORITY_LAUNCHER_CONFIG_PATH = ''/etc/ota/authority-launcher-systemd.json''"

definition CAPABILITY_PROJECTION_VERIFIER_PATH :: string where
  "CAPABILITY_PROJECTION_VERIFIER_PATH = ''/var/lib/ota/authority-launcher-public/capability-projection-verifier-v1.json''"

definition PUBLIC_INSTALLATION_EVIDENCE_PATH :: string where
  "PUBLIC_INSTALLATION_EVIDENCE_PATH = ''/var/lib/ota/authority-launcher-public/installation-evidence.json''"

definition PROTECTED_LAUNCHER_AUTHORITY_CONTEXT_PATH :: string where
  "PROTECTED_LAUNCHER_AUTHORITY_CONTEXT_PATH = ''/etc/ota/protected-launcher-authority-context-v1.json''"

definition INSTALLATION_MANIFEST_IDENTITY_DOMAIN_V1 :: string where
  "INSTALLATION_MANIFEST_IDENTITY_DOMAIN_V1 = ''ota.authority-launcher.installation-manifest.v1'' @ [CHR 0x00]"

definition HISTORY_INSTALLATION_IDENTITY_DOMAIN_V1 :: string where
  "HISTORY_INSTALLATION_IDENTITY_DOMAIN_V1 = ''ota.authority-launcher.history-installation.v1'' @ [CHR 0x00]"

definition BROKER_PROXY_INSTALLATION_IDENTITY_DOMAIN_V1 :: string where
  "BROKER_PROXY_INSTALLATION_IDENTITY_DOMAIN_V1 = ''ota.authority-launcher.broker-proxy-installation.v1'' @ [CHR 0x00]"

definition PUBLIC_INSTALLATION_EVIDENCE_IDENTITY_DOMAIN_V1 :: string where
  "PUBLIC_INSTALLATION_EVIDENCE_IDENTITY_DOMAIN_V1 = ''ota.authority-launcher.public-installation-evidence.v1'' @ [CHR 0x00]"

definition PROTECTED_LAUNCHER_BUILD_IDENTITY_DOMAIN_V1 :: string where
  "PROTECTED_LAUNCHER_BUILD_IDENTITY_DOMAIN_V1 = ''ota.authority-launcher.installed-build.v1'' @ [CHR 0x00]"

definition map_config_error :: "config_error \<Rightarrow> installation_manifest_error" where
  "map_config_error e =
     (case e of Malformed \<Rightarrow> ManifestMalformed | Unsupported \<Rightarrow> ManifestMalformed
      | Unavailable \<Rightarrow> ManifestUnavailable | AuthorityUnavailable \<Rightarrow> ManifestUnavailable
      | Unprotected \<Rightarrow> ManifestMismatch)"


section \<open>Looking up a role\<close>

definition entries_of :: "installation_manifest \<Rightarrow> installation_role \<Rightarrow> installation_file list" where
  "entries_of m r = filter (\<lambda>e. fi_role e = r) (im_files m)"

definition singular_path :: "installation_manifest \<Rightarrow> installation_role \<Rightarrow> installation_manifest_error + string" where
  "singular_path m r = (case entries_of m r of [e] \<Rightarrow> Inr (fi_path e) | _ \<Rightarrow> Inl ManifestMalformed)"

definition role_paths :: "installation_manifest \<Rightarrow> installation_role \<Rightarrow> string list" where
  "role_paths m r = map fi_path (entries_of m r)"

definition optional_singular_path ::
  "installation_manifest \<Rightarrow> installation_role \<Rightarrow> installation_manifest_error + string option" where
  "optional_singular_path m r =
     (case entries_of m r of [] \<Rightarrow> Inr None | [e] \<Rightarrow> Inr (Some (fi_path e)) | _ \<Rightarrow> Inl ManifestMalformed)"

definition singular_identity :: "installation_manifest \<Rightarrow> installation_role \<Rightarrow> installation_manifest_error + string" where
  "singular_identity m r = (case entries_of m r of [e] \<Rightarrow> Inr (fi_identity e) | _ \<Rightarrow> Inl ManifestMalformed)"

definition require_exact_singular_path ::
  "installation_manifest \<Rightarrow> installation_role \<Rightarrow> path \<Rightarrow> installation_manifest_error + unit" where
  "require_exact_singular_path m r expected =
     try_with (singular_path m r) (\<lambda>p. if components p \<noteq> expected then Inl ManifestMismatch else Inr ())"

definition require_role_path ::
  "installation_manifest \<Rightarrow> installation_role \<Rightarrow> path \<Rightarrow> installation_manifest_error + unit" where
  "require_role_path m r expected =
     (if \<not> list_ex (\<lambda>e. fi_role e = r \<and> components (fi_path e) = expected) (im_files m) then Inl ManifestMismatch else Inr ())"

text \<open>
  One disjunct of a condition that compares an identity: it is computed only when those before it agreed,
  and may fail by itself.
\<close>

definition must_be :: "installation_manifest_error + string \<Rightarrow> string \<Rightarrow> installation_manifest_error + unit \<Rightarrow>
  installation_manifest_error + unit" where
  "must_be actual expected rest = try_with actual (\<lambda>i. if i \<noteq> expected then Inl ManifestMismatch else rest)"


section \<open>Identities\<close>

definition protected_launcher_installed_build_identity ::
  "'j installation_env_scheme \<Rightarrow> string \<Rightarrow> string \<Rightarrow> string \<Rightarrow> string \<Rightarrow> installation_manifest_error + string" where
  "protected_launcher_installed_build_identity J owner repository revision artifact =
     ok_or ManifestMalformed
       (build_message_identity J PROTECTED_LAUNCHER_BUILD_IDENTITY_DOMAIN_V1 (owner, repository, revision, artifact))"

definition protected_installation_manifest_identity ::
  "'j installation_env_scheme \<Rightarrow> installation_manifest \<Rightarrow> installation_manifest_error + string" where
  "protected_installation_manifest_identity J m =
     ok_or ManifestMalformed (manifest_message_identity J INSTALLATION_MANIFEST_IDENTITY_DOMAIN_V1 (m\<lparr>im_identity := []\<rparr>))"

definition public_installation_evidence_identity ::
  "'j installation_env_scheme \<Rightarrow> public_installation_evidence \<Rightarrow> installation_manifest_error + string" where
  "public_installation_evidence_identity J v =
     ok_or ManifestMalformed (evidence_message_identity J PUBLIC_INSTALLATION_EVIDENCE_IDENTITY_DOMAIN_V1 (v\<lparr>pe_identity := []\<rparr>))"

definition protected_history_installation_identity ::
  "'j installation_env_scheme \<Rightarrow> installation_manifest \<Rightarrow> installation_manifest_error + string" where
  "protected_history_installation_identity J m =
     ok_or ManifestMalformed (manifest_message_identity J HISTORY_INSTALLATION_IDENTITY_DOMAIN_V1
       (m\<lparr>im_identity := [], im_files := filter (\<lambda>e. fi_role e \<noteq> HistoryBinding) (im_files m)\<rparr>))"

definition broker_proxy_installation_identity ::
  "'j installation_env_scheme \<Rightarrow> string \<Rightarrow> string \<Rightarrow> installation_manifest_error + string" where
  "broker_proxy_installation_identity J service socket =
     ok_or ManifestMalformed (proxy_message_identity J BROKER_PROXY_INSTALLATION_IDENTITY_DOMAIN_V1 (service, socket))"


section \<open>The shape of a manifest\<close>

text \<open>The loop over the entries, with the entry before.\<close>

definition listed_before :: "installation_role \<times> path \<Rightarrow> installation_role \<times> path \<Rightarrow> bool" where
  "listed_before a b \<longleftrightarrow> fst a < fst b \<or> fst a = fst b \<and> snd a < snd b"

definition entry_key :: "installation_file \<Rightarrow> installation_role \<times> path" where
  "entry_key e = (fi_role e, components (fi_path e))"

fun validate_entries :: "(installation_role \<times> path) option \<Rightarrow> installation_file list \<Rightarrow> installation_manifest_error + unit" where
  "validate_entries prior [] = Inr ()"
| "validate_entries prior (e # es) =
     (if \<not> path_is_absolute (fi_path e) \<or> \<not> is_sha256_identity (fi_identity e)
         \<or> is_some_and (\<lambda>k. \<not> listed_before k (entry_key e)) prior
      then Inl ManifestMalformed
      else validate_entries (Some (entry_key e)) es)"

definition required_roles :: "installation_role list" where
  "required_roles = [LauncherExecutable, OtaExecutable, LauncherConfiguration, LauncherServiceUnit, LauncherSocketUnit,
     BrokerProxyExecutable, BrokerProxyServiceUnit, BrokerProxySocketUnit, AttestorExecutable, AttestorConfiguration,
     AttestorVerifierSet, ProtectedLauncherAuthorityContext, AttestorServiceUnit, AttestorSocketUnit, SystemctlExecutable,
     PkcheckExecutable]"

definition closed_profile_roles :: "installation_role list" where
  "closed_profile_roles =
     [PolkitRule, NonLoginShellExecutable, JobRunnerExecutable, ProductionClientExecutable, JobRunnerServiceUnit]"

definition history_roles :: "installation_role list" where
  "history_roles = [HistoryClientExecutable, HistoryBinding, HistoryServiceUnit, HistorySocketUnit]"

definition role_present :: "installation_manifest \<Rightarrow> installation_role \<Rightarrow> bool" where
  "role_present m r \<longleftrightarrow> r \<in> set (map fi_role (im_files m))"

definition roles_missing :: "installation_manifest \<Rightarrow> installation_role list \<Rightarrow> bool" where
  "roles_missing m rs \<longleftrightarrow> list_ex (\<lambda>r. \<not> role_present m r \<or> length (entries_of m r) \<noteq> 1) rs"

definition has_closed_profile :: "service_config \<Rightarrow> bool" where
  "has_closed_profile c \<longleftrightarrow> list_ex (\<lambda>p. pm_closed_profile p \<noteq> None) (sv_mappings c)"

definition history_incomplete :: "installation_manifest \<Rightarrow> bool" where
  "history_incomplete m \<longleftrightarrow>
     (let n = length (filter (role_present m) history_roles) in
      n \<noteq> 0 \<and> (n \<noteq> length history_roles \<or> list_ex (\<lambda>r. length (entries_of m r) \<noteq> 1) history_roles))"

definition validate_manifest_shape ::
  "config_env \<Rightarrow> 'j installation_env_scheme \<Rightarrow> installation_manifest \<Rightarrow> service_config \<Rightarrow> installation_manifest_error + unit" where
  "validate_manifest_shape C J m c =
     (if im_schema_version m \<noteq> 1 then Inl ManifestMismatch
      else
        must_be (protected_installation_manifest_identity J m) (im_identity m)
       (if im_launcher_configuration_identity m \<noteq> sv_identity c then Inl ManifestMismatch
        else
          must_be (ok_or ManifestMalformed (launcher_profile_v4_identity J)) (im_launcher_profile_identity m)
         (must_be (ok_or ManifestMalformed (job_principal_profile_v2_identity C)) (im_job_principal_profile_identity m)
         (if im_files m = [] then Inl ManifestMismatch
          else try_with (validate_entries None (im_files m)) (\<lambda>_.
            if roles_missing m required_roles then Inl ManifestMalformed
            else if has_closed_profile c \<and> roles_missing m closed_profile_roles then Inl ManifestMalformed
            else if history_incomplete m then Inl ManifestMalformed
            else Inr ())))))"

section \<open>Loading\<close>

definition read_json :: "(string \<Rightarrow> 'a option) \<Rightarrow> fnode \<Rightarrow> 'a manifest_io" where
  "read_json parse n = map_err (\<lambda>_. ManifestMalformed) (read_config parse n)"

text \<open>A call on an open descriptor that only moves or copies it: \<open>rewind\<close>, \<open>try_clone\<close>.\<close>

definition rewind :: "unit io" where
  "rewind = faulty untouched (\<lambda>w. (Ok (), w))"

text \<open>The loop that opens and hashes every file, with what it has observed.\<close>

fun verify_files :: "config_env \<Rightarrow> nat \<Rightarrow> path \<Rightarrow> (installation_role \<times> path) list \<Rightarrow> installation_file list \<Rightarrow> unit manifest_io" where
  "verify_files C uid root observed [] = ret ()"
| "verify_files C uid root observed (e # es) =
     and_then (map_err map_config_error (open_protected_file (components (fi_path e)) uid root)) (\<lambda>file.
     and_then (map_err map_config_error (sha256_file_identity C file)) (\<lambda>i.
       if i \<noteq> fi_identity e \<or> entry_key e \<in> set observed then throw ManifestMismatch
       else verify_files C uid root (entry_key e # observed) es))"

definition proxy_identity_of :: "'j installation_env_scheme \<Rightarrow> installation_manifest \<Rightarrow> installation_manifest_error + string" where
  "proxy_identity_of J m =
     try_with (singular_identity m BrokerProxyServiceUnit) (\<lambda>service.
     try_with (singular_identity m BrokerProxySocketUnit) (\<lambda>socket. broker_proxy_installation_identity J service socket))"

fun require_drop_ins :: "installation_manifest \<Rightarrow> string list \<Rightarrow> installation_manifest_error + unit" where
  "require_drop_ins m [] = Inr ()"
| "require_drop_ins m (p # ps) =
     try_with (require_role_path m JobRunnerServiceDropIn (components p)) (\<lambda>_. require_drop_ins m ps)"

fun require_profiles :: "installation_manifest \<Rightarrow> principal_mapping_config list \<Rightarrow> installation_manifest_error + unit" where
  "require_profiles m [] = Inr ()"
| "require_profiles m (p # ps) =
     (case pm_closed_profile p of
        None \<Rightarrow> require_profiles m ps
      | Some profile \<Rightarrow>
          try_with (require_role_path m JobRunnerServiceUnit (components (cp_runner_service_fragment_path profile))) (\<lambda>_.
          try_with (require_drop_ins m (cp_runner_service_drop_in_paths profile)) (\<lambda>_.
          try_with (require_exact_singular_path m NonLoginShellExecutable (components (cp_non_login_shell profile))) (\<lambda>_.
          try_with (singular_path m JobRunnerExecutable) (\<lambda>_. require_profiles m ps)))))"

text \<open>The comparisons of \<open>load_protected_installation_manifest_at\<close> behind the loop.\<close>

definition reconcile_with_config ::
  "'j installation_env_scheme \<Rightarrow> path \<Rightarrow> path \<Rightarrow> service_config \<Rightarrow> installation_manifest \<Rightarrow> installation_manifest_error + unit" where
  "reconcile_with_config J config_path launcher c m =
     try_with (require_exact_singular_path m LauncherConfiguration config_path) (\<lambda>_.
     try_with (require_exact_singular_path m LauncherExecutable launcher) (\<lambda>_.
     try_with (require_exact_singular_path m OtaExecutable (components (sv_ota_binary c))) (\<lambda>_.
       must_be (singular_identity m LauncherServiceUnit) (sv_service_unit_identity c)
      (must_be (singular_identity m LauncherSocketUnit) (sv_socket_unit_identity c)
      (must_be (singular_identity m OtaExecutable) (sv_ota_binary_identity c)
      (must_be (singular_identity m AttestorVerifierSet) (sv_attestor_key_set_identity c)
      (must_be (singular_identity m BrokerProxyExecutable) (sv_broker_proxy_executable_identity c)
      (must_be (proxy_identity_of J m) (sv_broker_proxy_identity c)
        (require_profiles m (sv_mappings c)))))))))) "

definition load_protected_installation_manifest_at ::
  "config_env \<Rightarrow> 'j installation_env_scheme \<Rightarrow> string \<Rightarrow> path \<Rightarrow> path \<Rightarrow> service_config \<Rightarrow> nat \<Rightarrow> path \<Rightarrow> installation_manifest manifest_io" where
  "load_protected_installation_manifest_at C J manifest_path config_path launcher c uid root =
     and_then (map_err map_config_error (open_protected_file (components manifest_path) uid root)) (\<lambda>file.
     and_then (read_json (manifest_from_json J) file) (\<lambda>m.
     and_then (lift_result (validate_manifest_shape C J m c)) (\<lambda>_.
     and_then (verify_files C uid root [] (im_files m)) (\<lambda>_.
     and_then (lift_result (reconcile_with_config J config_path launcher c m)) (\<lambda>_. ret m)))))"

definition load_protected_installation_manifest ::
  "config_env \<Rightarrow> 'j installation_env_scheme \<Rightarrow> service_config \<Rightarrow> path \<Rightarrow> installation_manifest manifest_io" where
  "load_protected_installation_manifest C J c launcher =
     load_protected_installation_manifest_at C J SYSTEMD_INSTALLATION_MANIFEST_PATH
       (components SYSTEMD_AUTHORITY_LAUNCHER_CONFIG_PATH) launcher c 0 [RootDir]"

definition verify_protected_history_installation ::
  "config_env \<Rightarrow> 'j installation_env_scheme \<Rightarrow> string \<Rightarrow> path \<Rightarrow> path \<Rightarrow> path \<Rightarrow> string \<Rightarrow> string \<Rightarrow> string \<Rightarrow> unit manifest_io" where
  "verify_protected_history_installation C J expected launcher binding_path client_path client service socket =
     and_then (map_err map_config_error (open_protected_file (components SYSTEMD_INSTALLATION_MANIFEST_PATH) 0 [RootDir])) (\<lambda>file.
     and_then (read_json (manifest_from_json J) file) (\<lambda>m.
     and_then (lift_result (must_be (protected_installation_manifest_identity J m) (im_identity m)
       (must_be (protected_history_installation_identity J m) expected (Inr ())))) (\<lambda>_.
     and_then (verify_files C 0 [RootDir] [] (im_files m)) (\<lambda>_.
       lift_result
        (try_with (require_exact_singular_path m LauncherExecutable launcher) (\<lambda>_.
         try_with (require_exact_singular_path m HistoryBinding binding_path) (\<lambda>_.
         try_with (require_exact_singular_path m HistoryClientExecutable client_path) (\<lambda>_.
           must_be (singular_identity m HistoryClientExecutable) client
          (must_be (singular_identity m HistoryServiceUnit) service
          (must_be (singular_identity m HistorySocketUnit) socket (Inr ()))))))))))) "

definition load_capability_projection_verifier_at ::
  "config_env \<Rightarrow> 'j installation_env_scheme \<Rightarrow> (string \<Rightarrow> 'v option) \<Rightarrow> ('v \<Rightarrow> bool) \<Rightarrow> string \<Rightarrow> string \<Rightarrow> nat \<Rightarrow> path \<Rightarrow> 'v manifest_io" where
  "load_capability_projection_verifier_at C J parse valid manifest_path verifier_path uid root =
     and_then (map_err map_config_error (open_protected_file (components manifest_path) uid root)) (\<lambda>file.
     and_then (read_json (manifest_from_json J) file) (\<lambda>m.
     and_then (lift_result (if im_schema_version m \<noteq> 1 then Inl ManifestMismatch
       else must_be (protected_installation_manifest_identity J m) (im_identity m) (Inr ()))) (\<lambda>_.
     and_then (lift_result (require_exact_singular_path m CapabilityProjectionVerifier (components verifier_path))) (\<lambda>_.
     and_then (map_err map_config_error (open_protected_file (components verifier_path) uid root)) (\<lambda>opened.
     and_then (map_err map_config_error (sha256_file_identity C opened)) (\<lambda>i.
     and_then (lift_result (must_be (singular_identity m CapabilityProjectionVerifier) i (Inr ()))) (\<lambda>_.
     and_then (map_err (\<lambda>_. ManifestUnavailable) rewind) (\<lambda>_.
     and_then (read_json parse opened) (\<lambda>v.
       if valid v then ret v else throw ManifestMalformed)))))))))"

definition load_capability_projection_verifier ::
  "config_env \<Rightarrow> 'j installation_env_scheme \<Rightarrow> (string \<Rightarrow> 'v option) \<Rightarrow> ('v \<Rightarrow> bool) \<Rightarrow> 'v manifest_io" where
  "load_capability_projection_verifier C J parse valid =
     load_capability_projection_verifier_at C J parse valid SYSTEMD_INSTALLATION_MANIFEST_PATH CAPABILITY_PROJECTION_VERIFIER_PATH
       0 [RootDir]"

text \<open>Two manifests are equal when they agree field by field, paths by their components.\<close>

definition same_manifest :: "installation_manifest \<Rightarrow> installation_manifest \<Rightarrow> bool" where
  "same_manifest a b \<longleftrightarrow>
     a\<lparr>im_files := []\<rparr> = b\<lparr>im_files := []\<rparr> \<and>
     map (\<lambda>e. (entry_key e, fi_identity e)) (im_files a) = map (\<lambda>e. (entry_key e, fi_identity e)) (im_files b)"

definition load_public_installation_evidence_identity_at ::
  "'j installation_env_scheme \<Rightarrow> string \<Rightarrow> installation_manifest \<Rightarrow> nat \<Rightarrow> path \<Rightarrow> string manifest_io" where
  "load_public_installation_evidence_identity_at J evidence_path m uid root =
     and_then (map_err map_config_error (open_protected_file (components evidence_path) uid root)) (\<lambda>file.
     and_then (read_json (evidence_from_json J) file) (\<lambda>v.
     and_then (lift_result
       (if pe_schema_version v \<noteq> 1 then Inl ManifestMismatch
        else must_be (public_installation_evidence_identity J v) (pe_identity v)
         (if im_schema_version (pe_installation_manifest v) \<noteq> 1 then Inl ManifestMismatch
          else must_be (protected_installation_manifest_identity J (pe_installation_manifest v))
              (im_identity (pe_installation_manifest v))
            (if \<not> same_manifest (pe_installation_manifest v) m then Inl ManifestMismatch else Inr ())))) (\<lambda>_.
       ret (pe_identity v))))"

definition load_public_installation_evidence_identity ::
  "'j installation_env_scheme \<Rightarrow> installation_manifest \<Rightarrow> string manifest_io" where
  "load_public_installation_evidence_identity J m =
     load_public_installation_evidence_identity_at J PUBLIC_INSTALLATION_EVIDENCE_PATH m 0 [RootDir]"

definition resolve_optional_protected_executable_alias ::
  "'j installation_env_scheme \<Rightarrow> path \<Rightarrow> nat \<Rightarrow> path \<Rightarrow> path option manifest_io" where
  "resolve_optional_protected_executable_alias J link uid root =
     match_result (symlink_metadata link)
       (\<lambda>_ w.
          (case real_path J w link of
             None \<Rightarrow> throw ManifestUnavailable
           | Some target \<Rightarrow>
               and_then (map_err map_config_error (open_protected_file target uid root)) (\<lambda>file.
               and_then (map_err (\<lambda>_. ManifestUnavailable) (fstat file)) (\<lambda>n.
                 if n_mode n AND 73 = 0 \<or> link_count J (n_ino n) \<noteq> 1 then throw ManifestMismatch
                 else ret (Some target)))) w)
       (\<lambda>e. if e = NotFound then ret None else throw ManifestUnavailable)"

section \<open>Retained files and the authority context\<close>

text \<open>
  A file that stays open while it is relied on. Its descriptor is the inode; what it shows later is
  \<open>descriptor_shows\<close>, since the content of an inode may change under an open descriptor.
\<close>

record retained_file =
  rt_file :: "nat \<times> nat"
  rt_path :: string
  rt_trusted_root :: path
  rt_expected_owner_uid :: nat
  rt_executable :: bool
  rt_identity :: string
  rt_device :: nat
  rt_inode :: nat
  rt_mode :: mode
  rt_size :: nat

definition through_descriptor :: "'j installation_env_scheme \<Rightarrow> retained_file \<Rightarrow> (fnode \<Rightarrow> 'a manifest_io) \<Rightarrow> 'a manifest_io" where
  "through_descriptor J f call w = call (descriptor_shows J w (rt_file f)) w"

definition observe_descriptor ::
  "config_env \<Rightarrow> 'j installation_env_scheme \<Rightarrow> retained_file \<Rightarrow> (string \<times> nat \<times> nat \<times> mode \<times> nat) manifest_io" where
  "observe_descriptor C J f =
     and_then (map_err (\<lambda>_. ManifestUnavailable) rewind) (\<lambda>_.
     and_then (map_err (\<lambda>_. ManifestUnavailable) rewind) (\<lambda>_.
     and_then (through_descriptor J f (\<lambda>n. map_err map_config_error (sha256_file_identity C n))) (\<lambda>identity.
     and_then (through_descriptor J f (\<lambda>n. map_err (\<lambda>_. ManifestUnavailable) (fstat n))) (\<lambda>n.
       ret (identity, fst (n_ino n), snd (n_ino n), n_mode n AND 4095, length (n_bytes n))))))"

definition retained_open ::
  "config_env \<Rightarrow> 'j installation_env_scheme \<Rightarrow> string \<Rightarrow> nat \<Rightarrow> path \<Rightarrow> bool \<Rightarrow> retained_file manifest_io" where
  "retained_open C J p uid root executable =
     and_then (map_err map_config_error
       (if executable then open_protected_executable (components p) uid root else open_protected_file (components p) uid root)) (\<lambda>n.
       let f = \<lparr>rt_file = n_ino n, rt_path = p, rt_trusted_root = root, rt_expected_owner_uid = uid, rt_executable = executable,
         rt_identity = [], rt_device = 0, rt_inode = 0, rt_mode = 0, rt_size = 0\<rparr> in
       and_then (observe_descriptor C J f) (\<lambda>(identity, device, inode, mode, size).
         ret (f\<lparr>rt_identity := identity, rt_device := device, rt_inode := inode, rt_mode := mode, rt_size := size\<rparr>)))"

definition retained_facts :: "retained_file \<Rightarrow> string \<times> nat \<times> nat \<times> mode \<times> nat" where
  "retained_facts f = (rt_identity f, rt_device f, rt_inode f, rt_mode f, rt_size f)"

definition retained_reconcile :: "config_env \<Rightarrow> 'j installation_env_scheme \<Rightarrow> retained_file \<Rightarrow> unit manifest_io" where
  "retained_reconcile C J f =
     and_then (observe_descriptor C J f) (\<lambda>seen.
       if seen \<noteq> retained_facts f then throw ManifestMismatch
       else
         and_then (retained_open C J (rt_path f) (rt_expected_owner_uid f) (rt_trusted_root f) (rt_executable f)) (\<lambda>reopened.
         and_then (observe_descriptor C J reopened) (\<lambda>seen.
           if seen \<noteq> retained_facts f then throw ManifestMismatch else ret ())))"

definition retained_read_json :: "'j installation_env_scheme \<Rightarrow> (string \<Rightarrow> 'a option) \<Rightarrow> retained_file \<Rightarrow> 'a manifest_io" where
  "retained_read_json J parse f =
     and_then (map_err (\<lambda>_. ManifestUnavailable) rewind) (\<lambda>_.
     and_then (map_err (\<lambda>_. ManifestUnavailable) rewind) (\<lambda>_.
       through_descriptor J f (read_json parse)))"

definition validate_authority_context_against_installation ::
  "'j installation_env_scheme \<Rightarrow> authority_context \<Rightarrow> installation_manifest \<Rightarrow> path \<Rightarrow> installation_manifest_error + unit" where
  "validate_authority_context_against_installation J cx m context_path =
     try_with (require_exact_singular_path m ProtectedLauncherAuthorityContext context_path) (\<lambda>_.
      let su = cx_implementation_subject cx in
       must_be (ok_or ManifestMalformed (administrator_identity J (cx_runner_administrator cx))) (ad_identity (cx_runner_administrator cx))
      (must_be (ok_or ManifestMalformed (subject_identity J su)) (su_identity su)
      (must_be (ok_or ManifestMalformed (context_identity J cx)) (cx_identity cx)
      (must_be (singular_identity m LauncherExecutable) (su_launcher_artifact_identity su)
      (must_be (singular_identity m OtaExecutable) (su_ota_artifact_identity su)
      (if su_launcher_profile_identity su \<noteq> im_launcher_profile_identity m then Inl ManifestMismatch
       else
        must_be (protected_launcher_installed_build_identity J ''launcher'' (su_launcher_source_repository su)
            (su_launcher_source_revision su) (su_launcher_artifact_identity su)) (su_launcher_build_identity su)
       (must_be (protected_launcher_installed_build_identity J ''core'' (su_core_source_repository su)
            (su_core_source_revision su) (su_ota_artifact_identity su)) (su_core_build_identity su)
       (if launcher_build_commit J \<noteq> Some (su_launcher_source_revision su)
           \<or> protocol_build_revision J \<noteq> Some (su_protocol_source_revision su)
        then Inl ManifestMismatch else Inr ()))))))))"

record retained_installation =
  ri_context :: authority_context
  ri_manifest_identity :: string
  ri_manifest :: retained_file
  ri_context_file :: retained_file
  ri_launcher :: retained_file
  ri_ota :: retained_file

definition installation_reconcile ::
  "config_env \<Rightarrow> 'j installation_env_scheme \<Rightarrow> retained_installation \<Rightarrow> authority_context manifest_io" where
  "installation_reconcile C J r =
     and_then (retained_reconcile C J (ri_manifest r)) (\<lambda>_.
     and_then (retained_reconcile C J (ri_context_file r)) (\<lambda>_.
     and_then (retained_reconcile C J (ri_launcher r)) (\<lambda>_.
     and_then (retained_reconcile C J (ri_ota r)) (\<lambda>_.
     and_then (retained_read_json J (manifest_from_json J) (ri_manifest r)) (\<lambda>m.
     and_then (retained_read_json J (context_from_json J) (ri_context_file r)) (\<lambda>cx.
     and_then (lift_result
       (if im_identity m \<noteq> ri_manifest_identity r \<or> cx \<noteq> ri_context r then Inl ManifestMismatch
        else
          must_be (singular_identity m ProtectedLauncherAuthorityContext) (rt_identity (ri_context_file r))
         (must_be (singular_identity m LauncherExecutable) (rt_identity (ri_launcher r))
         (must_be (singular_identity m OtaExecutable) (rt_identity (ri_ota r))
           (validate_authority_context_against_installation J cx m (components (rt_path (ri_context_file r)))))))) (\<lambda>_.
       ret (ri_context r))))))))"

datatype context_load_stage =
    InstallationManifestStage | RetainedManifestStage | ContextFileStage | LauncherExecutableStage
  | OtaExecutableStage | ContextDecodeStage | RoleBindingStage | SemanticBindingStage

definition stage_text :: "context_load_stage \<Rightarrow> string" where
  "stage_text s =
     (case s of
        InstallationManifestStage \<Rightarrow> ''authority_context_manifest''
      | RetainedManifestStage \<Rightarrow> ''retained_manifest''
      | ContextFileStage \<Rightarrow> ''context_file''
      | LauncherExecutableStage \<Rightarrow> ''launcher_executable''
      | OtaExecutableStage \<Rightarrow> ''ota_executable''
      | ContextDecodeStage \<Rightarrow> ''context_decode''
      | RoleBindingStage \<Rightarrow> ''role_binding''
      | SemanticBindingStage \<Rightarrow> ''semantic_binding'')"

record authority_context_load_error =
  al_stage :: context_load_stage
  al_error :: installation_manifest_error

definition at_stage :: "context_load_stage \<Rightarrow> 'a manifest_io \<Rightarrow> (world, authority_context_load_error, 'a) proc" where
  "at_stage s m = map_err (\<lambda>e. \<lparr>al_stage = s, al_error = e\<rparr>) m"

text \<open>\<open>after_manifest\<close> is what happens to the files behind the first load.\<close>

definition load_authority_context_with_after_manifest ::
  "config_env \<Rightarrow> 'j installation_env_scheme \<Rightarrow> string \<Rightarrow> string \<Rightarrow> path \<Rightarrow> string \<Rightarrow> service_config \<Rightarrow> nat \<Rightarrow> path \<Rightarrow> (world \<Rightarrow> world) \<Rightarrow>
   (world, authority_context_load_error, retained_installation) proc" where
  "load_authority_context_with_after_manifest C J manifest_path context_path config_path launcher c uid root after_manifest =
     and_then (at_stage InstallationManifestStage
       (load_protected_installation_manifest_at C J manifest_path config_path (components launcher) c uid root)) (\<lambda>m.
     and_then (\<lambda>w. (Ok (), after_manifest w)) (\<lambda>_.
     and_then (at_stage RetainedManifestStage (retained_open C J manifest_path uid root False)) (\<lambda>retained_manifest.
     and_then (at_stage ContextFileStage (retained_open C J context_path uid root False)) (\<lambda>context_file.
     and_then (at_stage LauncherExecutableStage (retained_open C J launcher uid root True)) (\<lambda>launcher_file.
     and_then (at_stage OtaExecutableStage (retained_open C J (sv_ota_binary c) uid root True)) (\<lambda>ota.
     and_then (at_stage ContextDecodeStage (retained_read_json J (context_from_json J) context_file)) (\<lambda>cx.
     and_then (at_stage RoleBindingStage (lift_result
       (try_with (singular_identity m ProtectedLauncherAuthorityContext) (\<lambda>context_identity.
        try_with (singular_identity m LauncherExecutable) (\<lambda>launcher_identity.
        try_with (singular_identity m OtaExecutable) (\<lambda>ota_identity.
          if rt_identity context_file \<noteq> context_identity \<or> rt_identity launcher_file \<noteq> launcher_identity
             \<or> rt_identity ota \<noteq> ota_identity
          then Inl ManifestMismatch else Inr ())))))) (\<lambda>_.
     and_then (at_stage SemanticBindingStage (lift_result
       (validate_authority_context_against_installation J cx m (components context_path)))) (\<lambda>_.
       ret \<lparr>ri_context = cx, ri_manifest_identity = im_identity m, ri_manifest = retained_manifest,
         ri_context_file = context_file, ri_launcher = launcher_file, ri_ota = ota\<rparr>)))))))))"

definition load_protected_launcher_authority_context_at ::
  "config_env \<Rightarrow> 'j installation_env_scheme \<Rightarrow> string \<Rightarrow> string \<Rightarrow> path \<Rightarrow> string \<Rightarrow> service_config \<Rightarrow> nat \<Rightarrow> path \<Rightarrow>
   (world, authority_context_load_error, retained_installation) proc" where
  "load_protected_launcher_authority_context_at C J manifest_path context_path config_path launcher c uid root =
     load_authority_context_with_after_manifest C J manifest_path context_path config_path launcher c uid root (\<lambda>w. w)"

definition load_protected_launcher_authority_context ::
  "config_env \<Rightarrow> 'j installation_env_scheme \<Rightarrow> service_config \<Rightarrow> string \<Rightarrow>
   (world, authority_context_load_error, retained_installation) proc" where
  "load_protected_launcher_authority_context C J c launcher =
     load_protected_launcher_authority_context_at C J SYSTEMD_INSTALLATION_MANIFEST_PATH PROTECTED_LAUNCHER_AUTHORITY_CONTEXT_PATH
       (components SYSTEMD_AUTHORITY_LAUNCHER_CONFIG_PATH) launcher c 0 [RootDir]"

section \<open>Readers\<close>

text \<open>
  A procedure that only reads: when it succeeds under some faults it has changed no file, and it
  succeeds in the same way without faults.
\<close>

named_theorems reads_intros \<open>procedures that only read\<close>

definition reads :: "(world, 'e, 'a) proc \<Rightarrow> bool" where
  "reads m \<longleftrightarrow> (\<forall>w a w' v. m w = (Ok a, w') \<longrightarrow>
     node_at w' = node_at w \<and> (node_at v = node_at w \<and> w_faults v = [] \<longrightarrow> m v = (Ok a, v)))"

lemma readsD:
  assumes "reads m" and "m w = (Ok a, w')"
  shows "node_at w' = node_at w" "\<And>v. node_at v = node_at w \<Longrightarrow> w_faults v = [] \<Longrightarrow> m v = (Ok a, v)"
  using assms unfolding reads_def by blast+

text \<open>In a world without faults a reader leaves the world as it is, so its steps are read off one after the other.\<close>

lemma reads_then_iff:
  assumes "reads m" and "w_faults w = []"
  shows "and_then m f w = (Ok b, w') \<longleftrightarrow> (\<exists>a. m w = (Ok a, w) \<and> f a w = (Ok b, w'))"
  using readsD(2) [OF assms(1) _ refl assms(2)] unfolding and_then_Ok_iff by (metis prod.inject)

lemma reads_basic [reads_intros]: "reads (ret a)" "reads (throw e)" "reads (lift_result r)"
  by (auto simp: reads_def lift_result_Ok_iff)

lemma reads_map_err [reads_intros]: "reads m \<Longrightarrow> reads (map_err g m)"
  unfolding reads_def map_err_Ok_iff by blast

lemma reads_and_then [reads_intros]:
  assumes "reads m" and "\<And>a. reads (f a)"
  shows "reads (and_then m f)"
  unfolding reads_def
proof (intro allI impI)
  fix w b w' v
  assume "and_then m f w = (Ok b, w')"
  then obtain a w1 where m: "m w = (Ok a, w1)" and f: "f a w1 = (Ok b, w')" by (auto simp: and_then_Ok_iff)
  from readsD [OF assms(1) m] readsD [OF assms(2) f]
  show "node_at w' = node_at w \<and> (node_at v = node_at w \<and> w_faults v = [] \<longrightarrow> and_then m f v = (Ok b, v))"
    by (auto simp: and_then_OkI)
qed

lemma reads_if [reads_intros]: "reads m \<Longrightarrow> reads n \<Longrightarrow> reads (if b then m else n)"
  by simp

lemma reads_option [reads_intros]: "reads m \<Longrightarrow> (\<And>a. reads (f a)) \<Longrightarrow> reads (case x of None \<Rightarrow> m | Some a \<Rightarrow> f a)"
  by (cases x) auto

lemma reads_faulty:
  assumes "\<And>w a w'. m w = (Ok a, w') \<Longrightarrow> w' = w \<and> (\<forall>v. node_at v = node_at w \<longrightarrow> m v = (Ok a, v))"
  shows "reads (faulty partial m)"
  unfolding reads_def
proof (intro allI impI)
  fix w a w' v
  assume "faulty partial m w = (Ok a, w')"
  then obtain u where "m u = (Ok a, w')" and u: "node_at u = node_at w"
    by (auto simp: faulty_def Let_def split: list.splits fault.splits)
  from assms [OF this(1)] u
  show "node_at w' = node_at w \<and> (node_at v = node_at w \<and> w_faults v = [] \<longrightarrow> faulty partial m v = (Ok a, v))"
    by (auto simp: faulty_no_faults)
qed

lemma reads_calls [reads_intros]:
  "reads (symlink_metadata p)" "reads (open_nofollow p)" "reads (read_to_end n)" "reads (fstat n)" "reads rewind"
  unfolding symlink_metadata_def open_nofollow_def read_to_end_def fstat_def rewind_def
  by (rule reads_faulty; force split: option.splits if_splits)+

lemma reads_walk [reads_intros]: "reads (verify_candidates p uid root k cs)"
  by (induction cs) (simp_all only: verify_candidates.simps Let_def, (intro reads_intros; assumption?)+)

lemma reads_protected [reads_intros]:
  "reads (verify_protected_path p uid root k)" "reads (open_protected_file p uid root)"
  "reads (open_protected_executable p uid root)" "reads (sha256_file_identity C n)" "reads (read_json parse n)"
  unfolding verify_protected_path_def open_protected_file_def open_protected_executable_def sha256_file_identity_def
    read_json_def read_config_def
  by (intro reads_intros)+

lemma reads_verify_files [reads_intros]: "reads (verify_files C uid root observed es)"
  by (induction es arbitrary: observed) (simp_all only: verify_files.simps, (intro reads_intros; assumption?)+)

lemma verify_path_looks [touches_intros]: "touches S (verify_protected_path p uid root k)"
proof -
  have "touches {} (verify_protected_path p uid root k)" by (simp add: touches_def verify_protected_path_looks)
  then show ?thesis by (auto intro: touches_mono)
qed

lemma protected_looks [touches_intros]:
  "touches S (open_protected_file p uid root)" "touches S (open_protected_executable p uid root)"
  "touches S (sha256_file_identity C n)" "touches S (read_json parse n)"
  unfolding open_protected_file_def open_protected_executable_def sha256_file_identity_def read_json_def read_config_def
  by (intro touches_intros)+

lemma verify_files_looks [touches_intros]: "touches S (verify_files C uid root observed es)"
  by (induction es arbitrary: observed) (simp_all only: verify_files.simps, (intro touches_intros; assumption?)+)

lemma history_installation_looks [touches_intros]:
  "touches S (verify_protected_history_installation C J expected launcher binding_path client_path client service socket)"
  unfolding verify_protected_history_installation_def by (intro touches_intros)

lemma load_manifest_looks [touches_intros]:
  "touches S (load_protected_installation_manifest_at C J manifest_path config_path launcher c uid root)"
  unfolding load_protected_installation_manifest_at_def by (intro touches_intros)

lemma reads_manifest [reads_intros]:
  "reads (load_protected_installation_manifest_at C J manifest_path config_path launcher c uid root)"
  "reads (verify_protected_history_installation C J expected launcher binding_path client_path client service socket)"
  "reads (load_capability_projection_verifier_at C J parse valid manifest_path verifier_path uid root)"
  "reads (load_public_installation_evidence_identity_at J evidence_path m uid root)"
  unfolding load_protected_installation_manifest_at_def verify_protected_history_installation_def
    load_capability_projection_verifier_at_def load_public_installation_evidence_identity_at_def
  by (intro reads_intros)+

section \<open>What is accepted\<close>

text \<open>
  The specification: a file as the manifest lists it, a manifest that is well-formed for a
  configuration, and an installation in which both agree with each other and with the disk.
\<close>

definition installed_file :: "config_env \<Rightarrow> nat \<Rightarrow> world \<Rightarrow> installation_file \<Rightarrow> bool" where
  "installed_file C uid w e \<longleftrightarrow> path_is_absolute (fi_path e) \<and> chain_ok (components (fi_path e)) uid [RootDir] ProtectedFile w \<and>
     (\<exists>n. node_at w (components (fi_path e)) = Some n \<and> sha256_identity C (n_bytes n) = fi_identity e)"

definition only_entry :: "installation_manifest \<Rightarrow> installation_role \<Rightarrow> (installation_file \<Rightarrow> bool) \<Rightarrow> bool" where
  "only_entry m r P \<longleftrightarrow> (\<exists>e. entries_of m r = [e] \<and> P e)"

definition well_formed_manifest :: "config_env \<Rightarrow> 'j installation_env_scheme \<Rightarrow> service_config \<Rightarrow> installation_manifest \<Rightarrow> bool" where
  "well_formed_manifest C J c m \<longleftrightarrow>
     im_schema_version m = 1 \<and>
     manifest_message_identity J INSTALLATION_MANIFEST_IDENTITY_DOMAIN_V1 (m\<lparr>im_identity := []\<rparr>) = Some (im_identity m) \<and>
     im_launcher_configuration_identity m = sv_identity c \<and>
     launcher_profile_v4_identity J = Some (im_launcher_profile_identity m) \<and>
     job_principal_profile_v2_identity C = Some (im_job_principal_profile_identity m) \<and>
     im_files m \<noteq> [] \<and> sorted_wrt listed_before (map entry_key (im_files m)) \<and>
     (\<forall>e \<in> set (im_files m). path_is_absolute (fi_path e) \<and> is_sha256_identity (fi_identity e)) \<and>
     (\<forall>r \<in> set required_roles. only_entry m r (\<lambda>_. True)) \<and>
     (has_closed_profile c \<longrightarrow> (\<forall>r \<in> set closed_profile_roles. only_entry m r (\<lambda>_. True))) \<and>
     ((\<forall>r \<in> set history_roles. entries_of m r = []) \<or> (\<forall>r \<in> set history_roles. only_entry m r (\<lambda>_. True)))"

definition profile_installed :: "installation_manifest \<Rightarrow> closed_profile \<Rightarrow> bool" where
  "profile_installed m p \<longleftrightarrow>
     (JobRunnerServiceUnit, components (cp_runner_service_fragment_path p)) \<in> set (map entry_key (im_files m)) \<and>
     (\<forall>q \<in> set (cp_runner_service_drop_in_paths p). (JobRunnerServiceDropIn, components q) \<in> set (map entry_key (im_files m))) \<and>
     only_entry m NonLoginShellExecutable (\<lambda>e. components (fi_path e) = components (cp_non_login_shell p)) \<and>
     only_entry m JobRunnerExecutable (\<lambda>_. True)"

definition agrees_with_config ::
  "'j installation_env_scheme \<Rightarrow> path \<Rightarrow> path \<Rightarrow> service_config \<Rightarrow> installation_manifest \<Rightarrow> bool" where
  "agrees_with_config J config_path launcher c m \<longleftrightarrow>
     only_entry m LauncherConfiguration (\<lambda>e. components (fi_path e) = config_path) \<and>
     only_entry m LauncherExecutable (\<lambda>e. components (fi_path e) = launcher) \<and>
     only_entry m OtaExecutable (\<lambda>e. components (fi_path e) = components (sv_ota_binary c) \<and> fi_identity e = sv_ota_binary_identity c) \<and>
     only_entry m LauncherServiceUnit (\<lambda>e. fi_identity e = sv_service_unit_identity c) \<and>
     only_entry m LauncherSocketUnit (\<lambda>e. fi_identity e = sv_socket_unit_identity c) \<and>
     only_entry m AttestorVerifierSet (\<lambda>e. fi_identity e = sv_attestor_key_set_identity c) \<and>
     only_entry m BrokerProxyExecutable (\<lambda>e. fi_identity e = sv_broker_proxy_executable_identity c) \<and>
     only_entry m BrokerProxyServiceUnit (\<lambda>a. only_entry m BrokerProxySocketUnit (\<lambda>b.
       proxy_message_identity J BROKER_PROXY_INSTALLATION_IDENTITY_DOMAIN_V1 (fi_identity a, fi_identity b) =
         Some (sv_broker_proxy_identity c))) \<and>
     (\<forall>p \<in> set (sv_mappings c). pred_option (profile_installed m) (pm_closed_profile p))"

definition stored_manifest :: "'j installation_env_scheme \<Rightarrow> string \<Rightarrow> nat \<Rightarrow> world \<Rightarrow> installation_manifest \<Rightarrow> bool" where
  "stored_manifest J manifest_path uid w m \<longleftrightarrow>
     path_is_absolute manifest_path \<and> chain_ok (components manifest_path) uid [RootDir] ProtectedFile w \<and>
     (\<exists>n. node_at w (components manifest_path) = Some n \<and> manifest_from_json J (n_bytes n) = Some m)"

definition accepted_installation ::
  "config_env \<Rightarrow> 'j installation_env_scheme \<Rightarrow> string \<Rightarrow> path \<Rightarrow> path \<Rightarrow> service_config \<Rightarrow> nat \<Rightarrow> world \<Rightarrow> installation_manifest \<Rightarrow> bool" where
  "accepted_installation C J manifest_path config_path launcher c uid w m \<longleftrightarrow>
     stored_manifest J manifest_path uid w m \<and> well_formed_manifest C J c m \<and> (\<forall>e \<in> set (im_files m). installed_file C uid w e) \<and>
     agrees_with_config J config_path launcher c m"

lemma must_be_Inr: "must_be actual expected rest = Inr u \<longleftrightarrow> actual = Inr expected \<and> rest = Inr u"
  by (auto simp: must_be_def result_simps split: if_splits)

lemma singular_Inr:
  "singular_path m r = Inr p \<longleftrightarrow> only_entry m r (\<lambda>e. fi_path e = p)"
  "singular_identity m r = Inr i \<longleftrightarrow> only_entry m r (\<lambda>e. fi_identity e = i)"
  "require_exact_singular_path m r q = Inr u \<longleftrightarrow> only_entry m r (\<lambda>e. components (fi_path e) = q)"
  "require_role_path m r q = Inr u \<longleftrightarrow> (r, q) \<in> set (map entry_key (im_files m))"
  unfolding require_exact_singular_path_def try_with_Inr
  by (auto simp: singular_path_def singular_identity_def require_role_path_def only_entry_def entry_key_def list_ex_iff
      split: list.splits if_splits)

lemmas manifest_simps = result_simps must_be_Inr singular_Inr protected_installation_manifest_identity_def
  protected_history_installation_identity_def broker_proxy_installation_identity_def

lemma listed_before_trans: "listed_before a b \<Longrightarrow> listed_before b c \<Longrightarrow> listed_before a c"
  by (auto simp: listed_before_def)

lemma listed_before_irrefl [simp]: "\<not> listed_before a a"
  by (simp add: listed_before_def)

lemma listed_distinct: "sorted_wrt listed_before ks \<Longrightarrow> distinct ks"
  by (induction ks) auto

lemma validate_entries_Inr:
  "validate_entries prior es = Inr () \<longleftrightarrow>
     (\<forall>e \<in> set es. path_is_absolute (fi_path e) \<and> is_sha256_identity (fi_identity e)) \<and>
     sorted_wrt listed_before (case prior of None \<Rightarrow> map entry_key es | Some k \<Rightarrow> k # map entry_key es)"
  by (induction prior es rule: validate_entries.induct)
     (auto split: option.splits intro: listed_before_trans)

lemma roles_missing_iff: "\<not> roles_missing m rs \<longleftrightarrow> (\<forall>r \<in> set rs. only_entry m r (\<lambda>_. True))"
proof -
  have "role_present m r \<and> length (entries_of m r) = 1 \<longleftrightarrow> only_entry m r (\<lambda>_. True)" for r
  proof -
    have "role_present m r" if "entries_of m r = [e]" for e
    proof -
      from that have "e \<in> set (entries_of m r)" by simp
      then show ?thesis by (auto simp: entries_of_def role_present_def)
    qed
    then show ?thesis by (auto simp: only_entry_def length_Suc_conv)
  qed
  then show ?thesis by (auto simp: roles_missing_def list_ex_iff)
qed

lemma role_absent_iff: "\<not> role_present m r \<longleftrightarrow> entries_of m r = []"
  by (auto simp: role_present_def entries_of_def filter_empty_conv)

lemma history_complete_iff:
  "\<not> history_incomplete m \<longleftrightarrow>
     (\<forall>r \<in> set history_roles. entries_of m r = []) \<or> (\<forall>r \<in> set history_roles. only_entry m r (\<lambda>_. True))"
proof -
  have none: "length (filter (role_present m) history_roles) = 0 \<longleftrightarrow> (\<forall>r \<in> set history_roles. entries_of m r = [])"
    by (simp add: filter_empty_conv role_absent_iff)
  have all: "length (filter (role_present m) history_roles) = length history_roles \<longleftrightarrow> (\<forall>r \<in> set history_roles. role_present m r)"
    by (metis filter_True length_filter_less nat_less_le)
  have one: "(\<forall>r \<in> set history_roles. only_entry m r (\<lambda>_. True)) \<longleftrightarrow>
      (\<forall>r \<in> set history_roles. role_present m r) \<and> \<not> list_ex (\<lambda>r. length (entries_of m r) \<noteq> 1) history_roles"
    using roles_missing_iff [of m history_roles] by (auto simp: roles_missing_def list_ex_iff)
  show ?thesis unfolding history_incomplete_def Let_def one using none all by blast
qed

lemma validate_manifest_shape_Inr: "validate_manifest_shape C J m c = Inr () \<longleftrightarrow> well_formed_manifest C J c m"
  unfolding well_formed_manifest_def history_complete_iff [symmetric]
  unfolding roles_missing_iff [symmetric]
  by (auto simp: validate_manifest_shape_def manifest_simps validate_entries_Inr split: if_splits)

lemma require_drop_ins_Inr:
  "require_drop_ins m ps = Inr () \<longleftrightarrow> (\<forall>q \<in> set ps. (JobRunnerServiceDropIn, components q) \<in> set (map entry_key (im_files m)))"
  by (induction ps) (auto simp: manifest_simps)

lemma require_profiles_Inr:
  "require_profiles m ps = Inr () \<longleftrightarrow> (\<forall>p \<in> set ps. pred_option (profile_installed m) (pm_closed_profile p))"
  by (induction ps) (auto simp: manifest_simps require_drop_ins_Inr profile_installed_def only_entry_def split: option.splits)

lemma only_entry_both: "only_entry m r P \<and> only_entry m r Q \<longleftrightarrow> only_entry m r (\<lambda>e. P e \<and> Q e)"
  by (auto simp: only_entry_def)

lemma reconcile_with_config_Inr:
  "reconcile_with_config J config_path launcher c m = Inr () \<longleftrightarrow> agrees_with_config J config_path launcher c m"
proof -
  have "proxy_identity_of J m = Inr i \<longleftrightarrow> only_entry m BrokerProxyServiceUnit (\<lambda>a. only_entry m BrokerProxySocketUnit (\<lambda>b.
       proxy_message_identity J BROKER_PROXY_INSTALLATION_IDENTITY_DOMAIN_V1 (fi_identity a, fi_identity b) = Some i))" for i
    by (auto simp: proxy_identity_of_def manifest_simps only_entry_def)
  then show ?thesis
    unfolding reconcile_with_config_def agrees_with_config_def only_entry_both [symmetric]
    by (simp add: manifest_simps require_profiles_Inr) blast
qed

lemma relative_not_absolute: "path_absolute (components p) \<longleftrightarrow> path_is_absolute p"
proof (cases "path_is_absolute p")
  case False
  define cs where "cs = concat (map component_of (split_on CHR ''/'' p))"
  define pre where "pre = (if hd (split_on CHR ''/'' p) = ''.'' then [CurDir] else [])"
  have "components p = pre @ cs" using False by (simp add: components_def cs_def pre_def)
  moreover have "pre = [] \<or> pre = [CurDir]" by (simp add: pre_def)
  moreover have "RootDir \<notin> set cs" using component_of_no_root(1) by (auto simp: cs_def)
  ultimately show ?thesis using False by (cases cs) (auto simp: path_absolute_def split: component.splits)
qed (simp add: path_absolute_def components_def)

text \<open>Without faults a protected file opens exactly when its path is absolute and its chain is as it should be.\<close>

lemma open_protected_file_iff:
  assumes "w_faults w = []"
  shows "open_protected_file (components p) uid [RootDir] w = (Ok n, w') \<longleftrightarrow>
    w' = w \<and> path_is_absolute p \<and> node_at w (components p) = Some n \<and> chain_ok (components p) uid [RootDir] ProtectedFile w"
proof
  assume run: "open_protected_file (components p) uid [RootDir] w = (Ok n, w')"
  then have "path_is_absolute p"
    by (auto simp: open_protected_file_def and_then_Ok_iff verify_protected_path_def relative_not_absolute split: if_splits)
  with open_protected_file_Ok [OF assms run]
  show "w' = w \<and> path_is_absolute p \<and> node_at w (components p) = Some n \<and> chain_ok (components p) uid [RootDir] ProtectedFile w" by simp
next
  assume "w' = w \<and> path_is_absolute p \<and> node_at w (components p) = Some n \<and> chain_ok (components p) uid [RootDir] ProtectedFile w"
  then have n: "w' = w" "path_is_absolute p" "node_at w (components p) = Some n"
    and chain: "chain_ok (components p) uid [RootDir] ProtectedFile w" by simp_all
  have abs: "path_absolute (components p)" "prefix [RootDir] (components p)" "components p \<noteq> []"
    using n(2) by (auto simp: path_absolute_def components_def)
  have "verify_protected_path (components p) uid [RootDir] ProtectedFile w = (Ok (), w)"
    using verify_candidates_correct [OF assms, of "rev (components p)" "[RootDir]" "components p" uid ProtectedFile] abs chain components_root
    by (auto simp: verify_protected_path_def path_absolute_def chain_ok_def)
  moreover from chain abs(2) n(3) have "candidate_ok (components p) uid ProtectedFile (components p) n"
    unfolding chain_ok_def by force
  then have "n_kind n = RegularFile" by (simp add: candidate_ok_def kind_valid_def)
  ultimately show "open_protected_file (components p) uid [RootDir] w = (Ok n, w')"
    using n assms by (simp add: open_protected_file_def and_then_def map_err_def open_nofollow_def symlink_metadata_def faulty_no_faults)
qed

lemma verify_files_iff:
  assumes "w_faults w = []"
  shows "verify_files C uid [RootDir] observed es w = (Ok (), w') \<longleftrightarrow>
    w' = w \<and> (\<forall>e \<in> set es. installed_file C uid w e) \<and> distinct (map entry_key es) \<and> entry_key ` set es \<inter> set observed = {}"
proof (induction es arbitrary: observed)
  case (Cons e es)
  have hash: "sha256_file_identity C n w = (Ok i, w1) \<longleftrightarrow> w1 = w \<and> i = sha256_identity C (n_bytes n)" for n i w1
    using assms by (auto simp: sha256_file_identity_def and_then_def map_err_def read_to_end_def faulty_no_faults)
  have "verify_files C uid [RootDir] observed (e # es) w = (Ok (), w') \<longleftrightarrow>
     installed_file C uid w e \<and> entry_key e \<notin> set observed \<and> verify_files C uid [RootDir] (entry_key e # observed) es w = (Ok (), w')"
    by (auto simp: and_then_Ok_iff map_err_Ok_iff open_protected_file_iff [OF assms] hash installed_file_def split: if_splits)
  with Cons show ?case by auto
qed auto

lemma load_manifest_iff:
  assumes "w_faults w = []"
  shows "load_protected_installation_manifest_at C J manifest_path config_path launcher c uid [RootDir] w = (Ok m, w') \<longleftrightarrow>
    w' = w \<and> accepted_installation C J manifest_path config_path launcher c uid w m"
proof -
  have "load_protected_installation_manifest_at C J manifest_path config_path launcher c uid [RootDir] w = (Ok m, w') \<longleftrightarrow>
    stored_manifest J manifest_path uid w m \<and>
    validate_manifest_shape C J m c = Inr () \<and> verify_files C uid [RootDir] [] (im_files m) w = (Ok (), w') \<and>
    reconcile_with_config J config_path launcher c m = Inr ()"
    by (auto simp: load_protected_installation_manifest_at_def and_then_Ok_iff map_err_Ok_iff lift_result_Ok_iff read_json_def
        read_config_Ok open_protected_file_iff stored_manifest_def assms)
  moreover have "verify_files C uid [RootDir] [] (im_files m) w = (Ok (), w') \<longleftrightarrow>
      w' = w \<and> (\<forall>e \<in> set (im_files m). installed_file C uid w e)" if "well_formed_manifest C J c m"
    using that verify_files_iff [OF assms] listed_distinct by (auto simp: well_formed_manifest_def)
  ultimately show ?thesis
    unfolding accepted_installation_def validate_manifest_shape_Inr reconcile_with_config_Inr by blast
qed

lemma load_manifest_accepted:
  assumes "load_protected_installation_manifest_at C J manifest_path config_path launcher c uid [RootDir] w = (Ok m, w')"
  shows "accepted_installation C J manifest_path config_path launcher c uid w m"
proof -
  let ?v = "w\<lparr>w_faults := []\<rparr>"
  from readsD(2) [OF reads_manifest(1) assms, of ?v]
  have "accepted_installation C J manifest_path config_path launcher c uid ?v m" by (simp add: load_manifest_iff)
  then show ?thesis by (simp add: accepted_installation_def stored_manifest_def installed_file_def chain_ok_def)
qed

text \<open>
  C36. Loading the manifest accepts exactly a verified installation. However the load ends, under whatever
  faults of the system calls, it changes no file. A manifest that is returned is what the protected
  file decodes to, has its identity, lists its files in strict order and every required role exactly once,
  the roles of the history all or none; each file it lists is, on its whole path, the owner's and
  writable by nobody else, and hashes to the identity listed; the configuration, the launcher, the
  executable, the units, the verifier set, the proxy and the closed profiles are those of the configuration.
  And without faults every such installation is accepted.
\<close>

theorem installation_verified:
  assumes "load_protected_installation_manifest_at C J manifest_path config_path launcher c uid [RootDir] w = (r, w')"
  shows "node_at w' = node_at w \<and>
    (\<forall>m. r = Ok m \<longrightarrow> accepted_installation C J manifest_path config_path launcher c uid w m) \<and>
    (\<forall>m. w_faults w = [] \<and> accepted_installation C J manifest_path config_path launcher c uid w m \<longrightarrow> r = Ok m)"
proof (intro conjI allI impI)
  have "touches {} (load_protected_installation_manifest_at C J manifest_path config_path launcher c uid [RootDir])"
    by (rule load_manifest_looks)
  then show "node_at w' = node_at w" using same_nodes assms by blast
  fix m
  show "accepted_installation C J manifest_path config_path launcher c uid w m" if "r = Ok m"
    using load_manifest_accepted assms that by blast
  show "r = Ok m" if "w_faults w = [] \<and> accepted_installation C J manifest_path config_path launcher c uid w m"
    using that load_manifest_iff [of w C J manifest_path config_path launcher c uid m w] assms by simp
qed


section \<open>The installation of the protected history\<close>

text \<open>
  The binding of the history is itself a file of the manifest and names the manifest, so its own entry is
  left out of the identity it names: a manifest that differs only in that entry has the same one.
\<close>

lemma history_identity_ignores_binding:
  assumes "filter (\<lambda>e. fi_role e \<noteq> HistoryBinding) (im_files m) = filter (\<lambda>e. fi_role e \<noteq> HistoryBinding) (im_files m')"
    and "m\<lparr>im_identity := [], im_files := []\<rparr> = m'\<lparr>im_identity := [], im_files := []\<rparr>"
  shows "protected_history_installation_identity J m = protected_history_installation_identity J m'"
proof -
  have "(m\<lparr>im_identity := [], im_files := []\<rparr>)\<lparr>im_files := fs\<rparr> = (m'\<lparr>im_identity := [], im_files := []\<rparr>)\<lparr>im_files := fs\<rparr>" for fs
    using assms(2) by simp
  then show ?thesis using assms(1) by (simp add: protected_history_installation_identity_def)
qed

lemma history_installation_verified:
  assumes "verify_protected_history_installation C J expected launcher binding_path client_path client service socket w = (Ok u, w')"
  shows "node_at w' = node_at w" and "\<exists>m. stored_manifest J SYSTEMD_INSTALLATION_MANIFEST_PATH 0 w m \<and>
    protected_installation_manifest_identity J m = Inr (im_identity m) \<and> protected_history_installation_identity J m = Inr expected \<and>
    (\<forall>e \<in> set (im_files m). installed_file C 0 w e) \<and> distinct (map entry_key (im_files m)) \<and>
    only_entry m LauncherExecutable (\<lambda>e. components (fi_path e) = launcher) \<and>
    only_entry m HistoryBinding (\<lambda>e. components (fi_path e) = binding_path) \<and>
    only_entry m HistoryClientExecutable (\<lambda>e. components (fi_path e) = client_path \<and> fi_identity e = client) \<and>
    only_entry m HistoryServiceUnit (\<lambda>e. fi_identity e = service) \<and> only_entry m HistorySocketUnit (\<lambda>e. fi_identity e = socket)"
proof -
  let ?v = "w\<lparr>w_faults := []\<rparr>"
  show "node_at w' = node_at w" by (rule readsD(1) [OF reads_manifest(2) assms])
  from readsD(2) [OF reads_manifest(2) assms, of ?v]
  obtain m where m: "stored_manifest J SYSTEMD_INSTALLATION_MANIFEST_PATH 0 ?v m"
    "protected_installation_manifest_identity J m = Inr (im_identity m)" "protected_history_installation_identity J m = Inr expected"
    and files: "verify_files C 0 [RootDir] [] (im_files m) ?v = (Ok (), ?v)"
    and roles: "only_entry m LauncherExecutable (\<lambda>e. components (fi_path e) = launcher)"
      "only_entry m HistoryBinding (\<lambda>e. components (fi_path e) = binding_path)"
      "only_entry m HistoryClientExecutable (\<lambda>e. components (fi_path e) = client_path)"
      "only_entry m HistoryClientExecutable (\<lambda>e. fi_identity e = client)"
      "only_entry m HistoryServiceUnit (\<lambda>e. fi_identity e = service)" "only_entry m HistorySocketUnit (\<lambda>e. fi_identity e = socket)"
    by (auto simp: verify_protected_history_installation_def and_then_Ok_iff map_err_Ok_iff lift_result_Ok_iff read_json_def
        read_config_Ok open_protected_file_iff stored_manifest_def result_simps must_be_Inr singular_Inr)
  have "installed_file C 0 ?v e \<longleftrightarrow> installed_file C 0 w e" for e by (simp add: installed_file_def chain_ok_def)
  with files have "\<forall>e \<in> set (im_files m). installed_file C 0 w e" "distinct (map entry_key (im_files m))"
    by (auto simp: verify_files_iff)
  with m roles show "\<exists>m. stored_manifest J SYSTEMD_INSTALLATION_MANIFEST_PATH 0 w m \<and>
    protected_installation_manifest_identity J m = Inr (im_identity m) \<and> protected_history_installation_identity J m = Inr expected \<and>
    (\<forall>e \<in> set (im_files m). installed_file C 0 w e) \<and> distinct (map entry_key (im_files m)) \<and>
    only_entry m LauncherExecutable (\<lambda>e. components (fi_path e) = launcher) \<and>
    only_entry m HistoryBinding (\<lambda>e. components (fi_path e) = binding_path) \<and>
    only_entry m HistoryClientExecutable (\<lambda>e. components (fi_path e) = client_path \<and> fi_identity e = client) \<and>
    only_entry m HistoryServiceUnit (\<lambda>e. fi_identity e = service) \<and> only_entry m HistorySocketUnit (\<lambda>e. fi_identity e = socket)"
    by (intro exI [of _ m]) (auto simp: stored_manifest_def chain_ok_def only_entry_both [symmetric])
qed


section \<open>A retained installation\<close>

text \<open>
  What the code relies on of the kernel: with these files on the disk, a descriptor shows the file its
  inode is, as long as the file has a name.
\<close>

definition descriptors_agree :: "'j installation_env_scheme \<Rightarrow> world \<Rightarrow> bool" where
  "descriptors_agree J w \<longleftrightarrow> (\<forall>v p n. node_at v = node_at w \<and> node_at w p = Some n \<longrightarrow> descriptor_shows J v (n_ino n) = n)"

lemma descriptors_agree_same: "descriptors_agree J w \<Longrightarrow> node_at v = node_at w \<Longrightarrow> descriptors_agree J v"
  by (simp add: descriptors_agree_def)

definition protected_kind :: "retained_file \<Rightarrow> protected_path_kind" where
  "protected_kind f = (if rt_executable f then ProtectedExecutable else ProtectedFile)"

text \<open>The file a retained one stands for is on the disk as it was when it was opened.\<close>

definition still_there :: "config_env \<Rightarrow> world \<Rightarrow> retained_file \<Rightarrow> bool" where
  "still_there C w f \<longleftrightarrow> chain_ok (components (rt_path f)) (rt_expected_owner_uid f) [RootDir] (protected_kind f) w \<and>
     (\<exists>n. node_at w (components (rt_path f)) = Some n \<and> sha256_identity C (n_bytes n) = rt_identity f \<and>
        n_ino n = (rt_device f, rt_inode f) \<and> n_mode n AND 4095 = rt_mode f \<and> length (n_bytes n) = rt_size f)"

lemma observe_descriptor_Ok:
  assumes "observe_descriptor C J f w = (Ok x, w')" and "descriptors_agree J w" and "node_at w p = Some n" and "rt_file f = n_ino n"
  shows "x = (sha256_identity C (n_bytes n), fst (n_ino n), snd (n_ino n), n_mode n AND 4095, length (n_bytes n)) \<and> node_at w' = node_at w"
proof -
  have show_n: "descriptor_shows J v (rt_file f) = n" if "node_at v = node_at w" for v
    using assms(2-4) that by (simp add: descriptors_agree_def)
  from assms(1) obtain w1 w2 w3 m where r: "rewind w = (Ok (), w1)" "rewind w1 = (Ok (), w2)"
    and i: "sha256_file_identity C (descriptor_shows J w2 (rt_file f)) w2 = (Ok (fst x), w3)"
    and s: "fstat (descriptor_shows J w3 (rt_file f)) w3 = (Ok m, w')"
    and x: "x = (fst x, fst (n_ino m), snd (n_ino m), n_mode m AND 4095, length (n_bytes m))"
    by (auto simp: observe_descriptor_def through_descriptor_def and_then_Ok_iff map_err_Ok_iff)
  note same = readsD(1) [OF reads_calls(5) r(1)] readsD(1) [OF reads_calls(5) r(2)] readsD(1) [OF reads_protected(4) i]
    readsD(1) [OF reads_calls(4) s]
  have "fst x = sha256_identity C (n_bytes n)"
    using i show_n [of w2] same by (auto simp: sha256_file_identity_def and_then_Ok_iff map_err_Ok_iff read_to_end_def faulty_def
        Let_def split: list.splits fault.splits)
  moreover have "m = n" using s show_n [of w3] same
    by (auto simp: fstat_def faulty_def Let_def split: list.splits fault.splits)
  ultimately show ?thesis using x same by auto
qed

lemma observe_descriptor_same: "observe_descriptor C J f w = (Ok x, w') \<Longrightarrow> node_at w' = node_at w"
proof -
  have through: "touches {} (through_descriptor J f call)" if "\<And>n. touches {} (call n)" for call :: "fnode \<Rightarrow> 'b manifest_io"
    using that by (auto simp: touches_def ensures_def through_descriptor_def)
  have moved: "touches {} rewind" unfolding rewind_def sync_all_def [symmetric] by (intro touches_intros)
  have "touches {} (observe_descriptor C J f)"
    unfolding observe_descriptor_def by (intro touches_intros through moved)
  then show "observe_descriptor C J f w = (Ok x, w') \<Longrightarrow> node_at w' = node_at w" using same_nodes by blast
qed

text \<open>What \<open>retained_open\<close> establishes of the record, and every later call keeps.\<close>

definition retains :: "retained_file \<Rightarrow> string \<Rightarrow> nat \<Rightarrow> bool \<Rightarrow> bool" where
  "retains f p uid executable \<longleftrightarrow> rt_path f = p \<and> rt_expected_owner_uid f = uid \<and> rt_executable f = executable \<and>
     rt_trusted_root f = [RootDir] \<and> rt_file f = (rt_device f, rt_inode f)"

lemma retained_open_Ok:
  assumes "retained_open C J p uid [RootDir] executable w = (Ok f, w')" and "descriptors_agree J w"
  shows "retains f p uid executable" "still_there C w f" "node_at w' = node_at w"
proof -
  let ?open = "if executable then open_protected_executable (components p) uid [RootDir] else open_protected_file (components p) uid [RootDir]"
  let ?f = "\<lambda>n. \<lparr>rt_file = n_ino n, rt_path = p, rt_trusted_root = [RootDir], rt_expected_owner_uid = uid, rt_executable = executable,
         rt_identity = [], rt_device = 0, rt_inode = 0, rt_mode = 0, rt_size = 0\<rparr>"
  from assms(1) obtain n w1 i d k m z where o: "?open w = (Ok n, w1)" and x: "observe_descriptor C J (?f n) w1 = (Ok (i, d, k, m, z), w')"
    and f: "f = (?f n)\<lparr>rt_identity := i, rt_device := d, rt_inode := k, rt_mode := m, rt_size := z\<rparr>"
    by (auto simp: retained_open_def Let_def and_then_Ok_iff map_err_Ok_iff)
  have "reads ?open" by (intro reads_intros)
  note r = readsD(1) [OF this o] readsD(2) [OF this o, of "w\<lparr>w_faults := []\<rparr>"]
  have n: "node_at w (components p) = Some n" "chain_ok (components p) uid [RootDir] (protected_kind f) w"
    using r(2) open_protected_file_Ok [of "w\<lparr>w_faults := []\<rparr>" p uid n] open_protected_executable_Ok [of "w\<lparr>w_faults := []\<rparr>" p uid n]
    by (auto simp: f protected_kind_def chain_ok_def split: if_splits)
  from observe_descriptor_Ok [OF x descriptors_agree_same [OF assms(2) r(1)], of "components p" n] n(1) r(1)
  have facts: "i = sha256_identity C (n_bytes n)" "d = fst (n_ino n)" "k = snd (n_ino n)" "m = n_mode n AND 4095" "z = length (n_bytes n)"
    "node_at w' = node_at w" by simp_all
  then show "retains f p uid executable" "still_there C w f" "node_at w' = node_at w"
    using n by (simp_all add: f retains_def still_there_def)
qed

lemma retained_reconcile_Ok:
  assumes "retained_reconcile C J f w = (Ok u, w')" and "descriptors_agree J w" and "retains f p uid executable"
  shows "still_there C w f" "node_at w' = node_at w"
proof -
  from assms(1) obtain w1 g w2 where a: "observe_descriptor C J f w = (Ok (retained_facts f), w1)"
    and o: "retained_open C J (rt_path f) (rt_expected_owner_uid f) (rt_trusted_root f) (rt_executable f) w1 = (Ok g, w2)"
    and b: "observe_descriptor C J g w2 = (Ok (retained_facts f), w')"
    by (auto simp: retained_reconcile_def and_then_Ok_iff split: if_splits)
  note same = observe_descriptor_same [OF a] observe_descriptor_same [OF b]
  from assms(3) have "rt_trusted_root f = [RootDir]" by (simp add: retains_def)
  from retained_open_Ok [OF o [unfolded this] descriptors_agree_same [OF assms(2) same(1)]] same(1)
  have g: "rt_path g = rt_path f" "rt_expected_owner_uid g = rt_expected_owner_uid f" "rt_executable g = rt_executable f"
    "rt_file g = (rt_device g, rt_inode g)" "still_there C w g" "node_at w2 = node_at w"
    by (auto simp: retains_def still_there_def chain_ok_def)
  then obtain n where n: "node_at w (components (rt_path f)) = Some n" "n_ino n = rt_file g" by (auto simp: still_there_def)
  from observe_descriptor_Ok [OF b descriptors_agree_same [OF assms(2) g(6)], of "components (rt_path f)" n] n g(6)
  have "retained_facts f = (sha256_identity C (n_bytes n), fst (n_ino n), snd (n_ino n), n_mode n AND 4095, length (n_bytes n))" by simp
  then show "still_there C w f" using n(1) g(2,3,5) by (auto simp: still_there_def retained_facts_def protected_kind_def g(1))
  show "node_at w' = node_at w" using same g(6) by simp
qed

definition on_disk :: "world \<Rightarrow> nat \<Rightarrow> protected_path_kind \<Rightarrow> string \<Rightarrow> fnode \<Rightarrow> bool" where
  "on_disk w uid k p n \<longleftrightarrow> chain_ok (components p) uid [RootDir] k w \<and> node_at w (components p) = Some n"

text \<open>A context that names exactly these files and the revisions the launcher was built from.\<close>

definition context_bound ::
  "config_env \<Rightarrow> 'j installation_env_scheme \<Rightarrow> installation_manifest \<Rightarrow> authority_context \<Rightarrow> string \<Rightarrow> fnode \<Rightarrow> fnode \<Rightarrow> fnode \<Rightarrow> bool" where
  "context_bound C J m cx context_path xn ln bn \<longleftrightarrow>
    (let su = cx_implementation_subject cx; hash = (\<lambda>n. sha256_identity C (n_bytes n)) in
     only_entry m ProtectedLauncherAuthorityContext (\<lambda>e. components (fi_path e) = components context_path \<and> fi_identity e = hash xn) \<and>
     only_entry m LauncherExecutable (\<lambda>e. fi_identity e = hash ln) \<and> su_launcher_artifact_identity su = hash ln \<and>
     only_entry m OtaExecutable (\<lambda>e. fi_identity e = hash bn) \<and> su_ota_artifact_identity su = hash bn \<and>
     administrator_identity J (cx_runner_administrator cx) = Some (ad_identity (cx_runner_administrator cx)) \<and>
     subject_identity J su = Some (su_identity su) \<and> context_identity J cx = Some (cx_identity cx) \<and>
     su_launcher_profile_identity su = im_launcher_profile_identity m \<and>
     build_message_identity J PROTECTED_LAUNCHER_BUILD_IDENTITY_DOMAIN_V1
       (''launcher'', su_launcher_source_repository su, su_launcher_source_revision su, hash ln) = Some (su_launcher_build_identity su) \<and>
     build_message_identity J PROTECTED_LAUNCHER_BUILD_IDENTITY_DOMAIN_V1
       (''core'', su_core_source_repository su, su_core_source_revision su, hash bn) = Some (su_core_build_identity su) \<and>
     launcher_build_commit J = Some (su_launcher_source_revision su) \<and>
     protocol_build_revision J = Some (su_protocol_source_revision su))"

lemma only_entry_eq: "only_entry m r (\<lambda>e. f e = a) \<Longrightarrow> only_entry m r (\<lambda>e. f e = b) \<Longrightarrow> b = a"
  by (auto simp: only_entry_def)

lemma validate_context_Inr:
  assumes "validate_authority_context_against_installation J cx m (components context_path) = Inr u"
    and "only_entry m ProtectedLauncherAuthorityContext (\<lambda>e. fi_identity e = sha256_identity C (n_bytes xn))"
    and "only_entry m LauncherExecutable (\<lambda>e. fi_identity e = sha256_identity C (n_bytes ln))"
    and "only_entry m OtaExecutable (\<lambda>e. fi_identity e = sha256_identity C (n_bytes bn))"
  shows "context_bound C J m cx context_path xn ln bn"
proof -
  let ?su = "cx_implementation_subject cx"
  from assms(1) have v: "only_entry m ProtectedLauncherAuthorityContext (\<lambda>e. components (fi_path e) = components context_path)"
    "only_entry m LauncherExecutable (\<lambda>e. fi_identity e = su_launcher_artifact_identity ?su)"
    "only_entry m OtaExecutable (\<lambda>e. fi_identity e = su_ota_artifact_identity ?su)"
    by (auto simp: validate_authority_context_against_installation_def Let_def manifest_simps split: if_splits)
  from only_entry_eq [OF assms(3) v(2)] only_entry_eq [OF assms(4) v(3)]
  have "su_launcher_artifact_identity ?su = sha256_identity C (n_bytes ln)" "su_ota_artifact_identity ?su = sha256_identity C (n_bytes bn)" .
  with assms v show ?thesis
    by (auto simp: validate_authority_context_against_installation_def context_bound_def Let_def manifest_simps
        protected_launcher_installed_build_identity_def only_entry_both [symmetric] split: if_splits)
qed

lemma retained_read_Ok:
  assumes "retained_read_json J parse f w = (Ok x, w')" and "descriptors_agree J w" and "node_at w p = Some n" and "rt_file f = n_ino n"
  shows "parse (n_bytes n) = Some x \<and> node_at w' = node_at w"
proof -
  from assms(1) obtain w1 w2 where r: "rewind w = (Ok (), w1)" "rewind w1 = (Ok (), w2)"
    and j: "read_json parse (descriptor_shows J w2 (rt_file f)) w2 = (Ok x, w')"
    by (auto simp: retained_read_json_def through_descriptor_def and_then_Ok_iff map_err_Ok_iff)
  note same = readsD(1) [OF reads_calls(5) r(1)] readsD(1) [OF reads_calls(5) r(2)] readsD(1) [OF reads_protected(5) j]
  have "descriptor_shows J w2 (rt_file f) = n" using assms(2-4) same by (simp add: descriptors_agree_def)
  with readsD(2) [OF reads_protected(5) j, of "w2\<lparr>w_faults := []\<rparr>"] same show ?thesis
    by (simp add: read_json_def map_err_Ok_iff read_config_Ok)
qed

lemma still_there_on_disk:
  "still_there C w f \<Longrightarrow> retains f p uid x \<Longrightarrow>
   \<exists>n. on_disk w uid (if x then ProtectedExecutable else ProtectedFile) p n \<and> rt_identity f = sha256_identity C (n_bytes n) \<and> rt_file f = n_ino n"
  by (auto simp: still_there_def retains_def on_disk_def protected_kind_def)

lemma loaded_context_retained:
  assumes "load_protected_launcher_authority_context_at C J manifest_path context_path config_path launcher c uid [RootDir] v = (Ok r, v')"
    and "descriptors_agree J v"
  shows "\<exists>m. accepted_installation C J manifest_path config_path (components launcher) c uid v m \<and> ri_manifest_identity r = im_identity m"
    and "retains (ri_manifest r) manifest_path uid False" "retains (ri_context_file r) context_path uid False"
    and "retains (ri_launcher r) launcher uid True" "retains (ri_ota r) (sv_ota_binary c) uid True"
proof -
  from assms(1) obtain m v1 v2 v3 v4 v5 where
    m: "load_protected_installation_manifest_at C J manifest_path config_path (components launcher) c uid [RootDir] v = (Ok m, v1)"
       "ri_manifest_identity r = im_identity m"
    and o: "retained_open C J manifest_path uid [RootDir] False v1 = (Ok (ri_manifest r), v2)"
      "retained_open C J context_path uid [RootDir] False v2 = (Ok (ri_context_file r), v3)"
      "retained_open C J launcher uid [RootDir] True v3 = (Ok (ri_launcher r), v4)"
      "retained_open C J (sv_ota_binary c) uid [RootDir] True v4 = (Ok (ri_ota r), v5)"
    by (auto simp: load_protected_launcher_authority_context_at_def load_authority_context_with_after_manifest_def at_stage_def and_then_Ok_iff map_err_Ok_iff lift_result_Ok_iff)
  note v1 = readsD(1) [OF reads_manifest(1) m(1)]
  note r1 = retained_open_Ok [OF o(1) descriptors_agree_same [OF assms(2) v1]]
  note r2 = retained_open_Ok [OF o(2) descriptors_agree_same [OF assms(2) trans [OF r1(3) v1]]]
  note r3 = retained_open_Ok [OF o(3) descriptors_agree_same [OF assms(2) trans [OF r2(3) trans [OF r1(3) v1]]]]
  note r4 = retained_open_Ok [OF o(4) descriptors_agree_same [OF assms(2) trans [OF r3(3) trans [OF r2(3) trans [OF r1(3) v1]]]]]
  show "\<exists>m. accepted_installation C J manifest_path config_path (components launcher) c uid v m \<and> ri_manifest_identity r = im_identity m"
    using load_manifest_accepted [OF m(1)] m(2) by blast
  show "retains (ri_manifest r) manifest_path uid False" "retains (ri_context_file r) context_path uid False"
    "retains (ri_launcher r) launcher uid True" "retains (ri_ota r) (sv_ota_binary c) uid True"
    using r1 r2 r3 r4 by simp_all
qed

lemma reconcile_reads_disk:
  assumes "installation_reconcile C J r w = (Ok cx, w')" and "descriptors_agree J w"
    and "retains (ri_manifest r) p1 uid False" "retains (ri_context_file r) p2 uid False"
    and "retains (ri_launcher r) p3 uid True" "retains (ri_ota r) p4 uid True"
  shows "node_at w' = node_at w \<and> cx = ri_context r \<and> (\<exists>mn xn ln bn m. on_disk w uid ProtectedFile p1 mn \<and> on_disk w uid ProtectedFile p2 xn \<and>
    on_disk w uid ProtectedExecutable p3 ln \<and> on_disk w uid ProtectedExecutable p4 bn \<and>
    manifest_from_json J (n_bytes mn) = Some m \<and> im_identity m = ri_manifest_identity r \<and>
    context_from_json J (n_bytes xn) = Some cx \<and> context_bound C J m cx p2 xn ln bn)"
proof -
  from assms(1) obtain u1 u2 u3 u4 w1 w2 w3 w4 w5 m cx' where
    k: "retained_reconcile C J (ri_manifest r) w = (Ok u1, w1)" "retained_reconcile C J (ri_context_file r) w1 = (Ok u2, w2)"
      "retained_reconcile C J (ri_launcher r) w2 = (Ok u3, w3)" "retained_reconcile C J (ri_ota r) w3 = (Ok u4, w4)"
    and j': "retained_read_json J (manifest_from_json J) (ri_manifest r) w4 = (Ok m, w5)"
      "retained_read_json J (context_from_json J) (ri_context_file r) w5 = (Ok cx', w')"
    and bound: "(if im_identity m \<noteq> ri_manifest_identity r \<or> cx' \<noteq> ri_context r then Inl ManifestMismatch
        else
          must_be (singular_identity m ProtectedLauncherAuthorityContext) (rt_identity (ri_context_file r))
         (must_be (singular_identity m LauncherExecutable) (rt_identity (ri_launcher r))
         (must_be (singular_identity m OtaExecutable) (rt_identity (ri_ota r))
           (validate_authority_context_against_installation J cx' m (components (rt_path (ri_context_file r))))))) = Inr ()"
    and cx: "cx = ri_context r"
    unfolding installation_reconcile_def and_then_Ok_iff lift_result_Ok_iff by auto
  from bound cx assms(4) have b: "im_identity m = ri_manifest_identity r" "cx' = cx"
      "only_entry m ProtectedLauncherAuthorityContext (\<lambda>e. fi_identity e = rt_identity (ri_context_file r))"
      "only_entry m LauncherExecutable (\<lambda>e. fi_identity e = rt_identity (ri_launcher r))"
      "only_entry m OtaExecutable (\<lambda>e. fi_identity e = rt_identity (ri_ota r))"
      "validate_authority_context_against_installation J cx' m (components p2) = Inr ()"
    unfolding must_be_Inr singular_Inr retains_def by (simp_all add: must_be_Inr singular_Inr split: if_splits)
  note j = j' [unfolded b(2)]
  note agree = descriptors_agree_same [OF assms(2)]
  note s1 = retained_reconcile_Ok [OF k(1) assms(2,3)]
  note s2 = retained_reconcile_Ok [OF k(2) agree [OF s1(2)] assms(4)]
  note s3 = retained_reconcile_Ok [OF k(3) agree [OF trans [OF s2(2) s1(2)]] assms(5)]
  note s4 = retained_reconcile_Ok [OF k(4) agree [OF trans [OF s3(2) trans [OF s2(2) s1(2)]]] assms(6)]
  note s = s1 s2 s3 s4
  have there: "still_there C w f" if "still_there C x f" "node_at x = node_at w" for x f
    using that by (simp add: still_there_def chain_ok_def)
  have same: "node_at w1 = node_at w" "node_at w2 = node_at w" "node_at w3 = node_at w" "node_at w4 = node_at w" using s by simp_all
  from still_there_on_disk [OF s(1) assms(3)] obtain mn where
    mn: "on_disk w uid ProtectedFile p1 mn" "rt_file (ri_manifest r) = n_ino mn" by auto
  from still_there_on_disk [OF there [OF s(3) same(1)] assms(4)] obtain xn where
    xn: "on_disk w uid ProtectedFile p2 xn" "rt_identity (ri_context_file r) = sha256_identity C (n_bytes xn)"
      "rt_file (ri_context_file r) = n_ino xn" by auto
  from still_there_on_disk [OF there [OF s(5) same(2)] assms(5)] obtain ln where
    ln: "on_disk w uid ProtectedExecutable p3 ln" "rt_identity (ri_launcher r) = sha256_identity C (n_bytes ln)" by auto
  from still_there_on_disk [OF there [OF s(7) same(3)] assms(6)] obtain bn where
    bn: "on_disk w uid ProtectedExecutable p4 bn" "rt_identity (ri_ota r) = sha256_identity C (n_bytes bn)" by auto
  have m: "manifest_from_json J (n_bytes mn) = Some m \<and> node_at w5 = node_at w"
    using retained_read_Ok [OF j(1) agree [OF same(4)], of "components p1" mn] mn same(4) by (simp add: on_disk_def)
  have x: "context_from_json J (n_bytes xn) = Some cx \<and> node_at w' = node_at w"
    using retained_read_Ok [OF j(2) agree [OF conjunct2 [OF m]], of "components p2" xn] xn m by (simp add: on_disk_def)
  have "context_bound C J m cx p2 xn ln bn"
    using validate_context_Inr [OF b(6) [unfolded b(2)] b(3) [unfolded xn(2)] b(4) [unfolded ln(2)] b(5) [unfolded bn(2)]] .
  with b(1) cx mn xn ln bn m x show ?thesis by blast
qed

text \<open>
  C21. A context that reconciles is backed by the disk. The authority context was loaded at one time; at a later
  time, whatever happened to the files in between and under any faults, the installation reconciles. Then no file was changed by that, the context is the one that was loaded, together
  with a manifest that described an accepted installation; and the manifest, the context, the
  launcher and the executable on the disk at that later time are protected on their whole paths, decode to
  this context and to a manifest with the retained identity, and are exactly the files this manifest
  lists and the context names, with the build identities and the revisions of the launcher.
\<close>

theorem reconciled_context_backed:
  assumes "load_protected_launcher_authority_context_at C J manifest_path context_path config_path launcher c uid [RootDir] v = (Ok r, v')"
    and "installation_reconcile C J r w = (Ok cx, w')" and "descriptors_agree J v" and "descriptors_agree J w"
  shows "node_at w' = node_at w \<and> cx = ri_context r \<and>
    (\<exists>m. accepted_installation C J manifest_path config_path (components launcher) c uid v m \<and> im_identity m = ri_manifest_identity r) \<and>
    (\<exists>mn xn ln bn m. on_disk w uid ProtectedFile manifest_path mn \<and> on_disk w uid ProtectedFile context_path xn \<and>
       on_disk w uid ProtectedExecutable launcher ln \<and> on_disk w uid ProtectedExecutable (sv_ota_binary c) bn \<and>
       manifest_from_json J (n_bytes mn) = Some m \<and> im_identity m = ri_manifest_identity r \<and>
       context_from_json J (n_bytes xn) = Some cx \<and> context_bound C J m cx context_path xn ln bn)"
proof -
  note loaded = loaded_context_retained [OF assms(1,3)]
  show ?thesis using reconcile_reads_disk [OF assms(2,4) loaded(2-5)] loaded(1) by metis
qed

end
