(* ===== verification/Installation_Samples.thy ===== *)
theory Installation_Samples
  imports Installation_Manifest
begin

text \<open>
  A concrete installation: one small file for each required role, a manifest that lists them and an
  authority context that names them, on a disk where everything belongs to root.
\<close>

definition plain_digest :: string where
  "plain_digest = ''sha256:'' @ replicate 64 CHR ''b''"

text \<open>The configuration states the identities of the executable, the proxy, the units and the verifier set.\<close>

definition installed_hash :: "string \<Rightarrow> string" where
  "installed_hash bs = (if bs \<in> {''O'', ''B'', ''1'', ''2'', ''V''} then config_digest else plain_digest)"

definition installed_config_env :: config_env where
  "installed_config_env = sample_config_env\<lparr>sha256_identity := installed_hash\<rparr>"

definition sample_manifest :: installation_manifest where
  "sample_manifest = \<lparr>im_schema_version = 1, im_identity = ''im'', im_launcher_configuration_identity = ''id'',
     im_launcher_profile_identity = ''lp'', im_job_principal_profile_identity = ''p'',
     im_files = map (\<lambda>(r, p, i). \<lparr>fi_role = r, fi_path = p, fi_identity = i\<rparr>)
      [(LauncherExecutable, ''/l'', plain_digest), (OtaExecutable, ''/ota'', config_digest),
       (LauncherConfiguration, ''/c.json'', plain_digest), (LauncherServiceUnit, ''/u1'', config_digest),
       (LauncherSocketUnit, ''/u2'', config_digest), (BrokerProxyExecutable, ''/b'', config_digest),
       (BrokerProxyServiceUnit, ''/u3'', plain_digest), (BrokerProxySocketUnit, ''/u4'', plain_digest),
       (AttestorExecutable, ''/a'', plain_digest), (AttestorConfiguration, ''/a.json'', plain_digest),
       (AttestorVerifierSet, ''/v'', config_digest), (ProtectedLauncherAuthorityContext, ''/x.json'', plain_digest),
       (AttestorServiceUnit, ''/u5'', plain_digest), (AttestorSocketUnit, ''/u6'', plain_digest),
       (SystemctlExecutable, ''/s'', plain_digest), (PkcheckExecutable, ''/p'', plain_digest)]\<rparr>"

definition sample_context :: authority_context where
  "sample_context = \<lparr>cx_identity = ''cx'', cx_runner_administrator = \<lparr>ad_identity = ''ad'', ad_others = []\<rparr>,
     cx_implementation_subject = \<lparr>su_identity = ''su'', su_launcher_artifact_identity = plain_digest, su_ota_artifact_identity = config_digest,
       su_launcher_profile_identity = ''lp'', su_launcher_build_identity = ''launcher'', su_core_build_identity = ''core'',
       su_launcher_source_repository = ''rl'', su_launcher_source_revision = ''1'', su_core_source_repository = ''rc'',
       su_core_source_revision = ''2'', su_protocol_source_revision = ''3'', su_others = []\<rparr>, cx_others = []\<rparr>"

text \<open>A descriptor shows the first named file with its inode.\<close>

definition first_with_inode :: "world \<Rightarrow> nat \<times> nat \<Rightarrow> fnode" where
  "first_with_inode w i =
     (case find (\<lambda>p. is_some_and (\<lambda>n. n_ino n = i) (node_at w p)) (map fst (w_files w)) of
        Some p \<Rightarrow> the (node_at w p) | None \<Rightarrow> config_node RegularFile 0 [])"

definition sample_installation_env :: installation_env where
  "sample_installation_env = \<lparr>manifest_message_identity = (\<lambda>_ _. Some ''im''), evidence_message_identity = (\<lambda>_ _. None),
     proxy_message_identity = (\<lambda>_ _. Some config_digest), build_message_identity = (\<lambda>_ x. Some (fst x)),
     launcher_profile_v4_identity = Some ''lp'', manifest_from_json = (\<lambda>bs. if bs = ''M'' then Some sample_manifest else None),
     evidence_from_json = (\<lambda>_. None), context_from_json = (\<lambda>bs. if bs = ''X'' then Some sample_context else None),
     administrator_identity = (\<lambda>_. Some ''ad''), subject_identity = (\<lambda>_. Some ''su''), context_identity = (\<lambda>_. Some ''cx''),
     launcher_build_commit = Some ''1'', protocol_build_revision = Some ''3'', real_path = (\<lambda>_ _. None), link_count = (\<lambda>_. 1),
     descriptor_shows = first_with_inode\<rparr>"

definition sample_files :: "(string \<times> mode \<times> string) list" where
  "sample_files = [(''/m.json'', 0x1A4, ''M''), (''/x.json'', 0x1A4, ''X''), (''/l'', 0x1ED, ''L''), (''/ota'', 0x1ED, ''O''),
     (''/c.json'', 0x1A4, ''C''), (''/u1'', 0x1A4, ''1''), (''/u2'', 0x1A4, ''2''), (''/b'', 0x1ED, ''B''), (''/u3'', 0x1A4, ''3''),
     (''/u4'', 0x1A4, ''4''), (''/a'', 0x1ED, ''A''), (''/a.json'', 0x1A4, ''J''), (''/v'', 0x1A4, ''V''), (''/u5'', 0x1A4, ''5''),
     (''/u6'', 0x1A4, ''6''), (''/s'', 0x1ED, ''S''), (''/p'', 0x1ED, ''P'')]"

definition sample_installed :: world where
  "sample_installed = \<lparr>w_files = ([RootDir], config_node Directory 0x1ED []) #
     map (\<lambda>(i, p, mode, bs). (components p, (config_node RegularFile mode bs)\<lparr>n_ino := (0, i)\<rparr>)) (enumerate 1 sample_files),
     w_euid = 0, w_faults = []\<rparr>"

text \<open>Later a unit is gone.\<close>

definition sample_later :: world where
  "sample_later = del_node (components ''/u1'') sample_installed"

lemma installed_descriptors:
  assumes "\<forall>(p, n) \<in> set (w_files w). \<forall>(q, m) \<in> set (w_files w). n_ino n = n_ino m \<longrightarrow> n = m"
  shows "descriptors_agree sample_installation_env w"
  unfolding descriptors_agree_def
proof (intro allI impI, elim conjE)
  fix v p n
  assume same: "node_at v = node_at w" and n: "node_at w p = Some n"
  then have "p \<in> set (map fst (w_files v))" by (metis domI dom_map_of_conv_image_fst list.set_map)
  with n same obtain q where q: "find (\<lambda>p. is_some_and (\<lambda>m. n_ino m = n_ino n) (node_at v p)) (map fst (w_files v)) = Some q"
    by (cases "find (\<lambda>p. is_some_and (\<lambda>m. n_ino m = n_ino n) (node_at v p)) (map fst (w_files v))") (auto simp: find_None_iff)
  then have "is_some_and (\<lambda>m. n_ino m = n_ino n) (node_at v q)" by (auto simp: find_Some_iff)
  then obtain m where m: "node_at v q = Some m" "n_ino m = n_ino n" by (auto simp: is_some_and_iff)
  have "m = n" using assms m same map_of_SomeD [OF n] map_of_SomeD [of "w_files w" q m] by fastforce
  with q m show "descriptor_shows sample_installation_env v (n_ino n) = n"
    by (simp add: sample_installation_env_def first_with_inode_def)
qed

lemma sample_descriptors:
  "descriptors_agree sample_installation_env sample_installed" "descriptors_agree sample_installation_env sample_later"
  by (rule installed_descriptors, code_simp)+

lemma sample_loads:
  "load_protected_installation_manifest_at installed_config_env sample_installation_env ''/m.json'' (components ''/c.json'')
     (components ''/l'') sample_service_config 0 [RootDir] sample_installed = (Ok sample_manifest, sample_installed)"
  by code_simp

theorem installation_verified_witness:
  "load_protected_installation_manifest_at installed_config_env sample_installation_env ''/m.json'' (components ''/c.json'')
     (components ''/l'') sample_service_config 0 [RootDir] sample_installed = (Ok sample_manifest, sample_installed) \<and>
   accepted_installation installed_config_env sample_installation_env ''/m.json'' (components ''/c.json'') (components ''/l'')
     sample_service_config 0 sample_installed sample_manifest"
  using installation_verified [OF sample_loads] sample_loads by blast

definition sample_retained :: "retained_installation option" where
  "sample_retained =
     (case load_protected_launcher_authority_context_at installed_config_env sample_installation_env ''/m.json'' ''/x.json''
        (components ''/c.json'') ''/l'' sample_service_config 0 [RootDir] sample_installed of
        (Ok r, _) \<Rightarrow> Some r | _ \<Rightarrow> None)"

lemma sample_reconciles:
  "(case sample_retained of None \<Rightarrow> None
    | Some r \<Rightarrow> (case installation_reconcile installed_config_env sample_installation_env r sample_later of
        (Ok cx, w) \<Rightarrow> Some (cx, w) | _ \<Rightarrow> None)) = Some (sample_context, sample_later)"
  by code_simp

theorem reconciled_context_backed_witness:
  "\<exists>r. sample_retained = Some r \<and> ri_context r = sample_context \<and>
     accepted_installation installed_config_env sample_installation_env ''/m.json'' (components ''/c.json'') (components ''/l'')
       sample_service_config 0 sample_installed sample_manifest \<and>
     (\<exists>mn xn ln bn m. on_disk sample_later 0 ProtectedFile ''/m.json'' mn \<and> on_disk sample_later 0 ProtectedFile ''/x.json'' xn \<and>
        on_disk sample_later 0 ProtectedExecutable ''/l'' ln \<and> on_disk sample_later 0 ProtectedExecutable ''/ota'' bn \<and>
        manifest_from_json sample_installation_env (n_bytes mn) = Some m \<and>
        context_bound installed_config_env sample_installation_env m sample_context ''/x.json'' xn ln bn)"
proof -
  from sample_reconciles obtain r where r: "sample_retained = Some r"
    and run: "installation_reconcile installed_config_env sample_installation_env r sample_later = (Ok sample_context, sample_later)"
    by (auto split: option.splits prod.splits outcome.splits)
  from r obtain v where load: "load_protected_launcher_authority_context_at installed_config_env sample_installation_env ''/m.json'' ''/x.json''
        (components ''/c.json'') ''/l'' sample_service_config 0 [RootDir] sample_installed = (Ok r, v)"
    by (auto simp: sample_retained_def split: prod.splits outcome.splits)
  have binary: "sv_ota_binary sample_service_config = ''/ota''" by (simp add: sample_service_config_def)
  note backed = reconciled_context_backed [OF load run sample_descriptors, unfolded binary]
  note accepted = load_manifest_accepted [OF sample_loads]
  from backed have "ri_context r = sample_context" by simp
  with backed r accepted show ?thesis by (intro exI [of _ r] conjI) (assumption | fast)+
qed

end
