(* ===== verification/Archive_Attachment.thy ===== *)
theory Archive_Attachment
  imports Publication Protocol_Types
begin

text \<open>
  The search for the receipt archive of an execution and the publication of the launcher's
  sidecar beside it (\<open>src/archive_attachment.rs\<close>). The parser of JSON, the canonical encoder, SHA-256
  and the link counts of the kernel are the fields of \<open>archive_env\<close>. \<open>read_dir\<close> gives the names in
  no particular order; the model takes the sorted one, which only decides the error reported when
  several files are at fault. The result of the model is the same for every order.
\<close>


section \<open>Data\<close>

datatype archive_error =
    DirectoryUnavailable | DirectoryUnreadable | DirectoryUnsafe
  | ArchiveUnreadable | ArchiveUnsafe | ArchiveNameInvalid | ArchiveInvalid | ArchiveTransactionInvalid
  | ArchiveOmitsSnapshot | ArchiveOmitsSnapshotIdentity | ArchiveAmbiguous | ArchiveChanged
  | SnapshotReferenceInvalid | SnapshotUnavailable | SnapshotIdentityInvalid
  | SidecarNameInvalid | SidecarNotEncoded | TemporaryNameUnavailable | TemporaryNameInvalid
  | TemporaryNotCreated | SidecarNotPersisted | SidecarNotPublished
  | ExistingUnsafeOrUnreadable | ExistingUnreadable | ExistingUnsafe | ExistingDiffers | ExistingNotDurable

datatype json = JString string | JObject "(string \<times> json) list" | JArray "json list" | JOther string

record frozen_object =
  fz_bytes :: string
  fz_content_identity :: string
  fz_owner_uid :: nat
  fz_mode :: mode
  fz_device :: nat
  fz_inode :: nat
  fz_link_count :: nat

record archive_target =
  at_directory :: path
  at_archive_name :: string
  at_sidecar_name :: string
  at_sidecar_file_name :: string
  at_receipt_archive_identity :: string
  at_expected_owner_uid :: nat
  at_archive :: frozen_object
  at_contract_snapshot :: frozen_object

record archive_env =
  value_from_slice :: "string \<Rightarrow> json option"
  sidecar_to_vec :: "sidecar \<Rightarrow> string option"
  sha256_hex :: "string \<Rightarrow> string"
  nlink :: "nat \<times> nat \<Rightarrow> nat"

type_synonym 'a archive_io = "(world, archive_error, 'a) proc"

definition MAX_ARCHIVE_BYTES :: nat where
  "MAX_ARCHIVE_BYTES = 16 * 1024 * 1024"

abbreviation content_identity_of :: "'x archive_env_scheme \<Rightarrow> string \<Rightarrow> string" where
  "content_identity_of E bs \<equiv> ''sha256:'' @ sha256_hex E bs"

text \<open>\<open>Value::pointer\<close>, the reference already split; a name does not index an array.\<close>

fun json_pointer :: "string list \<Rightarrow> json \<Rightarrow> json option" where
  "json_pointer [] v = Some v"
| "json_pointer (k # ks) (JObject members) = Option.bind (map_of members k) (json_pointer ks)"
| "json_pointer (k # ks) _ = None"

definition as_str :: "json \<Rightarrow> string option" where
  "as_str v = (case v of JString s \<Rightarrow> Some s | _ \<Rightarrow> None)"

definition transaction_identity_of :: "json \<Rightarrow> string option" where
  "transaction_identity_of v = Option.bind
     (json_pointer [''receipt'', ''crossing'', ''authority'', ''archive_evidence'', ''transaction'', ''identity''] v) as_str"

text \<open>\<open>Path::extension\<close> of a single name.\<close>

definition path_extension :: "string \<Rightarrow> string option" where
  "path_extension s =
     (case dropWhile (\<lambda>c. c \<noteq> CHR ''.'') (rev s) of
        [] \<Rightarrow> None | [_] \<Rightarrow> None | _ \<Rightarrow> Some (rev (takeWhile (\<lambda>c. c \<noteq> CHR ''.'') (rev s))))"


section \<open>Reading\<close>

definition verify_private_directory :: "fnode \<Rightarrow> nat \<Rightarrow> unit archive_io" where
  "verify_private_directory d uid =
     and_then (map_err (\<lambda>_. DirectoryUnreadable) (fstat d)) (\<lambda>m.
       if n_kind m \<noteq> Directory \<or> n_uid m \<noteq> uid \<or> n_mode m AND 511 \<noteq> 448 then throw DirectoryUnsafe else ret ())"

definition open_receipt_directory :: "path \<Rightarrow> nat \<Rightarrow> path archive_io" where
  "open_receipt_directory repo uid =
     (let ota = path_join repo ''.ota''; receipts = path_join ota ''receipts'' in
      and_then (map_err (\<lambda>_. DirectoryUnavailable) (open_directory ota)) (\<lambda>d.
      and_then (verify_private_directory d uid) (\<lambda>_.
      and_then (map_err (\<lambda>_. DirectoryUnavailable) (open_directory receipts)) (\<lambda>r.
      and_then (verify_private_directory r uid) (\<lambda>_. ret receipts)))))"

definition freeze :: "'x archive_env_scheme \<Rightarrow> fnode \<Rightarrow> string \<Rightarrow> frozen_object" where
  "freeze E m bytes = \<lparr>fz_bytes = bytes, fz_content_identity = content_identity_of E bytes,
     fz_owner_uid = n_uid m, fz_mode = n_mode m AND 4095, fz_device = fst (n_ino m),
     fz_inode = snd (n_ino m), fz_link_count = nlink E (n_ino m)\<rparr>"

definition read_regular_file :: "'x archive_env_scheme \<Rightarrow> path \<Rightarrow> string \<Rightarrow> nat \<Rightarrow> frozen_object archive_io" where
  "read_regular_file E d name uid =
     and_then (map_err (\<lambda>_. ArchiveUnreadable) (open_nofollow (path_join d name))) (\<lambda>file.
     and_then (map_err (\<lambda>_. ArchiveUnreadable) (fstat file)) (\<lambda>m.
       if n_kind m \<noteq> RegularFile \<or> nlink E (n_ino m) \<noteq> 1 \<or> n_uid m \<noteq> uid \<or> n_mode m AND 18 \<noteq> 0
          \<or> MAX_ARCHIVE_BYTES < length (n_bytes m)
       then throw ArchiveUnsafe
       else and_then (map_err (\<lambda>_. ArchiveUnreadable) (read_to_end file)) (\<lambda>bytes. ret (freeze E m bytes))))"

text \<open>
  The reference to the contract snapshot: \<open>.ota/contracts/<name>.json\<close>, also with a leading \<open>./\<close> or
  as the absolute path below the repository. The link of the open directory is its path.
\<close>

definition contracts_of :: "path \<Rightarrow> path" where
  "contracts_of repo = repo @ [Normal ''.ota'', Normal ''contracts'']"

definition relative_reference :: "path \<Rightarrow> string \<Rightarrow> path archive_io" where
  "relative_reference repo ref =
     (if path_is_absolute ref
      then and_then (map_err (\<lambda>_. SnapshotReferenceInvalid) (faulty untouched (\<lambda>w. (Ok repo, w)))) (\<lambda>repository.
        if prefix (contracts_of repository) (components ref)
        then (case drop (length (contracts_of repository)) (components ref) of
                [Normal name] \<Rightarrow> ret [Normal ''.ota'', Normal ''contracts'', Normal name]
              | _ \<Rightarrow> throw SnapshotReferenceInvalid)
        else throw SnapshotReferenceInvalid)
      else ret (components ref))"

definition contract_snapshot_name :: "path \<Rightarrow> string \<Rightarrow> string archive_io" where
  "contract_snapshot_name repo ref =
     and_then (relative_reference repo ref) (\<lambda>p.
       case (case p of CurDir # q \<Rightarrow> q | _ \<Rightarrow> p) of
         [Normal ota, Normal contracts, Normal name] \<Rightarrow>
           if ota = ''.ota'' \<and> contracts = ''contracts'' \<and> path_extension name = Some ''json''
           then lift_result (c_string SnapshotReferenceInvalid name)
           else throw SnapshotReferenceInvalid
       | _ \<Rightarrow> throw SnapshotReferenceInvalid)"

definition read_contract_snapshot ::
  "'x archive_env_scheme \<Rightarrow> path \<Rightarrow> nat \<Rightarrow> string \<Rightarrow> frozen_object archive_io" where
  "read_contract_snapshot E repo uid name =
     (let ota = path_join repo ''.ota''; contracts = path_join ota ''contracts'' in
      and_then (map_err (\<lambda>_. SnapshotUnavailable) (open_directory ota)) (\<lambda>d.
      and_then (verify_private_directory d uid) (\<lambda>_.
      and_then (map_err (\<lambda>_. SnapshotUnavailable) (open_directory contracts)) (\<lambda>c.
      and_then (verify_private_directory c uid) (\<lambda>_.
        map_err (\<lambda>_. SnapshotUnavailable) (read_regular_file E contracts name uid))))))"


section \<open>Locating the archive\<close>

text \<open>The contract snapshot an archive names, and one round of the loop over the directory.\<close>

definition snapshot_of_archive ::
  "'x archive_env_scheme \<Rightarrow> path \<Rightarrow> nat \<Rightarrow> json \<Rightarrow> frozen_object archive_io" where
  "snapshot_of_archive E repo uid v =
     (case Option.bind (json_pointer [''receipt'', ''contract_snapshot_ref''] v) as_str of
        None \<Rightarrow> throw ArchiveOmitsSnapshot
      | Some ref \<Rightarrow>
         (case Option.bind (json_pointer [''receipt'', ''contract_snapshot_hash''] v) as_str of
            None \<Rightarrow> throw ArchiveOmitsSnapshotIdentity
          | Some identity \<Rightarrow>
             and_then (contract_snapshot_name repo ref) (\<lambda>name.
             and_then (read_contract_snapshot E repo uid name) (\<lambda>snapshot.
               if fz_content_identity snapshot \<noteq> identity then throw SnapshotIdentityInvalid else ret snapshot))))"

definition examine_archive ::
  "'x archive_env_scheme \<Rightarrow> path \<Rightarrow> path \<Rightarrow> nat \<Rightarrow> string \<Rightarrow> string \<Rightarrow> string \<Rightarrow>
   (string \<times> frozen_object \<times> frozen_object) option archive_io" where
  "examine_archive E repo d uid receipt crossing name =
     (if path_extension name \<noteq> Some ''json'' then ret None
      else and_then (lift_result (c_string ArchiveNameInvalid name)) (\<lambda>_.
        and_then (read_regular_file E d name uid) (\<lambda>archive.
          if fz_content_identity archive \<noteq> receipt then ret None
          else (case value_from_slice E (fz_bytes archive) of
            None \<Rightarrow> throw ArchiveInvalid
          | Some v \<Rightarrow>
             if transaction_identity_of v \<noteq> Some crossing then throw ArchiveTransactionInvalid
             else and_then (snapshot_of_archive E repo uid v) (\<lambda>snapshot. ret (Some (name, archive, snapshot)))))))"

fun examine_archives ::
  "(string \<Rightarrow> 'm option archive_io) \<Rightarrow> string list \<Rightarrow> 'm list archive_io" where
  "examine_archives f [] = ret []"
| "examine_archives f (name # names) =
     and_then (f name) (\<lambda>x.
     and_then (examine_archives f names) (\<lambda>ms. ret (case x of None \<Rightarrow> ms | Some m \<Rightarrow> m # ms)))"

definition attachment_target ::
  "path \<Rightarrow> nat \<Rightarrow> string \<Rightarrow> (string \<times> frozen_object \<times> frozen_object) list \<Rightarrow> archive_error + archive_target" where
  "attachment_target d uid receipt ms =
     (case ms of
        [(name, archive, snapshot)] \<Rightarrow>
          if \<not> utf8_valid name then Inl ArchiveNameInvalid
          else (case strip_suffix ''.json'' name of
            None \<Rightarrow> Inl ArchiveNameInvalid
          | Some base \<Rightarrow>
             (case c_string SidecarNameInvalid (base @ ''.launcher-finalization'') of
                Inl e \<Rightarrow> Inl e
              | Inr sidecar \<Rightarrow>
                 Inr \<lparr>at_directory = d, at_archive_name = name, at_sidecar_name = sidecar,
                   at_sidecar_file_name = base @ ''.launcher-finalization'', at_receipt_archive_identity = receipt,
                   at_expected_owner_uid = uid, at_archive = archive, at_contract_snapshot = snapshot\<rparr>))
      | _ \<Rightarrow> Inl ArchiveAmbiguous)"

definition locate_archive_at ::
  "'x archive_env_scheme \<Rightarrow> path \<Rightarrow> nat \<Rightarrow> string \<Rightarrow> string \<Rightarrow> archive_target archive_io" where
  "locate_archive_at E repo uid receipt crossing =
     and_then (open_receipt_directory repo uid) (\<lambda>d.
     and_then (map_err (\<lambda>_. DirectoryUnavailable) (read_dir d)) (\<lambda>names.
     and_then (examine_archives (examine_archive E repo d uid receipt crossing) names) (\<lambda>ms.
       lift_result (attachment_target d uid receipt ms))))"


section \<open>Publishing the sidecar\<close>

definition existing_file_matches ::
  "'x archive_env_scheme \<Rightarrow> path \<Rightarrow> string \<Rightarrow> string \<Rightarrow> bool archive_io" where
  "existing_file_matches E d name expected =
     match_result (open_nofollow (path_join d name))
       (\<lambda>file. and_then (map_err (\<lambda>_. ExistingUnreadable) (fstat file)) (\<lambda>m.
          and_then geteuid (\<lambda>euid.
            if n_kind m \<noteq> RegularFile \<or> nlink E (n_ino m) \<noteq> 1 \<or> n_uid m \<noteq> euid
               \<or> n_mode m AND 511 \<noteq> 384 \<or> length (n_bytes m) \<noteq> length expected
            then throw ExistingUnsafe
            else and_then (map_err (\<lambda>_. ExistingUnreadable) (read_to_end file)) (\<lambda>bytes.
              if bytes \<noteq> expected then throw ExistingDiffers
              else and_then (map_err (\<lambda>_. ExistingNotDurable) (and_then sync_all (\<lambda>_. sync_all))) (\<lambda>_. ret True)))))
       (\<lambda>e. if e = NotFound then ret False else throw ExistingUnsafeOrUnreadable)"

definition sidecar_temporary_name :: "archive_target \<Rightarrow> random_bytes \<Rightarrow> string" where
  "sidecar_temporary_name t r = ''.'' @ at_sidecar_file_name t @ ''.'' @ hex_suffix r @ ''.tmp''"

text \<open>
  The source unlinks the temporary file at the end unless it has been moved; here the unlinking
  stands on each of the paths on which it was not.
\<close>

definition stage_sidecar ::
  "'x archive_env_scheme \<Rightarrow> archive_target \<Rightarrow> string \<Rightarrow> string \<Rightarrow> unit archive_io" where
  "stage_sidecar E t bytes temporary =
     (let d = at_directory t; tmp = path_join d temporary; dst = path_join d (at_sidecar_name t) in
      and_then (map_err (\<lambda>_. TemporaryNotCreated) (create_new tmp 384)) (\<lambda>_.
      and_then (on_error (map_err (\<lambda>_. SidecarNotPersisted) (write_chunks tmp [bytes])) (remove_file tmp)) (\<lambda>_.
        move_or tmp dst
          (afterwards
            (and_then (existing_file_matches E d (at_sidecar_name t) bytes) (\<lambda>same.
               if same then ret () else throw SidecarNotPublished))
            (remove_file tmp))
          (afterwards (throw SidecarNotPublished) (remove_file tmp))
          (map_err (\<lambda>_. SidecarNotPersisted) sync_all))))"

definition persist_sidecar_at ::
  "'x archive_env_scheme \<Rightarrow> archive_target \<Rightarrow> sidecar \<Rightarrow> random_bytes option \<Rightarrow> unit archive_io" where
  "persist_sidecar_at E t sc rnd =
     and_then (read_regular_file E (at_directory t) (at_archive_name t) (at_expected_owner_uid t)) (\<lambda>archive.
       if fz_content_identity archive \<noteq> at_receipt_archive_identity t \<or> archive \<noteq> at_archive t
       then throw ArchiveChanged
       else (case sidecar_to_vec E sc of
         None \<Rightarrow> throw SidecarNotEncoded
       | Some bytes \<Rightarrow>
           and_then (existing_file_matches E (at_directory t) (at_sidecar_name t) bytes) (\<lambda>same.
             if same then ret ()
             else (case rnd of
               None \<Rightarrow> throw TemporaryNameUnavailable
             | Some r \<Rightarrow>
                 and_then (lift_result (c_string TemporaryNameInvalid (sidecar_temporary_name t r)))
                   (stage_sidecar E t bytes)))))"

section \<open>What a search has seen\<close>

lemma touches_lift_c_string [touches_intros]: "touches S (lift_result (c_string e s))"
  by (rule touches_basic)

lemma archive_looks [touches_intros]:
  "touches S (verify_private_directory d uid)" "touches S (open_receipt_directory repo uid)"
  "touches S (read_regular_file E dir name uid)" "touches S (existing_file_matches E dir name bs)"
  unfolding verify_private_directory_def open_receipt_directory_def read_regular_file_def
    existing_file_matches_def Let_def
  by (intro touches_intros)+

lemma touches_relative_reference [touches_intros]: "touches S (relative_reference repo ref)"
proof -
  have "touches S (faulty untouched (\<lambda>w. (Ok repo, w)) :: path io)"
    by (rule touches_faulty) (simp add: touches_def ensures_def)
  then show ?thesis
    unfolding relative_reference_def
    by (intro touches_intros) (auto split: list.splits component.splits intro: touches_intros)
qed

lemma touches_snapshot [touches_intros]:
  "touches S (contract_snapshot_name repo ref)" "touches S (read_contract_snapshot E repo uid name)"
  "touches S (snapshot_of_archive E repo uid v)"
proof -
  show *: "touches S (contract_snapshot_name repo ref)" for ref
    unfolding contract_snapshot_name_def
    by (intro touches_intros) (auto split: list.splits component.splits intro: touches_intros)
  show **: "touches S (read_contract_snapshot E repo uid name)" for name
    unfolding read_contract_snapshot_def Let_def by (intro touches_intros)
  show "touches S (snapshot_of_archive E repo uid v)"
    unfolding snapshot_of_archive_def by (intro touches_intros * **)
qed

lemma touches_examine [touches_intros]: "touches S (examine_archive E repo d uid receipt crossing name)"
  unfolding examine_archive_def by (intro touches_intros)

lemma touches_examine_archives:
  "(\<And>name. touches S (f name)) \<Longrightarrow> touches S (examine_archives f names)"
  by (induction names) (auto intro!: touches_intros)

definition archive_file_ok :: "'x archive_env_scheme \<Rightarrow> nat \<Rightarrow> fnode \<Rightarrow> bool" where
  "archive_file_ok E uid n \<longleftrightarrow> n_kind n = RegularFile \<and> nlink E (n_ino n) = 1 \<and> n_uid n = uid \<and>
     n_mode n AND 18 = 0 \<and> length (n_bytes n) \<le> MAX_ARCHIVE_BYTES"

lemma read_regular_file_Ok:
  assumes "read_regular_file E d name uid w = (Ok a, w')"
  shows "\<exists>n. node_at w (path_join d name) = Some n \<and> archive_file_ok E uid n \<and> a = freeze E n (n_bytes n)"
proof -
  let ?rest = "\<lambda>f. and_then (map_err (\<lambda>_. ArchiveUnreadable) (fstat f)) (\<lambda>m.
       if n_kind m \<noteq> RegularFile \<or> nlink E (n_ino m) \<noteq> 1 \<or> n_uid m \<noteq> uid \<or> n_mode m AND 18 \<noteq> 0
          \<or> MAX_ARCHIVE_BYTES < length (n_bytes m)
       then throw ArchiveUnsafe
       else and_then (map_err (\<lambda>_. ArchiveUnreadable) (read_to_end f)) (\<lambda>bytes. ret (freeze E m bytes)))"
  from assms obtain n w1 where n: "open_nofollow (path_join d name) w = (Ok n, w1)" and rest: "?rest n w1 = (Ok a, w')"
    unfolding read_regular_file_def and_then_Ok_iff [where m = "map_err _ (open_nofollow _)"] map_err_Ok_iff by blast
  from rest show ?thesis
    using look_Ok(1) [OF n]
    by (auto simp: and_then_Ok_iff map_err_Ok_iff archive_file_ok_def dest!: look_Ok(2,3) split: if_splits)
qed

lemma freeze_sel [simp]:
  "fz_bytes (freeze E n bs) = bs" "fz_content_identity (freeze E n bs) = content_identity_of E bs"
  by (simp_all add: freeze_def)

text \<open>The archive and the snapshot a round of the search accepts, in terms of the files.\<close>

definition snapshot_in :: "'x archive_env_scheme \<Rightarrow> path \<Rightarrow> nat \<Rightarrow> json \<Rightarrow> frozen_object \<Rightarrow> (path \<rightharpoonup> fnode) \<Rightarrow> bool" where
  "snapshot_in E repo uid v snapshot files \<longleftrightarrow>
     (\<exists>name n. files (path_join (path_join (path_join repo ''.ota'') ''contracts'') name) = Some n \<and>
        archive_file_ok E uid n \<and> snapshot = freeze E n (n_bytes n)) \<and>
     Option.bind (json_pointer [''receipt'', ''contract_snapshot_hash''] v) as_str = Some (fz_content_identity snapshot)"

lemma read_contract_snapshot_Ok:
  assumes "read_contract_snapshot E repo uid name w = (Ok s, w')"
  shows "\<exists>n. node_at w (path_join (path_join (path_join repo ''.ota'') ''contracts'') name) = Some n \<and>
    archive_file_ok E uid n \<and> s = freeze E n (n_bytes n)"
proof -
  let ?c = "path_join (path_join repo ''.ota'') ''contracts''"
  let ?read = "\<lambda>_. map_err (\<lambda>_. SnapshotUnavailable) (read_regular_file E ?c name uid)"
  let ?open = "\<lambda>p. map_err (\<lambda>_. SnapshotUnavailable) (open_directory p)"
  let ?pre = "and_then (?open (path_join repo ''.ota'')) (\<lambda>d. and_then (verify_private_directory d uid) (\<lambda>_.
      and_then (?open ?c) (\<lambda>c. verify_private_directory c uid)))"
  have "read_contract_snapshot E repo uid name = and_then ?pre ?read"
    by (simp add: read_contract_snapshot_def Let_def and_then_assoc)
  moreover have "touches {} ?pre" by (intro touches_intros)
  ultimately obtain a w1 where "?read a w1 = (Ok s, w')" "node_at w1 = node_at w"
    using assms by (auto elim: look_then)
  then show ?thesis by (auto simp: map_err_Ok_iff dest!: read_regular_file_Ok)
qed

lemma snapshot_of_archive_Ok:
  assumes "snapshot_of_archive E repo uid v w = (Ok s, w')"
  shows "snapshot_in E repo uid v s (node_at w)"
proof -
  from assms obtain ref identity where id: "Option.bind (json_pointer [''receipt'', ''contract_snapshot_hash''] v) as_str = Some identity"
    and run: "and_then (contract_snapshot_name repo ref) (\<lambda>name.
             and_then (read_contract_snapshot E repo uid name) (\<lambda>snapshot.
               if fz_content_identity snapshot \<noteq> identity then throw SnapshotIdentityInvalid else ret snapshot)) w = (Ok s, w')"
    by (auto simp: snapshot_of_archive_def split: option.splits)
  from look_then [OF run touches_snapshot(1)] obtain name w1 where
    run1: "and_then (read_contract_snapshot E repo uid name) (\<lambda>snapshot.
       if fz_content_identity snapshot \<noteq> identity then throw SnapshotIdentityInvalid else ret snapshot) w1 = (Ok s, w')"
    and same: "node_at w1 = node_at w" by blast
  from run1 obtain x w2 where "read_contract_snapshot E repo uid name w1 = (Ok s, w2)" "fz_content_identity s = identity"
    by (auto simp: and_then_Ok_iff split: if_splits)
  with id same show ?thesis using read_contract_snapshot_Ok unfolding snapshot_in_def by metis
qed

definition archive_in ::
  "'x archive_env_scheme \<Rightarrow> path \<Rightarrow> path \<Rightarrow> nat \<Rightarrow> string \<Rightarrow> string \<Rightarrow> (string \<times> frozen_object \<times> frozen_object) \<Rightarrow>
   (path \<rightharpoonup> fnode) \<Rightarrow> bool" where
  "archive_in E repo d uid receipt crossing m files \<longleftrightarrow>
     (case m of (name, archive, snapshot) \<Rightarrow>
        path_extension name = Some ''json'' \<and>
        (\<exists>n v. files (path_join d name) = Some n \<and> archive_file_ok E uid n \<and> archive = freeze E n (n_bytes n) \<and>
           content_identity_of E (n_bytes n) = receipt \<and> value_from_slice E (n_bytes n) = Some v \<and>
           transaction_identity_of v = Some crossing \<and> snapshot_in E repo uid v snapshot files))"

definition not_archive :: "'x archive_env_scheme \<Rightarrow> path \<Rightarrow> string \<Rightarrow> string \<Rightarrow> (path \<rightharpoonup> fnode) \<Rightarrow> bool" where
  "not_archive E d receipt name files \<longleftrightarrow> path_extension name = Some ''json'' \<longrightarrow>
     (\<exists>n. files (path_join d name) = Some n \<and> content_identity_of E (n_bytes n) \<noteq> receipt)"

lemma examine_archive_Ok:
  assumes "examine_archive E repo d uid receipt crossing name w = (Ok x, w')"
  shows "case x of None \<Rightarrow> not_archive E d receipt name (node_at w)
    | Some m \<Rightarrow> fst m = name \<and> archive_in E repo d uid receipt crossing m (node_at w)"
proof (cases "path_extension name = Some ''json''")
  case True
  let ?rest = "\<lambda>archive. if fz_content_identity archive \<noteq> receipt then ret None
      else (case value_from_slice E (fz_bytes archive) of None \<Rightarrow> throw ArchiveInvalid
        | Some v \<Rightarrow> if transaction_identity_of v \<noteq> Some crossing then throw ArchiveTransactionInvalid
             else and_then (snapshot_of_archive E repo uid v) (\<lambda>snapshot. ret (Some (name, archive, snapshot))))"
  from assms True have "and_then (read_regular_file E d name uid) ?rest w = (Ok x, w')"
    by (auto simp: examine_archive_def and_then_Ok_iff lift_result_Ok_iff)
  then obtain a w1 where a: "read_regular_file E d name uid w = (Ok a, w1)" and rest: "?rest a w1 = (Ok x, w')"
    and same: "node_at w1 = node_at w" by (rule look_then) (intro touches_intros)
  from read_regular_file_Ok [OF a] obtain n where n: "node_at w (path_join d name) = Some n"
    "archive_file_ok E uid n" "a = freeze E n (n_bytes n)" by blast
  show ?thesis
  proof (cases "content_identity_of E (n_bytes n) = receipt")
    case False
    with rest n show ?thesis by (auto simp: not_archive_def)
  next
    case match: True
    with rest n obtain v s w2 where v: "value_from_slice E (n_bytes n) = Some v" "transaction_identity_of v = Some crossing"
      and s: "snapshot_of_archive E repo uid v w1 = (Ok s, w2)" and x: "x = Some (name, a, s)"
      by (auto simp: and_then_Ok_iff split: option.splits if_splits)
    from snapshot_of_archive_Ok [OF s] v x match n True same show ?thesis by (auto simp: archive_in_def)
  qed
qed (use assms in \<open>auto simp: examine_archive_def not_archive_def\<close>)

lemma examine_archives_Ok:
  assumes "examine_archives (examine_archive E repo d uid receipt crossing) names w = (Ok ms, w')"
  shows "(\<forall>m \<in> set ms. archive_in E repo d uid receipt crossing m (node_at w)) \<and>
    (\<forall>name \<in> set names. name \<in> fst ` set ms \<or> not_archive E d receipt name (node_at w))"
  using assms
proof (induction names arbitrary: w ms w')
  case (Cons name names)
  from Cons.prems obtain x w1 where x: "examine_archive E repo d uid receipt crossing name w = (Ok x, w1)"
    and rest: "and_then (examine_archives (examine_archive E repo d uid receipt crossing) names)
       (\<lambda>ms. ret (case x of None \<Rightarrow> ms | Some m \<Rightarrow> m # ms)) w1 = (Ok ms, w')"
    and same: "node_at w1 = node_at w"
    unfolding examine_archives.simps by (rule look_then) (intro touches_intros)
  from rest obtain ms' w2 where run: "examine_archives (examine_archive E repo d uid receipt crossing) names w1 = (Ok ms', w2)"
    and ms: "ms = (case x of None \<Rightarrow> ms' | Some m \<Rightarrow> m # ms')"
    by (auto simp: and_then_Ok_iff)
  from Cons.IH [OF run] examine_archive_Ok [OF x] same ms show ?case by (cases x) (auto simp: image_iff)
qed simp

lemma locate_archive_Ok:
  assumes "locate_archive_at E repo uid receipt crossing w = (Ok t, w')"
  defines "d \<equiv> path_join (path_join repo ''.ota'') ''receipts''"
  shows "at_directory t = d" "at_receipt_archive_identity t = receipt" "at_expected_owner_uid t = uid"
    "at_sidecar_name t = at_sidecar_file_name t" "at_archive_name t = base @ ''.json'' \<Longrightarrow>
       at_sidecar_file_name t = base @ ''.launcher-finalization''"
    "\<exists>base. at_archive_name t = base @ ''.json''"
    "archive_in E repo d uid receipt crossing (at_archive_name t, at_archive t, at_contract_snapshot t) (node_at w)"
    "\<And>name. name \<in> set (dir_names w d) \<Longrightarrow> name = at_archive_name t \<or> not_archive E d receipt name (node_at w)"
proof -
  let ?scan = "examine_archives (examine_archive E repo d uid receipt crossing)"
  let ?last = "\<lambda>ms. lift_result (attachment_target d uid receipt ms)"
  have opened: "a = d" if "open_receipt_directory repo uid w = (Ok a, w1)" for a w1
    using that by (auto simp: open_receipt_directory_def Let_def and_then_Ok_iff d_def)
  from assms(1) obtain w1 where r1: "and_then (map_err (\<lambda>_. DirectoryUnavailable) (read_dir d))
      (\<lambda>names. and_then (?scan names) ?last) w1 = (Ok t, w')" and s1: "node_at w1 = node_at w"
    unfolding locate_archive_at_def by (rule look_then) (use opened in \<open>auto intro: touches_intros\<close>)
  from r1 obtain names w2 where n: "map_err (\<lambda>_. DirectoryUnavailable) (read_dir d) w1 = (Ok names, w2)"
    and r2: "and_then (?scan names) ?last w2 = (Ok t, w')" and s2: "node_at w2 = node_at w1"
    by (rule look_then) (auto intro: touches_intros)
  from r2 obtain ms w3 where scan: "?scan names w2 = (Ok ms, w3)" and l: "attachment_target d uid receipt ms = Inr t"
    by (auto simp: and_then_Ok_iff lift_result_Ok_iff)
  from l obtain name archive snapshot base where ms: "ms = [(name, archive, snapshot)]"
    and base: "strip_suffix ''.json'' name = Some base"
    and t: "t = \<lparr>at_directory = d, at_archive_name = name, at_sidecar_name = base @ ''.launcher-finalization'',
       at_sidecar_file_name = base @ ''.launcher-finalization'', at_receipt_archive_identity = receipt,
       at_expected_owner_uid = uid, at_archive = archive, at_contract_snapshot = snapshot\<rparr>"
    by (auto simp: attachment_target_def c_string_def split: list.splits prod.splits if_splits option.splits)
  have name: "name = base @ ''.json''" using base by (simp add: strip_suffix_Some)
  have dn: "set names = set (dir_names w d)" using look_Ok(5) [OF n [unfolded map_err_Ok_iff]] s1 by (simp add: dir_names_set)
  note found = examine_archives_Ok [OF scan]
  show "at_directory t = d" "at_receipt_archive_identity t = receipt" "at_expected_owner_uid t = uid"
    "at_sidecar_name t = at_sidecar_file_name t" "\<exists>base. at_archive_name t = base @ ''.json''"
    using t name by simp_all
  show "at_sidecar_file_name t = base @ ''.launcher-finalization''" if "at_archive_name t = base @ ''.json''" for base
    using that t name by simp
  show "archive_in E repo d uid receipt crossing (at_archive_name t, at_archive t, at_contract_snapshot t) (node_at w)"
    using found ms t s1 s2 by simp
  show "name' = at_archive_name t \<or> not_archive E d receipt name' (node_at w)" if "name' \<in> set (dir_names w d)" for name'
    using found ms t s1 s2 that dn by auto
qed

section \<open>The sidecar is published write-once\<close>

lemma existing_file_matches_Ok:
  assumes "existing_file_matches E d name bs w = (Ok True, w')"
  shows "holds (path_join d name) bs w"
proof -
  obtain r w1 where o: "open_nofollow (path_join d name) w = (r, w1)" by fastforce
  with assms obtain n where r: "r = Ok n"
    by (cases r) (auto simp: existing_file_matches_def match_result_def split: if_splits)
  with assms o have "bs = n_bytes n"
    by (auto simp: existing_file_matches_def match_result_def and_then_Ok_iff map_err_Ok_iff
        dest: look_Ok(2) split: if_splits)
  with look_Ok(1) o r show ?thesis by blast
qed

lemma stage_sidecar_puts:
  assumes "temporary \<noteq> at_sidecar_name t"
  shows "ensures (stage_sidecar E t bs temporary) w (\<lambda>r.
    put_at (path_join (at_directory t) temporary) (path_join (at_directory t) (at_sidecar_name t)) 384 bs w (is_Ok r))"
proof -
  let ?tmp = "path_join (at_directory t) temporary" and ?dst = "path_join (at_directory t) (at_sidecar_name t)"
  let ?check = "and_then (existing_file_matches E (at_directory t) (at_sidecar_name t) bs) (\<lambda>same.
     if same then ret () else throw SidecarNotPublished)"
  have ne: "?tmp \<noteq> ?dst" using assms by simp
  have "holds ?dst bs v" if run: "?check v = (Ok a, v')" for v a v'
    using run existing_file_matches_Ok by (fastforce simp: and_then_Ok_iff split: if_splits)
  then have check: "confirms ?dst bs ?check" by (auto simp: confirms_def intro!: touches_intros)
  have refuse: "confirms ?dst bs (throw SidecarNotPublished)" by (auto simp: confirms_def intro!: touches_intros)
  show ?thesis
    unfolding stage_sidecar_def Let_def
  proof (rule put_at_create)
    fix w1 assume new: "created ?tmp 384 [] w True w1"
    show "ensures (and_then (on_error (map_err (\<lambda>_. SidecarNotPersisted) (write_chunks ?tmp [bs])) (remove_file ?tmp)) (\<lambda>_.
        move_or ?tmp ?dst (afterwards ?check (remove_file ?tmp)) (afterwards (throw SidecarNotPublished) (remove_file ?tmp))
          (map_err (\<lambda>_. SidecarNotPersisted) sync_all))) w1 (\<lambda>r. staged ?tmp ?dst 384 bs w (is_Ok r))"
      by (rule ensures_and_thenI [OF on_error_staged [OF write_staged_plain [OF new] ne]])
         (use ne in \<open>auto intro!: move_or_staged staged_afterwards confirms_staged [OF check]
            confirms_staged [OF refuse] touches_intros\<close>)
  qed
qed

abbreviation sidecar_file :: "archive_target \<Rightarrow> path" where
  "sidecar_file t \<equiv> path_join (at_directory t) (at_sidecar_name t)"

definition named_as_sidecar :: "archive_target \<Rightarrow> bool" where
  "named_as_sidecar t \<longleftrightarrow> (\<exists>base. at_sidecar_name t = base @ ''.launcher-finalization'')"

lemma sidecar_names: "named_as_sidecar t \<Longrightarrow> sidecar_temporary_name t' r \<noteq> at_sidecar_name t"
proof
  assume "named_as_sidecar t" and eq: "sidecar_temporary_name t' r = at_sidecar_name t"
  then have "last (at_sidecar_name t) = CHR ''n''" by (auto simp: named_as_sidecar_def)
  moreover have "last (sidecar_temporary_name t' r) = CHR ''p''" by (simp add: sidecar_temporary_name_def)
  ultimately show False using eq by simp
qed

lemma persist_sidecar_puts:
  assumes "named_as_sidecar t"
  shows "ensures (persist_sidecar_at E t sc rnd) w (\<lambda>r.
    put_at (path_join (at_directory t) (sidecar_temporary_name t (case rnd of Some r \<Rightarrow> r | None \<Rightarrow> 0))) (sidecar_file t) 384
      (case sidecar_to_vec E sc of Some bs \<Rightarrow> bs | None \<Rightarrow> []) w (is_Ok r))"
  unfolding persist_sidecar_at_def
proof (rule put_at_after_look, goal_cases)
  case (2 archive w1)
  show ?case
  proof (cases "fz_content_identity archive \<noteq> at_receipt_archive_identity t \<or> archive \<noteq> at_archive t")
    case False
    show ?thesis
    proof (cases "sidecar_to_vec E sc")
      case (Some bs)
      have "ensures (and_then (existing_file_matches E (at_directory t) (at_sidecar_name t) bs) (\<lambda>same.
           if same then ret () else (case rnd of None \<Rightarrow> throw TemporaryNameUnavailable
             | Some r \<Rightarrow> and_then (lift_result (c_string TemporaryNameInvalid (sidecar_temporary_name t r)))
                   (stage_sidecar E t bs)))) w1 (\<lambda>r.
         put_at (path_join (at_directory t) (sidecar_temporary_name t (case rnd of Some r \<Rightarrow> r | None \<Rightarrow> 0))) (sidecar_file t) 384 bs w1 (is_Ok r))"
      proof (rule put_at_after_look, goal_cases)
        case (2 same w2)
        then have "same \<Longrightarrow> holds (sidecar_file t) bs w2"
          using existing_file_matches_Ok by (fastforce simp: same_except_def)
        then show ?case
          by (auto simp: c_string_def and_then_def ensures_def put_at_def split: option.splits
              intro!: stage_sidecar_puts [unfolded ensures_def put_at_def, THEN conjunct1]
                stage_sidecar_puts [unfolded ensures_def put_at_def, THEN conjunct2, rule_format]
                sidecar_names [OF assms])
      qed (intro touches_intros)
      with False Some show ?thesis by auto
    qed (use False in \<open>simp add: put_at_def\<close>)
  qed (auto simp: put_at_def)
qed (intro touches_intros)

interpretation sidecar_publication: publication
  "\<lambda>(t, sc, rnd). persist_sidecar_at E t sc rnd"
  "\<lambda>(t, sc, rnd). path_join (at_directory t) (sidecar_temporary_name t (case rnd of Some r \<Rightarrow> r | None \<Rightarrow> 0))"
  "\<lambda>(t, sc, rnd). sidecar_file t"
  "\<lambda>(t, sc, rnd). case sidecar_to_vec E sc of Some bs \<Rightarrow> bs | None \<Rightarrow> []"
  384 "\<lambda>(t, sc, rnd). named_as_sidecar t" for E :: "'x archive_env_scheme"
proof
  show "ensures (case a of (t, sc, rnd) \<Rightarrow> persist_sidecar_at E t sc rnd) w (\<lambda>r. put_at
      (case a of (t, sc, rnd) \<Rightarrow> path_join (at_directory t) (sidecar_temporary_name t (case rnd of Some r \<Rightarrow> r | None \<Rightarrow> 0)))
      (case a of (t, sc, rnd) \<Rightarrow> sidecar_file t) 384
      (case a of (t, sc, rnd) \<Rightarrow> case sidecar_to_vec E sc of Some bs \<Rightarrow> bs | None \<Rightarrow> []) w (is_Ok r))"
    if "case a of (t, sc, rnd) \<Rightarrow> named_as_sidecar t" for a w
    using that persist_sidecar_puts by (cases a) simp
  show "(case a of (t, sc, rnd) \<Rightarrow> path_join (at_directory t) (sidecar_temporary_name t (case rnd of Some r \<Rightarrow> r | None \<Rightarrow> 0)))
      \<noteq> (case b of (t, sc, rnd) \<Rightarrow> sidecar_file t)"
    if "case a of (t, sc, rnd) \<Rightarrow> named_as_sidecar t" "case b of (t, sc, rnd) \<Rightarrow> named_as_sidecar t" for a b
    using that sidecar_names by (cases a, cases b) (auto simp: path_join_def)
qed

text \<open>A sidecar is written only beside the archive that was located.\<close>

lemma persist_sidecar_Ok:
  assumes "persist_sidecar_at E t sc rnd w = (Ok (), w')"
  shows "(\<exists>n. node_at w (path_join (at_directory t) (at_archive_name t)) = Some n \<and> at_archive t = freeze E n (n_bytes n)) \<and>
    sidecar_to_vec E sc \<noteq> None"
proof -
  from assms obtain a w1 where a: "read_regular_file E (at_directory t) (at_archive_name t) (at_expected_owner_uid t) w = (Ok a, w1)"
    and "a = at_archive t" "sidecar_to_vec E sc \<noteq> None"
    unfolding persist_sidecar_at_def
    by (auto simp: and_then_Ok_iff [where m = "read_regular_file _ _ _ _"] split: if_splits option.splits)
  with read_regular_file_Ok [OF a] show ?thesis by metis
qed

text \<open>
  C40. The archive of an execution is found exactly, and its sidecar is published write-once beside it. A
  search that succeeds has changed nothing; the archive it returns is a protected file with the
  identity asked for, holds the transaction asked for, comes with the contract snapshot it names,
  and is the only archive of that identity. Whatever faults the publication meets, every file that
  was there is still there unchanged, and the sidecar's name is as before or holds the complete
  canonical bytes. When it succeeds it holds them, and the archive is still the one located.
\<close>

theorem sidecar_beside_exact_archive:
  assumes "locate_archive_at E repo uid receipt crossing w0 = (Ok t, w1)"
    and "persist_sidecar_at E t sc rnd w2 = (r, w3)"
  shows "node_at w1 = node_at w0 \<and>
    archive_in E repo (at_directory t) uid receipt crossing (at_archive_name t, at_archive t, at_contract_snapshot t) (node_at w0) \<and>
    (\<forall>name n. node_at w0 (path_join (at_directory t) name) = Some n \<and> path_extension name = Some ''json'' \<and>
       content_identity_of E (n_bytes n) = receipt \<longrightarrow> name = at_archive_name t) \<and>
    (\<forall>q n. node_at w2 q = Some n \<longrightarrow> node_at w3 q = Some n) \<and>
    (node_at w3 (sidecar_file t) = node_at w2 (sidecar_file t) \<or>
      (\<exists>bs. sidecar_to_vec E sc = Some bs \<and> holds (sidecar_file t) bs w3)) \<and>
    (r = Ok () \<longrightarrow> (\<exists>bs. sidecar_to_vec E sc = Some bs \<and> holds (sidecar_file t) bs w3) \<and>
      holds (path_join (at_directory t) (at_archive_name t)) (fz_bytes (at_archive t)) w3)"
proof -
  note found = locate_archive_Ok [OF assms(1)]
  have looked: "node_at w1 = node_at w0"
  proof -
    have "touches {} (locate_archive_at E repo uid receipt crossing)"
      unfolding locate_archive_at_def by (intro touches_intros touches_examine_archives)
    from same_nodes [OF this assms(1)] show ?thesis by simp
  qed
  have valid: "named_as_sidecar t" using found(4-6) by (auto simp: named_as_sidecar_def)
  note put = sidecar_publication.never_torn [of "(t, sc, rnd)" "(t, sc, rnd)", simplified, OF valid assms(2)]
  note kept = sidecar_publication.write_once [of "(t, sc, rnd)", simplified, OF valid assms(2)]
  have only: "name = at_archive_name t" if "node_at w0 (path_join (at_directory t) name) = Some n"
    "path_extension name = Some ''json''" "content_identity_of E (n_bytes n) = receipt" for name n
    using found(8) [of name] found(1) that by (auto simp: dir_names_set not_archive_def)
  have complete: "\<exists>bs. sidecar_to_vec E sc = Some bs \<and> holds (sidecar_file t) bs w3"
    if "node_at w3 (sidecar_file t) \<noteq> node_at w2 (sidecar_file t)"
  proof (cases "sidecar_to_vec E sc")
    case None
    have "touches {} (persist_sidecar_at E t sc rnd)"
      unfolding persist_sidecar_at_def None option.case by (intro touches_intros)
    with assms(2) that show ?thesis by (auto dest: same_nodes)
  qed (use put that in auto)
  have "(\<exists>bs. sidecar_to_vec E sc = Some bs \<and> holds (sidecar_file t) bs w3) \<and>
      holds (path_join (at_directory t) (at_archive_name t)) (fz_bytes (at_archive t)) w3" if "r = Ok ()"
  proof -
    note ok = assms(2) [unfolded that]
    from persist_sidecar_Ok [OF ok] obtain n bs where "node_at w2 (path_join (at_directory t) (at_archive_name t)) = Some n"
      "at_archive t = freeze E n (n_bytes n)" "sidecar_to_vec E sc = Some bs" by blast
    moreover have "holds (sidecar_file t) (case sidecar_to_vec E sc of Some bs \<Rightarrow> bs | None \<Rightarrow> []) w3"
      using sidecar_publication.exact [of "(t, sc, rnd)" E w2 w3] valid ok by simp
    ultimately show ?thesis using kept by auto
  qed
  with looked found(1,7) only kept complete show ?thesis by auto
qed

end
