(* ===== verification/Protected_History.thy ===== *)
theory Protected_History
  imports Archive_Attachment Finalization_Journal
begin

text \<open>
  The launcher's protected history (\<open>src/protected_history.rs\<close>): blobs named by the hash of their
  content, and in a directory for each repository mapping the entries of a catalog, each naming its
  three blobs. Files are published write-once (\<open>Publication\<close>); a catalog is read as a whole, and one
  file in it that is not as expected makes the reading fail. The identities, codecs and limits of
  the crates are fields of \<open>history_env\<close>; the random bytes of each publication are an argument.
  A file is opened by \<open>openat2\<close> with \<open>openat\<close> as a fallback for kernels without it; on a single
  name in an open directory both do what \<open>open_nofollow\<close> does.
\<close>


section \<open>Data\<close>

record repository_mapping =
  rm_schema_version :: nat
  rm_identity :: string
  rm_repository_binding_identity :: string
  rm_catalog_namespace_identity :: string
  rm_authority_id :: string
  rm_working_directory :: working_directory

record history_binding =
  hb_schema_version :: nat
  hb_identity :: string
  hb_protocol_profile :: string
  hb_socket_path :: path
  hb_socket_group_gid :: nat
  hb_installation_manifest_identity :: string
  hb_installed_client_path :: path
  hb_installed_client_identity :: string
  hb_operator_uid :: nat
  hb_operator_gid :: nat
  hb_operator_profile_identity :: string
  hb_service_unit_identity :: string
  hb_socket_unit_identity :: string
  hb_blob_root :: path
  hb_catalog_root :: path
  hb_maximum_response_bytes :: nat
  hb_maximum_entry_count :: nat
  hb_mappings :: "repository_mapping list"

record history_file_metadata =
  hm_owner_uid :: nat
  hm_mode :: mode
  hm_device :: nat
  hm_inode :: nat
  hm_link_count :: nat
  hm_size :: nat
  hm_content_identity :: string

record history_blob =
  bl_schema_version :: nat
  bl_identity :: string
  bl_content_identity :: string
  bl_size :: nat
  bl_metadata :: history_file_metadata

record catalog_entry =
  ce_schema_version :: nat
  ce_identity :: string
  ce_authority_id :: string
  ce_repository_binding_identity :: string
  ce_catalog_namespace_identity :: string
  ce_repository_mapping_identity :: string
  ce_operator_profile_identity :: string
  ce_working_directory :: working_directory
  ce_launcher_request_identity :: string
  ce_work_unit_identity :: string
  ce_crossing_transaction_identity :: string
  ce_receipt_archive_identity :: string
  ce_contract_snapshot_identity :: string
  ce_sidecar_identity :: string
  ce_signed_finalization_identity :: string
  ce_signed_archive_identity :: string
  ce_finalization_journal_identity :: string
  ce_archive_source :: history_file_metadata
  ce_contract_snapshot_source :: history_file_metadata
  ce_archive_blob :: history_blob
  ce_contract_snapshot_blob :: history_blob
  ce_sidecar_blob :: history_blob
  ce_creation_posture :: string

datatype history_error =
  BindingUnavailable | BindingInvalid | MappingUnavailable | StoreUnavailable | ObjectInvalid | PersistenceFailed

record history_env = archive_env +
  blob_message_identity :: "string \<Rightarrow> history_blob \<Rightarrow> string option"
  entry_message_identity :: "string \<Rightarrow> catalog_entry \<Rightarrow> string option"
  entry_to_vec :: "catalog_entry \<Rightarrow> string option"
  entry_from_slice :: "string \<Rightarrow> catalog_entry option"
  max_history_response_bytes :: nat

type_synonym 'a history_io = "(world, history_error, 'a) proc"

definition HISTORY_BLOB_IDENTITY_DOMAIN_V1 :: string where
  "HISTORY_BLOB_IDENTITY_DOMAIN_V1 = ''ota.authority-launcher.history-blob.v1'' @ [CHR 0x00]"

definition HISTORY_CATALOG_ENTRY_IDENTITY_DOMAIN_V1 :: string where
  "HISTORY_CATALOG_ENTRY_IDENTITY_DOMAIN_V1 = ''ota.authority-launcher.history-catalog-entry.v1'' @ [CHR 0x00]"


section \<open>Names\<close>

definition canonical_hex :: "char \<Rightarrow> bool" where
  "canonical_hex b \<longleftrightarrow> is_ascii_hexdigit b \<and> \<not> is_ascii_uppercase b"

definition identity_file_name :: "string \<Rightarrow> history_error + string" where
  "identity_file_name identity =
     (case strip_prefix ''sha256:'' identity of
        Some v \<Rightarrow> if length v = 64 \<and> list_all canonical_hex v then Inr v else Inl ObjectInvalid
      | None \<Rightarrow> Inl ObjectInvalid)"

definition is_internal_temporary_name :: "string \<Rightarrow> bool" where
  "is_internal_temporary_name name =
     is_some_and (\<lambda>v. length v = 32 \<and> list_all canonical_hex v)
       (Option.bind (strip_prefix ''.history-'' name) (strip_suffix ''.tmp''))"

definition is_sha256 :: "string \<Rightarrow> bool" where
  "is_sha256 s \<longleftrightarrow> (case identity_file_name s of Inr _ \<Rightarrow> True | Inl _ \<Rightarrow> False)"

definition namespace_path :: "path \<Rightarrow> string \<Rightarrow> history_error + path" where
  "namespace_path root identity =
     (case identity_file_name identity of Inl e \<Rightarrow> Inl e | Inr name \<Rightarrow> Inr (path_join root name))"

definition staging_name :: "random_bytes \<Rightarrow> string" where
  "staging_name r = ''.history-'' @ hex_suffix r @ ''.tmp''"


section \<open>Files\<close>

definition open_protected_directory :: "path \<Rightarrow> nat \<Rightarrow> path history_io" where
  "open_protected_directory p uid =
     and_then (map_err (\<lambda>_. StoreUnavailable) (verify_protected_directory p uid [RootDir])) (\<lambda>_.
     and_then (map_err (\<lambda>_. StoreUnavailable) (open_directory p)) (\<lambda>d.
     and_then (map_err (\<lambda>_. StoreUnavailable) (fstat d)) (\<lambda>m.
       if n_kind m \<noteq> Directory \<or> n_uid m \<noteq> uid \<or> n_mode m AND 18 \<noteq> 0 then throw StoreUnavailable else ret p)))"

definition list_directory_names :: "path \<Rightarrow> nat \<Rightarrow> string list history_io" where
  "list_directory_names p uid =
     and_then (open_protected_directory p uid) (\<lambda>d.
     and_then (map_err (\<lambda>_. StoreUnavailable) (read_dir d)) (\<lambda>names.
       if list_all utf8_valid names then ret names else throw ObjectInvalid))"

definition try_read_exact_file_at ::
  "'x history_env_scheme \<Rightarrow> path \<Rightarrow> string \<Rightarrow> nat \<Rightarrow> string option \<Rightarrow> (string \<times> fnode) option history_io" where
  "try_read_exact_file_at E d name uid identity =
     and_then (lift_result (c_string ObjectInvalid name)) (\<lambda>name.
     match_result (open_nofollow (path_join d name))
       (\<lambda>file. and_then (map_err (\<lambda>_. StoreUnavailable) (fstat file)) (\<lambda>m.
          if n_kind m \<noteq> RegularFile \<or> n_uid m \<noteq> uid \<or> n_mode m AND 4095 \<noteq> 384 \<or> nlink E (n_ino m) \<noteq> 1
             \<or> max_history_response_bytes E < length (n_bytes m)
          then throw ObjectInvalid
          else and_then (map_err (\<lambda>_. StoreUnavailable) (read_to_end file)) (\<lambda>bytes.
            if is_some_and (\<lambda>i. content_identity_of E bytes \<noteq> i) identity then throw ObjectInvalid
            else ret (Some (bytes, m)))))
       (\<lambda>e. if e = NotFound then ret None else throw StoreUnavailable))"

definition read_exact_file ::
  "'x history_env_scheme \<Rightarrow> path \<Rightarrow> string \<Rightarrow> nat \<Rightarrow> string option \<Rightarrow> (string \<times> fnode) history_io" where
  "read_exact_file E dir name uid identity =
     and_then (open_protected_directory dir uid) (\<lambda>d.
     and_then (try_read_exact_file_at E d name uid identity) (\<lambda>found.
       case found of Some x \<Rightarrow> ret x | None \<Rightarrow> throw StoreUnavailable))"

definition metadata_of :: "'x history_env_scheme \<Rightarrow> string \<Rightarrow> fnode \<Rightarrow> history_file_metadata" where
  "metadata_of E bytes m = \<lparr>hm_owner_uid = n_uid m, hm_mode = n_mode m AND 4095, hm_device = fst (n_ino m),
     hm_inode = snd (n_ino m), hm_link_count = nlink E (n_ino m), hm_size = length (n_bytes m),
     hm_content_identity = content_identity_of E bytes\<rparr>"

definition verified_file_metadata ::
  "'x history_env_scheme \<Rightarrow> path \<Rightarrow> string \<Rightarrow> nat \<Rightarrow> string option \<Rightarrow> history_file_metadata history_io" where
  "verified_file_metadata E dir name uid identity =
     and_then (read_exact_file E dir name uid identity) (\<lambda>(bytes, m). ret (metadata_of E bytes m))"

definition sync_existing_file_at :: "path \<Rightarrow> string \<Rightarrow> unit history_io" where
  "sync_existing_file_at d name =
     and_then (lift_result (c_string ObjectInvalid name)) (\<lambda>name.
     and_then (map_err (\<lambda>_. PersistenceFailed) (open_nofollow (path_join d name))) (\<lambda>_.
     and_then (map_err (\<lambda>_. PersistenceFailed) sync_all) (\<lambda>_. map_err (\<lambda>_. PersistenceFailed) sync_all)))"

definition persist_exact_file ::
  "'x history_env_scheme \<Rightarrow> path \<Rightarrow> string \<Rightarrow> string \<Rightarrow> nat \<Rightarrow> random_bytes option \<Rightarrow> unit history_io" where
  "persist_exact_file E dir name bytes uid rnd =
     and_then (open_protected_directory dir uid) (\<lambda>d.
     and_then (try_read_exact_file_at E d name uid None) (\<lambda>found.
       case found of
         Some (existing, _) \<Rightarrow> if existing = bytes then sync_existing_file_at d name else throw ObjectInvalid
       | None \<Rightarrow>
          (case rnd of
             None \<Rightarrow> throw PersistenceFailed
           | Some r \<Rightarrow>
              (let tmp = path_join d (staging_name r); dst = path_join d name in
               and_then (map_err (\<lambda>_. PersistenceFailed) (create_new tmp 384)) (\<lambda>_.
                 afterwards
                   (and_then (map_err (\<lambda>_. PersistenceFailed) (write_chunks tmp [bytes])) (\<lambda>_.
                      move_or tmp dst
                        (and_then (try_read_exact_file_at E d name uid None) (\<lambda>found.
                           if is_some_and (\<lambda>(existing, _). existing = bytes) found then sync_existing_file_at d name
                           else throw PersistenceFailed))
                        (throw PersistenceFailed)
                        (map_err (\<lambda>_. PersistenceFailed) sync_all)))
                   (remove_file tmp))))))"


section \<open>Blobs and entries\<close>

definition blob_identity :: "'x history_env_scheme \<Rightarrow> history_blob \<Rightarrow> history_error + string" where
  "blob_identity E b =
     (case blob_message_identity E HISTORY_BLOB_IDENTITY_DOMAIN_V1 (b\<lparr>bl_identity := []\<rparr>) of
        Some i \<Rightarrow> Inr i | None \<Rightarrow> Inl ObjectInvalid)"

definition catalog_entry_identity :: "'x history_env_scheme \<Rightarrow> catalog_entry \<Rightarrow> history_error + string" where
  "catalog_entry_identity E e =
     (case entry_message_identity E HISTORY_CATALOG_ENTRY_IDENTITY_DOMAIN_V1 (e\<lparr>ce_identity := []\<rparr>) of
        Some i \<Rightarrow> Inr i | None \<Rightarrow> Inl ObjectInvalid)"

definition persist_blob ::
  "'x history_env_scheme \<Rightarrow> path \<Rightarrow> string \<Rightarrow> nat \<Rightarrow> random_bytes option \<Rightarrow> history_blob history_io" where
  "persist_blob E root bytes uid rnd =
     (let identity = content_identity_of E bytes in
      and_then (lift_result (identity_file_name identity)) (\<lambda>name.
      and_then (persist_exact_file E root name bytes uid rnd) (\<lambda>_.
      and_then (verified_file_metadata E root name uid (Some identity)) (\<lambda>m.
        let blob = \<lparr>bl_schema_version = 1, bl_identity = [], bl_content_identity = identity,
          bl_size = length bytes, bl_metadata = m\<rparr> in
        and_then (lift_result (blob_identity E blob)) (\<lambda>i. ret (blob\<lparr>bl_identity := i\<rparr>))))))"

definition persist_catalog_entry ::
  "'x history_env_scheme \<Rightarrow> history_binding \<Rightarrow> repository_mapping \<Rightarrow> catalog_entry \<Rightarrow> nat \<Rightarrow> random_bytes option \<Rightarrow> unit history_io"
where
  "persist_catalog_entry E B M e uid rnd =
     and_then (lift_result (namespace_path (hb_catalog_root B) (rm_catalog_namespace_identity M))) (\<lambda>dir.
     and_then (lift_result (identity_file_name (ce_identity e))) (\<lambda>name.
       case entry_to_vec E e of
         None \<Rightarrow> throw ObjectInvalid
       | Some bytes \<Rightarrow> persist_exact_file E dir (name @ ''.json'') bytes uid rnd))"

definition history_select_mapping ::
  "history_binding \<Rightarrow> string \<Rightarrow> working_directory \<Rightarrow> history_error + repository_mapping" where
  "history_select_mapping B authority wd =
     (case filter (\<lambda>m. rm_authority_id m = authority \<and> rm_working_directory m = wd) (hb_mappings B) of
        [m] \<Rightarrow> Inr m | _ \<Rightarrow> Inl MappingUnavailable)"

definition source_metadata :: "frozen_object \<Rightarrow> history_file_metadata" where
  "source_metadata s = \<lparr>hm_owner_uid = fz_owner_uid s, hm_mode = fz_mode s, hm_device = fz_device s,
     hm_inode = fz_inode s, hm_link_count = fz_link_count s, hm_size = length (fz_bytes s),
     hm_content_identity = fz_content_identity s\<rparr>"

definition creation_posture_v1 :: string where
  "creation_posture_v1 = ''frozen_before_terminal_acknowledgement''"

text \<open>The entry \<open>attach_protected_history\<close> writes, its identity still empty.\<close>

definition entry_for ::
  "history_binding \<Rightarrow> repository_mapping \<Rightarrow> archive_target \<Rightarrow> sidecar \<Rightarrow> finalization_journal \<Rightarrow>
   history_blob \<Rightarrow> history_blob \<Rightarrow> history_blob \<Rightarrow> catalog_entry" where
  "entry_for B M t sc j archive snapshot side =
     \<lparr>ce_schema_version = 1, ce_identity = [], ce_authority_id = rm_authority_id M,
      ce_repository_binding_identity = rm_repository_binding_identity M,
      ce_catalog_namespace_identity = rm_catalog_namespace_identity M,
      ce_repository_mapping_identity = rm_identity M,
      ce_operator_profile_identity = hb_operator_profile_identity B,
      ce_working_directory = rm_working_directory M,
      ce_launcher_request_identity = fj_launcher_request_identity j,
      ce_work_unit_identity = ec_work_unit_identity (ef_completion (fj_finalization j)),
      ce_crossing_transaction_identity = ec_crossing_transaction_identity (ef_completion (fj_finalization j)),
      ce_receipt_archive_identity = fz_content_identity (at_archive t),
      ce_contract_snapshot_identity = fz_content_identity (at_contract_snapshot t),
      ce_sidecar_identity = sd_identity sc,
      ce_signed_finalization_identity = sf_identity (sd_signed_finalization sc),
      ce_signed_archive_identity = sa_identity (sd_signed_archive sc),
      ce_finalization_journal_identity =
        (case fj_protected_history_attachment j of None \<Rightarrow> fj_identity j | Some a \<Rightarrow> pa_finalization_journal_identity a),
      ce_archive_source = source_metadata (at_archive t),
      ce_contract_snapshot_source = source_metadata (at_contract_snapshot t),
      ce_archive_blob = archive, ce_contract_snapshot_blob = snapshot, ce_sidecar_blob = side,
      ce_creation_posture = creation_posture_v1\<rparr>"

definition attachment_of :: "catalog_entry \<Rightarrow> protected_history_attachment" where
  "attachment_of e = \<lparr>pa_schema_version = 1, pa_catalog_identity = ce_identity e,
     pa_repository_binding_identity = ce_repository_binding_identity e,
     pa_catalog_namespace_identity = ce_catalog_namespace_identity e,
     pa_archive_blob_identity = bl_identity (ce_archive_blob e),
     pa_contract_snapshot_blob_identity = bl_identity (ce_contract_snapshot_blob e),
     pa_sidecar_blob_identity = bl_identity (ce_sidecar_blob e),
     pa_finalization_journal_identity = ce_finalization_journal_identity e\<rparr>"

text \<open>The random bytes of the four publications.\<close>

record attach_random =
  rnd_archive :: "random_bytes option"
  rnd_snapshot :: "random_bytes option"
  rnd_sidecar :: "random_bytes option"
  rnd_entry :: "random_bytes option"

definition attach_protected_history_at ::
  "'p protocol_scheme \<Rightarrow> 'x history_env_scheme \<Rightarrow> history_binding \<Rightarrow> archive_target \<Rightarrow> sidecar \<Rightarrow> finalization_journal \<Rightarrow>
   attach_random \<Rightarrow> protected_history_attachment history_io" where
  "attach_protected_history_at P E B t sc j rnd =
     (case fj_archive_request j of
        None \<Rightarrow> throw ObjectInvalid
      | Some request \<Rightarrow>
         and_then (lift_result (history_select_mapping B (ar_authority_id request) (fj_working_directory j))) (\<lambda>M.
           if launcher_finalization_archive_sidecar_v1_identity P sc \<noteq> Some (sd_identity sc)
              \<or> sa_receipt_archive_identity (sd_signed_archive sc) \<noteq> fz_content_identity (at_archive t)
           then throw ObjectInvalid
           else (case sidecar_to_vec E sc of
             None \<Rightarrow> throw ObjectInvalid
           | Some sidecar_bytes \<Rightarrow>
              and_then (persist_blob E (hb_blob_root B) (fz_bytes (at_archive t)) 0 (rnd_archive rnd)) (\<lambda>archive.
              and_then (persist_blob E (hb_blob_root B) (fz_bytes (at_contract_snapshot t)) 0 (rnd_snapshot rnd)) (\<lambda>snapshot.
              and_then (persist_blob E (hb_blob_root B) sidecar_bytes 0 (rnd_sidecar rnd)) (\<lambda>side.
              let e = entry_for B M t sc j archive snapshot side in
              and_then (lift_result (catalog_entry_identity E e)) (\<lambda>i.
              and_then (persist_catalog_entry E B M (e\<lparr>ce_identity := i\<rparr>) 0 (rnd_entry rnd)) (\<lambda>_.
                ret (attachment_of (e\<lparr>ce_identity := i\<rparr>))))))))))"


section \<open>Reading\<close>

definition entry_fits :: "history_binding \<Rightarrow> repository_mapping \<Rightarrow> catalog_entry \<Rightarrow> bool" where
  "entry_fits B M e \<longleftrightarrow>
     ce_repository_mapping_identity e = rm_identity M \<and>
     ce_repository_binding_identity e = rm_repository_binding_identity M \<and>
     ce_catalog_namespace_identity e = rm_catalog_namespace_identity M \<and>
     ce_operator_profile_identity e = hb_operator_profile_identity B \<and>
     ce_authority_id e = rm_authority_id M \<and> ce_working_directory e = rm_working_directory M"

definition entry_objects_agree :: "catalog_entry \<Rightarrow> bool" where
  "entry_objects_agree e \<longleftrightarrow>
     ce_receipt_archive_identity e = bl_content_identity (ce_archive_blob e) \<and>
     ce_receipt_archive_identity e = hm_content_identity (ce_archive_source e) \<and>
     ce_contract_snapshot_identity e = bl_content_identity (ce_contract_snapshot_blob e) \<and>
     ce_contract_snapshot_identity e = hm_content_identity (ce_contract_snapshot_source e)"

definition entry_identities_canonical :: "catalog_entry \<Rightarrow> bool" where
  "entry_identities_canonical e \<longleftrightarrow>
     is_sha256 (ce_launcher_request_identity e) \<and> is_sha256 (ce_work_unit_identity e) \<and>
     is_sha256 (ce_crossing_transaction_identity e) \<and> is_sha256 (ce_sidecar_identity e) \<and>
     is_sha256 (ce_signed_finalization_identity e) \<and> is_sha256 (ce_signed_archive_identity e) \<and>
     is_sha256 (ce_finalization_journal_identity e)"

text \<open>One round of the loop of \<open>load_catalog_entries\<close>; \<open>None\<close> for a staging file.\<close>

definition load_catalog_file ::
  "'x history_env_scheme \<Rightarrow> history_binding \<Rightarrow> repository_mapping \<Rightarrow> path \<Rightarrow> string \<Rightarrow> catalog_entry option history_io" where
  "load_catalog_file E B M dir name =
     (if is_internal_temporary_name name
      then and_then (read_exact_file E dir name 0 None) (\<lambda>_. ret None)
      else (case strip_suffix ''.json'' name of
        None \<Rightarrow> throw ObjectInvalid
      | Some identity_name \<Rightarrow>
         and_then (lift_result (identity_file_name (''sha256:'' @ identity_name))) (\<lambda>_.
         and_then (read_exact_file E dir name 0 None) (\<lambda>(bytes, _).
           case entry_from_slice E bytes of
             None \<Rightarrow> throw ObjectInvalid
           | Some e \<Rightarrow>
              and_then (lift_result (catalog_entry_identity E e)) (\<lambda>i.
                if i \<noteq> ce_identity e \<or> \<not> entry_fits B M e \<or> \<not> entry_objects_agree e
                   \<or> \<not> entry_identities_canonical e \<or> ce_creation_posture e \<noteq> creation_posture_v1
                then throw ObjectInvalid else ret (Some e))))))"

fun load_catalog_files ::
  "(string \<Rightarrow> catalog_entry option history_io) \<Rightarrow> string list \<Rightarrow> catalog_entry list history_io" where
  "load_catalog_files f [] = ret []"
| "load_catalog_files f (name # names) =
     and_then (f name) (\<lambda>x.
     and_then (load_catalog_files f names) (\<lambda>es. ret (case x of None \<Rightarrow> es | Some e \<Rightarrow> e # es)))"

definition load_catalog_entries ::
  "'x history_env_scheme \<Rightarrow> history_binding \<Rightarrow> repository_mapping \<Rightarrow> catalog_entry list history_io" where
  "load_catalog_entries E B M =
     and_then (lift_result (namespace_path (hb_catalog_root B) (rm_catalog_namespace_identity M))) (\<lambda>dir.
     and_then (list_directory_names dir 0) (\<lambda>names.
     and_then (load_catalog_files (load_catalog_file E B M dir) names) (\<lambda>es. ret (sort_key ce_identity es))))"

definition read_blob :: "'x history_env_scheme \<Rightarrow> history_binding \<Rightarrow> history_blob \<Rightarrow> string history_io" where
  "read_blob E B b =
     and_then (lift_result (blob_identity E b)) (\<lambda>i.
       if i \<noteq> bl_identity b \<or> bl_size b \<noteq> hm_size (bl_metadata b)
          \<or> bl_content_identity b \<noteq> hm_content_identity (bl_metadata b)
       then throw ObjectInvalid
       else and_then (lift_result (identity_file_name (bl_content_identity b))) (\<lambda>name.
         and_then (read_exact_file E (hb_blob_root B) name 0 (Some (bl_content_identity b))) (\<lambda>(bytes, m).
           if length bytes \<noteq> bl_size b \<or> n_uid m \<noteq> hm_owner_uid (bl_metadata b)
              \<or> n_mode m AND 4095 \<noteq> hm_mode (bl_metadata b) \<or> fst (n_ino m) \<noteq> hm_device (bl_metadata b)
              \<or> snd (n_ino m) \<noteq> hm_inode (bl_metadata b) \<or> nlink E (n_ino m) \<noteq> hm_link_count (bl_metadata b)
              \<or> length (n_bytes m) \<noteq> hm_size (bl_metadata b)
           then throw ObjectInvalid else ret bytes)))"

section \<open>Names of files\<close>

lemma canonical_hex_iff: "canonical_hex c \<longleftrightarrow> lower_hex_byte c"
  unfolding canonical_hex_def lower_hex_byte_def byte_class_defs by (auto simp: of_char_def)

lemma identity_file_name_iff:
  "identity_file_name s = Inr v \<longleftrightarrow> s = ''sha256:'' @ v \<and> length v = 64 \<and> list_all lower_hex_byte v"
proof -
  have *: "canonical_hex = lower_hex_byte" by (simp add: fun_eq_iff canonical_hex_iff)
  show ?thesis
  proof (cases "strip_prefix ''sha256:'' s")
    case None
    have "s \<noteq> ''sha256:'' @ v"
    proof
      assume "s = ''sha256:'' @ v"
      then have "strip_prefix ''sha256:'' s = Some v" by (simp only: strip_prefix_append)
      with None show False by (simp only: option.distinct)
    qed
    with None show ?thesis by (simp add: identity_file_name_def)
  next
    case (Some u)
    then have "s = ''sha256:'' @ v \<longleftrightarrow> u = v" unfolding strip_prefix_Some by (simp only: same_append_eq)
    with Some show ?thesis unfolding identity_file_name_def * by auto
  qed
qed

lemma staging_name_internal: "is_internal_temporary_name (staging_name r)"
proof -
  have "canonical_hex = lower_hex_byte" by (simp add: fun_eq_iff canonical_hex_iff)
  moreover have "strip_prefix ''.history-'' (staging_name r) = Some (hex_suffix r @ ''.tmp'')"
    unfolding staging_name_def by (rule strip_prefix_append)
  ultimately show ?thesis by (simp add: is_internal_temporary_name_def hex_suffix_shape)
qed

lemma hex_name_not_internal: "lower_hex_byte c \<Longrightarrow> \<not> is_internal_temporary_name (c # s)"
proof -
  assume "lower_hex_byte c"
  then have "c \<noteq> CHR ''.''" by (auto simp: lower_hex_byte_def byte_class_defs)
  then have "strip_prefix ''.history-'' (c # s) = None" by (simp add: strip_prefix_def starts_with_def)
  then show ?thesis by (simp add: is_internal_temporary_name_def)
qed

lemma stored_name_not_internal:
  "identity_file_name s = Inr v \<Longrightarrow> \<not> is_internal_temporary_name (v @ x)"
  by (cases v) (auto simp: identity_file_name_iff dest: hex_name_not_internal)

lemma stored_name_not_temporary: "identity_file_name s = Inr v \<Longrightarrow> staging_name r \<noteq> v @ x"
  using stored_name_not_internal staging_name_internal by metis

lemma stored_name_no_nul: "identity_file_name s = Inr v \<Longrightarrow> CHR 0x00 \<notin> set v"
  by (auto simp: identity_file_name_iff dest: lower_hex_no_nul)

lemma staging_name_no_nul: "CHR 0x00 \<notin> set (staging_name r)"
  using lower_hex_no_nul [OF hex_suffix_shape(2)] by (simp add: staging_name_def)


section \<open>Publishing a file of the history\<close>

lemma verify_directory_looks [touches_intros]: "touches S (verify_protected_directory p uid root)"
proof -
  have "touches {} (verify_protected_directory p uid root)"
    by (simp add: touches_def verify_protected_directory_def verify_protected_path_looks)
  then show ?thesis by (auto intro: touches_mono)
qed

lemma history_looks [touches_intros]:
  "touches S (open_protected_directory p uid)" "touches S (try_read_exact_file_at E d name uid i)"
  "touches S (sync_existing_file_at d name)"
  unfolding open_protected_directory_def try_read_exact_file_at_def sync_existing_file_at_def
  by (intro touches_intros)+

lemma read_exact_looks [touches_intros]: "touches S (read_exact_file E d name uid i)"
  unfolding read_exact_file_def by (intro touches_intros)

lemma verified_looks [touches_intros]: "touches S (verified_file_metadata E d name uid i)"
  unfolding verified_file_metadata_def by (intro touches_intros) (auto intro: touches_intros)

text \<open>A file the history accepts.\<close>

definition exact_file :: "'x history_env_scheme \<Rightarrow> nat \<Rightarrow> fnode \<Rightarrow> bool" where
  "exact_file E uid n \<longleftrightarrow> n_kind n = RegularFile \<and> n_uid n = uid \<and> n_mode n AND 4095 = 384 \<and>
     nlink E (n_ino n) = 1 \<and> length (n_bytes n) \<le> max_history_response_bytes E"

lemma try_read_Ok:
  assumes "try_read_exact_file_at E d name uid i w = (Ok x, w')"
  shows "case x of None \<Rightarrow> node_at w (path_join d name) = None
    | Some (bs, n) \<Rightarrow> node_at w (path_join d name) = Some n \<and> bs = n_bytes n \<and> exact_file E uid n \<and>
        (\<forall>identity. i = Some identity \<longrightarrow> content_identity_of E bs = identity)"
proof -
  obtain r w1 where o: "open_nofollow (path_join d name) w = (r, w1)" by fastforce
  from assms have nul: "c_string ObjectInvalid name = Inr name"
    by (auto simp: try_read_exact_file_at_def and_then_Ok_iff lift_result_Ok_iff c_string_def split: if_splits)
  show ?thesis
  proof (cases r)
    case (Ok n)
    with assms o nul look_Ok(1) [OF o [unfolded Ok]] show ?thesis
      by (auto simp: try_read_exact_file_at_def and_then_def [where m = "lift_result _"] match_result_def
          and_then_Ok_iff map_err_Ok_iff exact_file_def dest!: look_Ok(2,3) split: if_splits option.splits)
  next
    case (Err e)
    with assms o nul show ?thesis
      by (cases e) (auto simp: try_read_exact_file_at_def and_then_def match_result_def split: option.splits dest: look_Ok(6))
  qed (use assms o nul in \<open>auto simp: try_read_exact_file_at_def and_then_def match_result_def\<close>)
qed

lemma sync_existing_Ok: "sync_existing_file_at d name w = (Ok a, w') \<Longrightarrow> \<exists>n. node_at w (path_join d name) = Some n"
  by (auto simp: sync_existing_file_at_def and_then_Ok_iff lift_result_Ok_iff c_string_def map_err_Ok_iff
      dest!: look_Ok(1) split: if_splits)

lemma open_directory_Ok: "open_protected_directory p uid w = (Ok d, w') \<Longrightarrow> d = p"
  by (auto simp: open_protected_directory_def and_then_Ok_iff split: if_splits)

lemma persist_exact_file_puts:
  assumes "\<not> is_internal_temporary_name name"
  shows "ensures (persist_exact_file E dir name bs uid rnd) w (\<lambda>r.
    put_at (path_join dir (staging_name (case rnd of Some r \<Rightarrow> r | None \<Rightarrow> 0))) (path_join dir name) 384 bs w (is_Ok r))"
  (is "ensures _ _ (\<lambda>r. put_at ?tmp ?dst _ _ _ _)")
  unfolding persist_exact_file_def
proof (rule put_at_after_look, goal_cases)
  case (2 d w1)
  then have d: "d = dir" by (auto dest: open_directory_Ok)
  have ne: "path_join dir (staging_name r) \<noteq> ?dst" for r
    using assms staging_name_internal by auto
  let ?again = "and_then (try_read_exact_file_at E dir name uid None) (\<lambda>found.
     if is_some_and (\<lambda>(existing, _). existing = bs) found then sync_existing_file_at dir name else throw PersistenceFailed)"
  have "holds ?dst bs v" if run: "?again v = (Ok a, v')" for v a v'
    using run by (auto simp: and_then_Ok_iff is_some_and_iff dest!: try_read_Ok split: if_splits)
  then have again: "confirms ?dst bs ?again" by (auto simp: confirms_def intro!: touches_intros)
  have refuse: "confirms ?dst bs (throw PersistenceFailed)" by (auto simp: confirms_def intro!: touches_intros)
  show ?case unfolding d
  proof (rule put_at_after_look, goal_cases)
    case (2 found w2)
    note seen = try_read_Ok [OF 2(1)]
    show ?case
    proof (cases found)
      case None
      show ?thesis
      proof (cases rnd)
        case (Some r)
        have "ensures (and_then (map_err (\<lambda>_. PersistenceFailed) (create_new ?tmp 384)) (\<lambda>_.
            afterwards (and_then (map_err (\<lambda>_. PersistenceFailed) (write_chunks ?tmp [bs])) (\<lambda>_.
                move_or ?tmp ?dst ?again (throw PersistenceFailed) (map_err (\<lambda>_. PersistenceFailed) sync_all)))
              (remove_file ?tmp))) w2 (\<lambda>r. put_at ?tmp ?dst 384 bs w2 (is_Ok r))"
          by (rule put_at_create, rule staged_afterwards [OF write_staged])
             (use ne in \<open>auto intro!: move_or_staged confirms_staged [OF again] confirms_staged [OF refuse] touches_intros\<close>)
        with None Some show ?thesis by (simp add: Let_def)
      qed (use None in \<open>simp add: put_at_def\<close>)
    next
      case (Some x)
      then obtain existing n where x: "found = Some (existing, n)" by (cases x) simp
      have "ensures (sync_existing_file_at dir name) w2 (\<lambda>r. put_at ?tmp ?dst 384 bs w2 (is_Ok r))" if "existing = bs"
        by (rule ensures_touches [OF history_looks(3)]) (use 2 seen x that in \<open>auto simp: same_except_def intro!: put_at_same\<close>)
      with x show ?thesis by (auto simp: put_at_def)
    qed
  qed (intro touches_intros)
qed (intro touches_intros)

interpretation history_publication: publication
  "\<lambda>(dir, name, bs, uid, rnd). persist_exact_file E dir name bs uid rnd"
  "\<lambda>(dir, name, bs, uid, rnd). path_join dir (staging_name (case rnd of Some r \<Rightarrow> r | None \<Rightarrow> 0))"
  "\<lambda>(dir, name, bs, uid, rnd). path_join dir name"
  "\<lambda>(dir, name, bs, uid, rnd). bs"
  384 "\<lambda>(dir, name, bs, uid, rnd). \<not> is_internal_temporary_name name" for E :: "'x history_env_scheme"
proof
  show "ensures (case a of (dir, name, bs, uid, rnd) \<Rightarrow> persist_exact_file E dir name bs uid rnd) w (\<lambda>r. put_at
      (case a of (dir, name, bs, uid, rnd) \<Rightarrow> path_join dir (staging_name (case rnd of Some r \<Rightarrow> r | None \<Rightarrow> 0)))
      (case a of (dir, name, bs, uid, rnd) \<Rightarrow> path_join dir name) 384
      (case a of (dir, name, bs, uid, rnd) \<Rightarrow> bs) w (is_Ok r))"
    if "case a of (dir, name, bs, uid, rnd) \<Rightarrow> \<not> is_internal_temporary_name name" for a w
    using that persist_exact_file_puts by (cases a) simp
  show "(case a of (dir, name, bs, uid, rnd) \<Rightarrow> path_join dir (staging_name (case rnd of Some r \<Rightarrow> r | None \<Rightarrow> 0)))
      \<noteq> (case b of (dir, name, bs, uid, rnd) \<Rightarrow> path_join dir name)"
    if "case a of (dir, name, bs, uid, rnd) \<Rightarrow> \<not> is_internal_temporary_name name"
      "case b of (dir, name, bs, uid, rnd) \<Rightarrow> \<not> is_internal_temporary_name name" for a b
    using that staging_name_internal by (cases a, cases b) (auto simp: path_join_def)
qed

section \<open>What an attachment may leave behind\<close>

definition blob_of :: "'x history_env_scheme \<Rightarrow> string \<Rightarrow> fnode \<Rightarrow> string \<Rightarrow> history_blob" where
  "blob_of E bs n i = \<lparr>bl_schema_version = 1, bl_identity = i, bl_content_identity = content_identity_of E bs,
     bl_size = length bs, bl_metadata = metadata_of E bs n\<rparr>"

text \<open>The store holds the bytes, and the blob record describes exactly that file.\<close>

definition blob_held :: "'x history_env_scheme \<Rightarrow> path \<Rightarrow> nat \<Rightarrow> string \<Rightarrow> history_blob \<Rightarrow> world \<Rightarrow> bool" where
  "blob_held E root uid bs b w \<longleftrightarrow>
     (\<exists>name n. identity_file_name (content_identity_of E bs) = Inr name \<and> node_at w (path_join root name) = Some n \<and>
        exact_file E uid n \<and> n_bytes n = bs \<and> b = blob_of E bs n (bl_identity b) \<and> blob_identity E b = Inr (bl_identity b))"

text \<open>A file of the store with one of the contents \<open>C\<close>, under its hash.\<close>

definition blob_file :: "'x history_env_scheme \<Rightarrow> path \<Rightarrow> nat \<Rightarrow> string set \<Rightarrow> path \<Rightarrow> fnode \<Rightarrow> bool" where
  "blob_file E root u C q n \<longleftrightarrow> own_file u 384 n \<and> n_bytes n \<in> C \<and>
     (\<exists>name. identity_file_name (content_identity_of E (n_bytes n)) = Inr name \<and> q = path_join root name)"

definition staging_file :: "path \<Rightarrow> nat \<Rightarrow> path \<Rightarrow> fnode \<Rightarrow> bool" where
  "staging_file dir u q n \<longleftrightarrow> own_file u 384 n \<and> (\<exists>r. q = path_join dir (staging_name r))"

abbreviation blob_store_file :: "'x history_env_scheme \<Rightarrow> path \<Rightarrow> nat \<Rightarrow> string set \<Rightarrow> path \<Rightarrow> fnode \<Rightarrow> bool" where
  "blob_store_file E root u C q n \<equiv> blob_file E root u C q n \<or> staging_file root u q n"

lemma blob_held_mono: "grows N w w' \<Longrightarrow> blob_held E root uid bs b w \<Longrightarrow> blob_held E root uid bs b w'"
  unfolding blob_held_def by (blast dest: growsD(2))

lemma blob_identity_of [simp]: "blob_identity E (blob_of E bs n i) = blob_identity E (blob_of E bs n [])"
  by (simp add: blob_identity_def blob_of_def)

lemma blob_held_unique:
  assumes "blob_held E root uid bs b w" and "blob_held E root uid bs b' w"
  shows "b = b'"
proof -
  from assms(1) obtain name n where b: "identity_file_name (content_identity_of E bs) = Inr name"
    "node_at w (path_join root name) = Some n" "b = blob_of E bs n (bl_identity b)" "blob_identity E b = Inr (bl_identity b)"
    unfolding blob_held_def by blast
  from assms(2) obtain name' n' where b': "identity_file_name (content_identity_of E bs) = Inr name'"
    "node_at w (path_join root name') = Some n'" "b' = blob_of E bs n' (bl_identity b')" "blob_identity E b' = Inr (bl_identity b')"
    unfolding blob_held_def by blast
  from b(1,2) b'(1,2) have "n' = n" by simp
  with b(3,4) b'(3,4) show ?thesis by (metis blob_identity_of sum.inject(2))
qed

lemma verified_metadata_Ok:
  assumes "verified_file_metadata E dir name uid i w = (Ok m, w')"
  shows "\<exists>n. node_at w (path_join dir name) = Some n \<and> exact_file E uid n \<and> m = metadata_of E (n_bytes n) n"
proof -
  from assms obtain bs n v where "read_exact_file E dir name uid i w = (Ok (bs, n), v)" and m: "m = metadata_of E bs n"
    by (auto simp: verified_file_metadata_def and_then_Ok_iff)
  then have run: "and_then (open_protected_directory dir uid) (\<lambda>d. and_then (try_read_exact_file_at E d name uid i)
      (\<lambda>found. case found of Some x \<Rightarrow> ret x | None \<Rightarrow> throw StoreUnavailable)) w = (Ok (bs, n), v)"
    by (simp add: read_exact_file_def)
  from look_then [OF run history_looks(1)] obtain w1 where
    "and_then (try_read_exact_file_at E dir name uid i)
      (\<lambda>found. case found of Some x \<Rightarrow> ret x | None \<Rightarrow> throw StoreUnavailable) w1 = (Ok (bs, n), v)" "node_at w1 = node_at w"
    using open_directory_Ok by metis
  with m show ?thesis by (auto simp: and_then_Ok_iff dest!: try_read_Ok split: option.splits)
qed

lemma grows_put_at:
  "put_at tmp dst m bs w ok w' \<Longrightarrow> (\<And>q n. new_at tmp dst m bs (w_euid w) q n \<Longrightarrow> N q n) \<Longrightarrow> grows N w w'"
  unfolding put_at_def by (blast intro: grows_mono)

lemma persist_blob_grows:
  assumes "persist_blob E root bs uid rnd w = (r, w')"
  shows "grows (blob_store_file E root (w_euid w) {bs}) w w' \<and> (\<forall>b. r = Ok b \<longrightarrow> blob_held E root uid bs b w')"
proof (cases "identity_file_name (content_identity_of E bs)")
  case (Inl e)
  with assms show ?thesis by (auto simp: persist_blob_def Let_def and_then_def)
next
  case (Inr name)
  let ?i = "content_identity_of E bs" and ?N = "blob_store_file E root (w_euid w) {bs}"
  have fresh: "\<not> is_internal_temporary_name name" using stored_name_not_internal [OF Inr, of "[]"] by simp
  obtain q w1 where p: "persist_exact_file E root name bs uid rnd w = (q, w1)" by fastforce
  note put = ensuresD [OF persist_exact_file_puts [OF fresh] p]
  have g1: "grows ?N w w1"
    by (rule grows_put_at [OF put]) (use Inr in \<open>auto simp: new_at_def blob_file_def staging_file_def\<close>)
  show ?thesis
  proof (cases q)
    case (Ok u)
    obtain s w2 where v: "verified_file_metadata E root name uid (Some ?i) w1 = (s, w2)" by fastforce
    have same: "same_except {} w1 w2" using v by (blast intro: touchesD [OF verified_looks])
    then have g2: "grows ?N w w2" using g1 grows_trans grows_same by blast
    have "w' = w2"
      using assms p Ok v Inr by (auto simp: persist_blob_def Let_def and_then_def lift_result_def split: outcome.splits sum.splits)
    moreover have "blob_held E root uid bs b w2" if "r = Ok b" for b
    proof -
      from assms p Ok v Inr that obtain m where s: "s = Ok m"
        and b: "\<exists>i. blob_identity E \<lparr>bl_schema_version = 1, bl_identity = [], bl_content_identity = ?i,
            bl_size = length bs, bl_metadata = m\<rparr> = Inr i \<and>
          b = \<lparr>bl_schema_version = 1, bl_identity = i, bl_content_identity = ?i, bl_size = length bs, bl_metadata = m\<rparr>"
        by (cases s) (auto simp: persist_blob_def Let_def and_then_def lift_result_def split: sum.splits)
      from verified_metadata_Ok [OF v [unfolded s]] put Ok obtain n where n: "node_at w1 (path_join root name) = Some n"
        "exact_file E uid n" "m = metadata_of E bs n" "n_bytes n = bs" by (auto simp: put_at_def)
      with b same Inr have "b = blob_of E bs n (bl_identity b)" "blob_identity E b = Inr (bl_identity b)"
        by (auto simp: blob_of_def blob_identity_def)
      with n same Inr show ?thesis unfolding blob_held_def same_except_def by auto
    qed
    ultimately show ?thesis using g2 by simp
  qed (use assms p Inr g1 in \<open>auto simp: persist_blob_def Let_def and_then_def\<close>)
qed

text \<open>The entry of this attachment, its blobs in the store.\<close>

definition entry_backed ::
  "'x history_env_scheme \<Rightarrow> history_binding \<Rightarrow> repository_mapping \<Rightarrow> archive_target \<Rightarrow> sidecar \<Rightarrow> finalization_journal \<Rightarrow>
   catalog_entry \<Rightarrow> world \<Rightarrow> bool" where
  "entry_backed E B M t sc j e w \<longleftrightarrow>
     e = (entry_for B M t sc j (ce_archive_blob e) (ce_contract_snapshot_blob e) (ce_sidecar_blob e))\<lparr>ce_identity := ce_identity e\<rparr> \<and>
     catalog_entry_identity E e = Inr (ce_identity e) \<and>
     blob_held E (hb_blob_root B) 0 (fz_bytes (at_archive t)) (ce_archive_blob e) w \<and>
     blob_held E (hb_blob_root B) 0 (fz_bytes (at_contract_snapshot t)) (ce_contract_snapshot_blob e) w \<and>
     (\<exists>bs. sidecar_to_vec E sc = Some bs \<and> blob_held E (hb_blob_root B) 0 bs (ce_sidecar_blob e) w)"

definition entry_file ::
  "'x history_env_scheme \<Rightarrow> path \<Rightarrow> nat \<Rightarrow> catalog_entry \<Rightarrow> path \<Rightarrow> fnode \<Rightarrow> bool" where
  "entry_file E dir u e q n \<longleftrightarrow> own_file u 384 n \<and> entry_to_vec E e = Some (n_bytes n) \<and>
     (\<exists>name. identity_file_name (ce_identity e) = Inr name \<and> q = path_join dir (name @ ''.json''))"

lemma entry_backed_mono: "grows N w w' \<Longrightarrow> entry_backed E B M t sc j e w \<Longrightarrow> entry_backed E B M t sc j e w'"
  unfolding entry_backed_def by (blast intro: blob_held_mono)

lemma entry_identity_blank [simp]:
  "catalog_entry_identity E (e\<lparr>ce_identity := i\<rparr>) = catalog_entry_identity E e"
  by (simp add: catalog_entry_identity_def)

lemma entry_backed_unique:
  assumes "entry_backed E B M t sc j e w" and "entry_backed E B M t sc j e' w"
  shows "e = e'"
proof -
  have "ce_archive_blob e = ce_archive_blob e'" "ce_contract_snapshot_blob e = ce_contract_snapshot_blob e'"
    "ce_sidecar_blob e = ce_sidecar_blob e'"
    using assms blob_held_unique unfolding entry_backed_def by (blast, blast, metis option.sel)
  then obtain x where "e = x\<lparr>ce_identity := ce_identity e\<rparr>" "e' = x\<lparr>ce_identity := ce_identity e'\<rparr>"
    using assms unfolding entry_backed_def by metis
  with assms show ?thesis unfolding entry_backed_def by (metis entry_identity_blank sum.inject(2))
qed

text \<open>
  The files that are new after an attachment, seen in the world \<open>w'\<close> at its end: blobs, staging
  files, and one entry with its blobs.
\<close>

definition contents_of :: "'x history_env_scheme \<Rightarrow> archive_target \<Rightarrow> sidecar \<Rightarrow> string set" where
  "contents_of E t sc = {fz_bytes (at_archive t), fz_bytes (at_contract_snapshot t)} \<union> {side. sidecar_to_vec E sc = Some side}"

definition attached_file ::
  "'x history_env_scheme \<Rightarrow> history_binding \<Rightarrow> repository_mapping \<Rightarrow> path \<Rightarrow> archive_target \<Rightarrow> sidecar \<Rightarrow> finalization_journal \<Rightarrow>
   world \<Rightarrow> path \<Rightarrow> fnode \<Rightarrow> bool" where
  "attached_file E B M dir t sc j w' q n \<longleftrightarrow>
     blob_store_file E (hb_blob_root B) (w_euid w') (contents_of E t sc) q n \<or> staging_file dir (w_euid w') q n \<or>
     (\<exists>e. entry_backed E B M t sc j e w' \<and> entry_file E dir (w_euid w') e q n)"

lemma persist_catalog_entry_grows:
  assumes "namespace_path (hb_catalog_root B) (rm_catalog_namespace_identity M) = Inr dir"
  shows "ensures (persist_catalog_entry E B M e uid rnd) w (\<lambda>r w'.
    grows (\<lambda>q n. staging_file dir (w_euid w) q n \<or> entry_file E dir (w_euid w) e q n) w w' \<and>
    (is_Ok r \<longrightarrow> (\<exists>name bs. identity_file_name (ce_identity e) = Inr name \<and> entry_to_vec E e = Some bs \<and>
       holds (path_join dir (name @ ''.json'')) bs w')))"
proof (cases "identity_file_name (ce_identity e)")
  case (Inr name)
  have fresh: "\<not> is_internal_temporary_name (name @ ''.json'')" by (rule stored_name_not_internal [OF Inr])
  show ?thesis
  proof (cases "entry_to_vec E e")
    case (Some bs)
    have "ensures (persist_exact_file E dir (name @ ''.json'') bs uid rnd) w (\<lambda>r w'.
      grows (\<lambda>q n. staging_file dir (w_euid w) q n \<or> entry_file E dir (w_euid w) e q n) w w' \<and>
      (is_Ok r \<longrightarrow> holds (path_join dir (name @ ''.json'')) bs w'))"
      by (rule ensures_mono [OF persist_exact_file_puts [OF fresh]], intro conjI, erule grows_put_at)
         (use Inr Some in \<open>auto simp: new_at_def entry_file_def staging_file_def put_at_def\<close>)
    with assms Inr Some show ?thesis by (simp add: persist_catalog_entry_def ensures_def and_then_def)
  qed (use assms Inr in \<open>simp add: persist_catalog_entry_def ensures_def and_then_def\<close>)
qed (use assms in \<open>simp add: persist_catalog_entry_def ensures_def and_then_def\<close>)

text \<open>The three blobs of an attachment, one after the other.\<close>

definition persist_blobs ::
  "'x history_env_scheme \<Rightarrow> history_binding \<Rightarrow> archive_target \<Rightarrow> string \<Rightarrow> attach_random \<Rightarrow>
   (history_blob \<times> history_blob \<times> history_blob) history_io" where
  "persist_blobs E B t side rnd =
     and_then (persist_blob E (hb_blob_root B) (fz_bytes (at_archive t)) 0 (rnd_archive rnd)) (\<lambda>a.
     and_then (persist_blob E (hb_blob_root B) (fz_bytes (at_contract_snapshot t)) 0 (rnd_snapshot rnd)) (\<lambda>s.
     and_then (persist_blob E (hb_blob_root B) side 0 (rnd_sidecar rnd)) (\<lambda>d. ret (a, s, d))))"

definition file_entry ::
  "'x history_env_scheme \<Rightarrow> history_binding \<Rightarrow> repository_mapping \<Rightarrow> archive_target \<Rightarrow> sidecar \<Rightarrow> finalization_journal \<Rightarrow>
   random_bytes option \<Rightarrow> history_blob \<times> history_blob \<times> history_blob \<Rightarrow> protected_history_attachment history_io" where
  "file_entry E B M t sc j rnd = (\<lambda>(a, s, d).
     let e = entry_for B M t sc j a s d in
     and_then (lift_result (catalog_entry_identity E e)) (\<lambda>i.
     and_then (persist_catalog_entry E B M (e\<lparr>ce_identity := i\<rparr>) 0 rnd) (\<lambda>_.
       ret (attachment_of (e\<lparr>ce_identity := i\<rparr>)))))"

lemma attach_steps:
  assumes "fj_archive_request j = Some request"
    and "history_select_mapping B (ar_authority_id request) (fj_working_directory j) = Inr M"
  shows "attach_protected_history_at P E B t sc j rnd =
    (if launcher_finalization_archive_sidecar_v1_identity P sc \<noteq> Some (sd_identity sc)
        \<or> sa_receipt_archive_identity (sd_signed_archive sc) \<noteq> fz_content_identity (at_archive t)
     then throw ObjectInvalid
     else (case sidecar_to_vec E sc of None \<Rightarrow> throw ObjectInvalid
       | Some side \<Rightarrow> and_then (persist_blobs E B t side rnd) (file_entry E B M t sc j (rnd_entry rnd))))"
proof -
  have lift: "and_then (lift_result (Inr x)) f = f x" for x and f :: "'z \<Rightarrow> 'y history_io"
    by (rule ext) (simp add: and_then_def)
  show ?thesis
    by (rule ext) (simp add: attach_protected_history_at_def assms lift persist_blobs_def file_entry_def and_then_assoc
        and_then_ret split: option.splits)
qed

lemma persist_blob_step:
  assumes "bs \<in> C" and "grows (blob_store_file E root (w_euid w) C) w v"
  shows "ensures (persist_blob E root bs 0 rnd) v (\<lambda>r v'. grows (blob_store_file E root (w_euid w) C) w v' \<and>
    grows (blob_store_file E root (w_euid w) C) v v' \<and> (\<forall>b. r = Ok b \<longrightarrow> blob_held E root 0 bs b v'))"
proof -
  obtain r v' where p: "persist_blob E root bs 0 rnd v = (r, v')" by fastforce
  have "w_euid v = w_euid w" using assms(2) by (rule growsD)
  with persist_blob_grows [OF p] have "grows (blob_store_file E root (w_euid w) {bs}) v v'" by simp
  then have "grows (blob_store_file E root (w_euid w) C) v v'" by (rule grows_mono) (use assms(1) in \<open>auto simp: blob_file_def\<close>)
  with persist_blob_grows [OF p] assms(2) show ?thesis by (auto simp: ensures_def p intro: grows_trans)
qed

lemma persist_blobs_grows:
  assumes "sidecar_to_vec E sc = Some side"
  shows "ensures (persist_blobs E B t side rnd) w (\<lambda>r w'. grows (blob_store_file E (hb_blob_root B) (w_euid w) (contents_of E t sc)) w w' \<and>
     (\<forall>a s d. r = Ok (a, s, d) \<longrightarrow> blob_held E (hb_blob_root B) 0 (fz_bytes (at_archive t)) a w' \<and>
        blob_held E (hb_blob_root B) 0 (fz_bytes (at_contract_snapshot t)) s w' \<and> blob_held E (hb_blob_root B) 0 side d w'))"
proof -
  have C: "fz_bytes (at_archive t) \<in> contents_of E t sc" "fz_bytes (at_contract_snapshot t) \<in> contents_of E t sc"
    "side \<in> contents_of E t sc" using assms by (simp_all add: contents_of_def)
  show ?thesis
    unfolding persist_blobs_def
  proof (rule ensures_and_thenI [OF persist_blob_step [OF C(1), of E "hb_blob_root B" w w]], goal_cases)
    case (2 a w1)
    show ?case
    proof (rule ensures_and_thenI [OF persist_blob_step [OF C(2), of E "hb_blob_root B" w w1]], goal_cases)
      case (2 s w2)
      then have "blob_held E (hb_blob_root B) 0 (fz_bytes (at_archive t)) a w2"
        using \<open>grows _ w w1 \<and> _ \<and> _\<close> by (blast intro: blob_held_mono)
      with 2 show ?case
        by (intro ensures_and_thenI [OF persist_blob_step [OF C(3), of E "hb_blob_root B" w w2]]) (auto intro: blob_held_mono)
    qed (use 2 in auto)
  qed auto
qed

lemma file_entry_grows:
  assumes "namespace_path (hb_catalog_root B) (rm_catalog_namespace_identity M) = Inr dir"
    and "sidecar_to_vec E sc = Some side"
    and "blob_held E (hb_blob_root B) 0 (fz_bytes (at_archive t)) a w"
    and "blob_held E (hb_blob_root B) 0 (fz_bytes (at_contract_snapshot t)) s w"
    and "blob_held E (hb_blob_root B) 0 side d w"
  shows "ensures (file_entry E B M t sc j rnd (a, s, d)) w (\<lambda>r w'. grows (attached_file E B M dir t sc j w') w w' \<and>
    (\<forall>x. r = Ok x \<longrightarrow> (\<exists>e name bs. entry_backed E B M t sc j e w' \<and> x = attachment_of e \<and>
       identity_file_name (ce_identity e) = Inr name \<and> entry_to_vec E e = Some bs \<and> holds (path_join dir (name @ ''.json'')) bs w')))"
proof (cases "catalog_entry_identity E (entry_for B M t sc j a s d)")
  case (Inr i)
  define e where "e = (entry_for B M t sc j a s d)\<lparr>ce_identity := i\<rparr>"
  have "entry_backed E B M t sc j e w"
    using assms Inr unfolding entry_backed_def by (simp add: e_def entry_for_def catalog_entry_identity_def)
  note backed = entry_backed_mono [OF _ this]
  obtain r w' where p: "persist_catalog_entry E B M e 0 rnd w = (r, w')" by fastforce
  note post = ensuresD [OF persist_catalog_entry_grows [OF assms(1)] p]
  then have e: "entry_backed E B M t sc j e w'" and u: "w_euid w' = w_euid w" by (auto intro: backed dest: growsD)
  from post have "grows (attached_file E B M dir t sc j w') w w'"
    by (elim conjE grows_mono) (use e u in \<open>auto simp: attached_file_def\<close>)
  with post e p Inr show ?thesis
    by (cases r) (auto simp: file_entry_def Let_def ensures_def and_then_def e_def [symmetric])
qed (simp add: file_entry_def Let_def ensures_def and_then_def)

lemma attach_grows:
  assumes "fj_archive_request j = Some request"
    and "history_select_mapping B (ar_authority_id request) (fj_working_directory j) = Inr M"
    and "namespace_path (hb_catalog_root B) (rm_catalog_namespace_identity M) = Inr dir"
    and "attach_protected_history_at P E B t sc j rnd w = (r, w')"
  shows "grows (attached_file E B M dir t sc j w') w w' \<and>
    (\<forall>a. r = Ok a \<longrightarrow> (\<exists>e name bs. entry_backed E B M t sc j e w' \<and> a = attachment_of e \<and>
       identity_file_name (ce_identity e) = Inr name \<and> entry_to_vec E e = Some bs \<and> holds (path_join dir (name @ ''.json'')) bs w'))"
proof (cases "(launcher_finalization_archive_sidecar_v1_identity P sc \<noteq> Some (sd_identity sc)
        \<or> sa_receipt_archive_identity (sd_signed_archive sc) \<noteq> fz_content_identity (at_archive t)) \<or> sidecar_to_vec E sc = None")
  case True
  with assms(4) show ?thesis by (auto simp: attach_steps [OF assms(1,2)] split: if_splits)
next
  case False
  then obtain side where side: "sidecar_to_vec E sc = Some side" by auto
  let ?Q = "\<lambda>r w'. grows (attached_file E B M dir t sc j w') w w' \<and>
    (\<forall>a. r = Ok a \<longrightarrow> (\<exists>e name bs. entry_backed E B M t sc j e w' \<and> a = attachment_of e \<and>
       identity_file_name (ce_identity e) = Inr name \<and> entry_to_vec E e = Some bs \<and> holds (path_join dir (name @ ''.json'')) bs w'))"
  have early: "grows (attached_file E B M dir t sc j v') w v" if "grows (blob_store_file E (hb_blob_root B) (w_euid w) (contents_of E t sc)) w v" "w_euid v' = w_euid w" for v v'
    using that by (elim grows_mono) (auto simp: attached_file_def)
  have "ensures (and_then (persist_blobs E B t side rnd) (file_entry E B M t sc j (rnd_entry rnd))) w ?Q"
  proof (rule ensures_and_thenI [OF persist_blobs_grows [OF side]], goal_cases)
    case (1 abc v)
    obtain a s d where abc: "abc = (a, s, d)" by (cases abc)
    have joined: "grows (attached_file E B M dir t sc j v') w v'" if "grows (attached_file E B M dir t sc j v') v v'" for v'
      using 1 that growsD(1) [OF that] growsD(1) [of _ w v] by (auto intro: grows_trans [OF early])
    show ?case unfolding abc
      by (rule ensures_mono [OF file_entry_grows [OF assms(3) side]]) (use 1 abc joined in blast)+
  qed (auto intro: early dest: growsD(1))
  from ensuresD [OF this] assms(4) False side show ?thesis by (simp add: attach_steps [OF assms(1,2)])
qed

text \<open>
  C37. The protected history is written once and in order. Whatever faults an attachment meets, and
  wherever it is killed, every file that existed is unchanged; each new file is a staging file
  under a name the catalog ignores, one of the three contents under the hash of it, complete, or the one entry
  of this attachment, complete, named by its identity, and with the archive, the contract snapshot
  and the sidecar it describes already held by the store. When the attachment succeeds, its answer
  names an entry that is in the catalog.
\<close>

theorem history_written_once:
  assumes "fj_archive_request j = Some request"
    and "history_select_mapping B (ar_authority_id request) (fj_working_directory j) = Inr M"
    and "namespace_path (hb_catalog_root B) (rm_catalog_namespace_identity M) = Inr dir"
    and "attach_protected_history_at P E B t sc j rnd w = (r, w')"
  shows "(\<forall>q n. node_at w q = Some n \<longrightarrow> node_at w' q = Some n) \<and>
    (\<forall>q n. node_at w q = None \<and> node_at w' q = Some n \<longrightarrow>
       staging_file (hb_blob_root B) (w_euid w) q n \<or> staging_file dir (w_euid w) q n \<or>
       blob_file E (hb_blob_root B) (w_euid w) (contents_of E t sc) q n \<or>
       (\<exists>e. entry_backed E B M t sc j e w' \<and> entry_file E dir (w_euid w) e q n)) \<and>
    (\<forall>a. r = Ok a \<longrightarrow> (\<exists>e name bs. entry_backed E B M t sc j e w' \<and> a = attachment_of e \<and>
       identity_file_name (ce_identity e) = Inr name \<and> entry_to_vec E e = Some bs \<and> holds (path_join dir (name @ ''.json'')) bs w'))"
proof -
  note run = attach_grows [OF assms]
  have u: "w_euid w' = w_euid w" using run growsD(1) by blast
  from run have "grows (attached_file E B M dir t sc j w') w w'" ..
  with u run show ?thesis unfolding grows_def attached_file_def by auto
qed

end
