(* ===== verification/History_Catalog.thy ===== *)
theory History_Catalog
  imports Protected_History
begin

text \<open>
  Reading the protected history back (\<open>load_catalog_entries\<close> and \<open>read_blob\<close> of
  \<open>src/protected_history.rs\<close>) after an attachment that succeeded, failed or was killed, and
  repeating an attachment.
\<close>

section \<open>Runs without faults\<close>

abbreviation calm_world :: "world \<Rightarrow> world" where
  "calm_world w \<equiv> w\<lparr>w_faults := []\<rparr>"

definition store_directory :: "path \<Rightarrow> world \<Rightarrow> bool" where
  "store_directory d w \<longleftrightarrow> path_absolute d \<and> RootDir \<notin> set (tl d) \<and>
     verify_protected_directory d 0 [RootDir] (calm_world w) = (Ok (), calm_world w)"

lemma verify_directory_iff:
  assumes "w_faults w = []" and "path_absolute d" and "RootDir \<notin> set (tl d)"
  shows "verify_protected_directory d uid [RootDir] w = (Ok (), w) \<longleftrightarrow> chain_ok d uid [RootDir] ProtectedDirectory w"
proof -
  have d: "prefix [RootDir] d" "d \<noteq> []" using assms(2) by (auto simp: path_absolute_def split: list.splits component.splits)
  have "path_absolute [RootDir]" by (simp add: path_absolute_def)
  from verify_candidates_correct [OF assms(1), of "rev d" "[RootDir]" d uid ProtectedDirectory] d assms this show ?thesis
    by (simp add: verify_protected_directory_def verify_protected_path_def chain_ok_def)
qed

lemma chain_ok_nodes: "grows N w w' \<Longrightarrow> chain_ok d uid root k w \<Longrightarrow> chain_ok d uid root k w'"
  unfolding chain_ok_def by (blast dest: growsD(2))

lemma store_directory_mono: "grows N w w' \<Longrightarrow> store_directory d w \<Longrightarrow> store_directory d w'"
  using chain_ok_nodes [of N "calm_world w" "calm_world w'"]
  by (auto simp: store_directory_def verify_directory_iff)

lemma store_directory_node:
  assumes "store_directory d w"
  shows "\<exists>n. node_at w d = Some n \<and> n_kind n = Directory \<and> n_uid n = 0 \<and> n_mode n AND 18 = 0"
proof -
  from assms have d: "path_absolute d" "RootDir \<notin> set (tl d)" by (auto simp: store_directory_def)
  with assms verify_directory_iff [of "calm_world w" d] have "chain_ok d 0 [RootDir] ProtectedDirectory (calm_world w)"
    by (auto simp: store_directory_def)
  moreover have "prefix [RootDir] d" using d(1) by (auto simp: path_absolute_def split: list.splits component.splits)
  ultimately obtain n where "node_at w d = Some n" "candidate_ok d 0 ProtectedDirectory d n"
    unfolding chain_ok_def by auto
  then show ?thesis by (auto simp: candidate_ok_def kind_valid_def)
qed

lemma open_store_directory:
  assumes "w_faults w = []" and "store_directory d w"
  shows "open_protected_directory d 0 w = (Ok d, w)"
proof -
  have "calm_world w = w" using assms(1) by simp
  with assms(2) have "verify_protected_directory d 0 [RootDir] w = (Ok (), w)" by (simp add: store_directory_def)
  with store_directory_node [OF assms(2)] assms(1) show ?thesis
    by (auto simp: open_protected_directory_def and_then_def map_err_def open_directory_def fstat_def faulty_no_faults)
qed

lemma try_read_found:
  assumes "w_faults w = []" and "node_at w (path_join d name) = Some n" and "exact_file E uid n"
    and "CHR 0x00 \<notin> set name" and "\<And>identity. i = Some identity \<Longrightarrow> content_identity_of E (n_bytes n) = identity"
  shows "try_read_exact_file_at E d name uid i w = (Ok (Some (n_bytes n, n)), w)"
proof -
  have "\<not> is_some_and (\<lambda>identity. content_identity_of E (n_bytes n) \<noteq> identity) i" using assms(5) by (auto simp: is_some_and_iff)
  with assms show ?thesis
    by (simp add: try_read_exact_file_at_def c_string_def match_result_def and_then_def map_err_def open_nofollow_def
        fstat_def read_to_end_def faulty_no_faults exact_file_def)
qed

lemma try_read_absent:
  assumes "w_faults w = []" and "node_at w (path_join d name) = None" and "CHR 0x00 \<notin> set name"
  shows "try_read_exact_file_at E d name uid i w = (Ok None, w)"
  using assms by (simp add: try_read_exact_file_at_def c_string_def match_result_def and_then_def open_nofollow_def faulty_no_faults)

lemma read_found:
  assumes "w_faults w = []" and "store_directory d w" and "node_at w (path_join d name) = Some n" and "exact_file E 0 n"
    and "CHR 0x00 \<notin> set name" and "\<And>identity. i = Some identity \<Longrightarrow> content_identity_of E (n_bytes n) = identity"
  shows "read_exact_file E d name 0 i w = (Ok (n_bytes n, n), w)"
  using open_store_directory [OF assms(1,2)] try_read_found [where i = i, OF assms(1,3,4,5,6)]
  by (simp add: read_exact_file_def and_then_def)

lemma try_read_no_nul: "try_read_exact_file_at E d name uid i w = (Ok x, w') \<Longrightarrow> CHR 0x00 \<notin> set name"
  by (auto simp: try_read_exact_file_at_def and_then_Ok_iff lift_result_Ok_iff c_string_def split: if_splits)

lemma read_exact_iff:
  assumes "w_faults w = []" and "store_directory d w"
  shows "read_exact_file E d name 0 None w = (Ok (bs, n), w') \<longleftrightarrow>
    w' = w \<and> node_at w (path_join d name) = Some n \<and> exact_file E 0 n \<and> CHR 0x00 \<notin> set name \<and> bs = n_bytes n"
proof
  assume run: "read_exact_file E d name 0 None w = (Ok (bs, n), w')"
  with open_store_directory [OF assms] have t: "try_read_exact_file_at E d name 0 None w = (Ok (Some (bs, n)), w')"
    by (auto simp: read_exact_file_def and_then_def split: prod.splits outcome.splits option.splits)
  from try_read_Ok [OF t] try_read_no_nul [OF t] t try_read_found [OF assms(1), of d name n E 0 None]
  show "w' = w \<and> node_at w (path_join d name) = Some n \<and> exact_file E 0 n \<and> CHR 0x00 \<notin> set name \<and> bs = n_bytes n"
    by auto
qed (use read_found [OF assms, of name n E None] in auto)


section \<open>The catalog as a function of its files\<close>

definition catalog_value ::
  "'x history_env_scheme \<Rightarrow> history_binding \<Rightarrow> repository_mapping \<Rightarrow> string \<Rightarrow> string \<Rightarrow> catalog_entry option \<Rightarrow> bool" where
  "catalog_value E B M name bytes x \<longleftrightarrow>
     (if is_internal_temporary_name name then x = None
      else (\<exists>v e. name = v @ ''.json'' \<and> is_sha256 (''sha256:'' @ v) \<and> entry_from_slice E bytes = Some e \<and> x = Some e \<and>
        catalog_entry_identity E e = Inr (ce_identity e) \<and> entry_fits B M e \<and> entry_objects_agree e \<and>
        entry_identities_canonical e \<and> ce_creation_posture e = creation_posture_v1))"

definition catalog_file ::
  "'x history_env_scheme \<Rightarrow> history_binding \<Rightarrow> repository_mapping \<Rightarrow> path \<Rightarrow> world \<Rightarrow> string \<Rightarrow> catalog_entry option \<Rightarrow> bool" where
  "catalog_file E B M dir w name x \<longleftrightarrow> CHR 0x00 \<notin> set name \<and>
     (\<exists>n. node_at w (path_join dir name) = Some n \<and> exact_file E 0 n \<and> catalog_value E B M name (n_bytes n) x)"

lemma is_sha256_iff: "is_sha256 s \<longleftrightarrow> (\<exists>v. identity_file_name s = Inr v)"
  by (auto simp: is_sha256_def split: sum.splits)

lemma load_catalog_file_iff:
  assumes "w_faults w = []" and "store_directory dir w"
  shows "load_catalog_file E B M dir name w = (Ok x, w') \<longleftrightarrow> w' = w \<and> catalog_file E B M dir w name x"
proof (cases "is_internal_temporary_name name")
  case True
  then show ?thesis
    by (auto simp: load_catalog_file_def and_then_Ok_iff read_exact_iff [OF assms] catalog_file_def catalog_value_def)
next
  case False
  show ?thesis
  proof (cases "strip_suffix ''.json'' name")
    case None
    then have "name \<noteq> v @ ''.json''" for v using strip_suffix_append by (metis option.distinct(1))
    with None False show ?thesis by (simp add: load_catalog_file_def catalog_file_def catalog_value_def)
  next
    case (Some v)
    then have name: "name = v @ ''.json''" by (simp add: strip_suffix_Some)
    let ?rest = "\<lambda>e. and_then (lift_result (catalog_entry_identity E e)) (\<lambda>i.
                if i \<noteq> ce_identity e \<or> \<not> entry_fits B M e \<or> \<not> entry_objects_agree e
                   \<or> \<not> entry_identities_canonical e \<or> ce_creation_posture e \<noteq> creation_posture_v1
                then throw ObjectInvalid else ret (Some e))"
    have rest: "?rest e w1 = (Ok x, w') \<longleftrightarrow> w' = w1 \<and> x = Some e \<and> catalog_entry_identity E e = Inr (ce_identity e) \<and>
        entry_fits B M e \<and> entry_objects_agree e \<and> entry_identities_canonical e \<and> ce_creation_posture e = creation_posture_v1"
      for e w1 by (auto simp: and_then_Ok_iff lift_result_Ok_iff split: if_splits)
    have "load_catalog_file E B M dir name w = (Ok x, w') \<longleftrightarrow> is_sha256 (''sha256:'' @ v) \<and>
        (\<exists>bytes n w1 e. read_exact_file E dir name 0 None w = (Ok (bytes, n), w1) \<and>
          entry_from_slice E bytes = Some e \<and> ?rest e w1 = (Ok x, w'))"
      using False Some unfolding load_catalog_file_def is_sha256_iff
      by (auto simp: and_then_Ok_iff [where m = "lift_result (identity_file_name _)"] lift_result_Ok_iff
          and_then_Ok_iff [where m = "read_exact_file _ _ _ _ _"] split: option.splits)
    also have "\<dots> \<longleftrightarrow> w' = w \<and> catalog_file E B M dir w name x"
      unfolding rest read_exact_iff [OF assms] catalog_file_def catalog_value_def using False name by auto
    finally show ?thesis .
  qed
qed

lemma load_catalog_files_Ok:
  assumes "\<And>name. name \<in> set names \<Longrightarrow> f name w = (Ok (x name), w)"
  shows "load_catalog_files f names w = (Ok (List.map_filter x names), w)"
  using assms by (induction names) (auto simp: and_then_def map_filter_simps split: option.splits)

lemma load_catalog_files_OkD:
  assumes "load_catalog_files f names w = (Ok es, w')" and "\<And>name y v. f name w = (Ok y, v) \<Longrightarrow> v = w"
  shows "(\<forall>name \<in> set names. \<exists>y. f name w = (Ok y, w)) \<and>
    set es = {e. \<exists>name \<in> set names. f name w = (Ok (Some e), w)}"
  using assms(1)
proof (induction names arbitrary: es w')
  case (Cons name names)
  from Cons.prems obtain y v es' where y: "f name w = (Ok y, v)" and rest: "load_catalog_files f names v = (Ok es', w')"
    and es: "es = (case y of None \<Rightarrow> es' | Some e \<Rightarrow> e # es')" by (auto simp: and_then_Ok_iff)
  from assms(2) [OF y] have v: "v = w" .
  from Cons.IH [OF rest [unfolded v]] y [unfolded v] es show ?case by (cases y) auto
qed simp

text \<open>
  A catalog loads exactly when every file in its directory is as it should be; the entries are
  those of the files.
\<close>

lemma load_catalog_iff:
  assumes "w_faults w = []" and "store_directory dir w"
    and "namespace_path (hb_catalog_root B) (rm_catalog_namespace_identity M) = Inr dir"
  shows "load_catalog_entries E B M w = (Ok es, w') \<Longrightarrow>
      (\<forall>name. node_at w (path_join dir name) \<noteq> None \<longrightarrow> utf8_valid name \<and> (\<exists>x. catalog_file E B M dir w name x)) \<and>
      set es = {e. \<exists>name. catalog_file E B M dir w name (Some e)}"
    and "(\<And>name. node_at w (path_join dir name) \<noteq> None \<Longrightarrow> utf8_valid name \<and> (\<exists>x. catalog_file E B M dir w name x)) \<Longrightarrow>
      \<exists>es. load_catalog_entries E B M w = (Ok es, w) \<and> set es = {e. \<exists>name. catalog_file E B M dir w name (Some e)}"
proof -
  let ?names = "dir_names w dir"
  let ?f = "load_catalog_file E B M dir"
  note each_file = load_catalog_file_iff [OF assms(1,2), of E B M]
  from store_directory_node [OF assms(2)] have "\<exists>n. node_at w dir = Some n \<and> n_kind n = Directory" by blast
  then have names: "list_directory_names dir 0 w = (if list_all utf8_valid ?names then (Ok ?names, w) else (Err ObjectInvalid, w))"
    using open_store_directory [OF assms(1,2)] assms(1)
    by (auto simp: list_directory_names_def and_then_def map_err_def read_dir_def faulty_no_faults)
  have entries: "load_catalog_entries E B M w = (Ok es, w') \<longleftrightarrow> list_all utf8_valid ?names \<and>
      (\<exists>es0. load_catalog_files ?f ?names w = (Ok es0, w') \<and> es = sort_key ce_identity es0)" for es w'
    using names by (auto simp: load_catalog_entries_def assms(3) and_then_Ok_iff lift_result_Ok_iff split: if_splits)
  have here: "node_at w (path_join dir name) \<noteq> None" if "catalog_file E B M dir w name x" for name x
    using that by (auto simp: catalog_file_def)
  {
    assume "load_catalog_entries E B M w = (Ok es, w')"
    then obtain es0 where utf: "list_all utf8_valid ?names" and run: "load_catalog_files ?f ?names w = (Ok es0, w')"
      and es: "set es = set es0" unfolding entries by auto
    from load_catalog_files_OkD [OF run] each_file have each: "\<forall>name \<in> set ?names. \<exists>y. catalog_file E B M dir w name y"
      and set0: "set es0 = {e. \<exists>name \<in> set ?names. catalog_file E B M dir w name (Some e)}" by auto
    from utf each set0 es here
    show "(\<forall>name. node_at w (path_join dir name) \<noteq> None \<longrightarrow> utf8_valid name \<and> (\<exists>x. catalog_file E B M dir w name x)) \<and>
      set es = {e. \<exists>name. catalog_file E B M dir w name (Some e)}" unfolding dir_names_set list_all_iff by blast
  }
  {
    assume all: "\<And>name. node_at w (path_join dir name) \<noteq> None \<Longrightarrow> utf8_valid name \<and> (\<exists>x. catalog_file E B M dir w name x)"
    then have "\<forall>name \<in> set ?names. \<exists>y. ?f name w = (Ok y, w)" using each_file unfolding dir_names_set by blast
    from bchoice [OF this] obtain x where "\<forall>name \<in> set ?names. ?f name w = (Ok (x name), w)" ..
    then have run: "load_catalog_files ?f ?names w = (Ok (List.map_filter x ?names), w)"
      by (simp add: load_catalog_files_Ok)
    have "list_all utf8_valid ?names" using all by (simp add: list_all_iff dir_names_set)
    with run have "load_catalog_entries E B M w = (Ok (sort_key ce_identity (List.map_filter x ?names)), w)"
      unfolding entries by blast
    moreover from load_catalog_files_OkD [OF run] each_file
    have "set (List.map_filter x ?names) = {e. \<exists>name \<in> set ?names. catalog_file E B M dir w name (Some e)}" by auto
    moreover have "{e. \<exists>name \<in> set ?names. catalog_file E B M dir w name (Some e)} = {e. \<exists>name. catalog_file E B M dir w name (Some e)}"
      using here unfolding dir_names_set by blast
    ultimately show "\<exists>es. load_catalog_entries E B M w = (Ok es, w) \<and> set es = {e. \<exists>name. catalog_file E B M dir w name (Some e)}"
      by (intro exI [of _ "sort_key ce_identity (List.map_filter x ?names)"] conjI) auto
  }
qed

lemma catalog_file_functional:
  "catalog_file E B M dir w name x \<Longrightarrow> catalog_file E B M dir w name y \<Longrightarrow> x = y"
  by (auto simp: catalog_file_def catalog_value_def split: if_splits)

text \<open>
  As a list: an entry is there once for every file that holds it. With one file whose entry has a
  property, selecting by that property gives this entry alone.
\<close>

lemma filter_single:
  assumes "distinct names" and "name \<in> set names" and "x name = Some e" and "Q e"
    and "\<And>name' e'. name' \<in> set names \<Longrightarrow> x name' = Some e' \<Longrightarrow> Q e' \<Longrightarrow> name' = name"
  shows "filter Q (List.map_filter x names) = [e]"
proof -
  from split_list [OF assms(2)] obtain l r where names: "names = l @ name # r" by blast
  have none: "filter Q (List.map_filter x ns) = []" if "\<forall>n \<in> set ns. \<forall>e'. x n = Some e' \<longrightarrow> \<not> Q e'" for ns
    using that by (induction ns) (auto simp: map_filter_simps split: option.splits)
  have "filter Q (List.map_filter x l) = []" "filter Q (List.map_filter x r) = []"
    using assms(1,5) unfolding names by (intro none; auto)+
  moreover have "List.map_filter x names = List.map_filter x l @ e # List.map_filter x r"
    using assms(3) by (simp add: names map_filter_def)
  ultimately show ?thesis using assms(4) by simp
qed

lemma load_catalog_selects:
  assumes "w_faults w = []" and "store_directory dir w"
    and "namespace_path (hb_catalog_root B) (rm_catalog_namespace_identity M) = Inr dir"
    and "load_catalog_entries E B M w = (Ok es, w')" and "catalog_file E B M dir w name (Some e)" and "Q e"
    and "\<And>name' e'. catalog_file E B M dir w name' (Some e') \<Longrightarrow> Q e' \<Longrightarrow> name' = name"
  shows "filter Q es = [e]"
proof -
  let ?f = "load_catalog_file E B M dir"
  from assms(4) obtain names w1 es0 where n: "list_directory_names dir 0 w = (Ok names, w1)"
    and run: "load_catalog_files ?f names w1 = (Ok es0, w')" and es: "es = sort_key ce_identity es0"
    by (auto simp: load_catalog_entries_def assms(3) and_then_Ok_iff lift_result_Ok_iff)
  from n open_store_directory [OF assms(1,2)] store_directory_node [OF assms(2)] assms(1)
  have names: "names = dir_names w dir" "w1 = w"
    by (auto simp: list_directory_names_def and_then_def map_err_def read_dir_def faulty_no_faults split: if_splits)
  note each_file = load_catalog_file_iff [OF assms(1,2), of E B M]
  from load_catalog_files_OkD [OF run [unfolded names(2)]] each_file
  have "\<forall>m \<in> set names. \<exists>y. ?f m w = (Ok y, w)" by blast
  from bchoice [OF this] obtain x where x: "\<forall>m \<in> set names. ?f m w = (Ok (x m), w)" ..
  then have "es0 = List.map_filter x names" using run load_catalog_files_Ok [of names ?f w x] by (simp add: names(2))
  moreover have "name \<in> set names" using assms(5) by (auto simp: names dir_names_set catalog_file_def)
  moreover from this x each_file assms(5) have "x name = Some e" by (metis catalog_file_functional)
  moreover have "m = name" if "m \<in> set names" "x m = Some e'" "Q e'" for m e' using that x each_file assms(7) by metis
  moreover have "distinct names" by (simp add: names dir_names_order)
  ultimately have "filter Q es0 = [e]" using assms(6) filter_single [of names name x e Q] by blast
  then show ?thesis by (simp add: es filter_sort)
qed

section \<open>Reading back after an attachment\<close>

definition evidence_canonical :: "sidecar \<Rightarrow> finalization_journal \<Rightarrow> bool" where
  "evidence_canonical sc j \<longleftrightarrow>
     is_sha256 (fj_launcher_request_identity j) \<and> is_sha256 (ec_work_unit_identity (ef_completion (fj_finalization j))) \<and>
     is_sha256 (ec_crossing_transaction_identity (ef_completion (fj_finalization j))) \<and> is_sha256 (sd_identity sc) \<and>
     is_sha256 (sf_identity (sd_signed_finalization sc)) \<and> is_sha256 (sa_identity (sd_signed_archive sc)) \<and>
     is_sha256 (case fj_protected_history_attachment j of None \<Rightarrow> fj_identity j | Some a \<Rightarrow> pa_finalization_journal_identity a)"

text \<open>
  The store of the launcher: two protected directories of root, and new files have one link. The
  codec of the entries is a round trip wherever it encodes.
\<close>

definition history_store :: "'x history_env_scheme \<Rightarrow> history_binding \<Rightarrow> repository_mapping \<Rightarrow> path \<Rightarrow> world \<Rightarrow> bool" where
  "history_store E B M dir w \<longleftrightarrow> w_euid w = 0 \<and> hb_blob_root B \<noteq> dir \<and>
     namespace_path (hb_catalog_root B) (rm_catalog_namespace_identity M) = Inr dir \<and>
     store_directory (hb_blob_root B) w \<and> store_directory dir w \<and> (\<forall>i. nlink E (0, i) = 1)"

definition entry_codec :: "'x history_env_scheme \<Rightarrow> bool" where
  "entry_codec E \<longleftrightarrow> (\<forall>e bs. entry_to_vec E e = Some bs \<longrightarrow> entry_from_slice E bs = Some e)"

definition within_limit :: "'x history_env_scheme \<Rightarrow> path \<Rightarrow> world \<Rightarrow> bool" where
  "within_limit E dir w \<longleftrightarrow>
     (\<forall>name n. node_at w (path_join dir name) = Some n \<longrightarrow> length (n_bytes n) \<le> max_history_response_bytes E)"

lemma history_store_mono: "grows N w w' \<Longrightarrow> history_store E B M dir w \<Longrightarrow> history_store E B M dir w'"
  by (auto simp: history_store_def dest: growsD(1) intro: store_directory_mono)

lemma own_file_exact:
  assumes "own_file 0 384 n" and "\<forall>i. nlink E (0, i) = 1" and "length (n_bytes n) \<le> max_history_response_bytes E"
  shows "exact_file E 0 n"
proof -
  have "(384 :: mode) AND 4095 = 384" by simp
  moreover have "nlink E (n_ino n) = 1" using assms(1,2) by (cases "n_ino n") (simp add: own_file_def)
  ultimately show ?thesis using assms by (simp add: own_file_def exact_file_def)
qed

lemma located_frozen:
  assumes "locate_archive_at E repo uid receipt crossing v = (Ok t, v')"
  shows "fz_content_identity (at_archive t) = content_identity_of E (fz_bytes (at_archive t))"
    "fz_content_identity (at_contract_snapshot t) = content_identity_of E (fz_bytes (at_contract_snapshot t))"
  using locate_archive_Ok(7) [OF assms] by (auto simp: archive_in_def snapshot_in_def)

lemma entry_value:
  assumes "locate_archive_at E repo uid receipt crossing v = (Ok t, v')" and "evidence_canonical sc j"
    and "entry_codec E" and "entry_backed E B M t sc j e w" and "identity_file_name (ce_identity e) = Inr name"
    and "entry_to_vec E e = Some bs"
  shows "catalog_value E B M (name @ ''.json'') bs (Some e)"
proof -
  obtain a s d i where e: "e = (entry_for B M t sc j a s d)\<lparr>ce_identity := i\<rparr>" and
    a: "bl_content_identity a = content_identity_of E (fz_bytes (at_archive t))" and
    s: "bl_content_identity s = content_identity_of E (fz_bytes (at_contract_snapshot t))"
  proof
    show "e = (entry_for B M t sc j (ce_archive_blob e) (ce_contract_snapshot_blob e) (ce_sidecar_blob e))\<lparr>ce_identity := ce_identity e\<rparr>"
      using assms(4) unfolding entry_backed_def by blast
    have content: "bl_content_identity b = content_identity_of E x" if "blob_held E root u x b w" for b x root u
    proof -
      from that obtain n i where "b = blob_of E x n i" unfolding blob_held_def by blast
      then show ?thesis by (simp add: blob_of_def)
    qed
    show "bl_content_identity (ce_archive_blob e) = content_identity_of E (fz_bytes (at_archive t))"
      "bl_content_identity (ce_contract_snapshot_blob e) = content_identity_of E (fz_bytes (at_contract_snapshot t))"
      using assms(4) unfolding entry_backed_def by (blast intro: content)+
  qed
  note frozen = located_frozen [OF assms(1)]
  have "entry_fits B M e" by (simp add: e entry_fits_def entry_for_def)
  moreover have "entry_objects_agree e" using frozen a s by (simp add: e entry_objects_agree_def entry_for_def source_metadata_def)
  moreover have "entry_identities_canonical e"
    using assms(2) by (simp add: e entry_identities_canonical_def entry_for_def evidence_canonical_def)
  moreover have "ce_creation_posture e = creation_posture_v1" by (simp add: e entry_for_def)
  moreover have "catalog_entry_identity E e = Inr (ce_identity e)" using assms(4) unfolding entry_backed_def by blast
  moreover have "entry_from_slice E bs = Some e" using assms(3,6) by (simp add: entry_codec_def)
  moreover have "is_sha256 (''sha256:'' @ name)"
    using assms(5) unfolding is_sha256_iff identity_file_name_iff by blast
  ultimately show ?thesis
    using stored_name_not_internal [OF assms(5)] unfolding catalog_value_def by auto
qed

lemma internal_name_ascii:
  assumes "is_internal_temporary_name name"
  shows "utf8_valid name" "CHR 0x00 \<notin> set name"
proof -
  from assms obtain x v where "strip_prefix ''.history-'' name = Some x" "strip_suffix ''.tmp'' x = Some v" "list_all lower_hex_byte v"
    by (auto simp: is_internal_temporary_name_def is_some_and_iff canonical_hex_iff [abs_def] bind_eq_Some_conv)
  then have name: "name = ''.history-'' @ v @ ''.tmp''" and v: "list_all lower_hex_byte v"
    unfolding strip_prefix_Some strip_suffix_Some by auto
  have "c \<le> CHR 0x7F" if "c \<in> set name" for c
    using that v lower_hex_byte_ascii [of c] unfolding name list_all_iff by (auto simp: less_eq_char_def)
  then show "utf8_valid name" by (rule utf8_valid_ascii)
  show "CHR 0x00 \<notin> set name" using lower_hex_no_nul [OF v] by (simp add: name)
qed

lemma entry_name_ascii:
  assumes "identity_file_name s = Inr v"
  shows "utf8_valid (v @ ''.json'')" "CHR 0x00 \<notin> set (v @ ''.json'')"
proof -
  from assms have v: "list_all lower_hex_byte v" by (simp add: identity_file_name_iff)
  have "c \<le> CHR 0x7F" if "c \<in> set (v @ ''.json'')" for c
    using that v lower_hex_byte_ascii [of c] unfolding list_all_iff by (auto simp: less_eq_char_def)
  then show "utf8_valid (v @ ''.json'')" by (rule utf8_valid_ascii)
  show "CHR 0x00 \<notin> set (v @ ''.json'')" using lower_hex_no_nul [OF v] by simp
qed

lemma catalog_file_mono: "grows N w w' \<Longrightarrow> catalog_file E B M dir w name x \<Longrightarrow> catalog_file E B M dir w' name x"
  unfolding catalog_file_def by (blast dest: growsD(2))

lemma path_join_dir: "path_join d x = path_join d' y \<Longrightarrow> d = d' \<and> x = y"
  by (simp add: path_join_def)

lemma new_catalog_file:
  assumes located: "locate_archive_at E repo uid receipt crossing v = (Ok t, v')" and "evidence_canonical sc j" and "entry_codec E"
    and store: "history_store E B M dir w" and limit: "within_limit E dir w"
    and new: "attached_file E B M dir t sc j w (path_join dir name) n" and here: "node_at w (path_join dir name) = Some n"
  shows "utf8_valid name \<and> (\<exists>x. catalog_file E B M dir w name x \<and> (\<forall>e. x = Some e \<longrightarrow> entry_backed E B M t sc j e w))"
proof -
  have u: "w_euid w = 0" "hb_blob_root B \<noteq> dir" "\<forall>i. nlink E (0, i) = 1" using store by (auto simp: history_store_def)
  have exact: "exact_file E 0 n" if "own_file 0 384 n"
    using that u limit here by (auto simp: within_limit_def intro: own_file_exact)
  from new u consider (temp) r where "own_file 0 384 n" "name = staging_name r"
    | (filed) e where "entry_backed E B M t sc j e w" "entry_file E dir 0 e (path_join dir name) n"
    unfolding attached_file_def blob_file_def staging_file_def by (auto dest!: path_join_dir)
  then show ?thesis
  proof cases
    case temp
    have "is_internal_temporary_name name" using temp by (simp add: staging_name_internal)
    with internal_name_ascii [OF this] exact temp here show ?thesis by (auto simp: catalog_file_def catalog_value_def)
  next
    case filed
    then obtain nm where nm: "identity_file_name (ce_identity e) = Inr nm" "name = nm @ ''.json''"
      and own: "own_file 0 384 n" and bs: "entry_to_vec E e = Some (n_bytes n)"
      by (auto simp: entry_file_def dest!: path_join_dir)
    note filed_value = entry_value [OF assms(1-3) filed(1) nm(1) bs]
    show ?thesis using filed_value entry_name_ascii [OF nm(1)] exact [OF own] here filed(1) nm(2)
      unfolding catalog_file_def by blast
  qed
qed

lemma catalog_after:
  assumes located: "locate_archive_at E repo uid receipt crossing v = (Ok t, v')" and "evidence_canonical sc j" and "entry_codec E"
    and store: "history_store E B M dir w" and limit: "within_limit E dir w1"
    and grown: "grows (attached_file E B M dir t sc j w1) w w1"
    and before: "load_catalog_entries E B M (calm_world w) = (Ok es, w0)"
  shows "\<exists>es1. load_catalog_entries E B M (calm_world w1) = (Ok es1, calm_world w1) \<and> set es \<subseteq> set es1 \<and>
    (\<forall>e \<in> set es1 - set es. entry_backed E B M t sc j e w1) \<and>
    (\<forall>e name bs. entry_backed E B M t sc j e w1 \<and> identity_file_name (ce_identity e) = Inr name \<and> entry_to_vec E e = Some bs \<and>
       holds (path_join dir (name @ ''.json'')) bs w1 \<longrightarrow> set es1 = insert e (set es))"
proof -
  note store1 = history_store_mono [OF grown store]
  have dirs: "store_directory dir (calm_world w)" "store_directory dir (calm_world w1)"
    "namespace_path (hb_catalog_root B) (rm_catalog_namespace_identity M) = Inr dir"
    using store store1 by (auto simp: history_store_def store_directory_def)
  have calm: "catalog_file E B M dir (calm_world x) = catalog_file E B M dir x" for x
    by (simp add: catalog_file_def fun_eq_iff)
  from load_catalog_iff(1) [OF _ dirs(1,3) before] have
    old: "node_at w (path_join dir name) \<noteq> None \<Longrightarrow> utf8_valid name \<and> (\<exists>x. catalog_file E B M dir w name x)" and
    es: "set es = {e. \<exists>name. catalog_file E B M dir w name (Some e)}" for name
    by (simp_all add: calm)
  have fresh: "utf8_valid name \<and> (\<exists>x. catalog_file E B M dir w1 name x \<and> (\<forall>e. x = Some e \<longrightarrow> entry_backed E B M t sc j e w1))"
    if "node_at w (path_join dir name) = None" "node_at w1 (path_join dir name) \<noteq> None" for name
    using that new_catalog_file [OF assms(1-3) store1 limit] growsD(3) [OF grown] by blast
  have all: "utf8_valid name \<and> (\<exists>x. catalog_file E B M dir w1 name x)" if "node_at w1 (path_join dir name) \<noteq> None" for name
    using that old [of name] fresh [of name] catalog_file_mono [OF grown] by (cases "node_at w (path_join dir name)") blast+
  from load_catalog_iff(2) [OF _ dirs(2,3), of E] all obtain es1 where
    run: "load_catalog_entries E B M (calm_world w1) = (Ok es1, calm_world w1)" and
    es1: "set es1 = {e. \<exists>name. catalog_file E B M dir w1 name (Some e)}" by (auto simp: calm)
  have sub: "set es \<subseteq> set es1" unfolding es es1 using catalog_file_mono [OF grown] by blast
  have new: "entry_backed E B M t sc j e w1" if "e \<in> set es1 - set es" for e
  proof -
    from that es1 obtain name where e: "catalog_file E B M dir w1 name (Some e)" by blast
    then have here: "node_at w1 (path_join dir name) \<noteq> None" by (auto simp: catalog_file_def)
    have "node_at w (path_join dir name) = None"
    proof (rule ccontr)
      assume "node_at w (path_join dir name) \<noteq> None"
      with old obtain x where x: "catalog_file E B M dir w name x" by blast
      with catalog_file_functional [OF catalog_file_mono [OF grown x] e] es that show False by blast
    qed
    from fresh [OF this here] e catalog_file_functional show ?thesis by blast
  qed
  have "set es1 = insert e (set es)" if "entry_backed E B M t sc j e w1" "identity_file_name (ce_identity e) = Inr name"
    "entry_to_vec E e = Some bs" "holds (path_join dir (name @ ''.json'')) bs w1" for e name bs
  proof -
    from that(4) all obtain x where "catalog_file E B M dir w1 (name @ ''.json'') x" by blast
    with entry_value [OF assms(1-3) that(1-3)] that(4) have "catalog_file E B M dir w1 (name @ ''.json'') (Some e)"
      by (auto simp: catalog_file_def)
    with es1 have "e \<in> set es1" by blast
    with new sub entry_backed_unique [OF that(1)] show ?thesis by blast
  qed
  with run sub new show ?thesis by blast
qed

lemma read_blob_held:
  assumes "blob_held E (hb_blob_root B) 0 bs b w" and "store_directory (hb_blob_root B) w"
  shows "read_blob E B b (calm_world w) = (Ok bs, calm_world w)"
proof -
  from assms(1) obtain name n i where name: "identity_file_name (content_identity_of E bs) = Inr name"
    and n: "node_at w (path_join (hb_blob_root B) name) = Some n" "exact_file E 0 n" "n_bytes n = bs"
    and b: "b = blob_of E bs n i" "blob_identity E b = Inr i"
    unfolding blob_held_def by (metis blob_of_def history_blob.select_convs(2))
  have dir: "store_directory (hb_blob_root B) (calm_world w)" using assms(2) by (simp add: store_directory_def)
  have "read_exact_file E (hb_blob_root B) name 0 (Some (content_identity_of E bs)) (calm_world w) = (Ok (bs, n), calm_world w)"
    using read_found [OF _ dir, of name n E "Some (content_identity_of E bs)"] n stored_name_no_nul [OF name] by simp
  with name n b show ?thesis
    by (simp add: read_blob_def and_then_def blob_of_def metadata_of_def)
qed

text \<open>The entry of an attachment that succeeded: it is backed, filed, and its blobs can be read.\<close>

lemma attached_entry:
  assumes "fj_archive_request j = Some request"
    and "history_select_mapping B (ar_authority_id request) (fj_working_directory j) = Inr M"
    and "history_store E B M dir w" and "attach_protected_history_at P E B t sc j rnd w = (Ok a, w1)"
  obtains e side name bs where "a = attachment_of e" "entry_backed E B M t sc j e w1" "sidecar_to_vec E sc = Some side"
    "identity_file_name (ce_identity e) = Inr name" "entry_to_vec E e = Some bs" "holds (path_join dir (name @ ''.json'')) bs w1"
    "read_blob E B (ce_archive_blob e) (calm_world w1) = (Ok (fz_bytes (at_archive t)), calm_world w1)"
    "read_blob E B (ce_contract_snapshot_blob e) (calm_world w1) = (Ok (fz_bytes (at_contract_snapshot t)), calm_world w1)"
    "read_blob E B (ce_sidecar_blob e) (calm_world w1) = (Ok side, calm_world w1)"
proof -
  from assms(3) have ns: "namespace_path (hb_catalog_root B) (rm_catalog_namespace_identity M) = Inr dir"
    by (simp add: history_store_def)
  note run = attach_grows [OF assms(1,2) ns assms(4)]
  then have "store_directory (hb_blob_root B) w1"
    using history_store_mono [OF _ assms(3)] by (auto simp: history_store_def)
  note blob = read_blob_held [OF _ this]
  from run obtain e name bs where e: "entry_backed E B M t sc j e w1" "a = attachment_of e"
    "identity_file_name (ce_identity e) = Inr name" "entry_to_vec E e = Some bs" "holds (path_join dir (name @ ''.json'')) bs w1"
    by blast
  from e(1) obtain side where "sidecar_to_vec E sc = Some side"
    "blob_held E (hb_blob_root B) 0 (fz_bytes (at_archive t)) (ce_archive_blob e) w1"
    "blob_held E (hb_blob_root B) 0 (fz_bytes (at_contract_snapshot t)) (ce_contract_snapshot_blob e) w1"
    "blob_held E (hb_blob_root B) 0 side (ce_sidecar_blob e) w1" unfolding entry_backed_def by blast
  from that [OF e(2,1) this(1) e(3-5) blob [OF this(2)] blob [OF this(3)] blob [OF this(4)]] show thesis .
qed

text \<open>
  C38. What has been attached can be read back, and an interrupted attachment does no harm. Take a
  catalog that loads, and an attachment of a located archive under any faults, also one that was
  killed. Afterwards the catalog still loads, has all its entries, and an entry it did not have is
  that of the attachment, with its three blobs in the store. If the attachment succeeded, the
  catalog has gained exactly the entry its answer names, and reading the blobs of that entry gives the
  bytes of the archive, of the contract snapshot and of the sidecar.
\<close>

theorem attached_reads_back:
  assumes "locate_archive_at E repo uid receipt crossing v = (Ok t, v')" and "evidence_canonical sc j" and "entry_codec E"
    and "history_store E B M dir w" and "within_limit E dir w1"
    and "fj_archive_request j = Some request"
    and "history_select_mapping B (ar_authority_id request) (fj_working_directory j) = Inr M"
    and "load_catalog_entries E B M (calm_world w) = (Ok es, w0)"
    and "attach_protected_history_at P E B t sc j rnd w = (r, w1)"
  shows "\<exists>es1. load_catalog_entries E B M (calm_world w1) = (Ok es1, calm_world w1) \<and> set es \<subseteq> set es1 \<and>
    (\<forall>e \<in> set es1 - set es. entry_backed E B M t sc j e w1) \<and>
    (\<forall>a. r = Ok a \<longrightarrow> (\<exists>e side. a = attachment_of e \<and> set es1 = insert e (set es) \<and> sidecar_to_vec E sc = Some side \<and>
       read_blob E B (ce_archive_blob e) (calm_world w1) = (Ok (fz_bytes (at_archive t)), calm_world w1) \<and>
       read_blob E B (ce_contract_snapshot_blob e) (calm_world w1) = (Ok (fz_bytes (at_contract_snapshot t)), calm_world w1) \<and>
       read_blob E B (ce_sidecar_blob e) (calm_world w1) = (Ok side, calm_world w1)))"
proof -
  from assms(4) have ns: "namespace_path (hb_catalog_root B) (rm_catalog_namespace_identity M) = Inr dir"
    by (simp add: history_store_def)
  from attach_grows [OF assms(6,7) ns assms(9)] have grown: "grows (attached_file E B M dir t sc j w1) w w1" ..
  from catalog_after [OF assms(1-5) grown assms(8)] obtain es1 where
    load: "load_catalog_entries E B M (calm_world w1) = (Ok es1, calm_world w1)" "set es \<subseteq> set es1"
    "\<forall>e \<in> set es1 - set es. entry_backed E B M t sc j e w1"
    and filed: "\<And>e name bs. entry_backed E B M t sc j e w1 \<Longrightarrow> identity_file_name (ce_identity e) = Inr name \<Longrightarrow>
      entry_to_vec E e = Some bs \<Longrightarrow> holds (path_join dir (name @ ''.json'')) bs w1 \<Longrightarrow> set es1 = insert e (set es)" by blast
  have "\<exists>e side. a = attachment_of e \<and> set es1 = insert e (set es) \<and> sidecar_to_vec E sc = Some side \<and>
       read_blob E B (ce_archive_blob e) (calm_world w1) = (Ok (fz_bytes (at_archive t)), calm_world w1) \<and>
       read_blob E B (ce_contract_snapshot_blob e) (calm_world w1) = (Ok (fz_bytes (at_contract_snapshot t)), calm_world w1) \<and>
       read_blob E B (ce_sidecar_blob e) (calm_world w1) = (Ok side, calm_world w1)" if "r = Ok a" for a
    by (rule attached_entry [OF assms(6,7,4) assms(9) [unfolded that]]) (use filed in blast)
  with load show ?thesis by blast
qed

section \<open>Repeating an attachment\<close>

text \<open>One publication without faults: the name is free and so is the staging name, or it already holds the bytes.\<close>

lemma persist_exact_present:
  assumes "w_faults w = []" and "store_directory d w" and "CHR 0x00 \<notin> set name"
    and "node_at w (path_join d name) = Some n" and "exact_file E 0 n"
  shows "persist_exact_file E d name (n_bytes n) 0 rnd w = (Ok (), w)"
proof -
  have "n_kind n \<noteq> Symlink" using assms(5) by (simp add: exact_file_def)
  then have "sync_existing_file_at d name w = (Ok (), w)"
    using assms by (simp add: sync_existing_file_at_def c_string_def and_then_def map_err_def open_nofollow_def sync_all_def faulty_no_faults)
  with open_store_directory [OF assms(1,2)] try_read_found [OF assms(1,4,5,3), of None] show ?thesis
    by (simp add: persist_exact_file_def and_then_def)
qed

lemma stage_and_move:
  assumes "w_faults w = []" and "node_at w d = Some x" and "n_kind x = Directory"
    and "tmp = path_join d a" and "dst = path_join d b" and "a \<noteq> b" and "node_at w tmp = None" and "node_at w dst = None"
  shows "\<exists>w'. and_then (map_err f (create_new tmp m)) (\<lambda>_.
      afterwards (and_then (map_err g (write_chunks tmp [bs])) (\<lambda>_. move_or tmp dst present failed (map_err h sync_all)))
        (remove_file tmp)) w = (Ok (), w') \<and>
    w_faults w' = [] \<and> w_euid w' = w_euid w \<and> node_at w' = (node_at w)(dst \<mapsto> file_node w m bs)"
proof -
  define w1 where "w1 = put_node tmp (file_node w m []) w"
  define w2 where "w2 = put_node tmp (file_node w m bs) w1"
  define w3 where "w3 = del_node tmp (put_node dst (file_node w m bs) w2)"
  have ne: "tmp \<noteq> dst" "butlast tmp = d" using assms(4-6) by (simp_all add: path_join_def)
  have f: "w_faults w1 = []" "w_faults w2 = []" "w_faults w3 = []" using assms(1) by (simp_all add: w1_def w2_def w3_def)
  have c: "create_new tmp m w = (Ok (), w1)"
    using assms ne by (simp add: create_new_def faulty_no_faults w1_def new_node_file_node)
  have wr: "write_chunks tmp [bs] w1 = (Ok (), w2)"
    using f by (simp add: write_all_def sync_all_def faulty_no_faults and_then_def append_bytes_def w2_def w1_def)
  have mv: "rename_noreplace tmp dst w2 = (Ok (), w3)"
    using f assms ne by (simp add: rename_noreplace_def faulty_no_faults w3_def) (simp add: w2_def w1_def)
  have nodes: "node_at w3 = (node_at w)(dst \<mapsto> file_node w m bs)"
    using ne assms(7) by (auto simp: w3_def w2_def w1_def fun_eq_iff)
  have rm: "remove_file tmp w3 = (Err NotFound, w3)"
    using f nodes ne assms(7) by (simp add: remove_file_def faulty_no_faults)
  have "w_euid w3 = w_euid w" by (simp add: w1_def w2_def w3_def)
  with c wr mv rm f nodes show ?thesis
    by (simp add: and_then_def map_err_def afterwards_def move_or_def match_result_def sync_all_def faulty_no_faults)
qed

lemma persist_exact_fresh:
  assumes "w_faults w = []" and "store_directory d w" and "CHR 0x00 \<notin> set name" and "\<not> is_internal_temporary_name name"
    and "node_at w (path_join d name) = None" and "node_at w (path_join d (staging_name r)) = None"
  shows "\<exists>w'. persist_exact_file E d name bs 0 (Some r) w = (Ok (), w') \<and> w_faults w' = [] \<and> w_euid w' = w_euid w \<and>
    node_at w' = (node_at w)(path_join d name \<mapsto> file_node w 384 bs)"
proof -
  from store_directory_node [OF assms(2)] obtain x where x: "node_at w d = Some x" "n_kind x = Directory" by blast
  have "staging_name r \<noteq> name" using assms(4) staging_name_internal by metis
  from stage_and_move [OF assms(1) x refl refl this assms(6,5)]
  show ?thesis
    using open_store_directory [OF assms(1,2)] try_read_absent [OF assms(1,5,3), of E 0 None]
    by (simp add: persist_exact_file_def and_then_def [where m = "open_protected_directory _ _"]
        and_then_def [where m = "try_read_exact_file_at _ _ _ _ _"] Let_def)
qed

text \<open>\<open>settled\<close>: the name is free, or holds exactly the bytes.\<close>

definition settled :: "'x history_env_scheme \<Rightarrow> path \<Rightarrow> string \<Rightarrow> world \<Rightarrow> bool" where
  "settled E p bs w \<longleftrightarrow> node_at w p = None \<or> (\<exists>n. node_at w p = Some n \<and> exact_file E 0 n \<and> n_bytes n = bs)"

lemma persist_exact_runs:
  assumes "w_faults w = []" and "store_directory d w" and "w_euid w = 0" and "\<forall>i. nlink E (0, i) = 1"
    and "length bs \<le> max_history_response_bytes E"
    and "CHR 0x00 \<notin> set name" and "\<not> is_internal_temporary_name name"
    and "settled E (path_join d name) bs w" and "node_at w (path_join d (staging_name r)) = None"
  shows "\<exists>w' n. persist_exact_file E d name bs 0 (Some r) w = (Ok (), w') \<and> w_faults w' = [] \<and> w_euid w' = 0 \<and>
    node_at w' = (node_at w)(path_join d name \<mapsto> n) \<and> exact_file E 0 n \<and> n_bytes n = bs"
proof (cases "node_at w (path_join d name)")
  case None
  have "exact_file E 0 (file_node w 384 bs)" using assms(3-5) by (intro own_file_exact) simp_all
  with persist_exact_fresh [OF assms(1,2,6,7) None assms(9), of E bs] assms(3) show ?thesis by fastforce
next
  case (Some n)
  with assms(8) have n: "exact_file E 0 n" "n_bytes n = bs" by (auto simp: settled_def)
  have "node_at w = (node_at w)(path_join d name \<mapsto> n)" using Some by (simp add: fun_upd_idem)
  with persist_exact_present [OF assms(1,2,6) Some n(1), of "Some r"] n assms(1,3) show ?thesis by blast
qed

lemma persist_blob_runs:
  assumes "w_faults w = []" and "store_directory root w" and "w_euid w = 0" and "\<forall>i. nlink E (0, i) = 1"
    and "length bs \<le> max_history_response_bytes E" and name: "identity_file_name (content_identity_of E bs) = Inr name"
    and "settled E (path_join root name) bs w" and "node_at w (path_join root (staging_name r)) = None"
    and total: "\<And>b. \<exists>i. blob_identity E b = Inr i"
  shows "\<exists>b w' n. persist_blob E root bs 0 (Some r) w = (Ok b, w') \<and> w_faults w' = [] \<and> w_euid w' = 0 \<and>
    node_at w' = (node_at w)(path_join root name \<mapsto> n) \<and> exact_file E 0 n \<and> n_bytes n = bs"
proof -
  have nm: "CHR 0x00 \<notin> set name" "\<not> is_internal_temporary_name name"
    using stored_name_no_nul [OF name] stored_name_not_internal [OF name, of "[]"] by simp_all
  from persist_exact_runs [OF assms(1-5) nm assms(7,8)] obtain w' n where
    p: "persist_exact_file E root name bs 0 (Some r) w = (Ok (), w')" and w': "w_faults w' = []" "w_euid w' = 0"
    and nodes: "node_at w' = (node_at w)(path_join root name \<mapsto> n)" and n: "exact_file E 0 n" "n_bytes n = bs" by blast
  have "put_at (path_join root (staging_name r)) (path_join root name) 384 bs w True w'"
    using ensuresD [OF persist_exact_file_puts [OF nm(2)] p] by simp
  then have "store_directory root w'" using assms(2) by (auto simp: put_at_def intro: store_directory_mono)
  from read_found [OF w'(1) this, of name n E "Some (content_identity_of E bs)"] nodes n nm
  have "verified_file_metadata E root name 0 (Some (content_identity_of E bs)) w' = (Ok (metadata_of E bs n), w')"
    by (simp add: verified_file_metadata_def and_then_def)
  moreover from total obtain i where "blob_identity E \<lparr>bl_schema_version = 1, bl_identity = [], bl_content_identity = content_identity_of E bs,
          bl_size = length bs, bl_metadata = metadata_of E bs n\<rparr> = Inr i" by blast
  ultimately have "\<exists>b. persist_blob E root bs 0 (Some r) w = (Ok b, w')"
    using p name by (simp add: persist_blob_def Let_def and_then_def)
  with w' nodes n show ?thesis by blast
qed

text \<open>
  The contents of an attachment fit the store: within the limit, with canonical and different
  hashes, and each name free or holding the content.
\<close>

definition contents_settled :: "'x history_env_scheme \<Rightarrow> path \<Rightarrow> string set \<Rightarrow> world \<Rightarrow> bool" where
  "contents_settled E root C w \<longleftrightarrow>
     (\<forall>bs \<in> C. length bs \<le> max_history_response_bytes E \<and>
        (\<exists>name. identity_file_name (content_identity_of E bs) = Inr name \<and> settled E (path_join root name) bs w)) \<and>
     (\<forall>x \<in> C. \<forall>y \<in> C. sha256_hex E x = sha256_hex E y \<longrightarrow> x = y)"

definition calm_store ::
  "'x history_env_scheme \<Rightarrow> path \<Rightarrow> string set \<Rightarrow> random_bytes set \<Rightarrow> world \<Rightarrow> world \<Rightarrow> bool" where
  "calm_store E root C R w0 w \<longleftrightarrow> w_faults w = [] \<and> w_euid w = 0 \<and> store_directory root w \<and> contents_settled E root C w \<and>
     (\<forall>r \<in> R. node_at w (path_join root (staging_name r)) = None) \<and>
     (\<forall>q. (\<forall>name. q \<noteq> path_join root name) \<longrightarrow> node_at w q = node_at w0 q)"

lemma contents_settled_put:
  assumes "contents_settled E root C w" and "bs \<in> C" and "identity_file_name (content_identity_of E bs) = Inr name"
    and "node_at w' = (node_at w)(path_join root name \<mapsto> n)" and "exact_file E 0 n" and "n_bytes n = bs"
  shows "contents_settled E root C w'"
proof -
  have "settled E (path_join root nm) x w'"
    if x: "x \<in> C" and nm: "identity_file_name (content_identity_of E x) = Inr nm" "settled E (path_join root nm) x w" for x nm
  proof (cases "nm = name")
    case True
    with nm(1) assms(3) have "sha256_hex E x = sha256_hex E bs" by (simp add: identity_file_name_iff)
    with assms(1,2) x have "x = bs" by (simp add: contents_settled_def)
    with True assms(4-6) show ?thesis by (simp add: settled_def)
  next
    case False
    with assms(4) nm(2) show ?thesis by (simp add: settled_def)
  qed
  with assms(1) show ?thesis unfolding contents_settled_def by blast
qed

lemma blob_step:
  assumes "calm_store E root C R w0 w" and "bs \<in> C" and "r \<in> R" and "\<forall>i. nlink E (0, i) = 1" and "\<And>b. \<exists>i. blob_identity E b = Inr i"
  shows "\<exists>b w'. persist_blob E root bs 0 (Some r) w = (Ok b, w') \<and> calm_store E root C R w0 w'"
proof -
  from assms(1,2) obtain name where name: "identity_file_name (content_identity_of E bs) = Inr name"
    and bs: "settled E (path_join root name) bs w" "length bs \<le> max_history_response_bytes E"
    by (auto simp: calm_store_def contents_settled_def)
  from assms(1,3) have w: "w_faults w = []" "store_directory root w" "w_euid w = 0"
    "node_at w (path_join root (staging_name r)) = None" by (auto simp: calm_store_def)
  from persist_blob_runs [OF w(1-3) assms(4) bs(2) name bs(1) w(4) assms(5)] obtain b w' n where
    run: "persist_blob E root bs 0 (Some r) w = (Ok b, w')" and w': "w_faults w' = []" "w_euid w' = 0"
    and nodes: "node_at w' = (node_at w)(path_join root name \<mapsto> n)" and n: "exact_file E 0 n" "n_bytes n = bs" by blast
  have "store_directory root w'" using persist_blob_grows [OF run] w(2) by (auto intro: store_directory_mono)
  moreover have "contents_settled E root C w'"
    using assms(1,2) name nodes n by (auto simp: calm_store_def intro: contents_settled_put)
  moreover have "staging_name r' \<noteq> name" for r' using stored_name_not_temporary [OF name, of r' "[]"] by simp
  then have "\<forall>r \<in> R. node_at w' (path_join root (staging_name r)) = None"
    using assms(1) nodes by (simp add: calm_store_def)
  moreover have "node_at w' q = node_at w0 q" if "\<forall>name. q \<noteq> path_join root name" for q
    using that nodes assms(1) by (simp add: calm_store_def)
  ultimately show ?thesis using run w' unfolding calm_store_def by blast
qed

definition fresh_names :: "history_binding \<Rightarrow> path \<Rightarrow> attach_random \<Rightarrow> world \<Rightarrow> bool" where
  "fresh_names B dir rnd w \<longleftrightarrow>
     (\<forall>x \<in> {rnd_archive rnd, rnd_snapshot rnd, rnd_sidecar rnd}.
        is_some_and (\<lambda>r. node_at w (path_join (hb_blob_root B) (staging_name r)) = None) x) \<and>
     is_some_and (\<lambda>r. node_at w (path_join dir (staging_name r)) = None) (rnd_entry rnd)"

lemma persist_blobs_run:
  assumes "calm_store E (hb_blob_root B) C {r1, r2, r3} w0 w"
    and "fz_bytes (at_archive t) \<in> C" "fz_bytes (at_contract_snapshot t) \<in> C" "side \<in> C"
    and "rnd_archive rnd = Some r1" "rnd_snapshot rnd = Some r2" "rnd_sidecar rnd = Some r3"
    and links: "\<forall>i. nlink E (0, i) = 1" and total: "\<And>b. \<exists>i. blob_identity E b = Inr i"
  shows "\<exists>x w'. persist_blobs E B t side rnd w = (Ok x, w') \<and> calm_store E (hb_blob_root B) C {r1, r2, r3} w0 w'"
proof -
  have r: "r1 \<in> {r1, r2, r3}" "r2 \<in> {r1, r2, r3}" "r3 \<in> {r1, r2, r3}" by simp_all
  from blob_step [OF assms(1,2) r(1) links total] obtain a w1 where
    a: "persist_blob E (hb_blob_root B) (fz_bytes (at_archive t)) 0 (Some r1) w = (Ok a, w1)" and
    w1: "calm_store E (hb_blob_root B) C {r1, r2, r3} w0 w1" by blast
  from blob_step [OF w1 assms(3) r(2) links total] obtain s w2 where
    s: "persist_blob E (hb_blob_root B) (fz_bytes (at_contract_snapshot t)) 0 (Some r2) w1 = (Ok s, w2)" and
    w2: "calm_store E (hb_blob_root B) C {r1, r2, r3} w0 w2" by blast
  from blob_step [OF w2 assms(4) r(3) links total] obtain d w3 where
    d: "persist_blob E (hb_blob_root B) side 0 (Some r3) w2 = (Ok d, w3)" and
    w3: "calm_store E (hb_blob_root B) C {r1, r2, r3} w0 w3" by blast
  from a s d w3 show ?thesis by (simp add: persist_blobs_def assms(5-7) and_then_def)
qed

text \<open>Identities and encodings exist, as they do for every value that can be written as JSON.\<close>

definition identities_total :: "'x history_env_scheme \<Rightarrow> bool" where
  "identities_total E \<longleftrightarrow> (\<forall>b. \<exists>i. blob_identity E b = Inr i) \<and>
     (\<forall>e. \<exists>i. catalog_entry_identity E e = Inr i \<and> is_sha256 i) \<and> (\<forall>e. entry_to_vec E e \<noteq> None)"

text \<open>The catalog has no file yet under a name this attachment could give its entry.\<close>

definition unfiled ::
  "'x history_env_scheme \<Rightarrow> history_binding \<Rightarrow> repository_mapping \<Rightarrow> path \<Rightarrow> archive_target \<Rightarrow> sidecar \<Rightarrow> finalization_journal \<Rightarrow>
   world \<Rightarrow> bool" where
  "unfiled E B M dir t sc j w \<longleftrightarrow>
     (\<forall>a s d i name. catalog_entry_identity E (entry_for B M t sc j a s d) = Inr i \<and> identity_file_name i = Inr name \<longrightarrow>
        node_at w (path_join dir (name @ ''.json'')) = None)"

lemma blobs_settled_after:
  assumes "contents_settled E (hb_blob_root B) (contents_of E t sc) w" and "history_store E B M dir w"
    and "grows (attached_file E B M dir t sc j w1) w w1"
  shows "contents_settled E (hb_blob_root B) (contents_of E t sc) w1"
proof -
  have u: "w_euid w1 = 0" "hb_blob_root B \<noteq> dir" "\<forall>i. nlink E (0, i) = 1"
    using history_store_mono [OF assms(3,2)] by (auto simp: history_store_def)
  have "settled E (path_join (hb_blob_root B) name) bs w1"
    if bs: "bs \<in> contents_of E t sc" "identity_file_name (content_identity_of E bs) = Inr name"
      "settled E (path_join (hb_blob_root B) name) bs w" for bs name
  proof (cases "node_at w (path_join (hb_blob_root B) name) = None \<and> node_at w1 (path_join (hb_blob_root B) name) \<noteq> None")
    case True
    then obtain n where n: "node_at w1 (path_join (hb_blob_root B) name) = Some n"
      "attached_file E B M dir t sc j w1 (path_join (hb_blob_root B) name) n" using growsD(3) [OF assms(3)] by blast
    have "staging_name r \<noteq> name" for r using stored_name_not_temporary [OF bs(2), of r "[]"] by simp
    with n(2) u have "blob_file E (hb_blob_root B) 0 (contents_of E t sc) (path_join (hb_blob_root B) name) n"
      unfolding attached_file_def staging_file_def entry_file_def by (auto dest!: path_join_dir)
    then have own: "own_file 0 384 n" and C: "n_bytes n \<in> contents_of E t sc"
      and id: "identity_file_name (content_identity_of E (n_bytes n)) = Inr name"
      by (auto simp: blob_file_def dest!: path_join_dir)
    from id bs(2) have "sha256_hex E (n_bytes n) = sha256_hex E bs" by (simp add: identity_file_name_iff)
    with assms(1) C bs(1) have "n_bytes n = bs" "length (n_bytes n) \<le> max_history_response_bytes E"
      by (auto simp: contents_settled_def)
    with own_file_exact [OF own u(3)] n(1) show ?thesis by (simp add: settled_def)
  next
    case False
    with bs(3) growsD(2) [OF assms(3)] show ?thesis unfolding settled_def by (metis not_None_eq)
  qed
  with assms(1) show ?thesis unfolding contents_settled_def by blast
qed

lemma file_entry_runs:
  assumes "calm_store E (hb_blob_root B) (contents_of E t sc) R w1 w2" and "grows N w1 w2" and "history_store E B M dir w"
    and "grows (attached_file E B M dir t sc j w1) w w1" and "unfiled E B M dir t sc j w" and "within_limit E dir w1"
    and "identities_total E" and "sidecar_to_vec E sc = Some side" and "node_at w1 (path_join dir (staging_name r)) = None"
    and "blob_held E (hb_blob_root B) 0 (fz_bytes (at_archive t)) a w2"
    and "blob_held E (hb_blob_root B) 0 (fz_bytes (at_contract_snapshot t)) s w2"
    and "blob_held E (hb_blob_root B) 0 side d w2"
  shows "\<exists>x w3. file_entry E B M t sc j (Some r) (a, s, d) w2 = (Ok x, w3)"
proof -
  from assms(7) obtain i where i: "catalog_entry_identity E (entry_for B M t sc j a s d) = Inr i" "is_sha256 i"
    unfolding identities_total_def by blast
  then obtain name where name: "identity_file_name i = Inr name" by (auto simp: is_sha256_iff)
  define e where "e = (entry_for B M t sc j a s d)\<lparr>ce_identity := i\<rparr>"
  from assms(7) obtain bs where bs: "entry_to_vec E e = Some bs" unfolding identities_total_def by blast
  have backed: "entry_backed E B M t sc j e w2"
    using assms(8,10-12) i unfolding entry_backed_def by (simp add: e_def entry_for_def catalog_entry_identity_def)
  note store1 = history_store_mono [OF assms(4,3)]
  have dir: "hb_blob_root B \<noteq> dir" "store_directory dir w2" "w_euid w1 = 0" "\<forall>i. nlink E (0, i) = 1"
    using store1 store_directory_mono [OF assms(2)] by (auto simp: history_store_def)
  have frame: "node_at w2 (path_join dir x) = node_at w1 (path_join dir x)" for x
  proof -
    have "path_join dir x \<noteq> path_join (hb_blob_root B) nm" for nm using dir(1) path_join_dir by metis
    with assms(1) show ?thesis unfolding calm_store_def by blast
  qed
  have nm: "CHR 0x00 \<notin> set (name @ ''.json'')" "\<not> is_internal_temporary_name (name @ ''.json'')"
    using entry_name_ascii [OF name] stored_name_not_internal [OF name] by simp_all
  have calm: "w_faults w2 = []" using assms(1) by (simp add: calm_store_def)
  have "\<exists>w3. persist_exact_file E dir (name @ ''.json'') bs 0 (Some r) w2 = (Ok (), w3)"
  proof (cases "node_at w1 (path_join dir (name @ ''.json''))")
    case None
    then have "node_at w2 (path_join dir (name @ ''.json'')) = None" "node_at w2 (path_join dir (staging_name r)) = None"
      using frame assms(9) by simp_all
    from persist_exact_fresh [OF calm dir(2) nm this] show ?thesis by blast
  next
    case (Some n)
    have "node_at w (path_join dir (name @ ''.json'')) = None"
      using assms(5) i(1) name unfolding unfiled_def by blast
    from growsD(3) [OF assms(4) this Some] dir(1,3)
    have "staging_file dir 0 (path_join dir (name @ ''.json'')) n \<or>
        (\<exists>e1. entry_backed E B M t sc j e1 w1 \<and> entry_file E dir 0 e1 (path_join dir (name @ ''.json'')) n)"
      unfolding attached_file_def blob_file_def by (auto simp: staging_file_def dest!: path_join_dir)
    with nm(2) staging_name_internal obtain e1 where e1: "entry_backed E B M t sc j e1 w1"
      and f: "entry_file E dir 0 e1 (path_join dir (name @ ''.json'')) n"
      unfolding staging_file_def by (metis path_join_dir)
    from entry_backed_unique [OF entry_backed_mono [OF assms(2) e1] backed] f bs
    have n: "n_bytes n = bs" "own_file 0 384 n" by (auto simp: entry_file_def)
    have "exact_file E 0 n" using own_file_exact [OF n(2) dir(4)] assms(6) Some by (auto simp: within_limit_def)
    from persist_exact_present [OF calm dir(2) nm(1) _ this] Some frame n(1) show ?thesis by auto
  qed
  then obtain w3 where "persist_exact_file E dir (name @ ''.json'') bs 0 (Some r) w2 = (Ok (), w3)" ..
  moreover have "namespace_path (hb_catalog_root B) (rm_catalog_namespace_identity M) = Inr dir"
    using assms(3) by (simp add: history_store_def)
  moreover have "ce_identity e = i" by (simp add: e_def)
  ultimately have "persist_catalog_entry E B M e 0 (Some r) w2 = (Ok (), w3)"
    using name bs by (simp add: persist_catalog_entry_def and_then_def)
  then show ?thesis using i by (simp add: file_entry_def Let_def and_then_def e_def [symmetric])
qed

lemma attachment_reruns:
  assumes "launcher_finalization_archive_sidecar_v1_identity P sc = Some (sd_identity sc)"
    and "sa_receipt_archive_identity (sd_signed_archive sc) = fz_content_identity (at_archive t)"
    and "sidecar_to_vec E sc = Some side" and "identities_total E" and "history_store E B M dir w"
    and "contents_settled E (hb_blob_root B) (contents_of E t sc) w" and "unfiled E B M dir t sc j w"
    and "fj_archive_request j = Some request"
    and "history_select_mapping B (ar_authority_id request) (fj_working_directory j) = Inr M"
    and "attach_protected_history_at P E B t sc j rnd w = (r, w1)"
    and "within_limit E dir w1" and "fresh_names B dir rnd' w1"
  shows "\<exists>y w3. attach_protected_history_at P E B t sc j rnd' (calm_world w1) = (Ok y, w3)"
proof -
  from assms(5) have ns: "namespace_path (hb_catalog_root B) (rm_catalog_namespace_identity M) = Inr dir"
    and links: "\<forall>i. nlink E (0, i) = 1" by (auto simp: history_store_def)
  have grown: "grows (attached_file E B M dir t sc j w1) w w1" using attach_grows [OF assms(8,9) ns assms(10)] ..
  note store1 = history_store_mono [OF grown assms(5)]
  from assms(12) obtain r1 r2 r3 r4 where rnd: "rnd_archive rnd' = Some r1" "rnd_snapshot rnd' = Some r2" "rnd_sidecar rnd' = Some r3"
      "rnd_entry rnd' = Some r4"
    and free: "\<forall>r \<in> {r1, r2, r3}. node_at w1 (path_join (hb_blob_root B) (staging_name r)) = None"
      "node_at w1 (path_join dir (staging_name r4)) = None"
    by (auto simp: fresh_names_def is_some_and_iff)
  have "calm_store E (hb_blob_root B) (contents_of E t sc) {r1, r2, r3} w1 (calm_world w1)"
    using store1 blobs_settled_after [OF assms(6,5) grown] free(1)
    by (auto simp: calm_store_def history_store_def store_directory_def contents_settled_def settled_def)
  moreover have "fz_bytes (at_archive t) \<in> contents_of E t sc" "fz_bytes (at_contract_snapshot t) \<in> contents_of E t sc"
    "side \<in> contents_of E t sc" using assms(3) by (simp_all add: contents_of_def)
  moreover have "\<exists>i. blob_identity E b = Inr i" for b using assms(4) by (simp add: identities_total_def)
  ultimately obtain x w2 where blobs: "persist_blobs E B t side rnd' (calm_world w1) = (Ok x, w2)"
    and w2: "calm_store E (hb_blob_root B) (contents_of E t sc) {r1, r2, r3} w1 w2"
    using persist_blobs_run [OF _ _ _ _ rnd(1-3) links] by blast
  obtain a s d where x: "x = (a, s, d)" by (cases x)
  note held = ensuresD [OF persist_blobs_grows [OF assms(3)] blobs, unfolded x]
  then have g2: "grows (blob_store_file E (hb_blob_root B) (w_euid w1) (contents_of E t sc)) w1 w2" by simp
  from file_entry_runs [OF w2 g2 assms(5) grown assms(7,11,4,3) free(2)] held obtain y w3 where
    "file_entry E B M t sc j (Some r4) (a, s, d) w2 = (Ok y, w3)" by blast
  with blobs x rnd(4) assms(1-3) have "attach_protected_history_at P E B t sc j rnd' (calm_world w1) = (Ok y, w3)"
    by (simp add: attach_steps [OF assms(8,9)] and_then_def)
  then show ?thesis by blast
qed

text \<open>
  C39. An attachment can always be repeated. After a first attempt under any faults, also one that was
  killed, and with unused random names, a second attempt without faults succeeds. It gives the
  answer the first one gave, if that one gave any, and of all files the two attempts have put into
  the catalog, staging files apart, there is one: the entry the answer names, with its blobs in the
  store.
\<close>

theorem attachment_repeatable:
  assumes "launcher_finalization_archive_sidecar_v1_identity P sc = Some (sd_identity sc)"
    and "sa_receipt_archive_identity (sd_signed_archive sc) = fz_content_identity (at_archive t)"
    and "sidecar_to_vec E sc = Some side" and "identities_total E" and "history_store E B M dir w"
    and "contents_settled E (hb_blob_root B) (contents_of E t sc) w" and "unfiled E B M dir t sc j w"
    and "fj_archive_request j = Some request"
    and "history_select_mapping B (ar_authority_id request) (fj_working_directory j) = Inr M"
    and "attach_protected_history_at P E B t sc j rnd w = (r, w1)"
    and "within_limit E dir w1" and "fresh_names B dir rnd' w1"
  shows "\<exists>e w2. attach_protected_history_at P E B t sc j rnd' (calm_world w1) = (Ok (attachment_of e), w2) \<and>
    entry_backed E B M t sc j e w2 \<and> (\<forall>a. r = Ok a \<longrightarrow> a = attachment_of e) \<and>
    (\<forall>name n. node_at w (path_join dir name) = None \<and> node_at w2 (path_join dir name) = Some n \<and>
       \<not> is_internal_temporary_name name \<longrightarrow> entry_file E dir 0 e (path_join dir name) n)"
proof -
  from assms(5) have ns: "namespace_path (hb_catalog_root B) (rm_catalog_namespace_identity M) = Inr dir"
    and root: "hb_blob_root B \<noteq> dir" by (auto simp: history_store_def)
  note first = attach_grows [OF assms(8,9) ns assms(10)]
  then have grown: "grows (attached_file E B M dir t sc j w1) w w1" ..
  note store1 = history_store_mono [OF grown assms(5)]
  from attachment_reruns [OF assms] obtain y w3 where
    second: "attach_protected_history_at P E B t sc j rnd' (calm_world w1) = (Ok y, w3)" by blast
  note again = attach_grows [OF assms(8,9) ns second]
  then have grown2: "grows (attached_file E B M dir t sc j w3) w1 w3" by simp
  from again obtain e where e: "entry_backed E B M t sc j e w3" and y: "y = attachment_of e" by blast
  have same: "e' = e" if "entry_backed E B M t sc j e' w1" for e'
    using entry_backed_unique [OF entry_backed_mono [OF grown2 that] e] .
  have same3: "e' = e" if "entry_backed E B M t sc j e' w3" for e' using entry_backed_unique [OF that e] .
  have u: "w_euid w1 = 0" "w_euid w3 = 0" using store1 growsD(1) [OF grown2] by (auto simp: history_store_def)
  have entry: "entry_file E dir 0 e (path_join dir name) n"
    if "attached_file E B M dir t sc j v (path_join dir name) n" "v = w1 \<or> v = w3" "\<not> is_internal_temporary_name name" for v name n
    using that same same3 u root staging_name_internal unfolding attached_file_def blob_file_def staging_file_def
    by (auto dest!: path_join_dir)
  have "entry_file E dir 0 e (path_join dir name) n"
    if "node_at w (path_join dir name) = None" "node_at w3 (path_join dir name) = Some n" "\<not> is_internal_temporary_name name" for name n
  proof (cases "node_at w1 (path_join dir name)")
    case None
    from entry [OF growsD(3) [OF grown2 None that(2)] _ that(3)] show ?thesis by simp
  next
    case (Some m)
    with growsD(2) [OF grown2 Some] that(2) have "m = n" by simp
    with entry [OF growsD(3) [OF grown that(1) Some] _ that(3)] show ?thesis by simp
  qed
  moreover have "a' = attachment_of e" if "r = Ok a'" for a' using first that same by blast
  ultimately show ?thesis using second e y by blast
qed

end
