(* ===== verification/History_Samples.thy ===== *)
theory History_Samples
  imports History_Catalog Finalization_Store
begin

text \<open>
  A concrete repository with an archive, a store of the protected history, and the runs on them that
  the properties of \<open>Archive_Attachment\<close>, \<open>Protected_History\<close> and \<open>History_Catalog\<close> are applied to.
\<close>

section \<open>A repository and a store\<close>

definition archive_repo :: path where
  "archive_repo = [RootDir, Normal ''r'']"

definition archive_dirs :: "(path \<times> fnode) list" where
  "archive_dirs = map (\<lambda>p. (p, \<lparr>n_kind = Directory, n_uid = 5, n_gid = 5, n_mode = 448, n_ino = (1, 7), n_bytes = []\<rparr>))
     [path_join archive_repo ''.ota'', path_join (path_join archive_repo ''.ota'') ''receipts'',
      path_join (path_join archive_repo ''.ota'') ''contracts'']"

definition archive_files :: "(path \<times> fnode) list" where
  "archive_files = map (\<lambda>(d, name, bs). (path_join (path_join (path_join archive_repo ''.ota'') d) name,
      \<lparr>n_kind = RegularFile, n_uid = 5, n_gid = 5, n_mode = 384, n_ino = (1, 8), n_bytes = bs\<rparr>))
     [(''receipts'', ''x.json'', ''A''), (''contracts'', ''s.json'', ''C'')]"

definition catalog_dir :: path where
  "catalog_dir = [RootDir, Normal ''c'', Normal (replicate 64 CHR ''a'')]"

definition history_dirs :: "(path \<times> fnode) list" where
  "history_dirs = map (\<lambda>p. (p, sample_dir_node)) [[RootDir], [RootDir, Normal ''b''], [RootDir, Normal ''c''], catalog_dir]"

definition history_world :: "fault list \<Rightarrow> world" where
  "history_world fs = \<lparr>w_files = history_dirs @ archive_dirs @ archive_files, w_euid = 0, w_faults = fs\<rparr>"

definition sample_hash :: "string \<Rightarrow> string" where
  "sample_hash bs = replicate 64 (if bs = ''A'' then CHR ''1'' else if bs = ''C'' then CHR ''2'' else CHR ''3'')"

definition sample_receipt :: json where
  "sample_receipt = JObject [(''receipt'', JObject
     [(''contract_snapshot_ref'', JString ''./.ota/contracts/s.json''),
      (''contract_snapshot_hash'', JString (''sha256:'' @ sample_hash ''C'')),
      (''crossing'', JObject [(''authority'', JObject [(''archive_evidence'', JObject
         [(''transaction'', JObject [(''identity'', JString ''xf'')])])])])])]"

definition history_sidecar :: sidecar where
  "history_sidecar = \<lparr>sd_schema_version = 1, sd_identity = digest CHR ''4'',
     sd_signed_finalization = sample_signed\<lparr>sf_identity := digest CHR ''5''\<rparr>,
     sd_signed_archive = \<lparr>sa_identity = digest CHR ''6'', sa_receipt_archive_identity = ''sha256:'' @ sample_hash ''A'',
       sa_crossing_transaction_identity = ''xf'', sa_rest = []\<rparr>\<rparr>"

definition history_journal :: finalization_journal where
  "history_journal = (sample_fin_journal SidecarIssued)\<lparr>fj_finalization :=
     sample_finalization\<lparr>ef_completion := sample_completion\<lparr>ec_work_unit_identity := digest CHR ''7'',
       ec_crossing_transaction_identity := digest CHR ''8''\<rparr>\<rparr>\<rparr>"

definition history_mapping :: repository_mapping where
  "history_mapping = \<lparr>rm_schema_version = 1, rm_identity = digest CHR ''9'', rm_repository_binding_identity = digest CHR ''b'',
     rm_catalog_namespace_identity = digest CHR ''a'', rm_authority_id = ''a'', rm_working_directory = sample_wd\<rparr>"

definition sample_binding :: history_binding where
  "sample_binding = \<lparr>hb_schema_version = 1, hb_identity = ''hb'', hb_protocol_profile = ''p'', hb_socket_path = [RootDir, Normal ''s''],
     hb_socket_group_gid = 9, hb_installation_manifest_identity = ''m'', hb_installed_client_path = [RootDir, Normal ''o''],
     hb_installed_client_identity = ''i'', hb_operator_uid = 9, hb_operator_gid = 9, hb_operator_profile_identity = digest CHR ''2'',
     hb_service_unit_identity = ''su'', hb_socket_unit_identity = ''so'', hb_blob_root = [RootDir, Normal ''b''],
     hb_catalog_root = [RootDir, Normal ''c''], hb_maximum_response_bytes = 100, hb_maximum_entry_count = 9,
     hb_mappings = [history_mapping]\<rparr>"

definition history_target :: archive_target where
  "history_target = (let object = (\<lambda>bs. \<lparr>fz_bytes = bs, fz_content_identity = ''sha256:'' @ sample_hash bs, fz_owner_uid = 5,
       fz_mode = 384, fz_device = 1, fz_inode = 8, fz_link_count = 1\<rparr>) in
     \<lparr>at_directory = path_join (path_join archive_repo ''.ota'') ''receipts'', at_archive_name = ''x.json'',
      at_sidecar_name = ''x.launcher-finalization'', at_sidecar_file_name = ''x.launcher-finalization'',
      at_receipt_archive_identity = ''sha256:'' @ sample_hash ''A'', at_expected_owner_uid = 5,
      at_archive = object ''A'', at_contract_snapshot = object ''C''\<rparr>)"

text \<open>The entry the sample attachment files: its blobs are the first, second and third new file.\<close>

definition sample_blob :: "string \<Rightarrow> nat \<Rightarrow> history_blob" where
  "sample_blob bs k = \<lparr>bl_schema_version = 1, bl_identity = digest CHR ''b'', bl_content_identity = ''sha256:'' @ sample_hash bs,
     bl_size = 1, bl_metadata = \<lparr>hm_owner_uid = 0, hm_mode = 384, hm_device = 0, hm_inode = k, hm_link_count = 1, hm_size = 1,
       hm_content_identity = ''sha256:'' @ sample_hash bs\<rparr>\<rparr>"

definition sample_entry :: catalog_entry where
  "sample_entry = (entry_for sample_binding history_mapping history_target history_sidecar history_journal
     (sample_blob ''A'' 10) (sample_blob ''C'' 11) (sample_blob ''S'' 12))\<lparr>ce_identity := digest CHR ''e''\<rparr>"

definition sample_history_env :: "(catalog_entry \<Rightarrow> string option) \<Rightarrow> history_env" where
  "sample_history_env encode = \<lparr>value_from_slice = (\<lambda>bs. if bs = ''A'' then Some sample_receipt else None),
     sidecar_to_vec = (\<lambda>_. Some ''S''), sha256_hex = sample_hash, nlink = (\<lambda>_. 1),
     blob_message_identity = (\<lambda>_ _. Some (digest CHR ''b'')), entry_message_identity = (\<lambda>_ _. Some (digest CHR ''e'')),
     entry_to_vec = encode, entry_from_slice = (\<lambda>bs. if bs = ''E'' then Some sample_entry else None),
     max_history_response_bytes = 100\<rparr>"

definition encode_sample :: "catalog_entry \<Rightarrow> string option" where
  "encode_sample e = (if e = sample_entry then Some ''E'' else None)"

definition history_protocol :: protocol where
  "history_protocol = \<lparr>launcher_working_directory_identity = (\<lambda>_. None), launcher_child_process_identity = (\<lambda>_. None),
     launcher_systemd_scope_identity = (\<lambda>_. None), authorization_decision_relay_evidence_v1_identity = (\<lambda>_. None),
     lease_consumption_intent_relay_evidence_v1_identity = (\<lambda>_. None), lease_consumption_relay_evidence_v1_identity = (\<lambda>_. None),
     launcher_execution_completion_v1_identity = (\<lambda>_. None), launcher_execution_finalization_v1_identity = (\<lambda>_. None),
     signed_launcher_execution_finalization_v1_identity = (\<lambda>_. None), launcher_finalization_archive_request_v1_identity = (\<lambda>_. None),
     launcher_finalization_archive_sidecar_v1_identity = (\<lambda>_. Some (digest CHR ''4'')),
     launcher_finalization_archive_persistence_v1_identity = (\<lambda>_. None), launcher_terminal_frame_v1_identity = (\<lambda>_. None),
     launcher_terminal_persistence_v1_identity = (\<lambda>_. None)\<rparr>"

definition sample_random :: "nat \<Rightarrow> attach_random" where
  "sample_random k = \<lparr>rnd_archive = Some (of_nat k), rnd_snapshot = Some (of_nat (k + 1)), rnd_sidecar = Some (of_nat (k + 2)),
     rnd_entry = Some (of_nat (k + 3))\<rparr>"

definition sample_attach ::
  "(catalog_entry \<Rightarrow> string option) \<Rightarrow> fault list \<Rightarrow> (history_error, protected_history_attachment) outcome \<times> world" where
  "sample_attach encode fs = attach_protected_history_at history_protocol (sample_history_env encode) sample_binding history_target
     history_sidecar history_journal (sample_random 0) (history_world fs)"

section \<open>What holds of the sample\<close>

text \<open>The limit of sixteen megabytes compared as an integer, so that it evaluates.\<close>

lemma read_regular_file_code [code]:
  "read_regular_file E d name uid =
     and_then (map_err (\<lambda>_. ArchiveUnreadable) (open_nofollow (path_join d name))) (\<lambda>file.
     and_then (map_err (\<lambda>_. ArchiveUnreadable) (fstat file)) (\<lambda>m.
       if n_kind m \<noteq> RegularFile \<or> nlink E (n_ino m) \<noteq> 1 \<or> n_uid m \<noteq> uid \<or> n_mode m AND 18 \<noteq> 0
          \<or> 16777216 < int (length (n_bytes m))
       then throw ArchiveUnsafe
       else and_then (map_err (\<lambda>_. ArchiveUnreadable) (read_to_end file)) (\<lambda>bytes. ret (freeze E m bytes))))"
proof -
  have "MAX_ARCHIVE_BYTES < length x \<longleftrightarrow> 16777216 < int (length x)" for x :: string by (simp add: MAX_ARCHIVE_BYTES_def)
  then show ?thesis by (simp add: read_regular_file_def)
qed

lemma within_limit_files:
  "list_all (\<lambda>(p, n). length (n_bytes n) \<le> max_history_response_bytes E) (w_files w) \<Longrightarrow> within_limit E dir w"
  unfolding within_limit_def list_all_iff by (fastforce dest: map_of_SomeD)

lemma sample_selects:
  "fj_archive_request history_journal = Some sample_request"
  "history_select_mapping sample_binding (ar_authority_id sample_request) (fj_working_directory history_journal) = Inr history_mapping"
  "namespace_path (hb_catalog_root sample_binding) (rm_catalog_namespace_identity history_mapping) = Inr catalog_dir"
  by code_simp+

lemma sample_directories:
  "verify_protected_directory (hb_blob_root sample_binding) 0 [RootDir] (history_world []) = (Ok (), history_world [])"
  "verify_protected_directory catalog_dir 0 [RootDir] (history_world []) = (Ok (), history_world [])"
  "path_absolute (hb_blob_root sample_binding) \<and> path_absolute catalog_dir \<and> RootDir \<notin> set (tl (hb_blob_root sample_binding)) \<and>
   RootDir \<notin> set (tl catalog_dir) \<and> hb_blob_root sample_binding \<noteq> catalog_dir"
  by code_simp+

lemma sample_stores: "history_store (sample_history_env encode) sample_binding history_mapping catalog_dir (history_world fs)"
proof -
  have "calm_world (history_world fs) = history_world []" by (simp add: history_world_def)
  then have "store_directory (hb_blob_root sample_binding) (history_world fs)" "store_directory catalog_dir (history_world fs)"
    using sample_directories by (simp_all add: store_directory_def)
  then show ?thesis
    using sample_selects(3) sample_directories(3) by (simp add: history_store_def sample_history_env_def history_world_def)
qed

lemma sample_located:
  "locate_archive_at (sample_history_env encode_sample) archive_repo 5 (''sha256:'' @ sample_hash ''A'') ''xf'' (history_world [])
     = (Ok history_target, history_world [])"
  by code_simp

lemma sample_evidence: "evidence_canonical history_sidecar history_journal"
  by code_simp

lemma sample_entry_codec: "entry_codec (sample_history_env encode_sample)"
  by (simp add: entry_codec_def sample_history_env_def encode_sample_def)

lemma sample_catalog_empty:
  "load_catalog_entries (sample_history_env encode_sample) sample_binding history_mapping (history_world []) = (Ok [], history_world [])"
  by code_simp

lemma sample_attach_runs:
  "case sample_attach encode_sample [] of (r, w) \<Rightarrow> is_Ok r \<and> list_all (\<lambda>(p, n). length (n_bytes n) \<le> 100) (w_files w)"
  by code_simp

abbreviation torn :: "fault list" where
  "torn \<equiv> replicate 61 NoFault @ [CrashFault 0]"

lemma sample_attach_torn:
  "case sample_attach (\<lambda>_. Some ''E'') torn of (r, w) \<Rightarrow> is_Crashed r \<and> length (w_files w) = 13 \<and>
     list_all (\<lambda>(p, n). length (n_bytes n) \<le> 100) (w_files w) \<and> fresh_names sample_binding catalog_dir (sample_random 4) w"
  by code_simp

lemma digest_name: "lower_hex_byte c \<Longrightarrow> identity_file_name (digest c) = Inr v \<longleftrightarrow> v = replicate 64 c"
  by (auto simp: identity_file_name_iff digest_def list_all_iff)

lemma sample_hash_name: "identity_file_name (''sha256:'' @ sample_hash bs) = Inr (sample_hash bs)"
proof -
  have "lower_hex_byte CHR ''1'' \<and> lower_hex_byte CHR ''2'' \<and> lower_hex_byte CHR ''3''" by code_simp
  then show ?thesis unfolding identity_file_name_iff by (simp add: sample_hash_def list_all_iff)
qed

lemma sample_names_free:
  "list_all (\<lambda>p. node_at (history_world []) p = None)
     (path_join catalog_dir (replicate 64 CHR ''e'' @ ''.json'') # map (\<lambda>bs. path_join (hb_blob_root sample_binding) (sample_hash bs)) [''A'', ''C'', ''S''])"
  by code_simp

lemma history_world_nodes: "node_at (history_world fs) = node_at (history_world [])"
  by (simp add: history_world_def)

lemma sample_settled:
  "contents_settled (sample_history_env encode) (hb_blob_root sample_binding) {''A'', ''C'', ''S''} (history_world fs)"
proof -
  have "settled (sample_history_env encode) (path_join (hb_blob_root sample_binding) (sample_hash bs)) bs (history_world fs)"
    if "bs \<in> {''A'', ''C'', ''S''}" for bs
    unfolding settled_def history_world_nodes [of fs] using sample_names_free that by auto
  moreover have "x = y" if "sample_hash x = sample_hash y" "x \<in> {''A'', ''C'', ''S''}" "y \<in> {''A'', ''C'', ''S''}" for x y
    using that by (auto simp: sample_hash_def split: if_splits)
  moreover have "length bs \<le> 100" if "bs \<in> {''A'', ''C'', ''S''}" for bs using that by auto
  moreover have "sha256_hex (sample_history_env encode) = sample_hash" "max_history_response_bytes (sample_history_env encode) = 100"
    by (simp_all add: sample_history_env_def)
  ultimately show ?thesis unfolding contents_settled_def using sample_hash_name by metis
qed

lemma sample_unfiled:
  "unfiled (sample_history_env encode) sample_binding history_mapping catalog_dir history_target history_sidecar history_journal (history_world fs)"
proof -
  have "lower_hex_byte CHR ''e''" by code_simp
  note name = digest_name [OF this]
  show ?thesis
    unfolding unfiled_def history_world_nodes [of fs] using sample_names_free
    by (auto simp: catalog_entry_identity_def sample_history_env_def name)
qed


section \<open>The properties at the sample\<close>

theorem history_written_once_witness:
  "case sample_attach (\<lambda>_. Some ''E'') torn of (r, w') \<Rightarrow>
     is_Crashed r \<and> (\<forall>q n. node_at (history_world torn) q = Some n \<longrightarrow> node_at w' q = Some n)"
proof -
  obtain r w' where run: "sample_attach (\<lambda>_. Some ''E'') torn = (r, w')" by fastforce
  from history_written_once [OF sample_selects run [unfolded sample_attach_def]] sample_attach_torn run
  show ?thesis by simp
qed

theorem attached_reads_back_witness:
  "case sample_attach encode_sample [] of (r, w1) \<Rightarrow> is_Ok r \<and>
     (\<exists>es1 e. load_catalog_entries (sample_history_env encode_sample) sample_binding history_mapping (calm_world w1) = (Ok es1, calm_world w1) \<and>
        r = Ok (attachment_of e) \<and> set es1 = {e} \<and>
        read_blob (sample_history_env encode_sample) sample_binding (ce_sidecar_blob e) (calm_world w1) = (Ok ''S'', calm_world w1))"
proof -
  let ?E = "sample_history_env encode_sample"
  obtain r w1 where run: "sample_attach encode_sample [] = (r, w1)" by fastforce
  with sample_attach_runs obtain a where r: "r = Ok a" and small: "list_all (\<lambda>(p, n). length (n_bytes n) \<le> 100) (w_files w1)"
    by (cases r) auto
  have limit: "within_limit ?E catalog_dir w1" using small by (intro within_limit_files) (simp add: sample_history_env_def)
  have calm: "calm_world (history_world []) = history_world []" by (simp add: history_world_def)
  have S: "sidecar_to_vec ?E history_sidecar = Some ''S''" by (simp add: sample_history_env_def)
  from attached_reads_back [OF sample_located sample_evidence sample_entry_codec sample_stores limit sample_selects(1,2) _
      run [unfolded sample_attach_def], unfolded calm, OF sample_catalog_empty] r S
  obtain es1 e where "load_catalog_entries ?E sample_binding history_mapping (calm_world w1) = (Ok es1, calm_world w1)"
    "a = attachment_of e" "set es1 = {e}" "read_blob ?E sample_binding (ce_sidecar_blob e) (calm_world w1) = (Ok ''S'', calm_world w1)"
    by auto
  with run r show ?thesis by auto
qed

theorem attachment_repeatable_witness:
  "case sample_attach (\<lambda>_. Some ''E'') torn of (r, w1) \<Rightarrow> is_Crashed r \<and>
     (\<exists>e w2. attach_protected_history_at history_protocol (sample_history_env (\<lambda>_. Some ''E'')) sample_binding history_target
        history_sidecar history_journal (sample_random 4) (calm_world w1) = (Ok (attachment_of e), w2))"
proof -
  let ?E = "sample_history_env (\<lambda>_. Some ''E'')"
  obtain r w1 where run: "sample_attach (\<lambda>_. Some ''E'') torn = (r, w1)" by fastforce
  with sample_attach_torn have crashed: "is_Crashed r" and small: "list_all (\<lambda>(p, n). length (n_bytes n) \<le> 100) (w_files w1)"
    and fresh: "fresh_names sample_binding catalog_dir (sample_random 4) w1" by auto
  have limit: "within_limit ?E catalog_dir w1" using small by (intro within_limit_files) (simp add: sample_history_env_def)
  have side: "sidecar_to_vec ?E history_sidecar = Some ''S''" by (simp add: sample_history_env_def)
  have identity: "launcher_finalization_archive_sidecar_v1_identity history_protocol history_sidecar = Some (sd_identity history_sidecar)"
    "sa_receipt_archive_identity (sd_signed_archive history_sidecar) = fz_content_identity (at_archive history_target)"
    by code_simp+
  have "\<exists>v. identity_file_name (digest c) = Inr v" if "lower_hex_byte c" for c
    using that by (auto simp: identity_file_name_iff digest_def list_all_iff)
  moreover have hex: "lower_hex_byte CHR ''e''" by code_simp
  ultimately have total: "identities_total ?E"
    by (simp add: identities_total_def sample_history_env_def blob_identity_def catalog_entry_identity_def is_sha256_iff)
  have C: "contents_of ?E history_target history_sidecar = {''A'', ''C'', ''S''}"
    by (auto simp: contents_of_def sample_history_env_def history_target_def Let_def)
  have settled: "contents_settled ?E (hb_blob_root sample_binding) (contents_of ?E history_target history_sidecar) (history_world torn)"
    unfolding C by (rule sample_settled)
  from attachment_repeatable [OF identity side total sample_stores settled sample_unfiled sample_selects(1,2)
      run [unfolded sample_attach_def] limit fresh] run crashed show ?thesis by auto
qed

theorem sidecar_beside_exact_archive_witness:
  "case persist_sidecar_at (sample_history_env encode_sample) history_target history_sidecar (Some 3) (history_world []) of (r, w) \<Rightarrow>
     r = Ok () \<and> holds (sidecar_file history_target) ''S'' w \<and> (\<forall>q n. node_at (history_world []) q = Some n \<longrightarrow> node_at w q = Some n)"
proof -
  let ?E = "sample_history_env encode_sample"
  obtain r w where run: "persist_sidecar_at ?E history_target history_sidecar (Some 3) (history_world []) = (r, w)" by fastforce
  have "r = Ok ()"
  proof -
    have "fst (persist_sidecar_at ?E history_target history_sidecar (Some 3) (history_world [])) = Ok ()" by code_simp
    with run show ?thesis by simp
  qed
  moreover have "sidecar_to_vec ?E history_sidecar = Some ''S''" by (simp add: sample_history_env_def)
  ultimately show ?thesis using sidecar_beside_exact_archive [OF sample_located run] run by auto
qed

end
