(* ===== verification/History_Response.thy ===== *)
theory History_Response
  imports History_Catalog
begin

text \<open>
  The answer to a query about the protected history (\<open>build_response\<close> and what it calls in
  \<open>src/protected_history_service.rs\<close>): the selected entries of a catalog are read, checked against
  their sidecars and cut into frames, a manifest first and a terminal message last. The codecs,
  identities and limits of the protocol crate, and the verification of a sidecar by the attestation
  client, are fields of \<open>query_env\<close>; a message is its record until it is serialized.
\<close>


section \<open>Messages\<close>

text \<open>\<open>ObjectInvalidRefusal\<close> and \<open>ServiceUnavailableRefusal\<close> are the source's \<open>ObjectInvalid\<close> and \<open>ServiceUnavailable\<close>.\<close>

datatype history_refusal =
    PeerAdmissionRefused | RepositoryMappingMissing | RepositoryMappingAmbiguous | MalformedQuery
  | UnsupportedProtocol | ServiceUnavailableRefusal | CatalogInvalid | ObjectUnavailable
  | ObjectInvalidRefusal | ResultTooLarge

datatype object_kind = ArchiveObject | ContractSnapshotObject | SidecarObject

datatype manifest_posture = Complete | Incomplete

datatype operator_attribution = NonAgent

datatype operator_posture = LeastPrivilegeOperatorPeerVerified

record history_query =
  hq_query_identity :: string
  hq_archive_identity :: "string option"
  hq_rest :: string

record history_manifest =
  mf_schema_version :: nat
  mf_message_kind :: string
  mf_protocol_version :: string
  mf_query_identity :: string
  mf_repository_binding_identity :: string
  mf_catalog_namespace_identity :: string
  mf_operator_profile_identity :: string
  mf_operator_peer_identity :: string
  mf_operator_attribution :: operator_attribution
  mf_operator_posture :: operator_posture
  mf_catalog_entry_identities :: "string list"
  mf_total_selected_count :: nat
  mf_bounded_response_bytes :: nat
  mf_catalog_snapshot_identity :: string
  mf_manifest_identity :: string

record history_entry =
  en_schema_version :: nat
  en_message_kind :: string
  en_protocol_version :: string
  en_manifest_identity :: string
  en_entry_ordinal :: nat
  en_catalog_identity :: string
  en_archive_object_identity :: string
  en_contract_snapshot_object_identity :: string
  en_sidecar_object_identity :: string
  en_entry_identity :: string

record history_object =
  ob_schema_version :: nat
  ob_message_kind :: string
  ob_protocol_version :: string
  ob_manifest_identity :: string
  ob_entry_ordinal :: nat
  ob_catalog_identity :: string
  ob_object_kind :: object_kind
  ob_content_identity :: string
  ob_byte_length :: nat
  ob_chunk_count :: nat
  ob_object_identity :: string

record history_chunk =
  hc_schema_version :: nat
  hc_message_kind :: string
  hc_protocol_version :: string
  hc_object_identity :: string
  hc_chunk_ordinal :: nat
  hc_bytes :: string
  hc_chunk_identity :: string

record history_terminal =
  ht_schema_version :: nat
  ht_message_kind :: string
  ht_protocol_version :: string
  ht_query_identity :: string
  ht_manifest_identity :: string
  ht_returned_count :: nat
  ht_posture :: manifest_posture
  ht_terminal_identity :: string

record pre_query_refusal =
  pq_schema_version :: nat
  pq_message_kind :: string
  pq_protocol_version :: string
  pq_refusal_nonce :: string
  pq_reason :: history_refusal
  pq_terminal_identity :: string

record query_refusal =
  qr_schema_version :: nat
  qr_message_kind :: string
  qr_protocol_version :: string
  qr_query_identity :: string
  qr_reason :: history_refusal
  qr_terminal_identity :: string

datatype history_message =
    ManifestMsg history_manifest
  | EntryMsg history_entry
  | ObjectMsg history_object
  | ChunkMsg history_chunk
  | ManifestTerminalMsg history_terminal
  | PreQueryRefusalMsg pre_query_refusal
  | QueryRefusalMsg query_refusal

text \<open>
  \<open>history_constant\<close> gives the crate's constant of a name; \<open>snapshot_message_identity\<close> is \<open>message_identity\<close> at
  the pair of the mapping's identity and those of the entries. \<open>producer_binding\<close> is \<open>load_producer_binding\<close>,
  a function of the files, and \<open>sidecar_verifies\<close> is \<open>verify_finalization_archive_sidecar\<close>.
\<close>

record query_env = history_env +
  history_constant :: "string \<Rightarrow> string"
  history_max_frame_bytes :: nat
  max_history_chunk_payload_bytes :: nat
  history_encode_frame :: "string \<Rightarrow> string option"
  history_decode_frame :: "string \<Rightarrow> string option"
  history_to_vec :: "history_message \<Rightarrow> string option"
  query_from_slice :: "string \<Rightarrow> history_query option"
  sidecar_from_slice :: "string \<Rightarrow> sidecar option"
  query_v1_identity :: "history_query \<Rightarrow> string option"
  manifest_v1_identity :: "history_manifest \<Rightarrow> string option"
  entry_v1_identity :: "history_entry \<Rightarrow> string option"
  object_v1_identity :: "history_object \<Rightarrow> string option"
  chunk_v1_identity :: "history_chunk \<Rightarrow> string option"
  terminal_v1_identity :: "history_terminal \<Rightarrow> string option"
  pre_query_refusal_v1_identity :: "pre_query_refusal \<Rightarrow> string option"
  query_refusal_v1_identity :: "query_refusal \<Rightarrow> string option"
  snapshot_message_identity :: "string \<Rightarrow> string \<times> string list \<Rightarrow> string option"
  producer_binding :: "world \<Rightarrow> string option"
  sidecar_verifies :: "string \<Rightarrow> sidecar \<Rightarrow> bool"

record prepared_history_response =
  pr_frames :: "string list"
  pr_terminal :: history_terminal

definition CATALOG_SNAPSHOT_IDENTITY_DOMAIN_V1 :: string where
  "CATALOG_SNAPSHOT_IDENTITY_DOMAIN_V1 = ''ota.authority-launcher.history-catalog-snapshot.v1'' @ [CHR 0x00]"

abbreviation history_protocol_v1 :: "'x query_env_scheme \<Rightarrow> string" where
  "history_protocol_v1 S \<equiv> history_constant S ''SYSTEMD_PROTECTED_HISTORY_PROTOCOL_V1''"


section \<open>Frames\<close>

definition typed_frame :: "'x query_env_scheme \<Rightarrow> history_message \<Rightarrow> history_refusal + string" where
  "typed_frame S m =
     try_with (ok_or ServiceUnavailableRefusal (history_to_vec S m)) (\<lambda>payload.
       ok_or ServiceUnavailableRefusal (history_encode_frame S payload))"

text \<open>\<open>chunks\<close> and \<open>div_ceil\<close>; the limit is a positive constant.\<close>

function chunks :: "nat \<Rightarrow> 'a list \<Rightarrow> 'a list list" where
  "chunks n bs = (if bs = [] \<or> n = 0 then [] else take n bs # chunks n (drop n bs))"
  by pat_completeness auto
termination by (relation "measure (length \<circ> snd)") auto

declare chunks.simps [simp del]

definition div_ceil :: "nat \<Rightarrow> nat \<Rightarrow> nat" where
  "div_ceil a b = (if a mod b > 0 then a div b + 1 else a div b)"

definition history_object_of ::
  "'x query_env_scheme \<Rightarrow> history_manifest \<Rightarrow> nat \<Rightarrow> string \<Rightarrow> object_kind \<Rightarrow> string \<Rightarrow> history_refusal + history_object" where
  "history_object_of S manifest ordinal catalog_identity kind bytes =
     (let count = div_ceil (length bytes) (max_history_chunk_payload_bytes S) in
      if 2 ^ 32 \<le> count then Inl ResultTooLarge
      else
       (let ob = \<lparr>ob_schema_version = 1, ob_message_kind = history_constant S ''LAUNCHER_HISTORY_OBJECT'',
           ob_protocol_version = history_protocol_v1 S, ob_manifest_identity = mf_manifest_identity manifest,
           ob_entry_ordinal = ordinal, ob_catalog_identity = catalog_identity, ob_object_kind = kind,
           ob_content_identity = content_identity_of S bytes, ob_byte_length = length bytes, ob_chunk_count = count,
           ob_object_identity = []\<rparr> in
        try_with (ok_or ObjectInvalidRefusal (object_v1_identity S ob)) (\<lambda>i. Inr (ob\<lparr>ob_object_identity := i\<rparr>))))"

definition history_chunk_of :: "'x query_env_scheme \<Rightarrow> string \<Rightarrow> nat \<Rightarrow> string \<Rightarrow> history_refusal + history_chunk" where
  "history_chunk_of S object_identity ordinal payload =
     (let chunk = \<lparr>hc_schema_version = 1, hc_message_kind = history_constant S ''LAUNCHER_HISTORY_CHUNK'',
         hc_protocol_version = history_protocol_v1 S, hc_object_identity = object_identity,
         hc_chunk_ordinal = ordinal mod 2 ^ 32, hc_bytes = payload, hc_chunk_identity = []\<rparr> in
      try_with (ok_or ObjectInvalidRefusal (chunk_v1_identity S chunk)) (\<lambda>i. Inr (chunk\<lparr>hc_chunk_identity := i\<rparr>)))"

text \<open>
  The functions that push frames take the frames so far and return them extended. The loops carry
  the ordinal of \<open>enumerate\<close>.
\<close>

fun append_chunk_frames ::
  "'x query_env_scheme \<Rightarrow> string \<Rightarrow> string list \<Rightarrow> nat \<Rightarrow> string list \<Rightarrow> history_refusal + string list" where
  "append_chunk_frames S object_identity frames ordinal [] = Inr frames"
| "append_chunk_frames S object_identity frames ordinal (payload # payloads) =
     try_with (history_chunk_of S object_identity ordinal payload) (\<lambda>chunk.
     try_with (typed_frame S (ChunkMsg chunk)) (\<lambda>frame.
       append_chunk_frames S object_identity (frames @ [frame]) (ordinal + 1) payloads))"

definition append_object_frames ::
  "'x query_env_scheme \<Rightarrow> string list \<Rightarrow> history_object \<Rightarrow> string \<Rightarrow> history_refusal + string list" where
  "append_object_frames S frames ob bytes =
     try_with (typed_frame S (ObjectMsg ob)) (\<lambda>frame.
       append_chunk_frames S (ob_object_identity ob) (frames @ [frame]) 0
         (chunks (max_history_chunk_payload_bytes S) bytes))"

definition history_entry_of ::
  "'x query_env_scheme \<Rightarrow> history_manifest \<Rightarrow> nat \<Rightarrow> string \<Rightarrow> history_object \<Rightarrow> history_object \<Rightarrow> history_object \<Rightarrow>
   history_refusal + history_entry" where
  "history_entry_of S manifest ordinal catalog_identity archive_object snapshot_object sidecar_object =
     (let entry = \<lparr>en_schema_version = 1, en_message_kind = history_constant S ''LAUNCHER_HISTORY_ENTRY'',
         en_protocol_version = history_protocol_v1 S, en_manifest_identity = mf_manifest_identity manifest,
         en_entry_ordinal = ordinal, en_catalog_identity = catalog_identity,
         en_archive_object_identity = ob_object_identity archive_object,
         en_contract_snapshot_object_identity = ob_object_identity snapshot_object,
         en_sidecar_object_identity = ob_object_identity sidecar_object, en_entry_identity = []\<rparr> in
      try_with (ok_or ObjectInvalidRefusal (entry_v1_identity S entry)) (\<lambda>i. Inr (entry\<lparr>en_entry_identity := i\<rparr>)))"

definition append_entry_frames ::
  "'x query_env_scheme \<Rightarrow> string list \<Rightarrow> history_manifest \<Rightarrow> nat \<Rightarrow> string \<Rightarrow> string \<Rightarrow> string \<Rightarrow> string \<Rightarrow>
   history_refusal + string list" where
  "append_entry_frames S frames manifest ordinal catalog_identity archive snapshot side =
     try_with (history_object_of S manifest ordinal catalog_identity ArchiveObject archive) (\<lambda>archive_object.
     try_with (history_object_of S manifest ordinal catalog_identity ContractSnapshotObject snapshot) (\<lambda>snapshot_object.
     try_with (history_object_of S manifest ordinal catalog_identity SidecarObject side) (\<lambda>sidecar_object.
     try_with (history_entry_of S manifest ordinal catalog_identity archive_object snapshot_object sidecar_object) (\<lambda>entry.
     try_with (typed_frame S (EntryMsg entry)) (\<lambda>frame.
     try_with (append_object_frames S (frames @ [frame]) archive_object archive) (\<lambda>frames.
     try_with (append_object_frames S frames snapshot_object snapshot) (\<lambda>frames.
       append_object_frames S frames sidecar_object side)))))))"

type_synonym entry_content = "string \<times> string \<times> string"

fun append_all_frames ::
  "'x query_env_scheme \<Rightarrow> history_manifest \<Rightarrow> string list \<Rightarrow> nat \<Rightarrow> (catalog_entry \<times> entry_content) list \<Rightarrow>
   history_refusal + string list" where
  "append_all_frames S manifest frames ordinal [] = Inr frames"
| "append_all_frames S manifest frames ordinal ((e, archive, snapshot, side) # rest) =
     try_with (append_entry_frames S frames manifest (ordinal mod 2 ^ 32) (ce_identity e) archive snapshot side) (\<lambda>frames.
       append_all_frames S manifest frames (ordinal + 1) rest)"


section \<open>Reading the selected entries\<close>

definition checked_add_u64 :: "nat \<Rightarrow> nat \<Rightarrow> nat option" where
  "checked_add_u64 a b = (if a + b < 2 ^ 64 then Some (a + b) else None)"

definition entry_matches :: "'x query_env_scheme \<Rightarrow> catalog_entry \<Rightarrow> sidecar \<Rightarrow> string \<Rightarrow> string \<Rightarrow> bool" where
  "entry_matches S e sc archive snapshot \<longleftrightarrow>
     sd_identity sc = ce_sidecar_identity e \<and>
     sf_identity (sd_signed_finalization sc) = ce_signed_finalization_identity e \<and>
     sa_identity (sd_signed_archive sc) = ce_signed_archive_identity e \<and>
     sa_receipt_archive_identity (sd_signed_archive sc) = ce_receipt_archive_identity e \<and>
     sa_crossing_transaction_identity (sd_signed_archive sc) = ce_crossing_transaction_identity e \<and>
     content_identity_of S archive = ce_receipt_archive_identity e \<and>
     content_identity_of S snapshot = ce_contract_snapshot_identity e"

definition read_entry ::
  "'x query_env_scheme \<Rightarrow> history_binding \<Rightarrow> string \<Rightarrow> catalog_entry \<Rightarrow> (world, history_refusal, entry_content) proc" where
  "read_entry S B producer e =
     and_then (map_err (\<lambda>_. ObjectInvalidRefusal) (read_blob S B (ce_archive_blob e))) (\<lambda>archive.
     and_then (map_err (\<lambda>_. ObjectInvalidRefusal) (read_blob S B (ce_contract_snapshot_blob e))) (\<lambda>snapshot.
     and_then (map_err (\<lambda>_. ObjectInvalidRefusal) (read_blob S B (ce_sidecar_blob e))) (\<lambda>side.
       case sidecar_from_slice S side of
         None \<Rightarrow> throw ObjectInvalidRefusal
       | Some sc \<Rightarrow>
           if \<not> sidecar_verifies S producer sc then throw ObjectInvalidRefusal
           else if \<not> entry_matches S e sc archive snapshot then throw ObjectInvalidRefusal
           else ret (archive, snapshot, side))))"

text \<open>The loop over the selected entries, with the bytes counted so far.\<close>

fun read_entries ::
  "'x query_env_scheme \<Rightarrow> history_binding \<Rightarrow> string \<Rightarrow> nat \<Rightarrow> catalog_entry list \<Rightarrow>
   (world, history_refusal, entry_content list \<times> nat) proc" where
  "read_entries S B producer used [] = ret ([], used)"
| "read_entries S B producer used (e # es) =
     and_then (read_entry S B producer e) (\<lambda>(archive, snapshot, side).
       case Option.bind (Option.bind (checked_add_u64 used (length archive)) (\<lambda>n. checked_add_u64 n (length snapshot)))
         (\<lambda>n. checked_add_u64 n (length side)) of
         None \<Rightarrow> throw ResultTooLarge
       | Some used \<Rightarrow>
           and_then (read_entries S B producer used es) (\<lambda>(contents, used).
             ret ((archive, snapshot, side) # contents, used)))"

definition select_entries :: "history_query \<Rightarrow> catalog_entry list \<Rightarrow> history_refusal + catalog_entry list" where
  "select_entries q es =
     (case hq_archive_identity q of
        None \<Rightarrow> Inr es
      | Some identity \<Rightarrow>
          (let selected = filter (\<lambda>e. ce_receipt_archive_identity e = identity) es in
           if length selected \<noteq> 1 then Inl ObjectUnavailable else Inr selected))"

definition manifest_of ::
  "'x query_env_scheme \<Rightarrow> history_binding \<Rightarrow> repository_mapping \<Rightarrow> history_query \<Rightarrow> string \<Rightarrow> catalog_entry list \<Rightarrow> nat \<Rightarrow>
   history_refusal + history_manifest" where
  "manifest_of S B M q operator_peer_identity selected used =
     (let identities = map ce_identity selected in
      try_with (ok_or CatalogInvalid (snapshot_message_identity S CATALOG_SNAPSHOT_IDENTITY_DOMAIN_V1 (rm_identity M, identities)))
        (\<lambda>snapshot_identity.
          let manifest = \<lparr>mf_schema_version = 1, mf_message_kind = history_constant S ''LAUNCHER_HISTORY_MANIFEST'',
            mf_protocol_version = history_protocol_v1 S, mf_query_identity = hq_query_identity q,
            mf_repository_binding_identity = rm_repository_binding_identity M,
            mf_catalog_namespace_identity = rm_catalog_namespace_identity M,
            mf_operator_profile_identity = hb_operator_profile_identity B,
            mf_operator_peer_identity = operator_peer_identity, mf_operator_attribution = NonAgent,
            mf_operator_posture = LeastPrivilegeOperatorPeerVerified, mf_catalog_entry_identities = identities,
            mf_total_selected_count = length selected mod 2 ^ 32, mf_bounded_response_bytes = used,
            mf_catalog_snapshot_identity = snapshot_identity, mf_manifest_identity = []\<rparr> in
          try_with (ok_or CatalogInvalid (manifest_v1_identity S manifest)) (\<lambda>i. Inr (manifest\<lparr>mf_manifest_identity := i\<rparr>))))"

definition terminal_of ::
  "'x query_env_scheme \<Rightarrow> history_query \<Rightarrow> history_manifest \<Rightarrow> nat \<Rightarrow> history_refusal + history_terminal" where
  "terminal_of S q manifest count =
     (let terminal = \<lparr>ht_schema_version = 1, ht_message_kind = history_constant S ''LAUNCHER_HISTORY_MANIFEST_TERMINAL'',
         ht_protocol_version = history_protocol_v1 S, ht_query_identity = hq_query_identity q,
         ht_manifest_identity = mf_manifest_identity manifest, ht_returned_count = count mod 2 ^ 32,
         ht_posture = Complete, ht_terminal_identity = []\<rparr> in
      try_with (ok_or CatalogInvalid (terminal_v1_identity S terminal)) (\<lambda>i. Inr (terminal\<lparr>ht_terminal_identity := i\<rparr>)))"

text \<open>What follows the reading: manifest, frames and the terminal message.\<close>

definition prepare_response ::
  "'x query_env_scheme \<Rightarrow> history_binding \<Rightarrow> repository_mapping \<Rightarrow> history_query \<Rightarrow> string \<Rightarrow> catalog_entry list \<Rightarrow>
   entry_content list \<Rightarrow> nat \<Rightarrow> history_refusal + prepared_history_response" where
  "prepare_response S B M q operator_peer_identity selected contents used =
     try_with (manifest_of S B M q operator_peer_identity selected used) (\<lambda>manifest.
     try_with (typed_frame S (ManifestMsg manifest)) (\<lambda>frame.
     try_with (append_all_frames S manifest [frame] 0 (zip selected contents)) (\<lambda>frames.
     try_with (terminal_of S q manifest (length selected)) (\<lambda>terminal.
       Inr \<lparr>pr_frames = frames, pr_terminal = terminal\<rparr>))))"

definition build_response ::
  "'x query_env_scheme \<Rightarrow> history_binding \<Rightarrow> repository_mapping \<Rightarrow> history_query \<Rightarrow> string \<Rightarrow>
   (world, history_refusal, prepared_history_response) proc" where
  "build_response S B M q operator_peer_identity =
     and_then (map_err (\<lambda>_. CatalogInvalid) (load_catalog_entries S B M)) (\<lambda>es.
     and_then (lift_result (select_entries q es)) (\<lambda>selected.
       if length selected > hb_maximum_entry_count B then throw ResultTooLarge
       else and_then (\<lambda>w. (case producer_binding S w of Some p \<Rightarrow> (Ok p, w) | None \<Rightarrow> (Err ObjectInvalidRefusal, w))) (\<lambda>producer.
         and_then (read_entries S B producer 0 selected) (\<lambda>(contents, used).
           if used > hb_maximum_response_bytes B then throw ResultTooLarge
           else lift_result (prepare_response S B M q operator_peer_identity selected contents used)))))"

section \<open>A receiver\<close>

text \<open>
  What a client of the protocol does with the frames: it takes each object's chunks in their order,
  puts them together and compares length and hash with what was announced. It is a specification; the
  client is not part of this repository.
\<close>

fun take_chunks :: "string \<Rightarrow> nat \<Rightarrow> nat \<Rightarrow> history_message list \<Rightarrow> (string \<times> history_message list) option" where
  "take_chunks oid 0 k ms = Some ([], ms)"
| "take_chunks oid (Suc n) k (ChunkMsg c # ms) =
     (if hc_object_identity c = oid \<and> hc_chunk_ordinal c = k
      then map_option (\<lambda>(bs, rest). (hc_bytes c @ bs, rest)) (take_chunks oid n (k + 1) ms) else None)"
| "take_chunks oid (Suc n) k ms = None"

definition take_object ::
  "'x query_env_scheme \<Rightarrow> string \<Rightarrow> nat \<Rightarrow> string \<Rightarrow> object_kind \<Rightarrow> string \<Rightarrow> history_message list \<Rightarrow>
   (string \<times> history_message list) option" where
  "take_object S mid k cat kind oid ms =
     (case ms of
        ObjectMsg ob # ms' \<Rightarrow>
          if ob_manifest_identity ob = mid \<and> ob_entry_ordinal ob = k \<and> ob_catalog_identity ob = cat \<and>
             ob_object_kind ob = kind \<and> ob_object_identity ob = oid
          then Option.bind (take_chunks oid (ob_chunk_count ob) 0 ms') (\<lambda>(bs, rest).
            if length bs = ob_byte_length ob \<and> content_identity_of S bs = ob_content_identity ob then Some (bs, rest) else None)
          else None
      | _ \<Rightarrow> None)"

fun take_entries ::
  "'x query_env_scheme \<Rightarrow> string \<Rightarrow> nat \<Rightarrow> string list \<Rightarrow> history_message list \<Rightarrow>
   (entry_content list \<times> history_message list) option" where
  "take_entries S mid k [] ms = Some ([], ms)"
| "take_entries S mid k (cat # cats) ms =
     (case ms of
        EntryMsg en # ms' \<Rightarrow>
          if en_manifest_identity en = mid \<and> en_entry_ordinal en = k \<and> en_catalog_identity en = cat
          then
            Option.bind (take_object S mid k cat ArchiveObject (en_archive_object_identity en) ms') (\<lambda>(a, ms').
            Option.bind (take_object S mid k cat ContractSnapshotObject (en_contract_snapshot_object_identity en) ms') (\<lambda>(s, ms').
            Option.bind (take_object S mid k cat SidecarObject (en_sidecar_object_identity en) ms') (\<lambda>(d, ms').
              map_option (\<lambda>(cs, rest). ((a, s, d) # cs, rest)) (take_entries S mid (k + 1) cats ms'))))
          else None
      | _ \<Rightarrow> None)"

definition content_bytes :: "entry_content list \<Rightarrow> nat" where
  "content_bytes cs = sum_list (map (\<lambda>(a, s, d). length a + length s + length d) cs)"

definition receive_response ::
  "'x query_env_scheme \<Rightarrow> history_query \<Rightarrow> history_message list \<Rightarrow> (string \<times> entry_content) list option" where
  "receive_response S q ms =
     (case ms of
        ManifestMsg mf # ms' \<Rightarrow>
          if mf_query_identity mf \<noteq> hq_query_identity q then None
          else Option.bind (take_entries S (mf_manifest_identity mf) 0 (mf_catalog_entry_identities mf) ms') (\<lambda>(cs, rest).
            case rest of
              [ManifestTerminalMsg t] \<Rightarrow>
                if ht_query_identity t = hq_query_identity q \<and> ht_manifest_identity t = mf_manifest_identity mf \<and>
                   ht_returned_count t = length cs \<and> mf_total_selected_count mf = length cs \<and>
                   mf_bounded_response_bytes mf = content_bytes cs \<and> ht_posture t = Complete
                then Some (zip (mf_catalog_entry_identities mf) cs) else None
            | _ \<Rightarrow> None)
      | _ \<Rightarrow> None)"


section \<open>Pieces of a transfer\<close>

fun numbered :: "string \<Rightarrow> nat \<Rightarrow> string list \<Rightarrow> history_chunk list \<Rightarrow> bool" where
  "numbered oid k [] [] \<longleftrightarrow> True"
| "numbered oid k (p # ps) (c # cs) \<longleftrightarrow>
     hc_bytes c = p \<and> hc_chunk_ordinal c = k \<and> hc_object_identity c = oid \<and> numbered oid (k + 1) ps cs"
| "numbered oid k _ _ \<longleftrightarrow> False"

lemma chunks_taken:
  "numbered oid k ps cs \<Longrightarrow> take_chunks oid (length ps) k (map ChunkMsg cs @ rest) = Some (concat ps, rest)"
  by (induction oid k ps cs rule: numbered.induct) auto

lemma numbered_bytes: "numbered oid k ps cs \<Longrightarrow> map hc_bytes cs = ps"
  by (induction oid k ps cs rule: numbered.induct) auto

text \<open>
  The contract of the cutting: the pieces put together are the bytes, each has at least one and at most
  the allowed number of bytes, and there are as many as are announced.
\<close>

locale transfer =
  fixes cut :: "nat \<Rightarrow> string \<Rightarrow> string list"
  assumes joined: "0 < n \<Longrightarrow> concat (cut n bs) = bs"
    and piece: "0 < n \<Longrightarrow> p \<in> set (cut n bs) \<Longrightarrow> 0 < length p \<and> length p \<le> n"
    and announced: "0 < n \<Longrightarrow> length (cut n bs) = div_ceil (length bs) n"
begin

lemma transferred:
  assumes "0 < n" and "numbered oid 0 (cut n bs) cs"
  shows "take_chunks oid (div_ceil (length bs) n) 0 (map ChunkMsg cs @ rest) = Some (bs, rest)"
    and "\<forall>c \<in> set cs. 0 < length (hc_bytes c) \<and> length (hc_bytes c) \<le> n"
proof -
  show "take_chunks oid (div_ceil (length bs) n) 0 (map ChunkMsg cs @ rest) = Some (bs, rest)"
    using chunks_taken [OF assms(2)] joined [OF assms(1)] announced [OF assms(1)] by simp
  show "\<forall>c \<in> set cs. 0 < length (hc_bytes c) \<and> length (hc_bytes c) \<le> n"
  proof
    fix c assume "c \<in> set cs"
    then have "hc_bytes c \<in> set (map hc_bytes cs)" by simp
    then have "hc_bytes c \<in> set (cut n bs)" using numbered_bytes [OF assms(2)] by simp
    with piece [OF assms(1)] show "0 < length (hc_bytes c) \<and> length (hc_bytes c) \<le> n" by blast
  qed
qed

end

lemma chunks_Nil [simp]: "chunks n [] = []"
  by (simp add: chunks.simps)

lemma chunks_step: "0 < n \<Longrightarrow> bs \<noteq> [] \<Longrightarrow> chunks n bs = take n bs # chunks n (drop n bs)"
  by (simp add: chunks.simps)

lemma concat_chunks: "0 < n \<Longrightarrow> concat (chunks n bs) = bs"
  by (induction n bs rule: chunks.induct) (metis append_take_drop_id chunks_Nil chunks_step concat.simps not_less_zero neq0_conv)

lemma chunk_size: "p \<in> set (chunks n bs) \<Longrightarrow> 0 < length p \<and> length p \<le> n"
proof (induction n bs rule: chunks.induct)
  case (1 n bs)
  show ?case
  proof (cases "bs = [] \<or> n = 0")
    case True
    with "1.prems" show ?thesis by (auto simp: chunks.simps)
  next
    case False
    with "1.prems" have "p = take n bs \<or> p \<in> set (chunks n (drop n bs))" by (simp add: chunks_step)
    with "1.IH" [OF False] False show ?thesis by auto
  qed
qed

lemma div_ceil_step: "0 < n \<Longrightarrow> 0 < m \<Longrightarrow> div_ceil m n = Suc (div_ceil (m - n) n)"
proof (cases "n \<le> m")
  case True
  assume "0 < n"
  with True show ?thesis by (simp add: div_ceil_def le_div_geq le_mod_geq)
qed (simp add: div_ceil_def)

lemma length_chunks: "0 < n \<Longrightarrow> length (chunks n bs) = div_ceil (length bs) n"
proof (induction n bs rule: chunks.induct)
  case (1 n bs)
  show ?case
  proof (cases "bs = []")
    case False
    with 1 have "length (chunks n bs) = Suc (div_ceil (length bs - n) n)" by (simp add: chunks_step)
    also have "\<dots> = div_ceil (length bs) n" using False 1(2) by (simp add: div_ceil_step)
    finally show ?thesis .
  qed (simp add: div_ceil_def)
qed

interpretation history_transfer: transfer chunks
proof (unfold_locales, goal_cases)
  case (2 n p bs)
  then show ?case by (simp only: chunk_size)
qed (simp_all add: concat_chunks length_chunks)

section \<open>The frames are what the receiver expects\<close>

definition encodes :: "'x query_env_scheme \<Rightarrow> history_message list \<Rightarrow> string list \<Rightarrow> bool" where
  "encodes S ms fs \<longleftrightarrow> list_all2 (\<lambda>m f. typed_frame S m = Inr f) ms fs"

lemma encodes_simps [simp]:
  "encodes S [] []" "encodes S (m # ms) (f # fs) \<longleftrightarrow> typed_frame S m = Inr f \<and> encodes S ms fs"
  by (simp_all add: encodes_def)

lemma encodes_append: "encodes S ms fs \<Longrightarrow> encodes S ms' fs' \<Longrightarrow> encodes S (ms @ ms') (fs @ fs')"
  by (simp add: encodes_def list_all2_appendI)

definition bounded_chunks :: "'x query_env_scheme \<Rightarrow> history_message list \<Rightarrow> bool" where
  "bounded_chunks S ms \<longleftrightarrow>
     (\<forall>c. ChunkMsg c \<in> set ms \<longrightarrow> 0 < length (hc_bytes c) \<and> length (hc_bytes c) \<le> max_history_chunk_payload_bytes S)"

lemma bounded_chunks_append [simp]: "bounded_chunks S (ms @ ms') \<longleftrightarrow> bounded_chunks S ms \<and> bounded_chunks S ms'"
  by (auto simp: bounded_chunks_def)

lemma chunk_frames:
  assumes "append_chunk_frames S oid frames k ps = Inr fs" and "k + length ps \<le> 2 ^ 32"
  shows "\<exists>cs gs. fs = frames @ gs \<and> encodes S (map ChunkMsg cs) gs \<and> numbered oid k ps cs"
  using assms
proof (induction ps arbitrary: frames k)
  case (Cons p ps)
  from Cons.prems(1) obtain c f where c: "history_chunk_of S oid k p = Inr c" and f: "typed_frame S (ChunkMsg c) = Inr f"
    and rest: "append_chunk_frames S oid (frames @ [f]) (k + 1) ps = Inr fs" by (auto simp: try_with_Inr)
  from Cons.IH [OF rest] Cons.prems(2) obtain cs gs where "fs = (frames @ [f]) @ gs" "encodes S (map ChunkMsg cs) gs"
    "numbered oid (k + 1) ps cs" by auto
  moreover have "hc_bytes c = p" "hc_chunk_ordinal c = k" "hc_object_identity c = oid"
    using c Cons.prems(2) by (auto simp: history_chunk_of_def result_simps Let_def)
  ultimately show ?case using f by (intro exI [of _ "c # cs"] exI [of _ "f # gs"]) simp
qed (intro exI [of _ "[]"], simp)

text \<open>What the receiver takes off the front of the messages \<open>ms\<close>, whatever follows them.\<close>

definition carries :: "'x query_env_scheme \<Rightarrow> string \<Rightarrow> nat \<Rightarrow> string \<Rightarrow> object_kind \<Rightarrow> history_object \<Rightarrow> string \<Rightarrow> history_message list \<Rightarrow> bool" where
  "carries S mid k cat kind ob bytes ms \<longleftrightarrow>
     (\<forall>rest. take_object S mid k cat kind (ob_object_identity ob) (ms @ rest) = Some (bytes, rest)) \<and> bounded_chunks S ms"

lemma object_frames:
  assumes "0 < max_history_chunk_payload_bytes S" and "history_object_of S mf k cat kind bytes = Inr ob"
    and "append_object_frames S frames ob bytes = Inr fs"
  shows "\<exists>ms gs. fs = frames @ gs \<and> encodes S ms gs \<and> carries S (mf_manifest_identity mf) k cat kind ob bytes ms"
proof -
  let ?n = "max_history_chunk_payload_bytes S"
  have ob: "ob_chunk_count ob = div_ceil (length bytes) ?n" "ob_chunk_count ob < 2 ^ 32" "ob_byte_length ob = length bytes"
    "ob_content_identity ob = content_identity_of S bytes" "ob_manifest_identity ob = mf_manifest_identity mf"
    "ob_entry_ordinal ob = k" "ob_catalog_identity ob = cat" "ob_object_kind ob = kind"
    using assms(2) by (auto simp: history_object_of_def result_simps Let_def split: if_splits)
  from assms(3) obtain f where f: "typed_frame S (ObjectMsg ob) = Inr f"
    and run: "append_chunk_frames S (ob_object_identity ob) (frames @ [f]) 0 (chunks ?n bytes) = Inr fs"
    by (auto simp: append_object_frames_def try_with_Inr)
  have "0 + length (chunks ?n bytes) \<le> 2 ^ 32" using ob(1,2) length_chunks [OF assms(1), of bytes] by linarith
  from chunk_frames [OF run this] obtain cs gs where fs: "fs = (frames @ [f]) @ gs"
    and cs: "encodes S (map ChunkMsg cs) gs" "numbered (ob_object_identity ob) 0 (chunks ?n bytes) cs" by blast
  note sent = history_transfer.transferred [OF assms(1) cs(2)]
  have "carries S (mf_manifest_identity mf) k cat kind ob bytes (ObjectMsg ob # map ChunkMsg cs)"
    using sent ob by (auto simp: carries_def take_object_def bounded_chunks_def)
  with fs f cs(1) show ?thesis by (intro exI [of _ "ObjectMsg ob # map ChunkMsg cs"] exI [of _ "f # gs"]) simp
qed

lemma entry_frames:
  assumes "0 < max_history_chunk_payload_bytes S" and "append_entry_frames S frames mf k cat a s d = Inr fs"
  shows "\<exists>ms gs. fs = frames @ gs \<and> encodes S ms gs \<and> bounded_chunks S ms \<and>
    (\<forall>cats rest. take_entries S (mf_manifest_identity mf) k (cat # cats) (ms @ rest) =
       map_option (\<lambda>(cs, rest). ((a, s, d) # cs, rest)) (take_entries S (mf_manifest_identity mf) (k + 1) cats rest))"
proof -
  let ?mid = "mf_manifest_identity mf"
  from assms(2) obtain oa os od en f fa fb where
    obs: "history_object_of S mf k cat ArchiveObject a = Inr oa" "history_object_of S mf k cat ContractSnapshotObject s = Inr os"
      "history_object_of S mf k cat SidecarObject d = Inr od" and
    entry: "history_entry_of S mf k cat oa os od = Inr en" and f: "typed_frame S (EntryMsg en) = Inr f" and
    runs: "append_object_frames S (frames @ [f]) oa a = Inr fa" "append_object_frames S fa os s = Inr fb"
      "append_object_frames S fb od d = Inr fs"
    unfolding append_entry_frames_def try_with_Inr by blast
  from entry have en: "en_manifest_identity en = ?mid" "en_entry_ordinal en = k" "en_catalog_identity en = cat"
      "en_archive_object_identity en = ob_object_identity oa" "en_contract_snapshot_object_identity en = ob_object_identity os"
      "en_sidecar_object_identity en = ob_object_identity od"
    by (auto simp: history_entry_of_def result_simps Let_def)
  from object_frames [OF assms(1) obs(1) runs(1)] object_frames [OF assms(1) obs(2) runs(2)] object_frames [OF assms(1) obs(3) runs(3)]
  obtain ma ga ms gs md gd where fs: "fs = (((frames @ [f]) @ ga) @ gs) @ gd"
    and enc: "encodes S ma ga" "encodes S ms gs" "encodes S md gd"
    and carry: "carries S ?mid k cat ArchiveObject oa a ma" "carries S ?mid k cat ContractSnapshotObject os s ms"
      "carries S ?mid k cat SidecarObject od d md" by blast
  have "encodes S (EntryMsg en # ma @ ms @ md) (f # ga @ gs @ gd)" using f enc by (simp add: encodes_append)
  moreover have "bounded_chunks S (EntryMsg en # ma @ ms @ md)"
    using carry by (auto simp: carries_def bounded_chunks_def)
  moreover have "take_entries S ?mid k (cat # cats) ((EntryMsg en # ma @ ms @ md) @ rest) =
       map_option (\<lambda>(cs, rest). ((a, s, d) # cs, rest)) (take_entries S ?mid (k + 1) cats rest)" for cats rest
    using carry en by (simp add: carries_def)
  ultimately show ?thesis using fs by (intro exI [of _ "EntryMsg en # ma @ ms @ md"] exI [of _ "f # ga @ gs @ gd"]) simp
qed

lemma all_frames:
  assumes "0 < max_history_chunk_payload_bytes S" and "append_all_frames S mf frames k xs = Inr fs" and "k + length xs \<le> 2 ^ 32"
  shows "\<exists>ms gs. fs = frames @ gs \<and> encodes S ms gs \<and> bounded_chunks S ms \<and>
    (\<forall>rest. take_entries S (mf_manifest_identity mf) k (map (\<lambda>x. ce_identity (fst x)) xs) (ms @ rest) = Some (map snd xs, rest))"
  using assms(2,3)
proof (induction xs arbitrary: frames k)
  case (Cons x xs)
  obtain e a s d where x: "x = (e, a, s, d)" by (cases x)
  from Cons.prems obtain f1 where run: "append_entry_frames S frames mf k (ce_identity e) a s d = Inr f1"
    and rest: "append_all_frames S mf f1 (k + 1) xs = Inr fs" by (auto simp: x try_with_Inr)
  from entry_frames [OF assms(1) run] obtain ms gs where one: "f1 = frames @ gs" "encodes S ms gs" "bounded_chunks S ms"
    "\<And>cats rest. take_entries S (mf_manifest_identity mf) k (ce_identity e # cats) (ms @ rest) =
       map_option (\<lambda>(cs, rest). ((a, s, d) # cs, rest)) (take_entries S (mf_manifest_identity mf) (k + 1) cats rest)" by blast
  from Cons.IH [OF rest] Cons.prems(2) obtain ms' gs' where more: "fs = f1 @ gs'" "encodes S ms' gs'" "bounded_chunks S ms'"
    "\<And>rest. take_entries S (mf_manifest_identity mf) (k + 1) (map (\<lambda>x. ce_identity (fst x)) xs) (ms' @ rest) = Some (map snd xs, rest)"
    by auto
  from one more show ?case
    by (intro exI [of _ "ms @ ms'"] exI [of _ "gs @ gs'"]) (simp add: x encodes_append del: take_entries.simps)
qed (intro exI [of _ "[]"], simp add: bounded_chunks_def)

section \<open>What is read\<close>

definition stored_blob :: "'x history_env_scheme \<Rightarrow> history_binding \<Rightarrow> history_blob \<Rightarrow> string \<Rightarrow> world \<Rightarrow> bool" where
  "stored_blob E B b bs w \<longleftrightarrow> content_identity_of E bs = bl_content_identity b \<and>
     (\<exists>name n. identity_file_name (bl_content_identity b) = Inr name \<and> node_at w (path_join (hb_blob_root B) name) = Some n \<and>
        exact_file E 0 n \<and> n_bytes n = bs)"

lemma read_blob_Ok:
  assumes "read_blob E B b w = (Ok bs, w')"
  shows "stored_blob E B b bs w \<and> node_at w' = node_at w"
proof -
  from assms obtain name m w1 where name: "identity_file_name (bl_content_identity b) = Inr name"
    and run: "read_exact_file E (hb_blob_root B) name 0 (Some (bl_content_identity b)) w = (Ok (bs, m), w1)" and w': "w' = w1"
    by (auto simp: read_blob_def and_then_Ok_iff lift_result_Ok_iff split: if_splits)
  from run obtain d w2 x where d: "open_protected_directory (hb_blob_root B) 0 w = (Ok d, w2)"
    and t: "try_read_exact_file_at E d name 0 (Some (bl_content_identity b)) w2 = (Ok (Some (bs, m)), w1)"
    by (auto simp: read_exact_file_def and_then_Ok_iff split: option.splits)
  have same: "node_at w2 = node_at w" "node_at w1 = node_at w"
    using same_nodes [OF history_looks(1) d] same_nodes [OF read_exact_looks run] by auto
  from try_read_Ok [OF t] open_directory_Ok [OF d] same name w' show ?thesis by (auto simp: stored_blob_def)
qed

definition entry_content_of ::
  "'x query_env_scheme \<Rightarrow> history_binding \<Rightarrow> string \<Rightarrow> world \<Rightarrow> catalog_entry \<Rightarrow> entry_content \<Rightarrow> bool" where
  "entry_content_of S B producer w e c \<longleftrightarrow>
     (case c of (a, s, d) \<Rightarrow> stored_blob S B (ce_archive_blob e) a w \<and> stored_blob S B (ce_contract_snapshot_blob e) s w \<and>
        stored_blob S B (ce_sidecar_blob e) d w \<and>
        (\<exists>sc. sidecar_from_slice S d = Some sc \<and> sidecar_verifies S producer sc \<and> entry_matches S e sc a s))"

lemma read_entry_Ok:
  assumes "read_entry S B producer e w = (Ok c, w')"
  shows "entry_content_of S B producer w e c \<and> node_at w' = node_at w"
proof -
  from assms obtain a s d w1 w2 where c: "c = (a, s, d)" and
    reads: "read_blob S B (ce_archive_blob e) w = (Ok a, w1)" "read_blob S B (ce_contract_snapshot_blob e) w1 = (Ok s, w2)"
      "read_blob S B (ce_sidecar_blob e) w2 = (Ok d, w')" and
    sc: "\<exists>sc. sidecar_from_slice S d = Some sc \<and> sidecar_verifies S producer sc \<and> entry_matches S e sc a s"
    by (auto simp: read_entry_def and_then_Ok_iff map_err_Ok_iff split: option.splits if_splits)
  from reads [THEN read_blob_Ok] sc show ?thesis by (auto simp: c entry_content_of_def stored_blob_def)
qed

lemma read_entries_Ok:
  assumes "read_entries S B producer used es w = (Ok (cs, used'), w')"
  shows "list_all2 (entry_content_of S B producer w) es cs \<and> used' = used + content_bytes cs \<and> node_at w' = node_at w"
  using assms
proof (induction es arbitrary: used w cs)
  case (Cons e es)
  from Cons.prems obtain a s d w1 n cs' where one: "read_entry S B producer e w = (Ok (a, s, d), w1)"
    and n: "Option.bind (Option.bind (checked_add_u64 used (length a)) (\<lambda>n. checked_add_u64 n (length s)))
         (\<lambda>n. checked_add_u64 n (length d)) = Some n"
    and rest: "read_entries S B producer n es w1 = (Ok (cs', used'), w')" and cs: "cs = (a, s, d) # cs'"
    by (auto simp: and_then_Ok_iff split: option.splits)
  have "n = used + length a + length s + length d"
    using n by (auto simp: checked_add_u64_def Option.bind_eq_Some_conv split: if_splits)
  moreover have "entry_content_of S B producer w1 = entry_content_of S B producer w"
    using read_entry_Ok [OF one] by (simp add: entry_content_of_def stored_blob_def fun_eq_iff)
  ultimately show ?case using read_entry_Ok [OF one] Cons.IH [OF rest] by (simp add: cs content_bytes_def)
qed (simp add: content_bytes_def)

lemma load_catalog_looks: "touches S (load_catalog_entries E B M)"
proof -
  have "touches S (load_catalog_file E B M dir name)" for dir name
    unfolding load_catalog_file_def by (intro touches_intros) (auto intro!: touches_intros split: option.splits)
  then have "touches S (load_catalog_files (load_catalog_file E B M dir) names)" for dir names
    by (induction names) (auto intro!: touches_intros)
  then show ?thesis unfolding load_catalog_entries_def list_directory_names_def by (intro touches_intros)
qed

lemma prepare_response_exact:
  assumes "0 < max_history_chunk_payload_bytes S" and "length selected < 2 ^ 32" and "length contents = length selected"
    and "prepare_response S B M q o_id selected contents (content_bytes contents) = Inr response"
  shows "\<exists>ms. encodes S ms (pr_frames response) \<and> bounded_chunks S ms \<and>
    receive_response S q (ms @ [ManifestTerminalMsg (pr_terminal response)]) = Some (zip (map ce_identity selected) contents)"
proof -
  from assms(4) obtain mf f fs t where mf: "manifest_of S B M q o_id selected (content_bytes contents) = Inr mf"
    and f: "typed_frame S (ManifestMsg mf) = Inr f" and fs: "append_all_frames S mf [f] 0 (zip selected contents) = Inr fs"
    and t: "terminal_of S q mf (length selected) = Inr t" and r: "response = \<lparr>pr_frames = fs, pr_terminal = t\<rparr>"
    by (auto simp: prepare_response_def try_with_Inr)
  from mf assms(2) have m: "mf_query_identity mf = hq_query_identity q" "mf_catalog_entry_identities mf = map ce_identity selected"
    "mf_total_selected_count mf = length selected" "mf_bounded_response_bytes mf = content_bytes contents"
    by (auto simp: manifest_of_def result_simps Let_def)
  from t assms(2) have t': "ht_query_identity t = hq_query_identity q" "ht_manifest_identity t = mf_manifest_identity mf"
    "ht_returned_count t = length selected" "ht_posture t = Complete"
    by (auto simp: terminal_of_def result_simps Let_def)
  have ids: "map (\<lambda>x. ce_identity (fst x)) (zip selected contents) = map ce_identity selected"
    "map snd (zip selected contents) = contents"
    using assms(3) by (simp_all add: map_fst_zip flip: map_map [unfolded comp_def])
  have "0 + length (zip selected contents) \<le> 2 ^ 32" using assms(2) by simp
  from all_frames [OF assms(1) fs this] obtain ms gs where g: "fs = [f] @ gs" "encodes S ms gs" "bounded_chunks S ms"
    "take_entries S (mf_manifest_identity mf) 0 (map ce_identity selected) (ms @ [ManifestTerminalMsg t]) =
       Some (contents, [ManifestTerminalMsg t])" unfolding ids by blast
  then have "receive_response S q ((ManifestMsg mf # ms) @ [ManifestTerminalMsg t]) = Some (zip (map ce_identity selected) contents)"
    using m t' assms(3) by (simp add: receive_response_def)
  with g f r show ?thesis by (intro exI [of _ "ManifestMsg mf # ms"]) (simp add: bounded_chunks_def)
qed

text \<open>
  C25. A prepared response carries exactly the selected entries, and stays within its bounds. Whenever
  \<open>build_response\<close> succeeds, under whatever faults of the files, the catalog was loaded and the selection is
  the whole catalog, or the one entry with the archive the query names. The frames encode messages from which a
  receiver that checks identities, ordinals, counts, lengths and hashes puts together, in the order of the
  catalog, exactly the three files of every selected entry. These bytes are in the blob store under the
  hashes the entry names, and the sidecar was verified and belongs to the entry. There are no more entries and
  no more bytes than the binding allows, no chunk is empty or larger than the protocol allows, and no file has
  changed.
\<close>

theorem response_exact:
  assumes "build_response S B M q o_id w = (Ok response, w')" and "0 < max_history_chunk_payload_bytes S"
    and "hb_maximum_entry_count B < 2 ^ 32"
  shows "\<exists>es w1 selected contents producer ms. load_catalog_entries S B M w = (Ok es, w1) \<and> select_entries q es = Inr selected \<and>
    encodes S ms (pr_frames response) \<and> bounded_chunks S ms \<and>
    receive_response S q (ms @ [ManifestTerminalMsg (pr_terminal response)]) = Some (zip (map ce_identity selected) contents) \<and>
    list_all2 (entry_content_of S B producer w) selected contents \<and>
    length selected \<le> hb_maximum_entry_count B \<and> content_bytes contents \<le> hb_maximum_response_bytes B \<and> node_at w' = node_at w"
proof -
  from assms(1) obtain es w1 selected producer contents used w2 where
    load: "load_catalog_entries S B M w = (Ok es, w1)" and sel: "select_entries q es = Inr selected"
    and few: "length selected \<le> hb_maximum_entry_count B"
    and read: "read_entries S B producer 0 selected w1 = (Ok (contents, used), w2)" and small: "used \<le> hb_maximum_response_bytes B"
    and prep: "prepare_response S B M q o_id selected contents used = Inr response" and w': "w' = w2"
    by (auto simp: build_response_def and_then_Ok_iff map_err_Ok_iff lift_result_Ok_iff not_less split: if_splits option.splits)
  have same: "node_at w1 = node_at w" using same_nodes [OF load_catalog_looks load] by blast
  from read_entries_Ok [OF read] have r: "list_all2 (entry_content_of S B producer w1) selected contents"
    "used = content_bytes contents" "node_at w2 = node_at w1" by auto
  have "entry_content_of S B producer w1 = entry_content_of S B producer w"
    using same by (simp add: entry_content_of_def stored_blob_def fun_eq_iff)
  with r same w' have here: "list_all2 (entry_content_of S B producer w) selected contents" "node_at w' = node_at w" by simp_all
  from r(1) have "length contents = length selected" by (simp add: list_all2_lengthD)
  from prepare_response_exact [OF assms(2) le_less_trans [OF few assms(3)] this prep [unfolded r(2)]] obtain ms where
    "encodes S ms (pr_frames response)" "bounded_chunks S ms"
    "receive_response S q (ms @ [ManifestTerminalMsg (pr_terminal response)]) = Some (zip (map ce_identity selected) contents)" by blast
  with load sel few here small r(2) show ?thesis by blast
qed

end
