(* ===== verification/History_Binding.thy ===== *)
theory History_Binding
  imports History_Catalog Installation_Manifest
begin

text \<open>
  The binding of the protected history (\<open>load_protected_history_binding\<close> of
  \<open>src/protected_history.rs\<close>): the file that says which client may ask, where the store is and which
  repository has which catalog. Loading one is the precondition of every attachment; the theory shows
  that a loaded binding gives the store the properties of \<open>History_Catalog\<close> are about, and that two
  mappings never share a catalog, and that the installation of the history was verified against the
  manifest the binding names.
\<close>


section \<open>Loading and validating\<close>

record binding_env = installation_env +
  history_protocol_profile :: string
  max_history_entry_count :: nat
  binding_message_identity :: "string \<Rightarrow> history_binding \<Rightarrow> string option"
  mapping_message_identity :: "string \<Rightarrow> repository_mapping \<Rightarrow> string option"
  binding_from_slice :: "string \<Rightarrow> history_binding option"
  current_exe :: "path option"

definition HISTORY_BINDING_PATH :: path where
  "HISTORY_BINDING_PATH = [RootDir, Normal ''etc'', Normal ''ota'', Normal ''authority-history.json'']"

definition HISTORY_SOCKET_PATH :: path where
  "HISTORY_SOCKET_PATH = [RootDir, Normal ''run'', Normal ''ota'', Normal ''authority-history.sock'']"

definition HISTORY_ROOT :: path where
  "HISTORY_ROOT = [RootDir, Normal ''var'', Normal ''lib'', Normal ''ota'', Normal ''authority-launcher'', Normal ''history'']"

definition HISTORY_BLOB_ROOT :: path where
  "HISTORY_BLOB_ROOT = path_join HISTORY_ROOT ''blobs''"

definition HISTORY_CATALOG_ROOT :: path where
  "HISTORY_CATALOG_ROOT = path_join HISTORY_ROOT ''catalog''"

definition HISTORY_BINDING_IDENTITY_DOMAIN_V1 :: string where
  "HISTORY_BINDING_IDENTITY_DOMAIN_V1 = ''ota.authority-launcher.history-binding.v1'' @ [CHR 0x00]"

definition HISTORY_REPOSITORY_MAPPING_IDENTITY_DOMAIN_V1 :: string where
  "HISTORY_REPOSITORY_MAPPING_IDENTITY_DOMAIN_V1 = ''ota.authority-launcher.history-repository-mapping.v1'' @ [CHR 0x00]"

definition MAX_BINDING_BYTES :: nat where
  "MAX_BINDING_BYTES = 256 * 1024"

definition protected_history_binding_identity :: "binding_env \<Rightarrow> history_binding \<Rightarrow> history_error + string" where
  "protected_history_binding_identity K B =
     (case binding_message_identity K HISTORY_BINDING_IDENTITY_DOMAIN_V1 (B\<lparr>hb_identity := []\<rparr>) of
        Some i \<Rightarrow> Inr i | None \<Rightarrow> Inl BindingInvalid)"

definition protected_history_repository_mapping_identity :: "binding_env \<Rightarrow> repository_mapping \<Rightarrow> history_error + string" where
  "protected_history_repository_mapping_identity K m =
     (case mapping_message_identity K HISTORY_REPOSITORY_MAPPING_IDENTITY_DOMAIN_V1 (m\<lparr>rm_identity := []\<rparr>) of
        Some i \<Rightarrow> Inr i | None \<Rightarrow> Inl BindingInvalid)"

definition has_canonical_storage_roots :: "history_binding \<Rightarrow> bool" where
  "has_canonical_storage_roots B \<longleftrightarrow> hb_blob_root B = HISTORY_BLOB_ROOT \<and> hb_catalog_root B = HISTORY_CATALOG_ROOT"

text \<open>The checks of the shape, up to the identity, which may fail by itself.\<close>

definition binding_refused :: "'x history_env_scheme \<Rightarrow> binding_env \<Rightarrow> history_binding \<Rightarrow> bool" where
  "binding_refused E K B \<longleftrightarrow>
     hb_schema_version B \<noteq> 1 \<or> hb_protocol_profile B \<noteq> history_protocol_profile K
     \<or> hb_socket_path B \<noteq> HISTORY_SOCKET_PATH \<or> hb_socket_group_gid B = 0
     \<or> \<not> is_sha256 (hb_installation_manifest_identity B) \<or> hb_operator_uid B = 0
     \<or> hb_operator_gid B \<noteq> hb_socket_group_gid B \<or> \<not> is_sha256 (hb_installed_client_identity B)
     \<or> \<not> is_sha256 (hb_operator_profile_identity B) \<or> \<not> is_sha256 (hb_service_unit_identity B)
     \<or> \<not> is_sha256 (hb_socket_unit_identity B) \<or> \<not> has_canonical_storage_roots B
     \<or> hb_maximum_response_bytes B = 0 \<or> max_history_response_bytes E < hb_maximum_response_bytes B
     \<or> hb_maximum_entry_count B = 0 \<or> max_history_entry_count K < hb_maximum_entry_count B \<or> hb_mappings B = []"

definition mapping_refused :: "'p protocol_scheme \<Rightarrow> repository_mapping \<Rightarrow> bool" where
  "mapping_refused P m \<longleftrightarrow>
     rm_schema_version m \<noteq> 1 \<or> \<not> is_bounded_label (rm_authority_id m)
     \<or> \<not> is_sha256 (rm_repository_binding_identity m) \<or> \<not> is_sha256 (rm_catalog_namespace_identity m)
     \<or> launcher_working_directory_identity P (rm_working_directory m) \<noteq> Some (wd_identity (rm_working_directory m))"

text \<open>The loop over the mappings, with the three sets of what it has seen.\<close>

fun validate_history_mappings ::
  "'p protocol_scheme \<Rightarrow> binding_env \<Rightarrow> path \<Rightarrow> nat \<Rightarrow> path \<Rightarrow> string list \<Rightarrow> string list \<Rightarrow> string list \<Rightarrow>
   repository_mapping list \<Rightarrow> unit history_io" where
  "validate_history_mappings P K catalog uid root ids repositories namespaces [] = ret ()"
| "validate_history_mappings P K catalog uid root ids repositories namespaces (m # ms) =
     (if mapping_refused P m then throw BindingInvalid
      else and_then (lift_result (protected_history_repository_mapping_identity K m)) (\<lambda>i.
        if i \<noteq> rm_identity m \<or> rm_identity m \<in> set ids \<or> rm_repository_binding_identity m \<in> set repositories
           \<or> rm_catalog_namespace_identity m \<in> set namespaces
        then throw BindingInvalid
        else and_then (lift_result (namespace_path catalog (rm_catalog_namespace_identity m))) (\<lambda>dir.
          and_then (map_err (\<lambda>_. StoreUnavailable) (verify_protected_directory dir uid root)) (\<lambda>_.
            validate_history_mappings P K catalog uid root (rm_identity m # ids)
              (rm_repository_binding_identity m # repositories) (rm_catalog_namespace_identity m # namespaces) ms))))"

definition validate_binding ::
  "config_env \<Rightarrow> 'p protocol_scheme \<Rightarrow> 'x history_env_scheme \<Rightarrow> binding_env \<Rightarrow> history_binding \<Rightarrow> nat \<Rightarrow> path \<Rightarrow> unit history_io" where
  "validate_binding C P E K B uid root =
     (if binding_refused E K B then throw BindingInvalid
      else and_then (lift_result (protected_history_binding_identity K B)) (\<lambda>i.
        if i \<noteq> hb_identity B then throw BindingInvalid
        else
          and_then (map_err (\<lambda>_. StoreUnavailable)
            (and_then (verify_protected_directory (hb_blob_root B) uid root) (\<lambda>_.
               verify_protected_directory (hb_catalog_root B) uid root))) (\<lambda>_.
          and_then (map_err (\<lambda>_. BindingInvalid) (open_protected_executable (hb_installed_client_path B) uid root)) (\<lambda>client.
          and_then (map_err (\<lambda>_. BindingInvalid) (sha256_file_identity C client)) (\<lambda>identity.
            if identity \<noteq> hb_installed_client_identity B then throw BindingInvalid
            else (case current_exe K of
              None \<Rightarrow> throw BindingInvalid
            | Some launcher \<Rightarrow>
               and_then (map_err (\<lambda>_. BindingInvalid) (verify_protected_history_installation C K
                    (hb_installation_manifest_identity B) launcher HISTORY_BINDING_PATH (hb_installed_client_path B)
                    (hb_installed_client_identity B) (hb_service_unit_identity B) (hb_socket_unit_identity B))) (\<lambda>_.
                 validate_history_mappings P K (hb_catalog_root B) uid root [] [] [] (hb_mappings B))))))))"

definition load_protected_history_binding_at ::
  "config_env \<Rightarrow> 'p protocol_scheme \<Rightarrow> 'x history_env_scheme \<Rightarrow> binding_env \<Rightarrow> path \<Rightarrow> nat \<Rightarrow> path \<Rightarrow> history_binding history_io" where
  "load_protected_history_binding_at C P E K p uid root =
     and_then (map_err (\<lambda>_. BindingUnavailable) (open_protected_file p uid root)) (\<lambda>file.
     and_then (map_err (\<lambda>_. BindingUnavailable) (fstat file)) (\<lambda>m.
       if MAX_BINDING_BYTES < length (n_bytes m) then throw BindingInvalid
       else and_then (map_err (\<lambda>_. BindingUnavailable) (read_to_end file)) (\<lambda>bytes.
         case binding_from_slice K bytes of
           None \<Rightarrow> throw BindingInvalid
         | Some B \<Rightarrow> and_then (validate_binding C P E K B uid root) (\<lambda>_. ret B))))"

definition load_protected_history_binding_v1 ::
  "config_env \<Rightarrow> 'p protocol_scheme \<Rightarrow> 'x history_env_scheme \<Rightarrow> binding_env \<Rightarrow> history_binding history_io" where
  "load_protected_history_binding_v1 C P E K = load_protected_history_binding_at C P E K HISTORY_BINDING_PATH 0 [RootDir]"

section \<open>What a loaded binding gives\<close>

lemma reads_binding [reads_intros]:
  "reads (validate_history_mappings P K catalog uid root ids repositories namespaces ms)"
  "reads (validate_binding C P E K B uid root)" "reads (load_protected_history_binding_at C P E K p uid root)"
proof -
  have dir: "reads (verify_protected_directory d uid root)" for d
    unfolding verify_protected_directory_def by (intro reads_intros)
  show maps: "reads (validate_history_mappings P K catalog uid root ids repositories namespaces ms)"
    for catalog ids repositories namespaces ms
    by (induction ms arbitrary: ids repositories namespaces)
       (simp_all only: validate_history_mappings.simps, (intro reads_intros dir; assumption?)+)
  show valid: "reads (validate_binding C P E K B uid root)" for B
    unfolding validate_binding_def by (intro reads_intros dir maps)
  show "reads (load_protected_history_binding_at C P E K p uid root)"
    unfolding load_protected_history_binding_at_def by (intro reads_intros valid)
qed

lemma reads_directory [reads_intros]: "reads (verify_protected_directory d uid root)"
  unfolding verify_protected_directory_def by (intro reads_intros)

lemma validate_mappings_Ok:
  assumes "validate_history_mappings P K catalog uid root ids repositories namespaces ms w = (Ok (), w')" and "w_faults w = []"
  shows "distinct (map rm_catalog_namespace_identity ms) \<and> set (map rm_catalog_namespace_identity ms) \<inter> set namespaces = {} \<and>
    (\<forall>m \<in> set ms. \<not> mapping_refused P m \<and> (\<exists>dir. namespace_path catalog (rm_catalog_namespace_identity m) = Inr dir \<and>
       verify_protected_directory dir uid root w = (Ok (), w)))"
  using assms(1)
proof (induction ms arbitrary: ids repositories namespaces)
  case (Cons m ms)
  from Cons.prems obtain dir where fit: "\<not> mapping_refused P m" "rm_catalog_namespace_identity m \<notin> set namespaces"
    and dir: "namespace_path catalog (rm_catalog_namespace_identity m) = Inr dir"
    and run: "and_then (map_err (\<lambda>_. StoreUnavailable) (verify_protected_directory dir uid root)) (\<lambda>_.
      validate_history_mappings P K catalog uid root (rm_identity m # ids)
        (rm_repository_binding_identity m # repositories) (rm_catalog_namespace_identity m # namespaces) ms) w = (Ok (), w')"
    by (auto simp: and_then_Ok_iff [where m = "lift_result _"] lift_result_Ok_iff split: if_splits)
  from run have "verify_protected_directory dir uid root w = (Ok (), w)"
    and rest: "validate_history_mappings P K catalog uid root (rm_identity m # ids)
        (rm_repository_binding_identity m # repositories) (rm_catalog_namespace_identity m # namespaces) ms w = (Ok (), w')"
    by (simp_all add: reads_then_iff reads_map_err reads_directory assms(2) map_err_Ok_iff)
  with Cons.IH [OF rest] fit dir show ?case by fastforce
qed simp

lemma validate_binding_Ok:
  assumes "validate_binding C P E K B uid root w = (Ok (), w')" and "w_faults w = []"
  shows "\<not> binding_refused E K B" "verify_protected_directory (hb_blob_root B) uid root w = (Ok (), w)"
    "distinct (map rm_catalog_namespace_identity (hb_mappings B))"
    "\<And>m. m \<in> set (hb_mappings B) \<Longrightarrow> \<exists>dir. namespace_path (hb_catalog_root B) (rm_catalog_namespace_identity m) = Inr dir \<and>
       verify_protected_directory dir uid root w = (Ok (), w)"
    "\<exists>launcher. current_exe K = Some launcher \<and> verify_protected_history_installation C K (hb_installation_manifest_identity B) launcher
       HISTORY_BINDING_PATH (hb_installed_client_path B) (hb_installed_client_identity B) (hb_service_unit_identity B)
       (hb_socket_unit_identity B) w = (Ok (), w)"
proof -
  from assms(1) have fit: "\<not> binding_refused E K B" by (auto simp: validate_binding_def split: if_splits)
  with assms(1) obtain launcher where d: "verify_protected_directory (hb_blob_root B) uid root w = (Ok (), w)"
    and l: "current_exe K = Some launcher"
    and i: "verify_protected_history_installation C K (hb_installation_manifest_identity B) launcher
       HISTORY_BINDING_PATH (hb_installed_client_path B) (hb_installed_client_identity B) (hb_service_unit_identity B)
       (hb_socket_unit_identity B) w = (Ok (), w)"
    and m: "validate_history_mappings P K (hb_catalog_root B) uid root [] [] [] (hb_mappings B) w = (Ok (), w')"
    by (auto simp: validate_binding_def reads_then_iff reads_intros assms(2) lift_result_Ok_iff map_err_Ok_iff
        split: if_splits option.splits)
  note checked = validate_mappings_Ok [OF m assms(2)]
  show "\<not> binding_refused E K B" by (rule fit)
  show "verify_protected_directory (hb_blob_root B) uid root w = (Ok (), w)" by (rule d)
  show "distinct (map rm_catalog_namespace_identity (hb_mappings B))" using checked by simp
  show "\<exists>dir. namespace_path (hb_catalog_root B) (rm_catalog_namespace_identity m) = Inr dir \<and>
       verify_protected_directory dir uid root w = (Ok (), w)" if "m \<in> set (hb_mappings B)" for m
    using checked that by blast
  show "\<exists>launcher. current_exe K = Some launcher \<and> verify_protected_history_installation C K (hb_installation_manifest_identity B) launcher
       HISTORY_BINDING_PATH (hb_installed_client_path B) (hb_installed_client_identity B) (hb_service_unit_identity B)
       (hb_socket_unit_identity B) w = (Ok (), w)" using l i by blast
qed

lemma loaded_binding_valid:
  assumes "load_protected_history_binding_v1 C P E K w = (Ok B, w')"
  shows "validate_binding C P E K B 0 [RootDir] (calm_world w) = (Ok (), calm_world w)"
proof -
  from readsD(2) [OF reads_binding(3) assms [unfolded load_protected_history_binding_v1_def], of "calm_world w"]
  show ?thesis
    by (auto simp: load_protected_history_binding_at_def reads_then_iff reads_intros map_err_Ok_iff split: if_splits option.splits)
qed

text \<open>
  A loaded binding gives every mapping a store as the properties of attachments ask for it, and no
  other mapping has the same catalog.
\<close>

lemma loaded_binding_stores:
  assumes "load_protected_history_binding_v1 C P E K w = (Ok B, w')" and "w_euid w = 0" and "\<forall>i. nlink E (0, i) = 1"
    and "M \<in> set (hb_mappings B)"
  shows "\<exists>dir. history_store E B M dir w \<and>
    (\<forall>M' \<in> set (hb_mappings B). namespace_path (hb_catalog_root B) (rm_catalog_namespace_identity M') = Inr dir \<longrightarrow> M' = M)"
proof -
  note valid = validate_binding_Ok [OF loaded_binding_valid [OF assms(1)], simplified]
  from valid(1) have roots: "hb_blob_root B = HISTORY_BLOB_ROOT" "hb_catalog_root B = HISTORY_CATALOG_ROOT"
    by (auto simp: binding_refused_def has_canonical_storage_roots_def)
  from valid(4) [OF assms(4)] obtain dir where dir: "namespace_path (hb_catalog_root B) (rm_catalog_namespace_identity M) = Inr dir"
    "verify_protected_directory dir 0 [RootDir] (calm_world w) = (Ok (), calm_world w)" by blast
  then obtain name where name: "dir = path_join HISTORY_CATALOG_ROOT name"
    by (auto simp: namespace_path_def roots split: sum.splits)
  have "history_store E B M dir w"
    using assms(2,3) dir valid(2) roots name
    by (auto simp: history_store_def store_directory_def HISTORY_BLOB_ROOT_def HISTORY_CATALOG_ROOT_def HISTORY_ROOT_def
        path_join_def path_absolute_def)
  moreover have "M' = M" if "M' \<in> set (hb_mappings B)"
    "namespace_path (hb_catalog_root B) (rm_catalog_namespace_identity M') = Inr dir" for M'
  proof -
    from that(2) dir(1) have "rm_catalog_namespace_identity M' = rm_catalog_namespace_identity M"
      by (auto simp: namespace_path_def identity_file_name_iff split: sum.splits)
    with valid(3) that(1) assms(4) show ?thesis by (simp add: distinct_map inj_on_def)
  qed
  ultimately show ?thesis by blast
qed

text \<open>
  The installation behind a loaded binding: the launcher, the binding, the client that may ask, and both units
  of the service are files of one manifest, each the only one of its role, and every file of the manifest
  is on the disk with the content it lists.
\<close>

lemma loaded_binding_installed:
  assumes "load_protected_history_binding_v1 C P E K w = (Ok B, w')"
  shows "\<exists>m. stored_manifest K SYSTEMD_INSTALLATION_MANIFEST_PATH 0 w m \<and>
    protected_history_installation_identity K m = Inr (hb_installation_manifest_identity B) \<and>
    (\<forall>e \<in> set (im_files m). installed_file C 0 w e) \<and>
    only_entry m LauncherExecutable (\<lambda>e. Some (components (fi_path e)) = current_exe K) \<and>
    only_entry m HistoryBinding (\<lambda>e. components (fi_path e) = HISTORY_BINDING_PATH) \<and>
    only_entry m HistoryClientExecutable (\<lambda>e. components (fi_path e) = hb_installed_client_path B \<and>
      fi_identity e = hb_installed_client_identity B) \<and>
    only_entry m HistoryServiceUnit (\<lambda>e. fi_identity e = hb_service_unit_identity B) \<and>
    only_entry m HistorySocketUnit (\<lambda>e. fi_identity e = hb_socket_unit_identity B)"
proof -
  from validate_binding_Ok(5) [OF loaded_binding_valid [OF assms]] obtain launcher where l: "current_exe K = Some launcher"
    and run: "verify_protected_history_installation C K (hb_installation_manifest_identity B) launcher
       HISTORY_BINDING_PATH (hb_installed_client_path B) (hb_installed_client_identity B) (hb_service_unit_identity B)
       (hb_socket_unit_identity B) (calm_world w) = (Ok (), calm_world w)" by auto
  from history_installation_verified(2) [OF run] l show ?thesis
    by (auto simp: stored_manifest_def installed_file_def chain_ok_def)
qed

end
