(* ===== verification/Peer_Observation.thy ===== *)
theory Peer_Observation
  imports Host_Process Wire
begin

text \<open>
  The process at the other end of a socket (\<open>src/linux_observations.rs\<close>): its credentials, a pidfd
  that names it for as long as it is open, and its posture as the process file system shows it.

  The kernel is not code of the repository. What it answers is a parameter, \<open>peer_host\<close>: every
  question is put at a moment of a discrete clock, so that an answer may change between two
  calls. Texts of the process file system that are split at white space are ASCII.
\<close>


section \<open>Moments and answers\<close>

record moment =
  mo_now :: nat

definition later :: "nat \<Rightarrow> 'm moment_scheme \<Rightarrow> 'm moment_scheme" where
  "later n s = s\<lparr>mo_now := mo_now s + n\<rparr>"

lemma later_now [simp]: "mo_now (later n s) = mo_now s + n" "later m (later n s) = later (n + m) s" "later 0 s = s"
  by (simp_all add: later_def add.assoc)

definition observe :: "(nat \<Rightarrow> 'a) \<Rightarrow> ('m moment_scheme, 'e, 'a) proc" where
  "observe f s = (Ok (f (mo_now s)), later 1 s)"

lemma observe_run [simp]: "observe f s = (Ok (f (mo_now s)), later 1 s)"
  by (simp add: observe_def)

record ucred =
  uc_pid :: int
  uc_uid :: nat
  uc_gid :: nat

text \<open>
  A control message that came with a read: credentials or a descriptor, with the length of its
  header, or one of another level or kind.
\<close>

datatype control_message = ScmCredentials nat ucred | ScmPidfd nat int | OtherControl

text \<open>
  \<open>so_peercred\<close> and \<open>so_peerpidfd\<close> are \<open>getsockopt\<close>: a length and a value, or a failure. \<open>poll_pidfd\<close> is
  the result of a \<open>poll\<close> that does not wait, with the events it reports. The files below \<open>/proc\<close> belong
  to a pid; \<open>None\<close> is a file that cannot be opened or read. A link is read without its target
  being resolved, \<open>path_metadata\<close> follows links. \<open>recv_preface\<close> is \<open>recvmsg\<close>: the number of bytes, the
  one-byte buffer, whether anything was truncated, and the control messages.
\<close>

record peer_host =
  so_peercred :: "nat \<Rightarrow> (nat \<times> ucred) option"
  so_peerpidfd :: "nat \<Rightarrow> (nat \<times> int) option"
  set_cloexec :: "nat \<Rightarrow> int \<Rightarrow> bool"
  poll_pidfd :: "nat \<Rightarrow> int \<Rightarrow> int \<times> int"
  proc_status_open :: "nat \<Rightarrow> nat \<Rightarrow> bool"
  proc_status_length :: "nat \<Rightarrow> nat \<Rightarrow> nat option"
  proc_status_read :: "nat \<Rightarrow> nat \<Rightarrow> string option"
  proc_exe_read :: "nat \<Rightarrow> nat \<Rightarrow> string option"
  proc_cwd_link :: "nat \<Rightarrow> nat \<Rightarrow> string option"
  path_metadata :: "nat \<Rightarrow> string \<Rightarrow> fnode option"
  proc_stat_read :: "nat \<Rightarrow> nat \<Rightarrow> string option"
  file_sha256_hex :: "string \<Rightarrow> string"
  set_socket_option :: "nat \<Rightarrow> nat \<Rightarrow> bool"
  write_challenge :: "nat \<Rightarrow> string \<Rightarrow> bool"
  recv_preface :: "nat \<Rightarrow> (int \<times> string \<times> bool \<times> control_message list)"

datatype observation_error =
    PeerCredentialsUnavailable | PeerCredentialsMismatch | ProcessStatusUnavailable
  | ProcessStatusMalformed | ProcessStatusMismatch | ProcessExecutableMismatch

record observed_session_peer =
  op_pidfd :: int
  op_pid :: nat
  op_uid :: nat
  op_gid :: nat

record verified_peer_process_status =
  vs_pid :: nat
  vs_uid :: nat
  vs_gid :: nat

type_synonym ('m, 'a) peer_op = "('m moment_scheme, observation_error, 'a) proc"


section \<open>The text of a process status\<close>

definition MAX_PROC_STATUS_BYTES :: nat where
  "MAX_PROC_STATUS_BYTES = 64 * 1024"

definition split_once :: "char \<Rightarrow> string \<Rightarrow> (string \<times> string) option" where
  "split_once c s =
     (if c \<in> set s then Some (takeWhile (\<lambda>x. x \<noteq> c) s, tl (dropWhile (\<lambda>x. x \<noteq> c) s)) else None)"

definition trim_spaces :: "string \<Rightarrow> string" where
  "trim_spaces s = rev (dropWhile is_space (rev (dropWhile is_space s)))"

text \<open>The loop of \<open>parse_unique_status_fields\<close> with the map it has built.\<close>

fun status_fields_from :: "(string \<times> string) list \<Rightarrow> string list \<Rightarrow> observation_error + (string \<times> string) list" where
  "status_fields_from found [] = Inr found"
| "status_fields_from found (line # ls) =
     (case split_once CHR '':'' line of
        None \<Rightarrow> Inl ProcessStatusMalformed
      | Some (name, v) \<Rightarrow>
          if map_of found name \<noteq> None then Inl ProcessStatusMalformed
          else status_fields_from (bt_insert name v found) ls)"

definition parse_unique_status_fields :: "string \<Rightarrow> observation_error + (string \<times> string) list" where
  "parse_unique_status_fields status = status_fields_from [] (text_lines status)"

definition required_field :: "(string \<times> string) list \<Rightarrow> string \<Rightarrow> observation_error + string" where
  "required_field found name =
     (case map_of found name of Some v \<Rightarrow> Inr v | None \<Rightarrow> Inl ProcessStatusMalformed)"

text \<open>\<open>collect\<close> into a \<open>Result\<close>: the numbers, or a failure.\<close>

fun parse_each :: "string list \<Rightarrow> observation_error + nat list" where
  "parse_each [] = Inr []"
| "parse_each (s # ss) =
     (case parse_u32 s of
        None \<Rightarrow> Inl ProcessStatusMalformed
      | Some n \<Rightarrow> (case parse_each ss of Inl e \<Rightarrow> Inl e | Inr ns \<Rightarrow> Inr (n # ns)))"

definition parse_four_ids :: "string \<Rightarrow> observation_error + nat list" where
  "parse_four_ids v =
     (case parse_each (split_whitespace v) of
        Inl e \<Rightarrow> Inl e
      | Inr ns \<Rightarrow> if length ns = 4 then Inr ns else Inl ProcessStatusMalformed)"

definition supplementary_groups_limited_to_primary :: "string \<Rightarrow> nat \<Rightarrow> observation_error + bool" where
  "supplementary_groups_limited_to_primary v primary_gid =
     (case parse_each (split_whitespace v) of
        Inl e \<Rightarrow> Inl e
      | Inr ns \<Rightarrow> Inr (list_all (\<lambda>g. g = primary_gid) ns))"

text \<open>\<open>u64::from_str_radix\<close> at sixteen: a sign, digits of either case, a value of 64 bits.\<close>

definition hex_digit_value :: "char \<Rightarrow> int" where
  "hex_digit_value c =
     (if is_ascii_digit c then of_char c - 48 else if is_ascii_lowercase c then of_char c - 87 else of_char c - 55)"

definition hex_value :: "string \<Rightarrow> int" where
  "hex_value s = foldl (\<lambda>n c. 16 * n + hex_digit_value c) 0 s"

definition parse_hex :: "string \<Rightarrow> observation_error + int" where
  "parse_hex v =
     (let s = trim_spaces v; ds = (case s of CHR ''+'' # r \<Rightarrow> r | _ \<Rightarrow> s) in
      if ds \<noteq> [] \<and> list_all is_ascii_hexdigit ds \<and> hex_value ds < 2 ^ 64 then Inr (hex_value ds)
      else Inl ProcessStatusMalformed)"

text \<open>One disjunct of the condition: the field is read and parsed only when those before it were as they should be.\<close>

definition field_must ::
  "(string \<times> string) list \<Rightarrow> string \<Rightarrow> (string \<Rightarrow> observation_error + 'v) \<Rightarrow> ('v \<Rightarrow> bool) \<Rightarrow>
   observation_error + 'r \<Rightarrow> observation_error + 'r" where
  "field_must found name parse good rest =
     (case required_field found name of
        Inl e \<Rightarrow> Inl e
      | Inr text \<Rightarrow>
         (case parse text of
            Inl e \<Rightarrow> Inl e
          | Inr v \<Rightarrow> if good v then rest else Inl ProcessStatusMismatch))"

definition verify_peer_process_status_text ::
  "nat \<Rightarrow> nat \<Rightarrow> nat \<Rightarrow> string \<Rightarrow> observation_error + verified_peer_process_status" where
  "verify_peer_process_status_text pid uid gid status =
     (case parse_unique_status_fields status of
        Inl e \<Rightarrow> Inl e
      | Inr found \<Rightarrow>
          field_must found ''Uid'' parse_four_ids (\<lambda>ids. ids = replicate 4 uid)
         (field_must found ''Gid'' parse_four_ids (\<lambda>ids. ids = replicate 4 gid)
         (field_must found ''Groups'' (\<lambda>v. supplementary_groups_limited_to_primary v gid) (\<lambda>b. b)
         (field_must found ''CapInh'' parse_hex (\<lambda>n. n = 0)
         (field_must found ''CapPrm'' parse_hex (\<lambda>n. n = 0)
         (field_must found ''CapEff'' parse_hex (\<lambda>n. n = 0)
         (field_must found ''CapAmb'' parse_hex (\<lambda>n. n = 0)
         (field_must found ''NoNewPrivs'' Inr (\<lambda>v. trim_spaces v = ''1'')
            (Inr \<lparr>vs_pid = pid, vs_uid = uid, vs_gid = gid\<rparr>)))))))))"


section \<open>The connected peer\<close>

definition socket_peer_credentials :: "peer_host \<Rightarrow> ('m, ucred) peer_op" where
  "socket_peer_credentials H =
     and_then (observe (so_peercred H)) (\<lambda>answer.
       case answer of
         None \<Rightarrow> throw PeerCredentialsUnavailable
       | Some (len, c) \<Rightarrow> if len \<noteq> 12 \<or> uc_pid c \<le> 0 then throw PeerCredentialsUnavailable else ret c)"

definition socket_peer_pidfd :: "peer_host \<Rightarrow> ('m, int) peer_op" where
  "socket_peer_pidfd H =
     and_then (observe (so_peerpidfd H)) (\<lambda>answer.
       case answer of
         None \<Rightarrow> throw PeerCredentialsUnavailable
       | Some (len, fd) \<Rightarrow>
           if len \<noteq> 4 \<or> fd < 0 then throw PeerCredentialsUnavailable
           else and_then (observe (\<lambda>t. set_cloexec H t fd)) (\<lambda>closed.
             if closed then ret fd else throw PeerCredentialsUnavailable))"

definition require_live_pidfd :: "peer_host \<Rightarrow> int \<Rightarrow> ('m, unit) peer_op" where
  "require_live_pidfd H fd =
     and_then (observe (\<lambda>t. poll_pidfd H t fd)) (\<lambda>(observed, revents).
       if observed \<noteq> 0 \<or> revents \<noteq> 0 then throw PeerCredentialsUnavailable else ret ())"

definition observe_connected_peer :: "peer_host \<Rightarrow> ('m, observed_session_peer) peer_op" where
  "observe_connected_peer H =
     and_then (socket_peer_credentials H) (\<lambda>c.
     and_then (socket_peer_pidfd H) (\<lambda>fd.
     and_then (require_live_pidfd H fd) (\<lambda>_.
       ret \<lparr>op_pidfd = fd, op_pid = nat (uc_pid c), op_uid = uc_uid c, op_gid = uc_gid c\<rparr>)))"

definition revalidate_observed_peer :: "peer_host \<Rightarrow> observed_session_peer \<Rightarrow> ('m, unit) peer_op" where
  "revalidate_observed_peer H peer = require_live_pidfd H (op_pidfd peer)"

definition revalidate_connected_peer :: "peer_host \<Rightarrow> observed_session_peer \<Rightarrow> ('m, unit) peer_op" where
  "revalidate_connected_peer H peer =
     and_then (require_live_pidfd H (op_pidfd peer)) (\<lambda>_.
     and_then (socket_peer_credentials H) (\<lambda>c.
       if nat (uc_pid c) \<noteq> op_pid peer \<or> uc_uid c \<noteq> op_uid peer \<or> uc_gid c \<noteq> op_gid peer
       then throw PeerCredentialsMismatch else require_live_pidfd H (op_pidfd peer)))"

definition reconcile_connected_peer :: "peer_host \<Rightarrow> observed_session_peer \<Rightarrow> nat \<Rightarrow> nat \<Rightarrow> ('m, unit) peer_op" where
  "reconcile_connected_peer H peer uid gid =
     and_then (require_live_pidfd H (op_pidfd peer)) (\<lambda>_.
       if op_uid peer \<noteq> uid \<or> op_gid peer \<noteq> gid then throw PeerCredentialsMismatch else ret ())"

text \<open>The executable is hashed as a whole; the loop over its blocks feeds one hash.\<close>

definition verify_peer_executable_identity :: "peer_host \<Rightarrow> observed_session_peer \<Rightarrow> string \<Rightarrow> ('m, unit) peer_op" where
  "verify_peer_executable_identity H peer expected =
     and_then (require_live_pidfd H (op_pidfd peer)) (\<lambda>_.
     and_then (observe (\<lambda>t. proc_exe_read H t (op_pid peer))) (\<lambda>content.
       case content of
         None \<Rightarrow> throw ProcessExecutableMismatch
       | Some bytes \<Rightarrow>
           if ''sha256:'' @ file_sha256_hex H bytes \<noteq> expected then throw ProcessExecutableMismatch
           else require_live_pidfd H (op_pidfd peer)))"

definition verify_peer_process_status :: "peer_host \<Rightarrow> observed_session_peer \<Rightarrow> ('m, verified_peer_process_status) peer_op" where
  "verify_peer_process_status H peer =
     and_then (require_live_pidfd H (op_pidfd peer)) (\<lambda>_.
     and_then (observe (\<lambda>t. proc_status_open H t (op_pid peer))) (\<lambda>opened.
       if \<not> opened then throw ProcessStatusUnavailable
       else and_then (observe (\<lambda>t. proc_status_length H t (op_pid peer))) (\<lambda>len.
         case len of
           None \<Rightarrow> throw ProcessStatusUnavailable
         | Some n \<Rightarrow>
             if n > MAX_PROC_STATUS_BYTES then throw ProcessStatusMalformed
             else and_then (observe (\<lambda>t. proc_status_read H t (op_pid peer))) (\<lambda>content.
               case map_option (take (MAX_PROC_STATUS_BYTES + 1)) content of
                 None \<Rightarrow> throw ProcessStatusUnavailable
               | Some status \<Rightarrow>
                   if \<not> utf8_valid status then throw ProcessStatusUnavailable
                   else if length status > MAX_PROC_STATUS_BYTES then throw ProcessStatusMalformed
                   else and_then (lift_result (verify_peer_process_status_text (op_pid peer) (op_uid peer) (op_gid peer) status))
                     (\<lambda>verified. and_then (require_live_pidfd H (op_pidfd peer)) (\<lambda>_. ret verified))))))"

section \<open>The preface of an accepting service\<close>

definition SO_PASSCRED :: nat where
  "SO_PASSCRED = 16"

definition SO_PASSPIDFD :: nat where
  "SO_PASSPIDFD = 76"

definition BROKER_PROXY_IDENTITY_CHALLENGE :: string where
  "BROKER_PROXY_IDENTITY_CHALLENGE = ''I''"

definition BROKER_PROXY_IDENTITY_PREFACE :: string where
  "BROKER_PROXY_IDENTITY_PREFACE = ''O''"

text \<open>
  The loop over the control messages, with what it has found. \<open>CMSG_LEN\<close> adds the sixteen bytes of the
  header; a second message of a kind is refused like a foreign one.
\<close>

fun control_messages ::
  "ucred option \<Rightarrow> int option \<Rightarrow> control_message list \<Rightarrow> observation_error + (ucred option \<times> int option)" where
  "control_messages c fd [] = Inr (c, fd)"
| "control_messages c fd (ScmCredentials len cred # ms) =
     (if len = 16 + 12 \<and> c = None then control_messages (Some cred) fd ms else Inl PeerCredentialsUnavailable)"
| "control_messages c fd (ScmPidfd len d # ms) =
     (if len = 16 + 4 \<and> fd = None \<and> 0 \<le> d then control_messages c (Some d) ms else Inl PeerCredentialsUnavailable)"
| "control_messages c fd (OtherControl # ms) = Inl PeerCredentialsUnavailable"

definition accepts :: "(nat \<Rightarrow> bool) \<Rightarrow> ('m, unit) peer_op" where
  "accepts call = and_then (observe call) (\<lambda>ok. if ok then ret () else throw PeerCredentialsUnavailable)"

definition receive_authenticated_peer_preface :: "peer_host \<Rightarrow> ('m, observed_session_peer) peer_op" where
  "receive_authenticated_peer_preface H =
     and_then (accepts (\<lambda>t. set_socket_option H t SO_PASSCRED)) (\<lambda>_.
     and_then (accepts (\<lambda>t. set_socket_option H t SO_PASSPIDFD)) (\<lambda>_.
     and_then (accepts (\<lambda>t. write_challenge H t BROKER_PROXY_IDENTITY_CHALLENGE)) (\<lambda>_.
     and_then (observe (recv_preface H)) (\<lambda>(received, preface, truncated, controls).
       if received \<noteq> 1 \<or> preface \<noteq> BROKER_PROXY_IDENTITY_PREFACE \<or> truncated then throw PeerCredentialsUnavailable
       else and_then (lift_result (control_messages None None controls)) (\<lambda>found.
         case found of
           (Some c, Some fd) \<Rightarrow>
             if uc_pid c \<le> 0 then throw PeerCredentialsUnavailable
             else and_then (require_live_pidfd H fd) (\<lambda>_.
               ret \<lparr>op_pidfd = fd, op_pid = nat (uc_pid c), op_uid = uc_uid c, op_gid = uc_gid c\<rparr>)
         | _ \<Rightarrow> throw PeerCredentialsUnavailable)))))"


section \<open>What an accepted text says\<close>

text \<open>
  The posture the checks are for: every identity of the process is the given one, it belongs to no
  further group, has no capability in any of four sets and cannot gain any.
\<close>

definition closed_posture :: "nat \<Rightarrow> nat \<Rightarrow> (string \<rightharpoonup> string) \<Rightarrow> bool" where
  "closed_posture uid gid v \<longleftrightarrow>
     (\<exists>us gs. v ''Uid'' = Some us \<and> parse_four_ids us = Inr (replicate 4 uid) \<and>
        v ''Gid'' = Some gs \<and> parse_four_ids gs = Inr (replicate 4 gid)) \<and>
     (\<exists>gs ns. v ''Groups'' = Some gs \<and> parse_each (split_whitespace gs) = Inr ns \<and> set ns \<subseteq> {gid}) \<and>
     (\<forall>cap \<in> {''CapInh'', ''CapPrm'', ''CapEff'', ''CapAmb''}. \<exists>c. v cap = Some c \<and> parse_hex c = Inr 0) \<and>
     (\<exists>p. v ''NoNewPrivs'' = Some p \<and> trim_spaces p = ''1'')"

lemma field_must_Inr:
  "field_must found name parse good rest = Inr r \<longleftrightarrow>
     (\<exists>text v. map_of found name = Some text \<and> parse text = Inr v \<and> good v) \<and> rest = Inr r"
  by (auto simp: field_must_def required_field_def split: option.splits sum.splits if_splits)

text \<open>The lines as a map: a name that occurs twice is refused, so the map is all of the text.\<close>

lemma status_fields_Inr:
  assumes "status_fields_from found ls = Inr all"
  shows "map_of all = map_of (List.map_filter (split_once CHR '':'') ls) ++ map_of found \<and>
    list_all (\<lambda>l. CHR '':'' \<in> set l) ls \<and> distinct (map fst (List.map_filter (split_once CHR '':'') ls)) \<and>
    (\<forall>name \<in> fst ` set (List.map_filter (split_once CHR '':'') ls). map_of found name = None)"
  using assms
proof (induction ls arbitrary: found)
  case (Cons l ls)
  from Cons.prems obtain name v where l: "split_once CHR '':'' l = Some (name, v)" and new: "map_of found name = None"
    and rest: "status_fields_from (bt_insert name v found) ls = Inr all" by (auto split: option.splits if_splits)
  have "CHR '':'' \<in> set l" using l by (auto simp: split_once_def split: if_splits)
  with Cons.IH [OF rest] l new show ?case
    by (auto simp: map_filter_simps fun_eq_iff map_add_def split: option.splits if_splits)
qed (simp add: map_filter_simps)

definition status_map :: "string \<Rightarrow> string \<rightharpoonup> string" where
  "status_map status = map_of (List.map_filter (split_once CHR '':'') (text_lines status))"

lemma parse_unique_Inr:
  "parse_unique_status_fields status = Inr found \<Longrightarrow> map_of found = status_map status \<and>
     distinct (map fst (List.map_filter (split_once CHR '':'') (text_lines status)))"
  using status_fields_Inr [of "[]" "text_lines status" found] by (simp add: parse_unique_status_fields_def status_map_def)

lemma status_accepted:
  assumes "verify_peer_process_status_text pid uid gid status = Inr r"
  shows "closed_posture uid gid (status_map status)"
proof -
  from assms obtain found where found: "parse_unique_status_fields status = Inr found"
    by (auto simp: verify_peer_process_status_text_def split: sum.splits)
  have groups: "supplementary_groups_limited_to_primary v gid = Inr True \<Longrightarrow>
      \<exists>ns. parse_each (split_whitespace v) = Inr ns \<and> set ns \<subseteq> {gid}" for v
    by (auto simp: supplementary_groups_limited_to_primary_def list_all_iff split: sum.splits)
  from assms found show ?thesis
    unfolding verify_peer_process_status_text_def closed_posture_def
    by (auto simp: field_must_Inr conjunct1 [OF parse_unique_Inr [OF found]] dest!: groups)
qed
section \<open>Only time passes\<close>

named_theorems watch_intros \<open>operations that only ask\<close>

definition watches :: "('m moment_scheme, 'e, 'a) proc \<Rightarrow> bool" where
  "watches m \<longleftrightarrow> (\<forall>s. \<exists>n. snd (m s) = later n s \<and> fst (m s) \<noteq> Crashed)"

lemma watchesD: "watches m \<Longrightarrow> m s = (r, s') \<Longrightarrow> (\<exists>n. s' = later n s) \<and> r \<noteq> Crashed"
  unfolding watches_def by (metis fst_conv snd_conv)

lemma watches_observe [watch_intros]: "watches (observe f)"
  unfolding watches_def by auto

lemma watches_ends [watch_intros]: "watches (ret a)" "watches (throw e)" "watches (lift_result x)"
  unfolding watches_def by (auto intro: exI [of _ 0] simp: lift_result_def split: sum.splits)

lemma watches_and_then [watch_intros]:
  assumes "watches m" and "\<And>a. watches (f a)"
  shows "watches (and_then m f)"
  unfolding watches_def
proof
  fix s
  obtain r s1 where m: "m s = (r, s1)" by fastforce
  with watchesD [OF assms(1)] obtain n where n: "s1 = later n s" "r \<noteq> Crashed" by blast
  have "\<exists>k. snd (f a s1) = later k s \<and> fst (f a s1) \<noteq> Crashed" for a
    using assms(2) [of a] n unfolding watches_def by (metis later_now(2))
  with m n show "\<exists>k. snd (and_then m f s) = later k s \<and> fst (and_then m f s) \<noteq> Crashed"
    by (cases r) (auto simp: and_then_def)
qed

lemma watches_map_err [watch_intros]: "watches m \<Longrightarrow> watches (map_err g m)"
proof (unfold watches_def, rule)
  fix s
  assume "\<forall>s. \<exists>n. snd (m s) = later n s \<and> fst (m s) \<noteq> Crashed"
  then obtain n where "snd (m s) = later n s" "fst (m s) \<noteq> Crashed" by blast
  then show "\<exists>n. snd (map_err g m s) = later n s \<and> fst (map_err g m s) \<noteq> Crashed"
    by (cases "m s") (auto simp: map_err_def split: outcome.splits)
qed

lemma watches_if [watch_intros]: "(b \<Longrightarrow> watches m) \<Longrightarrow> (\<not> b \<Longrightarrow> watches m') \<Longrightarrow> watches (if b then m else m')"
  by simp

lemma watches_option [watch_intros]:
  "watches m \<Longrightarrow> (\<And>a. watches (f a)) \<Longrightarrow> watches (case x of None \<Rightarrow> m | Some a \<Rightarrow> f a)"
  by (cases x) auto

lemma watches_prod [watch_intros]: "(\<And>a b. watches (f a b)) \<Longrightarrow> watches (case x of (a, b) \<Rightarrow> f a b)"
  by (cases x) auto

lemma live_watches [watch_intros]: "watches (require_live_pidfd H fd)"
  unfolding require_live_pidfd_def by (intro watch_intros)

lemma credentials_watches [watch_intros]: "watches (socket_peer_credentials H)"
  unfolding socket_peer_credentials_def by (intro watch_intros)

lemma peer_watches [watch_intros]:
  "watches (socket_peer_pidfd H)" "watches (revalidate_connected_peer H peer)" "watches (reconcile_connected_peer H peer uid gid)"
  "watches (verify_peer_executable_identity H peer i)" "watches (verify_peer_process_status H peer)"
  unfolding socket_peer_pidfd_def revalidate_connected_peer_def reconcile_connected_peer_def
    verify_peer_executable_identity_def verify_peer_process_status_def by (intro watch_intros)+

lemma observe_peer_watches [watch_intros]: "watches (observe_connected_peer H)"
  unfolding observe_connected_peer_def by (intro watch_intros)


section \<open>What was seen, and when\<close>

definition alive_at :: "peer_host \<Rightarrow> observed_session_peer \<Rightarrow> nat \<Rightarrow> bool" where
  "alive_at H peer k \<longleftrightarrow> poll_pidfd H k (op_pidfd peer) = (0, 0)"

definition connected_at :: "peer_host \<Rightarrow> observed_session_peer \<Rightarrow> nat \<Rightarrow> bool" where
  "connected_at H peer k \<longleftrightarrow>
     (\<exists>c. so_peercred H k = Some (12, c) \<and> 0 < uc_pid c \<and> nat (uc_pid c) = op_pid peer \<and>
        uc_uid c = op_uid peer \<and> uc_gid c = op_gid peer)"

definition restricted_at :: "peer_host \<Rightarrow> observed_session_peer \<Rightarrow> nat \<Rightarrow> bool" where
  "restricted_at H peer k \<longleftrightarrow>
     (\<exists>status. proc_status_read H k (op_pid peer) = Some status \<and> length status \<le> MAX_PROC_STATUS_BYTES \<and>
        closed_posture (op_uid peer) (op_gid peer) (status_map status))"

definition runs_at :: "peer_host \<Rightarrow> observed_session_peer \<Rightarrow> string \<Rightarrow> nat \<Rightarrow> bool" where
  "runs_at H peer identity k \<longleftrightarrow>
     (\<exists>bytes. proc_exe_read H k (op_pid peer) = Some bytes \<and> ''sha256:'' @ file_sha256_hex H bytes = identity)"

lemma live_Ok_iff: "require_live_pidfd H (op_pidfd peer) s = (Ok u, s') \<longleftrightarrow> alive_at H peer (mo_now s) \<and> s' = later 1 s"
  by (auto simp: require_live_pidfd_def and_then_def alive_at_def split: prod.splits if_splits)

lemma credentials_Ok_iff:
  "socket_peer_credentials H s = (Ok c, s') \<longleftrightarrow> so_peercred H (mo_now s) = Some (12, c) \<and> 0 < uc_pid c \<and> s' = later 1 s"
  by (auto simp: socket_peer_credentials_def and_then_def split: option.splits if_splits)

lemma observe_peer_Ok:
  assumes "observe_connected_peer H s = (Ok peer, s')"
  shows "connected_at H peer (mo_now s)"
  using assms
  by (auto simp: observe_connected_peer_def and_then_Ok_iff credentials_Ok_iff connected_at_def)

lemma revalidate_Ok_iff:
  "revalidate_connected_peer H peer s = (Ok u, s') \<longleftrightarrow>
     alive_at H peer (mo_now s) \<and> connected_at H peer (mo_now s + 1) \<and> alive_at H peer (mo_now s + 2) \<and> s' = later 3 s"
  by (auto simp: revalidate_connected_peer_def and_then_Ok_iff live_Ok_iff credentials_Ok_iff connected_at_def
      numeral_3_eq_3 split: if_splits)

lemma executable_Ok_iff:
  "verify_peer_executable_identity H peer i s = (Ok u, s') \<longleftrightarrow>
     alive_at H peer (mo_now s) \<and> runs_at H peer i (mo_now s + 1) \<and> alive_at H peer (mo_now s + 2) \<and> s' = later 3 s"
  by (auto simp: verify_peer_executable_identity_def and_then_Ok_iff live_Ok_iff runs_at_def
      numeral_3_eq_3 split: if_splits option.splits)

lemma status_Ok:
  assumes "verify_peer_process_status H peer s = (Ok v, s')"
  shows "restricted_at H peer (mo_now s + 3) \<and> alive_at H peer (mo_now s + 4) \<and> s' = later 5 s"
  using assms
  by (auto simp: verify_peer_process_status_def and_then_Ok_iff live_Ok_iff restricted_at_def lift_result_Ok_iff
      numeral_eq_Suc split: if_splits option.splits dest!: status_accepted)

end
