(* ===== verification/History_Service.thy ===== *)
theory History_Service
  imports History_Response History_Binding Peer_Observation
begin

text \<open>
  The socket service of the protected history (\<open>src/protected_history_service.rs\<close>): it serves one
  connection, to the operator the binding names, and sends nothing of the history before the process at the
  other end has been identified, found restricted and running the installed client, and found so again
  after the answer was prepared.

  A session has the files, the bytes that arrive, the writes still to succeed or to fail, and the log of
  what was written, each write at its moment. Kernel answers about the peer are those of \<open>peer_host\<close>.
\<close>


section \<open>State and parameters\<close>

text \<open>\<open>Some n\<close> in \<open>hs_writes\<close> is a write that fails after \<open>n\<close> bytes; when the list has run out every write succeeds.\<close>

record history_session = moment +
  hs_world :: world
  hs_in :: "read_event list"
  hs_writes :: "nat option list"
  hs_sent :: "(nat \<times> string) list"

datatype history_service_error = RootRequired | ListenerUnavailable | RequestRefused

datatype connection_error = PreQuery history_refusal | PostQuery

record operator_peer =
  oi_schema_version :: nat
  oi_pid :: nat
  oi_uid :: nat
  oi_gid :: nat
  oi_process_start_identity :: string
  oi_executable_identity :: string
  oi_working_directory_identity :: string
  oi_operator_profile_identity :: string

text \<open>\<open>message_identity\<close> of the crate at the two types the service uses it for.\<close>

record service_env = query_env +
  process_start_message_identity :: "string \<Rightarrow> nat \<times> string \<Rightarrow> string option"
  operator_peer_message_identity :: "string \<Rightarrow> operator_peer \<Rightarrow> string option"

text \<open>What the process finds at its start: its environment, the descriptor systemd passed and its address.\<close>

record listener_host =
  ls_pid :: nat
  ls_listen_pid :: "string option"
  ls_listen_fds :: "string option"
  ls_getfd :: int
  ls_setfd :: int
  ls_local_addr :: "path option"
  ls_accepts :: bool
  ls_timeouts :: bool

type_synonym 'a history_op = "(history_session, history_refusal, 'a) proc"

definition OPERATOR_PEER_IDENTITY_DOMAIN_V1 :: string where
  "OPERATOR_PEER_IDENTITY_DOMAIN_V1 = ''ota.authority-launcher.history-operator-peer.v1'' @ [CHR 0x00]"

definition PROCESS_START_IDENTITY_DOMAIN_V1 :: string where
  "PROCESS_START_IDENTITY_DOMAIN_V1 = ''ota.authority-launcher.history-process-start.v1'' @ [CHR 0x00]"

definition with_files :: "(world, 'e, 'a) proc \<Rightarrow> (history_session, 'e, 'a) proc" where
  "with_files m s = (case m (hs_world s) of (r, w) \<Rightarrow> (r, s\<lparr>hs_world := w\<rparr>))"


section \<open>The socket\<close>

definition write_stream :: "'e \<Rightarrow> string \<Rightarrow> (history_session, 'e, unit) proc" where
  "write_stream e bs s =
     (case hs_writes s of
        Some n # ws \<Rightarrow> (Err e, later 1 (s\<lparr>hs_writes := ws, hs_sent := hs_sent s @ [(mo_now s, take n bs)]\<rparr>))
      | ws \<Rightarrow> (Ok (), later 1 (s\<lparr>hs_writes := tl ws, hs_sent := hs_sent s @ [(mo_now s, bs)]\<rparr>)))"

definition read_stream :: "nat \<Rightarrow> (history_session, unit, string) proc" where
  "read_stream n s =
     (case read_exact_until n (hs_in s) of
        (Some bs, es) \<Rightarrow> (Ok bs, s\<lparr>hs_in := es\<rparr>)
      | (None, es) \<Rightarrow> (Err (), s\<lparr>hs_in := es\<rparr>))"

definition receive_payload :: "'x query_env_scheme \<Rightarrow> (history_session, unit, string) proc" where
  "receive_payload S =
     and_then (read_stream 4) (\<lambda>header.
       let n = from_be_bytes header in
       if n = 0 \<or> n > history_max_frame_bytes S then throw ()
       else and_then (read_stream n) (\<lambda>payload. lift_result (ok_or () (history_decode_frame S (header @ payload)))))"

definition receive_query :: "'x query_env_scheme \<Rightarrow> history_query history_op" where
  "receive_query S =
     and_then (map_err (\<lambda>_. MalformedQuery) (receive_payload S)) (\<lambda>payload.
       case query_from_slice S payload of
         None \<Rightarrow> throw MalformedQuery
       | Some q \<Rightarrow> if query_v1_identity S q \<noteq> Some (hq_query_identity q) then throw MalformedQuery else ret q)"

definition write_typed :: "'x query_env_scheme \<Rightarrow> history_message \<Rightarrow> (history_session, unit, unit) proc" where
  "write_typed S m = and_then (map_err (\<lambda>_. ()) (lift_result (typed_frame S m))) (write_stream ())"

definition pre_query_reason :: "history_refusal \<Rightarrow> history_refusal" where
  "pre_query_reason reason =
     (if reason \<in> {MalformedQuery, UnsupportedProtocol, ServiceUnavailableRefusal} then reason else PeerAdmissionRefused)"

definition write_pre_query_refusal ::
  "'x query_env_scheme \<Rightarrow> random_bytes option \<Rightarrow> history_refusal \<Rightarrow> (history_session, unit, unit) proc" where
  "write_pre_query_refusal S rnd reason =
     (case rnd of
        None \<Rightarrow> throw ()
      | Some nonce \<Rightarrow>
         (let refusal = \<lparr>pq_schema_version = 1, pq_message_kind = history_constant S ''LAUNCHER_HISTORY_PRE_QUERY_REFUSAL'',
             pq_protocol_version = history_protocol_v1 S, pq_refusal_nonce = hex_suffix nonce,
             pq_reason = pre_query_reason reason, pq_terminal_identity = []\<rparr> in
          and_then (lift_result (ok_or () (pre_query_refusal_v1_identity S refusal))) (\<lambda>i.
            write_typed S (PreQueryRefusalMsg (refusal\<lparr>pq_terminal_identity := i\<rparr>)))))"

definition write_query_refusal ::
  "'x query_env_scheme \<Rightarrow> history_query \<Rightarrow> history_refusal \<Rightarrow> (history_session, unit, unit) proc" where
  "write_query_refusal S q reason =
     (let refusal = \<lparr>qr_schema_version = 1, qr_message_kind = history_constant S ''LAUNCHER_HISTORY_QUERY_REFUSAL'',
         qr_protocol_version = history_protocol_v1 S, qr_query_identity = hq_query_identity q, qr_reason = reason,
         qr_terminal_identity = []\<rparr> in
      and_then (lift_result (ok_or () (query_refusal_v1_identity S refusal))) (\<lambda>i.
        write_typed S (QueryRefusalMsg (refusal\<lparr>qr_terminal_identity := i\<rparr>))))"


section \<open>The operator\<close>

definition admit_operator :: "peer_host \<Rightarrow> history_binding \<Rightarrow> observed_session_peer \<Rightarrow> unit history_op" where
  "admit_operator H B peer =
     (if op_uid peer \<noteq> hb_operator_uid B \<or> op_gid peer \<noteq> hb_operator_gid B \<or> op_uid peer = 0 then throw PeerAdmissionRefused
      else
        and_then (map_err (\<lambda>_. PeerAdmissionRefused) (revalidate_connected_peer H peer)) (\<lambda>_.
        and_then (map_err (\<lambda>_. PeerAdmissionRefused) (verify_peer_process_status H peer)) (\<lambda>_.
          map_err (\<lambda>_. PeerAdmissionRefused) (verify_peer_executable_identity H peer (hb_installed_client_identity B)))))"

text \<open>
  \<open>to_string_lossy\<close>: a byte sequence that is the beginning of no character becomes U+FFFD. \<open>lossy_step\<close> tells
  whether a character begins here and how many bytes it, or the sequence replaced, has.
\<close>

definition second_byte :: "char \<Rightarrow> char \<Rightarrow> bool" where
  "second_byte a b =
     (if a = CHR 0xE0 then byte_in (CHR 0xA0) (CHR 0xBF) b
      else if a = CHR 0xED then byte_in (CHR 0x80) (CHR 0x9F) b
      else if a = CHR 0xF0 then byte_in (CHR 0x90) (CHR 0xBF) b
      else if a = CHR 0xF4 then byte_in (CHR 0x80) (CHR 0x8F) b
      else utf8_cont b)"

definition character_length :: "char \<Rightarrow> nat" where
  "character_length a =
     (if a \<le> CHR 0x7F then 1 else if byte_in (CHR 0xC2) (CHR 0xDF) a then 2
      else if byte_in (CHR 0xE0) (CHR 0xEF) a then 3 else if byte_in (CHR 0xF0) (CHR 0xF4) a then 4 else 0)"

definition lossy_step :: "char \<Rightarrow> string \<Rightarrow> bool \<times> nat" where
  "lossy_step a s =
     (let n = character_length a;
          k = (if n \<le> 1 then 0
               else case s of
                 [] \<Rightarrow> 0
               | b # t \<Rightarrow> if second_byte a b then 1 + length (takeWhile utf8_cont (take (n - 2) t)) else 0) in
      (n \<noteq> 0 \<and> k + 1 = n, k + 1))"

function to_string_lossy :: "string \<Rightarrow> string" where
  "to_string_lossy [] = []"
| "to_string_lossy (a # s) =
     (case lossy_step a s of (valid, n) \<Rightarrow>
        (if valid then take n (a # s) else [CHR 0xEF, CHR 0xBF, CHR 0xBD]) @ to_string_lossy (drop n (a # s)))"
  by pat_completeness auto
termination by (relation "measure length") (auto simp: lossy_step_def Let_def)

definition observe_working_directory ::
  "'p protocol_scheme \<Rightarrow> peer_host \<Rightarrow> observed_session_peer \<Rightarrow> working_directory history_op" where
  "observe_working_directory P H peer =
     and_then (observe (\<lambda>t. proc_cwd_link H t (op_pid peer))) (\<lambda>link.
       case link of
         None \<Rightarrow> throw RepositoryMappingMissing
       | Some p \<Rightarrow>
           and_then (observe (\<lambda>t. path_metadata H t p)) (\<lambda>metadata.
             case metadata of
               None \<Rightarrow> throw RepositoryMappingMissing
             | Some m \<Rightarrow>
                 if \<not> path_is_absolute p \<or> n_kind m \<noteq> Directory then throw RepositoryMappingMissing
                 else
                  (let working = \<lparr>wd_schema_version = 1, wd_identity = [], wd_logical_path = to_string_lossy p,
                      wd_device = fst (n_ino m), wd_inode = snd (n_ino m)\<rparr> in
                   and_then (lift_result (ok_or RepositoryMappingMissing (launcher_working_directory_identity P working)))
                     (\<lambda>i. ret (working\<lparr>wd_identity := i\<rparr>)))))"

definition operator_peer_identity ::
  "'x service_env_scheme \<Rightarrow> peer_host \<Rightarrow> history_binding \<Rightarrow> observed_session_peer \<Rightarrow> working_directory \<Rightarrow> string history_op" where
  "operator_peer_identity S H B peer wd =
     and_then (observe (\<lambda>t. proc_stat_read H t (op_pid peer))) (\<lambda>content.
       case content of
         None \<Rightarrow> throw PeerAdmissionRefused
       | Some stat \<Rightarrow>
           if \<not> utf8_valid stat then throw PeerAdmissionRefused
           else case Option.bind (after_last CHR '')'' stat) (\<lambda>rest. list_nth 19 (split_whitespace rest)) of
             None \<Rightarrow> throw PeerAdmissionRefused
           | Some start_time \<Rightarrow>
               and_then (lift_result (ok_or PeerAdmissionRefused
                 (process_start_message_identity S PROCESS_START_IDENTITY_DOMAIN_V1 (op_pid peer, start_time)))) (\<lambda>start.
                 lift_result (ok_or PeerAdmissionRefused (operator_peer_message_identity S OPERATOR_PEER_IDENTITY_DOMAIN_V1
                   \<lparr>oi_schema_version = 1, oi_pid = op_pid peer, oi_uid = op_uid peer, oi_gid = op_gid peer,
                    oi_process_start_identity = start, oi_executable_identity = hb_installed_client_identity B,
                    oi_working_directory_identity = wd_identity wd,
                    oi_operator_profile_identity = hb_operator_profile_identity B\<rparr>))))"

definition revalidate_operator_session ::
  "'p protocol_scheme \<Rightarrow> 'x service_env_scheme \<Rightarrow> peer_host \<Rightarrow> history_binding \<Rightarrow> observed_session_peer \<Rightarrow>
   working_directory \<Rightarrow> string \<Rightarrow> unit history_op" where
  "revalidate_operator_session P S H B peer wd identity =
     and_then (map_err (\<lambda>_. PeerAdmissionRefused)
       (and_then (revalidate_connected_peer H peer) (\<lambda>_.
        and_then (reconcile_connected_peer H peer (hb_operator_uid B) (hb_operator_gid B)) (\<lambda>_.
        and_then (verify_peer_process_status H peer) (\<lambda>_.
          verify_peer_executable_identity H peer (hb_installed_client_identity B)))))) (\<lambda>_.
     and_then (observe_working_directory P H peer) (\<lambda>wd'.
       if wd' \<noteq> wd then throw PeerAdmissionRefused
       else and_then (operator_peer_identity S H B peer wd') (\<lambda>identity'.
         if identity' \<noteq> identity then throw PeerAdmissionRefused
         else map_err (\<lambda>_. PeerAdmissionRefused) (revalidate_connected_peer H peer))))"

definition select_live_mapping :: "history_binding \<Rightarrow> working_directory \<Rightarrow> history_refusal + repository_mapping" where
  "select_live_mapping B wd =
     (case filter (\<lambda>m. rm_working_directory m = wd) (hb_mappings B) of
        [m] \<Rightarrow> Inr m | [] \<Rightarrow> Inl RepositoryMappingMissing | _ \<Rightarrow> Inl RepositoryMappingAmbiguous)"


section \<open>A connection\<close>

text \<open>A query that cannot be answered: the operator is checked again and told why.\<close>

definition refuse_query ::
  "'p protocol_scheme \<Rightarrow> 'x service_env_scheme \<Rightarrow> peer_host \<Rightarrow> history_binding \<Rightarrow> observed_session_peer \<Rightarrow>
   working_directory \<Rightarrow> string \<Rightarrow> history_query \<Rightarrow> history_refusal \<Rightarrow> (history_session, connection_error, unit) proc" where
  "refuse_query P S H B peer wd identity q reason =
     and_then (map_err (\<lambda>_. PostQuery) (revalidate_operator_session P S H B peer wd identity)) (\<lambda>_.
       map_err (\<lambda>_. PostQuery) (write_query_refusal S q reason))"

fun write_frames :: "string list \<Rightarrow> (history_session, connection_error, unit) proc" where
  "write_frames [] = ret ()"
| "write_frames (f # fs) = and_then (write_stream PostQuery f) (\<lambda>_. write_frames fs)"

text \<open>The end of a response: the terminal message says \<open>Incomplete\<close> when the operator could not be confirmed after the frames.\<close>

definition mark_incomplete :: "'x query_env_scheme \<Rightarrow> history_terminal \<Rightarrow> connection_error + history_terminal" where
  "mark_incomplete S t =
     (let t = t\<lparr>ht_posture := Incomplete, ht_terminal_identity := []\<rparr> in
      try_with (ok_or PostQuery (terminal_v1_identity S t)) (\<lambda>i. Inr (t\<lparr>ht_terminal_identity := i\<rparr>)))"

definition send_response ::
  "'p protocol_scheme \<Rightarrow> 'x service_env_scheme \<Rightarrow> peer_host \<Rightarrow> history_binding \<Rightarrow> observed_session_peer \<Rightarrow>
   working_directory \<Rightarrow> string \<Rightarrow> prepared_history_response \<Rightarrow> (history_session, connection_error, unit) proc" where
  "send_response P S H B peer wd identity response =
     and_then (write_frames (pr_frames response)) (\<lambda>_.
     and_then
       (match_result (revalidate_operator_session P S H B peer wd identity)
         (\<lambda>_. ret (pr_terminal response))
         (\<lambda>_. lift_result (mark_incomplete S (pr_terminal response)))) (\<lambda>terminal.
     and_then (map_err (\<lambda>_. PostQuery) (lift_result (typed_frame S (ManifestTerminalMsg terminal)))) (\<lambda>frame.
       write_stream PostQuery frame)))"

definition answer_query ::
  "'p protocol_scheme \<Rightarrow> 'x service_env_scheme \<Rightarrow> peer_host \<Rightarrow> history_binding \<Rightarrow> observed_session_peer \<Rightarrow>
   working_directory \<Rightarrow> string \<Rightarrow> history_query \<Rightarrow> (history_session, connection_error, unit) proc" where
  "answer_query P S H B peer wd identity q =
     (case select_live_mapping B wd of
        Inl reason \<Rightarrow> refuse_query P S H B peer wd identity q reason
      | Inr M \<Rightarrow>
         match_result (with_files (build_response S B M q identity))
           (\<lambda>response.
              match_result (revalidate_operator_session P S H B peer wd identity)
                (\<lambda>_. send_response P S H B peer wd identity response)
                (\<lambda>reason. map_err (\<lambda>_. PostQuery) (write_query_refusal S q reason)))
           (refuse_query P S H B peer wd identity q))"

definition serve_connection ::
  "'p protocol_scheme \<Rightarrow> 'x service_env_scheme \<Rightarrow> peer_host \<Rightarrow> history_binding \<Rightarrow> (history_session, connection_error, unit) proc" where
  "serve_connection P S H B =
     and_then (map_err (\<lambda>_. PreQuery PeerAdmissionRefused) (observe_connected_peer H)) (\<lambda>peer.
     and_then (map_err PreQuery (admit_operator H B peer)) (\<lambda>_.
     and_then (map_err PreQuery (observe_working_directory P H peer)) (\<lambda>wd.
     and_then (map_err (\<lambda>_. PreQuery PeerAdmissionRefused) (revalidate_connected_peer H peer)) (\<lambda>_.
     and_then (map_err PreQuery (operator_peer_identity S H B peer wd)) (\<lambda>identity.
     and_then (map_err (\<lambda>_. PreQuery PeerAdmissionRefused) (revalidate_connected_peer H peer)) (\<lambda>_.
     and_then (map_err PreQuery (receive_query S)) (\<lambda>q.
       answer_query P S H B peer wd identity q)))))))"

definition inherited_listener :: "listener_host \<Rightarrow> history_binding \<Rightarrow> (world, history_service_error, unit) proc" where
  "inherited_listener L B =
     (if ls_listen_pid L \<noteq> Some (decimal (ls_pid L)) \<or> ls_listen_fds L \<noteq> Some ''1'' \<or> hb_socket_path B \<noteq> HISTORY_SOCKET_PATH
      then throw ListenerUnavailable
      else if ls_getfd L < 0 \<or> ls_setfd L < 0 then throw ListenerUnavailable
      else and_then (map_err (\<lambda>_. ListenerUnavailable) (symlink_metadata (hb_socket_path B))) (\<lambda>m.
        if ls_local_addr L \<noteq> Some (hb_socket_path B) \<or> n_kind m \<noteq> Socket \<or> n_uid m \<noteq> 0
           \<or> n_gid m \<noteq> hb_socket_group_gid B \<or> n_mode m AND 4095 \<noteq> 432
        then throw ListenerUnavailable else ret ()))"

text \<open>The end of a connection that failed: before the query the peer is told, if that can be done.\<close>

definition refuse_connection ::
  "'x query_env_scheme \<Rightarrow> random_bytes option \<Rightarrow> connection_error \<Rightarrow> (history_session, history_service_error, nat) proc" where
  "refuse_connection S rnd error =
     (case error of
        PreQuery reason \<Rightarrow>
          match_result (write_pre_query_refusal S rnd reason) (\<lambda>_. throw RequestRefused) (\<lambda>_. throw RequestRefused)
      | PostQuery \<Rightarrow> throw RequestRefused)"

definition serve_once ::
  "config_env \<Rightarrow> 'p protocol_scheme \<Rightarrow> binding_env \<Rightarrow> 'x service_env_scheme \<Rightarrow> peer_host \<Rightarrow> listener_host \<Rightarrow>
   random_bytes option \<Rightarrow> (history_session, history_service_error, nat) proc" where
  "serve_once C P K S H L rnd =
     and_then (with_files geteuid) (\<lambda>uid.
       if uid \<noteq> 0 then throw RootRequired
       else
         and_then (with_files (map_err (\<lambda>_. ListenerUnavailable) (load_protected_history_binding_v1 C P S K))) (\<lambda>B.
         and_then (with_files (inherited_listener L B)) (\<lambda>_.
           if \<not> ls_accepts L then throw ListenerUnavailable
           else if \<not> ls_timeouts L then throw ListenerUnavailable
           else match_result (serve_connection P S H B) (\<lambda>_. ret 0) (refuse_connection S rnd))))"

section \<open>Rendering a path\<close>

text \<open>Text that is valid stays as it is.\<close>

lemma lossy_step_valid:
  assumes "utf8_valid (a # s)"
  shows "\<exists>n. lossy_step a s = (True, n) \<and> utf8_valid (drop n (a # s)) \<and> 0 < n"
proof -
  have "a \<le> CHR 0x7F \<or> byte_in (CHR 0xC2) (CHR 0xDF) a \<or> byte_in (CHR 0xE0) (CHR 0xEF) a \<or> byte_in (CHR 0xF0) (CHR 0xF4) a"
    by (rule ccontr) (use assms in simp)
  then consider (one) "a \<le> CHR 0x7F" | (two) "\<not> a \<le> CHR 0x7F" "byte_in (CHR 0xC2) (CHR 0xDF) a"
    | (three) "\<not> a \<le> CHR 0x7F" "\<not> byte_in (CHR 0xC2) (CHR 0xDF) a" "byte_in (CHR 0xE0) (CHR 0xEF) a"
    | (four) "\<not> a \<le> CHR 0x7F" "\<not> byte_in (CHR 0xC2) (CHR 0xDF) a" "\<not> byte_in (CHR 0xE0) (CHR 0xEF) a" "byte_in (CHR 0xF0) (CHR 0xF4) a"
    by blast
  then show ?thesis
  proof cases
    case two
    have "second_byte a b = utf8_cont b" for b using two(2) by (auto simp: second_byte_def byte_in_def)
    with two assms show ?thesis by (auto simp: lossy_step_def character_length_def split: list.splits)
  next
    case three
    have "second_byte a b = (if a = CHR 0xE0 then byte_in (CHR 0xA0) (CHR 0xBF) b else if a = CHR 0xED then byte_in (CHR 0x80) (CHR 0x9F) b
        else utf8_cont b)" for b using three(3) by (auto simp: second_byte_def byte_in_def)
    with three assms show ?thesis by (auto simp: lossy_step_def character_length_def split: list.splits)
  next
    case four
    have "second_byte a b = (if a = CHR 0xF0 then byte_in (CHR 0x90) (CHR 0xBF) b else if a = CHR 0xF4 then byte_in (CHR 0x80) (CHR 0x8F) b
        else utf8_cont b)" for b using four(4) by (auto simp: second_byte_def byte_in_def)
    with four assms show ?thesis by (auto simp: lossy_step_def character_length_def numeral_2_eq_2 split: list.splits)
  qed (use assms in \<open>auto simp: lossy_step_def character_length_def\<close>)
qed

lemma lossy_valid: "utf8_valid s \<Longrightarrow> to_string_lossy s = s"
proof (induction s rule: length_induct)
  case (1 s)
  show ?case
  proof (cases s)
    case (Cons a t)
    with lossy_step_valid "1.prems" obtain n where n: "lossy_step a t = (True, n)" "utf8_valid (drop n (a # t))" "0 < n" by blast
    with "1.IH" Cons have "to_string_lossy (drop n (a # t)) = drop n (a # t)" by simp
    then have "to_string_lossy (a # t) = take n (a # t) @ drop n (a # t)" unfolding to_string_lossy.simps(2) n(1) by simp
    then show ?thesis unfolding Cons append_take_drop_id .
  qed simp
qed


section \<open>What the operator was seen to be\<close>

definition working_at :: "peer_host \<Rightarrow> observed_session_peer \<Rightarrow> working_directory \<Rightarrow> nat \<Rightarrow> bool" where
  "working_at H peer wd k \<longleftrightarrow>
     (\<exists>p m. proc_cwd_link H k (op_pid peer) = Some p \<and> path_metadata H (k + 1) p = Some m \<and> path_is_absolute p \<and>
        n_kind m = Directory \<and> wd_logical_path wd = to_string_lossy p \<and> (wd_device wd, wd_inode wd) = n_ino m)"

text \<open>
  Between two moments the peer was confirmed as the operator: its credentials are those of the binding,
  the socket, the status of the process, its executable and its working directory were looked at, and
  after all that its pidfd was still alive, so that the pid had named this process all along.
\<close>

definition operator_confirmed ::
  "peer_host \<Rightarrow> history_binding \<Rightarrow> observed_session_peer \<Rightarrow> working_directory \<Rightarrow> nat \<Rightarrow> nat \<Rightarrow> bool" where
  "operator_confirmed H B peer wd i j \<longleftrightarrow> op_uid peer = hb_operator_uid B \<and> op_gid peer = hb_operator_gid B \<and>
     (\<exists>kc ks kx kw ke. {kc, ks, kx, kw, kw + 1} \<subseteq> {i..<ke} \<and> ke < j \<and> connected_at H peer kc \<and> restricted_at H peer ks \<and>
        runs_at H peer (hb_installed_client_identity B) kx \<and> working_at H peer wd kw \<and> alive_at H peer ke)"

lemma operator_confirmedI:
  assumes "op_uid peer = hb_operator_uid B" "op_gid peer = hb_operator_gid B" "connected_at H peer kc" "restricted_at H peer ks"
    "runs_at H peer (hb_installed_client_identity B) kx" "working_at H peer wd kw" "alive_at H peer ke"
    "i \<le> kc" "i \<le> ks" "i \<le> kx" "i \<le> kw" "kc < ke" "ks < ke" "kx < ke" "kw + 1 < ke" "ke < j"
  shows "operator_confirmed H B peer wd i j"
  unfolding operator_confirmed_def using assms by fastforce

lemma session_later [simp]:
  "hs_sent (later n s) = hs_sent s" "hs_world (later n s) = hs_world s" "hs_in (later n s) = hs_in s" "hs_writes (later n s) = hs_writes s"
  by (simp_all add: later_def)

lemma working_watches [watch_intros]: "watches (observe_working_directory P H peer)"
  unfolding observe_working_directory_def Let_def by (intro watch_intros)

lemma identity_watches [watch_intros]: "watches (operator_peer_identity S H B peer wd)"
  unfolding operator_peer_identity_def by (intro watch_intros)

lemma admit_watches [watch_intros]: "watches (admit_operator H B peer)"
  unfolding admit_operator_def by (intro watch_intros)

lemma revalidate_watches [watch_intros]: "watches (revalidate_operator_session P S H B peer wd i)"
  unfolding revalidate_operator_session_def by (intro watch_intros)

lemma working_Ok:
  assumes "observe_working_directory P H peer s = (Ok wd, s')"
  shows "working_at H peer wd (mo_now s) \<and> s' = later 2 s"
  using assms
  by (auto simp: observe_working_directory_def Let_def and_then_Ok_iff lift_result_Ok_iff ok_or_Inr working_at_def
      split: option.splits if_splits)

lemma admit_Ok:
  assumes "admit_operator H B peer s = (Ok (), s')"
  shows "op_uid peer = hb_operator_uid B \<and> op_gid peer = hb_operator_gid B \<and> op_uid peer \<noteq> 0 \<and>
    connected_at H peer (mo_now s + 1) \<and> restricted_at H peer (mo_now s + 6) \<and>
    runs_at H peer (hb_installed_client_identity B) (mo_now s + 9) \<and> s' = later 11 s"
  using assms
  by (auto simp: admit_operator_def and_then_Ok_iff map_err_Ok_iff revalidate_Ok_iff executable_Ok_iff add.assoc add.commute [of 9]
      dest!: status_Ok split: if_splits)

lemma revalidate_session_Ok:
  assumes "revalidate_operator_session P S H B peer wd identity s = (Ok (), s')"
  shows "operator_confirmed H B peer wd (mo_now s) (mo_now s')"
proof -
  from assms obtain s1 s2 s3 s4 s5 s6 where
    a: "revalidate_connected_peer H peer s = (Ok (), s1)"
      "reconcile_connected_peer H peer (hb_operator_uid B) (hb_operator_gid B) s1 = (Ok (), s2)" and
    b: "\<exists>v. verify_peer_process_status H peer s2 = (Ok v, s3)" and
    c: "verify_peer_executable_identity H peer (hb_installed_client_identity B) s3 = (Ok (), s4)"
      "observe_working_directory P H peer s4 = (Ok wd, s5)" "operator_peer_identity S H B peer wd s5 = (Ok identity, s6)"
      "revalidate_connected_peer H peer s6 = (Ok (), s')"
    by (auto simp: revalidate_operator_session_def and_then_Ok_iff map_err_Ok_iff split: if_splits)
  from b status_Ok have s3: "restricted_at H peer (mo_now s2 + 3)" "s3 = later 5 s2" by blast+
  from watchesD [OF identity_watches c(3)] obtain n where s6: "s6 = later n s5" by blast
  from a(2) have s2: "op_uid peer = hb_operator_uid B" "op_gid peer = hb_operator_gid B" "s2 = later 1 s1"
    by (auto simp: reconcile_connected_peer_def and_then_Ok_iff live_Ok_iff split: if_splits)
  show ?thesis
  proof (rule operator_confirmedI)
    show "connected_at H peer (mo_now s + 1)" using a(1) by (simp add: revalidate_Ok_iff)
    show "restricted_at H peer (mo_now s2 + 3)" by (rule s3(1))
    show "runs_at H peer (hb_installed_client_identity B) (mo_now s3 + 1)" using c(1) by (simp add: executable_Ok_iff)
    show "working_at H peer wd (mo_now s4)" using working_Ok [OF c(2)] by blast
    show "alive_at H peer (mo_now s6 + 2)" using c(4) by (simp add: revalidate_Ok_iff)
  qed (use s2 s3 s6 a(1) c(1,4) working_Ok [OF c(2)] in \<open>auto simp: revalidate_Ok_iff executable_Ok_iff\<close>)
qed


section \<open>Saying nothing\<close>

named_theorems quiet_intros \<open>operations that write nothing to the socket and change no file\<close>

definition files_kept :: "history_session \<Rightarrow> history_session \<Rightarrow> bool" where
  "files_kept s s' \<longleftrightarrow> node_at (hs_world s') = node_at (hs_world s) \<and> w_euid (hs_world s') = w_euid (hs_world s) \<and> mo_now s \<le> mo_now s'"

lemma files_kept_refl [simp]: "files_kept s s" "files_kept s (later n s)"
  by (simp_all add: files_kept_def)

lemma files_kept_trans [trans]: "files_kept s s1 \<Longrightarrow> files_kept s1 s2 \<Longrightarrow> files_kept s s2"
  by (simp add: files_kept_def)

definition quiet :: "(history_session, 'e, 'a) proc \<Rightarrow> bool" where
  "quiet m \<longleftrightarrow> (\<forall>s. hs_sent (snd (m s)) = hs_sent s \<and> files_kept s (snd (m s)))"

lemma quietD: "quiet m \<Longrightarrow> m s = (r, s') \<Longrightarrow> hs_sent s' = hs_sent s \<and> files_kept s s'"
  unfolding quiet_def by (metis snd_conv)

lemma quiet_watches: "watches m \<Longrightarrow> quiet m"
  unfolding watches_def quiet_def by (metis files_kept_refl(2) session_later(1))

lemma quiet_ends [quiet_intros]: "quiet (ret a)" "quiet (throw e)" "quiet (lift_result x)"
  by (auto intro!: quiet_watches watch_intros)

lemma quiet_map_err [quiet_intros]: "quiet m \<Longrightarrow> quiet (map_err g m)"
  unfolding quiet_def map_err_def by (auto split: prod.splits outcome.splits) (metis snd_conv)+

lemma quiet_and_then [quiet_intros]:
  assumes "quiet m" and "\<And>a. quiet (f a)"
  shows "quiet (and_then m f)"
  unfolding quiet_def
proof
  fix s
  obtain r s1 where m: "m s = (r, s1)" by fastforce
  note one = quietD [OF assms(1) m]
  have "hs_sent (snd (f a s1)) = hs_sent s \<and> files_kept s (snd (f a s1))" for a
    using one assms(2) [of a] unfolding quiet_def by (metis files_kept_trans)
  with one m show "hs_sent (snd (and_then m f s)) = hs_sent s \<and> files_kept s (snd (and_then m f s))"
    by (cases r) (auto simp: and_then_def)
qed

lemma quiet_match [quiet_intros]:
  assumes "quiet m" and "\<And>a. quiet (f a)" and "\<And>e. quiet (g e)"
  shows "quiet (match_result m f g)"
  unfolding quiet_def
proof
  fix s
  obtain r s1 where m: "m s = (r, s1)" by fastforce
  note one = quietD [OF assms(1) m]
  have "hs_sent (snd (f a s1)) = hs_sent s \<and> files_kept s (snd (f a s1))" for a
    using one assms(2) [of a] unfolding quiet_def by (metis files_kept_trans)
  moreover have "hs_sent (snd (g e s1)) = hs_sent s \<and> files_kept s (snd (g e s1))" for e
    using one assms(3) [of e] unfolding quiet_def by (metis files_kept_trans)
  ultimately show "hs_sent (snd (match_result m f g s)) = hs_sent s \<and> files_kept s (snd (match_result m f g s))"
    using one m by (cases r) (auto simp: match_result_def)
qed

lemma quiet_if [quiet_intros]: "quiet m \<Longrightarrow> quiet m' \<Longrightarrow> quiet (if b then m else m')"
  by simp

lemma quiet_option [quiet_intros]: "quiet m \<Longrightarrow> (\<And>a. quiet (f a)) \<Longrightarrow> quiet (case x of None \<Rightarrow> m | Some a \<Rightarrow> f a)"
  by (cases x) auto

lemma quiet_files [quiet_intros]:
  assumes "touches {} m"
  shows "quiet (with_files m)"
  unfolding quiet_def
proof
  fix s :: history_session
  obtain r w where m: "m (hs_world s) = (r, w)" by fastforce
  from same_nodes [OF assms m] m show "hs_sent (snd (with_files m s)) = hs_sent s \<and> files_kept s (snd (with_files m s))"
    by (simp add: with_files_def files_kept_def)
qed

lemma quiet_read [quiet_intros]: "quiet (read_stream n)"
  unfolding quiet_def read_stream_def files_kept_def by (auto split: prod.splits option.splits)

lemma quiet_receive [quiet_intros]: "quiet (receive_query S)"
  unfolding receive_query_def receive_payload_def Let_def by (intro quiet_intros)

lemma read_entries_looks: "touches {} (read_entries S B producer used es)"
proof (induction es arbitrary: used)
  case (Cons e es)
  have "touches {} (read_blob S B b)" for b
    unfolding read_blob_def by (intro touches_intros) (auto intro: touches_intros)
  then have "touches {} (read_entry S B producer e)" unfolding read_entry_def by (intro touches_intros)
  with Cons show ?case by (auto intro!: touches_intros split: option.splits prod.splits)
qed (auto intro: touches_intros)

lemma build_response_looks [touches_intros]: "touches {} (build_response S B M q i)"
proof -
  have "touches {} (\<lambda>w. case producer_binding S w of None \<Rightarrow> (Err ObjectInvalidRefusal, w) | Some p \<Rightarrow> (Ok p, w))"
    by (rule touchesI) (auto split: option.splits)
  then show ?thesis unfolding build_response_def
    by (intro touches_intros load_catalog_looks read_entries_looks) (auto intro!: touches_intros)
qed

section \<open>What is said, and when\<close>

text \<open>Whatever a call writes: \<open>Q\<close> holds of its result, the state it leaves and the writes it made.\<close>

definition says ::
  "(history_session, 'e, 'a) proc \<Rightarrow> history_session \<Rightarrow>
   (('e, 'a) outcome \<Rightarrow> history_session \<Rightarrow> (nat \<times> string) list \<Rightarrow> bool) \<Rightarrow> bool" where
  "says m s Q \<longleftrightarrow> (\<forall>r s'. m s = (r, s') \<longrightarrow>
     (\<exists>out. hs_sent s' = hs_sent s @ out \<and> files_kept s s' \<and> fst ` set out \<subseteq> {mo_now s..<mo_now s'} \<and> Q r s' out))"

lemma saysD:
  assumes "says m s Q" and "m s = (r, s')"
  obtains out where "hs_sent s' = hs_sent s @ out" "files_kept s s'" "fst ` set out \<subseteq> {mo_now s..<mo_now s'}" "Q r s' out"
  using assms unfolding says_def by blast

lemma says_mono: "says m s Q \<Longrightarrow> (\<And>r s' out. Q r s' out \<Longrightarrow> R r s' out) \<Longrightarrow> says m s R"
  unfolding says_def by blast

lemma says_quiet: "quiet m \<Longrightarrow> (\<And>r s'. m s = (r, s') \<Longrightarrow> Q r s' []) \<Longrightarrow> says m s Q"
  unfolding says_def using quietD by fastforce

lemma says_throw: "Q (Err e) s [] \<Longrightarrow> says (throw e) s Q"
  by (rule says_quiet) (auto intro: quiet_intros)

lemma says_after:
  assumes "quiet m" and "m s = (r1, s1)" and "says m' s1 Q"
  shows "\<And>r s'. m' s1 = (r, s') \<Longrightarrow> \<exists>out. hs_sent s' = hs_sent s @ out \<and> files_kept s s' \<and>
    fst ` set out \<subseteq> {mo_now s..<mo_now s'} \<and> Q r s' out"
proof -
  fix r s' assume "m' s1 = (r, s')"
  with assms(3) obtain out where o: "hs_sent s' = hs_sent s1 @ out" "files_kept s1 s'" "fst ` set out \<subseteq> {mo_now s1..<mo_now s'}"
    "Q r s' out" by (rule saysD)
  note q = quietD [OF assms(1,2)]
  with o have "files_kept s s'" "fst ` set out \<subseteq> {mo_now s..<mo_now s'}"
    by (auto intro: files_kept_trans simp: files_kept_def)
  with o q show "\<exists>out. hs_sent s' = hs_sent s @ out \<and> files_kept s s' \<and> fst ` set out \<subseteq> {mo_now s..<mo_now s'} \<and> Q r s' out"
    by auto
qed

lemma says_quiet_then:
  assumes "quiet m" and "\<And>r s'. Q r s' []" and "\<And>a s1. m s = (Ok a, s1) \<Longrightarrow> files_kept s s1 \<Longrightarrow> says (f a) s1 Q"
  shows "says (and_then m f) s Q"
proof -
  obtain r1 s1 where m: "m s = (r1, s1)" by fastforce
  note q = quietD [OF assms(1) m]
  show ?thesis
  proof (cases r1)
    case (Ok a)
    from says_after [OF assms(1) m assms(3)] Ok m q show ?thesis
      unfolding says_def by (auto simp: and_then_def)
  qed (use m q assms(2) in \<open>auto simp: says_def and_then_def\<close>)
qed

lemma says_match:
  assumes "quiet m" and "\<And>r s'. Q r s' []" and "\<And>a s1. m s = (Ok a, s1) \<Longrightarrow> files_kept s s1 \<Longrightarrow> says (f a) s1 Q"
    and "\<And>e s1. m s = (Err e, s1) \<Longrightarrow> files_kept s s1 \<Longrightarrow> says (g e) s1 Q"
  shows "says (match_result m f g) s Q"
proof -
  obtain r1 s1 where m: "m s = (r1, s1)" by fastforce
  note q = quietD [OF assms(1) m]
  show ?thesis
  proof (cases r1)
    case (Ok a)
    from says_after [OF assms(1) m assms(3)] Ok m q show ?thesis unfolding says_def by (auto simp: match_result_def)
  next
    case (Err e)
    from says_after [OF assms(1) m assms(4)] Err m q show ?thesis unfolding says_def by (auto simp: match_result_def)
  qed (use m q assms(2) in \<open>auto simp: says_def match_result_def\<close>)
qed

lemma says_then:
  assumes "says m s Q" and "\<And>a s1 out. m s = (Ok a, s1) \<Longrightarrow> Q (Ok a) s1 out \<Longrightarrow> fst ` set out \<subseteq> {mo_now s..<mo_now s1} \<Longrightarrow>
      says (f a) s1 (\<lambda>r s' out'. R r s' (out @ out'))"
    and "\<And>e s1 out. Q (Err e) s1 out \<Longrightarrow> R (Err e) s1 out" and "\<And>s1 out. Q Crashed s1 out \<Longrightarrow> R Crashed s1 out"
  shows "says (and_then m f) s R"
  unfolding says_def
proof (intro allI impI)
  fix r s' assume run: "and_then m f s = (r, s')"
  obtain r1 s1 where m: "m s = (r1, s1)" by fastforce
  from saysD [OF assms(1) m] obtain out where o: "hs_sent s1 = hs_sent s @ out" "files_kept s s1"
    "fst ` set out \<subseteq> {mo_now s..<mo_now s1}" "Q r1 s1 out" .
  show "\<exists>out. hs_sent s' = hs_sent s @ out \<and> files_kept s s' \<and> fst ` set out \<subseteq> {mo_now s..<mo_now s'} \<and> R r s' out"
  proof (cases r1)
    case (Ok a)
    with run m have "f a s1 = (r, s')" by (simp add: and_then_def)
    from saysD [OF assms(2) [OF m [unfolded Ok] o(4) [unfolded Ok] o(3)] this] obtain out' where
      "hs_sent s' = hs_sent s1 @ out'" "files_kept s1 s'" "fst ` set out' \<subseteq> {mo_now s1..<mo_now s'}" "R r s' (out @ out')" .
    moreover from this o have "files_kept s s'" "fst ` set (out @ out') \<subseteq> {mo_now s..<mo_now s'}"
      by (auto intro: files_kept_trans simp: files_kept_def)
    ultimately show ?thesis using o by (intro exI [of _ "out @ out'"]) simp
  qed (use run m o assms(3,4) in \<open>auto simp: and_then_def\<close>)
qed

lemma says_write:
  "says (write_stream e bs) s (\<lambda>r s' out. \<exists>b. out = [(mo_now s, b)] \<and> prefix b bs \<and> (\<forall>u. r = Ok u \<longrightarrow> b = bs))"
  unfolding says_def write_stream_def files_kept_def
  by (auto simp: take_is_prefix split: list.splits option.splits)

lemma says_map_err: "says m s (\<lambda>r. Q (case r of Ok a \<Rightarrow> Ok a | Err e \<Rightarrow> Err (g e) | Crashed \<Rightarrow> Crashed)) \<Longrightarrow> says (map_err g m) s Q"
  unfolding says_def map_err_def by (fastforce split: prod.splits outcome.splits)

definition wrote_message :: "'x query_env_scheme \<Rightarrow> history_message \<Rightarrow> (nat \<times> string) list \<Rightarrow> bool" where
  "wrote_message S m out \<longleftrightarrow> (\<exists>k b f. out = [(k, b)] \<and> typed_frame S m = Inr f \<and> prefix b f)"

lemma says_typed: "says (write_typed S m) s (\<lambda>r s' out. out = [] \<or> wrote_message S m out)"
  unfolding write_typed_def
proof (rule says_quiet_then)
  fix f s1
  assume "map_err (\<lambda>_. ()) (lift_result (typed_frame S m)) s = (Ok f, s1)"
  then have f: "typed_frame S m = Inr f" by (simp add: map_err_Ok_iff lift_result_Ok_iff)
  show "says (write_stream () f) s1 (\<lambda>r s' out. out = [] \<or> wrote_message S m out)"
    by (rule says_mono [OF says_write]) (use f in \<open>auto simp: wrote_message_def\<close>)
qed (auto intro: quiet_intros)

definition refusal_written :: "'x query_env_scheme \<Rightarrow> history_query \<Rightarrow> (nat \<times> string) list \<Rightarrow> bool" where
  "refusal_written S q out \<longleftrightarrow> (\<exists>m. qr_query_identity m = hq_query_identity q \<and> wrote_message S (QueryRefusalMsg m) out)"

lemma says_refusal: "says (write_query_refusal S q reason) s (\<lambda>r s' out. out = [] \<or> refusal_written S q out)"
  unfolding write_query_refusal_def Let_def
proof (rule says_quiet_then)
  fix i s1
  show "says (write_typed S (QueryRefusalMsg (\<lparr>qr_schema_version = 1, qr_message_kind = history_constant S ''LAUNCHER_HISTORY_QUERY_REFUSAL'',
         qr_protocol_version = history_protocol_v1 S, qr_query_identity = hq_query_identity q, qr_reason = reason,
         qr_terminal_identity = []\<rparr>\<lparr>qr_terminal_identity := i\<rparr>))) s1 (\<lambda>r s' out. out = [] \<or> refusal_written S q out)"
    by (rule says_mono [OF says_typed]) (auto simp: refusal_written_def intro!: exI)
qed (auto intro: quiet_intros)

lemma says_frames:
  "says (write_frames fs) s (\<lambda>r s' out. prefix (concat (map snd out)) (concat fs) \<and> (\<forall>u. r = Ok u \<longrightarrow> map snd out = fs))"
proof (induction fs arbitrary: s)
  case (Cons f fs)
  show ?case unfolding write_frames.simps
  proof (rule says_then [OF says_write])
    fix a s1 out
    assume "\<exists>b. out = [(mo_now s, b)] \<and> prefix b f \<and> (\<forall>u. Ok a = Ok u \<longrightarrow> b = f)"
    then have "out = [(mo_now s, f)]" by auto
    then show "says (write_frames fs) s1 (\<lambda>r s' out'. prefix (concat (map snd (out @ out'))) (concat (f # fs)) \<and>
        (\<forall>u. r = Ok u \<longrightarrow> map snd (out @ out') = f # fs))"
      by (intro says_mono [OF Cons]) auto
  qed auto
qed (auto intro!: says_quiet quiet_intros)

section \<open>The guard of the history\<close>

text \<open>
  Writes that are a response, or a beginning of one. A terminal message that is not marked incomplete
  was written after the operator was confirmed at moments later than those of all the frames.
\<close>

definition response_written ::
  "'x query_env_scheme \<Rightarrow> peer_host \<Rightarrow> history_binding \<Rightarrow> observed_session_peer \<Rightarrow> working_directory \<Rightarrow>
   prepared_history_response \<Rightarrow> (nat \<times> string) list \<Rightarrow> bool" where
  "response_written S H B peer wd response out \<longleftrightarrow>
     prefix (concat (map snd out)) (concat (pr_frames response)) \<or>
     (\<exists>fr k b t f. out = fr @ [(k, b)] \<and> map snd fr = pr_frames response \<and> typed_frame S (ManifestTerminalMsg t) = Inr f \<and>
        prefix b f \<and> (ht_posture t = Incomplete \<or>
          t = pr_terminal response \<and> (\<exists>i. fst ` set fr \<subseteq> {..<i} \<and> operator_confirmed H B peer wd i k)))"

lemma incomplete_posture: "mark_incomplete S t = Inr t' \<Longrightarrow> ht_posture t' = Incomplete"
  by (auto simp: mark_incomplete_def Let_def result_simps)

lemma says_terminal:
  assumes "typed_frame S (ManifestTerminalMsg t) = Inr f" and "map snd fr = pr_frames response"
    and "ht_posture t = Incomplete \<or> t = pr_terminal response \<and> (\<exists>i. fst ` set fr \<subseteq> {..<i} \<and> operator_confirmed H B peer wd i (mo_now s))"
  shows "says (write_stream e f) s (\<lambda>r s' out. response_written S H B peer wd response (fr @ out))"
proof (rule says_mono [OF says_write])
  fix r s' out
  assume "\<exists>b. out = [(mo_now s, b)] \<and> prefix b f \<and> (\<forall>u. r = Ok u \<longrightarrow> b = f)"
  with assms show "response_written S H B peer wd response (fr @ out)"
    unfolding response_written_def by blast
qed

lemma says_response: "says (send_response P S H B peer wd identity response) s (\<lambda>r s' out. response_written S H B peer wd response out)"
  unfolding send_response_def
proof (rule says_then [OF says_frames])
  fix s1 :: history_session and fr :: "(nat \<times> string) list" and u :: unit
  assume "prefix (concat (map snd fr)) (concat (pr_frames response)) \<and> (\<forall>v. Ok u = Ok v \<longrightarrow> map snd fr = pr_frames response)"
  then have fr: "map snd fr = pr_frames response" by simp
  assume times: "fst ` set fr \<subseteq> {mo_now s..<mo_now s1}"
  have silent: "response_written S H B peer wd response (fr @ [])" using fr by (simp add: response_written_def)
  let ?finish = "match_result (revalidate_operator_session P S H B peer wd identity) (\<lambda>_. ret (pr_terminal response))
         (\<lambda>_. lift_result (mark_incomplete S (pr_terminal response)))"
  have quiet: "quiet ?finish"
    by (intro quiet_intros quiet_watches watch_intros)
  show "says (and_then ?finish (\<lambda>terminal. and_then (map_err (\<lambda>_. PostQuery) (lift_result (typed_frame S (ManifestTerminalMsg terminal))))
      (\<lambda>frame. write_stream PostQuery frame))) s1 (\<lambda>r s' out'. response_written S H B peer wd response (fr @ out'))"
  proof (rule says_quiet_then [OF quiet])
    fix t s2
    assume run: "?finish s1 = (Ok t, s2)"
    have t: "ht_posture t = Incomplete \<or> t = pr_terminal response \<and> operator_confirmed H B peer wd (mo_now s1) (mo_now s2)"
      using run revalidate_session_Ok [of P S H B peer wd identity s1]
      by (auto simp: match_result_def lift_result_Ok_iff split: prod.splits outcome.splits dest: incomplete_posture)
    show "says (and_then (map_err (\<lambda>_. PostQuery) (lift_result (typed_frame S (ManifestTerminalMsg t)))) (\<lambda>frame. write_stream PostQuery frame))
        s2 (\<lambda>r s' out'. response_written S H B peer wd response (fr @ out'))"
    proof (rule says_quiet_then)
      fix f s3
      assume "map_err (\<lambda>_. PostQuery) (lift_result (typed_frame S (ManifestTerminalMsg t))) s2 = (Ok f, s3)"
      then have f: "typed_frame S (ManifestTerminalMsg t) = Inr f" "s3 = s2" by (auto simp: map_err_Ok_iff lift_result_Ok_iff)
      have "fst ` set fr \<subseteq> {..<mo_now s1}" using times by auto
      with t f(2) show "says (write_stream PostQuery f) s3 (\<lambda>r s' out'. response_written S H B peer wd response (fr @ out'))"
        by (intro says_terminal [OF f(1) fr]) blast
    qed (rule silent | intro quiet_intros)+
  qed (rule silent)
qed (auto simp: response_written_def)

text \<open>
  The answer to a query asked at moment \<open>i\<close>: a refusal, or a response that was prepared from the files \<open>N\<close>
  before the operator was confirmed once more.
\<close>

definition answered ::
  "'x service_env_scheme \<Rightarrow> peer_host \<Rightarrow> history_binding \<Rightarrow> (path \<rightharpoonup> fnode) \<Rightarrow> observed_session_peer \<Rightarrow> working_directory \<Rightarrow>
   history_query \<Rightarrow> nat \<Rightarrow> (nat \<times> string) list \<Rightarrow> bool" where
  "answered S H B N peer wd q i out \<longleftrightarrow> refusal_written S q out \<or>
     (\<exists>M identity response w w' j. select_live_mapping B wd = Inr M \<and> node_at w = N \<and>
        build_response S B M q identity w = (Ok response, w') \<and> operator_confirmed H B peer wd i j \<and>
        fst ` set out \<subseteq> {j..} \<and> response_written S H B peer wd response out)"

lemma says_refuse:
  "says (refuse_query P S H B peer wd identity q reason) s (\<lambda>r s' out. out = [] \<or> answered S H B N peer wd q i out)"
  unfolding refuse_query_def
proof (rule says_quiet_then)
  fix u s1
  show "says (map_err (\<lambda>_. PostQuery) (write_query_refusal S q reason)) s1 (\<lambda>r s' out. out = [] \<or> answered S H B N peer wd q i out)"
    by (intro says_map_err says_mono [OF says_refusal]) (auto simp: answered_def)
qed (auto intro!: quiet_intros quiet_watches watch_intros)

lemma says_answer:
  "says (answer_query P S H B peer wd identity q) s
     (\<lambda>r s' out. out = [] \<or> answered S H B (node_at (hs_world s)) peer wd q (mo_now s) out)"
proof (cases "select_live_mapping B wd")
  case (Inr M)
  let ?N = "node_at (hs_world s)"
  have "says (match_result (with_files (build_response S B M q identity))
           (\<lambda>response. match_result (revalidate_operator_session P S H B peer wd identity)
                (\<lambda>_. send_response P S H B peer wd identity response)
                (\<lambda>reason. map_err (\<lambda>_. PostQuery) (write_query_refusal S q reason)))
           (refuse_query P S H B peer wd identity q)) s (\<lambda>r s' out. out = [] \<or> answered S H B ?N peer wd q (mo_now s) out)"
  proof (rule says_match)
    fix response s1
    assume run: "with_files (build_response S B M q identity) s = (Ok response, s1)"
    then obtain w where built: "build_response S B M q identity (hs_world s) = (Ok response, w)" and s1: "mo_now s1 = mo_now s"
      by (auto simp: with_files_def split: prod.splits)
    show "says (match_result (revalidate_operator_session P S H B peer wd identity)
                (\<lambda>_. send_response P S H B peer wd identity response)
                (\<lambda>reason. map_err (\<lambda>_. PostQuery) (write_query_refusal S q reason))) s1
        (\<lambda>r s' out. out = [] \<or> answered S H B ?N peer wd q (mo_now s) out)"
    proof (rule says_match)
      fix u s2
      assume "revalidate_operator_session P S H B peer wd identity s1 = (Ok u, s2)"
      then have ok: "operator_confirmed H B peer wd (mo_now s) (mo_now s2)" using revalidate_session_Ok s1 by fastforce
      show "says (send_response P S H B peer wd identity response) s2 (\<lambda>r s' out. out = [] \<or> answered S H B ?N peer wd q (mo_now s) out)"
        unfolding says_def
      proof (intro allI impI)
        fix r s' assume "send_response P S H B peer wd identity response s2 = (r, s')"
        from saysD [OF says_response this] obtain out where "hs_sent s' = hs_sent s2 @ out" "files_kept s2 s'"
          "fst ` set out \<subseteq> {mo_now s2..<mo_now s'}" "response_written S H B peer wd response out" .
        moreover from this have "fst ` set out \<subseteq> {mo_now s2..}" by auto
        ultimately show "\<exists>out. hs_sent s' = hs_sent s2 @ out \<and> files_kept s2 s' \<and> fst ` set out \<subseteq> {mo_now s2..<mo_now s'} \<and>
            (out = [] \<or> answered S H B ?N peer wd q (mo_now s) out)"
          using Inr built ok unfolding answered_def by blast
      qed
    next
      fix reason s2
      show "says (map_err (\<lambda>_. PostQuery) (write_query_refusal S q reason)) s2 (\<lambda>r s' out. out = [] \<or> answered S H B ?N peer wd q (mo_now s) out)"
        by (intro says_map_err says_mono [OF says_refusal]) (auto simp: answered_def)
    qed (auto intro!: quiet_watches watch_intros)
  qed (auto intro!: quiet_intros touches_intros says_refuse)
  with Inr show ?thesis by (simp add: answer_query_def)
qed (simp add: answer_query_def says_refuse)

text \<open>After the query every error is \<open>PostQuery\<close>.\<close>

named_theorems post_intros \<open>calls after the query\<close>

definition post_query :: "(history_session, connection_error, 'a) proc \<Rightarrow> bool" where
  "post_query m \<longleftrightarrow> (\<forall>s reason. fst (m s) \<noteq> Err (PreQuery reason))"

lemma post_ends [post_intros]:
  "post_query (ret a)" "post_query (map_err (\<lambda>_. PostQuery) m)" "post_query (write_stream PostQuery bs)"
  "post_query (lift_result (mark_incomplete S t))"
  by (auto simp: post_query_def map_err_def write_stream_def lift_result_def mark_incomplete_def try_with_def ok_or_def Let_def
      split: prod.splits outcome.splits list.splits option.splits sum.splits)

lemma post_and_then [post_intros]: "post_query m \<Longrightarrow> (\<And>a. post_query (f a)) \<Longrightarrow> post_query (and_then m f)"
  by (auto simp: post_query_def and_then_def split: prod.splits outcome.splits) (metis fst_conv)+

lemma post_match [post_intros]: "(\<And>a. post_query (f a)) \<Longrightarrow> (\<And>e. post_query (g e)) \<Longrightarrow> post_query (match_result m f g)"
  by (auto simp: post_query_def match_result_def split: prod.splits outcome.splits)

lemma answer_post: "post_query (answer_query P S H B peer wd identity q)"
proof -
  have frames: "post_query (write_frames fs)" for fs
    by (induction fs) (simp_all only: write_frames.simps post_ends post_and_then)
  have refuse: "post_query (refuse_query P S H B peer wd identity q reason)" for reason
    unfolding refuse_query_def by (intro post_intros)
  show ?thesis
  proof (cases "select_live_mapping B wd")
    case (Inr M)
    then show ?thesis unfolding answer_query_def send_response_def by (auto intro!: post_intros frames refuse)
  qed (simp add: answer_query_def refuse)
qed

text \<open>
  A connection served from moment \<open>i\<close> on: the operator, not root, was confirmed before anything was
  written, and a query with its own identity was answered.
\<close>

definition served ::
  "'x service_env_scheme \<Rightarrow> peer_host \<Rightarrow> history_binding \<Rightarrow> (path \<rightharpoonup> fnode) \<Rightarrow> nat \<Rightarrow> (nat \<times> string) list \<Rightarrow> bool" where
  "served S H B N i out \<longleftrightarrow>
     (\<exists>peer wd q j. op_uid peer \<noteq> 0 \<and> operator_confirmed H B peer wd i j \<and> fst ` set out \<subseteq> {j..} \<and>
        query_v1_identity S q = Some (hq_query_identity q) \<and> answered S H B N peer wd q j out)"

lemma says_connection:
  "says (serve_connection P S H B) s (\<lambda>r s' out. (\<forall>reason. r = Err (PreQuery reason) \<longrightarrow> out = []) \<and>
     (out = [] \<or> served S H B (node_at (hs_world s)) (mo_now s) out))"
  (is "says _ _ ?Q")
proof -
  let ?before = "and_then (map_err (\<lambda>_. PreQuery PeerAdmissionRefused) (observe_connected_peer H)) (\<lambda>peer.
     and_then (map_err PreQuery (admit_operator H B peer)) (\<lambda>_.
     and_then (map_err PreQuery (observe_working_directory P H peer)) (\<lambda>wd.
     and_then (map_err (\<lambda>_. PreQuery PeerAdmissionRefused) (revalidate_connected_peer H peer)) (\<lambda>_.
     and_then (map_err PreQuery (operator_peer_identity S H B peer wd)) (\<lambda>identity.
     and_then (map_err (\<lambda>_. PreQuery PeerAdmissionRefused) (revalidate_connected_peer H peer)) (\<lambda>_.
     and_then (map_err PreQuery (receive_query S)) (\<lambda>q. ret (peer, wd, identity, q))))))))"
  have split: "serve_connection P S H B = and_then ?before (\<lambda>(peer, wd, identity, q). answer_query P S H B peer wd identity q)"
    by (simp add: serve_connection_def and_then_assoc and_then_ret)
  have "quiet ?before" by (intro quiet_intros quiet_watches watch_intros)
  then show ?thesis unfolding split
  proof (rule says_quiet_then)
    fix x s1
    assume run: "?before s = (Ok x, s1)" and kept: "files_kept s s1"
    obtain peer wd identity q where x: "x = (peer, wd, identity, q)" by (cases x)
    from run obtain a b c d e f where
      o: "observe_connected_peer H s = (Ok peer, a)" "admit_operator H B peer a = (Ok (), b)"
        "observe_working_directory P H peer b = (Ok wd, c)" "revalidate_connected_peer H peer c = (Ok (), d)"
        "operator_peer_identity S H B peer wd d = (Ok identity, e)" "revalidate_connected_peer H peer e = (Ok (), f)"
        "receive_query S f = (Ok q, s1)"
      by (auto simp: and_then_Ok_iff map_err_Ok_iff x)
    from watchesD [OF observe_peer_watches o(1)] watchesD [OF identity_watches o(5)] obtain n m where nm: "a = later n s" "e = later m d"
      by blast
    note adm = admit_Ok [OF o(2)] and wk = working_Ok [OF o(3)]
    have q: "query_v1_identity S q = Some (hq_query_identity q)"
      using o(7) by (auto simp: receive_query_def and_then_Ok_iff split: option.splits if_splits)
    have "mo_now f \<le> mo_now s1" using quietD [OF quiet_receive o(7)] by (simp add: files_kept_def)
    have ok: "operator_confirmed H B peer wd (mo_now s) (mo_now s1)"
    proof (rule operator_confirmedI)
      show "connected_at H peer (mo_now a + 1)" "restricted_at H peer (mo_now a + 6)"
        "runs_at H peer (hb_installed_client_identity B) (mo_now a + 9)" using adm by auto
      show "working_at H peer wd (mo_now b)" using wk by blast
      show "alive_at H peer (mo_now c + 2)" using o(4) by (simp add: revalidate_Ok_iff)
    qed (use adm wk nm o(4,6) \<open>mo_now f \<le> mo_now s1\<close> in \<open>auto simp: revalidate_Ok_iff\<close>)
    have N: "node_at (hs_world s1) = node_at (hs_world s)" using kept by (simp add: files_kept_def)
    show "says (case x of (peer, wd, identity, q) \<Rightarrow> answer_query P S H B peer wd identity q) s1 ?Q"
      unfolding says_def x prod.case
    proof (intro allI impI)
      fix r s' assume ans: "answer_query P S H B peer wd identity q s1 = (r, s')"
      from saysD [OF says_answer ans] obtain out where out: "hs_sent s' = hs_sent s1 @ out" "files_kept s1 s'"
        "fst ` set out \<subseteq> {mo_now s1..<mo_now s'}" "out = [] \<or> answered S H B (node_at (hs_world s)) peer wd q (mo_now s1) out"
        unfolding N .
      moreover have "r \<noteq> Err (PreQuery reason)" for reason using answer_post ans unfolding post_query_def by (metis fst_conv)
      moreover have "fst ` set out \<subseteq> {mo_now s1..}" using out(3) by auto
      ultimately show "\<exists>out. hs_sent s' = hs_sent s1 @ out \<and> files_kept s1 s' \<and> fst ` set out \<subseteq> {mo_now s1..<mo_now s'} \<and> ?Q r s' out"
        using ok q adm unfolding served_def by blast
    qed
  qed simp
qed

definition pre_query_written :: "'x query_env_scheme \<Rightarrow> (nat \<times> string) list \<Rightarrow> bool" where
  "pre_query_written S out \<longleftrightarrow> (\<exists>m. wrote_message S (PreQueryRefusalMsg m) out \<and>
     pq_reason m \<in> {MalformedQuery, UnsupportedProtocol, ServiceUnavailableRefusal, PeerAdmissionRefused})"

lemma says_pre_query: "says (write_pre_query_refusal S rnd reason) s (\<lambda>r s' out. out = [] \<or> pre_query_written S out)"
proof (cases rnd)
  case (Some nonce)
  show ?thesis unfolding Some write_pre_query_refusal_def Let_def option.case
  proof (rule says_quiet_then)
    fix i s1
    show "says (write_typed S (PreQueryRefusalMsg (\<lparr>pq_schema_version = 1,
             pq_message_kind = history_constant S ''LAUNCHER_HISTORY_PRE_QUERY_REFUSAL'',
             pq_protocol_version = history_protocol_v1 S, pq_refusal_nonce = hex_suffix nonce,
             pq_reason = pre_query_reason reason, pq_terminal_identity = []\<rparr>\<lparr>pq_terminal_identity := i\<rparr>))) s1
        (\<lambda>r s' out. out = [] \<or> pre_query_written S out)"
    proof (rule says_mono [OF says_typed], elim disj_forward)
      fix out
      let ?m = "\<lparr>pq_schema_version = 1, pq_message_kind = history_constant S ''LAUNCHER_HISTORY_PRE_QUERY_REFUSAL'',
             pq_protocol_version = history_protocol_v1 S, pq_refusal_nonce = hex_suffix nonce,
             pq_reason = pre_query_reason reason, pq_terminal_identity = []\<rparr>\<lparr>pq_terminal_identity := i\<rparr>"
      assume "wrote_message S (PreQueryRefusalMsg ?m) out"
      moreover have "pq_reason ?m \<in> {MalformedQuery, UnsupportedProtocol, ServiceUnavailableRefusal, PeerAdmissionRefused}"
        by (simp add: pre_query_reason_def)
      ultimately show "pre_query_written S out" unfolding pre_query_written_def by blast
    qed assumption
  qed (auto intro: quiet_intros)
qed (simp add: write_pre_query_refusal_def says_quiet quiet_intros)

lemma load_binding_looks [touches_intros]: "touches {} (load_protected_history_binding_v1 C P E K)"
proof -
  have maps: "touches {} (validate_history_mappings P K catalog uid root ids reps nss ms)" for catalog uid root ids reps nss ms
    by (induction ms arbitrary: ids reps nss) (auto intro!: touches_intros)
  show ?thesis
    unfolding load_protected_history_binding_v1_def load_protected_history_binding_at_def validate_binding_def
    by (intro touches_intros maps)
qed

lemma listener_looks [touches_intros]: "touches {} (inherited_listener L B)"
  unfolding inherited_listener_def by (intro touches_intros)

lemma says_served:
  "says (match_result (serve_connection P S H B) (\<lambda>_. ret 0) (refuse_connection S rnd)) s
     (\<lambda>r s' out. out = [] \<or> pre_query_written S out \<or> served S H B (node_at (hs_world s)) (mo_now s) out)"
  unfolding says_def
proof (intro allI impI)
  fix r s'
  assume run: "match_result (serve_connection P S H B) (\<lambda>_. ret 0) (refuse_connection S rnd) s = (r, s')"
  obtain r1 s1 where conn: "serve_connection P S H B s = (r1, s1)" by fastforce
  from saysD [OF says_connection conn] obtain out where out: "hs_sent s1 = hs_sent s @ out" "files_kept s s1"
    "fst ` set out \<subseteq> {mo_now s..<mo_now s1}" "(\<forall>reason. r1 = Err (PreQuery reason) \<longrightarrow> out = []) \<and>
       (out = [] \<or> served S H B (node_at (hs_world s)) (mo_now s) out)" .
  show "\<exists>out. hs_sent s' = hs_sent s @ out \<and> files_kept s s' \<and> fst ` set out \<subseteq> {mo_now s..<mo_now s'} \<and>
      (out = [] \<or> pre_query_written S out \<or> served S H B (node_at (hs_world s)) (mo_now s) out)"
  proof (cases "\<exists>reason. r1 = Err (PreQuery reason)")
    case True
    then obtain reason where r1: "r1 = Err (PreQuery reason)" ..
    obtain r2 s2 where pre: "write_pre_query_refusal S rnd reason s1 = (r2, s2)" by fastforce
    with run conn r1 have s': "s' = s2" by (auto simp: match_result_def refuse_connection_def split: outcome.splits)
    from saysD [OF says_pre_query pre] obtain o2 where o2: "hs_sent s2 = hs_sent s1 @ o2" "files_kept s1 s2"
      "fst ` set o2 \<subseteq> {mo_now s1..<mo_now s2}" "o2 = [] \<or> pre_query_written S o2" .
    have "fst ` set o2 \<subseteq> {mo_now s..<mo_now s2}" using o2(3) out(2) by (auto simp: files_kept_def)
    with o2 out r1 files_kept_trans [OF out(2) o2(2)] show ?thesis unfolding s' by (intro exI [of _ o2]) auto
  next
    case False
    with run conn have "s' = s1"
      by (auto simp: match_result_def refuse_connection_def split: outcome.splits connection_error.splits)
    with out show ?thesis by blast
  qed
qed

text \<open>
  C34. Nothing of the history leaves before the operator is known. However \<open>serve_once\<close> ends, whatever the
  peer, the kernel and the files do, it changes no file. Everything it writes it writes as root under a
  binding it loaded, and it is one of three things. Before the operator is admitted and has
  asked, it is a refusal that names no more than a malformed query, an unsupported protocol, an
  unavailable service or a refused peer. Otherwise the peer was the operator of the binding, not root, found
  connected, without privileges, running the installed client in its working directory, and still alive after
  that, all before the first byte; then it is a refusal of the query, or the frames of a response built for
  the one repository mapped to that directory, after the operator was confirmed again. A
  terminal message that does not say \<open>Incomplete\<close> comes behind all frames and a further confirmation after
  them.
\<close>

theorem history_service_guarded:
  assumes "serve_once C P K S H L rnd s = (r, s')"
  shows "node_at (hs_world s') = node_at (hs_world s) \<and> (\<exists>out. hs_sent s' = hs_sent s @ out \<and>
    (out = [] \<or> w_euid (hs_world s) = 0 \<and> (\<exists>B w. load_protected_history_binding_v1 C P S K (hs_world s) = (Ok B, w) \<and>
      (pre_query_written S out \<or> served S H B (node_at (hs_world s)) (mo_now s) out))))"
proof -
  let ?Q = "\<lambda>r s' out. out = [] \<or> w_euid (hs_world s) = 0 \<and> (\<exists>B w. load_protected_history_binding_v1 C P S K (hs_world s) = (Ok B, w) \<and>
      (pre_query_written S out \<or> served S H B (node_at (hs_world s)) (mo_now s) out))"
  let ?serve = "\<lambda>B. match_result (serve_connection P S H B) (\<lambda>_. ret 0) (refuse_connection S rnd)"
  have "says (serve_once C P K S H L rnd) s ?Q"
  proof (cases "w_euid (hs_world s) = 0")
    case True
    then have "serve_once C P K S H L rnd s = and_then (with_files (map_err (\<lambda>_. ListenerUnavailable) (load_protected_history_binding_v1 C P S K)))
       (\<lambda>B. and_then (with_files (inherited_listener L B)) (\<lambda>_. if \<not> ls_accepts L then throw ListenerUnavailable
           else if \<not> ls_timeouts L then throw ListenerUnavailable else ?serve B)) s" (is "_ = ?rest s")
      by (simp add: serve_once_def and_then_def [where m = "with_files geteuid"] with_files_def [of geteuid] geteuid_def)
    moreover have "says ?rest s ?Q"
    proof (intro says_quiet_then quiet_intros touches_intros)
      fix B s1 u s2
      assume load: "with_files (map_err (\<lambda>_. ListenerUnavailable) (load_protected_history_binding_v1 C P S K)) s = (Ok B, s1)"
        and kept: "files_kept s s1" "files_kept s1 s2" and listen: "with_files (inherited_listener L B) s1 = (Ok u, s2)"
      from load listen obtain w where B: "load_protected_history_binding_v1 C P S K (hs_world s) = (Ok B, w)" "mo_now s2 = mo_now s"
        by (auto simp: with_files_def map_err_Ok_iff split: prod.splits)
      have "node_at (hs_world s2) = node_at (hs_world s)" using kept by (simp add: files_kept_def)
      with says_served [of P S H B rnd s2] B True have "says (?serve B) s2 ?Q" by (auto elim!: says_mono)
      then show "says (if \<not> ls_accepts L then throw ListenerUnavailable
           else if \<not> ls_timeouts L then throw ListenerUnavailable else ?serve B) s2 ?Q" by (simp add: says_throw)
    qed auto
    ultimately show ?thesis by (simp add: says_def)
  next
    case False
    then have "serve_once C P K S H L rnd s = throw RootRequired s"
      by (simp add: serve_once_def and_then_def with_files_def geteuid_def)
    then show ?thesis by (simp add: says_def)
  qed
  from saysD [OF this assms] obtain out where "hs_sent s' = hs_sent s @ out" "files_kept s s'" "?Q r s' out" .
  then show ?thesis unfolding files_kept_def by blast
qed

end
