(* ===== verification/History_Query.thy ===== *)
theory History_Query
  imports History_Service
begin

text \<open>
  An attachment and a later query put together: what the launcher attached to the protected history is
  what the service sends to the operator who asks for it.
\<close>


section \<open>The entry a query selects\<close>

lemma attached_selected:
  assumes located: "locate_archive_at E repo uid receipt crossing v = (Ok t, v')" and "evidence_canonical sc j" and "entry_codec E"
    and store: "history_store E B M dir w" and limit: "within_limit E dir w1"
    and grown: "grows (attached_file E B M dir t sc j w1) w w1"
    and before: "load_catalog_entries E B M (calm_world w) = (Ok es, w0)"
    and e: "entry_backed E B M t sc j e w1" "identity_file_name (ce_identity e) = Inr name" "entry_to_vec E e = Some bs"
      "holds (path_join dir (name @ ''.json'')) bs w1"
    and Q: "Q e" "\<And>x. x \<in> set es \<Longrightarrow> \<not> Q x"
  obtains es1 where "load_catalog_entries E B M (calm_world w1) = (Ok es1, calm_world w1)" "filter Q es1 = [e]"
proof -
  note store1 = history_store_mono [OF grown store]
  have dirs: "store_directory dir (calm_world w)" "store_directory dir (calm_world w1)"
    "namespace_path (hb_catalog_root B) (rm_catalog_namespace_identity M) = Inr dir" "hb_blob_root B \<noteq> dir"
    using store store1 by (auto simp: history_store_def store_directory_def)
  have calm: "catalog_file E B M dir (calm_world x) = catalog_file E B M dir x" for x
    by (simp add: catalog_file_def fun_eq_iff)
  from catalog_after [OF assms(1-5) grown before] obtain es1 where
    run: "load_catalog_entries E B M (calm_world w1) = (Ok es1, calm_world w1)"
    and filed: "\<And>e name bs. entry_backed E B M t sc j e w1 \<Longrightarrow> identity_file_name (ce_identity e) = Inr name \<Longrightarrow>
      entry_to_vec E e = Some bs \<Longrightarrow> holds (path_join dir (name @ ''.json'')) bs w1 \<Longrightarrow> set es1 = insert e (set es)" by blast
  note load = run filed [OF e]
  from load_catalog_iff(1) [OF _ dirs(1,3) before]
  have old: "node_at w (path_join dir x) \<noteq> None \<Longrightarrow> \<exists>y. catalog_file E B M dir w x y"
    and es: "set es = {z. \<exists>x. catalog_file E B M dir w x (Some z)}" for x by (simp_all add: calm)
  have unique: "x = name @ ''.json''" if x: "catalog_file E B M dir w1 x (Some z)" "Q z" for x z
  proof -
    have "node_at w (path_join dir x) = None"
    proof (rule ccontr)
      assume "node_at w (path_join dir x) \<noteq> None"
      from old [OF this] obtain y where y: "catalog_file E B M dir w x y" ..
      with catalog_file_functional [OF catalog_file_mono [OF grown y] x(1)] have "z \<in> set es" unfolding es by blast
      with Q(2) x(2) show False by blast
    qed
    moreover from x(1) obtain n where n: "node_at w1 (path_join dir x) = Some n" by (auto simp: catalog_file_def)
    ultimately have "attached_file E B M dir t sc j w1 (path_join dir x) n" using growsD(3) [OF grown] by blast
    with dirs(4) consider (temp) r where "x = staging_name r"
      | (filed) e' where "entry_backed E B M t sc j e' w1" "entry_file E dir (w_euid w1) e' (path_join dir x) n"
      unfolding attached_file_def blob_file_def staging_file_def by (auto dest!: path_join_dir)
    then show ?thesis
    proof cases
      case temp
      with x(1) show ?thesis by (simp add: catalog_file_def catalog_value_def staging_name_internal)
    next
      case filed
      with entry_backed_unique [OF filed(1) e(1)] e(2) show ?thesis by (auto simp: entry_file_def dest!: path_join_dir)
    qed
  qed
  have "e \<in> set es1" using load(2) by simp
  with load_catalog_iff(1) [OF _ dirs(2,3) load(1)] obtain x where x: "catalog_file E B M dir w1 x (Some e)"
    by (auto simp: calm)
  have "filter Q es1 = [e]"
  proof (rule load_catalog_selects [OF _ dirs(2,3) load(1), where name = x and e = e and Q = Q, unfolded calm])
    show "y = x" if "catalog_file E B M dir w1 y (Some z)" "Q z" for y z using unique [OF that] unique [OF x Q(1)] by simp
  qed (use x Q(1) in simp_all)
  with load(1) that show thesis by blast
qed


section \<open>Everything the service sends fits a frame\<close>

text \<open>
  What a message costs: the bytes of its texts (an element of a list with its separators), its numbers
  and the bytes of a chunk.
\<close>

fun message_texts :: "history_message \<Rightarrow> nat" where
  "message_texts (ManifestMsg x) = length (mf_message_kind x) + length (mf_protocol_version x) + length (mf_query_identity x) +
     length (mf_repository_binding_identity x) + length (mf_catalog_namespace_identity x) + length (mf_operator_profile_identity x) +
     length (mf_operator_peer_identity x) + sum_list (map (\<lambda>i. length i + 4) (mf_catalog_entry_identities x)) +
     length (mf_catalog_snapshot_identity x) + length (mf_manifest_identity x)"
| "message_texts (EntryMsg x) = length (en_message_kind x) + length (en_protocol_version x) + length (en_manifest_identity x) +
     length (en_catalog_identity x) + length (en_archive_object_identity x) + length (en_contract_snapshot_object_identity x) +
     length (en_sidecar_object_identity x) + length (en_entry_identity x)"
| "message_texts (ObjectMsg x) = length (ob_message_kind x) + length (ob_protocol_version x) + length (ob_manifest_identity x) +
     length (ob_catalog_identity x) + length (ob_content_identity x) + length (ob_object_identity x)"
| "message_texts (ChunkMsg x) = length (hc_message_kind x) + length (hc_protocol_version x) + length (hc_object_identity x) +
     length (hc_chunk_identity x)"
| "message_texts (ManifestTerminalMsg x) = length (ht_message_kind x) + length (ht_protocol_version x) + length (ht_query_identity x) +
     length (ht_manifest_identity x) + length (ht_terminal_identity x)"
| "message_texts (PreQueryRefusalMsg x) = length (pq_message_kind x) + length (pq_protocol_version x) + length (pq_refusal_nonce x) +
     length (pq_terminal_identity x)"
| "message_texts (QueryRefusalMsg x) = length (qr_message_kind x) + length (qr_protocol_version x) + length (qr_query_identity x) +
     length (qr_terminal_identity x)"

fun message_numbers :: "history_message \<Rightarrow> nat list" where
  "message_numbers (ManifestMsg x) = [mf_schema_version x, mf_total_selected_count x, mf_bounded_response_bytes x]"
| "message_numbers (EntryMsg x) = [en_schema_version x, en_entry_ordinal x]"
| "message_numbers (ObjectMsg x) = [ob_schema_version x, ob_entry_ordinal x, ob_byte_length x, ob_chunk_count x]"
| "message_numbers (ChunkMsg x) = [hc_schema_version x, hc_chunk_ordinal x]"
| "message_numbers (ManifestTerminalMsg x) = [ht_schema_version x, ht_returned_count x]"
| "message_numbers (PreQueryRefusalMsg x) = [pq_schema_version x]"
| "message_numbers (QueryRefusalMsg x) = [qr_schema_version x]"

fun message_payload :: "history_message \<Rightarrow> string" where
  "message_payload (ChunkMsg x) = hc_bytes x"
| "message_payload m = []"

text \<open>
  What the crates promise. The serializer is total on messages whose numbers fit their 64 bits and
  spends a bounded number of bytes on what every message has, on a byte of text and on a byte of a chunk
  (\<open>serde_json\<close> escapes a byte of text to at most six and writes a byte of a list as at most four). A
  payload of one to \<open>MAX_FRAME_BYTES\<close> bytes has a frame, its length before it. Identities are SHA-256
  identities, and those of messages put together the way the service does are there.
\<close>

definition serializes_within :: "'x query_env_scheme \<Rightarrow> nat \<Rightarrow> nat \<Rightarrow> nat \<Rightarrow> bool" where
  "serializes_within S overhead escape cost \<longleftrightarrow>
     (\<forall>m. list_all (\<lambda>n. n < 2 ^ 64) (message_numbers m) \<longrightarrow>
        (\<exists>v. history_to_vec S m = Some v \<and> v \<noteq> [] \<and>
           length v \<le> overhead + escape * message_texts m + cost * length (message_payload m)))"

definition frames_within :: "'x query_env_scheme \<Rightarrow> bool" where
  "frames_within S \<longleftrightarrow> history_max_frame_bytes S < 2 ^ 32 \<and>
     (\<forall>p. p \<noteq> [] \<and> length p \<le> history_max_frame_bytes S \<longrightarrow> history_encode_frame S p = Some (to_be_bytes (length p) @ p))"

definition gives_identity :: "('m \<Rightarrow> string option) \<Rightarrow> 'm \<Rightarrow> bool" where
  "gives_identity f x \<longleftrightarrow> (case f x of Some i \<Rightarrow> is_sha256 i | None \<Rightarrow> False)"

fun built_message :: "'x query_env_scheme \<Rightarrow> history_message \<Rightarrow> bool" where
  "built_message S (ManifestMsg x) \<longleftrightarrow>
     mf_schema_version x = 1 \<and> mf_message_kind x = history_constant S ''LAUNCHER_HISTORY_MANIFEST'' \<and>
     mf_protocol_version x = history_protocol_v1 S \<and> mf_manifest_identity x = [] \<and>
     mf_total_selected_count x = length (mf_catalog_entry_identities x) \<and> length (mf_catalog_entry_identities x) < 2 ^ 32 \<and>
     mf_bounded_response_bytes x < 2 ^ 64 \<and> list_all is_sha256 (mf_catalog_entry_identities x) \<and>
     list_all is_sha256 [mf_query_identity x, mf_repository_binding_identity x, mf_catalog_namespace_identity x,
       mf_operator_profile_identity x, mf_operator_peer_identity x, mf_catalog_snapshot_identity x]"
| "built_message S (EntryMsg x) \<longleftrightarrow>
     en_schema_version x = 1 \<and> en_message_kind x = history_constant S ''LAUNCHER_HISTORY_ENTRY'' \<and>
     en_protocol_version x = history_protocol_v1 S \<and> en_entry_identity x = [] \<and> en_entry_ordinal x < 2 ^ 32 \<and>
     list_all is_sha256 [en_manifest_identity x, en_catalog_identity x, en_archive_object_identity x,
       en_contract_snapshot_object_identity x, en_sidecar_object_identity x]"
| "built_message S (ObjectMsg x) \<longleftrightarrow>
     ob_schema_version x = 1 \<and> ob_message_kind x = history_constant S ''LAUNCHER_HISTORY_OBJECT'' \<and>
     ob_protocol_version x = history_protocol_v1 S \<and> ob_object_identity x = [] \<and> ob_entry_ordinal x < 2 ^ 32 \<and>
     ob_byte_length x < 2 ^ 64 \<and> ob_chunk_count x < 2 ^ 32 \<and>
     ob_chunk_count x = div_ceil (ob_byte_length x) (max_history_chunk_payload_bytes S) \<and>
     list_all is_sha256 [ob_manifest_identity x, ob_catalog_identity x, ob_content_identity x]"
| "built_message S (ChunkMsg x) \<longleftrightarrow>
     hc_schema_version x = 1 \<and> hc_message_kind x = history_constant S ''LAUNCHER_HISTORY_CHUNK'' \<and>
     hc_protocol_version x = history_protocol_v1 S \<and> hc_chunk_identity x = [] \<and> hc_chunk_ordinal x < 2 ^ 32 \<and>
     hc_bytes x \<noteq> [] \<and> length (hc_bytes x) \<le> max_history_chunk_payload_bytes S \<and> is_sha256 (hc_object_identity x)"
| "built_message S (ManifestTerminalMsg x) \<longleftrightarrow>
     ht_schema_version x = 1 \<and> ht_message_kind x = history_constant S ''LAUNCHER_HISTORY_MANIFEST_TERMINAL'' \<and>
     ht_protocol_version x = history_protocol_v1 S \<and> ht_terminal_identity x = [] \<and> ht_returned_count x < 2 ^ 32 \<and>
     is_sha256 (ht_query_identity x) \<and> is_sha256 (ht_manifest_identity x)"
| "built_message S m \<longleftrightarrow> False"

definition identities_given :: "'x query_env_scheme \<Rightarrow> bool" where
  "identities_given S \<longleftrightarrow>
     (\<forall>bs. is_sha256 (content_identity_of S bs)) \<and> (\<forall>d x. gives_identity (snapshot_message_identity S d) x) \<and>
     (\<forall>q i. query_v1_identity S q = Some i \<longrightarrow> is_sha256 i) \<and>
     (\<forall>x. built_message S (ManifestMsg x) \<longrightarrow> gives_identity (manifest_v1_identity S) x) \<and>
     (\<forall>x. built_message S (EntryMsg x) \<longrightarrow> gives_identity (entry_v1_identity S) x) \<and>
     (\<forall>x. built_message S (ObjectMsg x) \<longrightarrow> gives_identity (object_v1_identity S) x) \<and>
     (\<forall>x. built_message S (ChunkMsg x) \<longrightarrow> gives_identity (chunk_v1_identity S) x) \<and>
     (\<forall>x. built_message S (ManifestTerminalMsg x) \<longrightarrow> gives_identity (terminal_v1_identity S) x)"

text \<open>
  The room a frame must leave: for the constants, for the identities of the message that has most of them,
  the manifest of one entry, and for the bytes of one chunk.
\<close>

definition response_constants :: "string list" where
  "response_constants =
     [''LAUNCHER_HISTORY_MANIFEST'', ''LAUNCHER_HISTORY_ENTRY'', ''LAUNCHER_HISTORY_OBJECT'', ''LAUNCHER_HISTORY_CHUNK'',
      ''LAUNCHER_HISTORY_MANIFEST_TERMINAL'', ''SYSTEMD_PROTECTED_HISTORY_PROTOCOL_V1'']"

definition longest_constant :: "'x query_env_scheme \<Rightarrow> nat" where
  "longest_constant S = foldr max (map (length \<circ> history_constant S) response_constants) 0"

definition response_texts :: "'x query_env_scheme \<Rightarrow> nat" where
  "response_texts S = 2 * longest_constant S + 8 * 71 + 4"

definition protocol_laws :: "'x query_env_scheme \<Rightarrow> nat \<Rightarrow> nat \<Rightarrow> nat \<Rightarrow> bool" where
  "protocol_laws S overhead escape cost \<longleftrightarrow>
     serializes_within S overhead escape cost \<and> frames_within S \<and> identities_given S \<and>
     overhead + escape * response_texts S + cost * max_history_chunk_payload_bytes S \<le> history_max_frame_bytes S"

lemma sha256_length [simp]: "is_sha256 s \<Longrightarrow> length s = 71"
  by (auto simp: is_sha256_iff identity_file_name_iff)

lemma foldr_max_upper: "x \<in> set xs \<Longrightarrow> x \<le> foldr max xs (0 :: nat)"
  by (induction xs) (auto simp: le_max_iff_disj)

lemma constant_short: "n \<in> set response_constants \<Longrightarrow> length (history_constant S n) \<le> longest_constant S"
  unfolding longest_constant_def by (intro foldr_max_upper) force

lemma constants_short:
  "length (history_constant S ''LAUNCHER_HISTORY_MANIFEST'') \<le> longest_constant S"
  "length (history_constant S ''LAUNCHER_HISTORY_ENTRY'') \<le> longest_constant S"
  "length (history_constant S ''LAUNCHER_HISTORY_OBJECT'') \<le> longest_constant S"
  "length (history_constant S ''LAUNCHER_HISTORY_CHUNK'') \<le> longest_constant S"
  "length (history_constant S ''LAUNCHER_HISTORY_MANIFEST_TERMINAL'') \<le> longest_constant S"
  "length (history_protocol_v1 S) \<le> longest_constant S"
  by (rule constant_short, simp add: response_constants_def)+

lemma gives_identityE:
  assumes "gives_identity f x"
  obtains i where "f x = Some i" "is_sha256 i" "length i = 71"
  using assms by (auto simp: gives_identity_def split: option.splits)

lemma message_framed:
  assumes "protocol_laws S overhead escape cost" and "list_all (\<lambda>n. n < 2 ^ 64) (message_numbers m)"
    and "message_texts m \<le> response_texts S" and "length (message_payload m) \<le> max_history_chunk_payload_bytes S"
  shows "\<exists>f. typed_frame S m = Inr f"
proof -
  from assms(1,2) obtain v where v: "history_to_vec S m = Some v" "v \<noteq> []"
    "length v \<le> overhead + escape * message_texts m + cost * length (message_payload m)"
    unfolding protocol_laws_def serializes_within_def by blast
  note v(3)
  also have "overhead + escape * message_texts m + cost * length (message_payload m) \<le>
      overhead + escape * response_texts S + cost * max_history_chunk_payload_bytes S"
    using assms(3,4) by (intro add_mono mult_left_mono) simp_all
  also have "\<dots> \<le> history_max_frame_bytes S" using assms(1) by (simp add: protocol_laws_def)
  finally have "history_encode_frame S v = Some (to_be_bytes (length v) @ v)"
    using assms(1) v(2) by (simp add: protocol_laws_def frames_within_def)
  with v(1) show ?thesis by (simp add: typed_frame_def try_with_def ok_or_def)
qed

lemma div_ceil_le: "0 < n \<Longrightarrow> div_ceil m n \<le> m"
proof (cases "m mod n = 0")
  case False
  assume "0 < n"
  then have "m div n \<le> m div n * n" by simp
  moreover have "m div n * n + m mod n = m" by simp
  ultimately have "m div n + 1 \<le> m" using False by linarith
  with False show ?thesis by (simp add: div_ceil_def)
qed (simp add: div_ceil_def)

lemma chunk_framed:
  assumes laws: "protocol_laws S overhead escape cost" and "is_sha256 oid"
    and "payload \<noteq> []" and "length payload \<le> max_history_chunk_payload_bytes S"
  shows "\<exists>c f. history_chunk_of S oid k payload = Inr c \<and> typed_frame S (ChunkMsg c) = Inr f"
proof -
  let ?c = "\<lparr>hc_schema_version = 1, hc_message_kind = history_constant S ''LAUNCHER_HISTORY_CHUNK'',
         hc_protocol_version = history_protocol_v1 S, hc_object_identity = oid, hc_chunk_ordinal = k mod 2 ^ 32,
         hc_bytes = payload, hc_chunk_identity = []\<rparr>"
  have "built_message S (ChunkMsg ?c)" using assms by simp
  with laws have "gives_identity (chunk_v1_identity S) ?c" unfolding protocol_laws_def identities_given_def by blast
  then obtain i where i: "chunk_v1_identity S ?c = Some i" "is_sha256 i" "length i = 71" by (rule gives_identityE)
  have "\<exists>f. typed_frame S (ChunkMsg (?c\<lparr>hc_chunk_identity := i\<rparr>)) = Inr f"
  proof (rule message_framed [OF laws])
    show "message_texts (ChunkMsg (?c\<lparr>hc_chunk_identity := i\<rparr>)) \<le> response_texts S"
      using assms(2) i(3) constants_short(4,6) [of S] by (simp add: response_texts_def)
    show "list_all (\<lambda>n. n < 2 ^ 64) (message_numbers (ChunkMsg (?c\<lparr>hc_chunk_identity := i\<rparr>)))"
      by (simp add: less_le_trans [of "k mod 2 ^ 32" "2 ^ 32"])
  qed (use assms(4) in simp)
  with i(1) show ?thesis by (simp add: history_chunk_of_def try_with_def ok_or_def)
qed

lemma chunk_frames_run:
  assumes "protocol_laws S overhead escape cost" and "is_sha256 oid"
    and "\<And>p. p \<in> set ps \<Longrightarrow> 0 < length p \<and> length p \<le> max_history_chunk_payload_bytes S"
  shows "\<exists>fs. append_chunk_frames S oid frames k ps = Inr fs"
  using assms(3)
proof (induction ps arbitrary: frames k)
  case (Cons p ps)
  from Cons.prems [of p] chunk_framed [OF assms(1,2), of p k] obtain c f where
    "history_chunk_of S oid k p = Inr c" "typed_frame S (ChunkMsg c) = Inr f" by auto
  with Cons.IH [of "frames @ [f]" "k + 1"] Cons.prems show ?case by (simp add: try_with_def)
qed simp

lemma object_framed:
  assumes laws: "protocol_laws S overhead escape cost" and "0 < max_history_chunk_payload_bytes S"
    and "is_sha256 (mf_manifest_identity mf)" and "is_sha256 cat" and "k < 2 ^ 32" and "length bs < 2 ^ 32"
  obtains ob where "history_object_of S mf k cat kind bs = Inr ob" "is_sha256 (ob_object_identity ob)"
    "\<And>frames. \<exists>fs. append_object_frames S frames ob bs = Inr fs"
proof -
  let ?n = "div_ceil (length bs) (max_history_chunk_payload_bytes S)"
  let ?ob = "\<lparr>ob_schema_version = 1, ob_message_kind = history_constant S ''LAUNCHER_HISTORY_OBJECT'',
           ob_protocol_version = history_protocol_v1 S, ob_manifest_identity = mf_manifest_identity mf,
           ob_entry_ordinal = k, ob_catalog_identity = cat, ob_object_kind = kind,
           ob_content_identity = content_identity_of S bs, ob_byte_length = length bs, ob_chunk_count = ?n,
           ob_object_identity = []\<rparr>"
  have few: "?n < 2 ^ 32" using div_ceil_le [OF assms(2), of "length bs"] assms(6) by linarith
  have content: "is_sha256 (content_identity_of S bs)" using laws by (simp add: protocol_laws_def identities_given_def)
  note content_length = sha256_length [OF content]
  have "built_message S (ObjectMsg ?ob)" using few content assms(3-6) by simp
  with laws have "gives_identity (object_v1_identity S) ?ob" unfolding protocol_laws_def identities_given_def by blast
  then obtain i where i: "object_v1_identity S ?ob = Some i" "is_sha256 i" "length i = 71" by (rule gives_identityE)
  have "\<exists>f. typed_frame S (ObjectMsg (?ob\<lparr>ob_object_identity := i\<rparr>)) = Inr f"
  proof (rule message_framed [OF laws])
    show "message_texts (ObjectMsg (?ob\<lparr>ob_object_identity := i\<rparr>)) \<le> response_texts S"
      using assms(3,4) content_length i(3) constants_short(3,6) [of S] by (simp add: response_texts_def)
  qed (use few assms(5,6) in simp_all)
  then obtain f where f: "typed_frame S (ObjectMsg (?ob\<lparr>ob_object_identity := i\<rparr>)) = Inr f" ..
  have "\<exists>fs. append_object_frames S frames (?ob\<lparr>ob_object_identity := i\<rparr>) bs = Inr fs" for frames
    using chunk_frames_run [OF laws i(2) chunk_size] f by (simp add: append_object_frames_def try_with_def)
  with i few show thesis by (intro that [of "?ob\<lparr>ob_object_identity := i\<rparr>"]) (simp_all add: history_object_of_def try_with_def ok_or_def)
qed

lemma entry_frames_run:
  assumes laws: "protocol_laws S overhead escape cost" and "0 < max_history_chunk_payload_bytes S"
    and mf: "is_sha256 (mf_manifest_identity mf)" and cat: "is_sha256 cat" and k: "k < 2 ^ 32"
    and "length a < 2 ^ 32" "length s < 2 ^ 32" "length d < 2 ^ 32"
  shows "\<exists>fs. append_entry_frames S frames mf k cat a s d = Inr fs"
proof -
  note object = object_framed [OF assms(1-5)]
  from object [OF assms(6)] obtain oa where oa: "history_object_of S mf k cat ArchiveObject a = Inr oa"
    "is_sha256 (ob_object_identity oa)" "\<And>frames. \<exists>fs. append_object_frames S frames oa a = Inr fs" by blast
  from object [OF assms(7)] obtain os where os: "history_object_of S mf k cat ContractSnapshotObject s = Inr os"
    "is_sha256 (ob_object_identity os)" "\<And>frames. \<exists>fs. append_object_frames S frames os s = Inr fs" by blast
  from object [OF assms(8)] obtain od where od: "history_object_of S mf k cat SidecarObject d = Inr od"
    "is_sha256 (ob_object_identity od)" "\<And>frames. \<exists>fs. append_object_frames S frames od d = Inr fs" by blast
  let ?e = "\<lparr>en_schema_version = 1, en_message_kind = history_constant S ''LAUNCHER_HISTORY_ENTRY'',
         en_protocol_version = history_protocol_v1 S, en_manifest_identity = mf_manifest_identity mf,
         en_entry_ordinal = k, en_catalog_identity = cat, en_archive_object_identity = ob_object_identity oa,
         en_contract_snapshot_object_identity = ob_object_identity os,
         en_sidecar_object_identity = ob_object_identity od, en_entry_identity = []\<rparr>"
  have "built_message S (EntryMsg ?e)" using mf cat k oa(2) os(2) od(2) by simp
  with laws have "gives_identity (entry_v1_identity S) ?e" unfolding protocol_laws_def identities_given_def by blast
  then obtain i where i: "entry_v1_identity S ?e = Some i" "is_sha256 i" "length i = 71" by (rule gives_identityE)
  have "\<exists>f. typed_frame S (EntryMsg (?e\<lparr>en_entry_identity := i\<rparr>)) = Inr f"
  proof (rule message_framed [OF laws])
    show "message_texts (EntryMsg (?e\<lparr>en_entry_identity := i\<rparr>)) \<le> response_texts S"
      using mf cat oa(2) os(2) od(2) i(3) constants_short(2,6) [of S] by (simp add: response_texts_def)
  qed (use k in simp_all)
  then obtain f where f: "typed_frame S (EntryMsg (?e\<lparr>en_entry_identity := i\<rparr>)) = Inr f" ..
  from oa(3) [of "frames @ [f]"] obtain f1 where f1: "append_object_frames S (frames @ [f]) oa a = Inr f1" ..
  from os(3) [of f1] obtain f2 where f2: "append_object_frames S f1 os s = Inr f2" ..
  from od(3) [of f2] oa(1) os(1) od(1) i(1) f f1 f2 show ?thesis
    by (simp add: append_entry_frames_def history_entry_of_def try_with_def ok_or_def)
qed

text \<open>The identities a loaded binding, a live operator and an accepted query give the manifest.\<close>

definition manifest_inputs :: "history_binding \<Rightarrow> repository_mapping \<Rightarrow> history_query \<Rightarrow> string \<Rightarrow> bool" where
  "manifest_inputs B M q operator \<longleftrightarrow> is_sha256 (hb_operator_profile_identity B) \<and> is_sha256 (rm_repository_binding_identity M) \<and>
     is_sha256 (rm_catalog_namespace_identity M) \<and> is_sha256 (hq_query_identity q) \<and> is_sha256 operator"

lemma manifest_framed:
  assumes laws: "protocol_laws S overhead escape cost" and inputs: "manifest_inputs B M q operator"
    and "is_sha256 (ce_identity e)" and "used < 2 ^ 64"
  obtains mf f where "manifest_of S B M q operator [e] used = Inr mf" "is_sha256 (mf_manifest_identity mf)"
    "typed_frame S (ManifestMsg mf) = Inr f"
proof -
  from laws have "gives_identity (snapshot_message_identity S CATALOG_SNAPSHOT_IDENTITY_DOMAIN_V1) (rm_identity M, [ce_identity e])"
    unfolding protocol_laws_def identities_given_def by blast
  then obtain si where si: "snapshot_message_identity S CATALOG_SNAPSHOT_IDENTITY_DOMAIN_V1 (rm_identity M, [ce_identity e]) = Some si"
    "is_sha256 si" "length si = 71" by (rule gives_identityE)
  let ?m = "\<lparr>mf_schema_version = 1, mf_message_kind = history_constant S ''LAUNCHER_HISTORY_MANIFEST'',
            mf_protocol_version = history_protocol_v1 S, mf_query_identity = hq_query_identity q,
            mf_repository_binding_identity = rm_repository_binding_identity M,
            mf_catalog_namespace_identity = rm_catalog_namespace_identity M,
            mf_operator_profile_identity = hb_operator_profile_identity B,
            mf_operator_peer_identity = operator, mf_operator_attribution = NonAgent,
            mf_operator_posture = LeastPrivilegeOperatorPeerVerified, mf_catalog_entry_identities = [ce_identity e],
            mf_total_selected_count = 1, mf_bounded_response_bytes = used,
            mf_catalog_snapshot_identity = si, mf_manifest_identity = []\<rparr>"
  have "built_message S (ManifestMsg ?m)" using inputs assms(3,4) si(2) by (simp add: manifest_inputs_def)
  with laws have "gives_identity (manifest_v1_identity S) ?m" unfolding protocol_laws_def identities_given_def by blast
  then obtain i where i: "manifest_v1_identity S ?m = Some i" "is_sha256 i" "length i = 71" by (rule gives_identityE)
  have "\<exists>f. typed_frame S (ManifestMsg (?m\<lparr>mf_manifest_identity := i\<rparr>)) = Inr f"
  proof (rule message_framed [OF laws])
    show "message_texts (ManifestMsg (?m\<lparr>mf_manifest_identity := i\<rparr>)) \<le> response_texts S"
      using inputs assms(3) si(3) i(3) constants_short(1,6) [of S] by (simp add: response_texts_def manifest_inputs_def)
  qed (use assms(4) in simp_all)
  then obtain f where "typed_frame S (ManifestMsg (?m\<lparr>mf_manifest_identity := i\<rparr>)) = Inr f" ..
  with si(1) i(1,2) show thesis
    by (intro that [of "?m\<lparr>mf_manifest_identity := i\<rparr>" f]) (simp_all add: manifest_of_def Let_def try_with_def ok_or_def)
qed

lemma terminal_framed:
  assumes laws: "protocol_laws S overhead escape cost" and "is_sha256 (hq_query_identity q)" and "is_sha256 (mf_manifest_identity mf)"
  obtains t f where "terminal_of S q mf n = Inr t" "typed_frame S (ManifestTerminalMsg t) = Inr f"
proof -
  let ?t = "\<lparr>ht_schema_version = 1, ht_message_kind = history_constant S ''LAUNCHER_HISTORY_MANIFEST_TERMINAL'',
         ht_protocol_version = history_protocol_v1 S, ht_query_identity = hq_query_identity q,
         ht_manifest_identity = mf_manifest_identity mf, ht_returned_count = n mod 2 ^ 32,
         ht_posture = Complete, ht_terminal_identity = []\<rparr>"
  have "built_message S (ManifestTerminalMsg ?t)" using assms by simp
  with laws have "gives_identity (terminal_v1_identity S) ?t" unfolding protocol_laws_def identities_given_def by blast
  then obtain i where i: "terminal_v1_identity S ?t = Some i" "is_sha256 i" "length i = 71" by (rule gives_identityE)
  have "\<exists>f. typed_frame S (ManifestTerminalMsg (?t\<lparr>ht_terminal_identity := i\<rparr>)) = Inr f"
  proof (rule message_framed [OF laws])
    show "message_texts (ManifestTerminalMsg (?t\<lparr>ht_terminal_identity := i\<rparr>)) \<le> response_texts S"
      using assms(2,3) i(3) constants_short(5,6) [of S] by (simp add: response_texts_def)
    show "list_all (\<lambda>n. n < 2 ^ 64) (message_numbers (ManifestTerminalMsg (?t\<lparr>ht_terminal_identity := i\<rparr>)))"
      by (simp add: less_le_trans [of "n mod 2 ^ 32" "2 ^ 32"])
  qed simp
  then obtain f where "typed_frame S (ManifestTerminalMsg (?t\<lparr>ht_terminal_identity := i\<rparr>)) = Inr f" ..
  with i(1) show thesis
    by (intro that [of "?t\<lparr>ht_terminal_identity := i\<rparr>" f]) (simp_all add: terminal_of_def Let_def try_with_def ok_or_def)
qed

section \<open>The response is prepared\<close>

lemma prepare_response_runs:
  assumes laws: "protocol_laws S overhead escape cost" and "0 < max_history_chunk_payload_bytes S"
    and inputs: "manifest_inputs B M q operator" and e: "is_sha256 (ce_identity e)" and "used < 2 ^ 64"
    and "length a < 2 ^ 32" "length s < 2 ^ 32" "length d < 2 ^ 32"
  obtains response f where "prepare_response S B M q operator [e] [(a, s, d)] used = Inr response"
    "typed_frame S (ManifestTerminalMsg (pr_terminal response)) = Inr f"
proof -
  from manifest_framed [OF laws inputs e assms(5)] obtain mf f where mf: "manifest_of S B M q operator [e] used = Inr mf"
    "is_sha256 (mf_manifest_identity mf)" "typed_frame S (ManifestMsg mf) = Inr f" .
  from entry_frames_run [OF laws assms(2) mf(2) e _ assms(6-8), of 0 "[f]"] obtain fs where
    fs: "append_entry_frames S [f] mf 0 (ce_identity e) a s d = Inr fs" by auto
  have "is_sha256 (hq_query_identity q)" using inputs by (simp add: manifest_inputs_def)
  from terminal_framed [OF laws this mf(2)] obtain t g where "terminal_of S q mf (length [e]) = Inr t"
    "typed_frame S (ManifestTerminalMsg t) = Inr g" .
  with mf fs show thesis
    by (intro that [of "\<lparr>pr_frames = fs, pr_terminal = t\<rparr>" g]) (simp_all add: prepare_response_def try_with_def)
qed

lemma read_entry_runs:
  assumes "read_blob S B (ce_archive_blob e) w = (Ok a, w)" "read_blob S B (ce_contract_snapshot_blob e) w = (Ok s, w)"
    "read_blob S B (ce_sidecar_blob e) w = (Ok d, w)"
    and "sidecar_from_slice S d = Some sc" "sidecar_verifies S p sc" "entry_matches S e sc a s"
  shows "read_entry S B p e w = (Ok (a, s, d), w)"
  using assms by (simp add: read_entry_def and_then_def map_err_def)

lemma build_response_runs:
  assumes "load_catalog_entries S B M w = (Ok es, w)" and "hq_archive_identity q = Some receipt"
    and "filter (\<lambda>x. ce_receipt_archive_identity x = receipt) es = [e]" and "0 < hb_maximum_entry_count B"
    and "producer_binding S w = Some p" and "read_entry S B p e w = (Ok (a, s, d), w)"
    and "length a + length s + length d \<le> hb_maximum_response_bytes B" and "hb_maximum_response_bytes B < 2 ^ 32"
    and "protocol_laws S overhead escape cost" and "0 < max_history_chunk_payload_bytes S"
    and "manifest_inputs B M q i" and "is_sha256 (ce_identity e)"
  shows "\<exists>response ms f. build_response S B M q i w = (Ok response, w) \<and> encodes S ms (pr_frames response) \<and>
    typed_frame S (ManifestTerminalMsg (pr_terminal response)) = Inr f \<and>
    receive_response S q (ms @ [ManifestTerminalMsg (pr_terminal response)]) = Some [(ce_identity e, a, s, d)]"
proof -
  let ?n = "length a + length s + length d"
  from assms(7,8) have small: "length a < 2 ^ 32" "length s < 2 ^ 32" "length d < 2 ^ 32" "?n < 2 ^ 32" by linarith+
  have "?n < 2 ^ 64" using small(4) by simp
  from prepare_response_runs [OF assms(9-12) this small(1-3)] obtain response f where
    prep: "prepare_response S B M q i [e] [(a, s, d)] ?n = Inr response"
    and f: "typed_frame S (ManifestTerminalMsg (pr_terminal response)) = Inr f" .
  have "content_bytes [(a, s, d)] = ?n" by (simp add: content_bytes_def)
  with prepare_response_exact [OF assms(10), of "[e]" "[(a, s, d)]" B M q i response] prep obtain ms where
    ms: "encodes S ms (pr_frames response)"
      "receive_response S q (ms @ [ManifestTerminalMsg (pr_terminal response)]) = Some [(ce_identity e, a, s, d)]" by auto
  have "select_entries q es = Inr [e]" using assms(2,3) by (simp add: select_entries_def)
  moreover have "read_entries S B p 0 [e] w = (Ok ([(a, s, d)], ?n), w)"
    using small(4) assms(6) by (simp add: and_then_def checked_add_u64_def)
  ultimately have "build_response S B M q i w = (Ok response, w)"
    using assms(1,4,5,7) prep by (simp add: build_response_def and_then_def map_err_def del: read_entries.simps)
  with ms f show ?thesis by blast
qed

text \<open>The sidecar of an attachment can be decoded and verified, and belongs to the transaction the journal completed.\<close>

definition sidecar_serves :: "'x query_env_scheme \<Rightarrow> world \<Rightarrow> sidecar \<Rightarrow> finalization_journal \<Rightarrow> bool" where
  "sidecar_serves S w sc j \<longleftrightarrow>
     sa_crossing_transaction_identity (sd_signed_archive sc) = ec_crossing_transaction_identity (ef_completion (fj_finalization j)) \<and>
     (\<exists>p. producer_binding S w = Some p \<and> sidecar_verifies S p sc) \<and>
     (\<forall>side. sidecar_to_vec S sc = Some side \<longrightarrow> sidecar_from_slice S side = Some sc)"

lemma attached_entry_matches:
  assumes "locate_archive_at S repo uid receipt crossing v = (Ok t, v')" and "entry_backed S B M t sc j e w"
    and "sa_receipt_archive_identity (sd_signed_archive sc) = fz_content_identity (at_archive t)"
    and "sa_crossing_transaction_identity (sd_signed_archive sc) = ec_crossing_transaction_identity (ef_completion (fj_finalization j))"
  shows "entry_matches S e sc (fz_bytes (at_archive t)) (fz_bytes (at_contract_snapshot t))" "ce_receipt_archive_identity e = receipt"
proof -
  from assms(2) obtain x y z i where e: "e = (entry_for B M t sc j x y z)\<lparr>ce_identity := i\<rparr>" unfolding entry_backed_def by blast
  note frozen = located_frozen [OF assms(1)]
  have "content_identity_of S (fz_bytes (at_archive t)) = receipt"
    using locate_archive_Ok(7) [OF assms(1)] by (auto simp: archive_in_def)
  with e frozen assms(3,4) show "entry_matches S e sc (fz_bytes (at_archive t)) (fz_bytes (at_contract_snapshot t))"
    "ce_receipt_archive_identity e = receipt"
    by (simp_all add: entry_matches_def entry_for_def)
qed

lemma attach_checks_receipt:
  assumes "attach_protected_history_at P E B t sc j rnd w = (Ok a, w')"
  shows "sa_receipt_archive_identity (sd_signed_archive sc) = fz_content_identity (at_archive t)"
  using assms
  by (auto simp: attach_protected_history_at_def and_then_Ok_iff [where m = "lift_result (history_select_mapping _ _ _)"] split: option.splits if_splits)

section \<open>A session with the operator\<close>

text \<open>
  The kernel answers about the operator as long as its process lives and does not change: the
  same credentials and pidfd, a restricted status, the installed client, one working directory.
\<close>

definition steady_operator ::
  "'p protocol_scheme \<Rightarrow> 'x service_env_scheme \<Rightarrow> peer_host \<Rightarrow> history_binding \<Rightarrow> observed_session_peer \<Rightarrow> working_directory \<Rightarrow> bool" where
  "steady_operator P S H B peer wd \<longleftrightarrow>
     op_uid peer = hb_operator_uid B \<and> op_gid peer = hb_operator_gid B \<and> op_uid peer \<noteq> 0 \<and> 0 < op_pid peer \<and> 0 \<le> op_pidfd peer \<and>
     (\<exists>status verified exe link m stat rest start start_identity identity.
        utf8_valid status \<and> length status \<le> MAX_PROC_STATUS_BYTES \<and>
        verify_peer_process_status_text (op_pid peer) (op_uid peer) (op_gid peer) status = Inr verified \<and>
        ''sha256:'' @ file_sha256_hex H exe = hb_installed_client_identity B \<and> path_is_absolute link \<and> n_kind m = Directory \<and>
        wd = \<lparr>wd_schema_version = 1, wd_identity = wd_identity wd, wd_logical_path = to_string_lossy link,
          wd_device = fst (n_ino m), wd_inode = snd (n_ino m)\<rparr> \<and>
        launcher_working_directory_identity P (wd\<lparr>wd_identity := []\<rparr>) = Some (wd_identity wd) \<and>
        utf8_valid stat \<and> after_last CHR '')'' stat = Some rest \<and> list_nth 19 (split_whitespace rest) = Some start \<and>
        process_start_message_identity S PROCESS_START_IDENTITY_DOMAIN_V1 (op_pid peer, start) = Some start_identity \<and>
        operator_peer_message_identity S OPERATOR_PEER_IDENTITY_DOMAIN_V1
          \<lparr>oi_schema_version = 1, oi_pid = op_pid peer, oi_uid = op_uid peer, oi_gid = op_gid peer,
           oi_process_start_identity = start_identity, oi_executable_identity = hb_installed_client_identity B,
           oi_working_directory_identity = wd_identity wd, oi_operator_profile_identity = hb_operator_profile_identity B\<rparr> = Some identity \<and>
        (\<forall>k. so_peercred H k = Some (12, \<lparr>uc_pid = int (op_pid peer), uc_uid = op_uid peer, uc_gid = op_gid peer\<rparr>) \<and>
           so_peerpidfd H k = Some (4, op_pidfd peer) \<and> set_cloexec H k (op_pidfd peer) \<and> poll_pidfd H k (op_pidfd peer) = (0, 0) \<and>
           proc_status_open H k (op_pid peer) \<and> proc_status_length H k (op_pid peer) = Some 0 \<and>
           proc_status_read H k (op_pid peer) = Some status \<and> proc_exe_read H k (op_pid peer) = Some exe \<and>
           proc_cwd_link H k (op_pid peer) = Some link \<and> path_metadata H k link = Some m \<and>
           proc_stat_read H k (op_pid peer) = Some stat))"

lemma steady_peer:
  assumes "steady_operator P S H B peer wd"
  shows "observe_connected_peer H s = (Ok peer, later 4 s)" "revalidate_connected_peer H peer s = (Ok (), later 3 s)"
    "reconcile_connected_peer H peer (hb_operator_uid B) (hb_operator_gid B) s = (Ok (), later 1 s)"
    "verify_peer_executable_identity H peer (hb_installed_client_identity B) s = (Ok (), later 3 s)"
proof -
  from assms have kernel: "so_peercred H k = Some (12, \<lparr>uc_pid = int (op_pid peer), uc_uid = op_uid peer, uc_gid = op_gid peer\<rparr>)"
    "so_peerpidfd H k = Some (4, op_pidfd peer)" "set_cloexec H k (op_pidfd peer)" "poll_pidfd H k (op_pidfd peer) = (0, 0)" for k
    unfolding steady_operator_def by blast+
  from assms have who: "op_uid peer = hb_operator_uid B" "op_gid peer = hb_operator_gid B" "0 < op_pid peer" "0 \<le> op_pidfd peer"
    unfolding steady_operator_def by blast+
  have "runs_at H peer (hb_installed_client_identity B) k" for k
    using assms unfolding steady_operator_def runs_at_def by blast
  moreover have "alive_at H peer k" "connected_at H peer k" for k
    using kernel who by (simp_all add: alive_at_def connected_at_def)
  ultimately show "revalidate_connected_peer H peer s = (Ok (), later 3 s)"
    "verify_peer_executable_identity H peer (hb_installed_client_identity B) s = (Ok (), later 3 s)"
    by (simp_all add: revalidate_Ok_iff executable_Ok_iff)
  show "observe_connected_peer H s = (Ok peer, later 4 s)"
    using kernel who by (simp add: observe_connected_peer_def socket_peer_credentials_def socket_peer_pidfd_def
        require_live_pidfd_def and_then_def numeral_eq_Suc)
  show "reconcile_connected_peer H peer (hb_operator_uid B) (hb_operator_gid B) s = (Ok (), later 1 s)"
    using kernel who by (simp add: reconcile_connected_peer_def require_live_pidfd_def and_then_def)
qed

lemma steady_status:
  assumes "steady_operator P S H B peer wd"
  shows "\<exists>v. \<forall>s :: history_session. verify_peer_process_status H peer s = (Ok v, later 5 s)"
proof -
  from assms obtain status v where st: "utf8_valid status" "length status \<le> MAX_PROC_STATUS_BYTES"
    "verify_peer_process_status_text (op_pid peer) (op_uid peer) (op_gid peer) status = Inr v"
    "\<And>k. poll_pidfd H k (op_pidfd peer) = (0, 0) \<and> proc_status_open H k (op_pid peer) \<and>
       proc_status_length H k (op_pid peer) = Some 0 \<and> proc_status_read H k (op_pid peer) = Some status"
    unfolding steady_operator_def by blast
  then have "verify_peer_process_status H peer s = (Ok v, later 5 s)" for s :: history_session
    by (simp add: verify_peer_process_status_def require_live_pidfd_def and_then_def numeral_eq_Suc)
  then show ?thesis by blast
qed

lemma steady_working:
  assumes "steady_operator P S H B peer wd"
  shows "observe_working_directory P H peer s = (Ok wd, later 2 s)"
proof -
  from assms obtain link m where l: "path_is_absolute link" "n_kind m = Directory"
    "wd = \<lparr>wd_schema_version = 1, wd_identity = wd_identity wd, wd_logical_path = to_string_lossy link,
          wd_device = fst (n_ino m), wd_inode = snd (n_ino m)\<rparr>"
    "launcher_working_directory_identity P (wd\<lparr>wd_identity := []\<rparr>) = Some (wd_identity wd)"
    "\<And>k. proc_cwd_link H k (op_pid peer) = Some link \<and> path_metadata H k link = Some m"
    unfolding steady_operator_def by blast
  have blank: "wd\<lparr>wd_identity := []\<rparr> = \<lparr>wd_schema_version = 1, wd_identity = [], wd_logical_path = to_string_lossy link,
      wd_device = fst (n_ino m), wd_inode = snd (n_ino m)\<rparr>" by (subst l(3)) simp
  have "\<lparr>wd_schema_version = 1, wd_identity = [], wd_logical_path = to_string_lossy link,
      wd_device = fst (n_ino m), wd_inode = snd (n_ino m)\<rparr>\<lparr>wd_identity := wd_identity wd\<rparr> = wd" by (subst (2) l(3)) simp
  with l(1,2,4,5) blank show ?thesis
    by (simp add: observe_working_directory_def and_then_def ok_or_def Let_def)
qed

lemma steady_identity:
  assumes "steady_operator P S H B peer wd"
  obtains i x where "\<forall>s. operator_peer_identity S H B peer wd s = (Ok i, later 1 s)"
    "operator_peer_message_identity S OPERATOR_PEER_IDENTITY_DOMAIN_V1 x = Some i"
proof -
  from assms obtain stat rest start start_identity i where o:
    "utf8_valid stat" "after_last CHR '')'' stat = Some rest" "list_nth 19 (split_whitespace rest) = Some start"
    "process_start_message_identity S PROCESS_START_IDENTITY_DOMAIN_V1 (op_pid peer, start) = Some start_identity"
    "operator_peer_message_identity S OPERATOR_PEER_IDENTITY_DOMAIN_V1
          \<lparr>oi_schema_version = 1, oi_pid = op_pid peer, oi_uid = op_uid peer, oi_gid = op_gid peer,
           oi_process_start_identity = start_identity, oi_executable_identity = hb_installed_client_identity B,
           oi_working_directory_identity = wd_identity wd, oi_operator_profile_identity = hb_operator_profile_identity B\<rparr> = Some i"
    "\<And>k. proc_stat_read H k (op_pid peer) = Some stat"
    unfolding steady_operator_def by blast
  then have "operator_peer_identity S H B peer wd s = (Ok i, later 1 s)" for s
    by (simp add: operator_peer_identity_def and_then_def ok_or_def)
  with o(5) that show thesis by blast
qed

lemma steady_session:
  assumes "steady_operator P S H B peer wd" and "\<forall>s. operator_peer_identity S H B peer wd s = (Ok i, later 1 s)"
  shows "admit_operator H B peer s = (Ok (), later 11 s)" "revalidate_operator_session P S H B peer wd i s = (Ok (), later 18 s)"
proof -
  from steady_status [OF assms(1)] obtain v where v: "\<And>s :: history_session. verify_peer_process_status H peer s = (Ok v, later 5 s)" by blast
  note runs = steady_peer [OF assms(1)] steady_working [OF assms(1)] v assms(2)
  have "op_uid peer = hb_operator_uid B" "op_gid peer = hb_operator_gid B" "op_uid peer \<noteq> 0"
    using assms(1) by (simp_all add: steady_operator_def)
  then show "admit_operator H B peer s = (Ok (), later 11 s)" "revalidate_operator_session P S H B peer wd i s = (Ok (), later 18 s)"
    by (simp_all add: admit_operator_def revalidate_operator_session_def and_then_def map_err_def runs)
qed

text \<open>A query has arrived in a frame, however its bytes are cut into reads.\<close>

definition query_arrives :: "'x query_env_scheme \<Rightarrow> history_query \<Rightarrow> read_event list \<Rightarrow> bool" where
  "query_arrives S q es \<longleftrightarrow>
     (\<exists>header payload body rest. pending es = header @ payload @ rest \<and> length header = 4 \<and> from_be_bytes header = length payload \<and>
        payload \<noteq> [] \<and> length payload \<le> history_max_frame_bytes S \<and> history_decode_frame S (header @ payload) = Some body \<and>
        query_from_slice S body = Some q \<and> query_v1_identity S q = Some (hq_query_identity q))"

lemma query_received:
  assumes "query_arrives S q (hs_in s)"
  shows "\<exists>es. receive_query S s = (Ok q, s\<lparr>hs_in := es\<rparr>)"
proof -
  from assms obtain header payload body rest where p: "pending (hs_in s) = header @ payload @ rest" "length header = 4"
    "from_be_bytes header = length payload" "payload \<noteq> []" "length payload \<le> history_max_frame_bytes S"
    "history_decode_frame S (header @ payload) = Some body" "query_from_slice S body = Some q"
    "query_v1_identity S q = Some (hq_query_identity q)" unfolding query_arrives_def by blast
  from read_exact_until_enough [of 4 "hs_in s"] p(1,2) obtain e1 where
    r1: "read_exact_until 4 (hs_in s) = (Some header, e1)" "pending e1 = payload @ rest" by auto
  from read_exact_until_enough [of "length payload" e1] r1(2) obtain e2 where
    r2: "read_exact_until (length payload) e1 = (Some payload, e2)" by auto
  have "receive_payload S s = (Ok body, s\<lparr>hs_in := e2\<rparr>)"
    using r1(1) r2 p by (simp add: receive_payload_def read_stream_def and_then_def ok_or_def)
  with p have "receive_query S s = (Ok q, s\<lparr>hs_in := e2\<rparr>)" by (simp add: receive_query_def and_then_def map_err_def)
  then show ?thesis by blast
qed

lemma frames_written:
  assumes "hs_writes s = []"
  shows "\<exists>s' out. write_frames fs s = (Ok (), s') \<and> hs_sent s' = hs_sent s @ out \<and> map snd out = fs \<and> hs_writes s' = []"
  using assms
proof (induction fs arbitrary: s)
  case (Cons f fs)
  let ?s = "later 1 (s\<lparr>hs_writes := [], hs_sent := hs_sent s @ [(mo_now s, f)]\<rparr>)"
  have one: "write_stream PostQuery f s = (Ok (), ?s)" using Cons.prems by (simp add: write_stream_def)
  from Cons.IH [of ?s] obtain s' out where "write_frames fs ?s = (Ok (), s')" "hs_sent s' = hs_sent ?s @ out" "map snd out = fs"
    "hs_writes s' = []" by auto
  with one show ?case by (intro exI [of _ s'] exI [of _ "(mo_now s, f) # out"]) (simp add: and_then_def)
qed simp

lemma response_sent:
  assumes "steady_operator P S H B peer wd" and "\<forall>s. operator_peer_identity S H B peer wd s = (Ok i, later 1 s)"
    and "hs_writes s = []" and "typed_frame S (ManifestTerminalMsg (pr_terminal response)) = Inr f"
  shows "\<exists>s' out. send_response P S H B peer wd i response s = (Ok (), s') \<and> hs_sent s' = hs_sent s @ out \<and> map snd out = pr_frames response @ [f]"
proof -
  from frames_written [OF assms(3)] obtain s1 out where w: "write_frames (pr_frames response) s = (Ok (), s1)"
    "hs_sent s1 = hs_sent s @ out" "map snd out = pr_frames response" "hs_writes s1 = []" by blast
  let ?s = "later 18 s1"
  have "send_response P S H B peer wd i response s =
      (Ok (), later 1 (?s\<lparr>hs_writes := [], hs_sent := hs_sent ?s @ [(mo_now ?s, f)]\<rparr>))"
    using w(1,4) assms(4) steady_session(2) [OF assms(1,2)]
    by (simp add: send_response_def and_then_def match_result_def map_err_def write_stream_def)
  moreover have "map snd (out @ [(mo_now ?s, f)]) = pr_frames response @ [f]" using w(3) by simp
  ultimately show ?thesis using w(2) by (intro exI [of _ "out @ [(mo_now ?s, f)]"] exI conjI) (assumption | simp)+
qed

definition operator_identities :: "'x service_env_scheme \<Rightarrow> bool" where
  "operator_identities S \<longleftrightarrow> (\<forall>d x i. operator_peer_message_identity S d x = Some i \<longrightarrow> is_sha256 i)"

lemma connection_served:
  assumes "steady_operator P S H B peer wd" and "select_live_mapping B wd = Inr M" and "query_arrives S q (hs_in s)"
    and "hs_writes s = []" and "operator_identities S"
    and "\<And>i. is_sha256 i \<Longrightarrow> \<exists>response ms f. build_response S B M q i (hs_world s) = (Ok response, hs_world s) \<and>
      encodes S ms (pr_frames response) \<and> typed_frame S (ManifestTerminalMsg (pr_terminal response)) = Inr f \<and>
      receive_response S q (ms @ [ManifestTerminalMsg (pr_terminal response)]) = Some xs"
  shows "\<exists>s' out ms. serve_connection P S H B s = (Ok (), s') \<and> hs_sent s' = hs_sent s @ out \<and> encodes S ms (map snd out) \<and>
    receive_response S q ms = Some xs"
proof -
  from steady_identity [OF assms(1)] obtain i x where i: "\<forall>s. operator_peer_identity S H B peer wd s = (Ok i, later 1 s)"
    and x: "operator_peer_message_identity S OPERATOR_PEER_IDENTITY_DOMAIN_V1 x = Some i" .
  from x assms(5) have sha: "is_sha256 i" by (simp add: operator_identities_def)
  note session = steady_session [OF assms(1) i] and seen = steady_peer [OF assms(1)] steady_working [OF assms(1)] i
  let ?s = "later 24 s"
  have "query_arrives S q (hs_in ?s)" using assms(3) by simp
  from query_received [OF this] obtain es where q: "receive_query S ?s = (Ok q, ?s\<lparr>hs_in := es\<rparr>)" ..
  let ?t = "?s\<lparr>hs_in := es\<rparr>"
  from assms(6) [OF sha] obtain response ms f where built: "build_response S B M q i (hs_world s) = (Ok response, hs_world s)"
    and ms: "encodes S ms (pr_frames response)" "receive_response S q (ms @ [ManifestTerminalMsg (pr_terminal response)]) = Some xs"
    and f: "typed_frame S (ManifestTerminalMsg (pr_terminal response)) = Inr f" by blast
  have "hs_writes (later 18 ?t) = []" using assms(4) by simp
  from response_sent [OF assms(1) i this f] obtain s' out where sent: "send_response P S H B peer wd i response (later 18 ?t) = (Ok (), s')"
    "hs_sent s' = hs_sent s @ out" "map snd out = pr_frames response @ [f]" by auto
  have files: "with_files (build_response S B M q i) ?t = (Ok response, ?t)" using built by (simp add: with_files_def)
  have "answer_query P S H B peer wd i q ?t = (Ok (), s')"
    using files assms(2) session(2) sent(1) by (simp add: answer_query_def match_result_def)
  then have "serve_connection P S H B s = (Ok (), s')"
    using q by (simp add: serve_connection_def and_then_def map_err_def session(1) seen)
  moreover have "encodes S (ms @ [ManifestTerminalMsg (pr_terminal response)]) (map snd out)"
    unfolding sent(3) using ms(1) f by (simp add: encodes_append)
  ultimately show ?thesis using sent(2) ms(2) by blast
qed

text \<open>
  C17. What was attached is served. An archive was located by its receipt identity and attached with its
  contract snapshot and sidecar, under any faults, and the attachment returned its answer; no earlier entry
  of the catalog has this archive. Later, without faults, the operator connects, stays what it is, and
  asks for the archive by that identity, in a frame however cut into reads. Then the connection is served
  without error, and the receiver puts together from what was sent exactly one entry, the one the answer of
  the attachment names, with the bytes of the archive, of the snapshot and of the sidecar, complete: however
  many chunks they take, every message the service builds fits a frame. The sidecar must verify, carry
  the transaction the journal completed and survive its codec; the files together must fit the limits of the
  binding, whose identities are SHA-256 identities, as a loaded binding has them; and the protocol crate must keep
  its laws: a bounded serializer, frames up to the frame limit, SHA-256 identities of well-formed messages, and a
  frame limit that leaves room for one chunk of the largest size.
\<close>

theorem attached_history_served:
  assumes "locate_archive_at S repo uid receipt crossing v = (Ok t, v')" and "evidence_canonical sc j" and "entry_codec S"
    and "history_store S B M dir w" and "within_limit S dir w1"
    and "fj_archive_request j = Some request"
    and "history_select_mapping B (ar_authority_id request) (fj_working_directory j) = Inr M"
    and "load_catalog_entries S B M (calm_world w) = (Ok es, w0)"
    and "attach_protected_history_at P S B t sc j rnd w = (Ok a, w1)"
    and "\<forall>x \<in> set es. ce_receipt_archive_identity x \<noteq> receipt"
    and "sidecar_serves S (calm_world w1) sc j"
    and "sidecar_to_vec S sc = Some side"
    and "length (fz_bytes (at_archive t)) + length (fz_bytes (at_contract_snapshot t)) + length side \<le> hb_maximum_response_bytes B"
    and "0 < hb_maximum_entry_count B" and "hb_maximum_response_bytes B < 2 ^ 32"
    and "protocol_laws S overhead escape cost" and "0 < max_history_chunk_payload_bytes S" and "operator_identities S"
    and "is_sha256 (hb_operator_profile_identity B)" and "is_sha256 (rm_repository_binding_identity M)"
    and "steady_operator P S H B peer wd" and "select_live_mapping B wd = Inr M"
    and "hq_archive_identity q = Some receipt" and "query_arrives S q (hs_in s)"
    and "hs_world s = calm_world w1" and "hs_writes s = []"
  shows "\<exists>s' out ms. serve_connection P S H B s = (Ok (), s') \<and> hs_sent s' = hs_sent s @ out \<and> encodes S ms (map snd out) \<and>
    receive_response S q ms =
      Some [(pa_catalog_identity a, fz_bytes (at_archive t), fz_bytes (at_contract_snapshot t), side)]"
proof -
  have ns: "namespace_path (hb_catalog_root B) (rm_catalog_namespace_identity M) = Inr dir"
    using assms(4) by (simp add: history_store_def)
  from attach_grows [OF assms(6,7) ns assms(9)] have grown: "grows (attached_file S B M dir t sc j w1) w w1" ..
  from attached_entry [OF assms(6,7,4,9)] obtain e name bs where e: "a = attachment_of e" "entry_backed S B M t sc j e w1"
    "identity_file_name (ce_identity e) = Inr name" "entry_to_vec S e = Some bs" "holds (path_join dir (name @ ''.json'')) bs w1"
    and reads: "read_blob S B (ce_archive_blob e) (calm_world w1) = (Ok (fz_bytes (at_archive t)), calm_world w1)"
      "read_blob S B (ce_contract_snapshot_blob e) (calm_world w1) = (Ok (fz_bytes (at_contract_snapshot t)), calm_world w1)"
      "read_blob S B (ce_sidecar_blob e) (calm_world w1) = (Ok side, calm_world w1)"
    using assms(12) by (metis option.inject)
  from assms(11,12) obtain p where sc: "producer_binding S (calm_world w1) = Some p" "sidecar_verifies S p sc" "sidecar_from_slice S side = Some sc"
    "sa_crossing_transaction_identity (sd_signed_archive sc) = ec_crossing_transaction_identity (ef_completion (fj_finalization j))"
    unfolding sidecar_serves_def by blast
  note m = attached_entry_matches [OF assms(1) e(2) attach_checks_receipt [OF assms(9)] sc(4)]
  from attached_selected [OF assms(1-5) grown assms(8) e(2-5), where Q = "\<lambda>x. ce_receipt_archive_identity x = receipt"] m(2) assms(10)
  obtain es1 where load: "load_catalog_entries S B M (calm_world w1) = (Ok es1, calm_world w1)"
    "filter (\<lambda>x. ce_receipt_archive_identity x = receipt) es1 = [e]" by blast
  have "ce_identity e = pa_catalog_identity a" by (simp add: e(1) attachment_of_def)
  moreover have entry: "is_sha256 (ce_identity e)" using e(3) by (auto simp: is_sha256_iff)
  moreover have "manifest_inputs B M q i" if "is_sha256 i" for i
    using that ns assms(16,19,20,24) unfolding manifest_inputs_def protocol_laws_def identities_given_def query_arrives_def
    by (auto simp: namespace_path_def is_sha256_iff split: sum.splits)
  note built = build_response_runs [OF load(1) assms(23) load(2) assms(14) sc(1) read_entry_runs [OF reads sc(3,2) m(1)] assms(13,15-17) this entry]
  ultimately show ?thesis
    using connection_served [OF assms(21,22,24,26,18), of "[(pa_catalog_identity a, fz_bytes (at_archive t), fz_bytes (at_contract_snapshot t), side)]"]
      built unfolding assms(25) by simp
qed

end
