(* ===== verification/Query_Samples.thy ===== *)
theory Query_Samples
  imports History_Samples History_Query
begin

text \<open>
  Concrete runs of the service of the protected history: a store with one attached archive, the operator who asks
  for it, and a peer who is not the operator.
\<close>

section \<open>A service and its operator\<close>

definition query_sidecar :: sidecar where
  "query_sidecar = history_sidecar\<lparr>sd_signed_archive := (sd_signed_archive history_sidecar)
     \<lparr>sa_crossing_transaction_identity := digest CHR ''8''\<rparr>\<rparr>"

definition sample_query :: history_query where
  "sample_query = \<lparr>hq_query_identity = digest CHR ''f'', hq_archive_identity = Some (''sha256:'' @ sample_hash ''A''), hq_rest = []\<rparr>"

definition query_binding :: history_binding where
  "query_binding = sample_binding\<lparr>hb_installed_client_identity := digest CHR ''5''\<rparr>"

definition query_protocol :: protocol where
  "query_protocol = history_protocol\<lparr>launcher_working_directory_identity := (\<lambda>_. Some (digest CHR ''d''))\<rparr>"

text \<open>
  A serializer that loses nothing: every text with its length before it, every number in eight bytes. A frame has
  at most 1000 bytes of payload.
\<close>

definition text_field :: "string \<Rightarrow> string" where
  "text_field s = to_be_bytes (length s) @ s"

definition number_field :: "nat \<Rightarrow> string" where
  "number_field n = to_be_bytes (nat (int n div 2 ^ 32)) @ to_be_bytes (nat (int n mod 2 ^ 32))"

definition texts_field :: "string list \<Rightarrow> string" where
  "texts_field ss = concat (map text_field ss)"

definition refusal_field :: "history_refusal \<Rightarrow> string" where
  "refusal_field r = (case r of PeerAdmissionRefused \<Rightarrow> ''0'' | RepositoryMappingMissing \<Rightarrow> ''1'' | RepositoryMappingAmbiguous \<Rightarrow> ''2''
     | MalformedQuery \<Rightarrow> ''3'' | UnsupportedProtocol \<Rightarrow> ''4'' | ServiceUnavailableRefusal \<Rightarrow> ''5'' | CatalogInvalid \<Rightarrow> ''6''
     | ObjectUnavailable \<Rightarrow> ''7'' | ObjectInvalidRefusal \<Rightarrow> ''8'' | ResultTooLarge \<Rightarrow> ''9'')"

fun message_fields :: "history_message \<Rightarrow> string list" where
  "message_fields (ManifestMsg x) = [''m'', number_field (mf_schema_version x), mf_message_kind x, mf_protocol_version x, mf_query_identity x,
     mf_repository_binding_identity x, mf_catalog_namespace_identity x, mf_operator_profile_identity x, mf_operator_peer_identity x,
     texts_field (mf_catalog_entry_identities x), number_field (mf_total_selected_count x), number_field (mf_bounded_response_bytes x),
     mf_catalog_snapshot_identity x, mf_manifest_identity x]"
| "message_fields (EntryMsg x) = [''e'', number_field (en_schema_version x), en_message_kind x, en_protocol_version x, en_manifest_identity x,
     number_field (en_entry_ordinal x), en_catalog_identity x, en_archive_object_identity x, en_contract_snapshot_object_identity x,
     en_sidecar_object_identity x, en_entry_identity x]"
| "message_fields (ObjectMsg x) = [''o'', number_field (ob_schema_version x), ob_message_kind x, ob_protocol_version x, ob_manifest_identity x,
     number_field (ob_entry_ordinal x), ob_catalog_identity x,
     (case ob_object_kind x of ArchiveObject \<Rightarrow> ''a'' | ContractSnapshotObject \<Rightarrow> ''c'' | SidecarObject \<Rightarrow> ''s''),
     ob_content_identity x, number_field (ob_byte_length x), number_field (ob_chunk_count x), ob_object_identity x]"
| "message_fields (ChunkMsg x) = [''c'', number_field (hc_schema_version x), hc_message_kind x, hc_protocol_version x, hc_object_identity x,
     number_field (hc_chunk_ordinal x), hc_bytes x, hc_chunk_identity x]"
| "message_fields (ManifestTerminalMsg x) = [''t'', number_field (ht_schema_version x), ht_message_kind x, ht_protocol_version x, ht_query_identity x,
     ht_manifest_identity x, number_field (ht_returned_count x), (case ht_posture x of Complete \<Rightarrow> ''c'' | Incomplete \<Rightarrow> ''i''), ht_terminal_identity x]"
| "message_fields (PreQueryRefusalMsg x) = [''p'', number_field (pq_schema_version x), pq_message_kind x, pq_protocol_version x, pq_refusal_nonce x,
     refusal_field (pq_reason x), pq_terminal_identity x]"
| "message_fields (QueryRefusalMsg x) = [''r'', number_field (qr_schema_version x), qr_message_kind x, qr_protocol_version x, qr_query_identity x,
     refusal_field (qr_reason x), qr_terminal_identity x]"

definition frame_limited :: "string \<Rightarrow> string option" where
  "frame_limited p = (if p = [] \<or> 1000 < int (length p) then None else Some (to_be_bytes (length p) @ p))"

definition query_sample_env :: service_env where
  "query_sample_env = \<lparr>archive_env.value_from_slice = (\<lambda>bs. if bs = ''A'' then Some sample_receipt else None),
     sidecar_to_vec = (\<lambda>_. Some ''S''), sha256_hex = sample_hash, nlink = (\<lambda>_. 1),
     blob_message_identity = (\<lambda>_ _. Some (digest CHR ''b'')), entry_message_identity = (\<lambda>_ _. Some (digest CHR ''e'')),
     entry_to_vec = encode_sample, entry_from_slice = (\<lambda>bs. if bs = ''E'' then Some sample_entry else None),
     max_history_response_bytes = 100,
     history_constant = (\<lambda>n. n), history_max_frame_bytes = 1000, max_history_chunk_payload_bytes = 1,
     history_encode_frame = frame_limited, history_decode_frame = (\<lambda>f. Some (drop 4 f)),
     history_to_vec = Some \<circ> texts_field \<circ> message_fields, query_from_slice = (\<lambda>bs. if bs = ''Q'' then Some sample_query else None),
     sidecar_from_slice = (\<lambda>bs. if bs = ''S'' then Some query_sidecar else None), query_v1_identity = (\<lambda>_. Some (digest CHR ''f'')),
     manifest_v1_identity = (\<lambda>_. Some (digest CHR ''0'')), entry_v1_identity = (\<lambda>_. Some (digest CHR ''7'')),
     object_v1_identity = (\<lambda>ob. Some (ob_content_identity ob)), chunk_v1_identity = (\<lambda>_. Some (digest CHR ''c'')),
     terminal_v1_identity = (\<lambda>_. Some (digest CHR ''d'')), pre_query_refusal_v1_identity = (\<lambda>_. Some ''pi''),
     query_refusal_v1_identity = (\<lambda>_. Some ''ri''), snapshot_message_identity = (\<lambda>_ _. Some (digest CHR ''2'')),
     producer_binding = (\<lambda>_. Some ''producer''), sidecar_verifies = (\<lambda>p _. p = ''producer''),
     process_start_message_identity = (\<lambda>_ _. Some ''start''), operator_peer_message_identity = (\<lambda>_ _. Some (digest CHR ''3''))\<rparr>"

definition operator_status :: string where
  "operator_status = concat (map (\<lambda>l. l @ [CHR 0x0A])
     [''Name:'' @ [CHR 0x09] @ ''ota'', ''Uid:'' @ [CHR 0x09] @ ''9 9 9 9'', ''Gid:'' @ [CHR 0x09] @ ''9 9 9 9'', ''Groups:'' @ [CHR 0x09] @ ''9 '',
      ''CapInh:'' @ [CHR 0x09] @ ''00'', ''CapPrm: 0'', ''CapEff: 0'', ''CapBnd: 1ff'', ''CapAmb: 0'', ''NoNewPrivs: 1''])"

definition operator_stat :: string where
  "operator_stat = ''5 (ota) S'' @ concat (replicate 18 '' 1'') @ '' 77 0''"

definition operator_peer_sample :: observed_session_peer where
  "operator_peer_sample = \<lparr>op_pidfd = 4, op_pid = 5, op_uid = 9, op_gid = 9\<rparr>"

definition sample_peer_host :: "nat \<Rightarrow> peer_host" where
  "sample_peer_host uid = \<lparr>so_peercred = (\<lambda>_. Some (12, \<lparr>uc_pid = 5, uc_uid = uid, uc_gid = 9\<rparr>)), so_peerpidfd = (\<lambda>_. Some (4, 4)),
     set_cloexec = (\<lambda>_ _. True), poll_pidfd = (\<lambda>_ _. (0, 0)), proc_status_open = (\<lambda>_ _. True),
     proc_status_length = (\<lambda>_ _. Some 0), proc_status_read = (\<lambda>_ _. Some operator_status), proc_exe_read = (\<lambda>_ _. Some ''elf''),
     proc_cwd_link = (\<lambda>_ _. Some ''/work''),
     path_metadata = (\<lambda>_ _. Some \<lparr>n_kind = Directory, n_uid = 9, n_gid = 9, n_mode = 448, n_ino = (7, 9), n_bytes = []\<rparr>),
     proc_stat_read = (\<lambda>_ _. Some operator_stat), file_sha256_hex = (\<lambda>_. replicate 64 CHR ''5''),
     set_socket_option = (\<lambda>_ _. True), write_challenge = (\<lambda>_ _. True), recv_preface = (\<lambda>_. (0, [], False, []))\<rparr>"

definition query_frame :: string where
  "query_frame = to_be_bytes 1 @ ''Q''"

definition query_session :: "world \<Rightarrow> history_session" where
  "query_session w = \<lparr>mo_now = 0, hs_world = w, hs_in = [Bytes (take 2 query_frame), ReadInterrupted, Bytes (drop 2 query_frame)],
     hs_writes = [], hs_sent = []\<rparr>"

definition query_attach :: "(history_error, protected_history_attachment) outcome \<times> world" where
  "query_attach = attach_protected_history_at query_protocol query_sample_env query_binding history_target query_sidecar history_journal
     (sample_random 0) (history_world [])"


section \<open>What holds of the sample\<close>

lemma query_status: "verify_peer_process_status_text 5 9 9 operator_status = Inr \<lparr>vs_pid = 5, vs_uid = 9, vs_gid = 9\<rparr>"
  by code_simp

lemma query_texts:
  "utf8_valid operator_status" "length operator_status < 200" "utf8_valid operator_stat" "path_is_absolute ''/work''"
  "to_string_lossy ''/work'' = ''/work''"
  "Option.bind (after_last CHR '')'' operator_stat) (\<lambda>rest. list_nth 19 (split_whitespace rest)) = Some ''77''"
  by code_simp+

lemma query_operator_steady:
  "steady_operator query_protocol query_sample_env (sample_peer_host 9) query_binding operator_peer_sample sample_wd"
proof -
  from query_texts(6) obtain rest where rest: "after_last CHR '')'' operator_stat = Some rest" "list_nth 19 (split_whitespace rest) = Some ''77''"
    by (auto simp: Option.bind_eq_Some_conv)
  have small: "length operator_status \<le> MAX_PROC_STATUS_BYTES" using query_texts(2) by (simp add: MAX_PROC_STATUS_BYTES_def)
  show ?thesis unfolding steady_operator_def
  proof (intro conjI exI)
    show "utf8_valid operator_status" by (rule query_texts)
    show "length operator_status \<le> MAX_PROC_STATUS_BYTES" by (rule small)
    show "verify_peer_process_status_text (op_pid operator_peer_sample) (op_uid operator_peer_sample) (op_gid operator_peer_sample) operator_status =
        Inr \<lparr>vs_pid = 5, vs_uid = 9, vs_gid = 9\<rparr>" using query_status by (simp add: operator_peer_sample_def)
    show "utf8_valid operator_stat" by (rule query_texts)
    show "path_is_absolute ''/work''" by (rule query_texts)
    show "after_last CHR '')'' operator_stat = Some rest" by (rule rest)
    show "list_nth 19 (split_whitespace rest) = Some ''77''" by (rule rest)
    let ?m = "\<lparr>n_kind = Directory, n_uid = 9, n_gid = 9, n_mode = 448, n_ino = (7, 9), n_bytes = []\<rparr>"
    show "n_kind ?m = Directory" by simp
    show "sample_wd = \<lparr>wd_schema_version = 1, wd_identity = wd_identity sample_wd, wd_logical_path = to_string_lossy ''/work'',
          wd_device = fst (n_ino ?m), wd_inode = snd (n_ino ?m)\<rparr>" by (simp add: sample_wd_def query_texts(5) del: to_string_lossy.simps)
    show "''sha256:'' @ file_sha256_hex (sample_peer_host 9) ''elf'' = hb_installed_client_identity query_binding"
      by (simp add: sample_peer_host_def query_binding_def digest_def)
  qed (simp_all add: operator_peer_sample_def query_binding_def sample_binding_def query_protocol_def history_protocol_def sample_wd_def
      query_sample_env_def sample_peer_host_def)
qed

text \<open>The serializer of the sample loses nothing of a message whose numbers fit their width and that fits a frame.\<close>

lemma text_field_inj:
  assumes "text_field s @ xs = text_field t @ ys" and "length s < 2 ^ 32" and "length t < 2 ^ 32"
  shows "s = t \<and> xs = ys"
proof -
  have four: "length (to_be_bytes n) = 4" for n by (simp add: to_be_bytes_def)
  with assms(1) have "to_be_bytes (length s) = to_be_bytes (length t)" "s @ xs = t @ ys"
    unfolding text_field_def by (simp_all add: append_eq_append_conv)
  moreover from this(1) from_to_be_bytes [OF assms(2)] from_to_be_bytes [OF assms(3)] have "length s = length t" by metis
  ultimately show ?thesis by simp
qed

lemma texts_field_inj:
  "texts_field ss = texts_field ts \<Longrightarrow> list_all (\<lambda>s. length s < 2 ^ 32) ss \<Longrightarrow> list_all (\<lambda>s. length s < 2 ^ 32) ts \<Longrightarrow> ss = ts"
proof (induction ss arbitrary: ts)
  case Nil
  then show ?case by (cases ts) (simp_all add: texts_field_def text_field_def to_be_bytes_def)
next
  case (Cons s ss)
  from Cons.prems(1) obtain t us where ts: "ts = t # us"
    by (cases ts) (simp_all add: texts_field_def text_field_def to_be_bytes_def)
  with Cons.prems text_field_inj [of s "texts_field ss" t "texts_field us"] have "s = t" "texts_field ss = texts_field us"
    by (simp_all add: texts_field_def)
  with Cons.IH [of us] Cons.prems(2,3) ts show ?case by simp
qed

lemma number_field_nat: "number_field n = to_be_bytes (n div 2 ^ 32) @ to_be_bytes (n mod 2 ^ 32)"
proof -
  have "int n div 2 ^ 32 = int (n div 2 ^ 32)" "int n mod 2 ^ 32 = int (n mod 2 ^ 32)" by (simp_all add: zdiv_int zmod_int)
  then show ?thesis by (simp only: number_field_def nat_int)
qed

lemma number_field_inj:
  assumes "number_field m = number_field n" and "m < 2 ^ 64" and "n < 2 ^ 64"
  shows "m = n"
proof -
  have "length (to_be_bytes k) = 4" for k by (simp add: to_be_bytes_def)
  with assms(1) have "to_be_bytes (m div 2 ^ 32) = to_be_bytes (n div 2 ^ 32)" "to_be_bytes (m mod 2 ^ 32) = to_be_bytes (n mod 2 ^ 32)"
    unfolding number_field_nat by (simp_all add: append_eq_append_conv)
  moreover have "m div 2 ^ 32 < 2 ^ 32" "n div 2 ^ 32 < 2 ^ 32" using assms(2,3) by (simp_all add: less_mult_imp_div_less)
  moreover have "m mod 2 ^ 32 < 2 ^ 32" "n mod 2 ^ 32 < 2 ^ 32" by simp_all
  ultimately have "m div 2 ^ 32 = n div 2 ^ 32" "m mod 2 ^ 32 = n mod 2 ^ 32" by (metis from_to_be_bytes)+
  then show ?thesis by (metis div_mult_mod_eq)
qed

text \<open>Its sizes, and the laws of the crate at a limit of 1000 bytes, one chunk byte and the identities of the sample.\<close>

lemma field_lengths:
  "length (text_field s) = length s + 4" "length (number_field n) = 8" "length (texts_field ss) = sum_list (map (\<lambda>s. length s + 4) ss)"
  "length (refusal_field r) = 1"
proof -
  show one: "length (text_field s) = length s + 4" for s by (simp add: text_field_def to_be_bytes_def)
  show "length (texts_field ss) = sum_list (map (\<lambda>s. length s + 4) ss)" by (simp add: texts_field_def length_concat o_def one)
qed (simp_all add: number_field_def to_be_bytes_def refusal_field_def split: history_refusal.splits)

lemma message_fields_length:
  "0 < length (texts_field (message_fields m)) \<and>
   message_texts m \<le> length (texts_field (message_fields m)) \<and>
   length (texts_field (message_fields m)) \<le> 100 + message_texts m + length (message_payload m)"
  by (cases m) (simp_all add: field_lengths split: object_kind.splits manifest_posture.splits)

lemma refusal_field_inj: "refusal_field r = refusal_field r' \<Longrightarrow> r = r'"
  by (cases r; cases r'; simp add: refusal_field_def)

lemma sum_list_short: "n + sum_list (map (\<lambda>s. length s + 4) ss) < (k :: nat) \<Longrightarrow> list_all (\<lambda>s. length s < k) ss"
proof (induction ss arbitrary: n)
  case (Cons s ss)
  from Cons.prems Cons.IH [of "n + (length s + 4)"] show ?case by simp
qed simp

lemma message_fields_inj:
  assumes "message_fields m = message_fields m'" and "message_texts m < 2 ^ 32" and "message_texts m' < 2 ^ 32"
    and "list_all (\<lambda>n. n < 2 ^ 64) (message_numbers m)" and "list_all (\<lambda>n. n < 2 ^ 64) (message_numbers m')"
  shows "m = m'"
proof (cases m)
  case m: (ManifestMsg x)
  with assms(1) obtain y where m': "m' = ManifestMsg y" by (cases m') auto
  from m m' assms(2,3) have "list_all (\<lambda>s. length s < 2 ^ 32) (mf_catalog_entry_identities x)" "list_all (\<lambda>s. length s < 2 ^ 32) (mf_catalog_entry_identities y)"
    by (auto intro!: sum_list_short [of 0])
  with m m' assms(1) texts_field_inj have "mf_catalog_entry_identities x = mf_catalog_entry_identities y" by auto
  moreover have "mf_operator_attribution x = mf_operator_attribution y" "mf_operator_posture x = mf_operator_posture y"
    by (metis operator_attribution.exhaust operator_posture.exhaust)+
  ultimately show ?thesis using assms(1,4,5) m m' number_field_inj by (auto intro!: history_manifest.equality)
next
  case m: (EntryMsg x)
  with assms(1) obtain y where "m' = EntryMsg y" by (cases m') auto
  with assms(1,4,5) m number_field_inj show ?thesis by (auto intro!: history_entry.equality)
next
  case m: (ObjectMsg x)
  with assms(1) obtain y where "m' = ObjectMsg y" by (cases m') auto
  with assms(1,4,5) m number_field_inj show ?thesis by (auto intro!: history_object.equality split: object_kind.splits)
next
  case m: (ChunkMsg x)
  with assms(1) obtain y where "m' = ChunkMsg y" by (cases m') auto
  with assms(1,4,5) m number_field_inj show ?thesis by (auto intro!: history_chunk.equality)
next
  case m: (ManifestTerminalMsg x)
  with assms(1) obtain y where "m' = ManifestTerminalMsg y" by (cases m') auto
  with assms(1,4,5) m number_field_inj show ?thesis by (auto intro!: history_terminal.equality split: manifest_posture.splits)
next
  case m: (PreQueryRefusalMsg x)
  with assms(1) obtain y where "m' = PreQueryRefusalMsg y" by (cases m') auto
  with assms(1,4,5) m number_field_inj refusal_field_inj show ?thesis by (auto intro!: pre_query_refusal.equality)
next
  case m: (QueryRefusalMsg x)
  with assms(1) obtain y where "m' = QueryRefusalMsg y" by (cases m') auto
  with assms(1,4,5) m number_field_inj refusal_field_inj show ?thesis by (auto intro!: query_refusal.equality)
qed

lemma query_codec_lossless:
  assumes "history_to_vec query_sample_env m = Some v" and "history_to_vec query_sample_env m' = Some v"
    and "length v \<le> history_max_frame_bytes query_sample_env"
    and "list_all (\<lambda>n. n < 2 ^ 64) (message_numbers m)" and "list_all (\<lambda>n. n < 2 ^ 64) (message_numbers m')"
  shows "m = m'"
proof -
  from assms(1-3) have v: "v = texts_field (message_fields m)" "v = texts_field (message_fields m')" "length v < 2 ^ 32"
    by (simp_all add: query_sample_env_def)
  have short: "message_texts x < 2 ^ 32 \<and> list_all (\<lambda>s. length s < 2 ^ 32) (message_fields x)" if "v = texts_field (message_fields x)" for x
  proof
    have "0 + sum_list (map (\<lambda>s. length s + 4) (message_fields x)) < 2 ^ 32" using v(3) unfolding that field_lengths add_0 .
    then show "list_all (\<lambda>s. length s < 2 ^ 32) (message_fields x)" by (rule sum_list_short)
    have "message_texts x \<le> length v" using message_fields_length [of x] unfolding that by blast
    then show "message_texts x < 2 ^ 32" using v(3) by (rule le_less_trans)
  qed
  note s = short [OF v(1)] short [OF v(2)]
  have "message_fields m = message_fields m'"
    by (rule texts_field_inj) (use s v(1,2) in metis)+
  then show ?thesis by (rule message_fields_inj [OF _ conjunct1 [OF s(1)] conjunct1 [OF s(2)] assms(4,5)])
qed

lemma query_serializes: "serializes_within query_sample_env 100 1 1"
  unfolding serializes_within_def
proof (intro allI impI)
  fix m
  show "\<exists>v. history_to_vec query_sample_env m = Some v \<and> v \<noteq> [] \<and>
      length v \<le> 100 + 1 * message_texts m + 1 * length (message_payload m)"
    using message_fields_length [of m] by (simp add: query_sample_env_def)
qed

lemma query_frames: "frames_within query_sample_env"
  by (simp add: frames_within_def query_sample_env_def frame_limited_def)

lemma digest_sha256: "lower_hex_byte c \<Longrightarrow> is_sha256 (digest c)"
  by (auto simp: is_sha256_iff identity_file_name_iff digest_def list_all_iff)

lemma sample_sha256:
  "is_sha256 (digest CHR ''0'')" "is_sha256 (digest CHR ''2'')" "is_sha256 (digest CHR ''3'')" "is_sha256 (digest CHR ''7'')"
  "is_sha256 (digest CHR ''a'')" "is_sha256 (digest CHR ''b'')" "is_sha256 (digest CHR ''c'')" "is_sha256 (digest CHR ''d'')" "is_sha256 (digest CHR ''e'')"
  "is_sha256 (digest CHR ''f'')"
  by (rule digest_sha256, code_simp)+

lemma sample_content_sha256: "is_sha256 (content_identity_of query_sample_env bs)"
proof -
  have "lower_hex_byte CHR ''1''" "lower_hex_byte CHR ''2''" "lower_hex_byte CHR ''3''" by code_simp+
  then show ?thesis
    by (auto simp: is_sha256_iff identity_file_name_iff query_sample_env_def sample_hash_def list_all_iff)
qed

lemma query_identities: "identities_given query_sample_env"
  unfolding identities_given_def gives_identity_def
  using sample_content_sha256 by (simp add: sample_sha256 query_sample_env_def)

lemma query_protocol_laws: "protocol_laws query_sample_env 100 1 1"
proof -
  have "longest_constant query_sample_env = 37"
    by (simp add: longest_constant_def response_constants_def query_sample_env_def)
  then have "100 + 1 * response_texts query_sample_env + 1 * max_history_chunk_payload_bytes query_sample_env \<le>
      history_max_frame_bytes query_sample_env"
    by (simp add: response_texts_def query_sample_env_def)
  with query_serializes query_frames query_identities show ?thesis by (simp only: protocol_laws_def simp_thms)
qed

lemma query_operator_identities: "operator_identities query_sample_env"
  by (simp add: operator_identities_def query_sample_env_def sample_sha256)

lemma query_manifest_sha256:
  "is_sha256 (hb_operator_profile_identity query_binding)" "is_sha256 (rm_repository_binding_identity history_mapping)"
  by (simp_all add: query_binding_def sample_binding_def history_mapping_def sample_sha256)

lemma query_arriving: "query_arrives query_sample_env sample_query (hs_in (query_session w))"
proof -
  have "pending [Bytes (take 2 query_frame), ReadInterrupted, Bytes (drop 2 query_frame)] = query_frame" "from_be_bytes (to_be_bytes 1) = 1"
    by code_simp+
  then show ?thesis unfolding query_arrives_def
    by (intro exI [of _ "to_be_bytes 1"] exI [of _ "''Q''"] exI [of _ "[]"])
      (simp add: query_session_def query_frame_def query_sample_env_def sample_query_def to_be_bytes_def)
qed

lemma query_selects:
  "history_select_mapping query_binding (ar_authority_id sample_request) (fj_working_directory history_journal) = Inr history_mapping"
  "select_live_mapping query_binding sample_wd = Inr history_mapping"
  by code_simp+

lemma query_located:
  "locate_archive_at query_sample_env archive_repo 5 (''sha256:'' @ sample_hash ''A'') ''xf'' (history_world [])
     = (Ok history_target, history_world [])"
  by code_simp

lemma query_evidence: "evidence_canonical query_sidecar history_journal"
  by code_simp

lemma query_entry_codec: "entry_codec query_sample_env"
  by (simp add: entry_codec_def query_sample_env_def encode_sample_def)

lemma query_stores: "history_store query_sample_env query_binding history_mapping catalog_dir (history_world [])"
  using sample_stores [of encode_sample "[]"]
  by (simp add: history_store_def query_binding_def query_sample_env_def sample_history_env_def)

lemma query_catalog_empty:
  "load_catalog_entries query_sample_env query_binding history_mapping (history_world []) = (Ok [], history_world [])"
  by code_simp

text \<open>The attachment does what that of \<open>History_Samples\<close> does: it uses the same part of the environment.\<close>

lemma query_env_fields:
  "sha256_hex query_sample_env = sha256_hex (sample_history_env encode_sample)" "nlink query_sample_env = nlink (sample_history_env encode_sample)"
  "sidecar_to_vec query_sample_env = sidecar_to_vec (sample_history_env encode_sample)"
  "blob_message_identity query_sample_env = blob_message_identity (sample_history_env encode_sample)"
  "entry_message_identity query_sample_env = entry_message_identity (sample_history_env encode_sample)"
  "entry_to_vec query_sample_env = entry_to_vec (sample_history_env encode_sample)"
  "max_history_response_bytes query_sample_env = max_history_response_bytes (sample_history_env encode_sample)"
  by (simp_all add: query_sample_env_def sample_history_env_def)

lemma query_reads:
  "try_read_exact_file_at query_sample_env = try_read_exact_file_at (sample_history_env encode_sample)"
  "blob_identity query_sample_env = blob_identity (sample_history_env encode_sample)"
  "catalog_entry_identity query_sample_env = catalog_entry_identity (sample_history_env encode_sample)"
  "metadata_of query_sample_env = metadata_of (sample_history_env encode_sample)"
  by (simp_all only: fun_eq_iff try_read_exact_file_at_def blob_identity_def catalog_entry_identity_def metadata_of_def query_env_fields simp_thms)

lemma query_files:
  "read_exact_file query_sample_env = read_exact_file (sample_history_env encode_sample)"
  "persist_exact_file query_sample_env = persist_exact_file (sample_history_env encode_sample)"
  by (simp_all only: fun_eq_iff read_exact_file_def persist_exact_file_def query_reads simp_thms)

lemma query_root: "hb_catalog_root query_binding = hb_catalog_root sample_binding"
  by (simp add: query_binding_def)

lemma query_publishes:
  "persist_blob query_sample_env = persist_blob (sample_history_env encode_sample)"
  "persist_catalog_entry query_sample_env query_binding = persist_catalog_entry (sample_history_env encode_sample) sample_binding"
  by (simp_all only: fun_eq_iff persist_blob_def verified_file_metadata_def persist_catalog_entry_def query_files query_reads query_env_fields
      query_root simp_thms)

lemma query_attach_runs:
  "case query_attach of (r, w) \<Rightarrow> is_Ok r \<and> list_all (\<lambda>(p, n). length (n_bytes n) \<le> 100) (w_files w)"
proof -
  have entry: "entry_for query_binding M t query_sidecar j x y z = entry_for sample_binding M t history_sidecar j x y z" for M t j x y z
    by (simp add: entry_for_def query_binding_def query_sidecar_def)
  have mapping: "history_select_mapping query_binding = history_select_mapping sample_binding"
    by (simp add: fun_eq_iff history_select_mapping_def query_binding_def)
  have same: "hb_blob_root query_binding = hb_blob_root sample_binding"
    "launcher_finalization_archive_sidecar_v1_identity query_protocol query_sidecar = launcher_finalization_archive_sidecar_v1_identity history_protocol history_sidecar"
    "sd_identity query_sidecar = sd_identity history_sidecar"
    "sa_receipt_archive_identity (sd_signed_archive query_sidecar) = sa_receipt_archive_identity (sd_signed_archive history_sidecar)"
    "sidecar_to_vec (sample_history_env encode_sample) query_sidecar = sidecar_to_vec (sample_history_env encode_sample) history_sidecar"
    by (simp_all add: query_binding_def query_sidecar_def query_protocol_def history_protocol_def sample_history_env_def)
  have "query_attach = sample_attach encode_sample []"
    unfolding query_attach_def sample_attach_def attach_protected_history_at_def
    by (simp only: query_publishes query_reads query_env_fields entry mapping same)
  with sample_attach_runs show ?thesis by simp
qed

lemma query_sidecar_serves: "sidecar_serves query_sample_env w query_sidecar history_journal"
proof -
  have "sa_crossing_transaction_identity (sd_signed_archive query_sidecar) =
      ec_crossing_transaction_identity (ef_completion (fj_finalization history_journal))" by code_simp
  then show ?thesis by (simp add: sidecar_serves_def query_sample_env_def)
qed

theorem attached_history_served_witness:
  "case query_attach of (r, w1) \<Rightarrow> \<exists>a s' out ms. r = Ok a \<and>
     serve_connection query_protocol query_sample_env (sample_peer_host 9) query_binding (query_session (calm_world w1)) = (Ok (), s') \<and>
     hs_sent s' = out \<and> encodes query_sample_env ms (map snd out) \<and>
     receive_response query_sample_env sample_query ms = Some [(pa_catalog_identity a, ''A'', ''C'', ''S'')]"
proof -
  let ?S = query_sample_env
  obtain r w1 where run: "query_attach = (r, w1)" by fastforce
  have "is_Ok r" and small: "list_all (\<lambda>(p, n). length (n_bytes n) \<le> 100) (w_files w1)"
    using query_attach_runs unfolding run by simp_all
  then obtain a where r: "r = Ok a" by (cases r) auto
  have limit: "within_limit ?S catalog_dir w1" using small by (intro within_limit_files) (simp add: query_sample_env_def)
  have calm: "calm_world (history_world []) = history_world []" by (simp add: history_world_def)
  have bytes: "fz_bytes (at_archive history_target) = ''A''" "fz_bytes (at_contract_snapshot history_target) = ''C''"
    by (simp_all add: history_target_def Let_def)
  have limits: "sidecar_to_vec ?S query_sidecar = Some ''S''"
    "length (fz_bytes (at_archive history_target)) + length (fz_bytes (at_contract_snapshot history_target)) + length ''S'' \<le> hb_maximum_response_bytes query_binding"
    "0 < hb_maximum_entry_count query_binding" "hb_maximum_response_bytes query_binding < 2 ^ 32" "0 < max_history_chunk_payload_bytes ?S"
    by (simp_all add: bytes query_sample_env_def query_binding_def sample_binding_def)
  have ask_for: "hq_archive_identity sample_query = Some (''sha256:'' @ sample_hash ''A'')" by (simp add: sample_query_def)
  let ?s = "query_session (calm_world w1)"
  have s: "hs_world ?s = calm_world w1" "hs_writes ?s = []" "hs_sent ?s = []" by (simp_all add: query_session_def)
  note attached = run [unfolded r query_attach_def]
  have "\<exists>s' out ms. serve_connection query_protocol ?S (sample_peer_host 9) query_binding ?s = (Ok (), s') \<and> hs_sent s' = hs_sent ?s @ out \<and>
      encodes ?S ms (map snd out) \<and> receive_response ?S sample_query ms =
      Some [(pa_catalog_identity a, fz_bytes (at_archive history_target), fz_bytes (at_contract_snapshot history_target), ''S'')]"
    by (rule attached_history_served [OF query_located query_evidence query_entry_codec query_stores limit sample_selects(1) query_selects(1)
          _ attached _ query_sidecar_serves limits(1-4) query_protocol_laws limits(5) query_operator_identities
          query_manifest_sha256 query_operator_steady query_selects(2) ask_for
          query_arriving s(1,2), unfolded calm, OF query_catalog_empty]) simp
  then show ?thesis unfolding run r by (simp add: s(3) bytes)
qed

section \<open>The store after the attachment\<close>

definition stored_node :: "nat \<Rightarrow> string \<Rightarrow> fnode" where
  "stored_node k bs = \<lparr>n_kind = RegularFile, n_uid = 0, n_gid = 0, n_mode = 384, n_ino = (0, k), n_bytes = bs\<rparr>"

definition query_store :: world where
  "query_store = \<lparr>w_files = history_dirs @ map (\<lambda>(k, bs). (path_join [RootDir, Normal ''b''] (sample_hash bs), stored_node k bs))
       [(10, ''A''), (11, ''C''), (12, ''S'')] @ [(path_join catalog_dir (replicate 64 CHR ''e'' @ ''.json''), stored_node 13 ''E'')],
     w_euid = 0, w_faults = []\<rparr>"

lemma query_store_loads: "load_catalog_entries query_sample_env query_binding history_mapping query_store = (Ok [sample_entry], query_store)"
  by code_simp

lemma query_store_reads: "read_entry query_sample_env query_binding ''producer'' sample_entry query_store = (Ok (''A'', ''C'', ''S''), query_store)"
  by code_simp

theorem response_exact_witness:
  "\<exists>response contents ms. fst (build_response query_sample_env query_binding history_mapping sample_query (digest CHR ''3'') query_store) = Ok response \<and>
     encodes query_sample_env ms (pr_frames response) \<and> length contents = 1 \<and> content_bytes contents \<le> 100 \<and>
     receive_response query_sample_env sample_query (ms @ [ManifestTerminalMsg (pr_terminal response)]) = Some (zip [digest CHR ''e''] contents)"
proof -
  let ?S = query_sample_env
  have ask_for: "hq_archive_identity sample_query = Some (''sha256:'' @ sample_hash ''A'')" by (simp add: sample_query_def)
  have e: "ce_receipt_archive_identity sample_entry = ''sha256:'' @ sample_hash ''A''" "ce_identity sample_entry = digest CHR ''e''"
    by (simp_all add: sample_entry_def entry_for_def history_target_def Let_def)
  have sel: "filter (\<lambda>x. ce_receipt_archive_identity x = ''sha256:'' @ sample_hash ''A'') [sample_entry] = [sample_entry]"
    by (simp only: filter.simps e simp_thms if_True)
  have limits: "0 < hb_maximum_entry_count query_binding" "producer_binding ?S query_store = Some ''producer''"
    "length ''A'' + length ''C'' + length ''S'' \<le> hb_maximum_response_bytes query_binding" "hb_maximum_response_bytes query_binding < 2 ^ 32"
    "0 < max_history_chunk_payload_bytes ?S" "hb_maximum_entry_count query_binding < 2 ^ 32" "hb_maximum_response_bytes query_binding = 100"
    by (simp_all add: query_sample_env_def query_binding_def sample_binding_def)
  have inputs: "manifest_inputs query_binding history_mapping sample_query (digest CHR ''3'')" "is_sha256 (ce_identity sample_entry)"
    unfolding e by (simp_all add: manifest_inputs_def query_manifest_sha256 sample_sha256 history_mapping_def sample_query_def)
  from build_response_runs [OF query_store_loads ask_for sel limits(1,2) query_store_reads limits(3,4) query_protocol_laws limits(5) inputs]
  obtain response where run: "build_response ?S query_binding history_mapping sample_query (digest CHR ''3'') query_store = (Ok response, query_store)"
    by blast
  from response_exact [OF run limits(5,6)] obtain es w1 selected contents producer ms where
    x: "load_catalog_entries ?S query_binding history_mapping query_store = (Ok es, w1)" "select_entries sample_query es = Inr selected"
      "encodes ?S ms (pr_frames response)" "list_all2 (entry_content_of ?S query_binding producer query_store) selected contents"
      "receive_response ?S sample_query (ms @ [ManifestTerminalMsg (pr_terminal response)]) = Some (zip (map ce_identity selected) contents)"
      "content_bytes contents \<le> hb_maximum_response_bytes query_binding" by blast
  have "es = [sample_entry]" using x(1) query_store_loads by simp
  then have "selected = [sample_entry]" using x(2) ask_for sel by (simp add: select_entries_def)
  moreover from this have "length contents = 1" using list_all2_lengthD [OF x(4)] by simp
  ultimately show ?thesis using run x(3,5,6) limits(7) e(2) by auto
qed


section \<open>A peer that is not the operator\<close>

definition guard_binding :: history_binding where
  "guard_binding = query_binding\<lparr>hb_protocol_profile := ''hp'', hb_socket_path := HISTORY_SOCKET_PATH,
     hb_installation_manifest_identity := digest CHR ''1'', hb_installed_client_identity := config_digest,
     hb_operator_profile_identity := digest CHR ''2'', hb_service_unit_identity := config_digest, hb_socket_unit_identity := config_digest,
     hb_blob_root := HISTORY_BLOB_ROOT, hb_catalog_root := HISTORY_CATALOG_ROOT\<rparr>"

definition guard_manifest :: installation_manifest where
  "guard_manifest = \<lparr>im_schema_version = 1, im_identity = ''im'', im_launcher_configuration_identity = ''id'',
     im_launcher_profile_identity = ''lp'', im_job_principal_profile_identity = ''p'',
     im_files = map (\<lambda>(r, p). \<lparr>fi_role = r, fi_path = p, fi_identity = config_digest\<rparr>)
      [(LauncherExecutable, ''/l''), (HistoryClientExecutable, ''/o''), (HistoryBinding, ''/etc/ota/authority-history.json''),
       (HistoryServiceUnit, ''/u1''), (HistorySocketUnit, ''/u2'')]\<rparr>"

text \<open>The identity of the manifest, and the one the binding names.\<close>

definition guard_binding_env :: binding_env where
  "guard_binding_env = \<lparr>manifest_message_identity =
       (\<lambda>domain _. Some (if domain = HISTORY_INSTALLATION_IDENTITY_DOMAIN_V1 then digest CHR ''1'' else ''im'')),
     evidence_message_identity = (\<lambda>_ _. None), proxy_message_identity = (\<lambda>_ _. None), build_message_identity = (\<lambda>_ _. None),
     launcher_profile_v4_identity = Some ''lp'', manifest_from_json = (\<lambda>bs. if bs = ''M'' then Some guard_manifest else None),
     evidence_from_json = (\<lambda>_. None), context_from_json = (\<lambda>_. None), administrator_identity = (\<lambda>_. None),
     subject_identity = (\<lambda>_. None), context_identity = (\<lambda>_. None), launcher_build_commit = None, protocol_build_revision = None,
     real_path = (\<lambda>_ _. None), link_count = (\<lambda>_. 1), descriptor_shows = (\<lambda>_ _. config_node RegularFile 0 []),
     history_protocol_profile = ''hp'', max_history_entry_count = 9, binding_message_identity = (\<lambda>_ _. Some ''hb''),
     mapping_message_identity = (\<lambda>_ _. Some (digest CHR ''9'')), binding_from_slice = (\<lambda>bs. if bs = ''B'' then Some guard_binding else None),
     current_exe = Some [RootDir, Normal ''l'']\<rparr>"

definition guard_config_env :: config_env where
  "guard_config_env = sample_config_env\<lparr>sha256_identity := \<lambda>_. config_digest\<rparr>"

definition guard_world :: world where
  "guard_world = \<lparr>w_files =
     map (\<lambda>p. (p, config_node Directory 0x1ED [])) (filter (\<lambda>p. p \<noteq> []) (prefixes (butlast HISTORY_BINDING_PATH) @
       prefixes HISTORY_BLOB_ROOT @ prefixes (path_join HISTORY_CATALOG_ROOT (replicate 64 CHR ''a'')))) @
     [(HISTORY_BINDING_PATH, config_node RegularFile 0x1A4 ''B''), (components SYSTEMD_INSTALLATION_MANIFEST_PATH, config_node RegularFile 0x1A4 ''M''),
      ([RootDir, Normal ''l''], config_node RegularFile 0x1ED ''L''), ([RootDir, Normal ''o''], config_node RegularFile 0x1ED ''elf''),
      ([RootDir, Normal ''u1''], config_node RegularFile 0x1A4 ''1''), ([RootDir, Normal ''u2''], config_node RegularFile 0x1A4 ''2''),
      (HISTORY_SOCKET_PATH, (config_node Socket 0x1B0 [])\<lparr>n_gid := 9\<rparr>)],
     w_euid = 0, w_faults = []\<rparr>"

definition guard_listener :: listener_host where
  "guard_listener = \<lparr>ls_pid = 7, ls_listen_pid = Some ''7'', ls_listen_fds = Some ''1'', ls_getfd = 0, ls_setfd = 0,
     ls_local_addr = Some HISTORY_SOCKET_PATH, ls_accepts = True, ls_timeouts = True\<rparr>"

definition stranger_served :: "(history_service_error, nat) outcome \<times> history_session" where
  "stranger_served = serve_once guard_config_env query_protocol guard_binding_env query_sample_env (sample_peer_host 7) guard_listener (Some 3)
     (query_session guard_world)"

text \<open>Big-endian bytes computed on integers, so that they evaluate.\<close>

lemma char_of_int: "char_of (int n) = char_of n"
  by (simp add: char_of_def bit_of_nat_iff)

lemma to_be_bytes_code [code]:
  "to_be_bytes n = [char_of (int n div 16777216), char_of (int n div 65536), char_of (int n div 256), char_of (int n)]"
proof -
  have "int n div 16777216 = int (n div 256 div 256 div 256)" "int n div 65536 = int (n div 256 div 256)" "int n div 256 = int (n div 256)"
    by (simp_all add: zdiv_int div_mult2_eq [symmetric])
  then show ?thesis by (simp only: to_be_bytes_def char_of_int)
qed

text \<open>The limit of the binding's file compared as an integer, so that it evaluates.\<close>

lemma load_binding_code [code]:
  "load_protected_history_binding_at C P E K p uid root =
     and_then (map_err (\<lambda>_. BindingUnavailable) (open_protected_file p uid root)) (\<lambda>file.
     and_then (map_err (\<lambda>_. BindingUnavailable) (fstat file)) (\<lambda>m.
       if 262144 < int (length (n_bytes m)) then throw BindingInvalid
       else and_then (map_err (\<lambda>_. BindingUnavailable) (read_to_end file)) (\<lambda>bytes.
         case binding_from_slice K bytes of
           None \<Rightarrow> throw BindingInvalid
         | Some B \<Rightarrow> and_then (validate_binding C P E K B uid root) (\<lambda>_. ret B))))"
proof -
  have "MAX_BINDING_BYTES < length x \<longleftrightarrow> 262144 < int (length x)" for x :: string by (simp add: MAX_BINDING_BYTES_def)
  then show ?thesis by (simp add: load_protected_history_binding_at_def)
qed

lemma stranger_refused: "case stranger_served of (r, s) \<Rightarrow> r = Err RequestRefused \<and> length (hs_sent s) = 1"
  by code_simp

theorem history_service_guarded_witness:
  "case stranger_served of (r, s) \<Rightarrow> r = Err RequestRefused \<and> node_at (hs_world s) = node_at guard_world \<and>
     (\<exists>out B w. hs_sent s = out \<and> out \<noteq> [] \<and>
        load_protected_history_binding_v1 guard_config_env query_protocol query_sample_env guard_binding_env guard_world = (Ok B, w) \<and>
        (pre_query_written query_sample_env out \<or> served query_sample_env (sample_peer_host 7) B (node_at guard_world) 0 out))"
proof -
  obtain r s where run: "stranger_served = (r, s)" by fastforce
  have r: "r = Err RequestRefused" "hs_sent s \<noteq> []" using stranger_refused unfolding run by auto
  have start: "hs_world (query_session guard_world) = guard_world" "hs_sent (query_session guard_world) = []" "mo_now (query_session guard_world) = 0"
    by (simp_all add: query_session_def)
  from history_service_guarded [OF run [unfolded stranger_served_def]] r show ?thesis unfolding run start by auto
qed

end
