(* ===== verification/Spec2Isabelle.thy ===== *)
theory Spec2Isabelle
  imports Recovery Relay_Samples Snapshot_Replay Client_Samples Installation_Samples Query_Samples
begin

text \<open>
  A verification library for the authority launcher, a root service that runs one governed command for
  an unprivileged client, under a lease of an authority broker, and leaves signed evidence of what
  it did.

  \<^bold>\<open>The program\<close>. The service (\<open>src/systemd_service.rs\<close>) accepts an invocation over a fixed socket, forks a
  prepared child (\<open>src/prepared_child.rs\<close>), puts it into a transient systemd scope
  (\<open>src/systemd_scope.rs\<close>) and relays between the child, the broker and the client: an attestation, an
  authorization decision, a lease consumption, the output and the completion of the execution. Every
  step is first written to the active-slot journal (\<open>src/active_slot.rs\<close>), so that a service that was
  killed can terminate what it left running. The completion becomes a finalization, which has a
  journal of its own (\<open>src/finalization_journal.rs\<close>) until the client (\<open>src/systemd_client.rs\<close>) has
  acknowledged it. Snapshot requests of the child are tickets for one use
  (\<open>src/protected_authority_snapshot.rs\<close>). Before the client is told, the receipt archive of the
  execution is searched (\<open>src/archive_attachment.rs\<close>) and filed in the protected history
  (\<open>src/protected_history.rs\<close>). A second service (\<open>src/protected_history_service.rs\<close>) answers an operator's
  queries about that history, after it has observed its peer (\<open>src/linux_observations.rs\<close>). Both run from an
  installation whose files a manifest lists (\<open>src/installation_manifest.rs\<close>).

  \<^bold>\<open>How it is modelled\<close>. A procedure is a function from a state to an outcome (\<open>Ok\<close>, \<open>Err\<close> with the error
  of the source, or \<open>Crashed\<close>) and a state; \<open>and_then\<close> is the operator \<open>?\<close>. Files live in an explicit
  world with a schedule of faults: each system call may fail, or the process may be killed in it,
  after any number of bytes. Sockets are lists of read events chosen by the peer, and a log of what was
  handed to them with the world of that moment. The protocol crate \<open>ota-authority-protocol\<close>, the JSON
  codec, SHA-256, systemd, the kernel's process table and the attestor are parameters
  (\<open>protocol\<close>, \<open>wire_env\<close>, \<open>client_env\<close>, \<open>history_env\<close>, \<open>installation_env\<close>, \<open>finalization_host\<close> and the host records); in the
  session of \<open>Finalization_Service\<close> the archive and the history are fields of its host, and the
  theories below model them on their own; hypotheses about
  them are named (\<open>slot_codec_at\<close>, \<open>fin_codec_at\<close>, \<open>framed\<close>, \<open>client_codec\<close>, \<open>distinct_kinds\<close>,
  \<open>entry_codec\<close>, \<open>identities_total\<close>, \<open>protocol_laws\<close>, \<open>operator_identities\<close>, \<open>sidecar_serves\<close>, \<open>steady_operator\<close>, \<open>descriptors_agree\<close>) and each has an
  instance in a witness. What the kernel says of a peer is a function of the moment (\<open>peer_host\<close>), and
  every observation takes a moment, so that nothing is assumed about a peer between two of them.

  \<^bold>\<open>The theories\<close>, in the order of the program.

  \<^item> \<open>Launcher_Prelude\<close>, \<open>Store_Fs\<close>, \<open>Protocol_Types\<close>: outcomes and postconditions (\<open>ensures\<close>), byte classes,
    paths, sorted maps; the file system with faults and frame conditions (\<open>touches\<close>, \<open>same_except\<close>),
    a locale for a file that is replaced atomically (\<open>atomic_replacement\<close>); the messages of the crate.
  \<^item> \<open>Protected_Path\<close>: the walk of \<open>verify_protected_path\<close> in \<open>src/config.rs\<close>.
  \<^item> \<open>Staged_Journal\<close>: a locale for a record that moves through stages by replacement of its file,
    interpreted for both journals.
  \<^item> \<open>Active_Slot\<close>, \<open>Slot_Store\<close> (\<open>src/active_slot.rs\<close>): \<open>begin_slot\<close>, the six \<open>record_\<close> operations, \<open>load_all\<close> with
    its three passes. C1 recovery after a crash at any system call, C2 the chain of evidence, C3 the
    order of the stages, C4 exclusiveness of a slot.
  \<^item> \<open>Finalization_Journal\<close>, \<open>Finalization_Store\<close> (\<open>src/finalization_journal.rs\<close>): C5 the chain of evidence,
    C6 interruption, C7 removal only after the acknowledgement, C8 a leftover file that blocks.
  \<^item> \<open>Host_Process\<close>, \<open>Systemd_Scope\<close> (\<open>terminate_recorded_child\<close> in \<open>src/prepared_child.rs\<close>, \<open>src/systemd_scope.rs\<close>):
    C9 only the recorded process is killed, C10 what a confirmed stop means, C11 only the recorded
    unit is stopped.
  \<^item> \<open>Recovery\<close> (reconciliation in \<open>src/systemd_service.rs\<close>): C12 slots are removed only when settled, C13 what
    success means, C14 and C15 two defects.
  \<^item> \<open>Wire\<close>: sockets, frames; C16 round trip, and the bounds of a frame.
  \<^item> \<open>Write_Ahead\<close>: a locale for a step that announces something; its laws give that every announcement is
    backed by the file of that moment. It is interpreted for the relays and for the finalization.
  \<^item> \<open>Relay\<close>, \<open>Selected_Relay\<close> (\<open>src/prepared_child.rs\<close>): the bridge of the attestation, the relay of decisions and
    of the lease, the secret-delivery exchange, the output threads, the wait for the child. C18 and C22
    write-ahead, C19 the outcome, C20 what the output threads send, failures included, C23 refinement of the delivery
    protocol, C24 its state machine, and the range of the exit codes.
  \<^item> \<open>Snapshot_Replay\<close> (\<open>src/protected_authority_snapshot.rs\<close>): C26 refinement of a store of tickets, C27 one use.
  \<^item> \<open>Finalization_Service\<close> (\<open>src/systemd_service.rs\<close>): signing, the archive exchange, the terminal frame and the
    recovery session. C28 write-ahead, C29 a finalization is not lost.
  \<^item> \<open>Systemd_Client\<close>, \<open>Client_Session\<close> (\<open>src/systemd_client.rs\<close>): C30 refinement of the session protocol over
    trusted connections, C31 output in order, C32 a session with the launcher's threads reproduces
    the output, C33 a defect of the report after a failed local write.
  \<^item> \<open>Launcher_Config\<close> (\<open>src/config.rs\<close>, the lookups of the service): which service configurations are
    accepted, C35 what a lookup in an accepted one yields, and that only a protected file is loaded.
  \<^item> \<open>Installation_Manifest\<close> (\<open>src/installation_manifest.rs\<close>): the manifest of the installed files, the installation of the
    history, the retained authority context; an order on roles and paths by \<open>linorder\<close> instances, and procedures that
    only read (\<open>reads\<close>). C36 exactly a verified installation is accepted, C21 a context that reconciles is backed by
    the files of that moment.
  \<^item> \<open>Publication\<close>: files that are written once, through a temporary file and \<open>RENAME_NOREPLACE\<close>; the frame
    condition \<open>grows\<close> and a locale that gives that no file changes, none is torn and no name is taken
    twice with different bytes. It is interpreted for the sidecar and for the files of the history.
  \<^item> \<open>Archive_Attachment\<close> (\<open>src/archive_attachment.rs\<close>): C40 the exact archive is found, and its sidecar
    published beside it.
  \<^item> \<open>Protected_History\<close>, \<open>History_Catalog\<close> (\<open>src/protected_history.rs\<close>): blobs and catalog entries. C37 written
    once and in order, C38 what was attached reads back and an interruption does no harm, C39 an
    attachment can be repeated. \<open>History_Binding\<close>: a binding that was loaded gives each mapping such a
    store, no two the same catalog, and its installation is that of a manifest whose files are on the disk.
  \<^item> \<open>Peer_Observation\<close> (\<open>src/linux_observations.rs\<close>): the credentials, pidfd, executable and \<open>/proc\<close> status of a
    connected peer; what each check that succeeds says of the peer, and the status text it accepts.
  \<^item> \<open>History_Response\<close> (\<open>build_response\<close> in \<open>src/protected_history_service.rs\<close>): the frames of a response and a receiver as
    its specification, with a locale for a content that travels in chunks. C25 a response carries exactly what was
    selected, within its bounds.
  \<^item> \<open>History_Service\<close> (\<open>src/protected_history_service.rs\<close>): the listener, the admission of the operator, the query, the
    answer and the refusals. C34 nothing of the history leaves before the operator is confirmed.
  \<^item> \<open>History_Query\<close>: the attachment composed with the service; the sizes of the messages the service builds, and
    that each fits a frame; C17 what was attached is served.
  \<^item> \<open>Slot_Samples\<close>, \<open>Relay_Samples\<close>, \<open>Session_Samples\<close>, \<open>Client_Samples\<close>, \<open>History_Samples\<close>,
    \<open>Query_Samples\<close>, \<open>Installation_Samples\<close>: concrete runs, the inputs of the witnesses.

  \<^bold>\<open>Termination and bounds\<close>. Every loop is a total function. \<open>decision_loop\<close> and \<open>session_loop\<close> decrease the
  bytes still to arrive, since each round takes a frame off the stream. The polls of \<open>Host_Process\<close> and
  \<open>Systemd_Scope\<close> have the number of rounds of the source. What a pipe of the child delivers is a finite list of
  events: a pipe that is held open for ever, or interrupts without end, on which \<open>join\<close> would wait without bound, is outside the
  model. On such a list a thread is run for \<open>output_work\<close> steps, one more than the reads and bytes still to come, which
  is enough (\<open>relay_outputs_end\<close>). The frames of the threads are put after the completion of the child rather than
  between the other messages, and both threads are joined even when the first one failed, where the source returns. Sequence
  numbers, file modes and wait statuses are words of their width; the counter of the threads saturates
  and that of the client is checked, as in the source.

  \<^bold>\<open>Not modelled\<close>. The loss of unsynced data at a power failure; a second writer in the protected directories;
  output frames on the error paths of the relay, where the source does not join its threads; a
  poisoned mutex; the builds with pressure features. Forking and preparing the child, the helper
  that opens the target directory and the collection of observations are sequences of system
  calls without logic of their own. \<open>serve_once\<close> of \<open>src/systemd_service.rs\<close> and the
  attestor with its client (\<open>load_producer_binding\<close>, \<open>verify_finalization_archive_sidecar\<close>) are not modelled; where the
  modelled code calls them they are parameters. The texts of \<open>/proc\<close> are split at ASCII white space only. A link count belongs to an inode and does not change
  during a call. Opening a protected file reads the metadata of its path once, through \<open>symlink_metadata\<close>: without a second writer
  the separate calls on the path and on the open file of \<open>src/config.rs\<close> agree with it. The search for an archive takes the
  names of a directory in their order and does not model an entry that cannot be read. The pressure harness is test tooling, and the reference lease store is compiled for tests only.
\<close>

end
